(* ===== verification/Prelude.thy ===== *)
theory Prelude
  imports Main "HOL-Library.Product_Lexorder" "HOL-Library.List_Lexorder" "HOL-Library.Char_ord"
begin

text \<open>
  The vocabulary shared by every component theory: identifiers and instants, Go's
  fixed-width arithmetic, database tables as lists of rows with the four SQL statements
  the stores use, and the transaction discipline of the PostgreSQL stores
  (\<^verbatim>\<open>BeginTx ... defer tx.Rollback ... Commit\<close>).

  A table is the list of its rows. \<^verbatim>\<open>SELECT ... WHERE p\<close> of one row is
  \<^term>\<open>find p rows\<close>, \<^verbatim>\<open>UPDATE\<close> is \<open>update_where\<close>, \<^verbatim>\<open>DELETE\<close> is
  \<open>delete_where\<close>, \<^verbatim>\<open>EXISTS\<close> is \<^term>\<open>list_ex p rows\<close>, \<^verbatim>\<open>ORDER BY k LIMIT n\<close> is
  \<^term>\<open>take n (sort_key k rows)\<close> and \<^verbatim>\<open>INSERT\<close> appends a row. A primary key is
  the predicate \<open>keyed\<close>.
\<close>

section \<open>Identifiers, instants, fixed-width integers\<close>

text \<open>UUIDs are numbers with \<^verbatim>\<open>uuid.Nil = 0\<close>; PostgreSQL orders them the same way.
  Instants and durations are counted in nanoseconds, the zero \<^verbatim>\<open>time.Time\<close> is 0.\<close>

type_synonym uuid = nat
type_synonym time = int
type_synonym duration = int

abbreviation (input) uuid_Nil :: uuid where "uuid_Nil \<equiv> 0"
abbreviation (input) time_zero :: time where "time_zero \<equiv> 0"
abbreviation (input) Second :: duration where "Second \<equiv> 1000000000"
abbreviation (input) Minute :: duration where "Minute \<equiv> 60000000000"
abbreviation (input) Hour :: duration where "Hour \<equiv> 3600000000000"

text \<open>Two's-complement wrap-around of Go's \<^verbatim>\<open>int64\<close> (and \<^verbatim>\<open>int\<close> on the 64-bit
  targets), and its division, which truncates towards zero.\<close>

definition int64 :: "int \<Rightarrow> int" where
  "int64 x = (x + 2 ^ 63) mod 2 ^ 64 - 2 ^ 63"

definition go_div :: "int \<Rightarrow> int \<Rightarrow> int" where
  "go_div a b = sgn a * sgn b * (\<bar>a\<bar> div \<bar>b\<bar>)"

lemma int64_id: "- (2 ^ 63) \<le> x \<Longrightarrow> x < 2 ^ 63 \<Longrightarrow> int64 x = x"
  by (simp add: int64_def)

lemma int64_range: "- (2 ^ 63) \<le> int64 x \<and> int64 x < 2 ^ 63"
proof -
  have "0 \<le> (x + 2 ^ 63) mod 2 ^ 64" and "(x + 2 ^ 63) mod 2 ^ 64 < 2 ^ 64"
    by simp_all
  then show ?thesis by (simp add: int64_def)
qed

lemma go_div_nonneg: "0 \<le> a \<Longrightarrow> 0 < b \<Longrightarrow> go_div a b = a div b"
  by (cases "a = 0") (simp_all add: go_div_def)

section \<open>Tables\<close>

named_theorems table_simps

definition update_where :: "('r \<Rightarrow> bool) \<Rightarrow> ('r \<Rightarrow> 'r) \<Rightarrow> 'r list \<Rightarrow> 'r list" where
  "update_where p f rows = map (\<lambda>r. if p r then f r else r) rows"

definition delete_where :: "('r \<Rightarrow> bool) \<Rightarrow> 'r list \<Rightarrow> 'r list" where
  "delete_where p rows = filter (\<lambda>r. \<not> p r) rows"

definition rows_affected :: "('r \<Rightarrow> bool) \<Rightarrow> 'r list \<Rightarrow> nat" where
  "rows_affected p rows = length (filter p rows)"

definition keyed :: "('r \<Rightarrow> 'k) \<Rightarrow> 'r list \<Rightarrow> bool" where
  "keyed k rows \<longleftrightarrow> distinct (map k rows)"

lemma rows_affected_witness: "rows_affected p rows = 1 \<Longrightarrow> \<exists>x \<in> set rows. p x"
  unfolding rows_affected_def by (cases "filter p rows") (auto simp: filter_eq_Cons_iff)

lemma set_update_where [table_simps]:
  "set (update_where p f rows) = (\<lambda>r. if p r then f r else r) ` set rows"
  by (simp add: update_where_def)

lemma set_delete_where [table_simps]: "set (delete_where p rows) = {r \<in> set rows. \<not> p r}"
  by (auto simp: delete_where_def)

lemma length_update_where [simp]: "length (update_where p f rows) = length rows"
  by (simp add: update_where_def)

lemma update_where_Nil [simp]: "update_where p f [] = []"
  by (simp add: update_where_def)

lemma update_where_Cons [simp]:
  "update_where p f (r # rows) = (if p r then f r else r) # update_where p f rows"
  by (simp add: update_where_def)

lemma map_update_where:
  assumes "\<And>r. r \<in> set rows \<Longrightarrow> p r \<Longrightarrow> k (f r) = k r"
  shows "map k (update_where p f rows) = map k rows"
  using assms by (simp add: update_where_def)

lemma keyed_update_where:
  assumes "keyed k rows" and "\<And>r. r \<in> set rows \<Longrightarrow> p r \<Longrightarrow> k (f r) = k r"
  shows "keyed k (update_where p f rows)"
  using assms by (simp add: keyed_def map_update_where)

lemma keyed_delete_where: "keyed k rows \<Longrightarrow> keyed k (delete_where p rows)"
  by (simp add: keyed_def delete_where_def distinct_map_filter)

lemma keyed_append1:
  "keyed k rows \<Longrightarrow> (\<And>r. r \<in> set rows \<Longrightarrow> k r \<noteq> k x) \<Longrightarrow> keyed k (rows @ [x])"
  by (fastforce simp: keyed_def)

lemma keyed_inj:
  "keyed k rows \<Longrightarrow> r \<in> set rows \<Longrightarrow> r' \<in> set rows \<Longrightarrow> k r = k r' \<Longrightarrow> r = r'"
  by (auto simp: keyed_def distinct_map inj_on_def)

lemma find_SomeD: "find p rows = Some r \<Longrightarrow> r \<in> set rows \<and> p r"
  by (induction rows) (auto split: if_splits)

lemma find_NoneD: "find p rows = None \<Longrightarrow> r \<in> set rows \<Longrightarrow> \<not> p r"
  by (induction rows) (auto split: if_splits)

lemma find_append:
  "find p (xs @ ys) = (case find p xs of None \<Rightarrow> find p ys | Some x \<Rightarrow> Some x)"
  by (induction xs) simp_all

lemma find_delete_where:
  "(\<And>r. q r \<Longrightarrow> \<not> p r) \<Longrightarrow> find p (delete_where q rows) = find p rows"
  by (induction rows) (auto simp: delete_where_def)

lemma find_deleted: "find p (delete_where p rows) = None"
  by (induction rows) (auto simp: delete_where_def)

lemma find_keyed:
  assumes "keyed k rows" and "r \<in> set rows" and "p r"
    and "\<And>x. x \<in> set rows \<Longrightarrow> p x \<Longrightarrow> k x = k r"
  shows "find p rows = Some r"
proof -
  obtain x where x: "find p rows = Some x"
    using assms(2,3) by (cases "find p rows") (auto dest: find_NoneD)
  then have "x \<in> set rows" and "p x" by (auto dest: find_SomeD)
  with assms show ?thesis using x keyed_inj by metis
qed

lemma find_update_where:
  assumes "\<And>r. p (if q r then f r else r) = p r"
  shows "find p (update_where q f rows) = map_option (\<lambda>r. if q r then f r else r) (find p rows)"
  using assms by (induction rows) auto

section \<open>Transactions\<close>

text \<open>
  A store method runs its statements in one transaction: an error return rolls back every
  statement before it, and only a commit makes the new tables visible. \<open>fault\<close> says
  that some statement or the commit itself fails for a reason outside the program
  (connection, cancelled context, foreign keys and \<^verbatim>\<open>CHECK\<close> constraints that the
  model does not carry); the method then returns the driver's error and the tables are
  as before. Since a rolled-back transaction leaves no trace, it does not matter which
  statement failed.
\<close>

definition transact ::
  "bool \<Rightarrow> 'e \<Rightarrow> ('s \<Rightarrow> 'e + ('a \<times> 's)) \<Rightarrow> 's \<Rightarrow> ('e + 'a) \<times> 's" where
  "transact fault e body s =
     (if fault then (Inl e, s)
      else case body s of Inl err \<Rightarrow> (Inl err, s) | Inr (x, s') \<Rightarrow> (Inr x, s'))"

lemma transact_fault [simp]: "transact True e body s = (Inl e, s)"
  by (simp add: transact_def)

lemma transact_Inl: "transact fault e body s = (Inl err, s') \<Longrightarrow> s' = s"
  by (auto simp: transact_def split: if_splits sum.splits prod.splits)

lemma transact_Inr:
  "transact fault e body s = (Inr x, s') \<Longrightarrow> \<not> fault \<and> body s = Inr (x, s')"
  by (auto simp: transact_def split: if_splits sum.splits prod.splits)

lemma transact_cases [consumes 1, case_names rolled_back committed]:
  assumes "transact fault e body s = (res, s')"
  obtains err where "res = Inl err" "s' = s"
    | x where "\<not> fault" "res = Inr x" "body s = Inr (x, s')"
proof (cases res)
  case (Inl err)
  with assms show ?thesis using that(1) transact_Inl by metis
next
  case (Inr x)
  with assms show ?thesis using that(2) transact_Inr by metis
qed

lemma transact_invariant:
  assumes "I s" and "\<And>x s'. body s = Inr (x, s') \<Longrightarrow> I s'"
  shows "I (snd (transact fault e body s))"
  using assms by (auto simp: transact_def split: sum.splits prod.splits)

end
