(* ===== verification/Go_Strings.thy ===== *)
theory Go_Strings
  imports Prelude
begin

text \<open>
  The parts of Go's \<^verbatim>\<open>strings\<close>, \<^verbatim>\<open>unicode/utf8\<close>, \<^verbatim>\<open>path/filepath\<close>,
  \<^verbatim>\<open>encoding/hex\<close> and \<^verbatim>\<open>strconv\<close> packages that the program uses. A Go string is a
  sequence of bytes; so is \<^typ>\<open>string\<close>, whose characters are the 256 bytes.
\<close>

section \<open>UTF-8\<close>

definition byte :: "char \<Rightarrow> nat" where
  "byte c = of_char c"

definition RuneError :: nat where
  "RuneError = 65533"

definition continuation :: "nat \<Rightarrow> bool" where
  "continuation b \<longleftrightarrow> 128 \<le> b \<and> b \<le> 191"

text \<open>\<^verbatim>\<open>utf8.DecodeRuneInString\<close>: the rune at the front, the bytes it occupies, and
  whether the encoding is valid. Overlong forms, surrogates and values past U+10FFFF are
  invalid; an invalid byte is one \<open>RuneError\<close> of width 1.\<close>

definition decode_rune :: "nat list \<Rightarrow> nat \<times> nat \<times> bool" where
  "decode_rune bs =
     (let bad = (RuneError, 1, False) in
      case bs of [] \<Rightarrow> (RuneError, 0, False)
      | b0 # r \<Rightarrow>
        if b0 < 128 then (b0, 1, True)
        else if b0 < 194 then bad
        else if b0 < 224 then
          (case r of b1 # _ \<Rightarrow>
             if continuation b1 then ((b0 - 192) * 64 + (b1 - 128), 2, True) else bad
           | _ \<Rightarrow> bad)
        else if b0 < 240 then
          (case r of b1 # b2 # _ \<Rightarrow>
             if (if b0 = 224 then 160 else 128) \<le> b1 \<and> b1 \<le> (if b0 = 237 then 159 else 191)
                \<and> continuation b2
             then ((b0 - 224) * 4096 + (b1 - 128) * 64 + (b2 - 128), 3, True) else bad
           | _ \<Rightarrow> bad)
        else if b0 < 245 then
          (case r of b1 # b2 # b3 # _ \<Rightarrow>
             if (if b0 = 240 then 144 else 128) \<le> b1 \<and> b1 \<le> (if b0 = 244 then 143 else 191)
                \<and> continuation b2 \<and> continuation b3
             then ((b0 - 240) * 262144 + (b1 - 128) * 4096 + (b2 - 128) * 64 + (b3 - 128), 4, True)
             else bad
           | _ \<Rightarrow> bad)
        else bad)"

text \<open>A string cut into runes: each with its bytes and its validity, in order.\<close>

function rune_chunks :: "string \<Rightarrow> (nat \<times> string \<times> bool) list" where
  "rune_chunks [] = []"
| "rune_chunks (c # cs) =
     (let (r, w, ok) = decode_rune (map byte (c # cs))
      in (r, c # take (w - 1) cs, ok) # rune_chunks (drop (w - 1) cs))"
  by pat_completeness auto
termination
  by (relation "measure length") auto

definition runes :: "string \<Rightarrow> nat list" where
  "runes s = map fst (rune_chunks s)"

definition ValidString :: "string \<Rightarrow> bool" where
  "ValidString s = list_all (\<lambda>(r, b, ok). ok) (rune_chunks s)"

definition RuneCount :: "string \<Rightarrow> nat" where
  "RuneCount s = length (rune_chunks s)"

lemma rune_chunks_bytes: "concat (map (\<lambda>(r, b, ok). b) (rune_chunks s)) = s"
  by (induction s rule: rune_chunks.induct) (auto split: prod.splits)

lemma RuneCount_le: "RuneCount s \<le> length s"
proof (induction s rule: rune_chunks.induct)
  case (2 c cs)
  obtain r w ok where d: "decode_rune (map byte (c # cs)) = (r, w, ok)"
    by (cases "decode_rune (map byte (c # cs))") auto
  then have "RuneCount (drop (w - 1) cs) \<le> length (drop (w - 1) cs)"
    using 2 by simp
  with d show ?case by (simp add: RuneCount_def)
qed (simp add: RuneCount_def)

text \<open>On ASCII text every byte is one rune.\<close>

definition ascii :: "string \<Rightarrow> bool" where
  "ascii s = list_all (\<lambda>c. byte c < 128) s"

lemma rune_chunks_ascii: "ascii s \<Longrightarrow> rune_chunks s = map (\<lambda>c. (byte c, [c], True)) s"
  by (induction s) (auto simp: ascii_def decode_rune_def Let_def)

lemma ascii_simps [simp]: "ascii []" "ascii (c # s) \<longleftrightarrow> byte c < 128 \<and> ascii s"
  by (simp_all add: ascii_def)

lemma ascii_append [simp]: "ascii (s @ t) \<longleftrightarrow> ascii s \<and> ascii t"
  by (simp add: ascii_def)

lemma ascii_runes: "ascii s \<Longrightarrow> runes s = map byte s"
  by (simp add: runes_def rune_chunks_ascii comp_def)

lemma ascii_ValidString: "ascii s \<Longrightarrow> ValidString s"
  by (simp add: ValidString_def rune_chunks_ascii list_all_iff)

lemma ascii_RuneCount: "ascii s \<Longrightarrow> RuneCount s = length s"
  by (simp add: RuneCount_def rune_chunks_ascii)

declare rune_chunks.simps(2) [simp del]

text \<open>Evaluation of the string functions on ASCII literals.\<close>

named_theorems go_eval

lemmas [go_eval] = rune_chunks_ascii ascii_runes ascii_ValidString ascii_RuneCount byte_def char_of_eq_iff

section \<open>Letter case and white space\<close>

text \<open>\<^verbatim>\<open>strings.ToLower\<close>. Two runes outside ASCII have an ASCII lower case
  (U+0130 and U+212A); the mappings among other runes never produce an ASCII byte and are
  left out, since every use compares the result with ASCII text.\<close>

definition lower_chunk :: "nat \<times> string \<times> bool \<Rightarrow> string" where
  "lower_chunk = (\<lambda>(r, b, ok).
     if 65 \<le> r \<and> r \<le> 90 then [char_of (r + 32)]
     else if r = 304 then ''i'' else if r = 8490 then ''k'' else b)"

definition ToLower :: "string \<Rightarrow> string" where
  "ToLower s = concat (map lower_chunk (rune_chunks s))"

definition IsSpace :: "nat \<Rightarrow> bool" where
  "IsSpace r \<longleftrightarrow> (9 \<le> r \<and> r \<le> 13) \<or> r = 32 \<or> r = 133 \<or> r = 160 \<or> r = 5760 \<or>
     (8192 \<le> r \<and> r \<le> 8202) \<or> r = 8232 \<or> r = 8233 \<or> r = 8239 \<or> r = 8287 \<or> r = 12288"

definition IsControl :: "nat \<Rightarrow> bool" where
  "IsControl r \<longleftrightarrow> r < 32 \<or> (127 \<le> r \<and> r < 160)"

definition TrimSpace :: "string \<Rightarrow> string" where
  "TrimSpace s =
     concat (map (\<lambda>(r, b, ok). b)
       (rev (dropWhile (\<lambda>(r, b, ok). IsSpace r)
         (rev (dropWhile (\<lambda>(r, b, ok). IsSpace r) (rune_chunks s))))))"

lemmas [go_eval] = ToLower_def lower_chunk_def IsSpace_def IsControl_def TrimSpace_def

section \<open>Searching, prefixes, extensions\<close>

definition HasPrefix :: "string \<Rightarrow> string \<Rightarrow> bool" where
  "HasPrefix s p \<longleftrightarrow> take (length p) s = p"

definition TrimPrefix :: "string \<Rightarrow> string \<Rightarrow> string" where
  "TrimPrefix s p = (if HasPrefix s p then drop (length p) s else s)"

definition HasSuffix :: "string \<Rightarrow> string \<Rightarrow> bool" where
  "HasSuffix s p \<longleftrightarrow> HasPrefix (rev s) (rev p)"

definition TrimSuffix :: "string \<Rightarrow> string \<Rightarrow> string" where
  "TrimSuffix s p = (if HasSuffix s p then take (length s - length p) s else s)"

text \<open>\<^verbatim>\<open>strings.ContainsAny\<close> for a set of ASCII characters.\<close>

definition ContainsAny :: "string \<Rightarrow> string \<Rightarrow> bool" where
  "ContainsAny s chars = list_ex (\<lambda>c. c \<in> set chars) s"

text \<open>\<^verbatim>\<open>strings.Cut\<close> at one separator byte: the text before and after the first
  occurrence, or \<open>None\<close> when there is none.\<close>

fun Cut :: "char \<Rightarrow> string \<Rightarrow> (string \<times> string) option" where
  "Cut d [] = None"
| "Cut d (c # cs) =
     (if c = d then Some ([], cs) else map_option (\<lambda>(a, b). (c # a, b)) (Cut d cs))"

lemmas [go_eval] = HasPrefix_def TrimPrefix_def HasSuffix_def TrimSuffix_def ContainsAny_def

lemma Cut_Some: "Cut d s = Some (a, b) \<Longrightarrow> s = a @ d # b \<and> d \<notin> set a"
  by (induction s arbitrary: a b) (auto split: if_splits)

lemma Cut_None: "Cut d s = None \<longleftrightarrow> d \<notin> set s"
  by (induction s) auto

lemma Cut_append: "d \<notin> set a \<Longrightarrow> Cut d (a @ d # b) = Some (a, b)"
  by (induction a) auto

text \<open>\<^verbatim>\<open>filepath.Ext\<close> on Unix: the suffix from the last dot of the final path
  element, scanned from the end.\<close>

fun ext_scan :: "string \<Rightarrow> string \<Rightarrow> string" where
  "ext_scan [] acc = []"
| "ext_scan (c # cs) acc =
     (if c = CHR ''/'' then [] else if c = CHR ''.'' then CHR ''.'' # acc
      else ext_scan cs (c # acc))"

definition Ext :: "string \<Rightarrow> string" where
  "Ext path = ext_scan (rev path) []"

lemma ext_scan_suffix:
  "ext_scan s acc \<noteq> [] \<Longrightarrow> \<exists>pre suf. rev s = pre @ CHR ''.'' # suf \<and>
     ext_scan s acc = CHR ''.'' # suf @ acc \<and> CHR ''.'' \<notin> set suf \<and> CHR ''/'' \<notin> set suf"
proof (induction s acc rule: ext_scan.induct)
  case (2 c cs acc)
  consider "c = CHR ''/''" | "c = CHR ''.''" | "c \<noteq> CHR ''/''" "c \<noteq> CHR ''.''"
    by blast
  then show ?case
  proof cases
    case 1
    with "2.prems" show ?thesis by simp
  next
    case c: 2
    then show ?thesis by (intro exI [of _ "rev cs"] exI [of _ "[]"]) simp
  next
    case 3
    with "2.prems" have "ext_scan cs (c # acc) \<noteq> []" by simp
    with "2.IH" 3 obtain pre suf where "rev cs = pre @ CHR ''.'' # suf"
      "ext_scan cs (c # acc) = CHR ''.'' # suf @ c # acc"
      "CHR ''.'' \<notin> set suf" "CHR ''/'' \<notin> set suf"
      by blast
    with 3 show ?thesis by (intro exI [of _ pre] exI [of _ "suf @ [c]"]) simp
  qed
qed simp

lemmas [go_eval] = Ext_def

section \<open>Hexadecimal and decimal\<close>

definition hex_digit :: "char \<Rightarrow> bool" where
  "hex_digit c \<longleftrightarrow> (48 \<le> byte c \<and> byte c \<le> 57) \<or> (97 \<le> byte c \<and> byte c \<le> 102) \<or>
     (65 \<le> byte c \<and> byte c \<le> 70)"

definition lower_hex_digit :: "char \<Rightarrow> bool" where
  "lower_hex_digit c \<longleftrightarrow> (48 \<le> byte c \<and> byte c \<le> 57) \<or> (97 \<le> byte c \<and> byte c \<le> 102)"

text \<open>\<^verbatim>\<open>hex.DecodeString\<close> succeeds on an even number of hexadecimal digits.\<close>

definition hex_decodes :: "string \<Rightarrow> bool" where
  "hex_decodes s \<longleftrightarrow> even (length s) \<and> list_all hex_digit s"

definition digit :: "char \<Rightarrow> bool" where
  "digit c \<longleftrightarrow> 48 \<le> byte c \<and> byte c \<le> 57"

definition decimal_value :: "string \<Rightarrow> nat" where
  "decimal_value s = foldl (\<lambda>n c. 10 * n + (byte c - 48)) 0 s"

text \<open>\<^verbatim>\<open>strconv.ParseUint(s, 10, 63)\<close>: digits only, and the value fits 63 bits.\<close>

definition ParseUint63 :: "string \<Rightarrow> nat option" where
  "ParseUint63 s =
     (if s \<noteq> [] \<and> list_all digit s \<and> decimal_value s < 2 ^ 63
      then Some (decimal_value s) else None)"

text \<open>Decimal rendering (\<^verbatim>\<open>strconv.FormatInt\<close> of a natural number), the inverse.\<close>

fun show_nat :: "nat \<Rightarrow> string" where
  "show_nat n = (if n < 10 then [char_of (48 + n)] else show_nat (n div 10) @ [char_of (48 + n mod 10)])"

declare show_nat.simps [simp del]

lemmas [go_eval] = hex_decodes_def hex_digit_def digit_def decimal_value_def ParseUint63_def

lemma byte_char_of: "n < 256 \<Longrightarrow> byte (char_of n) = n"
  by (simp add: byte_def)

lemma show_nat_digits: "list_all digit (show_nat n) \<and> show_nat n \<noteq> []"
proof (induction n rule: show_nat.induct)
  case (1 n)
  then show ?case
    by (cases "n < 10") (simp_all add: show_nat.simps [of n] digit_def byte_char_of)
qed

lemma decimal_value_snoc: "decimal_value (s @ [c]) = 10 * decimal_value s + (byte c - 48)"
  by (simp add: decimal_value_def)

lemma decimal_value_show_nat: "decimal_value (show_nat n) = n"
proof (induction n rule: show_nat.induct)
  case (1 n)
  show ?case
  proof (cases "n < 10")
    case True
    then show ?thesis
      by (simp add: show_nat.simps [of n] decimal_value_def byte_char_of)
  next
    case False
    have "decimal_value (show_nat n) = 10 * decimal_value (show_nat (n div 10)) + n mod 10"
      using False by (simp add: show_nat.simps [of n] decimal_value_snoc byte_char_of)
    also have "\<dots> = 10 * (n div 10) + n mod 10" using 1 False by simp
    finally show ?thesis by simp
  qed
qed

lemma ParseUint63_show_nat: "n < 2 ^ 63 \<Longrightarrow> ParseUint63 (show_nat n) = Some n"
  using show_nat_digits [of n] by (simp add: ParseUint63_def decimal_value_show_nat)

lemma digit_not_special:
  "list_all digit s \<Longrightarrow> CHR ''-'' \<notin> set s \<and> CHR '','' \<notin> set s"
  by (induction s) (auto simp: digit_def byte_def)

end
