(* ===== verification/Files_Model.thy ===== *)
theory Files_Model
  imports Go_Strings
begin

text \<open>
  The data of the file subsystem (\<^verbatim>\<open>internal/files/model.go\<close>,
  \<^verbatim>\<open>internal/auth/model.go\<close>, \<^verbatim>\<open>internal/processing/model.go\<close>) and the tables the
  upload store and the processing store share. A record field keeps the Go field's name
  behind a prefix for its struct; the error values are the constructors of
  \<open>files_error\<close>, with \<open>ErrText\<close> for the anonymous \<^verbatim>\<open>errors.New\<close> values,
  \<open>ErrDriver\<close> for an error of the database driver that is passed on unchanged and
  \<open>ErrNoRows\<close> for an unmapped \<^verbatim>\<open>pgx.ErrNoRows\<close>.
\<close>

section \<open>Users and principals\<close>

datatype Role = RoleAdmin | RoleStudent
datatype Status = StatusActive | StatusDisabled

record User =
  u_ID :: uuid
  u_Username :: string
  u_DisplayName :: string
  u_Role :: Role
  u_Status :: Status
  u_PasswordHash :: string
  u_MustChangePassword :: bool
  u_CreatedAt :: time

text \<open>\<^verbatim>\<open>net.IP\<close> is a byte slice that may be nil.\<close>

record Principal =
  p_User :: User
  p_RequestID :: string
  p_IP :: "string option"

section \<open>Errors\<close>

datatype files_error =
    ErrInvalid | ErrForbidden | ErrNotFound | ErrUploadExpired | ErrUploadConflict
  | ErrUploadPartConflict | ErrTooManyPartRequests | ErrUploadIncomplete | ErrPartHashMismatch
  | ErrFinalHashMismatch | ErrRangeNotSatisfiable int | ErrAccessUnavailable | ErrDraftConflict
  | ErrFileInUse | ErrFileVersionExpired | ErrFileNotRetryable | ErrFileTooLarge
  | ErrFileTypeRejected
  | ErrText string | ErrDriver | ErrNoRows

section \<open>Uploads\<close>

definition MaxUploadSize :: int where "MaxUploadSize = 524288000"
definition UploadPartSize :: int where "UploadPartSize = 8 * 1024 * 1024"

datatype UploadState =
  UploadOpen | UploadCompleting | UploadCompleted | UploadCancelled | UploadExpired

datatype UploadPurpose = UploadPurposeTeaching | UploadPurposeQA | UploadPurposeAI

record CreateUploadInput =
  in_DisplayName :: string
  in_DeclaredMIME :: string
  in_ExpectedSize :: int
  in_ExpectedSHA256 :: string

text \<open>An \<^verbatim>\<open>io.Reader\<close> body: the bytes it yields and whether it then fails instead of
  reporting end of file.\<close>

record body =
  b_bytes :: string
  b_fails :: bool

record PutPartInput =
  pp_SessionID :: uuid
  pp_Number :: int
  pp_Size :: int
  pp_SHA256 :: string
  pp_Body :: "body option"

record UploadSession =
  us_ID :: uuid
  us_ActorUserID :: uuid
  us_Purpose :: UploadPurpose
  us_ObjectKey :: string
  us_MinIOUploadID :: string
  us_DisplayName :: string
  us_DeclaredMIME :: string
  us_ExpectedSize :: int
  us_ExpectedSHA256 :: string
  us_State :: UploadState
  us_ExpiresAt :: time
  us_CreatedAt :: time

record UploadPart =
  up_SessionID :: uuid
  up_Number :: int
  up_Size :: int
  up_SHA256 :: string
  up_ETag :: string
  up_CreatedAt :: time

record PartView =
  pv_Number :: int
  pv_Size :: int
  pv_SHA256 :: string

record UploadView =
  uv_ID :: uuid
  uv_DisplayName :: string
  uv_DeclaredMIME :: string
  uv_ExpectedSize :: int
  uv_ExpectedSHA256 :: string
  uv_State :: UploadState
  uv_ExpiresAt :: time
  uv_Parts :: "PartView list"

text \<open>\<^verbatim>\<open>file_versions.processing_state\<close>; the column's \<^verbatim>\<open>CHECK\<close> admits these five.\<close>

datatype file_state = Pending_scan | Processing | Ready | Rejected | Failed

record CompletedUpload =
  cu_FileID :: uuid
  cu_FileVersionID :: uuid
  cu_ProcessingState :: file_state

section \<open>Access\<close>

datatype AccessPolicy = PolicyPreview | PolicyDownload
datatype AccessAction = ActionPreview | ActionDownload | ActionOther string
datatype AccessResult = AccessAllowed | AccessDenied | AccessMalformed | AccessFailed

record Delivery =
  d_VersionID :: uuid
  d_RevisionID :: uuid
  d_ObjectKey :: string
  d_DisplayName :: string
  d_ContentType :: string
  d_Size :: int
  d_Policy :: AccessPolicy
  d_Playable :: bool
  d_Preview :: bool

record AccessLog =
  al_ActorUserID :: uuid
  al_RequestedVersionID :: uuid
  al_VersionID :: uuid
  al_RevisionID :: uuid
  al_QAMessageID :: uuid
  al_AIMessageID :: uuid
  al_Action :: AccessAction
  al_Result :: AccessResult
  al_Reason :: string
  al_RequestID :: string
  al_IP :: "string option"
  al_RangeStart :: "int option"
  al_RangeEnd :: "int option"
  al_PlaybackSessionHash :: string

record OpenInput =
  oi_VersionID :: uuid
  oi_Action :: AccessAction
  oi_Range :: string
  oi_PlaybackSession :: string

record ResponseRange =
  rr_Start :: int
  rr_End :: int
  rr_Total :: int

record OpenedFile =
  of_Body :: body
  of_DisplayName :: string
  of_ContentType :: string
  of_Size :: int
  of_Partial :: bool
  of_Range :: ResponseRange
  of_Playable :: bool

section \<open>Tables\<close>

record file_row =
  f_id :: uuid
  f_created_by :: uuid
  f_deleted_at :: "time option"

record file_version =
  fv_id :: uuid
  fv_file_id :: uuid
  fv_version :: int
  fv_purpose :: UploadPurpose
  fv_object_key :: string
  fv_display_name :: string
  fv_declared_mime :: string
  fv_size_bytes :: int
  fv_sha256 :: string
  fv_processing_state :: file_state
  fv_created_by :: uuid
  fv_retention_until :: "time option"
  fv_detected_mime :: "string option"
  fv_scan_result :: "string option"
  fv_browser_playable :: bool
  fv_video_container :: "string option"
  fv_video_codec :: "string option"
  fv_video_duration_ms :: "int option"
  fv_video_width :: "int option"
  fv_video_height :: "int option"
  fv_failure_category :: "string option"

datatype JobState = StateQueued | StateRunning | StateCompleted | StateFailed

record job_row =
  j_id :: uuid
  j_file_version_id :: uuid
  j_kind :: string
  j_state :: JobState
  j_attempts :: int
  j_available_at :: time
  j_lease_owner :: "string option"
  j_lease_until :: "time option"
  j_last_failure_category :: "string option"
  j_created_at :: time
  j_updated_at :: time

record preview_row =
  fp_file_version_id :: uuid
  fp_preview_kind :: string
  fp_object_key :: string
  fp_content_type :: string
  fp_size_bytes :: int
  fp_sha256 :: string
  fp_processing_state :: string

datatype ArtifactState = ArtifactReserved | ArtifactStored | ArtifactDeletePending

record artifact_row =
  a_file_version_id :: uuid
  a_processing_job_id :: uuid
  a_attempt_no :: int
  a_artifact_kind :: string
  a_object_key :: string
  a_content_type :: string
  a_size_bytes :: int
  a_sha256 :: string
  a_state :: ArtifactState
  a_cleanup_lease_owner :: "string option"
  a_cleanup_lease_until :: "time option"
  a_updated_at :: time

record audit_event =
  ev_ActorUserID :: uuid
  ev_Action :: string
  ev_TargetType :: string
  ev_TargetID :: uuid
  ev_RequestID :: string
  ev_IP :: "string option"

record files_db =
  upload_sessions :: "UploadSession list"
  upload_parts :: "UploadPart list"
  file_rows :: "file_row list"
  file_versions :: "file_version list"
  file_processing_jobs :: "job_row list"
  file_previews :: "preview_row list"
  file_processing_artifacts :: "artifact_row list"
  audit_logs :: "audit_event list"

definition empty_files_db :: files_db where
  "empty_files_db = \<lparr>upload_sessions = [], upload_parts = [], file_rows = [], file_versions = [],
     file_processing_jobs = [], file_previews = [], file_processing_artifacts = [], audit_logs = []\<rparr>"

definition referenced :: "string \<Rightarrow> files_db \<Rightarrow> bool" where
  "referenced key db = list_ex (\<lambda>fv. fv_object_key fv = key) (file_versions db)"

lemma referenced_iff: "referenced key db \<longleftrightarrow> (\<exists>fv \<in> set (file_versions db). fv_object_key fv = key)"
  by (simp add: referenced_def list_ex_iff)

section \<open>The object store the services call\<close>

text \<open>
  \<^verbatim>\<open>objectstore.Store\<close>, as the operations of an object store with state \<open>'o\<close>. The
  store behind it is a separate service, so every definition that calls it takes the
  operations as an argument. \<open>os_PutPart\<close> also returns how many bytes it read from
  the part's reader, which the caller counts; \<open>os_Get\<close> returns the object's body.
\<close>

datatype object_error = ObjNotFound | ObjConflict | ObjUnavailable

record ObjectMeta =
  om_ContentType :: string
  om_SHA256 :: string

record Part =
  pt_Number :: int
  pt_ETag :: string
  pt_Size :: int

record ObjectInfo =
  oinf_Size :: int
  oinf_ETag :: string

record 'o objectstore =
  os_CreateMultipart :: "string \<Rightarrow> ObjectMeta \<Rightarrow> 'o \<Rightarrow> (object_error + string) \<times> 'o"
  os_PutPart :: "string \<Rightarrow> string \<Rightarrow> int \<Rightarrow> body \<Rightarrow> int \<Rightarrow> string \<Rightarrow> 'o \<Rightarrow> (object_error + Part) \<times> nat \<times> 'o"
  os_CompleteMultipart :: "string \<Rightarrow> string \<Rightarrow> Part list \<Rightarrow> 'o \<Rightarrow> (object_error + ObjectInfo) \<times> 'o"
  os_AbortMultipart :: "string \<Rightarrow> string \<Rightarrow> 'o \<Rightarrow> object_error option \<times> 'o"
  os_Stat :: "string \<Rightarrow> 'o \<Rightarrow> object_error + ObjectInfo"
  os_Get :: "string \<Rightarrow> (int \<times> int) option \<Rightarrow> 'o \<Rightarrow> object_error + (body \<times> ObjectInfo)"
  os_Delete :: "string \<Rightarrow> 'o \<Rightarrow> object_error option \<times> 'o"

end
