(* ===== verification/Upload_Policy.thy ===== *)
theory Upload_Policy
  imports Files_Model
begin

text \<open>
  \<^verbatim>\<open>internal/files/upload_policy.go\<close> and the input validation of
  \<^verbatim>\<open>internal/files/upload_service.go\<close>. The Go interface \<^verbatim>\<open>UploadPolicy\<close> is the
  record \<open>UploadPolicy\<close> of its three methods; the contract its callers rely on is
  the locale \<open>upload_policy\<close>, interpreted for the teaching, Q&A and AI policies. An
  \<^verbatim>\<open>error\<close> result is an option, \<open>None\<close> for nil.
\<close>

section \<open>Field validation\<close>

definition validHash :: "string \<Rightarrow> bool" where
  "validHash value \<longleftrightarrow> \<not> (length value \<noteq> 32 * 2 \<or> ToLower value \<noteq> value) \<and> hex_decodes value"

definition validDisplayName :: "string \<Rightarrow> bool" where
  "validDisplayName name =
     (if name = [] \<or> \<not> ValidString name \<or> RuneCount name > 255 \<or> TrimSpace name \<noteq> name
         \<or> name = ''.'' \<or> name = ''..''
         \<or> ContainsAny name [CHR ''/'', CHR 0x5C, CHR 0x00, CHR 0x0D, CHR 0x0A] then False
      else if list_ex (\<lambda>r. r < 32 \<or> r = 127) (runes name) then False
      else Ext name \<noteq> [])"

definition validatePrincipal :: "Principal \<Rightarrow> files_error option" where
  "validatePrincipal actor =
     (if u_ID (p_User actor) = uuid_Nil \<or> u_Status (p_User actor) \<noteq> StatusActive
         \<or> TrimSpace (p_RequestID actor) = [] \<or> p_IP actor = None
      then Some ErrForbidden else None)"

definition allowedUploadTypes :: "(string \<times> string list) list" where
  "allowedUploadTypes =
    [(''.pdf'', [''application/pdf'']),
     (''.docx'', [''application/vnd.openxmlformats-officedocument.wordprocessingml.document'']),
     (''.xlsx'', [''application/vnd.openxmlformats-officedocument.spreadsheetml.sheet'']),
     (''.pptx'', [''application/vnd.openxmlformats-officedocument.presentationml.presentation'']),
     (''.txt'', [''text/plain'']), (''.md'', [''text/markdown'']),
     (''.jpg'', [''image/jpeg'']), (''.jpeg'', [''image/jpeg'']), (''.png'', [''image/png'']),
     (''.webp'', [''image/webp'']), (''.gif'', [''image/gif'']),
     (''.mp4'', [''video/mp4'']), (''.webm'', [''video/webm'']), (''.ogg'', [''video/ogg'']),
     (''.ogv'', [''video/ogg'']),
     (''.mov'', [''video/quicktime'']), (''.avi'', [''video/x-msvideo'']),
     (''.mkv'', [''video/x-matroska''])]"

definition validCreateInput :: "CreateUploadInput \<Rightarrow> bool" where
  "validCreateInput inp =
     (if in_ExpectedSize inp < 1 \<or> in_ExpectedSize inp > MaxUploadSize
         \<or> \<not> validHash (in_ExpectedSHA256 inp) \<or> \<not> validDisplayName (in_DisplayName inp) then False
      else (let ext = ToLower (Ext (in_DisplayName inp));
                mimes = (case map_of allowedUploadTypes ext of None \<Rightarrow> [] | Some ms \<Rightarrow> ms)
            in list_ex (\<lambda>allowed. in_DeclaredMIME inp = allowed) mimes))"

section \<open>The three policies\<close>

record UploadPolicy =
  Purpose :: UploadPurpose
  Authorize :: "User \<Rightarrow> files_error option"
  Validate :: "CreateUploadInput \<Rightarrow> files_error option"

type_synonym upload_limits = "(string \<times> (string \<times> int) list) list"

definition qaUploadLimits :: upload_limits where
  "qaUploadLimits =
    [(''.jpg'', [(''image/jpeg'', 20 * 2 ^ 20)]), (''.jpeg'', [(''image/jpeg'', 20 * 2 ^ 20)]),
     (''.png'', [(''image/png'', 20 * 2 ^ 20)]), (''.webp'', [(''image/webp'', 20 * 2 ^ 20)]),
     (''.gif'', [(''image/gif'', 20 * 2 ^ 20)]),
     (''.pdf'', [(''application/pdf'', 50 * 2 ^ 20)]),
     (''.docx'', [(''application/vnd.openxmlformats-officedocument.wordprocessingml.document'', 30 * 2 ^ 20)]),
     (''.xlsx'', [(''application/vnd.openxmlformats-officedocument.spreadsheetml.sheet'', 30 * 2 ^ 20)]),
     (''.pptx'', [(''application/vnd.openxmlformats-officedocument.presentationml.presentation'', 30 * 2 ^ 20)]),
     (''.txt'', [(''text/plain'', 10 * 2 ^ 20)]), (''.md'', [(''text/markdown'', 10 * 2 ^ 20)])]"

definition aiUploadLimits :: upload_limits where
  "aiUploadLimits =
    [(''.jpg'', [(''image/jpeg'', 20 * 2 ^ 20)]), (''.jpeg'', [(''image/jpeg'', 20 * 2 ^ 20)]),
     (''.png'', [(''image/png'', 20 * 2 ^ 20)]), (''.webp'', [(''image/webp'', 20 * 2 ^ 20)]),
     (''.gif'', [(''image/gif'', 20 * 2 ^ 20)]),
     (''.pdf'', [(''application/pdf'', 50 * 2 ^ 20)]),
     (''.docx'', [(''application/vnd.openxmlformats-officedocument.wordprocessingml.document'', 30 * 2 ^ 20)]),
     (''.txt'', [(''text/plain'', 10 * 2 ^ 20)]), (''.md'', [(''text/markdown'', 10 * 2 ^ 20)])]"

definition limit_for :: "upload_limits \<Rightarrow> string \<Rightarrow> string \<Rightarrow> int option" where
  "limit_for limits ext mime =
     (case map_of limits ext of None \<Rightarrow> None | Some row \<Rightarrow> map_of row mime)"

definition validateLimitedUpload :: "CreateUploadInput \<Rightarrow> upload_limits \<Rightarrow> files_error option" where
  "validateLimitedUpload inp limits =
     (if in_ExpectedSize inp < 1 \<or> \<not> validHash (in_ExpectedSHA256 inp)
         \<or> \<not> validDisplayName (in_DisplayName inp) then Some ErrInvalid
      else case limit_for limits (ToLower (Ext (in_DisplayName inp))) (in_DeclaredMIME inp) of
        None \<Rightarrow> Some ErrFileTypeRejected
      | Some limit \<Rightarrow> if in_ExpectedSize inp > limit then Some ErrFileTooLarge else None)"

definition TeachingUploadPolicy :: UploadPolicy where
  "TeachingUploadPolicy =
    \<lparr>Purpose = UploadPurposeTeaching,
     Authorize = (\<lambda>user. if u_ID user = uuid_Nil \<or> u_Role user \<noteq> RoleAdmin
                            \<or> u_Status user \<noteq> StatusActive then Some ErrForbidden else None),
     Validate = (\<lambda>inp. if \<not> validCreateInput inp then Some ErrInvalid else None)\<rparr>"

definition QAUploadPolicy :: UploadPolicy where
  "QAUploadPolicy =
    \<lparr>Purpose = UploadPurposeQA,
     Authorize = (\<lambda>user. if u_ID user = uuid_Nil \<or> u_Status user \<noteq> StatusActive
                            \<or> (u_Role user \<noteq> RoleStudent \<and> u_Role user \<noteq> RoleAdmin)
                          then Some ErrForbidden else None),
     Validate = (\<lambda>inp. validateLimitedUpload inp qaUploadLimits)\<rparr>"

definition AIUploadPolicy :: UploadPolicy where
  "AIUploadPolicy =
    \<lparr>Purpose = UploadPurposeAI,
     Authorize = (\<lambda>user. if u_ID user = uuid_Nil \<or> u_Status user \<noteq> StatusActive
                            \<or> u_Role user \<noteq> RoleStudent then Some ErrForbidden else None),
     Validate = (\<lambda>inp. validateLimitedUpload inp aiUploadLimits)\<rparr>"

section \<open>What the validators guarantee\<close>

lemma hex_digit_ascii: "hex_digit c \<Longrightarrow> byte c < 128"
  by (auto simp: hex_digit_def)

lemma list_all_hex_ascii: "list_all hex_digit s \<Longrightarrow> ascii s"
  by (auto simp: ascii_def list_all_iff hex_digit_ascii)

lemma ToLower_ascii:
  "ascii s \<Longrightarrow> ToLower s = map (\<lambda>c. if 65 \<le> byte c \<and> byte c \<le> 90 then char_of (byte c + 32) else c) s"
  by (induction s)
    (auto simp: ToLower_def rune_chunks_ascii lower_chunk_def)

text \<open>\<open>validHash\<close> accepts exactly the 64-digit lower-case hexadecimal strings, the
  shape the \<^verbatim>\<open>sha256\<close> columns demand.\<close>

lemma validHash_iff: "validHash v \<longleftrightarrow> length v = 64 \<and> list_all lower_hex_digit v"
proof -
  have fix_iff: "map (\<lambda>c. if 65 \<le> byte c \<and> byte c \<le> 90 then char_of (byte c + 32) else c) s = s
      \<longleftrightarrow> list_all (\<lambda>c. \<not> (65 \<le> byte c \<and> byte c \<le> 90)) s" for s
  proof (induction s)
    case (Cons c s)
    have "char_of (byte c + 32) \<noteq> c" if "byte c \<le> 90"
      using that byte_char_of [of "byte c + 32"] by auto
    with Cons show ?case by auto
  qed simp
  have hex: "hex_digit c \<and> \<not> (65 \<le> byte c \<and> byte c \<le> 90) \<longleftrightarrow> lower_hex_digit c" for c
    by (auto simp: hex_digit_def lower_hex_digit_def)
  show ?thesis
  proof (cases "list_all hex_digit v")
    case True
    then have "ToLower v = v \<longleftrightarrow> list_all (\<lambda>c. \<not> (65 \<le> byte c \<and> byte c \<le> 90)) v"
      by (simp add: ToLower_ascii list_all_hex_ascii fix_iff)
    with True hex show ?thesis
      by (auto simp: validHash_def hex_decodes_def list_all_iff)
  next
    case False
    then show ?thesis using hex by (auto simp: validHash_def hex_decodes_def list_all_iff)
  qed
qed

text \<open>A file name the validator accepts names one path element: it holds no separator and
  is neither of the two directory entries, so it cannot leave a directory it is joined to.\<close>

lemma validDisplayName_safe:
  assumes "validDisplayName n"
  shows "CHR ''/'' \<notin> set n" and "CHR 0x5C \<notin> set n" and "CHR 0x00 \<notin> set n"
    and "n \<noteq> ''.''" and "n \<noteq> ''..''" and "n \<noteq> []" and "RuneCount n \<le> 255"
  using assms by (auto simp: validDisplayName_def ContainsAny_def list_ex_iff split: if_splits)

lemma limit_for_le:
  assumes "limit_for limits ext mime = Some l"
    and "list_all (\<lambda>(e, row). list_all (\<lambda>(m, k). k \<le> B) row) limits"
  shows "l \<le> B"
proof -
  from assms(1) obtain row where "map_of limits ext = Some row" and "map_of row mime = Some l"
    by (auto simp: limit_for_def split: option.splits)
  then have "(ext, row) \<in> set limits" and "(mime, l) \<in> set row"
    by (auto dest: map_of_SomeD)
  with assms(2) show ?thesis by (fastforce simp: list_all_iff)
qed

lemma qa_limits_le: "list_all (\<lambda>(e, row). list_all (\<lambda>(m, k). k \<le> MaxUploadSize) row) qaUploadLimits"
  by (simp add: qaUploadLimits_def MaxUploadSize_def)

lemma ai_limits_le: "list_all (\<lambda>(e, row). list_all (\<lambda>(m, k). k \<le> MaxUploadSize) row) aiUploadLimits"
  by (simp add: aiUploadLimits_def MaxUploadSize_def)

lemma validateLimitedUpload_None:
  "validateLimitedUpload inp limits = None \<longleftrightarrow>
     1 \<le> in_ExpectedSize inp \<and> validHash (in_ExpectedSHA256 inp) \<and> validDisplayName (in_DisplayName inp) \<and>
     (\<exists>l. limit_for limits (ToLower (Ext (in_DisplayName inp))) (in_DeclaredMIME inp) = Some l \<and>
          in_ExpectedSize inp \<le> l)"
  by (auto simp: validateLimitedUpload_def split: option.splits if_splits)

lemma validCreateInput_iff:
  "validCreateInput inp \<longleftrightarrow>
     1 \<le> in_ExpectedSize inp \<and> in_ExpectedSize inp \<le> MaxUploadSize \<and> validHash (in_ExpectedSHA256 inp) \<and>
     validDisplayName (in_DisplayName inp) \<and>
     (\<exists>mimes. map_of allowedUploadTypes (ToLower (Ext (in_DisplayName inp))) = Some mimes \<and>
        in_DeclaredMIME inp \<in> set mimes)"
  by (cases "map_of allowedUploadTypes (ToLower (Ext (in_DisplayName inp)))")
    (auto simp: validCreateInput_def list_ex_iff)

section \<open>The policy contract\<close>

text \<open>What \<^verbatim>\<open>UploadService\<close> relies on, whichever policy it was built with: an authorised
  user is a real, active one, and an accepted request is within the global upload limit
  with a well-formed digest and name.\<close>

locale upload_policy =
  fixes P :: UploadPolicy
  assumes authorize_active:
      "Authorize P user = None \<Longrightarrow> u_ID user \<noteq> uuid_Nil \<and> u_Status user = StatusActive"
    and validate_size:
      "Validate P inp = None \<Longrightarrow> 1 \<le> in_ExpectedSize inp \<and> in_ExpectedSize inp \<le> MaxUploadSize"
    and validate_hash: "Validate P inp = None \<Longrightarrow> validHash (in_ExpectedSHA256 inp)"
    and validate_name: "Validate P inp = None \<Longrightarrow> validDisplayName (in_DisplayName inp)"

interpretation teaching: upload_policy TeachingUploadPolicy
  by unfold_locales
    (auto simp: TeachingUploadPolicy_def validCreateInput_iff split: if_splits)

interpretation qa: upload_policy QAUploadPolicy
  by unfold_locales
    (auto simp: QAUploadPolicy_def validateLimitedUpload_None split: if_splits
      dest: limit_for_le [OF _ qa_limits_le])

interpretation ai: upload_policy AIUploadPolicy
  by unfold_locales
    (auto simp: AIUploadPolicy_def validateLimitedUpload_None split: if_splits
      dest: limit_for_le [OF _ ai_limits_le])

section \<open>How the policies relate\<close>

lemma ai_limit_qa: "limit_for aiUploadLimits ext mime = Some l \<Longrightarrow> limit_for qaUploadLimits ext mime = Some l"
  by (auto simp: limit_for_def aiUploadLimits_def qaUploadLimits_def split: if_splits)

lemma qa_limit_allowed:
  "limit_for qaUploadLimits ext mime = Some l \<Longrightarrow>
   \<exists>mimes. map_of allowedUploadTypes ext = Some mimes \<and> mime \<in> set mimes"
  by (auto simp: limit_for_def qaUploadLimits_def allowedUploadTypes_def split: if_splits)

text \<open>The policies are nested. A request the AI policy accepts is accepted by the Q&A
  policy, and a request the Q&A policy accepts passes the teaching policy's type, size,
  digest and name rules, so no attachment type exists that the file centre does not know.\<close>

theorem upload_policies_nested:
  "(Validate AIUploadPolicy inp = None \<longrightarrow> Validate QAUploadPolicy inp = None) \<and>
   (Validate QAUploadPolicy inp = None \<longrightarrow> Validate TeachingUploadPolicy inp = None)"
proof (intro conjI impI)
  assume "Validate AIUploadPolicy inp = None"
  then show "Validate QAUploadPolicy inp = None"
    by (auto simp: AIUploadPolicy_def QAUploadPolicy_def validateLimitedUpload_None dest: ai_limit_qa)
next
  assume a: "Validate QAUploadPolicy inp = None"
  then have "\<exists>l. limit_for qaUploadLimits (ToLower (Ext (in_DisplayName inp))) (in_DeclaredMIME inp) = Some l"
    by (auto simp: QAUploadPolicy_def validateLimitedUpload_None)
  then have "\<exists>mimes. map_of allowedUploadTypes (ToLower (Ext (in_DisplayName inp))) = Some mimes \<and>
      in_DeclaredMIME inp \<in> set mimes"
    using qa_limit_allowed by blast
  with qa.validate_size [OF a] qa.validate_hash [OF a] qa.validate_name [OF a]
  show "Validate TeachingUploadPolicy inp = None"
    by (simp add: TeachingUploadPolicy_def validCreateInput_iff)
qed

definition sample_hash :: string where
  "sample_hash = replicate 64 CHR ''a''"

definition sample_pdf :: CreateUploadInput where
  "sample_pdf = \<lparr>in_DisplayName = ''notes.PDF'', in_DeclaredMIME = ''application/pdf'',
     in_ExpectedSize = 12000000, in_ExpectedSHA256 = sample_hash\<rparr>"

lemma sample_hash_valid: "validHash sample_hash"
  by (simp add: sample_hash_def validHash_iff lower_hex_digit_def byte_def list_all_iff)

lemma sample_pdf_ai: "Validate AIUploadPolicy sample_pdf = None"
proof -
  have "validDisplayName ''notes.PDF''" and "ToLower (Ext ''notes.PDF'') = ''.pdf''"
    by (simp_all add: validDisplayName_def go_eval)
  then show ?thesis
    by (simp add: AIUploadPolicy_def validateLimitedUpload_None sample_pdf_def sample_hash_valid
        limit_for_def aiUploadLimits_def)
qed

theorem upload_policies_nested_witness:
  "Validate AIUploadPolicy sample_pdf = None \<and> Validate TeachingUploadPolicy sample_pdf = None"
  using sample_pdf_ai upload_policies_nested [of sample_pdf] by simp

end
