(* ===== verification/Upload_Parts.thy ===== *)
theory Upload_Parts
  imports Upload_Policy
begin

text \<open>
  The part arithmetic of \<^verbatim>\<open>internal/files/upload_service.go\<close>: which size the n-th part
  of an upload must have (\<open>expectedPartSize\<close>) and when the recorded parts make up the
  whole object (\<open>validateCompletionParts\<close>). The lemmas compare the loop with a
  set-based description of a complete upload and show that the 64-bit sums never wrap.
\<close>

section \<open>Definitions\<close>

text \<open>The pair \<^verbatim>\<open>(size, ok)\<close> is an option: \<open>None\<close> for \<^verbatim>\<open>(0, false)\<close>.\<close>

definition expectedPartSize :: "int \<Rightarrow> int \<Rightarrow> int option" where
  "expectedPartSize tot number =
     (if tot < 1 \<or> number < 1 then None
      else (let start = int64 (int64 (number - 1) * UploadPartSize)
            in if start \<ge> tot then None
               else (let remaining = int64 (tot - start)
                     in if remaining > UploadPartSize then Some UploadPartSize
                        else Some remaining)))"

text \<open>The loop over the sorted parts: \<open>i\<close> is the zero-based index, \<open>tot\<close> the total
  so far.\<close>

fun completion_loop :: "int \<Rightarrow> int \<Rightarrow> int \<Rightarrow> UploadPart list \<Rightarrow> (int \<times> Part list) option" where
  "completion_loop expected i tot [] = Some (tot, [])"
| "completion_loop expected i tot (part # parts) =
     (case expectedPartSize expected (i + 1) of
        None \<Rightarrow> None
      | Some wantSize \<Rightarrow>
          if up_Number part \<noteq> i + 1 \<or> up_Size part \<noteq> wantSize \<or> \<not> validHash (up_SHA256 part)
             \<or> up_ETag part = [] then None
          else map_option (\<lambda>(t, result). (t, \<lparr>pt_Number = up_Number part, pt_ETag = up_ETag part,
                                               pt_Size = up_Size part\<rparr> # result))
                 (completion_loop expected (i + 1) (int64 (tot + up_Size part)) parts))"

definition wantCount :: "int \<Rightarrow> int" where
  "wantCount expected = go_div (int64 (int64 (expected + UploadPartSize) - 1)) UploadPartSize"

definition validateCompletionParts :: "UploadSession \<Rightarrow> UploadPart list \<Rightarrow> files_error + Part list" where
  "validateCompletionParts session parts =
     (let parts = sort_key up_Number parts
      in if int (length parts) \<noteq> wantCount (us_ExpectedSize session) then Inl ErrUploadIncomplete
         else case completion_loop (us_ExpectedSize session) 0 0 parts of
           None \<Rightarrow> Inl ErrUploadIncomplete
         | Some (tot, result) \<Rightarrow>
             if tot \<noteq> us_ExpectedSize session then Inl ErrUploadIncomplete else Inr result)"

text \<open>What a complete upload is, without the loop: as many parts as the size needs, one
  for each number, each of the size that its number demands, with a digest and an entity
  tag.\<close>

definition part_ok :: "int \<Rightarrow> UploadPart \<Rightarrow> bool" where
  "part_ok expected p \<longleftrightarrow> expectedPartSize expected (up_Number p) = Some (up_Size p) \<and>
     validHash (up_SHA256 p) \<and> up_ETag p \<noteq> []"

definition parts_complete :: "int \<Rightarrow> UploadPart list \<Rightarrow> bool" where
  "parts_complete expected parts \<longleftrightarrow>
     int (length parts) = (expected + UploadPartSize - 1) div UploadPartSize \<and>
     up_Number ` set parts = {1 .. (expected + UploadPartSize - 1) div UploadPartSize} \<and>
     (\<forall>p \<in> set parts. part_ok expected p)"

section \<open>Part sizes\<close>

lemmas part_size_val = UploadPartSize_def MaxUploadSize_def

lemma expectedPartSize_at:
  assumes "1 \<le> tot" and "tot \<le> 2 ^ 62" and "0 \<le> i" and "i * UploadPartSize < tot"
  shows "expectedPartSize tot (i + 1) = Some (min UploadPartSize (tot - i * UploadPartSize))"
proof -
  have S: "UploadPartSize = 8388608" by (simp add: UploadPartSize_def)
  have "i < 2 ^ 62" using assms unfolding S by linarith
  with assms have "int64 i = i" and "int64 (i * UploadPartSize) = i * UploadPartSize"
    and "int64 (tot - i * UploadPartSize) = tot - i * UploadPartSize"
    by (auto intro!: int64_id simp: S)
  with assms show ?thesis by (simp add: expectedPartSize_def Let_def)
qed

lemma expectedPartSize_past:
  assumes "1 \<le> tot" and "0 \<le> i" and "i \<le> 2 ^ 39" and "tot \<le> i * UploadPartSize"
  shows "expectedPartSize tot (i + 1) = None"
proof -
  have S: "UploadPartSize = 8388608" by (simp add: UploadPartSize_def)
  have "int64 i = i" and "int64 (i * UploadPartSize) = i * UploadPartSize"
    using assms by (auto intro!: int64_id simp: S)
  with assms show ?thesis by (simp add: expectedPartSize_def Let_def)
qed

lemma wantCount_eq:
  "1 \<le> tot \<Longrightarrow> tot \<le> 2 ^ 62 \<Longrightarrow> wantCount tot = (tot + UploadPartSize - 1) div UploadPartSize"
  unfolding wantCount_def
  by (subst int64_id; (subst int64_id)?; (subst int64_id)?)
    (simp_all add: part_size_val go_div_nonneg int64_id)

lemma part_index_lt:
  "0 \<le> i \<Longrightarrow> 1 \<le> tot \<Longrightarrow>
   i * UploadPartSize < tot \<longleftrightarrow> i < (tot + UploadPartSize - 1) div UploadPartSize"
  unfolding UploadPartSize_def by (simp; linarith)

section \<open>The loop against the description\<close>

text \<open>Before the part with index \<open>i\<close> the running total is \<open>min expected (i * size)\<close>.\<close>

lemma completion_loop_iff:
  assumes "1 \<le> E" and "E \<le> 2 ^ 62" and "0 \<le> i" and "i + int (length ps) \<le> 2 ^ 39"
  shows "completion_loop E i (min E (i * UploadPartSize)) ps = Some (t, r) \<longleftrightarrow>
     map up_Number ps = [i + 1 .. i + int (length ps)] \<and> (\<forall>p \<in> set ps. part_ok E p) \<and>
     t = min E ((i + int (length ps)) * UploadPartSize) \<and>
     r = map (\<lambda>p. \<lparr>pt_Number = up_Number p, pt_ETag = up_ETag p, pt_Size = up_Size p\<rparr>) ps"
  using assms(3,4)
proof (induction ps arbitrary: i r)
  case Nil
  then show ?case by auto
next
  case (Cons p ps)
  have head: "map up_Number (p # ps) = [i + 1 .. i + int (length (p # ps))] \<longleftrightarrow>
      up_Number p = i + 1 \<and> map up_Number ps = [i + 1 + 1 .. i + 1 + int (length ps)]"
    by (simp add: upto_rec1 add_ac)
  show ?case
  proof (cases "i * UploadPartSize < E")
    case False
    then have none: "expectedPartSize E (i + 1) = None"
      using Cons.prems assms(1) by (intro expectedPartSize_past) simp_all
    then have "\<not> (up_Number p = i + 1 \<and> part_ok E p)"
      by (auto simp: part_ok_def)
    with none show ?thesis unfolding head by auto
  next
    case True
    define w where "w = min UploadPartSize (E - i * UploadPartSize)"
    have size: "expectedPartSize E (i + 1) = Some w"
      unfolding w_def using True assms(1,2) Cons.prems by (intro expectedPartSize_at) simp_all
    have next_total: "int64 (min E (i * UploadPartSize) + w) = min E ((i + 1) * UploadPartSize)"
    proof -
      have "min E (i * UploadPartSize) + w = min E ((i + 1) * UploadPartSize)"
        using True by (simp add: w_def algebra_simps min_def)
      moreover have "0 \<le> min E ((i + 1) * UploadPartSize)" "min E ((i + 1) * UploadPartSize) < 2 ^ 63"
        using assms(1,2) Cons.prems(1) by (auto simp: part_size_val)
      ultimately show ?thesis by (simp add: int64_id)
    qed
    have IH: "completion_loop E (i + 1) (min E ((i + 1) * UploadPartSize)) ps = Some (t, r') \<longleftrightarrow>
       map up_Number ps = [i + 1 + 1 .. i + 1 + int (length ps)] \<and> (\<forall>p \<in> set ps. part_ok E p) \<and>
       t = min E ((i + 1 + int (length ps)) * UploadPartSize) \<and>
       r' = map (\<lambda>p. \<lparr>pt_Number = up_Number p, pt_ETag = up_ETag p, pt_Size = up_Size p\<rparr>) ps" for r'
      using Cons.prems by (intro Cons.IH) simp_all
    show ?thesis
    proof (cases "up_Number p = i + 1 \<and> part_ok E p")
      case ok: True
      then have "up_Size p = w" using size by (auto simp: part_ok_def)
      with ok size have "completion_loop E i (min E (i * UploadPartSize)) (p # ps) =
          map_option (\<lambda>(t, result). (t, \<lparr>pt_Number = up_Number p, pt_ETag = up_ETag p,
              pt_Size = up_Size p\<rparr> # result))
            (completion_loop E (i + 1) (min E ((i + 1) * UploadPartSize)) ps)"
        using next_total by (auto simp: part_ok_def)
      then show ?thesis unfolding head using ok IH by (auto simp: algebra_simps)
    next
      case False
      then show ?thesis unfolding head using size by (auto simp: part_ok_def)
    qed
  qed
qed

lemma sorted_numbers_iff:
  assumes "int (length parts) = n"
  shows "map up_Number (sort_key up_Number parts) = [1 .. n] \<longleftrightarrow> up_Number ` set parts = {1 .. n}"
proof
  assume "map up_Number (sort_key up_Number parts) = [1 .. n]"
  then have "set (map up_Number (sort_key up_Number parts)) = {1 .. n}" by simp
  then show "up_Number ` set parts = {1 .. n}" by simp
next
  assume eq: "up_Number ` set parts = {1 .. n}"
  let ?ns = "map up_Number (sort_key up_Number parts)"
  have "card (set ?ns) = length ?ns" using assms eq by simp
  then have "distinct ?ns" by (rule card_distinct)
  moreover have "sorted ?ns" by simp
  ultimately show "?ns = [1 .. n]"
    using eq by (intro sorted_distinct_set_unique) simp_all
qed

text \<open>Completing an upload succeeds exactly when the recorded parts, in any order, are
  one part for every number from 1 to the rounded-up quotient of the size, each of the size its number
  demands; the parts handed to the object store are then those parts in ascending order.
  No 64-bit sum wraps on the way.\<close>

theorem validateCompletionParts_iff:
  assumes "1 \<le> us_ExpectedSize session" and "us_ExpectedSize session \<le> 2 ^ 62"
  shows "validateCompletionParts session parts =
    (if parts_complete (us_ExpectedSize session) parts
     then Inr (map (\<lambda>p. \<lparr>pt_Number = up_Number p, pt_ETag = up_ETag p, pt_Size = up_Size p\<rparr>)
                 (sort_key up_Number parts))
     else Inl ErrUploadIncomplete)"
proof (cases "int (length parts) = wantCount (us_ExpectedSize session)")
  case False
  then show ?thesis
    using assms by (simp add: validateCompletionParts_def parts_complete_def wantCount_eq)
next
  case True
  let ?E = "us_ExpectedSize session" and ?ps = "sort_key up_Number parts"
  have n: "int (length ?ps) = (?E + UploadPartSize - 1) div UploadPartSize"
    using True assms by (simp add: wantCount_eq)
  then have "int (length ?ps) \<le> 2 ^ 39" and cover: "?E \<le> int (length ?ps) * UploadPartSize"
    using assms unfolding UploadPartSize_def by (simp; linarith)+
  then have loop: "completion_loop ?E 0 0 ?ps = Some (t, r) \<longleftrightarrow>
      parts_complete ?E parts \<and> t = ?E \<and>
      r = map (\<lambda>p. \<lparr>pt_Number = up_Number p, pt_ETag = up_ETag p, pt_Size = up_Size p\<rparr>) ?ps" for t r
    using completion_loop_iff [of ?E 0 ?ps t r] assms n sorted_numbers_iff [of parts "int (length parts)"]
    by (auto simp: parts_complete_def min_def)
  show ?thesis
  proof (cases "parts_complete ?E parts")
    case complete: True
    then have "completion_loop ?E 0 0 ?ps = Some (?E, map (\<lambda>p. \<lparr>pt_Number = up_Number p,
        pt_ETag = up_ETag p, pt_Size = up_Size p\<rparr>) ?ps)"
      using loop by blast
    with True complete show ?thesis by (simp add: validateCompletionParts_def)
  next
    case False
    then have "completion_loop ?E 0 0 ?ps = None"
      using loop by (cases "completion_loop ?E 0 0 ?ps") auto
    with True False show ?thesis by (simp add: validateCompletionParts_def)
  qed
qed

lemma sum_part_sizes:
  assumes "1 \<le> E" and "E \<le> 2 ^ 62" and "int k \<le> (E + UploadPartSize - 1) div UploadPartSize"
  shows "(\<Sum>n = 1..int k. the (expectedPartSize E n)) = min E (int k * UploadPartSize)"
  using assms(3)
proof (induction k)
  case 0
  then show ?case using assms(1) by simp
next
  case (Suc k)
  then have "int k * UploadPartSize < E"
    using part_index_lt [of "int k" E] assms(1) by simp
  moreover from this have "expectedPartSize E (int k + 1) = Some (min UploadPartSize (E - int k * UploadPartSize))"
    using assms(1,2) by (intro expectedPartSize_at) simp_all
  moreover have "{1..int (Suc k)} = insert (int k + 1) {1..int k}" by auto
  ultimately show ?case using Suc by (simp add: algebra_simps min_def)
qed

lemma expectedPartSize_bounds:
  assumes "1 \<le> E" and "E \<le> 2 ^ 62" and "n \<in> {1..(E + UploadPartSize - 1) div UploadPartSize}"
  shows "\<exists>s. expectedPartSize E n = Some s \<and> 1 \<le> s \<and> s \<le> UploadPartSize"
proof -
  have "(n - 1) * UploadPartSize < E"
    using part_index_lt [of "n - 1" E] assms by simp
  moreover from this have "expectedPartSize E (n - 1 + 1) = Some (min UploadPartSize (E - (n - 1) * UploadPartSize))"
    using assms by (intro expectedPartSize_at) simp_all
  ultimately show ?thesis by (simp add: part_size_val)
qed

text \<open>The parts tile the object. For every size an upload can have, the sizes demanded of
  parts 1 to n (n the rounded-up quotient) lie between one byte and 8 MiB and add up to
  exactly the size, and no part beyond n is accepted.\<close>

theorem part_sizes_tile:
  assumes "1 \<le> E" and "E \<le> 2 ^ 62"
  shows "(\<Sum>n = 1..wantCount E. the (expectedPartSize E n)) = E \<and>
    (\<forall>n \<in> {1..wantCount E}. \<exists>s. expectedPartSize E n = Some s \<and> 1 \<le> s \<and> s \<le> UploadPartSize) \<and>
    (\<forall>n \<in> {wantCount E + 1..10000}. expectedPartSize E n = None)"
proof (intro conjI ballI)
  let ?n = "(E + UploadPartSize - 1) div UploadPartSize"
  have n: "wantCount E = ?n" using assms by (simp add: wantCount_eq)
  have "0 \<le> ?n" and cover: "E \<le> ?n * UploadPartSize"
    using assms(1) unfolding UploadPartSize_def by (simp; linarith)+
  then show "(\<Sum>n = 1..wantCount E. the (expectedPartSize E n)) = E"
    using sum_part_sizes [OF assms, of "nat ?n"] by (simp add: n)
  show "\<exists>s. expectedPartSize E m = Some s \<and> 1 \<le> s \<and> s \<le> UploadPartSize"
    if "m \<in> {1..wantCount E}" for m
    using that expectedPartSize_bounds [OF assms, of m] by (simp add: n)
  show "expectedPartSize E m = None" if m: "m \<in> {wantCount E + 1..10000}" for m
  proof -
    have "\<not> (m - 1) * UploadPartSize < E"
      using m part_index_lt [of "m - 1" E] assms(1) \<open>0 \<le> ?n\<close> by (simp add: n)
    then have "expectedPartSize E (m - 1 + 1) = None"
      using m assms(1) \<open>0 \<le> ?n\<close> by (intro expectedPartSize_past) (simp_all add: n)
    then show ?thesis by simp
  qed
qed

theorem part_sizes_tile_witness:
  "(\<Sum>n = 1..wantCount 20000000. the (expectedPartSize 20000000 n)) = 20000000 \<and> wantCount 20000000 = 3"
  using part_sizes_tile [of 20000000] by (simp add: wantCount_def int64_def go_div_def UploadPartSize_def)

definition sample_part :: "int \<Rightarrow> int \<Rightarrow> UploadPart" where
  "sample_part n sz = \<lparr>up_SessionID = 7, up_Number = n, up_Size = sz, up_SHA256 = sample_hash,
     up_ETag = ''e'', up_CreatedAt = 5\<rparr>"

definition sample_session :: UploadSession where
  "sample_session = \<lparr>us_ID = 7, us_ActorUserID = 3, us_Purpose = UploadPurposeAI,
     us_ObjectKey = ''originals/0a'', us_MinIOUploadID = ''mp-1'', us_DisplayName = ''notes.PDF'',
     us_DeclaredMIME = ''application/pdf'', us_ExpectedSize = 12000000,
     us_ExpectedSHA256 = sample_hash, us_State = UploadOpen, us_ExpiresAt = 100, us_CreatedAt = 1\<rparr>"

theorem validateCompletionParts_witness:
  "validateCompletionParts sample_session [sample_part 2 3611392, sample_part 1 8388608] =
     Inr [\<lparr>pt_Number = 1, pt_ETag = ''e'', pt_Size = 8388608\<rparr>,
          \<lparr>pt_Number = 2, pt_ETag = ''e'', pt_Size = 3611392\<rparr>]"
proof -
  have "parts_complete 12000000 [sample_part 2 3611392, sample_part 1 8388608]"
    by (auto simp: parts_complete_def part_ok_def sample_part_def sample_hash_valid UploadPartSize_def
        expectedPartSize_def int64_def)
  then show ?thesis
    using validateCompletionParts_iff [of sample_session "[sample_part 2 3611392, sample_part 1 8388608]"]
    by (simp add: sample_session_def) (simp add: sample_part_def)
qed

text \<open>Whatever the policy, an accepted request needs at most 63 parts, so the 10000-part
  bound of \<^verbatim>\<open>PutPart\<close> never stands in the way of a complete upload.\<close>

context upload_policy
begin

lemma accepted_part_count:
  assumes "Validate P inp = None"
  shows "1 \<le> wantCount (in_ExpectedSize inp)" and "wantCount (in_ExpectedSize inp) \<le> 63"
proof -
  let ?E = "in_ExpectedSize inp"
  have E: "1 \<le> ?E" "?E \<le> MaxUploadSize" using validate_size [OF assms] by auto
  then have "wantCount ?E = (?E + UploadPartSize - 1) div UploadPartSize"
    by (intro wantCount_eq) (simp_all add: MaxUploadSize_def)
  with E show "1 \<le> wantCount ?E" "wantCount ?E \<le> 63"
    unfolding UploadPartSize_def MaxUploadSize_def by (simp; linarith)+
qed

end

end
