(* ===== verification/Operations_Gate.thy ===== *)
theory Operations_Gate
  imports Go_Strings
begin

text \<open>
  The maintenance gate (\<^verbatim>\<open>internal/operations/claim_admission.go\<close>,
  \<^verbatim>\<open>internal/operations/write_gate.go\<close>). Every claim of queued work runs
  \<open>AdmitClaim\<close> inside its own transaction; every unsafe HTTP request passes
  \<open>UnsafeWriteGate\<close>. What the statements of a transaction answer is an argument:
  \<open>admission\<close> holds the outcome of each statement in order.
\<close>

section \<open>Claim admission\<close>

datatype ops_error = ErrLeaseHeld | ErrConflict | OpsDriver

text \<open>The advisory-lock statement: taken, timed out (\<^verbatim>\<open>SQLSTATE 55P03\<close>) or failed.\<close>

datatype lock_outcome = LockTaken | LockFailed string

text \<open>The row of \<^verbatim>\<open>operational_modes\<close> as the query sees it.\<close>

datatype mode_outcome = ModeRow string | ModeMissing | ModeFailed

record admission =
  ad_set_timeout_ok :: bool
  ad_lock :: lock_outcome
  ad_clear_timeout_ok :: bool
  ad_mode :: mode_outcome

definition admissionLockTimedOut :: "string \<Rightarrow> bool" where
  "admissionLockTimedOut code \<longleftrightarrow> code = ''55P03''"

definition AdmitClaim :: "admission \<Rightarrow> ops_error option" where
  "AdmitClaim tx =
     (if \<not> ad_set_timeout_ok tx then Some OpsDriver
      else case ad_lock tx of
        LockFailed code \<Rightarrow> if admissionLockTimedOut code then Some ErrLeaseHeld else Some OpsDriver
      | LockTaken \<Rightarrow>
          if \<not> ad_clear_timeout_ok tx then Some OpsDriver
          else case ad_mode tx of
            ModeMissing \<Rightarrow> Some ErrConflict
          | ModeFailed \<Rightarrow> Some OpsDriver
          | ModeRow mode \<Rightarrow> if mode \<noteq> ''normal'' then Some ErrLeaseHeld else None)"

text \<open>A claim is admitted only while the shared lock is held and the mode read under that
  lock is normal.\<close>

lemma AdmitClaim_None:
  "AdmitClaim tx = None \<longleftrightarrow>
     ad_set_timeout_ok tx \<and> ad_lock tx = LockTaken \<and> ad_clear_timeout_ok tx \<and> ad_mode tx = ModeRow ''normal''"
  by (auto simp: AdmitClaim_def split: lock_outcome.splits mode_outcome.splits if_splits)

definition normal_admission :: admission where
  "normal_admission = \<lparr>ad_set_timeout_ok = True, ad_lock = LockTaken, ad_clear_timeout_ok = True,
     ad_mode = ModeRow ''normal''\<rparr>"

lemma AdmitClaim_normal [simp]: "AdmitClaim normal_admission = None"
  by (simp add: AdmitClaim_None normal_admission_def)

section \<open>The write gate\<close>

definition safeMethod :: "string \<Rightarrow> bool" where
  "safeMethod m \<longleftrightarrow> m = ''GET'' \<or> m = ''HEAD'' \<or> m = ''OPTIONS''"

definition logoutPath :: string where
  "logoutPath = ''/api/v1/auth/logout''"

text \<open>\<open>AcquireShared\<close> answers with an error or not, and with a release function or nil.
  The middleware's effect is the order of its externally visible events.\<close>

record acquire_answer =
  aq_error :: bool
  aq_release :: bool

datatype gate_event = AcquiredShared | ServedNext | ReleasedShared | RespondedMaintenance

definition UnsafeWriteGate :: "acquire_answer option \<Rightarrow> string \<Rightarrow> string \<Rightarrow> gate_event list" where
  "UnsafeWriteGate gate method path =
     (if safeMethod method \<or> path = logoutPath then [ServedNext]
      else case gate of
        None \<Rightarrow> [RespondedMaintenance]
      | Some answer \<Rightarrow>
          if aq_error answer \<or> \<not> aq_release answer then [RespondedMaintenance]
          else [AcquiredShared, ServedNext, ReleasedShared])"



end
