(* ===== verification/Upload_Store.thy ===== *)
theory Upload_Store
  imports Upload_Parts Operations_Gate
begin

text \<open>
  The upload half of \<^verbatim>\<open>internal/files/postgres_store.go\<close>: every method of the
  \<^verbatim>\<open>UploadStore\<close> interface as a transaction on the tables of \<open>files_db\<close>.
  Identifiers that the database or \<^verbatim>\<open>uuid.New\<close> generates and the database clock are
  arguments; a generated identifier that already exists is the unique violation the
  database reports. \<open>FOR UPDATE\<close> row locks make each method one atomic step, so an
  execution of concurrent clients is a sequence of such steps (\<open>upload_step\<close>).
\<close>

section \<open>The methods\<close>

definition CreateSession :: "bool \<Rightarrow> UploadSession \<Rightarrow> files_db \<Rightarrow> (files_error + unit) \<times> files_db" where
  "CreateSession fault u = transact fault ErrDriver (\<lambda>db.
     if list_ex (\<lambda>x. us_ID x = us_ID u \<or> us_ObjectKey x = us_ObjectKey u
                     \<or> us_MinIOUploadID x = us_MinIOUploadID u) (upload_sessions db)
     then Inl ErrDriver
     else Inr ((), db\<lparr>upload_sessions := upload_sessions db @ [u]\<rparr>))"

definition session_of :: "uuid \<Rightarrow> uuid \<Rightarrow> UploadPurpose \<Rightarrow> files_db \<Rightarrow> UploadSession option" where
  "session_of sid actor purpose db =
     find (\<lambda>u. us_ID u = sid \<and> us_ActorUserID u = actor \<and> us_Purpose u = purpose) (upload_sessions db)"

definition session_by_id :: "uuid \<Rightarrow> files_db \<Rightarrow> UploadSession option" where
  "session_by_id sid db = find (\<lambda>u. us_ID u = sid) (upload_sessions db)"

definition part_of :: "uuid \<Rightarrow> int \<Rightarrow> files_db \<Rightarrow> UploadPart option" where
  "part_of sid number db = find (\<lambda>p. up_SessionID p = sid \<and> up_Number p = number) (upload_parts db)"

definition listParts :: "uuid \<Rightarrow> files_db \<Rightarrow> UploadPart list" where
  "listParts sid db = sort_key up_Number (filter (\<lambda>p. up_SessionID p = sid) (upload_parts db))"

definition set_session_state :: "uuid \<Rightarrow> UploadState \<Rightarrow> files_db \<Rightarrow> files_db" where
  "set_session_state sid st db =
     db\<lparr>upload_sessions := update_where (\<lambda>u. us_ID u = sid) (us_State_update (\<lambda>_. st)) (upload_sessions db)\<rparr>"

definition GetSession ::
  "bool \<Rightarrow> uuid \<Rightarrow> uuid \<Rightarrow> UploadPurpose \<Rightarrow> files_db \<Rightarrow> files_error + (UploadSession \<times> UploadPart list)" where
  "GetSession fault sid actor purpose db =
     (if fault then Inl ErrDriver
      else case session_of sid actor purpose db of
        None \<Rightarrow> Inl ErrNotFound
      | Some u \<Rightarrow> Inr (u, listParts sid db))"

definition AdmitPart ::
  "bool \<Rightarrow> uuid \<Rightarrow> uuid \<Rightarrow> UploadPurpose \<Rightarrow> int \<Rightarrow> int \<Rightarrow> string \<Rightarrow> time \<Rightarrow> files_db
     \<Rightarrow> (files_error + (UploadSession \<times> UploadPart option)) \<times> files_db" where
  "AdmitPart fault sid actor purpose number sz hash now = transact fault ErrDriver (\<lambda>db.
     case session_of sid actor purpose db of
       None \<Rightarrow> Inl ErrNotFound
     | Some u \<Rightarrow>
         if now > us_ExpiresAt u then Inl ErrUploadExpired
         else if us_State u \<noteq> UploadOpen then Inl ErrUploadConflict
         else case part_of sid number db of
           Some part \<Rightarrow>
             if up_Size part \<noteq> sz \<or> up_SHA256 part \<noteq> hash then Inl ErrUploadPartConflict
             else Inr ((u, Some part), db)
         | None \<Rightarrow> Inr ((u, None), db))"

definition RecordPart :: "bool \<Rightarrow> uuid \<Rightarrow> UploadPart \<Rightarrow> files_db \<Rightarrow> (files_error + UploadPart) \<times> files_db" where
  "RecordPart fault sid p = transact fault ErrDriver (\<lambda>db.
     case session_by_id sid db of
       None \<Rightarrow> Inl ErrNotFound
     | Some u \<Rightarrow>
         if us_State u \<noteq> UploadOpen then Inl ErrUploadConflict
         else (let row = p\<lparr>up_SessionID := sid\<rparr>;
                   db' = (case part_of sid (up_Number p) db of
                            Some _ \<Rightarrow> db
                          | None \<Rightarrow> db\<lparr>upload_parts := upload_parts db @ [row]\<rparr>)
               in case part_of sid (up_Number p) db' of
                    None \<Rightarrow> Inl ErrNoRows
                  | Some stored \<Rightarrow>
                      if up_Size stored \<noteq> up_Size p \<or> up_SHA256 stored \<noteq> up_SHA256 p
                      then Inl ErrUploadPartConflict
                      else Inr (stored, db')))"

text \<open>\<^verbatim>\<open>SELECT f.id,fv.id,fv.processing_state FROM file_versions fv JOIN files f ...
  WHERE fv.object_key=$1\<close>\<close>

definition scanCompleted :: "string \<Rightarrow> files_db \<Rightarrow> CompletedUpload option" where
  "scanCompleted key db =
     map_option (\<lambda>fv. \<lparr>cu_FileID = fv_file_id fv, cu_FileVersionID = fv_id fv,
                       cu_ProcessingState = fv_processing_state fv\<rparr>)
       (find (\<lambda>fv. fv_object_key fv = key \<and> list_ex (\<lambda>f. f_id f = fv_file_id fv) (file_rows db))
          (file_versions db))"

definition BeginCompletion ::
  "bool \<Rightarrow> uuid \<Rightarrow> uuid \<Rightarrow> UploadPurpose \<Rightarrow> time \<Rightarrow> files_db
     \<Rightarrow> (files_error + (UploadSession \<times> UploadPart list \<times> CompletedUpload option)) \<times> files_db" where
  "BeginCompletion fault sid actor purpose now = transact fault ErrDriver (\<lambda>db.
     case session_of sid actor purpose db of
       None \<Rightarrow> Inl ErrNotFound
     | Some u \<Rightarrow>
         if us_State u = UploadCompleted then
           (case scanCompleted (us_ObjectKey u) db of
              None \<Rightarrow> Inl ErrNoRows
            | Some completed \<Rightarrow> Inr ((u, [], Some completed), db))
         else if now > us_ExpiresAt u then Inl ErrUploadExpired
         else if us_State u \<noteq> UploadOpen \<and> us_State u \<noteq> UploadCompleting then Inl ErrUploadConflict
         else if us_State u = UploadOpen then
           (let db' = set_session_state sid UploadCompleting db
            in Inr ((u\<lparr>us_State := UploadCompleting\<rparr>, listParts sid db', None), db'))
         else Inr ((u, listParts sid db, None), db))"

text \<open>\<^verbatim>\<open>ReopenCompletion\<close> runs \<^verbatim>\<open>UPDATE upload_sessions SET state='open' WHERE id=$1 AND
  state='completing'\<close> but passes no argument for \<^verbatim>\<open>$1\<close>. The driver refuses a statement
  whose parameters are not all supplied, so the update never runs.\<close>

definition ReopenCompletion :: "bool \<Rightarrow> uuid \<Rightarrow> files_db \<Rightarrow> files_error option \<times> files_db" where
  "ReopenCompletion fault sid db =
     (let parameters = (1::nat); arguments = 0
      in if fault \<or> arguments \<noteq> parameters then (Some ErrDriver, db)
         else (None, db\<lparr>upload_sessions :=
            update_where (\<lambda>u. us_ID u = sid \<and> us_State u = UploadCompleting)
              (us_State_update (\<lambda>_. UploadOpen)) (upload_sessions db)\<rparr>))"

definition attachmentOrphanRetentionPeriod :: duration where
  "attachmentOrphanRetentionPeriod = 24 * Hour"

record completion_ids =
  ci_file :: uuid
  ci_version :: uuid
  ci_job :: uuid

definition completed_version :: "UploadSession \<Rightarrow> completion_ids \<Rightarrow> time \<Rightarrow> file_version" where
  "completed_version locked ids dbnow =
     \<lparr>fv_id = ci_version ids, fv_file_id = ci_file ids, fv_version = 1,
      fv_purpose = us_Purpose locked, fv_object_key = us_ObjectKey locked,
      fv_display_name = us_DisplayName locked, fv_declared_mime = us_DeclaredMIME locked,
      fv_size_bytes = us_ExpectedSize locked, fv_sha256 = us_ExpectedSHA256 locked,
      fv_processing_state = Pending_scan, fv_created_by = us_ActorUserID locked,
      fv_retention_until =
        (if us_Purpose locked = UploadPurposeQA \<or> us_Purpose locked = UploadPurposeAI
         then Some (dbnow + attachmentOrphanRetentionPeriod) else None),
      fv_detected_mime = None, fv_scan_result = None, fv_browser_playable = False,
      fv_video_container = None, fv_video_codec = None, fv_video_duration_ms = None,
      fv_video_width = None, fv_video_height = None, fv_failure_category = None\<rparr>"

definition queued_job :: "uuid \<Rightarrow> uuid \<Rightarrow> time \<Rightarrow> job_row" where
  "queued_job sid version dbnow =
     \<lparr>j_id = sid, j_file_version_id = version, j_kind = ''process_file'', j_state = StateQueued,
      j_attempts = 0, j_available_at = dbnow, j_lease_owner = None, j_lease_until = None,
      j_last_failure_category = None, j_created_at = dbnow, j_updated_at = dbnow\<rparr>"

definition FinishCompletion ::
  "bool \<Rightarrow> completion_ids \<Rightarrow> time \<Rightarrow> UploadSession \<Rightarrow> Principal \<Rightarrow> files_db
     \<Rightarrow> (files_error + CompletedUpload) \<times> files_db" where
  "FinishCompletion fault ids dbnow u actor = transact fault ErrDriver (\<lambda>db.
     case session_by_id (us_ID u) db of
       None \<Rightarrow> Inl ErrNotFound
     | Some locked \<Rightarrow>
         if us_State locked = UploadCompleted then
           (case scanCompleted (us_ObjectKey locked) db of
              None \<Rightarrow> Inl ErrNoRows
            | Some completed \<Rightarrow> Inr (completed, db))
         else if us_State locked \<noteq> UploadCompleting then Inl ErrUploadConflict
         else if list_ex (\<lambda>f. f_id f = ci_file ids) (file_rows db) then Inl ErrDriver
         else if us_Purpose locked \<noteq> us_Purpose u then Inl ErrNotFound
         else if list_ex (\<lambda>fv. fv_id fv = ci_version ids \<or> fv_object_key fv = us_ObjectKey locked)
                   (file_versions db)
              \<or> list_ex (\<lambda>j. j_id j = ci_job ids \<or> (j_file_version_id j = ci_version ids \<and>
                     j_kind j = ''process_file'' \<and> (j_state j = StateQueued \<or> j_state j = StateRunning)))
                   (file_processing_jobs db)
         then Inl ErrDriver
         else Inr (\<lparr>cu_FileID = ci_file ids, cu_FileVersionID = ci_version ids,
                    cu_ProcessingState = Pending_scan\<rparr>,
           set_session_state (us_ID locked) UploadCompleted
             (db\<lparr>file_rows := file_rows db @ [\<lparr>f_id = ci_file ids, f_created_by = us_ActorUserID locked,
                                                f_deleted_at = None\<rparr>],
                 file_versions := file_versions db @ [completed_version locked ids dbnow],
                 file_processing_jobs := file_processing_jobs db @ [queued_job (ci_job ids) (ci_version ids) dbnow],
                 audit_logs := audit_logs db @
                   [\<lparr>ev_ActorUserID = u_ID (p_User actor), ev_Action = ''file.uploaded'',
                     ev_TargetType = ''file_version'', ev_TargetID = ci_version ids,
                     ev_RequestID = p_RequestID actor, ev_IP = p_IP actor\<rparr>]\<rparr>)))"

definition CancelSession ::
  "bool \<Rightarrow> uuid \<Rightarrow> uuid \<Rightarrow> UploadPurpose \<Rightarrow> UploadState \<Rightarrow> files_db
     \<Rightarrow> (files_error + UploadSession) \<times> files_db" where
  "CancelSession fault sid actor purpose st db =
     (if st \<noteq> UploadCancelled then (Inl ErrInvalid, db)
      else transact fault ErrDriver (\<lambda>db.
        case session_of sid actor purpose db of
          None \<Rightarrow> Inl ErrNotFound
        | Some u \<Rightarrow>
            if us_State u = UploadCompleted \<or> us_State u = UploadExpired then Inl ErrUploadConflict
            else if us_State u \<noteq> UploadCancelled
              then Inr (u\<lparr>us_State := UploadCancelled\<rparr>, set_session_state sid UploadCancelled db)
              else Inr (u, db)) db)"

text \<open>Claiming cleanup work reads candidates only; rows locked by another transaction
  (\<open>busy\<close>) are skipped.\<close>

definition cleanup_candidate :: "time \<Rightarrow> files_db \<Rightarrow> UploadSession \<Rightarrow> bool" where
  "cleanup_candidate cutoff db u \<longleftrightarrow> us_ExpiresAt u \<le> cutoff \<and> us_State u \<noteq> UploadCompleted \<and>
     \<not> referenced (us_ObjectKey u) db"

definition ClaimCleanup ::
  "bool \<Rightarrow> bool \<Rightarrow> admission \<Rightarrow> (uuid \<Rightarrow> bool) \<Rightarrow> time \<Rightarrow> nat \<Rightarrow> files_db \<Rightarrow> files_error + UploadSession list" where
  "ClaimCleanup fault admitted adm busy cutoff limit db =
     (if fault then Inl ErrDriver
      else (let rows = take limit (filter (\<lambda>u. \<not> busy (us_ID u))
                  (sort_key (\<lambda>u. (us_ExpiresAt u, us_ID u)) (filter (cleanup_candidate cutoff db) (upload_sessions db))))
            in if admitted then Inr rows
               else case AdmitClaim adm of
                 None \<Rightarrow> Inr rows
               | Some ErrLeaseHeld \<Rightarrow> Inr []
               | Some ErrConflict \<Rightarrow> Inl (ErrText ''operations conflict'')
               | Some OpsDriver \<Rightarrow> Inl ErrDriver))"

definition ConfirmCleanup :: "bool \<Rightarrow> uuid \<Rightarrow> files_db \<Rightarrow> (files_error + UploadSession) \<times> files_db" where
  "ConfirmCleanup fault sid = transact fault ErrDriver (\<lambda>db.
     case session_by_id sid db of
       None \<Rightarrow> Inl ErrNotFound
     | Some u \<Rightarrow>
         (let eligible = (us_State u = UploadOpen \<or> us_State u = UploadExpired \<or>
                          us_State u = UploadCancelled \<or> us_State u = UploadCompleting)
          in if referenced (us_ObjectKey u) db \<or> \<not> eligible then Inl ErrUploadConflict
             else if us_State u = UploadOpen \<or> us_State u = UploadCompleting
               then Inr (u\<lparr>us_State := UploadExpired\<rparr>, set_session_state sid UploadExpired db)
               else Inr (u, db)))"

definition FinishCleanup :: "bool \<Rightarrow> uuid \<Rightarrow> files_db \<Rightarrow> (files_error + unit) \<times> files_db" where
  "FinishCleanup fault sid = transact fault ErrDriver (\<lambda>db.
     case session_by_id sid db of
       None \<Rightarrow> Inl ErrNotFound
     | Some u \<Rightarrow>
         if referenced (us_ObjectKey u) db \<or> (us_State u \<noteq> UploadExpired \<and> us_State u \<noteq> UploadCancelled)
         then Inl ErrUploadConflict
         else Inr ((), db\<lparr>upload_parts := delete_where (\<lambda>p. up_SessionID p = sid) (upload_parts db),
                          upload_sessions := delete_where (\<lambda>u. us_ID u = sid) (upload_sessions db)\<rparr>))"

end
