(* ===== verification/Upload_Invariant.thy ===== *)
theory Upload_Invariant
  imports Upload_Store
begin

text \<open>
  What every interleaving of the upload store's transactions keeps true. \<open>upload_step\<close>
  has one rule per store method that can change the tables, called with any arguments the
  service can pass; \<open>upload_inv\<close> ties sessions, parts and file versions together; the
  reachable states are those of any number of concurrent clients.
\<close>

section \<open>The invariant\<close>

text \<open>A file version is the image of a session: same object, size, digest, purpose, owner.\<close>

definition version_matches :: "UploadSession \<Rightarrow> file_version \<Rightarrow> bool" where
  "version_matches u fv \<longleftrightarrow> fv_object_key fv = us_ObjectKey u \<and> fv_size_bytes fv = us_ExpectedSize u \<and>
     fv_sha256 fv = us_ExpectedSHA256 u \<and> fv_purpose fv = us_Purpose u \<and> fv_created_by fv = us_ActorUserID u"

definition keys_inv :: "files_db \<Rightarrow> bool" where
  "keys_inv db \<longleftrightarrow> keyed us_ID (upload_sessions db) \<and> keyed us_ObjectKey (upload_sessions db) \<and>
     keyed (\<lambda>p. (up_SessionID p, up_Number p)) (upload_parts db) \<and> keyed f_id (file_rows db) \<and>
     keyed fv_id (file_versions db) \<and> keyed fv_object_key (file_versions db)"

definition parts_inv :: "files_db \<Rightarrow> bool" where
  "parts_inv db \<longleftrightarrow> up_SessionID ` set (upload_parts db) \<subseteq> us_ID ` set (upload_sessions db)"

definition versions_inv :: "files_db \<Rightarrow> bool" where
  "versions_inv db \<longleftrightarrow>
     (\<forall>fv \<in> set (file_versions db).
        (\<exists>u \<in> set (upload_sessions db). us_State u = UploadCompleted \<and> version_matches u fv) \<and>
        (\<exists>f \<in> set (file_rows db). f_id f = fv_file_id fv)) \<and>
     (\<forall>u \<in> set (upload_sessions db). us_State u = UploadCompleted \<longrightarrow> referenced (us_ObjectKey u) db)"

definition upload_inv :: "files_db \<Rightarrow> bool" where
  "upload_inv db \<longleftrightarrow> keys_inv db \<and> parts_inv db \<and> versions_inv db"

lemma upload_inv_empty: "upload_inv empty_files_db"
  by (simp add: upload_inv_def keys_inv_def parts_inv_def versions_inv_def empty_files_db_def keyed_def)

text \<open>Only a completed session's object is referenced by a file version.\<close>

lemma referenced_completed:
  assumes "upload_inv db" and "u \<in> set (upload_sessions db)"
  shows "referenced (us_ObjectKey u) db \<longleftrightarrow> us_State u = UploadCompleted"
proof
  assume "referenced (us_ObjectKey u) db"
  then obtain fv where fv: "fv \<in> set (file_versions db)" "fv_object_key fv = us_ObjectKey u"
    by (auto simp: referenced_iff)
  with assms(1) obtain v where "v \<in> set (upload_sessions db)" "us_State v = UploadCompleted"
    "version_matches v fv"
    unfolding upload_inv_def versions_inv_def by blast
  with assms fv show "us_State u = UploadCompleted"
    unfolding upload_inv_def keys_inv_def version_matches_def using keyed_inj by metis
next
  assume "us_State u = UploadCompleted"
  with assms show "referenced (us_ObjectKey u) db"
    by (auto simp: upload_inv_def versions_inv_def)
qed

lemma session_of_SomeD:
  "session_of sid actor purpose db = Some u \<Longrightarrow>
     u \<in> set (upload_sessions db) \<and> us_ID u = sid \<and> us_ActorUserID u = actor \<and> us_Purpose u = purpose"
  by (auto simp: session_of_def dest: find_SomeD)

lemma session_by_id_SomeD:
  "session_by_id sid db = Some u \<Longrightarrow> u \<in> set (upload_sessions db) \<and> us_ID u = sid"
  by (auto simp: session_by_id_def dest: find_SomeD)

lemma session_by_id_eq:
  "keys_inv db \<Longrightarrow> u \<in> set (upload_sessions db) \<Longrightarrow> session_by_id (us_ID u) db = Some u"
  unfolding session_by_id_def keys_inv_def by (rule find_keyed [where k = us_ID]) auto

section \<open>Every method keeps it\<close>

lemma set_session_state_tables [simp]:
  "upload_parts (set_session_state sid st db) = upload_parts db"
  "file_rows (set_session_state sid st db) = file_rows db"
  "file_versions (set_session_state sid st db) = file_versions db"
  "referenced key (set_session_state sid st db) = referenced key db"
  by (simp_all add: set_session_state_def referenced_def)

lemma set_session_state_sessions:
  "set (upload_sessions (set_session_state sid st db)) =
     (\<lambda>u. if us_ID u = sid then u\<lparr>us_State := st\<rparr> else u) ` set (upload_sessions db)"
  by (simp add: set_session_state_def table_simps)

lemma set_session_state_member:
  "u \<in> set (upload_sessions db) \<Longrightarrow>
     (if us_ID u = sid then u\<lparr>us_State := st\<rparr> else u) \<in> set (upload_sessions (set_session_state sid st db))"
  unfolding set_session_state_sessions by (rule imageI)

lemma set_session_state_keys: "keys_inv db \<Longrightarrow> keys_inv (set_session_state sid st db)"
  by (auto simp: keys_inv_def set_session_state_def intro!: keyed_update_where)

lemma set_session_state_ids:
  "us_ID ` set (upload_sessions (set_session_state sid st db)) = us_ID ` set (upload_sessions db)"
  unfolding set_session_state_sessions image_image by (rule image_cong) simp_all

lemma set_session_state_parts: "parts_inv db \<Longrightarrow> parts_inv (set_session_state sid st db)"
  by (simp add: parts_inv_def set_session_state_ids)

lemma set_session_state_inv:
  assumes inv: "upload_inv db" and u: "u \<in> set (upload_sessions db)" "us_ID u = sid"
    and "us_State u \<noteq> UploadCompleted" and "st \<noteq> UploadCompleted"
  shows "upload_inv (set_session_state sid st db)"
proof -
  have other: "us_ID v \<noteq> sid" if "v \<in> set (upload_sessions db)" "us_State v = UploadCompleted" for v
  proof
    assume "us_ID v = sid"
    with that u inv have "v = u"
      unfolding upload_inv_def keys_inv_def using keyed_inj by metis
    with that assms(4) show False by simp
  qed
  have "versions_inv (set_session_state sid st db)"
    unfolding versions_inv_def
  proof (intro conjI ballI impI)
    fix fv assume "fv \<in> set (file_versions (set_session_state sid st db))"
    then obtain v f where "v \<in> set (upload_sessions db)" "us_State v = UploadCompleted" "version_matches v fv"
      and f: "f \<in> set (file_rows db)" "f_id f = fv_file_id fv"
      using inv unfolding upload_inv_def versions_inv_def by auto
    with other show "\<exists>u \<in> set (upload_sessions (set_session_state sid st db)).
        us_State u = UploadCompleted \<and> version_matches u fv"
      by (force simp: set_session_state_sessions)
    from f show "\<exists>f \<in> set (file_rows (set_session_state sid st db)). f_id f = fv_file_id fv"
      by auto
  next
    fix v assume "v \<in> set (upload_sessions (set_session_state sid st db))" "us_State v = UploadCompleted"
    with inv assms(5) show "referenced (us_ObjectKey v) (set_session_state sid st db)"
      by (auto simp: set_session_state_sessions upload_inv_def versions_inv_def split: if_splits)
  qed
  with inv show ?thesis
    by (simp add: upload_inv_def set_session_state_keys set_session_state_parts)
qed

lemmas upload_tx = transact_invariant [where I = upload_inv]

lemma append_session_inv:
  assumes inv: "upload_inv db" and "us_State u \<noteq> UploadCompleted"
    and fresh: "\<And>x. x \<in> set (upload_sessions db) \<Longrightarrow> us_ID x \<noteq> us_ID u \<and> us_ObjectKey x \<noteq> us_ObjectKey u"
  shows "upload_inv (db\<lparr>upload_sessions := upload_sessions db @ [u]\<rparr>)"
proof -
  let ?db = "db\<lparr>upload_sessions := upload_sessions db @ [u]\<rparr>"
  have "keys_inv ?db"
    using inv fresh by (auto simp: upload_inv_def keys_inv_def intro!: keyed_append1)
  moreover have "parts_inv ?db"
    using inv by (auto simp: upload_inv_def parts_inv_def)
  moreover have "versions_inv ?db"
    using inv assms(2) by (auto simp: upload_inv_def versions_inv_def referenced_def)
  ultimately show ?thesis by (simp add: upload_inv_def)
qed

lemma CreateSession_inv:
  assumes "upload_inv db" and "us_State u = UploadOpen"
  shows "upload_inv (snd (CreateSession fault u db))"
  unfolding CreateSession_def
  by (rule upload_tx [OF assms(1)])
    (use assms in \<open>auto simp: list_ex_iff split: if_splits intro!: append_session_inv\<close>)

lemma append_part_inv:
  assumes inv: "upload_inv db" and "u \<in> set (upload_sessions db)" "us_ID u = up_SessionID p"
    and "part_of (up_SessionID p) (up_Number p) db = None"
  shows "upload_inv (db\<lparr>upload_parts := upload_parts db @ [p]\<rparr>)"
proof -
  let ?db = "db\<lparr>upload_parts := upload_parts db @ [p]\<rparr>"
  have "keys_inv ?db"
    using inv assms(4) unfolding upload_inv_def keys_inv_def part_of_def
    by (auto intro!: keyed_append1 dest: find_NoneD)
  moreover have "parts_inv ?db"
    using inv assms(2,3) by (auto simp: upload_inv_def parts_inv_def intro: rev_image_eqI)
  moreover have "versions_inv ?db"
    using inv by (simp add: upload_inv_def versions_inv_def referenced_def)
  ultimately show ?thesis by (simp add: upload_inv_def)
qed

lemma AdmitPart_db: "snd (AdmitPart fault sid actor purpose number sz hash now db) = db"
  by (auto simp: AdmitPart_def transact_def split: option.splits if_splits)

lemma RecordPart_inv:
  assumes inv: "upload_inv db"
  shows "upload_inv (snd (RecordPart fault sid p db))"
  unfolding RecordPart_def
proof (rule upload_tx [OF inv], goal_cases)
  case (1 stored s')
  then obtain u where u: "session_by_id sid db = Some u"
    by (auto split: option.splits)
  with session_by_id_SomeD have "u \<in> set (upload_sessions db)" "us_ID u = sid" by blast+
  then have "upload_inv (db\<lparr>upload_parts := upload_parts db @ [p\<lparr>up_SessionID := sid\<rparr>]\<rparr>)"
    if "part_of sid (up_Number p) db = None"
    using that by (intro append_part_inv [OF inv]) auto
  with 1 u inv show ?case
    by (auto simp: Let_def split: option.splits if_splits)
qed

lemma BeginCompletion_inv:
  assumes "upload_inv db"
  shows "upload_inv (snd (BeginCompletion fault sid actor purpose now db))"
  unfolding BeginCompletion_def
  by (rule upload_tx [OF assms])
    (use assms in \<open>auto simp: Let_def split: option.splits if_splits
       dest!: session_of_SomeD intro!: set_session_state_inv\<close>)

lemma ReopenCompletion_db: "ReopenCompletion fault sid db = (Some ErrDriver, db)"
  by (simp add: ReopenCompletion_def)

lemma CancelSession_inv:
  assumes "upload_inv db"
  shows "upload_inv (snd (CancelSession fault sid actor purpose st db))"
proof (cases "st = UploadCancelled")
  case True
  then show ?thesis
    unfolding CancelSession_def
    by simp (rule upload_tx [OF assms],
      use assms in \<open>auto split: option.splits if_splits dest!: session_of_SomeD intro!: set_session_state_inv\<close>)
next
  case False
  with assms show ?thesis by (simp add: CancelSession_def)
qed

lemma ConfirmCleanup_inv:
  assumes "upload_inv db"
  shows "upload_inv (snd (ConfirmCleanup fault sid db))"
  unfolding ConfirmCleanup_def
  by (rule upload_tx [OF assms])
    (use assms in \<open>auto simp: Let_def split: option.splits if_splits
       dest!: session_by_id_SomeD intro!: set_session_state_inv\<close>)

text \<open>Publishing: the session leaves \<open>completing\<close> together with its file version.\<close>

lemma publish_inv:
  assumes inv: "upload_inv db" and u: "u \<in> set (upload_sessions db)" "us_ID u = sid"
    and "us_State u \<noteq> UploadCompleted"
    and fresh: "\<And>f. f \<in> set (file_rows db) \<Longrightarrow> f_id f \<noteq> f_id file"
      "\<And>v. v \<in> set (file_versions db) \<Longrightarrow> fv_id v \<noteq> fv_id fv \<and> fv_object_key v \<noteq> us_ObjectKey u"
    and fv: "version_matches u fv" "fv_file_id fv = f_id file"
  shows "upload_inv (set_session_state sid UploadCompleted
     (db\<lparr>file_rows := file_rows db @ [file], file_versions := file_versions db @ [fv],
         file_processing_jobs := jobs, audit_logs := logs\<rparr>))" (is "upload_inv (set_session_state _ _ ?db)")
proof -
  have key: "fv_object_key fv = us_ObjectKey u" using fv by (simp add: version_matches_def)
  have "keys_inv ?db"
    using inv fresh key by (auto simp: upload_inv_def keys_inv_def intro!: keyed_append1)
  moreover have "parts_inv ?db" using inv by (simp add: upload_inv_def parts_inv_def)
  moreover have "versions_inv (set_session_state sid UploadCompleted ?db)"
    unfolding versions_inv_def
  proof (intro conjI ballI impI)
    fix v assume v: "v \<in> set (file_versions (set_session_state sid UploadCompleted ?db))"
    show "\<exists>u \<in> set (upload_sessions (set_session_state sid UploadCompleted ?db)).
        us_State u = UploadCompleted \<and> version_matches u v"
    proof (cases "v = fv")
      case True
      then show ?thesis
        using fv(1) u(2) set_session_state_member [of u ?db sid UploadCompleted] u(1)
        by (intro bexI [of _ "u\<lparr>us_State := UploadCompleted\<rparr>"]) (simp_all add: version_matches_def)
    next
      case False
      with v inv obtain w where w: "w \<in> set (upload_sessions db)" "us_State w = UploadCompleted" "version_matches w v"
        unfolding upload_inv_def versions_inv_def by auto
      then show ?thesis
        using set_session_state_member [of w ?db sid UploadCompleted]
        by (intro bexI [of _ "if us_ID w = sid then w\<lparr>us_State := UploadCompleted\<rparr> else w"])
          (simp_all add: version_matches_def)
    qed
    show "\<exists>f \<in> set (file_rows (set_session_state sid UploadCompleted ?db)). f_id f = fv_file_id v"
      using v inv fv(2) by (auto simp: upload_inv_def versions_inv_def)
  next
    fix w assume "w \<in> set (upload_sessions (set_session_state sid UploadCompleted ?db))"
      "us_State w = UploadCompleted"
    then obtain x where x: "x \<in> set (upload_sessions db)" "us_ObjectKey w = us_ObjectKey x"
      "us_ID x = sid \<or> us_State x = UploadCompleted"
      by (auto simp: set_session_state_sessions split: if_splits)
    show "referenced (us_ObjectKey w) (set_session_state sid UploadCompleted ?db)"
    proof (cases "us_ID x = sid")
      case True
      with x u inv have "x = u"
        unfolding upload_inv_def keys_inv_def using keyed_inj by metis
      with x key show ?thesis by (simp add: referenced_def)
    next
      case False
      with x inv show ?thesis by (auto simp: upload_inv_def versions_inv_def referenced_def)
    qed
  qed
  ultimately show ?thesis
    by (simp add: upload_inv_def set_session_state_keys set_session_state_parts)
qed

lemma FinishCompletion_inv:
  assumes "upload_inv db"
  shows "upload_inv (snd (FinishCompletion fault ids dbnow u actor db))"
  unfolding FinishCompletion_def
proof (rule upload_tx [OF assms], goal_cases)
  case (1 c s')
  then obtain locked where locked: "session_by_id (us_ID u) db = Some locked"
    by (auto split: option.splits)
  note mem = session_by_id_SomeD [OF locked]
  from 1 locked show ?case
    using assms mem
    by (auto split: option.splits if_splits simp: list_ex_iff
        intro!: publish_inv [of db locked] simp: version_matches_def completed_version_def)
qed

lemma FinishCleanup_inv:
  assumes inv: "upload_inv db"
  shows "upload_inv (snd (FinishCleanup fault sid db))"
  unfolding FinishCleanup_def
proof (rule upload_tx [OF inv], goal_cases)
  case (1 x s')
  then obtain u where u: "session_by_id sid db = Some u" and "\<not> referenced (us_ObjectKey u) db"
    and s': "s' = db\<lparr>upload_parts := delete_where (\<lambda>p. up_SessionID p = sid) (upload_parts db),
                    upload_sessions := delete_where (\<lambda>u. us_ID u = sid) (upload_sessions db)\<rparr>"
    by (auto split: option.splits if_splits)
  then have open_only: "us_State v = UploadCompleted \<Longrightarrow> v \<in> set (upload_sessions db) \<Longrightarrow> us_ID v \<noteq> sid" for v
    using inv session_by_id_SomeD [OF u] referenced_completed [OF inv]
    unfolding upload_inv_def keys_inv_def using keyed_inj by metis
  have "keys_inv s'"
    using inv by (simp add: s' upload_inv_def keys_inv_def keyed_delete_where)
  moreover have "parts_inv s'"
    using inv by (auto simp: s' upload_inv_def parts_inv_def table_simps)
  moreover have "versions_inv s'"
    using inv open_only unfolding s' upload_inv_def versions_inv_def referenced_def
    by (fastforce simp: table_simps)
  ultimately show ?case by (simp add: upload_inv_def)
qed

end
