(* ===== verification/Upload_Machine.thy ===== *)
theory Upload_Machine
  imports Upload_Invariant
begin

text \<open>
  Executions of the upload store. \<open>upload_step K\<close> has one rule per method of the
  \<^verbatim>\<open>UploadStore\<close> that can change the tables, called with any arguments, except that a
  new session is created open (\<^verbatim>\<open>UploadService.Create\<close> inserts no other state) and that
  its object key is not one of \<open>K\<close>: \<^verbatim>\<open>Create\<close> draws each key from \<^verbatim>\<open>uuid.New\<close>, so a
  key that has been used once is not drawn again. Any number of concurrent clients and
  cleanup runners produce a sequence of such steps.
\<close>

section \<open>Steps and reachable states\<close>

inductive upload_step :: "string set \<Rightarrow> files_db \<Rightarrow> files_db \<Rightarrow> bool" for K where
  step_create: "us_State u = UploadOpen \<Longrightarrow> us_ObjectKey u \<notin> K \<Longrightarrow>
     upload_step K db (snd (CreateSession fault u db))"
| step_record: "upload_step K db (snd (RecordPart fault sid p db))"
| step_begin: "upload_step K db (snd (BeginCompletion fault sid actor purpose now db))"
| step_reopen: "upload_step K db (snd (ReopenCompletion fault sid db))"
| step_finish: "upload_step K db (snd (FinishCompletion fault ids dbnow u pr db))"
| step_cancel: "upload_step K db (snd (CancelSession fault sid actor purpose st db))"
| step_confirm: "upload_step K db (snd (ConfirmCleanup fault sid db))"
| step_finish_cleanup: "upload_step K db (snd (FinishCleanup fault sid db))"

definition upload_reachable :: "files_db \<Rightarrow> bool" where
  "upload_reachable db \<longleftrightarrow> (upload_step {})\<^sup>*\<^sup>* empty_files_db db"

lemma upload_step_inv: "upload_step K db db' \<Longrightarrow> upload_inv db \<Longrightarrow> upload_inv db'"
  by (induction rule: upload_step.induct)
    (simp_all add: CreateSession_inv RecordPart_inv BeginCompletion_inv ReopenCompletion_db
      FinishCompletion_inv CancelSession_inv ConfirmCleanup_inv FinishCleanup_inv)

lemma upload_steps_inv: "(upload_step K)\<^sup>*\<^sup>* db db' \<Longrightarrow> upload_inv db \<Longrightarrow> upload_inv db'"
  by (induction rule: rtranclp_induct) (auto intro: upload_step_inv)


section \<open>The life of one session\<close>

text \<open>The edges of the session state machine; a session may also stay as it is.\<close>

fun session_edge :: "UploadState \<Rightarrow> UploadState \<Rightarrow> bool" where
  "session_edge UploadOpen UploadCompleting = True"
| "session_edge UploadOpen UploadCancelled = True"
| "session_edge UploadOpen UploadExpired = True"
| "session_edge UploadCompleting UploadCompleted = True"
| "session_edge UploadCompleting UploadCancelled = True"
| "session_edge UploadCompleting UploadExpired = True"
| "session_edge a b = (a = b)"

definition session_evolves :: "UploadSession \<Rightarrow> UploadSession option \<Rightarrow> bool" where
  "session_evolves u after = (case after of
     None \<Rightarrow> us_State u = UploadExpired \<or> us_State u = UploadCancelled
   | Some v \<Rightarrow> v = u\<lparr>us_State := us_State v\<rparr> \<and> session_edge (us_State u) (us_State v))"

lemma session_edge_refl [simp]: "session_edge a a" by (cases a) simp_all

lemma session_evolves_refl [simp]: "session_evolves u (Some u)"
  by (simp add: session_evolves_def)

lemma session_by_id_set_state:
  "session_by_id sid (set_session_state sid' st db) =
     map_option (\<lambda>u. if us_ID u = sid' then u\<lparr>us_State := st\<rparr> else u) (session_by_id sid db)"
  unfolding session_by_id_def set_session_state_def by (simp add: find_update_where)

lemma session_evolves_set_state:
  assumes "upload_inv db" and "session_by_id sid db = Some u"
    and "w \<in> set (upload_sessions db)" "us_ID w = sid'" "session_edge (us_State w) st"
  shows "session_evolves u (session_by_id sid (set_session_state sid' st db))"
proof (cases "sid = sid'")
  case True
  with assms have "w = u"
    using session_by_id_eq [of db w] by (simp add: upload_inv_def)
  with assms True show ?thesis
    by (simp add: session_by_id_set_state session_evolves_def)
next
  case False
  with assms show ?thesis
    using session_by_id_SomeD [of sid db u] by (simp add: session_by_id_set_state)
qed

lemma session_evolves_by_id:
  assumes "upload_inv db" and "session_by_id sid db = Some u"
    and "session_by_id sid' db = Some w" "session_edge (us_State w) st"
  shows "session_evolves u (session_by_id sid (set_session_state sid' st db))"
  using assms session_by_id_SomeD [of sid' db w] by (intro session_evolves_set_state [of db sid u w]) simp_all

lemma transact_evolves:
  assumes "session_by_id sid db = Some u"
    and "\<And>x db'. body db = Inr (x, db') \<Longrightarrow> session_evolves u (session_by_id sid db')"
  shows "session_evolves u (session_by_id sid (snd (transact fault e body db)))"
  using assms transact_invariant [of "\<lambda>d. session_evolves u (session_by_id sid d)" db body fault e] by simp

lemma CreateSession_evolves:
  assumes "session_by_id sid db = Some u"
  shows "session_evolves u (session_by_id sid (snd (CreateSession fault w db)))"
  unfolding CreateSession_def
  by (rule transact_evolves [OF assms])
    (use assms in \<open>auto simp: session_by_id_def find_append split: if_splits\<close>)

lemma RecordPart_evolves:
  assumes "session_by_id sid db = Some u"
  shows "session_evolves u (session_by_id sid (snd (RecordPart fault sid' p db)))"
  unfolding RecordPart_def
  by (rule transact_evolves [OF assms])
    (use assms in \<open>auto simp: session_by_id_def Let_def split: if_splits option.splits\<close>)

lemma BeginCompletion_evolves:
  assumes inv: "upload_inv db" and u: "session_by_id sid db = Some u"
  shows "session_evolves u (session_by_id sid (snd (BeginCompletion fault sid' actor purpose now db)))"
  unfolding BeginCompletion_def
  by (rule transact_evolves [OF u])
    (use inv u in \<open>auto simp: Let_def split: if_splits option.splits dest!: session_of_SomeD
       intro!: session_evolves_set_state [OF inv u]\<close>)

lemma CancelSession_evolves:
  assumes inv: "upload_inv db" and u: "session_by_id sid db = Some u"
  shows "session_evolves u (session_by_id sid (snd (CancelSession fault sid' actor purpose st db)))"
proof (cases "st = UploadCancelled")
  case True
  have edge: "session_edge s UploadCancelled" if "s \<noteq> UploadCompleted" "s \<noteq> UploadExpired" for s
    using that by (cases s) simp_all
  show ?thesis
    unfolding CancelSession_def True
    by simp (rule transact_evolves [OF u],
      use edge u in \<open>auto split: if_splits option.splits dest!: session_of_SomeD [of sid']
         intro!: session_evolves_set_state [OF inv u]\<close>)
next
  case False
  with u show ?thesis by (simp add: CancelSession_def)
qed

lemma ConfirmCleanup_evolves:
  assumes inv: "upload_inv db" and u: "session_by_id sid db = Some u"
  shows "session_evolves u (session_by_id sid (snd (ConfirmCleanup fault sid' db)))"
  unfolding ConfirmCleanup_def
  by (rule transact_evolves [OF u])
    (use u in \<open>auto simp: Let_def split: if_splits option.splits
       intro!: session_evolves_by_id [OF inv u]\<close>)

lemma FinishCompletion_evolves:
  assumes inv: "upload_inv db" and u: "session_by_id sid db = Some u"
  shows "session_evolves u (session_by_id sid (snd (FinishCompletion fault ids dbnow w pr db)))"
  unfolding FinishCompletion_def
proof (rule transact_evolves [OF u], goal_cases)
  case (1 c db')
  then obtain locked where locked: "session_by_id (us_ID w) db = Some locked"
    by (auto split: option.splits)
  note mem = session_by_id_SomeD [OF locked]
  have files: "session_by_id sid (set_session_state i st (db\<lparr>file_rows := a, file_versions := b,
      file_processing_jobs := c, audit_logs := d\<rparr>)) = session_by_id sid (set_session_state i st db)" for i st a b c d
    by (simp add: session_by_id_def set_session_state_def)
  from 1 locked mem u show ?case
    by (auto simp: files split: option.splits if_splits intro!: session_evolves_set_state [OF inv u])
qed

lemma FinishCleanup_evolves:
  assumes inv: "upload_inv db" and u: "session_by_id sid db = Some u"
  shows "session_evolves u (session_by_id sid (snd (FinishCleanup fault sid' db)))"
  unfolding FinishCleanup_def
proof (rule transact_evolves [OF u], goal_cases)
  case (1 x db')
  have gone: "session_by_id sid (db\<lparr>upload_parts := ps, upload_sessions := delete_where (\<lambda>u. us_ID u = sid') (upload_sessions db)\<rparr>)
      = (if sid = sid' then None else session_by_id sid db)" for ps
    by (auto simp: session_by_id_def find_deleted intro!: find_delete_where)
  from 1 u show ?case
    by (auto simp: gone session_evolves_def split: option.splits if_splits)
qed

lemmas method_evolves = CreateSession_evolves RecordPart_evolves BeginCompletion_evolves
  FinishCompletion_evolves CancelSession_evolves ConfirmCleanup_evolves FinishCleanup_evolves

text \<open>C4: Whatever transaction runs next, a session keeps every field except its state, the
  state only moves open to completing, completing to completed, and either of the two to
  cancelled or expired, and the row disappears only once it is cancelled or expired. In
  particular no transaction ever takes a session out of completed, cancelled or expired,
  and none takes it back to open.\<close>

theorem session_lifecycle:
  assumes "upload_inv db" and "session_by_id sid db = Some u" and "upload_step K db db'"
  shows "case session_by_id sid db' of
      None \<Rightarrow> us_State u = UploadExpired \<or> us_State u = UploadCancelled
    | Some v \<Rightarrow> v = u\<lparr>us_State := us_State v\<rparr> \<and> session_edge (us_State u) (us_State v)"
proof -
  have "session_evolves u (session_by_id sid db')"
    using assms(3,1,2) by cases (simp_all add: method_evolves ReopenCompletion_db)
  then show ?thesis by (simp add: session_evolves_def)
qed

section \<open>Deleting an object never destroys a published file\<close>

text \<open>A key is retired when every session that carries it is cancelled or expired and no
  file version refers to it.\<close>

definition retired :: "string \<Rightarrow> files_db \<Rightarrow> bool" where
  "retired key db \<longleftrightarrow> \<not> referenced key db \<and>
     (\<forall>u \<in> set (upload_sessions db). us_ObjectKey u = key \<longrightarrow>
        us_State u = UploadExpired \<or> us_State u = UploadCancelled)"

abbreviation session_ids :: "files_db \<Rightarrow> uuid set" where
  "session_ids db \<equiv> us_ID ` set (upload_sessions db)"

lemmas ids_tx = transact_invariant [where I = "\<lambda>d. session_ids d \<subseteq> X" for X]

lemma method_ids:
  "session_ids (snd (RecordPart fault sid p db)) \<subseteq> session_ids db"
  "session_ids (snd (BeginCompletion fault sid actor purpose now db)) \<subseteq> session_ids db"
  "session_ids (snd (FinishCompletion fault ids dbnow u pr db)) \<subseteq> session_ids db"
  "session_ids (snd (ConfirmCleanup fault sid db)) \<subseteq> session_ids db"
  unfolding RecordPart_def BeginCompletion_def FinishCompletion_def ConfirmCleanup_def
  by (rule ids_tx, simp, clarsimp simp: Let_def set_session_state_ids split: option.splits if_splits)+

lemma CancelSession_ids: "session_ids (snd (CancelSession fault sid actor purpose st db)) \<subseteq> session_ids db"
  unfolding CancelSession_def
  by (cases "st = UploadCancelled")
    (simp_all, rule ids_tx, simp, clarsimp simp: set_session_state_ids split: option.splits if_splits)

lemma FinishCleanup_ids: "session_ids (snd (FinishCleanup fault sid db)) \<subseteq> session_ids db"
  unfolding FinishCleanup_def
  by (rule ids_tx, simp, clarsimp simp: table_simps split: option.splits if_splits)

lemma new_session_key:
  assumes "upload_step K db db'" and "v \<in> set (upload_sessions db')" and "us_ID v \<notin> session_ids db"
  shows "us_ObjectKey v \<notin> K"
proof -
  have old: "\<not> session_ids db' \<subseteq> session_ids db" using assms(2,3) by blast
  from assms(1) show ?thesis
  proof cases
    case (step_create u fault)
    with assms(2,3) show ?thesis
      by (auto simp: CreateSession_def transact_def split: if_splits)
  qed (use old method_ids CancelSession_ids FinishCleanup_ids in \<open>simp_all add: ReopenCompletion_db\<close>)
qed

lemma retired_sessions:
  assumes "retired key db" and "upload_inv db" and step: "upload_step {key} db db'"
    and v: "v \<in> set (upload_sessions db')" "us_ObjectKey v = key"
  shows "us_State v = UploadExpired \<or> us_State v = UploadCancelled"
proof -
  note inv' = upload_step_inv [OF step assms(2)]
  then have v': "session_by_id (us_ID v) db' = Some v"
    using v(1) session_by_id_eq by (auto simp: upload_inv_def)
  show ?thesis
  proof (cases "session_by_id (us_ID v) db")
    case (Some u)
    have "session_evolves u (session_by_id (us_ID v) db')"
      using step assms(2) Some by cases (simp_all add: method_evolves ReopenCompletion_db)
    then have "us_ObjectKey u = us_ObjectKey v" and "session_edge (us_State u) (us_State v)"
      unfolding v' session_evolves_def option.case by (metis UploadSession.select_convs(4) UploadSession.surjective
          UploadSession.update_convs(10), blast)
    then show ?thesis
      using assms(1) v session_by_id_SomeD [OF Some] unfolding retired_def
      by (cases "us_State u"; cases "us_State v") auto
  next
    case None
    then have "us_ID v \<notin> session_ids db"
      by (auto simp: session_by_id_def find_None_iff)
    with new_session_key [OF step v(1)] v(2) show ?thesis by simp
  qed
qed

lemma retired_step:
  assumes "retired key db" and "upload_inv db" and step: "upload_step {key} db db'"
  shows "retired key db'"
proof -
  have "\<not> referenced key db'"
  proof
    assume "referenced key db'"
    then obtain fv where "fv \<in> set (file_versions db')" "fv_object_key fv = key"
      by (auto simp: referenced_iff)
    with upload_step_inv [OF step assms(2)] obtain v
      where "v \<in> set (upload_sessions db')" "us_State v = UploadCompleted" "us_ObjectKey v = key"
      unfolding upload_inv_def versions_inv_def version_matches_def by metis
    with retired_sessions [OF assms] show False by fastforce
  qed
  with retired_sessions [OF assms] show ?thesis by (auto simp: retired_def)
qed

lemma retired_steps:
  assumes "(upload_step {key})\<^sup>*\<^sup>* db db'" and "retired key db" and "upload_inv db"
  shows "retired key db' \<and> upload_inv db'"
  using assms by (induction rule: rtranclp_induct) (auto intro: retired_step upload_step_inv)

lemma ConfirmCleanup_retires:
  assumes inv: "upload_inv db" and "ConfirmCleanup fault sid db = (Inr u, db')"
  shows "retired (us_ObjectKey u) db'"
proof -
  from assms(2) have "\<not> fault"
    and body: "ConfirmCleanup False sid db = (Inr u, db')"
    unfolding ConfirmCleanup_def by (auto simp: transact_def split: if_splits)
  from body obtain w where w: "session_by_id sid db = Some w" "\<not> referenced (us_ObjectKey w) db"
    "us_ObjectKey u = us_ObjectKey w" "us_State u = UploadExpired \<or> us_State u = UploadCancelled"
    "db' = set_session_state sid UploadExpired db \<or> (db' = db \<and> u = w)"
    unfolding ConfirmCleanup_def
    by (auto simp: transact_def Let_def split: if_splits option.splits)
  have only: "x = w" if "x \<in> set (upload_sessions db)" "us_ObjectKey x = us_ObjectKey w" for x
    using that inv session_by_id_SomeD [OF w(1)] unfolding upload_inv_def keys_inv_def by (auto dest: keyed_inj)
  from w(5) show ?thesis
  proof
    assume db': "db' = set_session_state sid UploadExpired db"
    have "us_State x = UploadExpired"
      if "x \<in> set (upload_sessions db')" "us_ObjectKey x = us_ObjectKey w" for x
      using that only session_by_id_SomeD [OF w(1)]
      by (auto simp: db' set_session_state_sessions split: if_splits)
    with w(2,3) show ?thesis by (auto simp: retired_def db')
  next
    assume "db' = db \<and> u = w"
    with w only show ?thesis by (auto simp: retired_def)
  qed
qed

text \<open>C2: Once \<open>ConfirmCleanup\<close> has handed a session to the cleanup runner, the runner may
  abort the multipart upload and delete the object at any later moment: no sequence of
  transactions of any client, however interleaved with the deletion, publishes a file
  version that refers to that object.\<close>

theorem confirmed_cleanup_safe:
  assumes "upload_inv db" and "ConfirmCleanup fault sid db = (Inr u, db')"
    and "(upload_step {us_ObjectKey u})\<^sup>*\<^sup>* db' db''"
  shows "\<not> referenced (us_ObjectKey u) db''"
proof -
  have "upload_inv db'" using ConfirmCleanup_inv [OF assms(1), of fault sid] assms(2) by simp
  with retired_steps [OF assms(3) ConfirmCleanup_retires [OF assms(1,2)]] show ?thesis
    by (simp add: retired_def)
qed

section \<open>Completing twice\<close>

lemma scanCompleted_eq:
  assumes "keys_inv db" and "fv \<in> set (file_versions db)" and "f \<in> set (file_rows db)" "f_id f = fv_file_id fv"
  shows "scanCompleted (fv_object_key fv) db =
    Some \<lparr>cu_FileID = fv_file_id fv, cu_FileVersionID = fv_id fv, cu_ProcessingState = fv_processing_state fv\<rparr>"
proof -
  have "find (\<lambda>v. fv_object_key v = fv_object_key fv \<and> list_ex (\<lambda>f. f_id f = fv_file_id v) (file_rows db))
      (file_versions db) = Some fv"
    using assms by (intro find_keyed [where k = fv_object_key]) (auto simp: keys_inv_def list_ex_iff)
  then show ?thesis by (simp add: scanCompleted_def)
qed

lemma FinishCompletion_completes:
  assumes inv: "upload_inv db" and ok: "FinishCompletion fault ids dbnow u pr db = (Inr c, db')"
  obtains v where "session_by_id (us_ID u) db' = Some v" "us_State v = UploadCompleted"
    "scanCompleted (us_ObjectKey v) db' = Some c"
proof -
  have inv': "upload_inv db'" using FinishCompletion_inv [OF inv, of fault ids dbnow u pr] ok by simp
  from ok obtain locked where locked: "session_by_id (us_ID u) db = Some locked"
    unfolding FinishCompletion_def by (auto simp: transact_def split: if_splits option.splits)
  show ?thesis
  proof (cases "us_State locked = UploadCompleted")
    case True
    with ok locked show ?thesis
      by (intro that) (auto simp: FinishCompletion_def transact_def split: if_splits option.splits)
  next
    case False
    from ok locked False have db': "db' = set_session_state (us_ID locked) UploadCompleted
        (db\<lparr>file_rows := file_rows db' , file_versions := file_versions db',
           file_processing_jobs := file_processing_jobs db', audit_logs := audit_logs db'\<rparr>)"
      and c: "c = \<lparr>cu_FileID = ci_file ids, cu_FileVersionID = ci_version ids, cu_ProcessingState = Pending_scan\<rparr>"
      and rows: "completed_version locked ids dbnow \<in> set (file_versions db')"
        "\<lparr>f_id = ci_file ids, f_created_by = us_ActorUserID locked, f_deleted_at = None\<rparr> \<in> set (file_rows db')"
      unfolding FinishCompletion_def
      by (simp_all add: transact_def set_session_state_def split: if_splits; auto)+
    have "session_by_id (us_ID u) db' = Some (locked\<lparr>us_State := UploadCompleted\<rparr>)"
      using session_by_id_SomeD [OF locked] locked
      by (subst db', subst session_by_id_set_state) (simp add: session_by_id_def)
    moreover have "scanCompleted (us_ObjectKey locked) db' = Some c"
      using scanCompleted_eq [OF _ rows] inv' by (simp add: upload_inv_def c completed_version_def)
    ultimately show ?thesis using that by simp
  qed
qed

text \<open>Completion is idempotent. After one successful \<open>FinishCompletion\<close> of a session
  every further call, whatever identifiers it would have generated, answers with the same
  file and version and changes nothing; so does \<open>BeginCompletion\<close> for the owner, even
  after the session's expiry. A retried or concurrent completion never publishes a second
  file.\<close>

theorem completion_idempotent:
  assumes "upload_inv db" and "FinishCompletion fault ids dbnow u pr db = (Inr c, db')"
  shows "FinishCompletion False ids' dbnow' u pr' db' = (Inr c, db') \<and>
    (\<exists>v. session_by_id (us_ID u) db' = Some v \<and>
       BeginCompletion False (us_ID u) (us_ActorUserID v) (us_Purpose v) now db' = (Inr (v, [], Some c), db'))"
proof -
  obtain v where v: "session_by_id (us_ID u) db' = Some v" "us_State v = UploadCompleted"
    "scanCompleted (us_ObjectKey v) db' = Some c"
    using FinishCompletion_completes [OF assms] .
  have inv': "upload_inv db'" using FinishCompletion_inv [OF assms(1), of fault ids dbnow u pr] assms(2) by simp
  have "session_of (us_ID u) (us_ActorUserID v) (us_Purpose v) db' = Some v"
    using inv' session_by_id_SomeD [OF v(1)] unfolding session_of_def upload_inv_def keys_inv_def
    by (intro find_keyed [where k = us_ID]) auto
  with v show ?thesis by (auto simp: FinishCompletion_def BeginCompletion_def transact_def)
qed

section \<open>Concrete executions\<close>

definition sample_db :: "UploadState \<Rightarrow> files_db" where
  "sample_db st = empty_files_db\<lparr>upload_sessions := [sample_session\<lparr>us_State := st\<rparr>]\<rparr>"

definition sample_user :: User where
  "sample_user = \<lparr>u_ID = 3, u_Username = ''lin'', u_DisplayName = ''Lin'', u_Role = RoleStudent,
     u_Status = StatusActive, u_PasswordHash = ''x'', u_MustChangePassword = False, u_CreatedAt = 1\<rparr>"

definition sample_principal :: Principal where
  "sample_principal = \<lparr>p_User = sample_user, p_RequestID = ''r'', p_IP = None\<rparr>"

definition sample_ids :: completion_ids where
  "sample_ids = \<lparr>ci_file = 11, ci_version = 12, ci_job = 13\<rparr>"

lemma sample_created: "snd (CreateSession False sample_session empty_files_db) = sample_db UploadOpen"
  by (simp add: CreateSession_def transact_def sample_db_def empty_files_db_def sample_session_def)

lemma sample_db_inv: "st \<noteq> UploadCompleted \<Longrightarrow> upload_inv (sample_db st)"
  by (simp add: sample_db_def upload_inv_def keys_inv_def parts_inv_def versions_inv_def empty_files_db_def keyed_def)

lemma sample_found: "session_by_id 7 (sample_db st) = Some (sample_session\<lparr>us_State := st\<rparr>)"
  by (simp add: session_by_id_def sample_db_def sample_session_def)

lemma sample_session_simps [simp]: "us_State sample_session = UploadOpen" "us_ID sample_session = 7"
  "us_ObjectKey sample_session = ''originals/0a''" "us_Purpose sample_session = UploadPurposeAI"
  "us_ActorUserID sample_session = 3"
  by (simp_all add: sample_session_def)


theorem session_lifecycle_witness:
  "session_by_id 7 (snd (ConfirmCleanup False 7 (sample_db UploadCompleting))) =
     Some (sample_session\<lparr>us_State := UploadExpired\<rparr>) \<and> session_edge UploadCompleting UploadExpired"
proof -
  have after: "session_by_id 7 (snd (ConfirmCleanup False 7 (sample_db UploadCompleting))) =
     Some (sample_session\<lparr>us_State := UploadExpired\<rparr>)"
    by (simp add: ConfirmCleanup_def transact_def sample_found session_by_id_set_state)
       (simp add: referenced_def sample_db_def empty_files_db_def session_by_id_set_state sample_found [unfolded sample_db_def empty_files_db_def])
  with session_lifecycle [OF sample_db_inv sample_found step_confirm [of "{}" "sample_db UploadCompleting" False 7]]
  show ?thesis by simp
qed

theorem confirmed_cleanup_safe_witness:
  "\<not> referenced ''originals/0a'' (snd (FinishCompletion False sample_ids 50 sample_session sample_principal
      (snd (ConfirmCleanup False 7 (sample_db UploadCompleting)))))"
proof -
  let ?db = "set_session_state 7 UploadExpired (sample_db UploadCompleting)"
  have c: "ConfirmCleanup False 7 (sample_db UploadCompleting) = (Inr (sample_session\<lparr>us_State := UploadExpired\<rparr>), ?db)"
    by (simp add: ConfirmCleanup_def transact_def sample_found)
       (simp add: referenced_def sample_db_def empty_files_db_def)
  then show ?thesis
    using confirmed_cleanup_safe [OF sample_db_inv c r_into_rtranclp, OF _ step_finish] by simp
qed

theorem completion_idempotent_witness:
  "\<exists>db'. FinishCompletion False sample_ids 50 sample_session sample_principal (sample_db UploadCompleting) =
      (Inr \<lparr>cu_FileID = 11, cu_FileVersionID = 12, cu_ProcessingState = Pending_scan\<rparr>, db') \<and>
    FinishCompletion False (sample_ids\<lparr>ci_file := 21, ci_version := 22\<rparr>) 60 sample_session sample_principal db' =
      (Inr \<lparr>cu_FileID = 11, cu_FileVersionID = 12, cu_ProcessingState = Pending_scan\<rparr>, db')"
proof -
  obtain db' where ok: "FinishCompletion False sample_ids 50 sample_session sample_principal (sample_db UploadCompleting) =
      (Inr \<lparr>cu_FileID = 11, cu_FileVersionID = 12, cu_ProcessingState = Pending_scan\<rparr>, db')"
    using sample_found [of UploadCompleting]
    by (auto simp: FinishCompletion_def transact_def sample_ids_def)
       (simp add: sample_db_def empty_files_db_def)
  with completion_idempotent [OF sample_db_inv ok] show ?thesis by auto
qed

end
