(* ===== verification/Upload_Service.thy ===== *)
theory Upload_Service
  imports Upload_Machine
begin

text \<open>
  \<^verbatim>\<open>internal/files/upload_service.go\<close>: the upload service over the store of
  \<open>Upload_Store\<close> and an object store. Its state is the pair of the tables and the object
  store's state \<open>'o\<close>; a method returns its result and the new pair. Arguments stand for
  what the environment decides: the clock readings, the random bytes, the generated
  identifiers, which store calls fail (\<open>fault\<close>), the object store's operations and the
  digest function of \<^verbatim>\<open>crypto/sha256\<close> (every theorem holds for any function there).
  \<^verbatim>\<open>Complete\<close>, \<^verbatim>\<open>Cancel\<close> and cleanup hold the session's gate exclusively and
  \<^verbatim>\<open>PutPart\<close> holds it shared, so within a process a method is not interleaved with an
  excluding one; \<open>Upload_Machine\<close> covers arbitrary interleavings of the transactions.
\<close>

datatype store_call =
    CallCreateSession | CallGetSession | CallAdmitPart | CallRecordPart | CallBeginCompletion
  | CallReopenCompletion | CallFinishCompletion | CallCancelSession | CallClaimCleanup
  | CallConfirmCleanup | CallFinishCleanup

type_synonym faults = "store_call \<Rightarrow> uuid \<Rightarrow> bool"

section \<open>Helpers\<close>

definition uploadTTL :: duration where "uploadTTL = 24 * Hour"
definition cleanupGrace :: duration where "cleanupGrace = Hour"

text \<open>\<^verbatim>\<open>hex.EncodeToString\<close>\<close>

definition hex_char :: "nat \<Rightarrow> char" where
  "hex_char n = char_of (if n < 10 then 48 + n else 87 + n)"

definition EncodeToString :: "string \<Rightarrow> string" where
  "EncodeToString bs = concat (map (\<lambda>b. [hex_char (byte b div 16), hex_char (byte b mod 16)]) bs)"

definition randomObjectKey :: "string option \<Rightarrow> string option" where
  "randomObjectKey random = map_option (\<lambda>bytes. ''originals/'' @ EncodeToString bytes) random"

definition partView :: "UploadPart \<Rightarrow> PartView" where
  "partView part = \<lparr>pv_Number = up_Number part, pv_Size = up_Size part, pv_SHA256 = up_SHA256 part\<rparr>"

definition uploadView :: "UploadSession \<Rightarrow> UploadPart list \<Rightarrow> UploadView" where
  "uploadView u parts = \<lparr>uv_ID = us_ID u, uv_DisplayName = us_DisplayName u,
     uv_DeclaredMIME = us_DeclaredMIME u, uv_ExpectedSize = us_ExpectedSize u,
     uv_ExpectedSHA256 = us_ExpectedSHA256 u, uv_State = us_State u, uv_ExpiresAt = us_ExpiresAt u,
     uv_Parts = map partView (sort_key up_Number parts)\<rparr>"

definition object_error_text :: "object_error \<Rightarrow> string" where
  "object_error_text e = (case e of ObjNotFound \<Rightarrow> ''object not found''
     | ObjConflict \<Rightarrow> ''object state conflict'' | ObjUnavailable \<Rightarrow> ''object store unavailable'')"

text \<open>The checks that open every method with a session.\<close>

definition authorize_session :: "UploadPolicy \<Rightarrow> Principal \<Rightarrow> uuid \<Rightarrow> files_error option" where
  "authorize_session policy actor sid =
     (case validatePrincipal actor of
        Some e \<Rightarrow> Some e
      | None \<Rightarrow> (case Authorize policy (p_User actor) of
          Some e \<Rightarrow> Some e
        | None \<Rightarrow> if sid = uuid_Nil then Some ErrInvalid else None))"

section \<open>Create and Status\<close>

definition Create ::
  "faults \<Rightarrow> 'o objectstore \<Rightarrow> UploadPolicy \<Rightarrow> string option \<Rightarrow> time \<Rightarrow> uuid \<Rightarrow> Principal \<Rightarrow> CreateUploadInput
     \<Rightarrow> files_db \<times> 'o \<Rightarrow> (files_error + UploadView) \<times> (files_db \<times> 'o)" where
  "Create fault objects policy random now newID actor inp = (\<lambda>(db, ob).
     case validatePrincipal actor of Some e \<Rightarrow> (Inl e, db, ob) | None \<Rightarrow>
     case Authorize policy (p_User actor) of Some e \<Rightarrow> (Inl e, db, ob) | None \<Rightarrow>
     case Validate policy inp of Some e \<Rightarrow> (Inl e, db, ob) | None \<Rightarrow>
     case randomObjectKey random of None \<Rightarrow> (Inl (ErrText ''generate upload object key''), db, ob) | Some key \<Rightarrow>
     case os_CreateMultipart objects key
         \<lparr>om_ContentType = in_DeclaredMIME inp, om_SHA256 = in_ExpectedSHA256 inp\<rparr> ob of
       (Inl _, ob1) \<Rightarrow> (Inl (ErrText ''create upload storage''), db, ob1)
     | (Inr uploadID, ob1) \<Rightarrow>
         (let u = \<lparr>us_ID = newID, us_ActorUserID = u_ID (p_User actor), us_Purpose = Purpose policy,
                   us_ObjectKey = key, us_MinIOUploadID = uploadID, us_DisplayName = in_DisplayName inp,
                   us_DeclaredMIME = in_DeclaredMIME inp, us_ExpectedSize = in_ExpectedSize inp,
                   us_ExpectedSHA256 = in_ExpectedSHA256 inp, us_State = UploadOpen,
                   us_ExpiresAt = now + uploadTTL, us_CreatedAt = now\<rparr>
          in case CreateSession (fault CallCreateSession newID) u db of
               (Inr _, db1) \<Rightarrow> (Inr (uploadView u []), db1, ob1)
             | (Inl _, db1) \<Rightarrow>
                 (case os_AbortMultipart objects key uploadID ob1 of
                    (None, ob2) \<Rightarrow> (Inl (ErrText ''persist upload session''), db1, ob2)
                  | (Some ae, ob2) \<Rightarrow>
                      (Inl (ErrText (''persist upload session'' @ CHR 0x0A # object_error_text ae)), db1, ob2))))"

definition Status_upload ::
  "faults \<Rightarrow> UploadPolicy \<Rightarrow> time \<Rightarrow> Principal \<Rightarrow> uuid \<Rightarrow> files_db \<Rightarrow> files_error + UploadView" where
  "Status_upload fault policy now actor sid db =
     (case authorize_session policy actor sid of Some e \<Rightarrow> Inl e | None \<Rightarrow>
      case GetSession (fault CallGetSession sid) sid (u_ID (p_User actor)) (Purpose policy) db of
        Inl e \<Rightarrow> Inl e
      | Inr (u, parts) \<Rightarrow>
          if us_State u = UploadOpen \<and> now > us_ExpiresAt u then Inl ErrUploadExpired
          else Inr (uploadView u parts))"

section \<open>PutPart\<close>

text \<open>
  The part reaches the object store through
  \<^verbatim>\<open>LimitReader(countingReader(TeeReader(LimitReader(body, size+1), digest)), size)\<close>: the
  store cannot obtain more than \<open>size\<close> bytes nor more than the body has, the counter
  and the digest see exactly the bytes it did obtain. The read of one further byte then
  fails unless the body ends cleanly there. \<open>busy\<close> says that both slots of the
  session's gate are taken.
\<close>

definition consumed :: "nat \<Rightarrow> int \<Rightarrow> body \<Rightarrow> string" where
  "consumed n sz b = take (min n (nat sz)) (b_bytes b)"

definition extra_read_ok :: "string \<Rightarrow> body \<Rightarrow> bool" where
  "extra_read_ok got b \<longleftrightarrow> length got = length (b_bytes b) \<and> \<not> b_fails b"

definition PutPart ::
  "faults \<Rightarrow> 'o objectstore \<Rightarrow> (string \<Rightarrow> string) \<Rightarrow> UploadPolicy \<Rightarrow> bool \<Rightarrow> time \<Rightarrow> time \<Rightarrow> Principal
     \<Rightarrow> PutPartInput \<Rightarrow> files_db \<times> 'o \<Rightarrow> (files_error + PartView) \<times> (files_db \<times> 'o)" where
  "PutPart fault objects sha256 policy busy nowAdmit nowRecord actor inp = (\<lambda>(db, ob).
     case validatePrincipal actor of Some e \<Rightarrow> (Inl e, db, ob) | None \<Rightarrow>
     case Authorize policy (p_User actor) of Some e \<Rightarrow> (Inl e, db, ob) | None \<Rightarrow>
     case pp_Body inp of None \<Rightarrow> (Inl ErrInvalid, db, ob) | Some body \<Rightarrow>
     if pp_SessionID inp = uuid_Nil \<or> pp_Number inp < 1 \<or> pp_Number inp > 10000 \<or> pp_Size inp < 1 \<or>
        \<not> validHash (pp_SHA256 inp)
     then (Inl ErrInvalid, db, ob)
     else if busy then (Inl ErrTooManyPartRequests, db, ob)
     else case AdmitPart (fault CallAdmitPart (pp_SessionID inp)) (pp_SessionID inp) (u_ID (p_User actor))
                 (Purpose policy) (pp_Number inp) (pp_Size inp) (pp_SHA256 inp) nowAdmit db of
       (Inl e, db1) \<Rightarrow> (Inl e, db1, ob)
     | (Inr (_, Some existing), db1) \<Rightarrow> (Inr (partView existing), db1, ob)
     | (Inr (u, None), db1) \<Rightarrow>
         if expectedPartSize (us_ExpectedSize u) (pp_Number inp) \<noteq> Some (pp_Size inp)
         then (Inl ErrInvalid, db1, ob)
         else case os_PutPart objects (us_ObjectKey u) (us_MinIOUploadID u) (pp_Number inp) body (pp_Size inp)
                     (pp_SHA256 inp) ob of
           (Inl _, _, ob1) \<Rightarrow> (Inl (ErrText ''store upload part''), db1, ob1)
         | (Inr remotePart, n, ob1) \<Rightarrow>
             (let got = consumed n (pp_Size inp) body
              in if int (length got) \<noteq> pp_Size inp then (Inl ErrInvalid, db1, ob1)
                 else if \<not> extra_read_ok got body then (Inl ErrInvalid, db1, ob1)
                 else if EncodeToString (sha256 got) \<noteq> pp_SHA256 inp then (Inl ErrPartHashMismatch, db1, ob1)
                 else case RecordPart (fault CallRecordPart (us_ID u)) (us_ID u)
                     \<lparr>up_SessionID = us_ID u, up_Number = pp_Number inp, up_Size = pp_Size inp,
                      up_SHA256 = EncodeToString (sha256 got), up_ETag = pt_ETag remotePart,
                      up_CreatedAt = nowRecord\<rparr> db1 of
                   (Inl e, db2) \<Rightarrow> (Inl e, db2, ob1)
                 | (Inr part, db2) \<Rightarrow> (Inr (partView part), db2, ob1)))"

section \<open>Complete and Cancel\<close>

definition rejectCompletedObject ::
  "faults \<Rightarrow> 'o objectstore \<Rightarrow> UploadPolicy \<Rightarrow> Principal \<Rightarrow> UploadSession \<Rightarrow> files_db \<times> 'o
     \<Rightarrow> files_error \<times> (files_db \<times> 'o)" where
  "rejectCompletedObject fault objects policy actor u = (\<lambda>(db, ob).
     case CancelSession (fault CallCancelSession (us_ID u)) (us_ID u) (u_ID (p_User actor)) (Purpose policy)
            UploadCancelled db of
       (Inl _, db1) \<Rightarrow> (ErrText ''cancel invalid completed upload'', db1, ob)
     | (Inr _, db1) \<Rightarrow>
         (case os_Delete objects (us_ObjectKey u) ob of
            (e, ob1) \<Rightarrow>
              if e \<noteq> None \<and> e \<noteq> Some ObjNotFound then (ErrText ''remove invalid completed upload'', db1, ob1)
              else (ErrFinalHashMismatch, db1, ob1)))"

text \<open>\<^verbatim>\<open>CompleteMultipart\<close>, or the object it already assembled.\<close>

definition complete_or_stat ::
  "'o objectstore \<Rightarrow> UploadSession \<Rightarrow> Part list \<Rightarrow> 'o \<Rightarrow> (object_error + ObjectInfo) \<times> 'o" where
  "complete_or_stat objects u parts ob =
     (case os_CompleteMultipart objects (us_ObjectKey u) (us_MinIOUploadID u) parts ob of
        (Inl ObjNotFound, ob1) \<Rightarrow> (os_Stat objects (us_ObjectKey u) ob1, ob1)
      | answer \<Rightarrow> answer)"

definition verified_object :: "(string \<Rightarrow> string) \<Rightarrow> UploadSession \<Rightarrow> body \<Rightarrow> ObjectInfo \<Rightarrow> bool" where
  "verified_object sha256 u b objectInfo \<longleftrightarrow>
     (let got = take (nat (us_ExpectedSize u + 1)) (b_bytes b)
      in int (length got) = us_ExpectedSize u \<and> oinf_Size objectInfo = us_ExpectedSize u \<and>
         EncodeToString (sha256 got) = us_ExpectedSHA256 u)"

text \<open>\<^verbatim>\<open>io.Copy\<close> from \<^verbatim>\<open>LimitReader(reader, expected+1)\<close>: the copy fails exactly when
  the body fails before the limit is reached. \<open>close_fails\<close> is \<^verbatim>\<open>reader.Close\<close>'s answer.\<close>

definition copy_fails :: "UploadSession \<Rightarrow> body \<Rightarrow> bool" where
  "copy_fails u b \<longleftrightarrow> b_fails b \<and> int (length (b_bytes b)) < us_ExpectedSize u + 1"

text \<open>The second half of \<^verbatim>\<open>Complete\<close>: the assembled object is measured, read back, hashed
  and only then published.\<close>

definition verify_and_publish ::
  "faults \<Rightarrow> 'o objectstore \<Rightarrow> (string \<Rightarrow> string) \<Rightarrow> UploadPolicy \<Rightarrow> bool \<Rightarrow> completion_ids \<Rightarrow> time
     \<Rightarrow> Principal \<Rightarrow> UploadSession \<Rightarrow> ObjectInfo \<Rightarrow> files_db \<times> 'o
     \<Rightarrow> (files_error + CompletedUpload) \<times> (files_db \<times> 'o)" where
  "verify_and_publish fault objects sha256 policy close_fails ids dbnow actor u info = (\<lambda>(db, ob).
     if oinf_Size info \<noteq> us_ExpectedSize u
     then (case rejectCompletedObject fault objects policy actor u (db, ob) of (e, st) \<Rightarrow> (Inl e, st))
     else case os_Get objects (us_ObjectKey u) None ob of
       Inl _ \<Rightarrow> (Inl (ErrText ''verify completed upload''), db, ob)
     | Inr (reader, objectInfo) \<Rightarrow>
         if copy_fails u reader \<or> close_fails
         then (Inl (ErrText ''verify completed upload''), db, ob)
         else if \<not> verified_object sha256 u reader objectInfo
         then (case rejectCompletedObject fault objects policy actor u (db, ob) of (e, st) \<Rightarrow> (Inl e, st))
         else (case FinishCompletion (fault CallFinishCompletion (us_ID u)) ids dbnow u actor db of
             (Inl _, db1) \<Rightarrow> (Inl (ErrText ''persist completed upload''), db1, ob)
           | (Inr result, db1) \<Rightarrow> (Inr result, db1, ob)))"

definition Complete ::
  "faults \<Rightarrow> 'o objectstore \<Rightarrow> (string \<Rightarrow> string) \<Rightarrow> UploadPolicy \<Rightarrow> time \<Rightarrow> bool \<Rightarrow> completion_ids \<Rightarrow> time
     \<Rightarrow> Principal \<Rightarrow> uuid \<Rightarrow> files_db \<times> 'o \<Rightarrow> (files_error + CompletedUpload) \<times> (files_db \<times> 'o)" where
  "Complete fault objects sha256 policy now close_fails ids dbnow actor sid = (\<lambda>(db, ob).
     case authorize_session policy actor sid of Some e \<Rightarrow> (Inl e, db, ob) | None \<Rightarrow>
     case BeginCompletion (fault CallBeginCompletion sid) sid (u_ID (p_User actor)) (Purpose policy) now db of
       (Inl e, db1) \<Rightarrow> (Inl e, db1, ob)
     | (Inr (_, _, Some completed), db1) \<Rightarrow> (Inr completed, db1, ob)
     | (Inr (u, parts, None), db1) \<Rightarrow>
         (case validateCompletionParts u parts of
            Inl e \<Rightarrow> (Inl e, snd (ReopenCompletion (fault CallReopenCompletion (us_ID u)) (us_ID u) db1), ob)
          | Inr objectParts \<Rightarrow>
              (case complete_or_stat objects u objectParts ob of
                 (Inl _, ob1) \<Rightarrow>
                   (Inl (ErrText ''complete upload storage''),
                    snd (ReopenCompletion (fault CallReopenCompletion (us_ID u)) (us_ID u) db1), ob1)
               | (Inr info, ob1) \<Rightarrow>
                   verify_and_publish fault objects sha256 policy close_fails ids dbnow actor u info (db1, ob1))))"

definition Cancel ::
  "faults \<Rightarrow> 'o objectstore \<Rightarrow> UploadPolicy \<Rightarrow> Principal \<Rightarrow> uuid \<Rightarrow> files_db \<times> 'o
     \<Rightarrow> files_error option \<times> (files_db \<times> 'o)" where
  "Cancel fault objects policy actor sid = (\<lambda>(db, ob).
     case authorize_session policy actor sid of Some e \<Rightarrow> (Some e, db, ob) | None \<Rightarrow>
     case CancelSession (fault CallCancelSession sid) sid (u_ID (p_User actor)) (Purpose policy) UploadCancelled db of
       (Inl e, db1) \<Rightarrow> (Some e, db1, ob)
     | (Inr u, db1) \<Rightarrow>
         (case os_AbortMultipart objects (us_ObjectKey u) (us_MinIOUploadID u) ob of
            (e, ob1) \<Rightarrow>
              if e \<noteq> None \<and> e \<noteq> Some ObjNotFound then (Some (ErrText ''cancel upload storage''), db1, ob1)
              else (None, db1, ob1)))"

section \<open>CleanupExpired\<close>

definition cleanup_one ::
  "faults \<Rightarrow> 'o objectstore \<Rightarrow> uuid \<Rightarrow> files_db \<times> 'o \<Rightarrow> bool \<times> (files_db \<times> 'o)" where
  "cleanup_one fault objects sid = (\<lambda>(db, ob).
     case ConfirmCleanup (fault CallConfirmCleanup sid) sid db of
       (Inl _, db1) \<Rightarrow> (True, db1, ob)
     | (Inr confirmed, db1) \<Rightarrow>
         (case os_AbortMultipart objects (us_ObjectKey confirmed) (us_MinIOUploadID confirmed) ob of
            (ae, ob1) \<Rightarrow>
              if ae \<noteq> None \<and> ae \<noteq> Some ObjNotFound then (True, db1, ob1)
              else (case os_Delete objects (us_ObjectKey confirmed) ob1 of
                 (de, ob2) \<Rightarrow>
                   if de \<noteq> None \<and> de \<noteq> Some ObjNotFound then (True, db1, ob2)
                   else (case FinishCleanup (fault CallFinishCleanup (us_ID confirmed)) (us_ID confirmed) db1 of
                      (Inl _, db2) \<Rightarrow> (True, db2, ob2)
                    | (Inr _, db2) \<Rightarrow> (False, db2, ob2)))))"

fun cleanup_loop ::
  "faults \<Rightarrow> 'o objectstore \<Rightarrow> bool \<Rightarrow> UploadSession list \<Rightarrow> files_db \<times> 'o \<Rightarrow> bool \<times> (files_db \<times> 'o)" where
  "cleanup_loop fault objects failed [] st = (failed, st)"
| "cleanup_loop fault objects failed (u # rest) st =
     (case cleanup_one fault objects (us_ID u) st of
        (candidateFailed, st') \<Rightarrow> cleanup_loop fault objects (failed \<or> candidateFailed) rest st')"

definition CleanupExpired ::
  "faults \<Rightarrow> 'o objectstore \<Rightarrow> bool \<Rightarrow> admission \<Rightarrow> (uuid \<Rightarrow> bool) \<Rightarrow> time \<Rightarrow> int \<Rightarrow> files_db \<times> 'o
     \<Rightarrow> files_error option \<times> (files_db \<times> 'o)" where
  "CleanupExpired fault objects admitted adm busy now limit = (\<lambda>(db, ob).
     if limit < 1 \<or> limit > 1000 then (Some ErrInvalid, db, ob)
     else case ClaimCleanup (fault CallClaimCleanup uuid_Nil) admitted adm busy (now - cleanupGrace) (nat limit) db of
       Inl _ \<Rightarrow> (Some (ErrText ''claim expired uploads''), db, ob)
     | Inr sessions \<Rightarrow>
         (case cleanup_loop fault objects False sessions (db, ob) of
            (failed, st) \<Rightarrow> (if failed then Some (ErrText ''cleanup expired uploads'') else None, st)))"

section \<open>What the methods guarantee\<close>

lemma BeginCompletion_InrD:
  assumes "BeginCompletion fault sid actor purpose now db = (Inr (u, parts, None), db1)"
  shows "us_State u = UploadCompleting \<and> us_ID u = sid \<and> us_ActorUserID u = actor \<and> us_Purpose u = purpose \<and>
    parts = listParts sid db \<and> (db1 = db \<or> db1 = set_session_state sid UploadCompleting db) \<and>
    (\<exists>w. session_by_id sid db = Some w)"
proof -
  obtain w where w: "session_of sid actor purpose db = Some w"
    using assms by (auto simp: BeginCompletion_def transact_def split: if_splits option.splits)
  have "\<exists>v. session_by_id sid db = Some v"
    using session_of_SomeD [OF w] find_NoneD [of _ "upload_sessions db" w] unfolding session_by_id_def
    by (cases "find (\<lambda>u. us_ID u = sid) (upload_sessions db)") auto
  then show ?thesis
    using assms w session_of_SomeD [OF w]
    by (auto simp: BeginCompletion_def transact_def Let_def listParts_def split: if_splits option.splits)
qed

lemma session_of_by_id:
  "upload_inv db \<Longrightarrow> session_of sid actor purpose db = Some w \<Longrightarrow> session_by_id sid db = Some w"
  using session_of_SomeD [of sid actor purpose db w] session_by_id_eq [of db w] by (auto simp: upload_inv_def)

lemma BeginCompletion_session:
  assumes "upload_inv db" and "BeginCompletion fault sid actor purpose now db = (Inr (u, parts, None), db1)"
  shows "session_by_id sid db1 = Some u"
proof -
  obtain w where w: "session_of sid actor purpose db = Some w"
    using assms by (auto simp: BeginCompletion_def transact_def split: if_splits option.splits)
  with session_of_by_id [OF assms(1)] have "session_by_id sid db = Some w" .
  then show ?thesis
    using assms(2) w session_of_SomeD [OF w]
    by (auto simp: BeginCompletion_def transact_def Let_def session_by_id_set_state split: if_splits option.splits)
qed

lemma FinishCompletion_publishes:
  assumes "FinishCompletion fault ids dbnow u pr db = (Inr c, db')"
    and "session_by_id (us_ID u) db = Some u" "us_State u = UploadCompleting"
  shows "completed_version u ids dbnow \<in> set (file_versions db') \<and>
    c = \<lparr>cu_FileID = ci_file ids, cu_FileVersionID = ci_version ids, cu_ProcessingState = Pending_scan\<rparr>"
  using assms by (auto simp: FinishCompletion_def transact_def split: if_splits)

lemma CancelSession_versions [simp]:
  "file_versions (snd (CancelSession fault sid actor purpose st db)) = file_versions db"
  by (auto simp: CancelSession_def transact_def split: option.splits if_splits)

lemma BeginCompletion_versions [simp]:
  "file_versions (snd (BeginCompletion fault sid actor purpose now db)) = file_versions db"
  by (auto simp: BeginCompletion_def transact_def Let_def split: option.splits if_splits)

lemma rejectCompletedObject_versions:
  "rejectCompletedObject fault objects policy actor u (db, ob) = (e, db', ob') \<Longrightarrow>
     file_versions db' = file_versions db"
  using CancelSession_versions [of "fault CallCancelSession (us_ID u)" "us_ID u" "u_ID (p_User actor)"
      "Purpose policy" UploadCancelled db]
  by (auto simp: rejectCompletedObject_def simp del: CancelSession_versions split: prod.splits sum.splits if_splits)

lemma FinishCompletion_Inl: "FinishCompletion fault ids dbnow u pr db = (Inl e, db') \<Longrightarrow> db' = db"
  unfolding FinishCompletion_def by (rule transact_Inl)

text \<open>The one way to publish, as elimination rules.\<close>

lemma verify_and_publish_cases:
  assumes "verify_and_publish fault objects sha256 policy close_fails ids dbnow actor u info (db, ob) = (res, db', ob')"
  obtains (refused) e where "res = Inl e" "file_versions db' = file_versions db"
  | (published) reader objectInfo c where
      "os_Get objects (us_ObjectKey u) None ob = Inr (reader, objectInfo)" "\<not> copy_fails u reader"
      "verified_object sha256 u reader objectInfo" "res = Inr c" "ob' = ob"
      "FinishCompletion (fault CallFinishCompletion (us_ID u)) ids dbnow u actor db = (Inr c, db')"
proof (cases "\<exists>reader objectInfo. oinf_Size info = us_ExpectedSize u \<and>
    os_Get objects (us_ObjectKey u) None ob = Inr (reader, objectInfo) \<and>
    \<not> copy_fails u reader \<and> \<not> close_fails \<and> verified_object sha256 u reader objectInfo")
  case True
  then obtain reader objectInfo where ok: "oinf_Size info = us_ExpectedSize u" "\<not> close_fails"
    "os_Get objects (us_ObjectKey u) None ob = Inr (reader, objectInfo)"
    "\<not> copy_fails u reader" "verified_object sha256 u reader objectInfo" by blast
  obtain z db2 where z: "FinishCompletion (fault CallFinishCompletion (us_ID u)) ids dbnow u actor db = (z, db2)"
    by force
  show ?thesis
  proof (cases z)
    case (Inl e)
    with FinishCompletion_Inl z have "db2 = db" by metis
    with assms ok z Inl show ?thesis by (intro refused) (auto simp: verify_and_publish_def)
  next
    case (Inr c)
    with assms ok(1,2) z show ?thesis
      by (intro published [OF ok(3-5)]) (auto simp: verify_and_publish_def ok)
  qed
next
  case False
  let ?reject = "rejectCompletedObject fault objects policy actor u (db, ob)"
  have "(\<exists>e. (res, db', ob') = (Inl e, db, ob)) \<or> (\<exists>e st. ?reject = (e, st) \<and> (res, db', ob') = (Inl e, st))"
  proof (cases "os_Get objects (us_ObjectKey u) None ob")
    case Inl
    with assms show ?thesis by (cases ?reject) (auto simp: verify_and_publish_def split: if_splits)
  next
    case (Inr x)
    with assms False show ?thesis
      by (cases x; cases ?reject) (auto simp: verify_and_publish_def split: if_splits)
  qed
  then show ?thesis by (auto intro: refused dest: rejectCompletedObject_versions)
qed

lemma Complete_cases:
  assumes "Complete fault objects sha256 policy now close_fails ids dbnow actor sid (db, ob) = (res, db', ob')"
  obtains (refused) e where "res = Inl e" "file_versions db' = file_versions db"
  | (replayed) u parts c where "res = Inr c"
      "BeginCompletion (fault CallBeginCompletion sid) sid (u_ID (p_User actor)) (Purpose policy) now db =
         (Inr (u, parts, Some c), db')"
  | (assembled) u parts objectParts info ob1 db1 where
      "BeginCompletion (fault CallBeginCompletion sid) sid (u_ID (p_User actor)) (Purpose policy) now db =
         (Inr (u, parts, None), db1)"
      "validateCompletionParts u parts = Inr objectParts"
      "complete_or_stat objects u objectParts ob = (Inr info, ob1)"
      "verify_and_publish fault objects sha256 policy close_fails ids dbnow actor u info (db1, ob1) = (res, db', ob')"
proof (cases "authorize_session policy actor sid")
  case (Some e)
  with assms show ?thesis by (intro refused) (auto simp: Complete_def)
next
  case None
  let ?began = "BeginCompletion (fault CallBeginCompletion sid) sid (u_ID (p_User actor)) (Purpose policy) now db"
  obtain r db1 where b: "?began = (r, db1)" by force
  have vers: "file_versions db1 = file_versions db"
    using arg_cong [OF b, of "\<lambda>x. file_versions (snd x)"] by simp
  show ?thesis
    using assms None b vers unfolding Complete_def prod.case
    by (auto split: sum.splits prod.splits option.splits simp: ReopenCompletion_db
        intro: refused replayed [unfolded b] assembled [unfolded b])
qed


text \<open>C1: \<open>Complete\<close> publishes only verified bytes. A call that succeeds on a session that
  was not completed before has read the stored object to its end, found exactly the
  declared number of bytes with the declared digest, and published a version that
  carries that object, size and digest, still waiting for its scan. A call that fails
  publishes nothing.\<close>

theorem complete_publishes_verified:
  assumes inv: "upload_inv db"
    and run: "Complete fault objects sha256 policy now close_fails ids dbnow actor sid (db, ob) = (res, db', ob')"
  shows "case res of
      Inl e \<Rightarrow> file_versions db' = file_versions db
    | Inr c \<Rightarrow> (\<exists>u. session_by_id sid db = Some u \<and> us_State u = UploadCompleted \<and> db' = db) \<or>
        (\<exists>fv \<in> set (file_versions db'). \<exists>b info. fv_id fv = cu_FileVersionID c \<and> fv_file_id fv = cu_FileID c \<and>
           fv_processing_state fv = Pending_scan \<and> fv_created_by fv = u_ID (p_User actor) \<and>
           os_Get objects (fv_object_key fv) None ob' = Inr (b, info) \<and> \<not> b_fails b \<and>
           int (length (b_bytes b)) = fv_size_bytes fv \<and> EncodeToString (sha256 (b_bytes b)) = fv_sha256 fv)"
  using run
proof (cases rule: Complete_cases)
  case (refused e)
  then show ?thesis by simp
next
  case (replayed u parts c)
  then have "session_of sid (u_ID (p_User actor)) (Purpose policy) db = Some u" "us_State u = UploadCompleted" "db' = db"
    by (auto simp: BeginCompletion_def transact_def Let_def split: option.splits if_splits)
  with session_of_by_id [OF inv] replayed(1) show ?thesis by auto
next
  case (assembled u parts objectParts info ob1 db1)
  note begun = BeginCompletion_InrD [OF assembled(1)] BeginCompletion_session [OF inv assembled(1)]
  from assembled(4) show ?thesis
  proof (cases rule: verify_and_publish_cases)
    case (refused e)
    moreover have "file_versions db1 = file_versions db"
      using arg_cong [OF assembled(1), of "\<lambda>x. file_versions (snd x)"] by simp
    ultimately show ?thesis by simp
  next
    case (published reader objectInfo c)
    have pub: "completed_version u ids dbnow \<in> set (file_versions db')"
        "c = \<lparr>cu_FileID = ci_file ids, cu_FileVersionID = ci_version ids, cu_ProcessingState = Pending_scan\<rparr>"
      using FinishCompletion_publishes [OF published(6)] begun by auto
    have len: "int (length (b_bytes reader)) = us_ExpectedSize u"
      "take (nat (us_ExpectedSize u + 1)) (b_bytes reader) = b_bytes reader"
      using published(3) by (auto simp: verified_object_def Let_def min_def split: if_splits)
    then have "\<not> b_fails reader" "EncodeToString (sha256 (b_bytes reader)) = us_ExpectedSHA256 u"
      using published(2,3) by (auto simp: copy_fails_def verified_object_def)
    with pub len published begun(1) show ?thesis
      by (auto simp: completed_version_def intro!: bexI [of _ "completed_version u ids dbnow"])
  qed
qed


text \<open>C5: A completion attempt with missing or wrong parts strands the upload. \<open>Complete\<close>
  reports the incomplete upload and asks \<open>ReopenCompletion\<close> to go back to open, but that
  statement never runs, so the session stays \<open>completing\<close> and from then on every
  \<open>PutPart\<close> of the session fails without storing anything: the missing part can no
  longer be sent.\<close>

theorem incomplete_completion_strands:
  assumes inv: "upload_inv db" and auth: "authorize_session policy actor sid = None"
    and u: "session_of sid (u_ID (p_User actor)) (Purpose policy) db = Some u"
    and st: "us_State u = UploadOpen \<or> us_State u = UploadCompleting" and "now \<le> us_ExpiresAt u"
    and "\<not> fault CallBeginCompletion sid"
    and bad: "validateCompletionParts (u\<lparr>us_State := UploadCompleting\<rparr>) (listParts sid db) = Inl e"
  shows "\<exists>db'. Complete fault objects sha256 policy now close_fails ids dbnow actor sid (db, ob) = (Inl e, db', ob) \<and>
    session_by_id sid db' = Some (u\<lparr>us_State := UploadCompleting\<rparr>) \<and>
    (\<forall>fault busy nowAdmit nowRecord actor' policy' inp ob'. pp_SessionID inp = sid \<longrightarrow>
       (\<exists>e. PutPart fault objects sha256 policy' busy nowAdmit nowRecord actor' inp (db', ob') = (Inl e, db', ob')))"
proof -
  let ?u = "u\<lparr>us_State := UploadCompleting\<rparr>"
  have same: "us_State u = UploadCompleting \<Longrightarrow> ?u = u" by simp
  define db' where "db' = (if us_State u = UploadOpen then set_session_state sid UploadCompleting db else db)"
  have parts: "listParts sid (set_session_state sid UploadCompleting db) = listParts sid db"
    by (simp add: listParts_def)
  have b: "BeginCompletion (fault CallBeginCompletion sid) sid (u_ID (p_User actor)) (Purpose policy) now db =
      (Inr (?u, listParts sid db, None), db')"
    using assms(5,6) u st same parts by (auto simp: BeginCompletion_def transact_def Let_def db'_def)
  have ob: "Complete fault objects sha256 policy now close_fails ids dbnow actor sid (db, ob) = (Inl e, db', ob)"
    by (simp add: Complete_def auth b bad ReopenCompletion_db)
  have now: "session_by_id sid db' = Some ?u" using BeginCompletion_session [OF inv b] .
  have inv': "upload_inv db'" using BeginCompletion_inv [OF inv] b by (metis snd_conv)
  have admit: "\<exists>e. AdmitPart f sid a p n sz h t db' = (Inl e, db')" for f a p n sz h t
    using session_of_by_id [OF inv', of sid a p] now
    by (cases "session_of sid a p db'") (auto simp: AdmitPart_def transact_def)
  have "\<exists>e. PutPart fault objects sha256 policy' busy nowAdmit nowRecord actor' inp (db', ob') = (Inl e, db', ob')"
    if "pp_SessionID inp = sid" for fault busy nowAdmit nowRecord actor' policy' inp ob'
    using admit [of "fault CallAdmitPart sid" "u_ID (p_User actor')" "Purpose policy'" "pp_Number inp" "pp_Size inp"
        "pp_SHA256 inp" nowAdmit] that
    by (auto simp: PutPart_def split: option.splits)
  with ob now show ?thesis by blast
qed

lemma AdmitPart_InrD:
  assumes "AdmitPart fault sid actor purpose n sz h now db = (Inr (u, m), db')"
  shows "db' = db \<and> session_of sid actor purpose db = Some u \<and> us_State u = UploadOpen \<and> now \<le> us_ExpiresAt u \<and>
    us_ID u = sid \<and> part_of sid n db = m \<and> (\<forall>part. m = Some part \<longrightarrow> up_Size part = sz \<and> up_SHA256 part = h)"
  using assms session_of_SomeD [of sid actor purpose db u]
  by (auto simp: AdmitPart_def transact_def split: option.splits if_splits)

lemma RecordPart_InrD:
  assumes "RecordPart fault sid p db = (Inr stored, db')"
  shows "part_of sid (up_Number p) db' = Some stored \<and> up_Size stored = up_Size p \<and> up_SHA256 stored = up_SHA256 p"
  using assms by (auto simp: RecordPart_def transact_def Let_def split: option.splits if_splits)

lemma part_of_SomeD: "part_of sid n db = Some part \<Longrightarrow> up_SessionID part = sid \<and> up_Number part = n"
  by (auto simp: part_of_def dest: find_SomeD)

lemma PutPart_cases:
  assumes "PutPart fault objects sha256 policy busy nowAdmit nowRecord actor inp (db, ob) = (Inr view, db', ob')"
  obtains (existing) u part where "view = partView part"
      "AdmitPart (fault CallAdmitPart (pp_SessionID inp)) (pp_SessionID inp) (u_ID (p_User actor)) (Purpose policy)
         (pp_Number inp) (pp_Size inp) (pp_SHA256 inp) nowAdmit db = (Inr (u, Some part), db')"
  | (stored) u b n part p where "pp_Body inp = Some b" "view = partView part"
      "AdmitPart (fault CallAdmitPart (pp_SessionID inp)) (pp_SessionID inp) (u_ID (p_User actor)) (Purpose policy)
         (pp_Number inp) (pp_Size inp) (pp_SHA256 inp) nowAdmit db = (Inr (u, None), db)"
      "expectedPartSize (us_ExpectedSize u) (pp_Number inp) = Some (pp_Size inp)"
      "int (length (consumed n (pp_Size inp) b)) = pp_Size inp" "extra_read_ok (consumed n (pp_Size inp) b) b"
      "EncodeToString (sha256 (consumed n (pp_Size inp) b)) = pp_SHA256 inp"
      "RecordPart (fault CallRecordPart (us_ID u)) (us_ID u) p db = (Inr part, db')"
      "up_Number p = pp_Number inp" "up_Size p = pp_Size inp" "up_SHA256 p = pp_SHA256 inp"
proof -
  let ?admit = "AdmitPart (fault CallAdmitPart (pp_SessionID inp)) (pp_SessionID inp) (u_ID (p_User actor)) (Purpose policy)
         (pp_Number inp) (pp_Size inp) (pp_SHA256 inp) nowAdmit db"
  obtain b where b: "pp_Body inp = Some b"
    using assms by (auto simp: PutPart_def split: option.splits)
  obtain r where a: "?admit = (r, db)"
    using AdmitPart_db by (metis prod.collapse)
  obtain u m where r: "r = Inr (u, m)"
    using assms a by (cases r) (auto simp: PutPart_def split: option.splits if_splits)
  note run = assms [unfolded PutPart_def prod.case b option.case a r sum.case]
  show ?thesis
  proof (cases m)
    case (Some part)
    with run show ?thesis
      by (intro existing [of part u]) (auto simp: a r split: option.splits if_splits)
  next
    case None
    obtain q n ob1 where q: "os_PutPart objects (us_ObjectKey u) (us_MinIOUploadID u) (pp_Number inp) b (pp_Size inp)
                     (pp_SHA256 inp) ob = (q, n, ob1)" by (metis prod.collapse)
    from run None show ?thesis
      by (auto simp: q a r Let_def split: option.splits if_splits sum.splits prod.splits
          intro!: stored [OF b _ a [unfolded r None]])
  qed
qed

text \<open>C6: A part the service accepts is the part the client described: the recorded row has
  the client's number, size and digest; when the row was not there before, the object
  store was given exactly the declared bytes, they hash to the declared digest, the body
  ended there, and the size is the one the session's total prescribes for that number.\<close>

theorem put_part_records:
  assumes "PutPart fault objects sha256 policy busy nowAdmit nowRecord actor inp (db, ob) = (Inr view, db', ob')"
  shows "view = \<lparr>pv_Number = pp_Number inp, pv_Size = pp_Size inp, pv_SHA256 = pp_SHA256 inp\<rparr> \<and>
    (\<exists>part. part_of (pp_SessionID inp) (pp_Number inp) db' = Some part \<and> up_Size part = pp_Size inp \<and>
       up_SHA256 part = pp_SHA256 inp) \<and>
    (part_of (pp_SessionID inp) (pp_Number inp) db = None \<longrightarrow>
       (\<exists>u b. session_of (pp_SessionID inp) (u_ID (p_User actor)) (Purpose policy) db = Some u \<and>
          us_State u = UploadOpen \<and> nowAdmit \<le> us_ExpiresAt u \<and> pp_Body inp = Some b \<and> \<not> b_fails b \<and>
          int (length (b_bytes b)) = pp_Size inp \<and> EncodeToString (sha256 (b_bytes b)) = pp_SHA256 inp \<and>
          expectedPartSize (us_ExpectedSize u) (pp_Number inp) = Some (pp_Size inp)))"
  using assms
proof (cases rule: PutPart_cases)
  case (existing u part)
  note admit = AdmitPart_InrD [OF existing(2)]
  then have "up_Number part = pp_Number inp" by (auto dest: part_of_SomeD)
  with admit existing(1) show ?thesis by (auto simp: partView_def)
next
  case (stored u b n part p)
  note admit = AdmitPart_InrD [OF stored(3)] and recd = RecordPart_InrD [OF stored(8)]
  have whole: "consumed n (pp_Size inp) b = b_bytes b"
    using stored(6) by (auto simp: extra_read_ok_def consumed_def)
  then have "\<not> b_fails b" using stored(6) by (simp add: extra_read_ok_def)
  moreover have "up_Number part = pp_Number inp" using recd stored(9) by (auto dest: part_of_SomeD)
  ultimately show ?thesis
    using admit recd stored whole by (auto simp: partView_def)
qed
section \<open>Cleanup\<close>

definition remove_sessions :: "uuid set \<Rightarrow> files_db \<Rightarrow> files_db" where
  "remove_sessions ids db = db\<lparr>upload_parts := delete_where (\<lambda>p. up_SessionID p \<in> ids) (upload_parts db),
     upload_sessions := delete_where (\<lambda>u. us_ID u \<in> ids) (upload_sessions db)\<rparr>"

definition tolerant :: "object_error option \<Rightarrow> bool" where
  "tolerant e \<longleftrightarrow> e = None \<or> e = Some ObjNotFound"

definition objects_deletable :: "'o objectstore \<Rightarrow> bool" where
  "objects_deletable objects \<longleftrightarrow>
     (\<forall>key mp ob. tolerant (fst (os_AbortMultipart objects key mp ob)) \<and> tolerant (fst (os_Delete objects key ob)))"

lemma delete_update_where:
  "(\<And>r. q (f r) = q r) \<Longrightarrow> (\<And>r. p r \<Longrightarrow> q r) \<Longrightarrow> delete_where q (update_where p f rows) = delete_where q rows"
  by (induction rows) (auto simp: delete_where_def)

lemma remove_remove: "remove_sessions A (remove_sessions B db) = remove_sessions (A \<union> B) db"
  by (simp add: remove_sessions_def delete_where_def conj_commute)

lemma remove_set_session_state: "remove_sessions {sid} (set_session_state sid st db) = remove_sessions {sid} db"
  by (simp add: remove_sessions_def set_session_state_def delete_update_where)

lemma FinishCleanup_removes:
  assumes "session_by_id sid db = Some u" "\<not> referenced (us_ObjectKey u) db"
    and "us_State u = UploadExpired \<or> us_State u = UploadCancelled"
  shows "FinishCleanup False sid db = (Inr (), remove_sessions {sid} db)"
  using assms by (auto simp: FinishCleanup_def transact_def remove_sessions_def)

lemma cleanup_one_removes:
  assumes inv: "upload_inv db" and u: "u \<in> set (upload_sessions db)" "us_State u \<noteq> UploadCompleted"
    and "\<forall>c i. \<not> fault c i" and ok: "objects_deletable objects"
  shows "\<exists>ob'. cleanup_one fault objects (us_ID u) (db, ob) = (False, remove_sessions {us_ID u} db, ob')"
proof -
  have id: "session_by_id (us_ID u) db = Some u" using inv u(1) by (simp add: upload_inv_def session_by_id_eq)
  have ref: "\<not> referenced (us_ObjectKey u) db" using referenced_completed [OF inv u(1)] u(2) by simp
  obtain w db1 where c: "ConfirmCleanup False (us_ID u) db = (Inr w, db1)"
    and w: "session_by_id (us_ID u) db1 = Some w" "us_ObjectKey w = us_ObjectKey u" "us_ID w = us_ID u"
      "us_State w = UploadExpired \<or> us_State w = UploadCancelled"
      "remove_sessions {us_ID u} db1 = remove_sessions {us_ID u} db" "\<not> referenced (us_ObjectKey u) db1"
  proof (cases "us_State u = UploadOpen \<or> us_State u = UploadCompleting")
    case True
    then show ?thesis
      using id ref that [of "u\<lparr>us_State := UploadExpired\<rparr>" "set_session_state (us_ID u) UploadExpired db"]
      by (auto simp: ConfirmCleanup_def transact_def session_by_id_set_state remove_set_session_state)
  next
    case False
    then show ?thesis
      using id ref u(2) that [of u db] by (cases "us_State u") (auto simp: ConfirmCleanup_def transact_def)
  qed
  have "FinishCleanup False (us_ID w) db1 = (Inr (), remove_sessions {us_ID u} db)"
    using FinishCleanup_removes [of "us_ID u" db1 w] w by simp
  moreover obtain ae ob1 where "os_AbortMultipart objects (us_ObjectKey w) (us_MinIOUploadID w) ob = (ae, ob1)" "tolerant ae"
    using ok unfolding objects_deletable_def by (metis prod.collapse)
  moreover obtain de ob2 where "os_Delete objects (us_ObjectKey w) ob1 = (de, ob2)" "tolerant de"
    using ok unfolding objects_deletable_def by (metis prod.collapse)
  ultimately show ?thesis
    using assms(4) c by (auto simp: cleanup_one_def tolerant_def)
qed

lemma remove_sessions_inv:
  assumes "upload_inv db" "u \<in> set (upload_sessions db)" "us_State u \<noteq> UploadCompleted"
  shows "upload_inv (remove_sessions {us_ID u} db)"
proof -
  let ?ob = "\<lparr>os_CreateMultipart = \<lambda>_ _ _. (Inl ObjNotFound, ()), os_PutPart = \<lambda>_ _ _ _ _ _ _. (Inl ObjNotFound, 0, ()),
    os_CompleteMultipart = \<lambda>_ _ _ _. (Inl ObjNotFound, ()), os_AbortMultipart = \<lambda>_ _ _. (None, ()),
    os_Stat = \<lambda>_ _. Inl ObjNotFound, os_Get = \<lambda>_ _ _. Inl ObjNotFound, os_Delete = \<lambda>_ _. (None, ())\<rparr>"
  have "upload_inv (fst (snd (cleanup_one (\<lambda>_ _. False) ?ob (us_ID u) (db, ()))))"
    using assms(1) ConfirmCleanup_inv [OF assms(1), of False "us_ID u"] FinishCleanup_inv
    by (auto simp: cleanup_one_def split: prod.splits sum.splits) (metis snd_conv)+
  moreover have "objects_deletable ?ob" by (simp add: objects_deletable_def tolerant_def)
  ultimately show ?thesis
    using cleanup_one_removes [OF assms, of "\<lambda>_ _. False" ?ob "()"] by auto
qed

lemma cleanup_loop_removes:
  assumes "upload_inv db" and "distinct (map us_ID us)" and "set us \<subseteq> set (upload_sessions db)"
    and "\<And>u. u \<in> set us \<Longrightarrow> us_State u \<noteq> UploadCompleted"
    and "\<forall>c i. \<not> fault c i" and "objects_deletable objects"
  shows "\<exists>ob'. cleanup_loop fault objects failed us (db, ob) = (failed, remove_sessions (us_ID ` set us) db, ob')"
  using assms(1-4)
proof (induction us arbitrary: db ob)
  case Nil
  show ?case by (simp add: remove_sessions_def delete_where_def)
next
  case (Cons u us)
  then have u: "u \<in> set (upload_sessions db)" "us_State u \<noteq> UploadCompleted" by auto
  let ?db = "remove_sessions {us_ID u} db"
  obtain ob1 where one: "cleanup_one fault objects (us_ID u) (db, ob) = (False, ?db, ob1)"
    using cleanup_one_removes [OF Cons.prems(1) u assms(5,6)] by blast
  have "set us \<subseteq> set (upload_sessions ?db)"
    using Cons.prems(2,3) by (auto simp: remove_sessions_def table_simps image_iff)
  then have "\<exists>ob2. cleanup_loop fault objects failed us (?db, ob1) =
      (failed, remove_sessions (us_ID ` set us) ?db, ob2)"
    using Cons.prems(2,4) by (intro Cons.IH [OF remove_sessions_inv [OF Cons.prems(1) u]]) auto
  then show ?case by (auto simp: one remove_remove Un_commute)
qed


section \<open>Create\<close>

context upload_policy
begin

lemma create_result:
  assumes "Create fault objects P random now newID actor inp (db, ob) = (res, db', ob')"
  shows "case res of
      Inl e \<Rightarrow> db' = db
    | Inr view \<Rightarrow> \<exists>u. upload_sessions db' = upload_sessions db @ [u] \<and> view = uploadView u [] \<and>
        us_ActorUserID u = u_ID (p_User actor) \<and> us_Purpose u = Purpose P \<and> us_State u = UploadOpen \<and>
        us_ExpiresAt u = now + 24 * Hour \<and> validHash (us_ExpectedSHA256 u) \<and> validDisplayName (us_DisplayName u) \<and>
        1 \<le> wantCount (us_ExpectedSize u) \<and> wantCount (us_ExpectedSize u) \<le> 63"
  using assms validate_hash [of inp] validate_name [of inp] accepted_part_count [of inp]
  unfolding Create_def CreateSession_def transact_def
  by (auto simp: Let_def uploadTTL_def split: option.splits sum.splits prod.splits if_splits)

end

text \<open>\<open>Create\<close> is all or nothing, under each of the three policies. Either it adds exactly
  one open session of the caller, with the policy's purpose, a well-formed digest and
  name, a lifetime of 24 hours and a size that 1 to 63 parts cover, and answers with that
  session's view; or it reports an error and the tables are as before.\<close>

theorem create_all_or_nothing:
  assumes "policy \<in> {TeachingUploadPolicy, QAUploadPolicy, AIUploadPolicy}"
    and "Create fault objects policy random now newID actor inp (db, ob) = (res, db', ob')"
  shows "case res of
      Inl e \<Rightarrow> db' = db
    | Inr view \<Rightarrow> \<exists>u. upload_sessions db' = upload_sessions db @ [u] \<and> view = uploadView u [] \<and>
        us_ActorUserID u = u_ID (p_User actor) \<and> us_Purpose u = Purpose policy \<and> us_State u = UploadOpen \<and>
        us_ExpiresAt u = now + 24 * Hour \<and> validHash (us_ExpectedSHA256 u) \<and> validDisplayName (us_DisplayName u) \<and>
        1 \<le> wantCount (us_ExpectedSize u) \<and> wantCount (us_ExpectedSize u) \<le> 63"
proof -
  consider "TeachingUploadPolicy = policy" | "QAUploadPolicy = policy" | "AIUploadPolicy = policy"
    using assms(1) by blast
  then show ?thesis
  proof cases
    case 1
    show ?thesis using teaching.create_result [unfolded 1, OF assms(2)] .
  next
    case 2
    show ?thesis using qa.create_result [unfolded 2, OF assms(2)] .
  next
    case 3
    show ?thesis using ai.create_result [unfolded 3, OF assms(2)] .
  qed
qed


section \<open>Concrete runs\<close>

text \<open>An object store that holds one object's bytes, and a stand-in digest.\<close>

definition one_object :: "string objectstore" where
  "one_object = \<lparr>os_CreateMultipart = \<lambda>_ _ ob. (Inr ''mp-2'', ob),
     os_PutPart = \<lambda>_ _ n b sz _ _. (Inr \<lparr>pt_Number = n, pt_ETag = ''e'', pt_Size = sz\<rparr>, nat sz, b_bytes b),
     os_CompleteMultipart = \<lambda>_ _ _ ob. (Inr \<lparr>oinf_Size = int (length ob), oinf_ETag = ''e''\<rparr>, ob),
     os_AbortMultipart = \<lambda>_ _ ob. (Some ObjNotFound, ob),
     os_Stat = \<lambda>_ ob. Inr \<lparr>oinf_Size = int (length ob), oinf_ETag = ''e''\<rparr>,
     os_Get = \<lambda>_ _ ob. Inr (\<lparr>b_bytes = ob, b_fails = False\<rparr>, \<lparr>oinf_Size = int (length ob), oinf_ETag = ''e''\<rparr>),
     os_Delete = \<lambda>_ _. (None, [])\<rparr>"

definition pad_digest :: "string \<Rightarrow> string" where
  "pad_digest bs = take 32 (bs @ replicate 32 CHR 0xAA)"

definition small_session :: UploadSession where
  "small_session = sample_session\<lparr>us_ExpectedSize := 3, us_ExpectedSHA256 := EncodeToString (pad_digest ''abc''),
     us_Purpose := UploadPurposeAI\<rparr>"

definition small_part :: UploadPart where
  "small_part = \<lparr>up_SessionID = 7, up_Number = 1, up_Size = 3,
     up_SHA256 = EncodeToString (pad_digest ''abc''), up_ETag = ''e'', up_CreatedAt = 5\<rparr>"

definition small_db :: "UploadPart list \<Rightarrow> files_db" where
  "small_db parts = empty_files_db\<lparr>upload_sessions := [small_session], upload_parts := parts\<rparr>"

definition small_principal :: Principal where
  "small_principal = sample_principal\<lparr>p_IP := Some [CHR 0x0A]\<rparr>"

lemma hex_char_lower: "n < 16 \<Longrightarrow> lower_hex_digit (hex_char n)"
  by (auto simp: hex_char_def lower_hex_digit_def byte_def)

lemma byte_less: "byte c < 256"
  by (simp add: byte_def)

lemma validHash_EncodeToString: "length bs = 32 \<Longrightarrow> validHash (EncodeToString bs)"
proof -
  have "length (EncodeToString bs) = 2 * length bs"
    by (simp add: EncodeToString_def length_concat comp_def sum_list_triv)
  moreover have "list_all lower_hex_digit (EncodeToString bs)"
    by (auto simp: EncodeToString_def list_all_iff intro!: hex_char_lower) (use byte_less in \<open>simp add: div_less_iff_less_mult\<close>)
  moreover assume "length bs = 32"
  ultimately show ?thesis by (simp add: validHash_iff)
qed

lemma small_hash: "validHash (EncodeToString (pad_digest bs))"
  by (rule validHash_EncodeToString) (simp add: pad_digest_def)

lemma small_db_inv: "set parts \<subseteq> {small_part} \<Longrightarrow> distinct parts \<Longrightarrow> upload_inv (small_db parts)"
  by (auto simp: small_db_def upload_inv_def keys_inv_def parts_inv_def versions_inv_def empty_files_db_def
      keyed_def small_session_def small_part_def distinct_map inj_on_def)

lemma small_session_simps [simp]: "us_State small_session = UploadOpen" "us_ID small_session = 7"
  "us_ObjectKey small_session = ''originals/0a''" "us_Purpose small_session = UploadPurposeAI"
  "us_ActorUserID small_session = 3" "us_ExpectedSize small_session = 3" "us_ExpiresAt small_session = 100"
  "us_ExpectedSHA256 small_session = EncodeToString (pad_digest ''abc'')"
  by (simp_all add: small_session_def sample_session_def)

lemma small_tables [simp]: "upload_sessions (small_db parts) = [small_session]" "upload_parts (small_db parts) = parts"
  "file_versions (small_db parts) = []" "file_rows (small_db parts) = []" "file_processing_jobs (small_db parts) = []"
  "audit_logs (small_db parts) = []"
  by (simp_all add: small_db_def empty_files_db_def)

lemma small_user [simp]: "u_ID (p_User small_principal) = 3"
  by (simp add: small_principal_def sample_principal_def sample_user_def)

lemma small_authorized: "authorize_session AIUploadPolicy small_principal 7 = None"
  by (simp add: authorize_session_def validatePrincipal_def AIUploadPolicy_def small_principal_def sample_principal_def
      sample_user_def go_eval)

lemma small_incomplete:
  "validateCompletionParts (small_session\<lparr>us_State := UploadCompleting\<rparr>) [] = Inl ErrUploadIncomplete"
  by (simp add: validateCompletionParts_def wantCount_def UploadPartSize_def int64_def go_div_def)

lemma small_found: "session_of 7 3 (Purpose AIUploadPolicy) (small_db parts) = Some small_session"
  by (simp add: session_of_def AIUploadPolicy_def)

theorem incomplete_completion_strands_witness:
  "\<exists>db'. Complete (\<lambda>_ _. False) one_object pad_digest AIUploadPolicy 50 False sample_ids 60 small_principal 7
      (small_db [], ''abc'') = (Inl ErrUploadIncomplete, db', ''abc'') \<and>
    (\<exists>e. PutPart (\<lambda>_ _. False) one_object pad_digest AIUploadPolicy False 55 56 small_principal
       \<lparr>pp_SessionID = 7, pp_Number = 1, pp_Size = 3, pp_SHA256 = EncodeToString (pad_digest ''abc''),
        pp_Body = Some \<lparr>b_bytes = ''abc'', b_fails = False\<rparr>\<rparr> (db', ''abc'') = (Inl e, db', ''abc''))"
proof -
  let ?inp = "\<lparr>pp_SessionID = 7, pp_Number = 1, pp_Size = 3, pp_SHA256 = EncodeToString (pad_digest ''abc''),
    pp_Body = Some \<lparr>b_bytes = ''abc'', b_fails = False\<rparr>\<rparr>"
  have "\<exists>db'. Complete (\<lambda>_ _. False) one_object pad_digest AIUploadPolicy 50 False sample_ids 60 small_principal 7
      (small_db [], ''abc'') = (Inl ErrUploadIncomplete, db', ''abc'') \<and>
    session_by_id 7 db' = Some (small_session\<lparr>us_State := UploadCompleting\<rparr>) \<and>
    (\<forall>fault busy nowAdmit nowRecord actor' policy' inp ob'. pp_SessionID inp = 7 \<longrightarrow>
       (\<exists>e. PutPart fault one_object pad_digest policy' busy nowAdmit nowRecord actor' inp (db', ob') = (Inl e, db', ob')))"
    by (rule incomplete_completion_strands [OF small_db_inv small_authorized])
      (simp_all add: small_found small_incomplete listParts_def)
  then obtain db' where c: "Complete (\<lambda>_ _. False) one_object pad_digest AIUploadPolicy 50 False sample_ids 60 small_principal 7
      (small_db [], ''abc'') = (Inl ErrUploadIncomplete, db', ''abc'')"
    and p: "pp_SessionID ?inp = 7 \<longrightarrow> (\<exists>e. PutPart (\<lambda>_ _. False) one_object pad_digest AIUploadPolicy False 55 56
      small_principal ?inp (db', ''abc'') = (Inl e, db', ''abc''))"
    by blast
  from p have "\<exists>e. PutPart (\<lambda>_ _. False) one_object pad_digest AIUploadPolicy False 55 56
      small_principal ?inp (db', ''abc'') = (Inl e, db', ''abc'')" by simp
  with c show ?thesis by blast
qed

lemma small_complete: "validateCompletionParts (small_session\<lparr>us_State := UploadCompleting\<rparr>) [small_part] =
    Inr [\<lparr>pt_Number = 1, pt_ETag = ''e'', pt_Size = 3\<rparr>]"
  by (simp add: validateCompletionParts_def wantCount_def UploadPartSize_def int64_def go_div_def expectedPartSize_def
      small_part_def small_hash)

lemma small_begin: "BeginCompletion False 7 3 (Purpose AIUploadPolicy) 50 (small_db [small_part]) =
    (Inr (small_session\<lparr>us_State := UploadCompleting\<rparr>, [small_part], None),
     set_session_state 7 UploadCompleting (small_db [small_part]))"
  by (simp add: BeginCompletion_def transact_def small_found Let_def) (simp add: listParts_def small_part_def)

lemma small_finish: "\<exists>db'. FinishCompletion False sample_ids 60 (small_session\<lparr>us_State := UploadCompleting\<rparr>) small_principal
      (set_session_state 7 UploadCompleting (small_db [small_part])) =
    (Inr \<lparr>cu_FileID = 11, cu_FileVersionID = 12, cu_ProcessingState = Pending_scan\<rparr>, db')"
  by (simp add: FinishCompletion_def transact_def session_by_id_set_state)
    (simp add: session_by_id_def sample_ids_def set_session_state_def)

lemma small_run: "\<exists>db'. Complete (\<lambda>_ _. False) one_object pad_digest AIUploadPolicy 50 False sample_ids 60 small_principal 7
      (small_db [small_part], ''abc'') =
    (Inr \<lparr>cu_FileID = 11, cu_FileVersionID = 12, cu_ProcessingState = Pending_scan\<rparr>, db', ''abc'')"
proof -
  obtain db' where "FinishCompletion False sample_ids 60 (small_session\<lparr>us_State := UploadCompleting\<rparr>) small_principal
      (set_session_state 7 UploadCompleting (small_db [small_part])) =
    (Inr \<lparr>cu_FileID = 11, cu_FileVersionID = 12, cu_ProcessingState = Pending_scan\<rparr>, db')"
    using small_finish by blast
  then show ?thesis
    by (simp add: Complete_def small_authorized small_begin small_complete verify_and_publish_def complete_or_stat_def
        one_object_def copy_fails_def verified_object_def)
qed

theorem complete_publishes_verified_witness:
  "\<exists>db'. Complete (\<lambda>_ _. False) one_object pad_digest AIUploadPolicy 50 False sample_ids 60 small_principal 7
      (small_db [small_part], ''abc'') =
    (Inr \<lparr>cu_FileID = 11, cu_FileVersionID = 12, cu_ProcessingState = Pending_scan\<rparr>, db', ''abc'') \<and>
    (\<exists>fv \<in> set (file_versions db'). fv_id fv = 12 \<and> fv_size_bytes fv = 3)"
proof -
  obtain db' where run: "Complete (\<lambda>_ _. False) one_object pad_digest AIUploadPolicy 50 False sample_ids 60 small_principal 7
      (small_db [small_part], ''abc'') =
    (Inr \<lparr>cu_FileID = 11, cu_FileVersionID = 12, cu_ProcessingState = Pending_scan\<rparr>, db', ''abc'')"
    using small_run by blast
  have "session_by_id 7 (small_db [small_part]) = Some small_session" by (simp add: session_by_id_def)
  with complete_publishes_verified [OF small_db_inv run] run show ?thesis
    by (auto simp: one_object_def)
qed

theorem put_part_records_witness:
  "\<exists>view db' ob'. PutPart (\<lambda>_ _. False) one_object pad_digest AIUploadPolicy False 50 51 small_principal
       \<lparr>pp_SessionID = 7, pp_Number = 1, pp_Size = 3, pp_SHA256 = EncodeToString (pad_digest ''abc''),
        pp_Body = Some \<lparr>b_bytes = ''abc'', b_fails = False\<rparr>\<rparr> (small_db [], []) = (Inr view, db', ob') \<and>
     (\<exists>part. part_of 7 1 db' = Some part \<and> up_Size part = 3)"
proof -
  let ?inp = "\<lparr>pp_SessionID = 7, pp_Number = 1, pp_Size = 3, pp_SHA256 = EncodeToString (pad_digest ''abc''),
    pp_Body = Some \<lparr>b_bytes = ''abc'', b_fails = False\<rparr>\<rparr>"
  have auth: "validatePrincipal small_principal = None" "Authorize AIUploadPolicy (p_User small_principal) = None"
    using small_authorized by (auto simp: authorize_session_def split: option.splits)
  obtain view db' ob' where run: "PutPart (\<lambda>_ _. False) one_object pad_digest AIUploadPolicy False 50 51 small_principal
      ?inp (small_db [], []) = (Inr view, db', ob')"
    by (simp add: PutPart_def auth small_hash AdmitPart_def transact_def small_found part_of_def expectedPartSize_def
        int64_def UploadPartSize_def one_object_def consumed_def extra_read_ok_def RecordPart_def session_by_id_def Let_def)
  with put_part_records [OF run] show ?thesis by auto
qed


theorem create_all_or_nothing_witness:
  "\<exists>view db' ob'. Create (\<lambda>_ _. False) one_object AIUploadPolicy (Some ''xyz'') 5 9 small_principal sample_pdf
      (empty_files_db, []) = (Inr view, db', ob') \<and> length (upload_sessions db') = 1"
proof -
  have auth: "validatePrincipal small_principal = None" "Authorize AIUploadPolicy (p_User small_principal) = None"
    using small_authorized by (auto simp: authorize_session_def split: option.splits)
  obtain view db' ob' where run: "Create (\<lambda>_ _. False) one_object AIUploadPolicy (Some ''xyz'') 5 9 small_principal sample_pdf
      (empty_files_db, []) = (Inr view, db', ob')"
    by (simp add: Create_def auth sample_pdf_ai randomObjectKey_def one_object_def CreateSession_def transact_def
        empty_files_db_def Let_def)
  with create_all_or_nothing [OF _ run] show ?thesis by (auto simp: empty_files_db_def)
qed
end
