(* ===== verification/File_Access.thy ===== *)
theory File_Access
  imports Files_Model "HOL-Library.Sublist"
begin

text \<open>
  Delivering files: \<^verbatim>\<open>internal/files/access_service.go\<close>, \<^verbatim>\<open>qa_access.go\<close>,
  \<^verbatim>\<open>ai_access.go\<close> and \<^verbatim>\<open>WriteAccessLog\<close> of the store. The three \<^verbatim>\<open>Open\<close> methods share
  one contract, the locale \<open>fail_closed\<close>: no byte is handed out and no refusal is
  reported unless the access log says so. What a request resolves to (the
  \<^verbatim>\<open>AccessStore\<close> interfaces), the object stores and the digest are arguments;
  \<open>fault\<close> says which log insertions fail.
\<close>

section \<open>Byte ranges\<close>

definition maxRangeLength :: int where "maxRangeLength = 64 * 1024 * 1024"

definition parseASCIIDecimal :: "string \<Rightarrow> int option" where
  "parseASCIIDecimal raw =
     (if raw = [] then None
      else if \<not> list_all digit raw then None
      else map_option int (ParseUint63 raw))"

definition parseByteRange :: "string \<Rightarrow> int \<Rightarrow> bool \<Rightarrow> files_error + ResponseRange option" where
  "parseByteRange raw sz playable =
     (if raw = [] then Inr None
      else if \<not> playable \<or> sz < 1 \<or> \<not> HasPrefix raw ''bytes='' \<or> CHR '','' \<in> set raw
      then Inl (ErrRangeNotSatisfiable sz)
      else case Cut (CHR ''-'') (TrimPrefix raw ''bytes='') of
        None \<Rightarrow> Inl (ErrRangeNotSatisfiable sz)
      | Some (left, right) \<Rightarrow>
          if CHR ''-'' \<in> set right then Inl (ErrRangeNotSatisfiable sz)
          else if left = [] then
            (case parseASCIIDecimal right of
               None \<Rightarrow> Inl (ErrRangeNotSatisfiable sz)
             | Some n \<Rightarrow>
                 if n < 1 \<or> n > maxRangeLength then Inl (ErrRangeNotSatisfiable sz)
                 else (let n' = (if n > sz then sz else n)
                       in Inr (Some \<lparr>rr_Start = sz - n', rr_End = sz - 1, rr_Total = sz\<rparr>)))
          else
            (case parseASCIIDecimal left of
               None \<Rightarrow> Inl (ErrRangeNotSatisfiable sz)
             | Some start \<Rightarrow>
                 if start < 0 \<or> start \<ge> sz then Inl (ErrRangeNotSatisfiable sz)
                 else case (if right = [] then Some (sz - 1)
                            else case parseASCIIDecimal right of
                              None \<Rightarrow> None
                            | Some e \<Rightarrow> if e < start then None else if e \<ge> sz then Some (sz - 1) else Some e) of
                   None \<Rightarrow> Inl (ErrRangeNotSatisfiable sz)
                 | Some e \<Rightarrow>
                     if e - start + 1 > maxRangeLength \<and> e \<noteq> sz - 1 then Inl (ErrRangeNotSatisfiable sz)
                     else Inr (Some \<lparr>rr_Start = start, rr_End = e, rr_Total = sz\<rparr>)))"

definition rangeValue :: "ResponseRange option \<Rightarrow> int \<Rightarrow> ResponseRange" where
  "rangeValue r total_size =
     (case r of None \<Rightarrow> \<lparr>rr_Start = 0, rr_End = 0, rr_Total = total_size\<rparr> | Some x \<Rightarrow> x)"

definition range_length :: "ResponseRange \<Rightarrow> int" where
  "range_length r = rr_End r - rr_Start r + 1"

section \<open>The access log\<close>

text \<open>\<^verbatim>\<open>INSERT ... ON CONFLICT DO NOTHING\<close> against the partial unique index
  \<^verbatim>\<open>file_access_logs_playback_sample_key\<close>; a NULL revision conflicts with nothing.\<close>

definition playback_conflict :: "AccessLog \<Rightarrow> AccessLog \<Rightarrow> bool" where
  "playback_conflict l x \<longleftrightarrow> al_Result l = AccessAllowed \<and> al_PlaybackSessionHash l \<noteq> [] \<and>
     al_Result x = AccessAllowed \<and> al_RevisionID l \<noteq> uuid_Nil \<and>
     al_ActorUserID x = al_ActorUserID l \<and> al_RequestedVersionID x = al_RequestedVersionID l \<and>
     al_RevisionID x = al_RevisionID l \<and> al_Action x = al_Action l \<and>
     al_PlaybackSessionHash x = al_PlaybackSessionHash l"

definition WriteAccessLog :: "bool \<Rightarrow> AccessLog \<Rightarrow> AccessLog list \<Rightarrow> files_error option \<times> AccessLog list" where
  "WriteAccessLog fault l logs =
     (if fault then (Some ErrDriver, logs)
      else if list_ex (playback_conflict l) logs then (None, logs)
      else (None, logs @ [l]))"

definition failClosedLog ::
  "(AccessLog \<Rightarrow> bool) \<Rightarrow> AccessLog \<Rightarrow> files_error \<Rightarrow> AccessLog list \<Rightarrow> files_error \<times> AccessLog list" where
  "failClosedLog fault l fallback logs =
     (case WriteAccessLog (fault l) l logs of
        (Some _, logs') \<Rightarrow> (ErrAccessUnavailable, logs')
      | (None, logs') \<Rightarrow> (fallback, logs'))"

definition access_log :: "Principal \<Rightarrow> uuid \<Rightarrow> AccessAction \<Rightarrow> AccessLog" where
  "access_log actor version action =
     \<lparr>al_ActorUserID = u_ID (p_User actor), al_RequestedVersionID = version, al_VersionID = uuid_Nil,
      al_RevisionID = uuid_Nil, al_QAMessageID = uuid_Nil, al_AIMessageID = uuid_Nil, al_Action = action,
      al_Result = AccessFailed, al_Reason = [], al_RequestID = p_RequestID actor, al_IP = p_IP actor,
      al_RangeStart = None, al_RangeEnd = None, al_PlaybackSessionHash = []\<rparr>"

text \<open>\<^verbatim>\<open>log.Result, log.Reason = ...\<close> followed by the log write and the error.\<close>

definition refuse ::
  "(AccessLog \<Rightarrow> bool) \<Rightarrow> AccessLog \<Rightarrow> AccessResult \<Rightarrow> string \<Rightarrow> files_error \<Rightarrow> AccessLog list
     \<Rightarrow> (files_error + OpenedFile) \<times> AccessLog list" where
  "refuse fault l result reason fallback logs =
     (case failClosedLog fault (l\<lparr>al_Result := result, al_Reason := reason\<rparr>) fallback logs of
        (e, logs') \<Rightarrow> (Inl e, logs'))"

definition with_range :: "ResponseRange option \<Rightarrow> AccessLog \<Rightarrow> AccessLog" where
  "with_range rng l = (case rng of None \<Rightarrow> l
     | Some r \<Rightarrow> l\<lparr>al_RangeStart := Some (rr_Start r), al_RangeEnd := Some (rr_End r)\<rparr>)"

definition byte_range :: "ResponseRange option \<Rightarrow> (int \<times> int) option" where
  "byte_range rng = map_option (\<lambda>r. (rr_Start r, range_length r)) rng"

definition opened :: "Delivery \<Rightarrow> body \<Rightarrow> ResponseRange option \<Rightarrow> bool \<Rightarrow> OpenedFile" where
  "opened d b rng playable =
     \<lparr>of_Body = b, of_DisplayName = d_DisplayName d, of_ContentType = d_ContentType d,
      of_Size = (case rng of None \<Rightarrow> d_Size d | Some r \<Rightarrow> range_length r), of_Partial = (rng \<noteq> None),
      of_Range = rangeValue rng (d_Size d), of_Playable = playable\<rparr>"

text \<open>The file is handed out once the log has been written.\<close>

definition grant ::
  "(AccessLog \<Rightarrow> bool) \<Rightarrow> AccessLog \<Rightarrow> OpenedFile \<Rightarrow> AccessLog list \<Rightarrow> (files_error + OpenedFile) \<times> AccessLog list" where
  "grant fault l file logs =
     (case WriteAccessLog (fault l) l logs of
        (Some _, logs') \<Rightarrow> (Inl ErrAccessUnavailable, logs')
      | (None, logs') \<Rightarrow> (Inr file, logs'))"

text \<open>The log entry that \<^verbatim>\<open>OpenedFile.ReportFailure\<close> writes when the delivery breaks off.\<close>

definition ReportFailure :: "bool \<Rightarrow> AccessLog \<Rightarrow> string \<Rightarrow> AccessLog list \<Rightarrow> files_error option \<times> AccessLog list" where
  "ReportFailure fault l reason = WriteAccessLog fault (l\<lparr>al_Result := AccessFailed, al_Reason := reason\<rparr>)"

section \<open>Playback sampling\<close>

definition be_bytes :: "nat \<Rightarrow> nat \<Rightarrow> string" where
  "be_bytes k n = map (\<lambda>i. char_of (n div 256 ^ (k - 1 - i) mod 256)) [0..<k]"

definition action_bytes :: "AccessAction \<Rightarrow> string" where
  "action_bytes a = (case a of ActionPreview \<Rightarrow> ''preview'' | ActionDownload \<Rightarrow> ''download'' | ActionOther s \<Rightarrow> s)"

definition playbackAggregationWindow :: duration where "playbackAggregationWindow = 10 * Minute"

definition playback_bucket :: "time \<Rightarrow> nat" where
  "playback_bucket now = nat (go_div (now div Second) (playbackAggregationWindow div Second) mod 2 ^ 64)"

definition playback_bytes :: "uuid \<Rightarrow> uuid \<Rightarrow> uuid \<Rightarrow> AccessAction \<Rightarrow> time \<Rightarrow> string" where
  "playback_bytes actor version revision action now =
     be_bytes 16 actor @ be_bytes 16 version @ be_bytes 16 revision @ action_bytes action @
     be_bytes 8 (playback_bucket now)"

definition playbackAggregationKey ::
  "(string \<Rightarrow> string) \<Rightarrow> time \<Rightarrow> uuid \<Rightarrow> uuid \<Rightarrow> uuid \<Rightarrow> AccessAction \<Rightarrow> string" where
  "playbackAggregationKey hex_sha256 now actor version revision action =
     hex_sha256 (playback_bytes actor version revision action now)"

section \<open>The three Open methods\<close>

definition Open ::
  "(AccessLog \<Rightarrow> bool) \<Rightarrow> (uuid \<Rightarrow> uuid \<Rightarrow> AccessAction \<Rightarrow> files_error + Delivery) \<Rightarrow> 'o objectstore \<Rightarrow> 'o objectstore
     \<Rightarrow> 'o \<Rightarrow> (string \<Rightarrow> string) \<Rightarrow> time \<Rightarrow> Principal \<Rightarrow> OpenInput \<Rightarrow> AccessLog list
     \<Rightarrow> (files_error + OpenedFile) \<times> AccessLog list" where
  "Open fault resolveAccess originals previews ob hex_sha256 now actor inp logs =
     (let log = access_log actor (oi_VersionID inp) (oi_Action inp)
      in if u_Role (p_User actor) \<noteq> RoleStudent \<or> u_Status (p_User actor) \<noteq> StatusActive \<or>
            oi_VersionID inp = uuid_Nil \<or> (oi_Action inp \<noteq> ActionPreview \<and> oi_Action inp \<noteq> ActionDownload)
         then refuse fault log AccessDenied ''not_found'' ErrNotFound logs
         else case resolveAccess (u_ID (p_User actor)) (oi_VersionID inp) (oi_Action inp) of
           Inl _ \<Rightarrow> refuse fault log AccessDenied ''not_found'' ErrNotFound logs
         | Inr d \<Rightarrow>
             (let log = log\<lparr>al_VersionID := d_VersionID d, al_RevisionID := d_RevisionID d\<rparr>
              in if oi_Action inp = ActionDownload \<and> d_Policy d \<noteq> PolicyDownload
                 then refuse fault log AccessDenied ''policy'' ErrNotFound logs
                 else case parseByteRange (oi_Range inp) (d_Size d) (d_Playable d) of
                   Inl e \<Rightarrow> refuse fault log AccessMalformed ''invalid_range'' e logs
                 | Inr rng \<Rightarrow>
                     (let log = with_range rng log;
                          objects = (if d_Preview d then previews else originals)
                      in case os_Get objects (d_ObjectKey d) (byte_range rng) ob of
                           Inl _ \<Rightarrow> refuse fault log AccessFailed ''storage'' ErrAccessUnavailable logs
                         | Inr (b, info) \<Rightarrow>
                             if oinf_Size info \<noteq> d_Size d
                             then refuse fault log AccessFailed ''storage'' ErrAccessUnavailable logs
                             else (let log = (if rng \<noteq> None \<and> d_Playable d
                                     then log\<lparr>al_PlaybackSessionHash := playbackAggregationKey hex_sha256 now
                                            (u_ID (p_User actor)) (d_VersionID d) (d_RevisionID d) (oi_Action inp)\<rparr>
                                     else log);
                                       log = log\<lparr>al_Result := AccessAllowed\<rparr>
                                   in grant fault log (opened d b rng (d_Playable d)) logs))))"

definition validQAActor :: "Principal \<Rightarrow> bool" where
  "validQAActor actor \<longleftrightarrow> u_ID (p_User actor) \<noteq> uuid_Nil \<and> u_Status (p_User actor) = StatusActive \<and>
     (u_Role (p_User actor) = RoleStudent \<or> u_Role (p_User actor) = RoleAdmin)"

definition validAIActor :: "Principal \<Rightarrow> bool" where
  "validAIActor actor \<longleftrightarrow> u_ID (p_User actor) \<noteq> uuid_Nil \<and> u_Role (p_User actor) = RoleStudent \<and>
     u_Status (p_User actor) = StatusActive"

text \<open>\<open>configured\<close> is \<^verbatim>\<open>s != nil && s.store != nil\<close>. A Q&A or AI delivery comes with
  the message it was attached to.\<close>

definition fail_open ::
  "bool \<Rightarrow> (AccessLog \<Rightarrow> bool) \<Rightarrow> AccessLog \<Rightarrow> AccessResult \<Rightarrow> string \<Rightarrow> files_error \<Rightarrow> AccessLog list
     \<Rightarrow> (files_error + OpenedFile) \<times> AccessLog list" where
  "fail_open configured fault l result reason fallback logs =
     (if \<not> configured then (Inl ErrAccessUnavailable, logs)
      else refuse fault l result reason fallback logs)"

definition QA_Open ::
  "bool \<Rightarrow> (AccessLog \<Rightarrow> bool) \<Rightarrow> (Principal \<Rightarrow> uuid \<Rightarrow> AccessAction \<Rightarrow> files_error + (Delivery \<times> uuid)) \<Rightarrow> 'o objectstore
     \<Rightarrow> 'o objectstore \<Rightarrow> 'o \<Rightarrow> Principal \<Rightarrow> uuid \<Rightarrow> AccessAction \<Rightarrow> string \<Rightarrow> AccessLog list
     \<Rightarrow> (files_error + OpenedFile) \<times> AccessLog list" where
  "QA_Open configured fault resolveQAAccess originals previews ob actor version action rangeHeader logs =
     (let log = access_log actor version action
      in if \<not> configured \<or> \<not> validQAActor actor \<or> version = uuid_Nil \<or>
            (action \<noteq> ActionPreview \<and> action \<noteq> ActionDownload)
         then fail_open configured fault log AccessDenied ''not_found'' ErrNotFound logs
         else case resolveQAAccess actor version action of
           Inl _ \<Rightarrow> fail_open configured fault log AccessDenied ''not_found'' ErrNotFound logs
         | Inr (d, message) \<Rightarrow>
             (let log = log\<lparr>al_VersionID := d_VersionID d, al_QAMessageID := message\<rparr>;
                  rangeCapable = (d_Playable d \<or> action = ActionDownload)
              in case parseByteRange rangeHeader (d_Size d) rangeCapable of
                   Inl e \<Rightarrow> fail_open configured fault log AccessMalformed ''invalid_range'' e logs
                 | Inr rng \<Rightarrow>
                     (let log = with_range rng log;
                          objects = (if d_Preview d then previews else originals)
                      in case os_Get objects (d_ObjectKey d) (byte_range rng) ob of
                           Inl _ \<Rightarrow> fail_open configured fault log AccessFailed ''storage'' ErrAccessUnavailable logs
                         | Inr (b, info) \<Rightarrow>
                             if oinf_Size info \<noteq> d_Size d
                             then fail_open configured fault log AccessFailed ''storage'' ErrAccessUnavailable logs
                             else (let log = log\<lparr>al_Result := AccessAllowed\<rparr>
                                   in grant fault log (opened d b rng rangeCapable) logs))))"

definition AI_Open ::
  "bool \<Rightarrow> (AccessLog \<Rightarrow> bool) \<Rightarrow> (Principal \<Rightarrow> uuid \<Rightarrow> files_error + (Delivery \<times> uuid)) \<Rightarrow> 'o objectstore option
     \<Rightarrow> 'o objectstore option \<Rightarrow> 'o \<Rightarrow> Principal \<Rightarrow> uuid \<Rightarrow> string \<Rightarrow> AccessLog list
     \<Rightarrow> (files_error + OpenedFile) \<times> AccessLog list" where
  "AI_Open configured fault resolveAIAccess originals previews ob actor version rangeHeader logs =
     (let log = access_log actor version ActionPreview
      in if \<not> configured \<or> \<not> validAIActor actor \<or> version = uuid_Nil
         then fail_open configured fault log AccessDenied ''not_found'' ErrNotFound logs
         else case resolveAIAccess actor version of
           Inl e \<Rightarrow>
             if e \<noteq> ErrNotFound then fail_open configured fault log AccessFailed ''storage'' ErrAccessUnavailable logs
             else fail_open configured fault log AccessDenied ''not_found'' ErrNotFound logs
         | Inr (d, message) \<Rightarrow>
             (let log = log\<lparr>al_VersionID := d_VersionID d, al_AIMessageID := message\<rparr>
              in case parseByteRange rangeHeader (d_Size d) (d_Playable d) of
                   Inl e \<Rightarrow> fail_open configured fault log AccessMalformed ''invalid_range'' e logs
                 | Inr rng \<Rightarrow>
                     (let log = with_range rng log
                      in case (if d_Preview d then previews else originals) of
                           None \<Rightarrow> fail_open configured fault log AccessFailed ''storage'' ErrAccessUnavailable logs
                         | Some objects \<Rightarrow>
                      (case os_Get objects (d_ObjectKey d) (byte_range rng) ob of
                           Inl _ \<Rightarrow> fail_open configured fault log AccessFailed ''storage'' ErrAccessUnavailable logs
                         | Inr (b, info) \<Rightarrow>
                             if oinf_Size info \<noteq> d_Size d
                             then fail_open configured fault log AccessFailed ''storage'' ErrAccessUnavailable logs
                             else (let log = log\<lparr>al_Result := AccessAllowed\<rparr>
                                   in grant fault log (opened d b rng (d_Playable d)) logs)))))"

section \<open>Streaming the body\<close>

text \<open>
  One turn of \<^verbatim>\<open>copyDeliveryContext\<close>'s loop as the environment answers it: whether the
  context is cancelled at the top, what the read returns (at most the 64 KiB buffer) and
  how, what the write returns, and whether the context is cancelled when a read error is
  examined. The loop runs over the list of answers; \<open>None\<close> means that it is still running
  when the list ends. The result carries the bytes the writer took.
\<close>

datatype read_error = ReadEOF | ReadFailed
datatype delivery_error = errDeliveryRead | errDeliveryWrite | errDeliveryCancelled

record delivery_turn =
  dt_cancelled :: bool
  dt_read :: string
  dt_err :: "read_error option"
  dt_written :: nat
  dt_write_fails :: bool
  dt_cancelled_late :: bool

fun copyDeliveryContext ::
  "delivery_turn list \<Rightarrow> string \<Rightarrow> nat \<Rightarrow> (string \<times> delivery_error option) option" where
  "copyDeliveryContext [] out misses = None"
| "copyDeliveryContext (t # ts) out misses =
     (if dt_cancelled t then Some (out, Some errDeliveryCancelled)
      else (let n = length (dt_read t);
                out' = (if n > 0 then out @ take (dt_written t) (dt_read t) else out);
                misses' = (if n > 0 then 0 else misses + 1)
            in if n > 0 \<and> (dt_write_fails t \<or> dt_written t \<noteq> n) then Some (out', Some errDeliveryWrite)
               else case dt_err t of
                 Some ReadEOF \<Rightarrow> Some (out', None)
               | Some ReadFailed \<Rightarrow>
                   Some (out', Some (if dt_cancelled_late t then errDeliveryCancelled else errDeliveryRead))
               | None \<Rightarrow>
                   if misses' \<ge> 100 then Some (out', Some errDeliveryRead)
                   else copyDeliveryContext ts out' misses'))"

section \<open>Ranges stay inside the file\<close>

text \<open>A range the service accepts lies inside the file, and it is at most 64 MiB long
  unless it runs to the end of the file; without a \<^verbatim>\<open>Range\<close> header nothing is rejected,
  and with one a file that is not range capable is always rejected.\<close>

theorem range_within_file:
  "(\<forall>r. parseByteRange raw sz playable = Inr (Some r) \<longrightarrow>
      playable \<and> 0 \<le> rr_Start r \<and> rr_Start r \<le> rr_End r \<and> rr_End r < sz \<and> rr_Total r = sz \<and>
      (range_length r \<le> maxRangeLength \<or> rr_End r = sz - 1)) \<and>
   (parseByteRange raw sz playable = Inr None \<longleftrightarrow> raw = [])"
  unfolding parseByteRange_def range_length_def
  by (auto simp: Let_def split: if_splits option.splits prod.splits)

lemma show_int_nat: "parseASCIIDecimal (show_nat n) = (if n < 2 ^ 63 then Some (int n) else None)"
  using show_nat_digits [of n]
  by (auto simp: parseASCIIDecimal_def ParseUint63_show_nat) (simp add: ParseUint63_def decimal_value_show_nat)

lemma bytes_prefix: "HasPrefix (''bytes='' @ s) ''bytes=''" "TrimPrefix (''bytes='' @ s) ''bytes='' = s"
  by (simp_all add: HasPrefix_def TrimPrefix_def)

text \<open>C24: Rendering a range and parsing it back is the identity. For every range inside a file
  whose size fits 63 bits, the header \<^verbatim>\<open>bytes=<start>-<end>\<close> in decimal is parsed to exactly
  that range when it is at most 64 MiB long or ends at the last byte, and is refused
  otherwise.\<close>

theorem range_header_round_trip:
  assumes "a \<le> b" and "int b < sz" and "sz < 2 ^ 63"
  shows "parseByteRange (''bytes='' @ show_nat a @ ''-'' @ show_nat b) sz True =
    (if int b - int a + 1 \<le> maxRangeLength \<or> int b = sz - 1
     then Inr (Some \<lparr>rr_Start = int a, rr_End = int b, rr_Total = sz\<rparr>)
     else Inl (ErrRangeNotSatisfiable sz))"
proof -
  have b: "b < 2 ^ 63" using assms(2,3) by simp
  then have small: "a < 2 ^ 63" "b < 2 ^ 63" using assms(1) by (auto intro: le_less_trans)
  have d: "CHR ''-'' \<notin> set (show_nat a)" "CHR ''-'' \<notin> set (show_nat b)" "CHR '','' \<notin> set (show_nat a)"
    "CHR '','' \<notin> set (show_nat b)"
    using digit_not_special show_nat_digits by blast+
  have "Cut (CHR ''-'') (show_nat a @ ''-'' @ show_nat b) = Some (show_nat a, show_nat b)"
    using Cut_append [OF d(1)] by simp
  moreover have "show_nat a \<noteq> []" "show_nat b \<noteq> []" using show_nat_digits by blast+
  ultimately show ?thesis
    using assms d small unfolding parseByteRange_def bytes_prefix
    by (auto simp: bytes_prefix(1) [simplified] show_int_nat)
qed

section \<open>Nothing is delivered or refused without a log entry\<close>

text \<open>The contract of an \<^verbatim>\<open>Open\<close> method. \<open>open_file fault logs\<close> answers one request of
  \<open>actor\<close> for \<open>version\<close> against the access log \<open>logs\<close>.\<close>

definition logged :: "uuid \<Rightarrow> uuid \<Rightarrow> bool \<Rightarrow> AccessLog list \<Rightarrow> bool" where
  "logged actor version allowed logs \<longleftrightarrow> (\<exists>l \<in> set logs. al_ActorUserID l = actor \<and>
     al_RequestedVersionID l = version \<and> (al_Result l = AccessAllowed) = allowed)"

locale fail_closed =
  fixes open_file :: "(AccessLog \<Rightarrow> bool) \<Rightarrow> AccessLog list \<Rightarrow> (files_error + OpenedFile) \<times> AccessLog list"
    and actor :: uuid and version :: uuid
  assumes granted: "open_file fault logs = (Inr f, logs') \<Longrightarrow>
      \<exists>l. \<not> fault l \<and> logged actor version True logs'"
    and refused: "open_file fault logs = (Inl e, logs') \<Longrightarrow> e \<noteq> ErrAccessUnavailable \<Longrightarrow>
      \<exists>l. \<not> fault l \<and> logged actor version False logs'"
    and append_only: "open_file fault logs = (r, logs') \<Longrightarrow> prefix logs logs' \<and> length logs' \<le> Suc (length logs)"
begin

lemma log_outage:
  assumes "\<forall>l. fault l"
  shows "fst (open_file fault logs) = Inl ErrAccessUnavailable"
proof (cases "open_file fault logs")
  case (Pair r logs')
  with assms granted [of fault logs _ logs'] refused [of fault logs _ logs'] show ?thesis by (cases r) auto
qed

lemma answered_is_logged:
  assumes "open_file fault logs = (r, logs')" and "r \<noteq> Inl ErrAccessUnavailable"
  shows "logged actor version (case r of Inl _ \<Rightarrow> False | Inr _ \<Rightarrow> True) logs'"
  using assms granted [of fault logs] refused [of fault logs] by (cases r) auto

text \<open>A request history: every entry that was ever written stays, whatever follows.\<close>

primrec history :: "(AccessLog \<Rightarrow> bool) list \<Rightarrow> AccessLog list \<Rightarrow> AccessLog list" where
  "history [] logs = logs"
| "history (fault # faults) logs = history faults (snd (open_file fault logs))"

lemma history_keeps: "prefix logs (history faults logs)"
proof (induction faults arbitrary: logs)
  case (Cons fault faults)
  have "prefix logs (snd (open_file fault logs))"
    using append_only [of fault logs] by (metis prod.collapse)
  with Cons [of "snd (open_file fault logs)"] show ?case by (simp add: prefix_order.trans)
qed simp

end

lemma WriteAccessLog_None:
  assumes "WriteAccessLog f l logs = (None, logs')"
  shows "\<not> f \<and> prefix logs logs' \<and> length logs' \<le> Suc (length logs) \<and>
    logged (al_ActorUserID l) (al_RequestedVersionID l) (al_Result l = AccessAllowed) logs'"
  using assms
  by (auto simp: WriteAccessLog_def logged_def list_ex_iff playback_conflict_def split: if_splits)

lemma WriteAccessLog_Some: "WriteAccessLog f l logs = (Some e, logs') \<Longrightarrow> logs' = logs"
  by (auto simp: WriteAccessLog_def split: if_splits)

definition well_logged ::
  "(AccessLog \<Rightarrow> bool) \<Rightarrow> uuid \<Rightarrow> uuid \<Rightarrow> AccessLog list \<Rightarrow> (files_error + OpenedFile) \<times> AccessLog list \<Rightarrow> bool" where
  "well_logged fault actor version logs answer = (case answer of (r, logs') \<Rightarrow>
     prefix logs logs' \<and> length logs' \<le> Suc (length logs) \<and>
     (r \<noteq> Inl ErrAccessUnavailable \<longrightarrow> (\<exists>l. \<not> fault l) \<and>
        logged actor version (case r of Inl _ \<Rightarrow> False | Inr _ \<Rightarrow> True) logs'))"

lemma refuse_well_logged:
  assumes "result \<noteq> AccessAllowed" and "al_ActorUserID l = actor" and "al_RequestedVersionID l = version"
  shows "well_logged fault actor version logs (refuse fault l result reason fallback logs)"
proof -
  let ?l = "l\<lparr>al_Result := result, al_Reason := reason\<rparr>"
  obtain w logs1 where w: "WriteAccessLog (fault ?l) ?l logs = (w, logs1)" by force
  with assms WriteAccessLog_None [of "fault ?l" ?l logs logs1] WriteAccessLog_Some [of "fault ?l" ?l logs _ logs1]
  show ?thesis by (cases w) (auto simp: refuse_def failClosedLog_def well_logged_def)
qed

lemma grant_well_logged:
  assumes "al_Result l = AccessAllowed" and "al_ActorUserID l = actor" and "al_RequestedVersionID l = version"
  shows "well_logged fault actor version logs (grant fault l f logs)"
proof -
  obtain w logs1 where w: "WriteAccessLog (fault l) l logs = (w, logs1)" by force
  with assms WriteAccessLog_None [of "fault l" l logs logs1] WriteAccessLog_Some [of "fault l" l logs _ logs1]
  show ?thesis by (cases w) (auto simp: grant_def well_logged_def)
qed

lemma fail_open_well_logged:
  assumes "result \<noteq> AccessAllowed" and "al_ActorUserID l = actor" and "al_RequestedVersionID l = version"
  shows "well_logged fault actor version logs (fail_open configured fault l result reason fallback logs)"
  using refuse_well_logged [OF assms] by (simp add: fail_open_def) (simp add: well_logged_def)

lemma log_identity [simp]:
  "al_ActorUserID (access_log p v a) = u_ID (p_User p)" "al_RequestedVersionID (access_log p v a) = v"
  "al_ActorUserID (with_range rng l) = al_ActorUserID l" "al_RequestedVersionID (with_range rng l) = al_RequestedVersionID l"
  by (simp_all add: access_log_def with_range_def split: option.split)

lemma well_logged_split:
  "well_logged fault a v logs x \<Longrightarrow> well_logged fault a v logs y \<Longrightarrow> well_logged fault a v logs (if c then x else y)"
  "(\<And>e. well_logged fault a v logs (f e)) \<Longrightarrow> (\<And>z. well_logged fault a v logs (g z)) \<Longrightarrow>
     well_logged fault a v logs (case s of Inl e \<Rightarrow> f e | Inr z \<Rightarrow> g z)"
  "well_logged fault a v logs x \<Longrightarrow> (\<And>z. well_logged fault a v logs (k z)) \<Longrightarrow>
     well_logged fault a v logs (case m of None \<Rightarrow> x | Some z \<Rightarrow> k z)"
  "(\<And>x y. well_logged fault a v logs (h x y)) \<Longrightarrow> well_logged fault a v logs (case p of (x, y) \<Rightarrow> h x y)"
  by (simp_all split: sum.split option.split prod.split)

lemmas well_logged_intros = refuse_well_logged grant_well_logged fail_open_well_logged well_logged_split

lemma Open_well_logged:
  "well_logged fault (u_ID (p_User actor)) (oi_VersionID inp) logs
     (Open fault resolveAccess originals previews ob hex_sha256 now actor inp logs)"
  unfolding Open_def Let_def
  by (intro well_logged_intros) simp_all

lemma QA_Open_well_logged:
  "well_logged fault (u_ID (p_User actor)) version logs
     (QA_Open configured fault resolveQAAccess originals previews ob actor version action rangeHeader logs)"
  unfolding QA_Open_def Let_def
  by (intro well_logged_intros) simp_all

lemma AI_Open_well_logged:
  "well_logged fault (u_ID (p_User actor)) version logs
     (AI_Open configured fault resolveAIAccess originals previews ob actor version rangeHeader logs)"
  unfolding AI_Open_def Let_def
  by (intro well_logged_intros) simp_all

lemma fail_closedI:
  assumes "\<And>fault logs. well_logged fault actor version logs (open_file fault logs)"
  shows "fail_closed open_file actor version"
  by unfold_locales
    (use assms in \<open>fastforce simp: well_logged_def split: prod.splits\<close>)+

interpretation teaching_open: fail_closed
  "\<lambda>fault. Open fault resolveAccess originals previews ob hex_sha256 now actor inp"
  "u_ID (p_User actor)" "oi_VersionID inp"
  for resolveAccess originals previews ob hex_sha256 now actor inp
  by (rule fail_closedI) (rule Open_well_logged)

interpretation qa_open: fail_closed
  "\<lambda>fault. QA_Open configured fault resolveQAAccess originals previews ob actor version action rangeHeader"
  "u_ID (p_User actor)" version
  for configured resolveQAAccess originals previews ob actor version action rangeHeader
  by (rule fail_closedI) (rule QA_Open_well_logged)

interpretation ai_open: fail_closed
  "\<lambda>fault. AI_Open configured fault resolveAIAccess originals previews ob actor version rangeHeader"
  "u_ID (p_User actor)" version
  for configured resolveAIAccess originals previews ob actor version rangeHeader
  by (rule fail_closedI) (rule AI_Open_well_logged)

text \<open>When the access log cannot be written nothing is delivered and nothing is told
  apart: each of the three services answers every request with "unavailable".\<close>

theorem access_log_outage:
  assumes "\<forall>l. fault l"
  shows "fst (Open fault resolveAccess originals previews ob hex_sha256 now actor inp logs) = Inl ErrAccessUnavailable \<and>
    fst (QA_Open configured fault resolveQAAccess originals previews ob actor version action rangeHeader logs) =
      Inl ErrAccessUnavailable \<and>
    fst (AI_Open configured fault resolveAIAccess aiOriginals aiPreviews ob actor version rangeHeader logs) =
      Inl ErrAccessUnavailable"
  by (intro conjI teaching_open.log_outage [OF assms] qa_open.log_outage [OF assms] ai_open.log_outage [OF assms])


section \<open>Streaming\<close>

lemma copy_prefix:
  assumes "copyDeliveryContext ts out misses = Some (res, err)"
  shows "\<exists>k \<le> length ts. prefix res (out @ concat (map dt_read (take k ts))) \<and>
    (err = None \<longrightarrow> res = out @ concat (map dt_read (take k ts)) \<and> 0 < k \<and> dt_err (ts ! (k - 1)) = Some ReadEOF)"
  using assms
proof (induction ts out misses rule: copyDeliveryContext.induct)
  case (2 t ts out misses)
  let ?out = "if length (dt_read t) > 0 then out @ take (dt_written t) (dt_read t) else out"
  let ?ok = "\<not> (length (dt_read t) > 0 \<and> (dt_write_fails t \<or> dt_written t \<noteq> length (dt_read t)))"
  have whole: "?ok \<Longrightarrow> ?out = out @ dt_read t" by auto
  show ?case
  proof (cases "dt_cancelled t")
    case True
    with 2 show ?thesis by (intro exI [of _ 0]) auto
  next
    case False
    show ?thesis
    proof (cases "?ok \<and> dt_err t = None \<and> (if length (dt_read t) > 0 then 0 else misses + 1) < 100")
      case True
      then have "copyDeliveryContext ts (out @ dt_read t) (if length (dt_read t) > 0 then 0 else misses + 1) = Some (res, err)"
        using 2(2) False whole by (simp add: Let_def split: if_splits)
      with 2(1) [OF False refl refl refl] True whole obtain k where "k \<le> length ts"
        "prefix res ((out @ dt_read t) @ concat (map dt_read (take k ts)))"
        "err = None \<longrightarrow> res = (out @ dt_read t) @ concat (map dt_read (take k ts)) \<and> 0 < k \<and> dt_err (ts ! (k - 1)) = Some ReadEOF"
        by (auto simp: not_le)
      then show ?thesis by (intro exI [of _ "Suc k"]) (auto simp: nth_Cons')
    next
      case stop: False
      have "prefix ?out (out @ dt_read t)" by (simp add: take_is_prefix)
      with 2(2) False stop whole show ?thesis
        by (intro exI [of _ "Suc 0"])
          (auto simp: Let_def split: if_splits option.splits read_error.splits)
    qed
  qed
qed simp

lemma copy_running:
  assumes "copyDeliveryContext ts out misses = None" and "misses < 100"
  shows "length ts + misses < 100 * (Suc (length (filter (\<lambda>t. dt_read t \<noteq> []) ts)))"
  using assms
  by (induction ts out misses rule: copyDeliveryContext.induct)
    (fastforce simp: Let_def split: if_splits option.splits read_error.splits)+

text \<open>Streaming copies faithfully and ends. Whatever the reader, the writer and the client
  do, the writer receives a prefix of the bytes read, and when the copy reports success it
  has received every byte up to the end of the file; and the loop cannot hang on a reader
  that returns nothing: after \<open>k\<close> non-empty reads it makes at most 100 (k + 1) turns.\<close>

theorem copy_delivery_faithful:
  "(\<forall>res err. copyDeliveryContext ts [] 0 = Some (res, err) \<longrightarrow>
      (\<exists>k \<le> length ts. prefix res (concat (map dt_read (take k ts))) \<and>
        (err = None \<longrightarrow> res = concat (map dt_read (take k ts)) \<and> 0 < k \<and> dt_err (ts ! (k - 1)) = Some ReadEOF))) \<and>
   (length ts \<ge> 100 * (Suc (length (filter (\<lambda>t. dt_read t \<noteq> []) ts))) \<longrightarrow> copyDeliveryContext ts [] 0 \<noteq> None)"
  using copy_prefix [of ts "[]" 0] copy_running [of ts "[]" 0] by fastforce

section \<open>What a granted request hands out\<close>

lemma refuse_Inl: "refuse fault l result reason fallback logs \<noteq> (Inr f, logs')"
  by (simp add: refuse_def split: prod.split)

lemma grant_Inr: "grant fault l f logs = (Inr f', logs') \<Longrightarrow> f' = f"
  by (auto simp: grant_def split: prod.splits option.splits)

text \<open>C20: A teaching file is handed out only to an active student, for a delivery the store
  resolved for that student, as a download only under the download policy, from the
  bucket the delivery names, when the stored object still has the recorded size; and the
  announced size is the length of a range inside the file, or the whole file.\<close>

theorem open_grants_resolved:
  assumes "Open fault resolveAccess originals previews ob hex_sha256 now actor inp logs = (Inr f, logs')"
  shows "u_Role (p_User actor) = RoleStudent \<and> u_Status (p_User actor) = StatusActive \<and>
    (\<exists>d b info rng. resolveAccess (u_ID (p_User actor)) (oi_VersionID inp) (oi_Action inp) = Inr d \<and>
       (oi_Action inp = ActionDownload \<longrightarrow> d_Policy d = PolicyDownload) \<and>
       parseByteRange (oi_Range inp) (d_Size d) (d_Playable d) = Inr rng \<and>
       os_Get (if d_Preview d then previews else originals) (d_ObjectKey d) (byte_range rng) ob = Inr (b, info) \<and>
       oinf_Size info = d_Size d \<and> f = opened d b rng (d_Playable d) \<and>
       (of_Partial f \<longrightarrow> 1 \<le> of_Size f \<and> of_Size f \<le> d_Size d))"
proof -
  let ?bad = "u_Role (p_User actor) \<noteq> RoleStudent \<or> u_Status (p_User actor) \<noteq> StatusActive \<or>
    oi_VersionID inp = uuid_Nil \<or> (oi_Action inp \<noteq> ActionPreview \<and> oi_Action inp \<noteq> ActionDownload)"
  have ok: "\<not> ?bad"
  proof
    assume bad: ?bad
    show False using assms unfolding Open_def Let_def if_P [OF bad] by (simp add: refuse_Inl)
  qed
  then obtain d where d: "resolveAccess (u_ID (p_User actor)) (oi_VersionID inp) (oi_Action inp) = Inr d"
    using assms unfolding Open_def Let_def if_not_P [OF ok]
    by (cases "resolveAccess (u_ID (p_User actor)) (oi_VersionID inp) (oi_Action inp)") (auto simp: refuse_Inl)
  note run = assms [unfolded Open_def Let_def if_not_P [OF ok] d sum.case]
  then have pol: "\<not> (oi_Action inp = ActionDownload \<and> d_Policy d \<noteq> PolicyDownload)"
    using refuse_Inl by metis
  note run = run [unfolded if_not_P [OF pol]]
  then obtain rng where rng: "parseByteRange (oi_Range inp) (d_Size d) (d_Playable d) = Inr rng"
    by (cases "parseByteRange (oi_Range inp) (d_Size d) (d_Playable d)") (auto simp: refuse_Inl)
  note run = run [unfolded rng sum.case]
  obtain b info where got: "os_Get (if d_Preview d then previews else originals) (d_ObjectKey d) (byte_range rng) ob = Inr (b, info)"
    "oinf_Size info = d_Size d" "f = opened d b rng (d_Playable d)"
    using run by (auto simp: refuse_Inl split: sum.splits prod.splits if_split_asm dest: grant_Inr)
  moreover have "of_Partial f \<longrightarrow> 1 \<le> of_Size f \<and> of_Size f \<le> d_Size d"
    using rng got(3) unfolding parseByteRange_def
    by (auto simp: opened_def range_length_def Let_def split: if_splits option.splits prod.splits)
  ultimately show ?thesis using ok d pol rng by blast
qed

section \<open>Playback samples\<close>

lemma length_be_bytes [simp]: "length (be_bytes k n) = k" by (simp add: be_bytes_def)

lemma be_bytes_Suc: "be_bytes (Suc k) n = be_bytes k (n div 256) @ [char_of (n mod 256)]"
proof -
  have "n div 256 ^ (k - i) = n div 256 div 256 ^ (k - 1 - i)" if "i < k" for i
  proof -
    have "(256::nat) ^ (k - i) = 256 * 256 ^ (k - 1 - i)" using that by (cases "k - i") (auto simp: Suc_diff_Suc)
    then show ?thesis by (simp add: div_mult2_eq)
  qed
  then show ?thesis by (simp add: be_bytes_def)
qed

lemma be_bytes_inj: "n < 256 ^ k \<Longrightarrow> m < 256 ^ k \<Longrightarrow> be_bytes k n = be_bytes k m \<Longrightarrow> n = m"
proof (induction k arbitrary: n m)
  case (Suc k)
  then have "be_bytes k (n div 256) = be_bytes k (m div 256)"
    and c: "(char_of (n mod 256) :: char) = char_of (m mod 256)"
    by (simp_all add: be_bytes_Suc)
  moreover have "n div 256 < 256 ^ k" "m div 256 < 256 ^ k"
    using Suc.prems by (simp_all add: div_less_iff_less_mult mult.commute)
  ultimately have "n div 256 = m div 256" using Suc.IH by blast
  moreover have "n mod 256 = m mod 256" using arg_cong [OF c, of byte] by (metis byte_char_of mod_less_divisor zero_less_numeral)
  ultimately show ?case by (metis mult_div_mod_eq)
qed simp

lemma playback_bucket_less: "playback_bucket now < 256 ^ 8"
proof -
  have "go_div x y mod 2 ^ 64 < 2 ^ 64" for x y by simp
  then show ?thesis unfolding playback_bucket_def by (simp add: nat_less_iff)
qed

text \<open>Playback sampling never merges different playbacks: the bytes that are hashed into
  the aggregation key determine the student, the version, the revision, the action and
  the ten-minute window.\<close>

theorem playback_key_separates:
  assumes "playback_bytes actor version revision action now = playback_bytes actor' version' revision' action' now'"
    and "{actor, version, revision, actor', version', revision'} \<subseteq> {..<2 ^ 128}"
    and "{action, action'} \<subseteq> {ActionPreview, ActionDownload}"
  shows "actor = actor' \<and> version = version' \<and> revision = revision' \<and> action = action' \<and>
    playback_bucket now = playback_bucket now'"
proof -
  have width: "(2::nat) ^ 128 = 256 ^ 16" by simp
  have small: "x < 256 ^ 16" if "x \<in> {actor, version, revision, actor', version', revision'}" for x
    using that assms(2) unfolding width lessThan_def by blast
  note eq = assms(1) [unfolded playback_bytes_def]
  have "action = action'"
    using arg_cong [OF eq, of length] assms(3) by (auto simp: action_bytes_def)
  with eq have "be_bytes 16 actor = be_bytes 16 actor'" "be_bytes 16 version = be_bytes 16 version'"
    "be_bytes 16 revision = be_bytes 16 revision'" "be_bytes 8 (playback_bucket now) = be_bytes 8 (playback_bucket now')"
    by simp_all
  moreover have "x = y" if "x \<in> {actor, version, revision, actor', version', revision'}"
    "y \<in> {actor, version, revision, actor', version', revision'}" "be_bytes 16 x = be_bytes 16 y" for x y
    using be_bytes_inj [OF small [OF that(1)] small [OF that(2)] that(3)] .
  moreover note be_bytes_inj [OF playback_bucket_less playback_bucket_less, of now now']
  ultimately show ?thesis using \<open>action = action'\<close> by blast
qed

section \<open>Concrete requests\<close>

definition lecture :: Delivery where
  "lecture = \<lparr>d_VersionID = 5, d_RevisionID = 6, d_ObjectKey = ''originals/v'', d_DisplayName = ''l.mp4'',
     d_ContentType = ''video/mp4'', d_Size = 4, d_Policy = PolicyPreview, d_Playable = True, d_Preview = False\<rparr>"

definition lecture_store :: "unit objectstore" where
  "lecture_store = \<lparr>os_CreateMultipart = \<lambda>_ _ _. (Inl ObjConflict, ()), os_PutPart = \<lambda>_ _ _ _ _ _ _. (Inl ObjConflict, 0, ()),
     os_CompleteMultipart = \<lambda>_ _ _ _. (Inl ObjConflict, ()), os_AbortMultipart = \<lambda>_ _ _. (None, ()),
     os_Stat = \<lambda>_ _. Inr \<lparr>oinf_Size = 4, oinf_ETag = ''e''\<rparr>,
     os_Get = \<lambda>_ r _. Inr (\<lparr>b_bytes = (case r of None \<Rightarrow> ''data''
        | Some (a, n) \<Rightarrow> take (nat n) (drop (nat a) ''data'')), b_fails = False\<rparr>, \<lparr>oinf_Size = 4, oinf_ETag = ''e''\<rparr>),
     os_Delete = \<lambda>_ _. (None, ())\<rparr>"

definition viewer :: Principal where
  "viewer = \<lparr>p_User = \<lparr>u_ID = 3, u_Username = ''lin'', u_DisplayName = ''Lin'', u_Role = RoleStudent,
     u_Status = StatusActive, u_PasswordHash = [], u_MustChangePassword = False, u_CreatedAt = 1\<rparr>,
     p_RequestID = ''r'', p_IP = None\<rparr>"

definition lecture_request :: OpenInput where
  "lecture_request = \<lparr>oi_VersionID = 5, oi_Action = ActionPreview, oi_Range = ''bytes=1-2'', oi_PlaybackSession = []\<rparr>"

lemma lecture_range: "parseByteRange ''bytes=1-2'' 4 True = Inr (Some \<lparr>rr_Start = 1, rr_End = 2, rr_Total = 4\<rparr>)"
  by (simp add: parseByteRange_def parseASCIIDecimal_def maxRangeLength_def go_eval)

lemma lecture_open:
  "Open (\<lambda>_. False) (\<lambda>_ _ _. Inr lecture) lecture_store lecture_store () id 1000 viewer lecture_request [] =
     (Inr (opened lecture \<lparr>b_bytes = ''at'', b_fails = False\<rparr> (Some \<lparr>rr_Start = 1, rr_End = 2, rr_Total = 4\<rparr>) True),
      [access_log viewer 5 ActionPreview\<lparr>al_VersionID := 5, al_RevisionID := 6, al_RangeStart := Some 1, al_RangeEnd := Some 2,
         al_PlaybackSessionHash := playback_bytes 3 5 6 ActionPreview 1000, al_Result := AccessAllowed\<rparr>])"
  by (simp add: Open_def lecture_request_def viewer_def lecture_def lecture_range Let_def grant_def WriteAccessLog_def
      with_range_def byte_range_def range_length_def lecture_store_def playbackAggregationKey_def)

theorem range_within_file_witness:
  "parseByteRange ''bytes=1-2'' 4 True = Inr (Some \<lparr>rr_Start = 1, rr_End = 2, rr_Total = 4\<rparr>) \<and> (2::int) < 4"
  using lecture_range range_within_file [of "''bytes=1-2''" 4 True] by simp

theorem range_header_round_trip_witness:
  "parseByteRange (''bytes='' @ show_nat 7 @ ''-'' @ show_nat 19) 100 True =
     Inr (Some \<lparr>rr_Start = 7, rr_End = 19, rr_Total = 100\<rparr>)"
  using range_header_round_trip [of 7 19 100] by (simp add: maxRangeLength_def)

theorem access_log_outage_witness:
  "fst (Open (\<lambda>_. True) (\<lambda>_ _ _. Inr lecture) lecture_store lecture_store () id 1000 viewer lecture_request []) =
     Inl ErrAccessUnavailable"
  by (rule conjunct1 [OF access_log_outage]) simp


theorem open_grants_resolved_witness:
  "\<exists>f logs'. Open (\<lambda>_. False) (\<lambda>_ _ _. Inr lecture) lecture_store lecture_store () id 1000 viewer lecture_request [] =
     (Inr f, logs') \<and> of_Partial f \<and> of_Size f \<le> 4"
  using open_grants_resolved [OF lecture_open] lecture_open
  by (auto simp: lecture_def opened_def range_length_def)

theorem playback_key_separates_witness: "playback_bucket 0 = playback_bucket (599 * Second)"
proof -
  have b: "playback_bucket 0 = 0" "playback_bucket (599 * Second) = 0"
    by (simp_all add: playback_bucket_def playbackAggregationWindow_def go_div_def)
  then have "playback_bytes 3 5 6 ActionPreview 0 = playback_bytes 3 5 6 ActionPreview (599 * Second)"
    by (simp add: playback_bytes_def)
  from playback_key_separates [OF this] show ?thesis by simp
qed

definition two_turns :: "delivery_turn list" where
  "two_turns =
    [\<lparr>dt_cancelled = False, dt_read = ''ab'', dt_err = None, dt_written = 2, dt_write_fails = False, dt_cancelled_late = False\<rparr>,
     \<lparr>dt_cancelled = False, dt_read = ''c'', dt_err = Some ReadEOF, dt_written = 1, dt_write_fails = False, dt_cancelled_late = False\<rparr>]"

theorem copy_delivery_faithful_witness:
  "copyDeliveryContext two_turns [] 0 = Some (''abc'', None) \<and>
   (\<exists>k \<le> length two_turns. ''abc'' = concat (map dt_read (take k two_turns)))"
proof -
  have run: "copyDeliveryContext two_turns [] 0 = Some (''abc'', None)" by (simp add: two_turns_def Let_def)
  with conjunct1 [OF copy_delivery_faithful [of two_turns]] show ?thesis by blast
qed
end
