(* ===== verification/Lease_Protocol.thy ===== *)
theory Lease_Protocol
  imports Prelude
begin

text \<open>
  The lease protocol that the work queues share (processing jobs, outbox events). A worker
  claims a row, which counts an attempt and makes it the holder for a limited time; it
  renews the lease, releases the row for a later attempt, or closes it; a row whose lease
  has run out may be claimed again or closed. The locale \<open>leased_queue\<close> states what a
  store promises of every step on the rows it keeps, and derives what holds of all
  executions; the stores interpret it.
\<close>

record lease_view =
  lv_attempts :: int
  lv_holder :: "string option"
  lv_closed :: bool

text \<open>One step of a row: nothing changes after closing; an attempt is counted exactly when the
  row is handed to a holder, below the limit; nobody becomes the holder otherwise.\<close>

definition lease_move :: "int \<Rightarrow> lease_view \<Rightarrow> lease_view \<Rightarrow> bool" where
  "lease_move limit a b \<longleftrightarrow>
     (lv_closed a \<longrightarrow> b = a) \<and>
     (lv_attempts b = lv_attempts a \<and> (lv_holder b \<noteq> None \<longrightarrow> lv_holder b = lv_holder a) \<or>
      lv_attempts b = lv_attempts a + 1 \<and> lv_attempts a < limit \<and> lv_holder b \<noteq> None \<and> \<not> lv_closed b)"

definition lease_fresh :: "lease_view \<Rightarrow> bool" where
  "lease_fresh v \<longleftrightarrow> lv_attempts v = 0 \<and> lv_holder v = None \<and> \<not> lv_closed v"

lemma lease_move_refl [simp]: "lease_move limit a a" by (simp add: lease_move_def)

text \<open>How often a counter of handed-out attempts rises along an execution.\<close>

fun claims :: "('s \<Rightarrow> int) \<Rightarrow> 's list \<Rightarrow> nat" where
  "claims att (s # s' # ss) = (if att s < att s' then 1 else 0) + claims att (s' # ss)"
| "claims att _ = 0"

locale leased_queue =
  fixes rows :: "'s \<Rightarrow> 'r list" and key :: "'r \<Rightarrow> uuid" and view :: "'r \<Rightarrow> lease_view"
    and step :: "'s \<Rightarrow> 's \<Rightarrow> bool" and limit :: int
  assumes limit_nonneg: "0 \<le> limit"
    and step_keyed: "keyed key (rows s) \<Longrightarrow> step s s' \<Longrightarrow> keyed key (rows s')"
    and step_row: "keyed key (rows s) \<Longrightarrow> step s s' \<Longrightarrow> r \<in> set (rows s) \<Longrightarrow>
      \<exists>r' \<in> set (rows s'). key r' = key r \<and> lease_move limit (view r) (view r')"
    and step_new: "keyed key (rows s) \<Longrightarrow> step s s' \<Longrightarrow> r' \<in> set (rows s') \<Longrightarrow> key r' \<notin> key ` set (rows s) \<Longrightarrow>
      lease_fresh (view r')"
begin

definition row_of :: "uuid \<Rightarrow> 's \<Rightarrow> 'r option" where
  "row_of k s = find (\<lambda>r. key r = k) (rows s)"

definition attempts_of :: "uuid \<Rightarrow> 's \<Rightarrow> int" where
  "attempts_of k s = (case row_of k s of None \<Rightarrow> 0 | Some r \<Rightarrow> lv_attempts (view r))"

definition within :: "'s \<Rightarrow> bool" where
  "within s \<longleftrightarrow> keyed key (rows s) \<and> (\<forall>r \<in> set (rows s). 0 \<le> lv_attempts (view r) \<and> lv_attempts (view r) \<le> limit)"

lemma row_of_eq: "keyed key (rows s) \<Longrightarrow> r \<in> set (rows s) \<Longrightarrow> row_of (key r) s = Some r"
  unfolding row_of_def by (rule find_keyed [where k = key]) auto

lemma row_of_None: "row_of k s = None \<longleftrightarrow> k \<notin> key ` set (rows s)"
  by (auto simp: row_of_def find_None_iff)

lemma row_of_SomeD: "row_of k s = Some r \<Longrightarrow> r \<in> set (rows s) \<and> key r = k"
  by (auto simp: row_of_def dest: find_SomeD)

lemma step_row_of:
  assumes "keyed key (rows s)" and "step s s'" and "row_of k s = Some r"
  shows "\<exists>r'. row_of k s' = Some r' \<and> lease_move limit (view r) (view r')"
proof -
  from row_of_SomeD [OF assms(3)] obtain r' where "r' \<in> set (rows s')" "key r' = k" "lease_move limit (view r) (view r')"
    using step_row [OF assms(1,2)] by blast
  with row_of_eq [OF step_keyed [OF assms(1,2)]] show ?thesis by auto
qed

lemma step_attempts:
  assumes "keyed key (rows s)" and "step s s'"
  shows "attempts_of k s' = attempts_of k s \<or> attempts_of k s' = attempts_of k s + 1 \<and> attempts_of k s < limit"
proof (cases "row_of k s")
  case None
  have "attempts_of k s' = 0"
  proof (cases "row_of k s'")
    case (Some r')
    then have "lease_fresh (view r')"
      using step_new [OF assms, of r'] row_of_SomeD [OF Some] None by (auto simp: row_of_None)
    with Some show ?thesis by (simp add: attempts_of_def lease_fresh_def)
  qed (simp add: attempts_of_def)
  with None show ?thesis by (simp add: attempts_of_def)
next
  case (Some r)
  with step_row_of [OF assms Some] show ?thesis by (auto simp: attempts_of_def lease_move_def)
qed

lemma attempts_within: "within s \<Longrightarrow> 0 \<le> attempts_of k s \<and> attempts_of k s \<le> limit"
  using limit_nonneg by (auto simp: attempts_of_def within_def dest: row_of_SomeD split: option.split)

lemma step_within:
  assumes "within s" and "step s s'"
  shows "within s'"
proof -
  have k: "keyed key (rows s)" using assms(1) by (simp add: within_def)
  have "0 \<le> lv_attempts (view r') \<and> lv_attempts (view r') \<le> limit" if r': "r' \<in> set (rows s')" for r'
  proof -
    have "attempts_of (key r') s' = lv_attempts (view r')"
      using row_of_eq [OF step_keyed [OF k assms(2)] r'] by (simp add: attempts_of_def)
    moreover have "0 \<le> attempts_of (key r') s \<and> attempts_of (key r') s \<le> limit"
      using assms(1) by (rule attempts_within)
    ultimately show ?thesis using step_attempts [OF k assms(2), of "key r'"] by auto
  qed
  with step_keyed [OF k assms(2)] show ?thesis by (simp add: within_def)
qed

lemma claims_count:
  assumes "within s" and "successively step (s # ss)"
  shows "attempts_of k (last (s # ss)) = attempts_of k s + int (claims (attempts_of k) (s # ss)) \<and> within (last (s # ss))"
  using assms
proof (induction ss arbitrary: s)
  case (Cons s' ss)
  then have s': "step s s'" "within s'" using step_within by auto
  with Cons have "attempts_of k (last (s' # ss)) = attempts_of k s' + int (claims (attempts_of k) (s' # ss)) \<and> within (last (s' # ss))"
    by simp
  moreover have "attempts_of k s' = attempts_of k s \<or> attempts_of k s' = attempts_of k s + 1"
    using step_attempts [of s s' k] s' Cons.prems(1) by (auto simp: within_def)
  ultimately show ?case by auto
qed simp

lemma claims_bounded:
  assumes "within s" and "successively step (s # ss)"
  shows "int (claims (attempts_of k) (s # ss)) \<le> limit"
proof -
  note count = claims_count [OF assms, of k]
  with attempts_within [of "last (s # ss)" k] attempts_within [OF assms(1), of k] show ?thesis by linarith
qed

lemma closed_forever:
  assumes "successively step (s # ss)" and "keyed key (rows s)" and "row_of k s = Some r" and "lv_closed (view r)"
  shows "\<exists>r'. row_of k (last (s # ss)) = Some r' \<and> view r' = view r"
  using assms
proof (induction ss arbitrary: s r)
  case (Cons s' ss)
  then have st: "step s s'" by simp
  then obtain r' where r': "row_of k s' = Some r'" "view r' = view r"
    using step_row_of [of s s' k r] Cons.prems(2-4) by (auto simp: lease_move_def)
  have "\<exists>r''. row_of k (last (s' # ss)) = Some r'' \<and> view r'' = view r'"
    by (rule Cons.IH [OF _ step_keyed [OF Cons.prems(2) st] r'(1)]) (use Cons.prems(1,4) r'(2) in simp_all)
  with r'(2) show ?case by simp
qed simp

end

end
