(* ===== verification/Processing_Store.thy ===== *)
theory Processing_Store
  imports Files_Model Operations_Gate Lease_Protocol
begin

text \<open>
  \<^verbatim>\<open>internal/processing/postgres_store.go\<close>: the queue of file-processing jobs and the
  registry of derived artifacts, as transactions on the tables of \<open>files_db\<close>. Two clocks
  meet here: \<open>LeaseNext\<close> compares leases with the worker's clock \<open>now\<close>, every other
  method with the database's \<open>dbnow\<close>. \<open>busy\<close> names the rows another transaction has
  locked (\<^verbatim>\<open>SKIP LOCKED\<close>).
\<close>

section \<open>Data\<close>

datatype processing_error = ErrNoJob | ErrLeaseLost | ErrProcessing string | ErrProcessingDriver | ErrProcessingNoRows

definition MaxAttempts :: int where "MaxAttempts = 4"
definition MaxAITextBytes :: int where "MaxAITextBytes = 2 * 1024 * 1024"

record Job =
  jb_ID :: uuid
  jb_FileVersionID :: uuid
  jb_Kind :: string
  jb_State :: JobState
  jb_Attempts :: int
  jb_LeaseOwner :: string
  jb_LeaseUntil :: time

record PreviewResult =
  pr_Kind :: string
  pr_ObjectKey :: string
  pr_ContentType :: string
  pr_Size :: int
  pr_SHA256 :: string

record Result =
  rs_DetectedMIME :: string
  rs_ScanResult :: string
  rs_BrowserPlayable :: bool
  rs_VideoContainer :: string
  rs_VideoCodec :: string
  rs_VideoDurationMS :: "int option"
  rs_VideoWidth :: "int option"
  rs_VideoHeight :: "int option"
  rs_Preview :: "PreviewResult option"
  rs_AIText :: "PreviewResult option"

record Failure =
  fl_Category :: string
  fl_Permanent :: bool
  fl_Rejected :: bool
  fl_RetryAt :: time

record SourceFile =
  sf_VersionID :: uuid
  sf_ObjectKey :: string
  sf_DisplayName :: string
  sf_DeclaredMIME :: string
  sf_Size :: int
  sf_SHA256 :: string
  sf_Purpose :: UploadPurpose

record ProcessingArtifact =
  pa_FileVersionID :: uuid
  pa_ProcessingJobID :: uuid
  pa_AttemptNo :: int
  pa_Kind :: string
  pa_ObjectKey :: string
  pa_ContentType :: string
  pa_Size :: int
  pa_SHA256 :: string

text \<open>\<^verbatim>\<open>^[a-z][a-z0-9_]{0,63}$\<close>\<close>

definition stableCategory :: "string \<Rightarrow> bool" where
  "stableCategory s = (case s of [] \<Rightarrow> False
     | c # cs \<Rightarrow> 97 \<le> byte c \<and> byte c \<le> 122 \<and> length cs \<le> 63 \<and>
         list_all (\<lambda>d. (97 \<le> byte d \<and> byte d \<le> 122) \<or> (48 \<le> byte d \<and> byte d \<le> 57) \<or> byte d = 95) cs)"

section \<open>Sources and artifacts\<close>

definition LoadSource :: "bool \<Rightarrow> uuid \<Rightarrow> files_db \<Rightarrow> processing_error + SourceFile" where
  "LoadSource fault vid db =
     (if fault then Inl ErrProcessingDriver
      else case find (\<lambda>fv. fv_id fv = vid) (file_versions db) of
        None \<Rightarrow> Inl ErrProcessingNoRows
      | Some fv \<Rightarrow> Inr \<lparr>sf_VersionID = fv_id fv, sf_ObjectKey = fv_object_key fv, sf_DisplayName = fv_display_name fv,
          sf_DeclaredMIME = fv_declared_mime fv, sf_Size = fv_size_bytes fv, sf_SHA256 = fv_sha256 fv,
          sf_Purpose = fv_purpose fv\<rparr>)"

text \<open>The insert selects from the job row, so it happens only while that attempt is running;
  a second artifact with the same object key, or of the same kind in the same attempt,
  violates the unique constraints of the registry.\<close>

definition ReserveArtifact ::
  "bool \<Rightarrow> time \<Rightarrow> ProcessingArtifact \<Rightarrow> files_db \<Rightarrow> processing_error option \<times> files_db" where
  "ReserveArtifact fault dbnow a db =
     (if pa_FileVersionID a = uuid_Nil \<or> pa_ProcessingJobID a = uuid_Nil \<or> pa_AttemptNo a < 1 \<or>
         pa_AttemptNo a > MaxAttempts \<or> pa_Kind a = [] \<or> pa_ObjectKey a = [] \<or> pa_ContentType a = [] \<or>
         pa_Size a < 1 \<or> length (pa_SHA256 a) \<noteq> 64
      then (Some (ErrProcessing ''invalid processing artifact''), db)
      else if fault then (Some ErrProcessingDriver, db)
      else if rows_affected (\<lambda>j. j_id j = pa_ProcessingJobID a \<and> j_file_version_id j = pa_FileVersionID a \<and>
                j_state j = StateRunning \<and> j_attempts j = pa_AttemptNo a) (file_processing_jobs db) \<noteq> 1
      then (Some ErrLeaseLost, db)
      else if list_ex (\<lambda>x. a_object_key x = pa_ObjectKey a \<or> (a_processing_job_id x = pa_ProcessingJobID a \<and>
                a_attempt_no x = pa_AttemptNo a \<and> a_artifact_kind x = pa_Kind a)) (file_processing_artifacts db)
      then (Some ErrProcessingDriver, db)
      else (None, db\<lparr>file_processing_artifacts := file_processing_artifacts db @
              [\<lparr>a_file_version_id = pa_FileVersionID a, a_processing_job_id = pa_ProcessingJobID a,
                a_attempt_no = pa_AttemptNo a, a_artifact_kind = pa_Kind a, a_object_key = pa_ObjectKey a,
                a_content_type = pa_ContentType a, a_size_bytes = pa_Size a, a_sha256 = pa_SHA256 a,
                a_state = ArtifactReserved, a_cleanup_lease_owner = None, a_cleanup_lease_until = None,
                a_updated_at = dbnow\<rparr>]\<rparr>))"

definition transitionArtifact ::
  "bool \<Rightarrow> time \<Rightarrow> string \<Rightarrow> ArtifactState \<Rightarrow> files_db \<Rightarrow> processing_error option \<times> files_db" where
  "transitionArtifact fault dbnow key target db =
     (if key = [] \<or> (target \<noteq> ArtifactStored \<and> target \<noteq> ArtifactDeletePending)
      then (Some (ErrProcessing ''invalid processing artifact transition''), db)
      else if fault then (Some ErrProcessingDriver, db)
      else (let p = (if target = ArtifactStored
                     then (\<lambda>a. a_object_key a = key \<and> a_state a = ArtifactReserved \<and> a_cleanup_lease_owner a = None)
                     else (\<lambda>a. a_object_key a = key));
                f = (if target = ArtifactStored
                     then (\<lambda>a. a\<lparr>a_state := ArtifactStored, a_updated_at := dbnow\<rparr>)
                     else (\<lambda>a. a\<lparr>a_state := ArtifactDeletePending, a_cleanup_lease_owner := None,
                                a_cleanup_lease_until := None, a_updated_at := dbnow\<rparr>));
                db' = db\<lparr>file_processing_artifacts := update_where p f (file_processing_artifacts db)\<rparr>
            in if rows_affected p (file_processing_artifacts db) \<noteq> 1
               then (Some (ErrProcessing ''processing artifact transition conflict''), db')
               else (None, db')))"

definition MarkArtifactStored :: "bool \<Rightarrow> time \<Rightarrow> string \<Rightarrow> files_db \<Rightarrow> processing_error option \<times> files_db" where
  "MarkArtifactStored fault dbnow key = transitionArtifact fault dbnow key ArtifactStored"

definition MarkArtifactDeletePending :: "bool \<Rightarrow> time \<Rightarrow> string \<Rightarrow> files_db \<Rightarrow> processing_error option \<times> files_db" where
  "MarkArtifactDeletePending fault dbnow key = transitionArtifact fault dbnow key ArtifactDeletePending"

definition ForgetArtifact :: "bool \<Rightarrow> string \<Rightarrow> files_db \<Rightarrow> processing_error option \<times> files_db" where
  "ForgetArtifact fault key db =
     (if key = [] then (Some (ErrProcessing ''invalid processing artifact forget''), db)
      else if fault then (Some ErrProcessingDriver, db)
      else (let p = (\<lambda>a. a_object_key a = key \<and> a_state a = ArtifactDeletePending \<and> a_cleanup_lease_owner a = None);
                db' = db\<lparr>file_processing_artifacts := delete_where p (file_processing_artifacts db)\<rparr>
            in if rows_affected p (file_processing_artifacts db) \<noteq> 1
               then (Some (ErrProcessing ''processing artifact forget conflict''), db')
               else (None, db')))"

section \<open>Leasing\<close>

definition lease_before :: "job_row \<Rightarrow> time \<Rightarrow> bool" where
  "lease_before j t = (case j_lease_until j of None \<Rightarrow> False | Some u \<Rightarrow> u < t)"

definition exhausted :: "(uuid \<Rightarrow> bool) \<Rightarrow> time \<Rightarrow> job_row \<Rightarrow> bool" where
  "exhausted busy now j \<longleftrightarrow> j_state j = StateRunning \<and> lease_before j now \<and> j_attempts j \<ge> 4 \<and> \<not> busy (j_id j)"

definition claimable_job :: "(uuid \<Rightarrow> bool) \<Rightarrow> time \<Rightarrow> job_row \<Rightarrow> bool" where
  "claimable_job busy now j \<longleftrightarrow> j_attempts j < 4 \<and> j_available_at j \<le> now \<and>
     (j_state j = StateQueued \<or> (j_state j = StateRunning \<and> lease_before j now)) \<and> \<not> busy (j_id j)"

definition close_job :: "JobState \<Rightarrow> string option \<Rightarrow> time \<Rightarrow> job_row \<Rightarrow> job_row" where
  "close_job st category t j = j\<lparr>j_state := st, j_lease_owner := None, j_lease_until := None,
     j_last_failure_category := category, j_updated_at := t\<rparr>"

definition exhaust :: "(uuid \<Rightarrow> bool) \<Rightarrow> time \<Rightarrow> files_db \<Rightarrow> files_db" where
  "exhaust busy now db =
     (let versions = map j_file_version_id (filter (exhausted busy now) (file_processing_jobs db))
      in db\<lparr>file_versions := update_where (\<lambda>fv. fv_id fv \<in> set versions)
              (\<lambda>fv. fv\<lparr>fv_processing_state := Failed, fv_failure_category := Some ''lease_expired''\<rparr>) (file_versions db),
            file_processing_jobs := update_where (exhausted busy now)
              (close_job StateFailed (Some ''lease_expired'') now) (file_processing_jobs db)\<rparr>)"

definition claim_job :: "string \<Rightarrow> time \<Rightarrow> duration \<Rightarrow> job_row \<Rightarrow> job_row" where
  "claim_job owner now dur j = j\<lparr>j_state := StateRunning, j_attempts := j_attempts j + 1, j_lease_owner := Some owner,
     j_lease_until := Some (now + dur), j_updated_at := now\<rparr>"

definition claimable_version :: "uuid \<Rightarrow> file_version \<Rightarrow> bool" where
  "claimable_version vid fv \<longleftrightarrow> fv_id fv = vid \<and>
     (fv_processing_state fv = Pending_scan \<or> fv_processing_state fv = Processing \<or> fv_processing_state fv = Failed)"

definition claim :: "string \<Rightarrow> time \<Rightarrow> duration \<Rightarrow> job_row \<Rightarrow> files_db \<Rightarrow> files_db" where
  "claim owner now dur c db =
     db\<lparr>file_versions := update_where (claimable_version (j_file_version_id c))
          (\<lambda>fv. fv\<lparr>fv_processing_state := Processing, fv_failure_category := None\<rparr>) (file_versions db),
        file_processing_jobs := update_where (\<lambda>j. j_id j = j_id c) (claim_job owner now dur) (file_processing_jobs db)\<rparr>"

definition job_of :: "string \<Rightarrow> time \<Rightarrow> job_row \<Rightarrow> Job" where
  "job_of owner until j = \<lparr>jb_ID = j_id j, jb_FileVersionID = j_file_version_id j, jb_Kind = j_kind j,
     jb_State = StateRunning, jb_Attempts = j_attempts j + 1, jb_LeaseOwner = owner, jb_LeaseUntil = until\<rparr>"

definition LeaseNext ::
  "bool \<Rightarrow> admission \<Rightarrow> (uuid \<Rightarrow> bool) \<Rightarrow> string \<Rightarrow> time \<Rightarrow> duration \<Rightarrow> files_db \<Rightarrow> (processing_error + Job) \<times> files_db" where
  "LeaseNext fault adm busy owner now dur db =
     (if owner = [] \<or> length owner > 128 \<or> dur \<le> 0 then (Inl (ErrProcessing ''invalid lease request''), db)
      else transact fault ErrProcessingDriver (\<lambda>db.
        case AdmitClaim adm of
          Some ErrLeaseHeld \<Rightarrow> Inl ErrNoJob
        | Some ErrConflict \<Rightarrow> Inl (ErrProcessing ''operations conflict'')
        | Some OpsDriver \<Rightarrow> Inl ErrProcessingDriver
        | None \<Rightarrow>
            (let db1 = exhaust busy now db
             in case sort_key (\<lambda>j. (j_available_at j, j_created_at j, j_id j))
                       (filter (claimable_job busy now) (file_processing_jobs db1)) of
                  [] \<Rightarrow> Inl ErrNoJob
                | c # _ \<Rightarrow>
                    if rows_affected (claimable_version (j_file_version_id c)) (file_versions db1) \<noteq> 1
                    then Inl (ErrProcessing ''processing file version is not claimable'')
                    else Inr (job_of owner (now + dur) c, claim owner now dur c db1))) db)"

section \<open>Holding and ending a lease\<close>

definition lease_after :: "job_row \<Rightarrow> time \<Rightarrow> bool" where
  "lease_after j t = (case j_lease_until j of None \<Rightarrow> False | Some u \<Rightarrow> u > t)"

definition held_by :: "string \<Rightarrow> time \<Rightarrow> job_row \<Rightarrow> bool" where
  "held_by owner dbnow j \<longleftrightarrow> j_state j = StateRunning \<and> j_lease_owner j = Some owner \<and> lease_after j dbnow"

definition Heartbeat ::
  "bool \<Rightarrow> time \<Rightarrow> uuid \<Rightarrow> string \<Rightarrow> time \<Rightarrow> files_db \<Rightarrow> processing_error option \<times> files_db" where
  "Heartbeat fault dbnow jid owner leaseUntil db =
     (if jid = uuid_Nil \<or> owner = [] \<or> leaseUntil = time_zero then (Some (ErrProcessing ''invalid heartbeat''), db)
      else if fault then (Some ErrProcessingDriver, db)
      else (let p = (\<lambda>j. j_id j = jid \<and> held_by owner dbnow j \<and> leaseUntil > dbnow);
                db' = db\<lparr>file_processing_jobs := update_where p
                          (\<lambda>j. j\<lparr>j_lease_until := Some leaseUntil, j_updated_at := dbnow\<rparr>) (file_processing_jobs db)\<rparr>
            in if rows_affected p (file_processing_jobs db) \<noteq> 1 then (Some ErrLeaseLost, db') else (None, db')))"

definition isImage :: "string \<Rightarrow> bool" where
  "isImage mime \<longleftrightarrow> mime = ''image/jpeg'' \<or> mime = ''image/png'' \<or> mime = ''image/webp'' \<or> mime = ''image/gif''"

definition isAIText :: "string \<Rightarrow> bool" where
  "isAIText mime \<longleftrightarrow> mime = ''application/pdf'' \<or>
     mime = ''application/vnd.openxmlformats-officedocument.wordprocessingml.document'' \<or>
     mime = ''text/plain'' \<or> mime = ''text/markdown''"

definition nullif_empty :: "string \<Rightarrow> string option" where
  "nullif_empty s = (if s = [] then None else Some s)"

definition ready_version :: "Result \<Rightarrow> file_version \<Rightarrow> file_version" where
  "ready_version r fv = fv\<lparr>fv_processing_state := Ready, fv_detected_mime := Some (rs_DetectedMIME r),
     fv_scan_result := Some (rs_ScanResult r), fv_browser_playable := rs_BrowserPlayable r,
     fv_video_container := nullif_empty (rs_VideoContainer r), fv_video_codec := nullif_empty (rs_VideoCodec r),
     fv_video_duration_ms := rs_VideoDurationMS r, fv_video_width := rs_VideoWidth r,
     fv_video_height := rs_VideoHeight r, fv_failure_category := None\<rparr>"

text \<open>\<^verbatim>\<open>INSERT ... ON CONFLICT(file_version_id,preview_kind) DO UPDATE\<close>\<close>

definition upsert_preview :: "uuid \<Rightarrow> PreviewResult \<Rightarrow> preview_row list \<Rightarrow> preview_row list" where
  "upsert_preview vid p rows =
     (let row = \<lparr>fp_file_version_id = vid, fp_preview_kind = pr_Kind p, fp_object_key = pr_ObjectKey p,
                 fp_content_type = pr_ContentType p, fp_size_bytes = pr_Size p, fp_sha256 = pr_SHA256 p,
                 fp_processing_state = ''ready''\<rparr>;
          same = (\<lambda>x. fp_file_version_id x = vid \<and> fp_preview_kind x = pr_Kind p)
      in if list_ex same rows then update_where same (\<lambda>_. row) rows else rows @ [row])"

definition published_artifact :: "Job \<Rightarrow> PreviewResult \<Rightarrow> artifact_row \<Rightarrow> bool" where
  "published_artifact job p a \<longleftrightarrow> a_processing_job_id a = jb_ID job \<and> a_file_version_id a = jb_FileVersionID job \<and>
     a_attempt_no a = jb_Attempts job \<and> a_state a = ArtifactStored \<and> a_artifact_kind a = pr_Kind p \<and>
     a_object_key a = pr_ObjectKey p \<and> a_content_type a = pr_ContentType p \<and> a_size_bytes a = pr_Size p \<and>
     a_sha256 a = pr_SHA256 p"

fun publish_artifacts :: "Job \<Rightarrow> PreviewResult list \<Rightarrow> artifact_row list \<Rightarrow> artifact_row list option" where
  "publish_artifacts job [] rows = Some rows"
| "publish_artifacts job (p # ps) rows =
     (if rows_affected (published_artifact job p) rows \<noteq> 1 then None
      else publish_artifacts job ps (delete_where (published_artifact job p) rows))"

definition valid_preview :: "PreviewResult \<Rightarrow> bool" where
  "valid_preview p \<longleftrightarrow> pr_Kind p \<noteq> [] \<and> pr_ObjectKey p \<noteq> [] \<and> pr_ContentType p \<noteq> [] \<and> pr_Size p \<ge> 1 \<and> pr_SHA256 p \<noteq> []"

definition valid_ai_text :: "PreviewResult \<Rightarrow> bool" where
  "valid_ai_text p \<longleftrightarrow> pr_Kind p = ''ai_text'' \<and> pr_ObjectKey p \<noteq> [] \<and>
     pr_ContentType p = ''text/plain; charset=utf-8'' \<and> pr_Size p \<ge> 1 \<and> pr_Size p \<le> MaxAITextBytes \<and> pr_SHA256 p \<noteq> []"

definition option_list :: "'a option \<Rightarrow> 'a list" where
  "option_list m = (case m of None \<Rightarrow> [] | Some x \<Rightarrow> [x])"

definition Complete_job ::
  "bool \<Rightarrow> time \<Rightarrow> Job \<Rightarrow> Result \<Rightarrow> files_db \<Rightarrow> (processing_error + unit) \<times> files_db" where
  "Complete_job fault dbnow job r db =
     (if jb_ID job = uuid_Nil \<or> jb_FileVersionID job = uuid_Nil \<or> jb_LeaseOwner job = [] \<or>
         rs_DetectedMIME r = [] \<or> rs_ScanResult r \<noteq> ''clean''
      then (Inl (ErrProcessing ''invalid completion''), db)
      else transact fault ErrProcessingDriver (\<lambda>db.
        case find (\<lambda>j. j_id j = jb_ID job \<and> held_by (jb_LeaseOwner job) dbnow j) (file_processing_jobs db) of
          None \<Rightarrow> Inl ErrLeaseLost
        | Some j \<Rightarrow>
        (case find (\<lambda>fv. fv_id fv = j_file_version_id j) (file_versions db) of
          None \<Rightarrow> Inl ErrLeaseLost
        | Some fv \<Rightarrow>
            (let ai = (fv_purpose fv = UploadPurposeAI); mime = rs_DetectedMIME r
             in if j_file_version_id j \<noteq> jb_FileVersionID job then Inl ErrLeaseLost
                else if ai \<and> ((\<not> isImage mime \<and> \<not> isAIText mime) \<or> (isAIText mime \<and> rs_AIText r = None) \<or>
                          (isImage mime \<and> rs_AIText r \<noteq> None))
                then Inl (ErrProcessing ''invalid ai attachment completion'')
                else if \<not> ai \<and> rs_AIText r \<noteq> None then Inl (ErrProcessing ''unexpected ai text completion'')
                else if \<not> list_all valid_preview (option_list (rs_Preview r))
                then Inl (ErrProcessing ''invalid preview completion'')
                else if \<not> list_all valid_ai_text (option_list (rs_AIText r))
                then Inl (ErrProcessing ''invalid ai text completion'')
                else case (if ai then publish_artifacts job (option_list (rs_AIText r) @ option_list (rs_Preview r))
                                        (file_processing_artifacts db)
                           else Some (file_processing_artifacts db)) of
                  None \<Rightarrow> Inl (ErrProcessing ''processing artifact publication conflict'')
                | Some artifacts \<Rightarrow>
                    Inr ((), db\<lparr>file_versions := update_where (\<lambda>fv. fv_id fv = jb_FileVersionID job) (ready_version r) (file_versions db),
                               file_processing_jobs := update_where (\<lambda>j. j_id j = jb_ID job)
                                 (close_job StateCompleted None dbnow) (file_processing_jobs db),
                               file_previews := fold (upsert_preview (jb_FileVersionID job))
                                 (option_list (rs_Preview r) @ option_list (rs_AIText r)) (file_previews db),
                               file_processing_artifacts := artifacts\<rparr>)))) db)"

definition Fail_job ::
  "bool \<Rightarrow> time \<Rightarrow> Job \<Rightarrow> Failure \<Rightarrow> files_db \<Rightarrow> (processing_error + unit) \<times> files_db" where
  "Fail_job fault dbnow job failure db =
     (if jb_ID job = uuid_Nil \<or> jb_FileVersionID job = uuid_Nil \<or> jb_LeaseOwner job = [] \<or>
         \<not> stableCategory (fl_Category failure) \<or> (\<not> fl_Permanent failure \<and> fl_RetryAt failure = time_zero)
      then (Inl (ErrProcessing ''invalid failure''), db)
      else transact fault ErrProcessingDriver (\<lambda>db.
        case find (\<lambda>j. j_id j = jb_ID job \<and> held_by (jb_LeaseOwner job) dbnow j) (file_processing_jobs db) of
          None \<Rightarrow> Inl ErrLeaseLost
        | Some j \<Rightarrow>
            if j_file_version_id j \<noteq> jb_FileVersionID job then Inl ErrLeaseLost
            else if fl_Permanent failure \<or> jb_Attempts job \<ge> MaxAttempts
            then Inr ((), db\<lparr>file_versions := update_where (\<lambda>fv. fv_id fv = jb_FileVersionID job)
                        (\<lambda>fv. fv\<lparr>fv_processing_state := (if fl_Rejected failure then Rejected else Failed),
                                fv_scan_result := (if fl_Rejected failure then Some ''rejected'' else fv_scan_result fv),
                                fv_failure_category := Some (fl_Category failure)\<rparr>) (file_versions db),
                      file_processing_jobs := update_where (\<lambda>j. j_id j = jb_ID job)
                        (close_job StateFailed (Some (fl_Category failure)) dbnow) (file_processing_jobs db)\<rparr>)
            else Inr ((), db\<lparr>file_versions := update_where (\<lambda>fv. fv_id fv = jb_FileVersionID job)
                        (\<lambda>fv. fv\<lparr>fv_processing_state := Pending_scan,
                                fv_failure_category := Some (fl_Category failure)\<rparr>) (file_versions db),
                      file_processing_jobs := update_where (\<lambda>j. j_id j = jb_ID job)
                        (\<lambda>j. (close_job StateQueued (Some (fl_Category failure)) dbnow j)\<lparr>j_available_at := fl_RetryAt failure\<rparr>)
                        (file_processing_jobs db)\<rparr>)) db)"

end
