(* ===== verification/Processing_Machine.thy ===== *)
theory Processing_Machine
  imports Processing_Store Upload_Machine
begin

text \<open>
  Executions of the processing queue. \<open>processing_step\<close> has one rule per transaction of any
  worker and one for the steps of the upload store, whose completions enqueue the jobs; \<open>jobs_inv\<close> ties jobs and
  file versions together and holds in every reachable state. The jobs of the queue are an
  instance of the lease protocol.
\<close>

section \<open>The invariant\<close>

definition active :: "job_row \<Rightarrow> bool" where
  "active j \<longleftrightarrow> j_state j = StateQueued \<or> j_state j = StateRunning"

definition job_ok :: "job_row \<Rightarrow> bool" where
  "job_ok j \<longleftrightarrow> (j_state j = StateRunning \<longleftrightarrow> j_lease_owner j \<noteq> None) \<and>
     (j_lease_owner j = None \<longleftrightarrow> j_lease_until j = None) \<and> 0 \<le> j_attempts j \<and> j_attempts j \<le> 4 \<and>
     (j_state j = StateQueued \<longrightarrow> j_attempts j < 4)"

text \<open>The state of a version while its job is waiting or running.\<close>

definition version_of_job :: "job_row \<Rightarrow> file_version \<Rightarrow> bool" where
  "version_of_job j fv \<longleftrightarrow> fv_id fv = j_file_version_id j \<and>
     fv_processing_state fv = (if j_state j = StateQueued then Pending_scan else Processing)"

definition jobs_inv :: "files_db \<Rightarrow> bool" where
  "jobs_inv db \<longleftrightarrow> keyed j_id (file_processing_jobs db) \<and> keyed fv_id (file_versions db) \<and>
     (\<forall>j \<in> set (file_processing_jobs db). job_ok j) \<and>
     (\<forall>j \<in> set (file_processing_jobs db). \<exists>fv \<in> set (file_versions db). fv_id fv = j_file_version_id j) \<and>
     (\<forall>j \<in> set (file_processing_jobs db). active j \<longrightarrow> (\<exists>fv \<in> set (file_versions db). version_of_job j fv)) \<and>
     (\<forall>j \<in> set (file_processing_jobs db). \<forall>k \<in> set (file_processing_jobs db).
        active j \<and> active k \<and> j_file_version_id j = j_file_version_id k \<longrightarrow> j = k)"

lemma jobs_inv_empty: "jobs_inv empty_files_db"
  by (simp add: jobs_inv_def empty_files_db_def keyed_def)

section \<open>Updating one job and its version\<close>

text \<open>Every transaction rewrites some jobs and the versions of exactly those jobs. The invariant
  survives when each rewritten job keeps its identity and stays well formed, and the
  rewritten versions agree with it.\<close>

lemma jobs_inv_rewrite:
  assumes inv: "jobs_inv db"
    and jobs: "file_processing_jobs db' = update_where p f (file_processing_jobs db)"
    and vers: "file_versions db' = update_where q g (file_versions db)"
    and same: "\<And>j. j_id (f j) = j_id j \<and> j_file_version_id (f j) = j_file_version_id j" "\<And>fv. fv_id (g fv) = fv_id fv"
    and ok: "\<And>j. j \<in> set (file_processing_jobs db) \<Longrightarrow> p j \<Longrightarrow> job_ok (f j)"
    and act: "\<And>j. j \<in> set (file_processing_jobs db) \<Longrightarrow> p j \<Longrightarrow> active j"
    and hit: "\<And>fv. fv \<in> set (file_versions db) \<Longrightarrow> q fv \<Longrightarrow> \<exists>j \<in> set (file_processing_jobs db). p j \<and> j_file_version_id j = fv_id fv"
    and agree: "\<And>j fv. j \<in> set (file_processing_jobs db) \<Longrightarrow> p j \<Longrightarrow> active (f j) \<Longrightarrow> fv \<in> set (file_versions db) \<Longrightarrow>
        version_of_job j fv \<Longrightarrow> version_of_job (f j) (if q fv then g fv else fv)"
  shows "jobs_inv db'"
proof -
  let ?F = "\<lambda>j. if p j then f j else j" and ?G = "\<lambda>fv. if q fv then g fv else fv"
  have J: "set (file_processing_jobs db') = ?F ` set (file_processing_jobs db)"
    and V: "set (file_versions db') = ?G ` set (file_versions db)"
    by (simp_all add: jobs vers set_update_where)
  have F: "j_id (?F j) = j_id j" "j_file_version_id (?F j) = j_file_version_id j" for j using same(1) by auto
  have G: "fv_id (?G fv) = fv_id fv" for fv using same(2) by auto
  have origin: "active (?F j) \<Longrightarrow> j \<in> set (file_processing_jobs db) \<Longrightarrow> active j" for j
    using act by (auto split: if_splits)
  have "keyed j_id (file_processing_jobs db')" "keyed fv_id (file_versions db')"
    using inv same by (simp_all add: jobs vers jobs_inv_def keyed_update_where)
  moreover have "\<forall>j \<in> set (file_processing_jobs db'). job_ok j"
    using inv ok unfolding J by (auto simp: jobs_inv_def)
  moreover have "\<forall>j \<in> set (file_processing_jobs db'). \<exists>fv \<in> set (file_versions db'). fv_id fv = j_file_version_id j"
    unfolding J V ball_simps bex_simps F G using inv by (simp add: jobs_inv_def)
  moreover have "\<forall>j \<in> set (file_processing_jobs db'). \<forall>k \<in> set (file_processing_jobs db').
      active j \<and> active k \<and> j_file_version_id j = j_file_version_id k \<longrightarrow> j = k"
    unfolding J ball_simps F using inv origin unfolding jobs_inv_def by metis
  moreover have "\<exists>fv \<in> set (file_versions db'). version_of_job (?F j) fv"
    if j: "j \<in> set (file_processing_jobs db)" "active (?F j)" for j
  proof -
    obtain fv where fv: "fv \<in> set (file_versions db)" "version_of_job j fv"
      using inv origin [OF j(2,1)] j(1) by (auto simp: jobs_inv_def)
    have "version_of_job (?F j) (?G fv)"
    proof (cases "p j")
      case True
      with agree [OF j(1) True _ fv] j(2) show ?thesis by simp
    next
      case False
      have "\<not> q fv"
      proof
        assume "q fv"
        with hit fv obtain k where k: "k \<in> set (file_processing_jobs db)" "p k" "j_file_version_id k = fv_id fv" by blast
        with act fv(2) inv j False have "j = k"
          unfolding jobs_inv_def version_of_job_def by (metis origin)
        with False k show False by simp
      qed
      with False fv show ?thesis by simp
    qed
    with fv(1) show ?thesis unfolding V by blast
  qed
  then have "\<forall>j \<in> set (file_processing_jobs db'). active j \<longrightarrow> (\<exists>fv \<in> set (file_versions db'). version_of_job j fv)"
    unfolding J by blast
  ultimately show ?thesis unfolding jobs_inv_def by blast
qed

section \<open>Every transaction keeps the invariant\<close>

lemma job_by_id: "jobs_inv db \<Longrightarrow> j \<in> set (file_processing_jobs db) \<Longrightarrow> k \<in> set (file_processing_jobs db) \<Longrightarrow>
    j_id j = j_id k \<Longrightarrow> j = k"
  unfolding jobs_inv_def by (blast dest: keyed_inj)

lemma job_okD: "jobs_inv db \<Longrightarrow> j \<in> set (file_processing_jobs db) \<Longrightarrow> job_ok j"
  by (simp add: jobs_inv_def)

lemma close_job_ok: "job_ok j \<Longrightarrow> st = StateCompleted \<or> st = StateFailed \<or> (st = StateQueued \<and> j_attempts j < 4) \<Longrightarrow>
    job_ok (close_job st category t j)"
  by (auto simp: job_ok_def close_job_def)

lemma close_job_simps [simp]: "j_id (close_job st category t j) = j_id j"
  "j_file_version_id (close_job st category t j) = j_file_version_id j" "j_state (close_job st category t j) = st"
  "j_attempts (close_job st category t j) = j_attempts j" "j_lease_owner (close_job st category t j) = None"
  by (simp_all add: close_job_def)

lemma claim_job_simps [simp]: "j_id (claim_job owner now dur j) = j_id j"
  "j_file_version_id (claim_job owner now dur j) = j_file_version_id j" "j_state (claim_job owner now dur j) = StateRunning"
  "j_attempts (claim_job owner now dur j) = j_attempts j + 1" "j_lease_owner (claim_job owner now dur j) = Some owner"
  by (simp_all add: claim_job_def)

lemma exhaust_inv:
  assumes "jobs_inv db"
  shows "jobs_inv (exhaust busy now db)"
  by (rule jobs_inv_rewrite [OF assms, where p = "exhausted busy now" and f = "close_job StateFailed (Some ''lease_expired'') now"
      and q = "\<lambda>fv. fv_id fv \<in> set (map j_file_version_id (filter (exhausted busy now) (file_processing_jobs db)))"
      and g = "\<lambda>fv. fv\<lparr>fv_processing_state := Failed, fv_failure_category := Some ''lease_expired''\<rparr>"])
    (use job_okD [OF assms] in \<open>auto simp: exhaust_def Let_def close_job_ok active_def exhausted_def\<close>)

lemma claim_inv:
  assumes inv: "jobs_inv db" and c: "c \<in> set (file_processing_jobs db)" "claimable_job busy now c"
  shows "jobs_inv (claim owner now dur c db)"
proof (rule jobs_inv_rewrite [OF inv, where p = "\<lambda>j. j_id j = j_id c" and f = "claim_job owner now dur"
      and q = "claimable_version (j_file_version_id c)"
      and g = "\<lambda>fv. fv\<lparr>fv_processing_state := Processing, fv_failure_category := None\<rparr>"])
  fix j assume j: "j \<in> set (file_processing_jobs db)" "j_id j = j_id c"
  with job_by_id [OF inv] c have [simp]: "j = c" by blast
  show "job_ok (claim_job owner now dur j)"
    using job_okD [OF inv c(1)] c(2) by (auto simp: job_ok_def claimable_job_def claim_job_def)
  show "active j" using c(2) by (auto simp: claimable_job_def active_def)
  fix fv assume "version_of_job j fv"
  then show "version_of_job (claim_job owner now dur j) (if claimable_version (j_file_version_id c) fv
      then fv\<lparr>fv_processing_state := Processing, fv_failure_category := None\<rparr> else fv)"
    by (auto simp: version_of_job_def claimable_version_def split: if_splits)
qed (use c in \<open>auto simp: claim_def claimable_version_def\<close>)

lemmas jobs_tx = transact_invariant [where I = jobs_inv]

lemma sorted_candidate:
  assumes "sort_key k (filter p xs) = c # cs"
  shows "c \<in> set xs \<and> p c"
proof -
  have "c \<in> set (sort_key k (filter p xs))" using assms by simp
  then show ?thesis by simp
qed

lemma LeaseNext_inv:
  assumes "jobs_inv db"
  shows "jobs_inv (snd (LeaseNext fault adm busy owner now dur db))"
proof (cases "owner = [] \<or> length owner > 128 \<or> dur \<le> 0")
  case False
  show ?thesis
    unfolding LeaseNext_def if_not_P [OF False]
    by (rule jobs_tx [OF assms])
      (use exhaust_inv [OF assms] in \<open>auto simp: Let_def split: option.splits ops_error.splits list.splits if_splits
         dest!: sorted_candidate intro!: claim_inv\<close>)
qed (use assms in \<open>auto simp: LeaseNext_def\<close>)

lemma Heartbeat_inv:
  assumes "jobs_inv db"
  shows "jobs_inv (snd (Heartbeat fault dbnow jid owner leaseUntil db))"
proof -
  let ?p = "\<lambda>j. j_id j = jid \<and> held_by owner dbnow j \<and> leaseUntil > dbnow"
  let ?f = "\<lambda>j. j\<lparr>j_lease_until := Some leaseUntil, j_updated_at := dbnow\<rparr>"
  have "jobs_inv (db\<lparr>file_processing_jobs := update_where ?p ?f (file_processing_jobs db)\<rparr>)"
  proof (rule jobs_inv_rewrite [OF assms, where p = ?p and f = ?f and q = "\<lambda>_. False" and g = "\<lambda>fv. fv"])
    fix j assume j: "j \<in> set (file_processing_jobs db)" "?p j"
    then have run: "j_state j = StateRunning" by (simp add: held_by_def)
    then show "active j" by (simp add: active_def)
    show "job_ok (?f j)" using job_okD [OF assms j(1)] run by (auto simp: job_ok_def)
    fix fv assume "version_of_job j fv"
    then show "version_of_job (?f j) (if False then fv else fv)" by (simp add: version_of_job_def)
  qed (simp_all add: update_where_def)
  with assms show ?thesis by (simp add: Heartbeat_def Let_def)
qed

text \<open>Ending a lease: the found row is the only one with its identifier.\<close>

lemma end_lease_inv:
  assumes inv: "jobs_inv db" and j: "find (\<lambda>j. j_id j = jid \<and> held_by owner dbnow j) (file_processing_jobs db) = Some j"
    and vid: "j_file_version_id j = vid"
    and jobs: "file_processing_jobs db' = update_where (\<lambda>j. j_id j = jid) f (file_processing_jobs db)"
    and vers: "file_versions db' = update_where (\<lambda>fv. fv_id fv = vid) g (file_versions db)"
    and same: "\<And>j. j_id (f j) = j_id j \<and> j_file_version_id (f j) = j_file_version_id j" "\<And>fv. fv_id (g fv) = fv_id fv"
    and ok: "job_ok (f j)"
    and state: "\<And>fv. j_state (f j) = StateQueued \<and> fv_processing_state (g fv) = Pending_scan \<or>
      j_state (f j) = StateCompleted \<or> j_state (f j) = StateFailed"
  shows "jobs_inv db'"
proof -
  have mem: "j \<in> set (file_processing_jobs db)" "j_id j = jid" "held_by owner dbnow j"
    using find_SomeD [OF j] by auto
  have only: "k = j" if "k \<in> set (file_processing_jobs db)" "j_id k = jid" for k
    using job_by_id [OF inv that(1) mem(1)] that(2) mem(2) by simp
  show ?thesis
  proof (rule jobs_inv_rewrite [OF inv jobs vers same])
    fix fv assume "fv \<in> set (file_versions db)" "fv_id fv = vid"
    with mem vid show "\<exists>k \<in> set (file_processing_jobs db). j_id k = jid \<and> j_file_version_id k = fv_id fv"
      by (intro bexI [of _ j]) simp_all
  next
    fix k assume k: "k \<in> set (file_processing_jobs db)" "j_id k = jid"
    from only [OF k] have [simp]: "k = j" .
    show "job_ok (f k)" using ok by simp
    show "active k" using mem(3) by (simp add: held_by_def active_def)
    fix fv assume "active (f k)" "version_of_job k fv"
    with state [of fv] same vid show "version_of_job (f k) (if fv_id fv = vid then g fv else fv)"
      by (auto simp: active_def version_of_job_def)
  qed
qed

lemma Complete_job_inv:
  assumes "jobs_inv db"
  shows "jobs_inv (snd (Complete_job fault dbnow job r db))"
proof (cases "jb_ID job = uuid_Nil \<or> jb_FileVersionID job = uuid_Nil \<or> jb_LeaseOwner job = [] \<or>
         rs_DetectedMIME r = [] \<or> rs_ScanResult r \<noteq> ''clean''")
  case False
  show ?thesis
    unfolding Complete_job_def if_not_P [OF False]
  proof (rule jobs_tx [OF assms], goal_cases)
    case (1 x db')
    then obtain j where j: "find (\<lambda>j. j_id j = jb_ID job \<and> held_by (jb_LeaseOwner job) dbnow j) (file_processing_jobs db) = Some j"
      by (auto split: option.splits)
    have ok: "job_ok j" using job_okD [OF assms] find_SomeD [OF j] by blast
    from 1 j obtain fv where fv: "find (\<lambda>fv. fv_id fv = j_file_version_id j) (file_versions db) = Some fv"
      by (auto split: option.splits)
    note run = 1 [unfolded j fv option.case Let_def]
    show ?case
      by (rule end_lease_inv [OF assms j, of "jb_FileVersionID job" db' "close_job StateCompleted None dbnow" "ready_version r"])
        (use run ok in \<open>auto split: if_split_asm option.splits intro: close_job_ok simp: ready_version_def\<close>)
  qed
qed (use assms in \<open>auto simp: Complete_job_def\<close>)

text \<open>The worker passes the job as it was leased to it.\<close>

definition as_leased :: "Job \<Rightarrow> files_db \<Rightarrow> bool" where
  "as_leased job db \<longleftrightarrow> (\<forall>j \<in> set (file_processing_jobs db).
     j_id j = jb_ID job \<and> j_lease_owner j = Some (jb_LeaseOwner job) \<longrightarrow> j_attempts j = jb_Attempts job)"

lemma Fail_job_inv:
  assumes "jobs_inv db" and "as_leased job db"
  shows "jobs_inv (snd (Fail_job fault dbnow job failure db))"
proof (cases "jb_ID job = uuid_Nil \<or> jb_FileVersionID job = uuid_Nil \<or> jb_LeaseOwner job = [] \<or>
         \<not> stableCategory (fl_Category failure) \<or> (\<not> fl_Permanent failure \<and> fl_RetryAt failure = time_zero)")
  case False
  show ?thesis
    unfolding Fail_job_def if_not_P [OF False]
  proof (rule jobs_tx [OF assms(1)], goal_cases)
    case (1 x db')
    then obtain j where j: "find (\<lambda>j. j_id j = jb_ID job \<and> held_by (jb_LeaseOwner job) dbnow j) (file_processing_jobs db) = Some j"
      by (auto split: option.splits)
    have ok: "job_ok j" using job_okD [OF assms(1)] find_SomeD [OF j] by blast
    have att: "j_attempts j = jb_Attempts job"
      using find_SomeD [OF j] assms(2) by (auto simp: as_leased_def held_by_def)
    note run = 1 [unfolded j option.case]
    show ?case
    proof (cases "fl_Permanent failure \<or> jb_Attempts job \<ge> MaxAttempts")
      case True
      show ?thesis
        by (rule end_lease_inv [OF assms(1) j, where vid = "jb_FileVersionID job" and db' = db'
              and f = "close_job StateFailed (Some (fl_Category failure)) dbnow"
              and g = "\<lambda>fv. fv\<lparr>fv_processing_state := (if fl_Rejected failure then Rejected else Failed),
                 fv_scan_result := (if fl_Rejected failure then Some ''rejected'' else fv_scan_result fv),
                 fv_failure_category := Some (fl_Category failure)\<rparr>"])
          (use run True ok in \<open>auto split: if_split_asm intro: close_job_ok\<close>)
    next
      case False
      then have "job_ok ((close_job StateQueued (Some (fl_Category failure)) dbnow j)\<lparr>j_available_at := fl_RetryAt failure\<rparr>)"
        using ok att by (simp add: job_ok_def close_job_def MaxAttempts_def)
      with run False show ?thesis
        by (intro end_lease_inv [OF assms(1) j, where vid = "jb_FileVersionID job" and db' = db'
              and f = "\<lambda>j. (close_job StateQueued (Some (fl_Category failure)) dbnow j)\<lparr>j_available_at := fl_RetryAt failure\<rparr>"
              and g = "\<lambda>fv. fv\<lparr>fv_processing_state := Pending_scan, fv_failure_category := Some (fl_Category failure)\<rparr>"])
          (auto split: if_split_asm)
    qed
  qed
qed (use assms in \<open>auto simp: Fail_job_def\<close>)

lemma enqueue_inv:
  assumes inv: "jobs_inv db"
    and j: "j_state j = StateQueued" "job_ok j" "\<And>k. k \<in> set (file_processing_jobs db) \<Longrightarrow> j_id k \<noteq> j_id j"
    and v: "version_of_job j v" "\<And>x. x \<in> set (file_versions db) \<Longrightarrow> fv_id x \<noteq> fv_id v"
    and jobs: "file_processing_jobs db' = file_processing_jobs db @ [j]"
    and vers: "file_versions db' = file_versions db @ [v]"
  shows "jobs_inv db'"
proof -
  have other: "j_file_version_id k \<noteq> fv_id v" if "k \<in> set (file_processing_jobs db)" for k
    using that inv v(2) unfolding jobs_inv_def by metis
  have "fv_id v = j_file_version_id j" using v(1) by (simp add: version_of_job_def)
  then have "j_file_version_id k \<noteq> j_file_version_id j" if "k \<in> set (file_processing_jobs db)" for k
    using other [OF that] by simp
  with inv j v(1) show ?thesis
    unfolding jobs_inv_def jobs vers set_append
    using keyed_append1 [of j_id "file_processing_jobs db" j] keyed_append1 [of fv_id "file_versions db" v] v(2)
    by (auto simp: version_of_job_def)
qed

lemma set_session_state_jobs [simp]:
  "file_processing_jobs (set_session_state sid st db) = file_processing_jobs db"
  by (simp add: set_session_state_def)

lemma FinishCompletion_jobs_inv:
  assumes "jobs_inv db"
  shows "jobs_inv (snd (FinishCompletion fault ids dbnow u pr db))"
  unfolding FinishCompletion_def
proof (rule jobs_tx [OF assms], goal_cases)
  case (1 c db')
  then obtain locked where locked: "session_by_id (us_ID u) db = Some locked"
    by (auto split: option.splits)
  show ?case
  proof (cases "us_State locked = UploadCompleted")
    case True
    with 1 locked assms show ?thesis by (auto split: option.splits)
  next
    case False
    with 1 locked show ?thesis
      by (intro enqueue_inv [OF assms, where j = "queued_job (ci_job ids) (ci_version ids) dbnow"
            and v = "completed_version locked ids dbnow"])
        (auto split: if_split_asm simp: list_ex_iff queued_job_def completed_version_def job_ok_def version_of_job_def)
  qed
qed

section \<open>Executions\<close>

text \<open>Of the upload store's steps only \<open>FinishCompletion\<close> touches jobs or versions.\<close>

lemma upload_methods_jobs:
  "file_processing_jobs (snd (CreateSession fault u db)) = file_processing_jobs db \<and>
     file_versions (snd (CreateSession fault u db)) = file_versions db"
  "file_processing_jobs (snd (RecordPart fault sid p db)) = file_processing_jobs db \<and>
     file_versions (snd (RecordPart fault sid p db)) = file_versions db"
  "file_processing_jobs (snd (BeginCompletion fault sid actor purpose now db)) = file_processing_jobs db \<and>
     file_versions (snd (BeginCompletion fault sid actor purpose now db)) = file_versions db"
  "file_processing_jobs (snd (CancelSession fault sid actor purpose st db)) = file_processing_jobs db \<and>
     file_versions (snd (CancelSession fault sid actor purpose st db)) = file_versions db"
  "file_processing_jobs (snd (ConfirmCleanup fault sid db)) = file_processing_jobs db \<and>
     file_versions (snd (ConfirmCleanup fault sid db)) = file_versions db"
  "file_processing_jobs (snd (FinishCleanup fault sid db)) = file_processing_jobs db \<and>
     file_versions (snd (FinishCleanup fault sid db)) = file_versions db"
  by (auto simp: CreateSession_def RecordPart_def BeginCompletion_def CancelSession_def ConfirmCleanup_def FinishCleanup_def
      transact_def Let_def split: option.splits if_splits)

lemma upload_step_jobs:
  assumes "upload_step K db db'"
  shows "(file_processing_jobs db' = file_processing_jobs db \<and> file_versions db' = file_versions db) \<or>
    (\<exists>fault ids dbnow u pr. db' = snd (FinishCompletion fault ids dbnow u pr db))"
  using assms
proof cases
  case (step_finish fault ids dbnow u pr)
  then show ?thesis by blast
qed (simp_all add: upload_methods_jobs ReopenCompletion_db)

inductive processing_step :: "files_db \<Rightarrow> files_db \<Rightarrow> bool" where
  step_upload: "upload_step {} db db' \<Longrightarrow> processing_step db db'"
| step_lease: "processing_step db (snd (LeaseNext fault adm busy owner now dur db))"
| step_heartbeat: "processing_step db (snd (Heartbeat fault dbnow jid owner until db))"
| step_complete: "processing_step db (snd (Complete_job fault dbnow job r db))"
| step_fail: "as_leased job db \<Longrightarrow> processing_step db (snd (Fail_job fault dbnow job failure db))"
| step_reserve: "processing_step db (snd (ReserveArtifact fault dbnow a db))"
| step_transition: "processing_step db (snd (transitionArtifact fault dbnow key target db))"
| step_forget: "processing_step db (snd (ForgetArtifact fault key db))"

lemma artifact_tables [simp]:
  "file_processing_jobs (snd (ReserveArtifact fault dbnow a db)) = file_processing_jobs db"
  "file_versions (snd (ReserveArtifact fault dbnow a db)) = file_versions db"
  "file_processing_jobs (snd (transitionArtifact fault dbnow key target db)) = file_processing_jobs db"
  "file_versions (snd (transitionArtifact fault dbnow key target db)) = file_versions db"
  "file_processing_jobs (snd (ForgetArtifact fault key db)) = file_processing_jobs db"
  "file_versions (snd (ForgetArtifact fault key db)) = file_versions db"
  by (simp_all add: ReserveArtifact_def transitionArtifact_def ForgetArtifact_def Let_def)

lemma jobs_inv_cong:
  "file_processing_jobs db' = file_processing_jobs db \<Longrightarrow> file_versions db' = file_versions db \<Longrightarrow>
     jobs_inv db' = jobs_inv db"
  by (simp add: jobs_inv_def)

lemma upload_step_jobs_inv: "upload_step K db db' \<Longrightarrow> jobs_inv db \<Longrightarrow> jobs_inv db'"
  using upload_step_jobs [of K db db'] jobs_inv_cong [of db' db] FinishCompletion_jobs_inv by auto

lemma processing_step_inv: "processing_step db db' \<Longrightarrow> jobs_inv db \<Longrightarrow> jobs_inv db'"
  by (induction rule: processing_step.induct)
    (simp_all add: upload_step_jobs_inv LeaseNext_inv Heartbeat_inv Complete_job_inv Fail_job_inv jobs_inv_cong [OF artifact_tables(1,2)]
      jobs_inv_cong [OF artifact_tables(3,4)] jobs_inv_cong [OF artifact_tables(5,6)])

definition processing_reachable :: "files_db \<Rightarrow> bool" where
  "processing_reachable db \<longleftrightarrow> processing_step\<^sup>*\<^sup>* empty_files_db db"

lemma processing_reachable_inv: "processing_reachable db \<Longrightarrow> jobs_inv db"
  unfolding processing_reachable_def
  by (induction rule: rtranclp_induct) (auto intro: processing_step_inv jobs_inv_empty)


section \<open>Leasing makes progress\<close>

lemma LeaseNext_admitted:
  assumes "AdmitClaim adm = None" and "owner \<noteq> []" "length owner \<le> 128" "0 < dur"
  shows "LeaseNext False adm busy owner now dur db =
    (case sort_key (\<lambda>j. (j_available_at j, j_created_at j, j_id j))
            (filter (claimable_job busy now) (file_processing_jobs (exhaust busy now db))) of
       [] \<Rightarrow> (Inl ErrNoJob, db)
     | c # _ \<Rightarrow>
         if rows_affected (claimable_version (j_file_version_id c)) (file_versions (exhaust busy now db)) \<noteq> 1
         then (Inl (ErrProcessing ''processing file version is not claimable''), db)
         else (Inr (job_of owner (now + dur) c), claim owner now dur c (exhaust busy now db)))"
  using assms by (simp add: LeaseNext_def transact_def Let_def split: list.split)

lemma exhaust_claimable:
  "filter (claimable_job busy now) (file_processing_jobs (exhaust busy now db)) =
     filter (claimable_job busy now) (file_processing_jobs db)"
proof -
  have "filter (claimable_job busy now) (update_where (exhausted busy now) (close_job StateFailed c t) js) =
      filter (claimable_job busy now) js" for js c t
    by (induction js) (auto simp: claimable_job_def exhausted_def)
  then show ?thesis by (simp add: exhaust_def Let_def)
qed

lemma rows_affected_one:
  assumes "keyed k rows" and "x \<in> set rows" and "p x" and "\<And>y. y \<in> set rows \<Longrightarrow> p y \<Longrightarrow> k y = k x"
  shows "rows_affected p rows = 1"
proof -
  have "distinct rows" using assms(1) by (auto simp: keyed_def distinct_map)
  moreover have "y = x" if "y \<in> set rows" "p y" for y
    using keyed_inj [OF assms(1) that(1) assms(2) assms(4) [OF that]] .
  then have "set (filter p rows) = {x}" using assms(2,3) unfolding set_filter by blast
  ultimately show ?thesis using distinct_card [of "filter p rows"] by (simp add: rows_affected_def)
qed

lemma sort_key_hd:
  assumes "sort_key k xs = c # cs" and "x \<in> set xs"
  shows "k c \<le> k x"
proof -
  have "sorted (map k (c # cs))" using sorted_sort_key [of k xs] assms(1) by simp
  moreover have "x \<in> set (c # cs)" using assms set_sort [of k xs] by simp
  ultimately show ?thesis by auto
qed

lemma leases_oldest:
  assumes "processing_reachable db" and "AdmitClaim adm = None" "owner \<noteq> []" "length owner \<le> 128" "0 < dur"
    and "j \<in> set (file_processing_jobs db)" "claimable_job busy now j"
  shows "\<exists>c db'. LeaseNext False adm busy owner now dur db = (Inr (job_of owner (now + dur) c), db') \<and>
    c \<in> set (file_processing_jobs db) \<and> claimable_job busy now c \<and>
    (j_available_at c, j_created_at c, j_id c) \<le> (j_available_at j, j_created_at j, j_id j) \<and>
    claim_job owner now dur c \<in> set (file_processing_jobs db') \<and>
    (\<exists>fv \<in> set (file_versions db'). fv_id fv = j_file_version_id c \<and> fv_processing_state fv = Processing)"
proof -
  let ?db = "exhaust busy now db" and ?k = "\<lambda>j. (j_available_at j, j_created_at j, j_id j)"
  have inv: "jobs_inv ?db" using exhaust_inv [OF processing_reachable_inv [OF assms(1)]] .
  let ?cands = "filter (claimable_job busy now) (file_processing_jobs ?db)"
  have j: "j \<in> set ?cands" using assms(6,7) unfolding exhaust_claimable by simp
  then have "set (sort_key ?k ?cands) \<noteq> {}" by auto
  then obtain c cs where c: "sort_key ?k ?cands = c # cs" by (cases "sort_key ?k ?cands") auto
  then have cc: "c \<in> set (file_processing_jobs ?db)" "claimable_job busy now c" using sorted_candidate by fast+
  moreover have "c \<in> set ?cands" using cc by simp
  then have "c \<in> set (file_processing_jobs db)" unfolding exhaust_claimable by simp
  moreover obtain fv where fv: "fv \<in> set (file_versions ?db)" "version_of_job c fv"
    using inv cc by (auto simp: jobs_inv_def active_def claimable_job_def)
  then have claimable: "claimable_version (j_file_version_id c) fv"
    by (auto simp: version_of_job_def claimable_version_def split: if_splits)
  have one: "rows_affected (claimable_version (j_file_version_id c)) (file_versions ?db) = 1"
    using inv fv claimable by (intro rows_affected_one [where k = fv_id]) (auto simp: jobs_inv_def claimable_version_def)
  have "claim_job owner now dur c \<in> set (file_processing_jobs (claim owner now dur c ?db))"
    using cc(1) by (force simp: claim_def set_update_where)
  moreover have "\<exists>x \<in> set (file_versions (claim owner now dur c ?db)).
      fv_id x = j_file_version_id c \<and> fv_processing_state x = Processing"
    using fv(1) claimable by (intro bexI [of _ "fv\<lparr>fv_processing_state := Processing, fv_failure_category := None\<rparr>"])
      (auto simp: claim_def set_update_where claimable_version_def intro!: rev_image_eqI [OF fv(1)])
  moreover have "?k c \<le> ?k j" using sort_key_hd [OF c j] .
  ultimately show ?thesis
    using LeaseNext_admitted [OF assms(2-5), of busy now db] c one by auto
qed

text \<open>C11: Leasing never gets stuck. In every reachable state, when the queue is admitted and the
  database answers, \<open>LeaseNext\<close> hands out the oldest claimable job if there is one, marks
  its version as processing and counts the attempt; it never reports a version that
  cannot be claimed, so no job blocks those behind it.\<close>

theorem lease_next_progress:
  assumes "processing_reachable db" and "AdmitClaim adm = None" "owner \<noteq> []" "length owner \<le> 128" "0 < dur"
    and "j \<in> set (file_processing_jobs db)" "claimable_job busy now j"
  shows "\<exists>c db'. LeaseNext False adm busy owner now dur db = (Inr (job_of owner (now + dur) c), db') \<and>
    c \<in> set (file_processing_jobs db) \<and> claimable_job busy now c \<and>
    (j_available_at c, j_created_at c, j_id c) \<le> (j_available_at j, j_created_at j, j_id j) \<and>
    claim_job owner now dur c \<in> set (file_processing_jobs db') \<and>
    (\<exists>fv \<in> set (file_versions db'). fv_id fv = j_file_version_id c \<and> fv_processing_state fv = Processing)"
  by (rule leases_oldest [OF assms])

section \<open>The queue is an instance of the lease protocol\<close>

definition job_view :: "job_row \<Rightarrow> lease_view" where
  "job_view j = \<lparr>lv_attempts = j_attempts j, lv_holder = j_lease_owner j, lv_closed = (\<not> active j)\<rparr>"

definition jobs_move :: "files_db \<Rightarrow> files_db \<Rightarrow> bool" where
  "jobs_move db db' \<longleftrightarrow> map j_id (file_processing_jobs db') = map j_id (file_processing_jobs db) \<and>
     (\<forall>j \<in> set (file_processing_jobs db). \<exists>j' \<in> set (file_processing_jobs db'). j_id j' = j_id j \<and>
        lease_move 4 (job_view j) (job_view j'))"

lemma jobs_move_refl [simp]: "file_processing_jobs db' = file_processing_jobs db \<Longrightarrow> jobs_move db db'"
  by (auto simp: jobs_move_def)

lemma jobs_move_update:
  assumes "file_processing_jobs db' = update_where p f (file_processing_jobs db)"
    and "\<And>j. j \<in> set (file_processing_jobs db) \<Longrightarrow> p j \<Longrightarrow> j_id (f j) = j_id j \<and> lease_move 4 (job_view j) (job_view (f j))"
  shows "jobs_move db db'"
proof -
  have "\<exists>j' \<in> set (file_processing_jobs db'). j_id j' = j_id j \<and> lease_move 4 (job_view j) (job_view j')"
    if "j \<in> set (file_processing_jobs db)" for j
    using that assms(2) [OF that] unfolding assms(1) set_update_where
    by (intro bexI [of _ "if p j then f j else j"]) auto
  then show ?thesis unfolding jobs_move_def assms(1) by (simp add: map_update_where assms(2))
qed

lemma close_move: "active j \<Longrightarrow> lease_move 4 (job_view j) (job_view (close_job st c t j))"
  by (simp add: lease_move_def job_view_def)

lemma LeaseNext_moves:
  assumes k: "keyed j_id (file_processing_jobs db)"
  shows "jobs_move db (snd (LeaseNext fault adm busy owner now dur db))"
proof (cases "owner = [] \<or> length owner > 128 \<or> dur \<le> 0")
  case False
  show ?thesis
    unfolding LeaseNext_def if_not_P [OF False]
  proof (rule transact_invariant [where I = "jobs_move db"], simp, goal_cases)
    case (1 x db')
    let ?db = "exhaust busy now db"
    from 1 obtain c cs where c: "sort_key (\<lambda>j. (j_available_at j, j_created_at j, j_id j))
        (filter (claimable_job busy now) (file_processing_jobs ?db)) = c # cs" and db': "db' = claim owner now dur c ?db"
      by (auto simp: Let_def split: option.splits ops_error.splits list.splits if_splits)
    have "c \<in> set (filter (claimable_job busy now) (file_processing_jobs ?db))"
      using sorted_candidate [OF c] by simp
    then have cc: "c \<in> set (file_processing_jobs db)" "claimable_job busy now c"
      unfolding exhaust_claimable by auto
    let ?f = "\<lambda>j. if j_id j = j_id c then claim_job owner now dur j else close_job StateFailed (Some ''lease_expired'') now j"
    have ex: "\<not> exhausted busy now c" using cc(2) by (auto simp: claimable_job_def exhausted_def)
    have only: "j = c" if "j \<in> set (file_processing_jobs db)" "j_id j = j_id c" for j
      using keyed_inj [OF k that(1) cc(1) that(2)] .
    have jobs: "file_processing_jobs db' = update_where (\<lambda>j. exhausted busy now j \<or> j_id j = j_id c) ?f (file_processing_jobs db)"
      unfolding db' claim_def exhaust_def update_where_def using ex only by (auto simp: Let_def)
    show ?case
    proof (rule jobs_move_update [OF jobs])
      fix j assume j: "j \<in> set (file_processing_jobs db)" "exhausted busy now j \<or> j_id j = j_id c"
      show "j_id (?f j) = j_id j \<and> lease_move 4 (job_view j) (job_view (?f j))"
      proof (cases "j_id j = j_id c")
        case True
        with only [OF j(1)] cc(2) show ?thesis
          by (auto simp: lease_move_def job_view_def claimable_job_def active_def)
      next
        case False
        with j(2) show ?thesis by (auto simp: exhausted_def active_def intro: close_move)
      qed
    qed
  qed
qed (auto simp: LeaseNext_def)

lemma Heartbeat_moves: "jobs_move db (snd (Heartbeat fault dbnow jid owner until db))"
proof -
  let ?p = "\<lambda>j. j_id j = jid \<and> held_by owner dbnow j \<and> until > dbnow"
  have "jobs_move db (db\<lparr>file_processing_jobs := update_where ?p (\<lambda>j. j\<lparr>j_lease_until := Some until, j_updated_at := dbnow\<rparr>)
      (file_processing_jobs db)\<rparr>)"
    by (rule jobs_move_update [where p = ?p]) (simp, auto simp: lease_move_def job_view_def active_def)
  then show ?thesis by (simp add: Heartbeat_def Let_def)
qed

lemma end_lease_moves:
  assumes k: "keyed j_id (file_processing_jobs db)"
    and j: "find (\<lambda>j. j_id j = jid \<and> held_by owner dbnow j) (file_processing_jobs db) = Some j"
    and jobs: "file_processing_jobs db' = update_where (\<lambda>j. j_id j = jid) f (file_processing_jobs db)"
    and f: "\<And>j. j_id (f j) = j_id j \<and> j_attempts (f j) = j_attempts j \<and> j_lease_owner (f j) = None"
  shows "jobs_move db db'"
proof (rule jobs_move_update [OF jobs])
  fix x assume "x \<in> set (file_processing_jobs db)" "j_id x = jid"
  with find_SomeD [OF j] keyed_inj [OF k] have "x = j" by blast
  with find_SomeD [OF j] f [of j] show "j_id (f x) = j_id x \<and> lease_move 4 (job_view x) (job_view (f x))"
    by (auto simp: lease_move_def job_view_def held_by_def active_def)
qed

lemma Complete_job_moves:
  assumes "keyed j_id (file_processing_jobs db)"
  shows "jobs_move db (snd (Complete_job fault dbnow job r db))"
proof (cases "jb_ID job = uuid_Nil \<or> jb_FileVersionID job = uuid_Nil \<or> jb_LeaseOwner job = [] \<or>
         rs_DetectedMIME r = [] \<or> rs_ScanResult r \<noteq> ''clean''")
  case False
  show ?thesis
    unfolding Complete_job_def if_not_P [OF False]
  proof (rule transact_invariant [where I = "jobs_move db"], simp, goal_cases)
    case (1 x db')
    then obtain j where j: "find (\<lambda>j. j_id j = jb_ID job \<and> held_by (jb_LeaseOwner job) dbnow j) (file_processing_jobs db) = Some j"
      by (auto split: option.splits)
    from 1 j obtain fv where fv: "find (\<lambda>fv. fv_id fv = j_file_version_id j) (file_versions db) = Some fv"
      by (auto split: option.splits)
    note run = 1 [unfolded j fv option.case Let_def]
    then have "file_processing_jobs db' = update_where (\<lambda>j. j_id j = jb_ID job) (close_job StateCompleted None dbnow) (file_processing_jobs db)"
      by (auto split: if_split_asm option.splits)
    then show ?case by (rule end_lease_moves [OF assms j]) simp
  qed
qed (auto simp: Complete_job_def)

lemma Fail_job_moves:
  assumes "keyed j_id (file_processing_jobs db)"
  shows "jobs_move db (snd (Fail_job fault dbnow job failure db))"
proof (cases "jb_ID job = uuid_Nil \<or> jb_FileVersionID job = uuid_Nil \<or> jb_LeaseOwner job = [] \<or>
         \<not> stableCategory (fl_Category failure) \<or> (\<not> fl_Permanent failure \<and> fl_RetryAt failure = time_zero)")
  case False
  show ?thesis
    unfolding Fail_job_def if_not_P [OF False]
  proof (rule transact_invariant [where I = "jobs_move db"], simp, goal_cases)
    case (1 x db')
    then obtain j where j: "find (\<lambda>j. j_id j = jb_ID job \<and> held_by (jb_LeaseOwner job) dbnow j) (file_processing_jobs db) = Some j"
      by (auto split: option.splits)
    note run = 1 [unfolded j option.case]
    then obtain f where "file_processing_jobs db' = update_where (\<lambda>j. j_id j = jb_ID job) f (file_processing_jobs db)"
      "f = close_job StateFailed (Some (fl_Category failure)) dbnow \<or>
       f = (\<lambda>j. (close_job StateQueued (Some (fl_Category failure)) dbnow j)\<lparr>j_available_at := fl_RetryAt failure\<rparr>)"
      by (auto split: if_split_asm)
    then show ?case by (intro end_lease_moves [OF assms j]) auto
  qed
qed (auto simp: Fail_job_def)

lemma FinishCompletion_jobs:
  "file_processing_jobs (snd (FinishCompletion fault ids dbnow u pr db)) = file_processing_jobs db \<or>
   file_processing_jobs (snd (FinishCompletion fault ids dbnow u pr db)) =
     file_processing_jobs db @ [queued_job (ci_job ids) (ci_version ids) dbnow] \<and>
   ci_job ids \<notin> j_id ` set (file_processing_jobs db)"
  unfolding FinishCompletion_def
  by (rule transact_invariant) (auto simp: list_ex_iff split: option.splits if_splits)

lemma processing_step_jobs:
  assumes "processing_step db db'" and "keyed j_id (file_processing_jobs db)"
  shows "jobs_move db db' \<or> (\<exists>jid vid t. jid \<notin> j_id ` set (file_processing_jobs db) \<and>
    file_processing_jobs db' = file_processing_jobs db @ [queued_job jid vid t])"
  using assms
proof cases
  case step_upload
  from upload_step_jobs [OF this] show ?thesis
  proof (elim disjE exE)
    fix fault ids dbnow u pr assume db': "db' = snd (FinishCompletion fault ids dbnow u pr db)"
    from FinishCompletion_jobs [of fault ids dbnow u pr db] show ?thesis
      unfolding db' [symmetric] by auto
  qed simp
qed (simp_all add: LeaseNext_moves Heartbeat_moves Complete_job_moves Fail_job_moves)

interpretation job_queue: leased_queue file_processing_jobs j_id job_view processing_step 4
proof
  fix db db' :: files_db assume k: "keyed j_id (file_processing_jobs db)" and st: "processing_step db db'"
  note jobs = processing_step_jobs [OF st k]
  show "keyed j_id (file_processing_jobs db')"
    using jobs k by (auto simp: jobs_move_def keyed_def queued_job_def)
  fix r
  show "\<exists>r' \<in> set (file_processing_jobs db'). j_id r' = j_id r \<and> lease_move 4 (job_view r) (job_view r')"
    if "r \<in> set (file_processing_jobs db)"
    using jobs that by (auto simp: jobs_move_def)
  show "lease_fresh (job_view r)" if "r \<in> set (file_processing_jobs db')" "j_id r \<notin> j_id ` set (file_processing_jobs db)"
  proof -
    from jobs show ?thesis
    proof
      assume "jobs_move db db'"
      then have "set (map j_id (file_processing_jobs db')) = set (map j_id (file_processing_jobs db))"
        unfolding jobs_move_def by metis
      with that show ?thesis by (metis image_eqI list.set_map)
    next
      assume "\<exists>jid vid t. jid \<notin> j_id ` set (file_processing_jobs db) \<and>
        file_processing_jobs db' = file_processing_jobs db @ [queued_job jid vid t]"
      with that show ?thesis by (auto simp: lease_fresh_def job_view_def queued_job_def active_def)
    qed
  qed
qed simp

definition job_attempts :: "uuid \<Rightarrow> files_db \<Rightarrow> int" where
  "job_attempts jid db = (case find (\<lambda>j. j_id j = jid) (file_processing_jobs db) of None \<Rightarrow> 0 | Some j \<Rightarrow> j_attempts j)"

lemma job_attempts_of: "job_queue.attempts_of = job_attempts"
  by (intro ext) (simp add: job_queue.attempts_of_def job_queue.row_of_def job_attempts_def job_view_def split: option.split)

text \<open>However the transactions of any number of workers interleave, a job is handed out at
  most four times, expired leases and failures included.\<close>

theorem job_leased_at_most_four_times:
  assumes "successively processing_step (empty_files_db # dbs)"
  shows "claims (job_attempts jid) (empty_files_db # dbs) \<le> 4"
proof -
  have "job_queue.within empty_files_db"
    by (simp add: job_queue.within_def empty_files_db_def keyed_def)
  from job_queue.claims_bounded [OF this assms, of jid] show ?thesis by (simp add: job_attempts_of)
qed

section \<open>Fencing\<close>

lemma not_held_refused:
  assumes "\<And>j. j \<in> set (file_processing_jobs db) \<Longrightarrow> j_id j = jb_ID job \<Longrightarrow> \<not> held_by (jb_LeaseOwner job) dbnow j"
  shows "\<exists>e. Complete_job fault dbnow job r db = (Inl e, db)" and "\<exists>e. Fail_job fault dbnow job failure db = (Inl e, db)"
    and "\<exists>e. Heartbeat fault dbnow (jb_ID job) (jb_LeaseOwner job) until db = (Some e, db)"
proof -
  have none: "find (\<lambda>j. j_id j = jb_ID job \<and> held_by (jb_LeaseOwner job) dbnow j) (file_processing_jobs db) = None"
    using assms by (auto simp: find_None_iff)
  show "\<exists>e. Complete_job fault dbnow job r db = (Inl e, db)" "\<exists>e. Fail_job fault dbnow job failure db = (Inl e, db)"
    by (simp_all add: Complete_job_def Fail_job_def transact_def none)
  let ?p = "\<lambda>j. j_id j = jb_ID job \<and> held_by (jb_LeaseOwner job) dbnow j \<and> until > dbnow"
  have "update_where ?p f (file_processing_jobs db) = file_processing_jobs db" for f
    unfolding update_where_def using assms by (intro map_idI) auto
  moreover have "filter ?p (file_processing_jobs db) = []" using assms by (auto simp: filter_empty_conv)
  ultimately show "\<exists>e. Heartbeat fault dbnow (jb_ID job) (jb_LeaseOwner job) until db = (Some e, db)"
    by (simp add: Heartbeat_def rows_affected_def)
qed

lemma LeaseNext_InrD:
  assumes "LeaseNext fault adm busy owner now dur db = (Inr job, db')"
  shows "\<exists>c db1. job = job_of owner (now + dur) c \<and> db' = claim owner now dur c db1"
  using assms unfolding LeaseNext_def transact_def
  by (auto simp: Let_def split: if_splits option.splits ops_error.splits list.splits)

text \<open>C10: A lease excludes every other worker. As soon as \<open>LeaseNext\<close> has handed a job to one
  owner, an earlier owner whose lease ran out can neither renew it nor complete nor fail
  the job, at whatever time it tries, and its attempts change nothing.\<close>

theorem lease_excludes_others:
  assumes "LeaseNext fault adm busy owner now dur db = (Inr job, db')"
    and "jb_ID stale = jb_ID job" and "jb_LeaseOwner stale \<noteq> owner"
  shows "(\<exists>e. Complete_job f t stale r db' = (Inl e, db')) \<and> (\<exists>e. Fail_job f t stale failure db' = (Inl e, db')) \<and>
    (\<exists>e. Heartbeat f t (jb_ID job) (jb_LeaseOwner stale) until db' = (Some e, db'))"
proof -
  obtain c db1 where "job = job_of owner (now + dur) c" "db' = claim owner now dur c db1"
    using LeaseNext_InrD [OF assms(1)] by blast
  then have "\<not> held_by (jb_LeaseOwner stale) t j" if "j \<in> set (file_processing_jobs db')" "j_id j = jb_ID stale" for j
    using that assms(2,3) by (auto simp: claim_def set_update_where job_of_def held_by_def)
  note refused = not_held_refused [of db' stale t, OF this]
  with assms(2) show ?thesis by metis
qed

section \<open>Exhausted jobs\<close>

text \<open>C26: An exhausted job is not closed while the queue is otherwise idle. When no job can be
  claimed, \<open>LeaseNext\<close> returns before it commits, and the statement that fails jobs whose
  fourth lease has expired is rolled back with the transaction: whatever the arguments,
  the tables are as before, so the job stays running and its version in processing.\<close>

theorem exhaustion_rolled_back_when_idle:
  assumes "\<forall>k \<in> set (file_processing_jobs db). \<not> claimable_job busy now k"
    and "j \<in> set (file_processing_jobs db)" "exhausted busy now j"
  shows "\<exists>e. LeaseNext fault adm busy owner now dur db = (Inl e, db) \<and> j_state j = StateRunning"
proof -
  have "filter (claimable_job busy now) (file_processing_jobs (exhaust busy now db)) = []"
    using assms(1) by (simp add: exhaust_claimable filter_empty_conv)
  then have "sort_key (\<lambda>j. (j_available_at j, j_created_at j, j_id j))
      (filter (claimable_job busy now) (file_processing_jobs (exhaust busy now db))) = []" by simp
  with assms(3) show ?thesis
    by (auto simp: LeaseNext_def transact_def Let_def exhausted_def split: option.splits ops_error.splits)
qed

section \<open>Concrete executions\<close>

definition one_job :: "job_row \<Rightarrow> file_state \<Rightarrow> files_db" where
  "one_job j st = empty_files_db\<lparr>file_rows := [\<lparr>f_id = 11, f_created_by = 3, f_deleted_at = None\<rparr>],
     file_versions := [\<lparr>fv_id = 12, fv_file_id = 11, fv_version = 1, fv_purpose = UploadPurposeTeaching,
       fv_object_key = ''originals/0a'', fv_display_name = ''a.pdf'', fv_declared_mime = ''application/pdf'',
       fv_size_bytes = 3, fv_sha256 = sample_hash, fv_processing_state = st, fv_created_by = 3,
       fv_retention_until = None, fv_detected_mime = None, fv_scan_result = None, fv_browser_playable = False,
       fv_video_container = None, fv_video_codec = None, fv_video_duration_ms = None, fv_video_width = None,
       fv_video_height = None, fv_failure_category = None\<rparr>],
     file_processing_jobs := [j]\<rparr>"

definition worn_job :: job_row where
  "worn_job = (queued_job 13 12 50)\<lparr>j_state := StateRunning, j_attempts := 4, j_lease_owner := Some ''w1'', j_lease_until := Some 80\<rparr>"

theorem exhaustion_rolled_back_when_idle_witness:
  "exhausted (\<lambda>_. False) 100 worn_job \<and>
   (\<exists>e. LeaseNext False normal_admission (\<lambda>_. False) ''w2'' 100 30 (one_job worn_job Processing) = (Inl e, one_job worn_job Processing))"
proof -
  have ex: "exhausted (\<lambda>_. False) 100 worn_job"
    by (simp add: exhausted_def worn_job_def queued_job_def lease_before_def)
  have none: "\<forall>k \<in> set (file_processing_jobs (one_job worn_job Processing)). \<not> claimable_job (\<lambda>_. False) 100 k"
    by (simp add: one_job_def claimable_job_def worn_job_def)
  have "worn_job \<in> set (file_processing_jobs (one_job worn_job Processing))" by (simp add: one_job_def)
  from exhaustion_rolled_back_when_idle [OF none this ex] ex show ?thesis by blast
qed

definition waiting_job :: job_row where "waiting_job = queued_job 13 12 50"

definition published_db :: files_db where
  "published_db = snd (FinishCompletion False sample_ids 50 sample_session sample_principal (sample_db UploadCompleting))"

lemma published_jobs: "file_processing_jobs published_db = [waiting_job]"
  using sample_found [of UploadCompleting]
  by (simp add: published_db_def FinishCompletion_def transact_def sample_ids_def waiting_job_def)
    (simp add: sample_db_def empty_files_db_def)

lemma published_steps:
  "upload_step {} empty_files_db (sample_db UploadOpen)" "upload_step {} (sample_db UploadOpen) (sample_db UploadCompleting)"
  "upload_step {} (sample_db UploadCompleting) published_db"
proof -
  show "upload_step {} empty_files_db (sample_db UploadOpen)"
    using step_create [of sample_session "{}" empty_files_db False] sample_created by simp
  have "snd (BeginCompletion False 7 3 UploadPurposeAI 60 (sample_db UploadOpen)) = sample_db UploadCompleting"
    by (simp add: BeginCompletion_def transact_def session_of_def sample_db_def sample_session_def Let_def set_session_state_def)
  with step_begin [of "{}" "sample_db UploadOpen" False 7 3 UploadPurposeAI 60]
  show "upload_step {} (sample_db UploadOpen) (sample_db UploadCompleting)" by simp
  show "upload_step {} (sample_db UploadCompleting) published_db"
    unfolding published_db_def by (rule step_finish)
qed

lemma published_reachable: "processing_reachable published_db"
  unfolding processing_reachable_def using published_steps [THEN step_upload]
  by (meson rtranclp.rtrancl_into_rtrancl rtranclp.rtrancl_refl)

lemma waiting_claimable: "claimable_job (\<lambda>_. False) 60 waiting_job"
  by (simp add: claimable_job_def waiting_job_def queued_job_def)


theorem lease_next_progress_witness:
  "\<exists>c db'. LeaseNext False normal_admission (\<lambda>_. False) ''w1'' 60 30 published_db = (Inr (job_of ''w1'' 90 c), db') \<and>
     c = waiting_job"
proof -
  have "waiting_job \<in> set (file_processing_jobs published_db)" by (simp add: published_jobs)
  from lease_next_progress [OF published_reachable AdmitClaim_normal _ _ _ this waiting_claimable, of "''w1''" 30]
  show ?thesis using published_jobs by auto
qed

theorem lease_excludes_others_witness:
  "\<exists>job db'. LeaseNext False normal_admission (\<lambda>_. False) ''w1'' 60 30 published_db = (Inr job, db') \<and>
     (\<exists>e. Heartbeat False 70 (jb_ID job) ''w0'' 200 db' = (Some e, db'))"
proof -
  have "waiting_job \<in> set (file_processing_jobs published_db)" by (simp add: published_jobs)
  from leases_oldest [OF published_reachable AdmitClaim_normal _ _ _ this waiting_claimable, of "''w1''" 30]
  obtain job db' where lease: "LeaseNext False normal_admission (\<lambda>_. False) ''w1'' 60 30 published_db = (Inr job, db')"
    by auto
  from lease_excludes_others [OF lease, of "job\<lparr>jb_LeaseOwner := ''w0''\<rparr>" False 70] lease show ?thesis by auto
qed

theorem job_leased_at_most_four_times_witness:
  "claims (job_attempts 13) [empty_files_db, sample_db UploadOpen, sample_db UploadCompleting, published_db] \<le> 4"
  by (rule job_leased_at_most_four_times) (use published_steps [THEN step_upload] in simp)

end
