(* ===== verification/Processing_Worker.thy ===== *)
theory Processing_Worker
  imports Processing_Machine
begin

text \<open>
  \<^verbatim>\<open>internal/processing/worker.go\<close>: one turn of the worker over the store of
  \<open>Processing_Store\<close>. The worker waits on three sources at once (its context, the heartbeat
  ticker, the processor); what arrives, in which order and with which clock readings is a
  list of \<open>worker_event\<close>s, and \<open>None\<close> means that the list ended while the worker was
  still waiting.
\<close>

section \<open>Settings\<close>

definition DefaultIdleWait :: duration where "DefaultIdleWait = 2 * Second"
definition DefaultLeaseDuration :: duration where "DefaultLeaseDuration = 30 * Second"
definition DefaultHeartbeatInterval :: duration where "DefaultHeartbeatInterval = 10 * Second"
definition DefaultProcessDeadline :: duration where "DefaultProcessDeadline = 15 * Minute"

definition retryDelays :: "duration list" where
  "retryDelays = [Minute, 5 * Minute, 30 * Minute]"

record Worker =
  w_configured :: bool
  w_Owner :: string
  w_IdleWait :: duration
  w_LeaseDuration :: duration
  w_HeartbeatInterval :: duration
  w_Deadlines :: "(string \<times> duration) list"

definition idleWait :: "Worker \<Rightarrow> duration" where
  "idleWait w = (if w_IdleWait w > 0 \<and> w_IdleWait w \<le> DefaultIdleWait then w_IdleWait w else DefaultIdleWait)"

definition leaseDuration :: "Worker \<Rightarrow> duration" where
  "leaseDuration w = (if w_LeaseDuration w > 0 then w_LeaseDuration w else DefaultLeaseDuration)"

definition heartbeatInterval :: "Worker \<Rightarrow> duration" where
  "heartbeatInterval w = (if w_HeartbeatInterval w > 0 then w_HeartbeatInterval w else DefaultHeartbeatInterval)"

definition process_deadline :: "Worker \<Rightarrow> string \<Rightarrow> duration" where
  "process_deadline w kind = (case map_of (w_Deadlines w) kind of
     None \<Rightarrow> DefaultProcessDeadline | Some d \<Rightarrow> if d > 0 then d else DefaultProcessDeadline)"

section \<open>Failures\<close>

text \<open>The processor's error: a \<^verbatim>\<open>ProcessingError\<close> or any other error.\<close>

record ProcessingError =
  pe_Category :: string
  pe_Permanent :: bool
  pe_Rejected :: bool

definition classifyFailure :: "ProcessingError option \<Rightarrow> int \<Rightarrow> time \<Rightarrow> Failure" where
  "classifyFailure err attempts now =
     (let failure = \<lparr>fl_Category = ''processing_error'', fl_Permanent = (attempts \<ge> MaxAttempts), fl_Rejected = False,
                     fl_RetryAt = time_zero\<rparr>;
          failure = (case err of None \<Rightarrow> failure
            | Some e \<Rightarrow> failure\<lparr>fl_Category := pe_Category e, fl_Permanent := (pe_Permanent e \<or> attempts \<ge> MaxAttempts),
                               fl_Rejected := pe_Rejected e\<rparr>)
      in if \<not> fl_Permanent failure \<and> attempts > 0 \<and> attempts \<le> int (length retryDelays)
         then failure\<lparr>fl_RetryAt := now + retryDelays ! nat (attempts - 1)\<rparr> else failure)"

section \<open>One turn of the worker\<close>

datatype worker_error = WNoJob | WLeaseLost | WText string

datatype worker_event =
    EvCancelled
  | EvTick (ctx_done: bool) (tick_now: time) (tick_dbnow: time) (tick_fault: bool)
  | EvFinished (fin_ctx_done: bool) (fin_outcome: "ProcessingError option + Result") (fin_now: time) (fin_dbnow: time) (fin_fault: bool)

definition settle :: "processing_error + unit \<Rightarrow> string \<Rightarrow> bool \<times> worker_error option" where
  "settle answer text_msg = (case answer of
     Inr _ \<Rightarrow> (True, None)
   | Inl ErrLeaseLost \<Rightarrow> (True, Some WLeaseLost)
   | Inl _ \<Rightarrow> (True, Some (WText text_msg)))"

fun worker_loop ::
  "Worker \<Rightarrow> Job \<Rightarrow> worker_event list \<Rightarrow> files_db \<Rightarrow> (bool \<times> worker_error option) option \<times> files_db" where
  "worker_loop w job [] db = (None, db)"
| "worker_loop w job (EvCancelled # evs) db = (Some (True, None), db)"
| "worker_loop w job (EvTick done now dbnow fault # evs) db =
     (if done then (Some (True, None), db)
      else case Heartbeat fault dbnow (jb_ID job) (w_Owner w) (now + leaseDuration w) db of
        (Some _, db1) \<Rightarrow> (Some (True, Some WLeaseLost), db1)
      | (None, db1) \<Rightarrow> worker_loop w job evs db1)"
| "worker_loop w job (EvFinished done outcome now dbnow fault # evs) db =
     (if done then (Some (True, None), db)
      else case outcome of
        Inr result \<Rightarrow>
          (case Complete_job fault dbnow job result db of
             (r, db1) \<Rightarrow> (Some (settle r ''complete processing job''), db1))
      | Inl err \<Rightarrow>
          (case Fail_job fault dbnow job (classifyFailure err (jb_Attempts job) now) db of
             (r, db1) \<Rightarrow> (Some (settle r ''fail processing job''), db1)))"

definition validate_worker :: "Worker \<Rightarrow> worker_error option" where
  "validate_worker w = (if \<not> w_configured w \<or> w_Owner w = [] then Some (WText ''invalid worker configuration'') else None)"

text \<open>\<open>gate\<close> is the optional claim gate: absent, failing, or its answer.\<close>

definition RunOne ::
  "Worker \<Rightarrow> (unit + bool) option \<Rightarrow> bool \<Rightarrow> admission \<Rightarrow> (uuid \<Rightarrow> bool) \<Rightarrow> time \<Rightarrow> bool \<Rightarrow> worker_event list \<Rightarrow> files_db
     \<Rightarrow> (bool \<times> worker_error option) option \<times> files_db" where
  "RunOne w gate fault adm busy now lease_ctx_done evs db =
     (case validate_worker w of
        Some e \<Rightarrow> (Some (False, Some e), db)
      | None \<Rightarrow>
          if gate = Some (Inl ()) \<or> gate = Some (Inr False) then (Some (False, None), db)
          else case LeaseNext fault adm busy (w_Owner w) now (leaseDuration w) db of
            (Inl ErrNoJob, db1) \<Rightarrow> (Some (False, Some WNoJob), db1)
          | (Inl _, db1) \<Rightarrow> (Some (False, if lease_ctx_done then None else Some (WText ''lease processing job'')), db1)
          | (Inr job, db1) \<Rightarrow> worker_loop w job evs db1)"

text \<open>What \<^verbatim>\<open>Run\<close> does with the answer of a turn: leave, take the next job at once, or wait.\<close>

datatype run_decision = RunReturn worker_error | RunContinue | RunWait

definition run_decide :: "bool \<times> worker_error option \<Rightarrow> run_decision" where
  "run_decide = (\<lambda>(worked, err). case err of
     Some (WText m) \<Rightarrow> RunReturn (WText m)
   | _ \<Rightarrow> if worked then RunContinue else RunWait)"

section \<open>What a turn guarantees\<close>

lemma retry_delay_positive: "1 \<le> a \<Longrightarrow> a < 4 \<Longrightarrow> 0 < retryDelays ! nat (a - 1)"
proof -
  assume "1 \<le> a" "a < (4::int)"
  then have "a = 1 \<or> a = 2 \<or> a = 3" by linarith
  then show ?thesis by (auto simp: retryDelays_def)
qed

text \<open>Every failure the worker derives is one the store accepts. For a job on its first or
  any later attempt and a processor error with a well-formed category, the classified
  failure is permanent exactly from the fourth attempt on or when the processor says so,
  and otherwise names a retry time after now, so \<open>Fail\<close> never rejects it as invalid.\<close>

theorem classified_failure_accepted:
  assumes "1 \<le> attempts" and "0 \<le> now" and "\<forall>e. err = Some e \<longrightarrow> stableCategory (pe_Category e)"
  shows "let f = classifyFailure err attempts now in
    stableCategory (fl_Category f) \<and>
    (fl_Permanent f \<longleftrightarrow> attempts \<ge> 4 \<or> (\<exists>e. err = Some e \<and> pe_Permanent e)) \<and>
    (\<not> fl_Permanent f \<longrightarrow> fl_RetryAt f > now) \<and>
    (\<forall>job db. jb_ID job \<noteq> uuid_Nil \<and> jb_FileVersionID job \<noteq> uuid_Nil \<and> jb_LeaseOwner job \<noteq> [] \<longrightarrow>
       fst (Fail_job fault dbnow job f db) \<noteq> Inl (ErrProcessing ''invalid failure''))"
proof -
  let ?f = "classifyFailure err attempts now"
  have cat: "stableCategory (fl_Category ?f)"
    using assms(3) by (cases err) (auto simp: classifyFailure_def Let_def stableCategory_def byte_def)
  have perm: "fl_Permanent ?f \<longleftrightarrow> attempts \<ge> 4 \<or> (\<exists>e. err = Some e \<and> pe_Permanent e)"
    by (cases err) (auto simp: classifyFailure_def Let_def MaxAttempts_def)
  have retry: "\<not> fl_Permanent ?f \<Longrightarrow> fl_RetryAt ?f > now"
  proof -
    assume np: "\<not> fl_Permanent ?f"
    then have "attempts < 4" using perm by auto
    then have "fl_RetryAt ?f = now + retryDelays ! nat (attempts - 1)"
      using np assms(1) unfolding classifyFailure_def Let_def
      by (cases err) (auto simp: retryDelays_def split: if_splits)
    with retry_delay_positive [OF assms(1) \<open>attempts < 4\<close>] show ?thesis by simp
  qed
  have "fst (Fail_job fault dbnow job ?f db) \<noteq> Inl (ErrProcessing ''invalid failure'')"
    if "jb_ID job \<noteq> uuid_Nil" "jb_FileVersionID job \<noteq> uuid_Nil" "jb_LeaseOwner job \<noteq> []" for job db
  proof -
    have ok: "\<not> (jb_ID job = uuid_Nil \<or> jb_FileVersionID job = uuid_Nil \<or> jb_LeaseOwner job = [] \<or>
        \<not> stableCategory (fl_Category ?f) \<or> (\<not> fl_Permanent ?f \<and> fl_RetryAt ?f = time_zero))"
      using that cat retry assms(2) by auto
    show ?thesis
      unfolding Fail_job_def if_not_P [OF ok] by (auto simp: transact_def split: option.split)
  qed
  with cat perm retry show ?thesis by (simp add: Let_def)
qed

lemma Complete_job_settles:
  assumes "Complete_job fault dbnow job r db = (Inr x, db')"
  shows "file_processing_jobs db' =
    update_where (\<lambda>j. j_id j = jb_ID job) (close_job StateCompleted None dbnow) (file_processing_jobs db)"
proof -
  from assms obtain j where j: "find (\<lambda>j. j_id j = jb_ID job \<and> held_by (jb_LeaseOwner job) dbnow j) (file_processing_jobs db) = Some j"
    by (auto simp: Complete_job_def transact_def split: if_splits option.splits)
  with assms obtain fv where fv: "find (\<lambda>fv. fv_id fv = j_file_version_id j) (file_versions db) = Some fv"
    by (auto simp: Complete_job_def transact_def split: if_splits option.splits)
  from assms show ?thesis
    unfolding Complete_job_def transact_def j fv option.case Let_def
    by (auto simp: j fv Let_def split: if_split_asm option.splits sum.splits)
qed

lemma Fail_job_settles:
  assumes "Fail_job fault dbnow job f db = (Inr x, db')"
  shows "\<exists>g. file_processing_jobs db' = update_where (\<lambda>j. j_id j = jb_ID job) g (file_processing_jobs db) \<and>
    (\<forall>j. j_id (g j) = j_id j \<and> j_state (g j) \<noteq> StateRunning \<and> j_lease_owner (g j) = None)"
proof -
  from assms obtain j where j: "find (\<lambda>j. j_id j = jb_ID job \<and> held_by (jb_LeaseOwner job) dbnow j) (file_processing_jobs db) = Some j"
    by (auto simp: Fail_job_def transact_def split: if_splits option.splits)
  show ?thesis
  proof (cases "fl_Permanent f \<or> jb_Attempts job \<ge> MaxAttempts")
    case True
    with assms j show ?thesis
      by (intro exI [of _ "close_job StateFailed (Some (fl_Category f)) dbnow"])
        (auto simp: Fail_job_def transact_def split: if_split_asm)
  next
    case False
    with assms j show ?thesis
      by (intro exI [of _ "\<lambda>j. (close_job StateQueued (Some (fl_Category f)) dbnow j)\<lparr>j_available_at := fl_RetryAt f\<rparr>"])
        (auto simp: Fail_job_def transact_def split: if_split_asm)
  qed
qed

definition undisturbed :: "worker_event list \<Rightarrow> bool" where
  "undisturbed evs = list_all (\<lambda>e. case e of EvCancelled \<Rightarrow> False | EvTick d _ _ _ \<Rightarrow> \<not> d | EvFinished d _ _ _ _ \<Rightarrow> \<not> d) evs"

lemma worker_loop_settles:
  assumes "worker_loop w job evs db = (Some (True, None), db')" and "undisturbed evs"
    and "j \<in> set (file_processing_jobs db')" "j_id j = jb_ID job"
  shows "j_state j \<noteq> StateRunning \<and> j_lease_owner j = None"
  using assms
proof (induction w job evs db rule: worker_loop.induct)
  case (3 w job d now dbnow fault evs db)
  then show ?case
    by (auto simp: undisturbed_def split: if_splits prod.splits option.splits)
next
  case (4 w job d outcome now dbnow fault evs db)
  then have settled: "settle r m = (True, None) \<Longrightarrow> r = Inr ()" for r m
    by (auto simp: settle_def split: sum.splits processing_error.splits)
  show ?case
  proof (cases outcome)
    case (Inl err)
    with 4 obtain r where r: "Fail_job fault dbnow job (classifyFailure err (jb_Attempts job) now) db = (r, db')"
      "settle r ''fail processing job'' = (True, None)"
      by (auto simp: undisturbed_def split: prod.splits)
    from Fail_job_settles [OF r(1) [unfolded settled [OF r(2)]]]
    obtain g where "file_processing_jobs db' = update_where (\<lambda>j. j_id j = jb_ID job) g (file_processing_jobs db)"
      "\<forall>j. j_id (g j) = j_id j \<and> j_state (g j) \<noteq> StateRunning \<and> j_lease_owner (g j) = None"
      by blast
    with "4.prems"(3,4) show ?thesis by (auto simp: set_update_where split: if_splits)
  next
    case (Inr result)
    with 4 obtain r where r: "Complete_job fault dbnow job result db = (r, db')"
      "settle r ''complete processing job'' = (True, None)"
      by (auto simp: undisturbed_def split: prod.splits)
    from Complete_job_settles [OF r(1) [unfolded settled [OF r(2)]]] "4.prems"(3,4) show ?thesis by (auto simp: set_update_where split: if_splits)
  qed
qed (auto simp: undisturbed_def)

text \<open>A turn of the worker settles its job. When \<open>RunOne\<close> reports success for a job and the
  worker was not being stopped, the job it leased is no longer running and its lease is
  gone: the job is completed, failed, or queued for a later attempt.\<close>

theorem run_one_settles_job:
  assumes "RunOne w gate fault adm busy now lease_ctx_done evs db = (Some (True, None), db')" and "undisturbed evs"
  shows "\<exists>job db1. LeaseNext fault adm busy (w_Owner w) now (leaseDuration w) db = (Inr job, db1) \<and>
    (\<forall>j \<in> set (file_processing_jobs db'). j_id j = jb_ID job \<longrightarrow> j_state j \<noteq> StateRunning \<and> j_lease_owner j = None)"
proof -
  obtain r db1 where lease: "LeaseNext fault adm busy (w_Owner w) now (leaseDuration w) db = (r, db1)" by force
  with assms(1) obtain job where "r = Inr job" "worker_loop w job evs db1 = (Some (True, None), db')"
    by (cases r) (auto simp: RunOne_def split: option.splits if_splits processing_error.splits)
  with lease worker_loop_settles [OF _ assms(2)] show ?thesis by auto
qed

section \<open>Concrete turns\<close>

definition office_worker :: Worker where
  "office_worker = \<lparr>w_configured = True, w_Owner = ''w1'', w_IdleWait = 0, w_LeaseDuration = 30, w_HeartbeatInterval = 0, w_Deadlines = []\<rparr>"

definition short_turn :: "worker_event list" where
  "short_turn = [EvTick False 65 66 False, EvFinished False (Inl None) 70 70 False]"

lemma processing_error_stable: "stableCategory ''processing_error''"
  by (simp add: stableCategory_def byte_def)

theorem classified_failure_accepted_witness:
  "stableCategory (fl_Category (classifyFailure None 2 100)) \<and> fl_RetryAt (classifyFailure None 2 100) > 100"
proof -
  have "\<not> fl_Permanent (classifyFailure None 2 100)"
    by (simp add: classifyFailure_def MaxAttempts_def retryDelays_def)
  with classified_failure_accepted [of 2 100 None False 100] show ?thesis by (simp add: Let_def)
qed

lemma waiting_run:
  "\<exists>db'. RunOne office_worker None False normal_admission (\<lambda>_. False) 60 False short_turn (one_job waiting_job Pending_scan) =
     (Some (True, None), db')"
  by (simp add: RunOne_def validate_worker_def office_worker_def leaseDuration_def LeaseNext_admitted)
    (simp add: short_turn_def one_job_def waiting_job_def queued_job_def exhaust_def exhausted_def claimable_job_def
      claim_def claim_job_def claimable_version_def job_of_def rows_affected_def Heartbeat_def held_by_def lease_after_def
      Fail_job_def transact_def classifyFailure_def MaxAttempts_def retryDelays_def processing_error_stable settle_def Let_def
      leaseDuration_def lease_before_def empty_files_db_def)

theorem run_one_settles_job_witness:
  "\<exists>db'. RunOne office_worker None False normal_admission (\<lambda>_. False) 60 False short_turn (one_job waiting_job Pending_scan) =
     (Some (True, None), db') \<and>
   (\<exists>job db1. LeaseNext False normal_admission (\<lambda>_. False) ''w1'' 60 30 (one_job waiting_job Pending_scan) = (Inr job, db1) \<and>
      (\<forall>j \<in> set (file_processing_jobs db'). j_id j = jb_ID job \<longrightarrow> j_state j \<noteq> StateRunning \<and> j_lease_owner j = None))"
proof -
  obtain db' where run: "RunOne office_worker None False normal_admission (\<lambda>_. False) 60 False short_turn
      (one_job waiting_job Pending_scan) = (Some (True, None), db')" using waiting_run by blast
  have "undisturbed short_turn" by (simp add: undisturbed_def short_turn_def)
  from run_one_settles_job [OF run this] run show ?thesis by (auto simp: office_worker_def leaseDuration_def)
qed

end
