(* ===== verification/Go_Float.thy ===== *)
theory Go_Float
  imports Prelude Complex_Main "HOL-Library.Log_Nat"
begin

text \<open>
  Go's \<^verbatim>\<open>float64\<close>: the IEEE binary64 values with rounding to nearest, ties to even. A finite
  value is a rational number (\<open>Fin 0\<close> is the positive zero); the operations the metrics
  code uses are exact rational operations followed by \<open>fround\<close>.
\<close>

section \<open>Values and comparisons\<close>

datatype float64 = NaN | PosInf | NegInf | NegZero | Fin rat

fun frank :: "float64 \<Rightarrow> (int \<times> rat) option" where
  "frank NaN = None"
| "frank PosInf = Some (1, 0)"
| "frank NegInf = Some (-1, 0)"
| "frank NegZero = Some (0, 0)"
| "frank (Fin q) = Some (0, q)"

definition flt :: "float64 \<Rightarrow> float64 \<Rightarrow> bool" where
  "flt a b = (case (frank a, frank b) of (Some x, Some y) \<Rightarrow> x < y | _ \<Rightarrow> False)"

definition fle :: "float64 \<Rightarrow> float64 \<Rightarrow> bool" where
  "fle a b = (case (frank a, frank b) of (Some x, Some y) \<Rightarrow> x \<le> y | _ \<Rightarrow> False)"

definition feq :: "float64 \<Rightarrow> float64 \<Rightarrow> bool" where
  "feq a b = (case (frank a, frank b) of (Some x, Some y) \<Rightarrow> x = y | _ \<Rightarrow> False)"

fun fval :: "float64 \<Rightarrow> rat" where
  "fval (Fin q) = q"
| "fval _ = 0"

definition IsNaN :: "float64 \<Rightarrow> bool" where "IsNaN v \<longleftrightarrow> v = NaN"
definition IsInf :: "float64 \<Rightarrow> bool" where "IsInf v \<longleftrightarrow> v = PosInf \<or> v = NegInf"

text \<open>\<^verbatim>\<open>math.Trunc(v) == v\<close> for a finite value.\<close>

definition integral :: "float64 \<Rightarrow> bool" where
  "integral v \<longleftrightarrow> of_int \<lfloor>fval v\<rfloor> = fval v"

section \<open>Rounding\<close>

definition round_half_even :: "rat \<Rightarrow> int" where
  "round_half_even q = (let f = \<lfloor>q\<rfloor>; r = q - of_int f
     in if r < 1 / 2 then f else if r > 1 / 2 then f + 1 else if even f then f else f + 1)"

text \<open>The exponent of the last place of a positive rational: 53 significant bits, and no
  less than the exponent of the subnormal numbers.\<close>

definition ulp_exponent :: "rat \<Rightarrow> int" where
  "ulp_exponent q = (case quotient_of q of (a, b) \<Rightarrow>
     let k = bitlen a - bitlen b
     in max (-1074) (if q < 2 powi k then k - 53 else k - 52))"

definition fround :: "rat \<Rightarrow> float64" where
  "fround q =
     (if q = 0 then Fin 0
      else let e = ulp_exponent \<bar>q\<bar>; v = of_int (round_half_even (\<bar>q\<bar> / 2 powi e)) * 2 powi e
        in if v \<ge> 2 ^ 1024 then (if q < 0 then NegInf else PosInf)
           else if v = 0 then (if q < 0 then NegZero else Fin 0)
           else Fin (sgn q * v))"

section \<open>Arithmetic\<close>

definition fneg :: "float64 \<Rightarrow> bool" where
  "fneg v = (case v of NegInf \<Rightarrow> True | NegZero \<Rightarrow> True | Fin q \<Rightarrow> q < 0 | _ \<Rightarrow> False)"

definition fzero :: "float64 \<Rightarrow> bool" where "fzero v \<longleftrightarrow> v = NegZero \<or> v = Fin 0"

definition signed_zero :: "bool \<Rightarrow> float64" where "signed_zero neg = (if neg then NegZero else Fin 0)"
definition signed_inf :: "bool \<Rightarrow> float64" where "signed_inf neg = (if neg then NegInf else PosInf)"

definition fadd :: "float64 \<Rightarrow> float64 \<Rightarrow> float64" where
  "fadd a b =
     (if IsNaN a \<or> IsNaN b then NaN
      else if IsInf a then (if IsInf b \<and> a \<noteq> b then NaN else a)
      else if IsInf b then b
      else if a = NegZero \<and> b = NegZero then NegZero
      else fround (fval a + fval b))"

definition fmul :: "float64 \<Rightarrow> float64 \<Rightarrow> float64" where
  "fmul a b =
     (let neg = (fneg a \<noteq> fneg b)
      in if IsNaN a \<or> IsNaN b then NaN
         else if IsInf a \<or> IsInf b then (if fzero a \<or> fzero b then NaN else signed_inf neg)
         else if fzero a \<or> fzero b then signed_zero neg
         else fround (fval a * fval b))"

definition fdiv :: "float64 \<Rightarrow> float64 \<Rightarrow> float64" where
  "fdiv a b =
     (let neg = (fneg a \<noteq> fneg b)
      in if IsNaN a \<or> IsNaN b then NaN
         else if IsInf a then (if IsInf b then NaN else signed_inf neg)
         else if IsInf b then signed_zero neg
         else if fzero b then (if fzero a then NaN else signed_inf neg)
         else if fzero a then signed_zero neg
         else fround (fval a / fval b))"

definition float_of_int :: "int \<Rightarrow> float64" where "float_of_int n = fround (of_int n)"

section \<open>Exactness and sign\<close>

lemma flt_Fin [simp]: "flt (Fin a) (Fin b) \<longleftrightarrow> a < b" by (simp add: flt_def)
lemma fle_Fin [simp]: "fle (Fin a) (Fin b) \<longleftrightarrow> a \<le> b" by (simp add: fle_def)
lemma feq_Fin [simp]: "feq (Fin a) (Fin b) \<longleftrightarrow> a = b" by (simp add: feq_def)

lemma round_half_even_int [simp]: "round_half_even (of_int n) = n"
  by (simp add: round_half_even_def)

lemma round_half_even_nonneg: "0 \<le> q \<Longrightarrow> 0 \<le> round_half_even q"
  by (auto simp: round_half_even_def Let_def)

lemma ulp_exponent_int:
  assumes "0 < n" and "n < 2 ^ 53"
  shows "ulp_exponent (of_int n) = bitlen n - 53"
proof -
  have "bitlen n \<le> 53" using assms bitlen_le_iff_power [of n 53] by simp
  moreover have "1 \<le> bitlen n" using assms(1) by (simp add: bitlen_def floorlog_def)
  moreover have "2 ^ nat (bitlen n - 1) \<le> n" using bitlen_bounds [OF assms(1)] by blast
  then have "(2::rat) powi (bitlen n - 1) \<le> of_int n"
    using \<open>1 \<le> bitlen n\<close> by (simp add: power_int_def)
  moreover have "bitlen 1 = 1" by (simp add: bitlen_def floorlog_def)
  ultimately show ?thesis
    by (simp add: ulp_exponent_def quotient_of_int Let_def)
qed

lemma fround_int:
  assumes "0 \<le> n" and "n < 2 ^ 53"
  shows "fround (of_int n) = Fin (of_int n)"
proof (cases "n = 0")
  case False
  let ?e = "bitlen n - 53"
  have e: "?e \<le> 0" using assms bitlen_le_iff_power [of n 53] by simp
  have p: "(2::rat) powi ?e = inverse (2 ^ nat (- ?e))" using e by (simp add: power_int_def power_one_over inverse_eq_divide)
  have "(of_int n :: rat) / 2 powi ?e = of_int (n * 2 ^ nat (- ?e))"
    unfolding p by (simp add: divide_inverse)
  then have "round_half_even (of_int n / 2 powi ?e) = n * 2 ^ nat (- ?e)"
    by (simp only: round_half_even_int)
  then have v: "of_int (round_half_even (of_int n / 2 powi ?e)) * (2::rat) powi ?e = of_int n"
    unfolding p by simp
  have "(of_int n :: rat) < 2 ^ 1024"
  proof -
    have "n < 2 ^ 1024" using assms(2) by (rule less_le_trans) simp
    then show ?thesis by (metis of_int_less_iff of_int_numeral of_int_power)
  qed
  with False assms v show ?thesis
    by (simp add: fround_def ulp_exponent_int Let_def)
qed (simp add: fround_def)

lemma float_of_int_exact [simp]: "0 \<le> n \<Longrightarrow> n < 2 ^ 53 \<Longrightarrow> float_of_int n = Fin (of_int n)"
  unfolding float_of_int_def by (rule fround_int)

lemma fround_nonneg:
  assumes "0 \<le> q"
  shows "fround q = PosInf \<or> (\<exists>v \<ge> 0. fround q = Fin v)"
proof (cases "q = 0")
  case False
  let ?e = "ulp_exponent \<bar>q\<bar>"
  let ?v = "of_int (round_half_even (\<bar>q\<bar> / 2 powi ?e)) * (2::rat) powi ?e"
  have "0 \<le> ?v" by (intro mult_nonneg_nonneg) (simp_all add: round_half_even_nonneg)
  with assms False show ?thesis by (auto simp: fround_def Let_def)
qed (simp add: fround_def)

end
