(* ===== verification/Alert_Rules.thy ===== *)
theory Alert_Rules
  imports Go_Strings Go_Float
begin

text \<open>
  The pure part of the monitoring: the operational settings
  (\<^verbatim>\<open>internal/operations/model.go\<close>), the samples and their rules (\<^verbatim>\<open>sample.go\<close>), and
  the alert rules with their evaluations (\<^verbatim>\<open>alerts.go\<close>). Go's string types
  (\<^verbatim>\<open>SampleSource\<close>, \<^verbatim>\<open>SampleMetric\<close>, \<^verbatim>\<open>Direction\<close> and so on) are open, so they
  are strings here too. Instants are UTC.
\<close>

datatype operations_error = ErrOpsInvalid | ErrOpsForbidden | ErrOpsConflict | ErrAlertNotFound
  | ErrAlertAlreadyResolved | ErrAlertCollectorUnavailable | ErrOpsDriver

section \<open>Settings\<close>

text \<open>\<^verbatim>\<open>InfrastructureKey\<close> is a \<^verbatim>\<open>uint8\<close> whose nine constants are 1 to 9.\<close>

record InfrastructureStatus =
  is_Key :: nat
  is_Configured :: bool
  is_LastValidatedAt :: "time option"

record Settings =
  st_Version :: int
  st_SiteName :: string
  st_SiteAnnouncement :: string
  st_SoftDeleteRetentionDays :: int
  st_AuditRetentionDays :: int
  st_OperationalSampleRetentionDays :: int
  st_BackupHour :: int
  st_BackupMinute :: int
  st_BackupTimezone :: string
  st_DiskWarningPercent :: int
  st_DiskCriticalPercent :: int
  st_BackupFilesystemWarningPercent :: int
  st_BackupFilesystemCriticalPercent :: int
  st_LocalBackupAgeWarningHours :: int
  st_LocalBackupAgeCriticalHours :: int
  st_AIErrorWarningPercent :: int
  st_AIErrorCriticalPercent :: int
  st_ProcessingQueueWarning :: int
  st_ProcessingQueueCritical :: int
  st_ProcessingFailureWarningCount :: int
  st_ProcessingFailureCriticalCount :: int
  st_LoginFailureWarningCount :: int
  st_LoginFailureCriticalCount :: int
  st_AuthorizationDenialWarningCount :: int
  st_AuthorizationDenialCriticalCount :: int
  st_Infrastructure :: "InfrastructureStatus list"
  st_UpdatedBy :: uuid
  st_UpdatedAt :: time

definition validPercentThresholdPair :: "int \<Rightarrow> int \<Rightarrow> bool" where
  "validPercentThresholdPair warning critical \<longleftrightarrow> warning \<ge> 1 \<and> warning \<le> 99 \<and> critical > warning \<and> critical \<le> 100"

definition validCountThresholdPair :: "int \<Rightarrow> int \<Rightarrow> bool" where
  "validCountThresholdPair warning critical \<longleftrightarrow>
     warning \<ge> 1 \<and> warning \<le> 2147483646 \<and> critical > warning \<and> critical \<le> 2147483647"

definition ValidateSettings :: "Settings \<Rightarrow> operations_error option" where
  "ValidateSettings s =
     (let siteNameLength = RuneCount (st_SiteName s); announcementLength = RuneCount (st_SiteAnnouncement s)
      in if st_Version s < 1 \<or>
         \<not> ValidString (st_SiteName s) \<or> siteNameLength < 1 \<or> siteNameLength > 80 \<or>
         \<not> ValidString (st_SiteAnnouncement s) \<or> announcementLength > 1000 \<or>
         st_SoftDeleteRetentionDays s < 30 \<or> st_SoftDeleteRetentionDays s > 365 \<or>
         st_AuditRetentionDays s < 365 \<or> st_AuditRetentionDays s > 2555 \<or>
         st_OperationalSampleRetentionDays s < 1 \<or> st_OperationalSampleRetentionDays s > 30 \<or>
         st_BackupHour s < 0 \<or> st_BackupHour s > 23 \<or>
         st_BackupMinute s < 0 \<or> st_BackupMinute s > 59 \<or>
         st_BackupTimezone s \<noteq> ''Asia/Shanghai'' \<or>
         \<not> validPercentThresholdPair (st_DiskWarningPercent s) (st_DiskCriticalPercent s) \<or>
         \<not> validPercentThresholdPair (st_BackupFilesystemWarningPercent s) (st_BackupFilesystemCriticalPercent s) \<or>
         \<not> validCountThresholdPair (st_LocalBackupAgeWarningHours s) (st_LocalBackupAgeCriticalHours s) \<or>
         \<not> validPercentThresholdPair (st_AIErrorWarningPercent s) (st_AIErrorCriticalPercent s) \<or>
         \<not> validCountThresholdPair (st_ProcessingQueueWarning s) (st_ProcessingQueueCritical s) \<or>
         \<not> validCountThresholdPair (st_ProcessingFailureWarningCount s) (st_ProcessingFailureCriticalCount s) \<or>
         \<not> validCountThresholdPair (st_LoginFailureWarningCount s) (st_LoginFailureCriticalCount s) \<or>
         \<not> validCountThresholdPair (st_AuthorizationDenialWarningCount s) (st_AuthorizationDenialCriticalCount s)
      then Some ErrOpsInvalid else None)"

text \<open>\<^verbatim>\<open>service.go\<close>: the reason under which a rejected update is audited.\<close>

definition highRiskSettingsReason :: "Settings \<Rightarrow> string" where
  "highRiskSettingsReason s =
     (if st_SoftDeleteRetentionDays s < 30 \<or> st_SoftDeleteRetentionDays s > 365 \<or>
         st_AuditRetentionDays s < 365 \<or> st_AuditRetentionDays s > 2555 \<or>
         st_OperationalSampleRetentionDays s < 1 \<or> st_OperationalSampleRetentionDays s > 30
      then ''retention''
      else if st_BackupHour s < 0 \<or> st_BackupHour s > 23 \<or> st_BackupMinute s < 0 \<or> st_BackupMinute s > 59 \<or>
         st_BackupTimezone s \<noteq> ''Asia/Shanghai''
      then ''backup_schedule''
      else if \<not> validPercentThresholdPair (st_DiskWarningPercent s) (st_DiskCriticalPercent s) \<or>
         \<not> validPercentThresholdPair (st_BackupFilesystemWarningPercent s) (st_BackupFilesystemCriticalPercent s) \<or>
         \<not> validCountThresholdPair (st_LocalBackupAgeWarningHours s) (st_LocalBackupAgeCriticalHours s) \<or>
         \<not> validPercentThresholdPair (st_AIErrorWarningPercent s) (st_AIErrorCriticalPercent s) \<or>
         \<not> validCountThresholdPair (st_ProcessingQueueWarning s) (st_ProcessingQueueCritical s) \<or>
         \<not> validCountThresholdPair (st_ProcessingFailureWarningCount s) (st_ProcessingFailureCriticalCount s) \<or>
         \<not> validCountThresholdPair (st_LoginFailureWarningCount s) (st_LoginFailureCriticalCount s) \<or>
         \<not> validCountThresholdPair (st_AuthorizationDenialWarningCount s) (st_AuthorizationDenialCriticalCount s)
      then ''threshold''
      else [])"

section \<open>Infrastructure status\<close>

definition infrastructureKeyOrder :: "nat list" where "infrastructureKeyOrder = [1, 2, 3, 4, 5, 6, 7, 8, 9]"

definition infrastructureStorageKey :: "nat \<Rightarrow> string" where
  "infrastructureStorageKey key =
     (if key = 1 then ''application_database'' else if key = 2 then ''redis_security''
      else if key = 3 then ''object_store'' else if key = 4 then ''ai_encryption''
      else if key = 5 then ''internal_metrics'' else if key = 6 then ''host_metrics_ingestion''
      else if key = 7 then ''alert_webhook'' else if key = 8 then ''local_backup''
      else if key = 9 then ''remote_backup'' else [])"

definition infrastructureKeyFromStorage :: "string \<Rightarrow> nat \<times> bool" where
  "infrastructureKeyFromStorage v =
     (case find (\<lambda>k. infrastructureStorageKey k = v) infrastructureKeyOrder of Some k \<Rightarrow> (k, True) | None \<Rightarrow> (0, False))"

definition normalize_status :: "InfrastructureStatus \<Rightarrow> InfrastructureStatus" where
  "normalize_status s = s\<lparr>is_LastValidatedAt := (case is_LastValidatedAt s of Some t \<Rightarrow> if t = time_zero then None else Some t | None \<Rightarrow> None)\<rparr>"

definition NormalizeInfrastructureStatuses :: "InfrastructureStatus list \<Rightarrow> InfrastructureStatus list" where
  "NormalizeInfrastructureStatuses input =
     (let byKey = fold (\<lambda>s m. if infrastructureStorageKey (is_Key s) = [] then m else m(is_Key s \<mapsto> normalize_status s)) input Map.empty
      in map (\<lambda>k. case byKey k of Some s \<Rightarrow> s | None \<Rightarrow> \<lparr>is_Key = k, is_Configured = False, is_LastValidatedAt = None\<rparr>)
           infrastructureKeyOrder)"

section \<open>Instants\<close>

text \<open>\<^verbatim>\<open>time.Time.Sub\<close> saturates at the ends of \<^verbatim>\<open>int64\<close>. Year 10000 starts 3652059 days
  after the zero instant.\<close>

definition time_sub :: "time \<Rightarrow> time \<Rightarrow> duration" where
  "time_sub a b = max (- (2 ^ 63)) (min (2 ^ 63 - 1) (a - b))"

definition year_10000 :: time where "year_10000 = 3652059 * 24 * Hour"

definition validSampleTime :: "time \<Rightarrow> bool" where
  "validSampleTime t \<longleftrightarrow> t \<noteq> time_zero \<and> 0 \<le> t \<and> t < year_10000"

lemma time_sub_small:
  assumes "- (2 ^ 62) < d" and "d < 2 ^ 62"
  shows "time_sub a b < d \<longleftrightarrow> a - b < d" and "time_sub a b = d \<longleftrightarrow> a - b = d" and "d < time_sub a b \<longleftrightarrow> d < a - b"
  using assms unfolding time_sub_def by auto

section \<open>Samples\<close>

definition maxSampleFutureSkew :: duration where "maxSampleFutureSkew = 2 * Minute"
definition maxSampleWindow :: duration where "maxSampleWindow = 24 * Hour"
definition maxExactFloatInteger :: float64 where "maxExactFloatInteger = Fin 9007199254740991"
definition DashboardSampleFreshFor :: duration where "DashboardSampleFreshFor = 2 * Minute"

record Sample =
  sm_Source :: string
  sm_Metric :: string
  sm_Scope :: string
  sm_Value :: float64
  sm_Unit :: string
  sm_ObservedAt :: time
  sm_WindowStartedAt :: "time option"

type_synonym sampleSeries = "string \<times> string \<times> string"

datatype sampleWindowPolicy = sampleWindowForbidden | sampleWindowRequired

record sampleRule =
  sr_unit :: string
  sr_windowPolicy :: sampleWindowPolicy

definition add_rule :: "string \<Rightarrow> string \<Rightarrow> string \<Rightarrow> string \<Rightarrow> sampleWindowPolicy \<Rightarrow> sampleSeries \<times> sampleRule" where
  "add_rule source metric scope u policy = ((source, metric, scope), \<lparr>sr_unit = u, sr_windowPolicy = policy\<rparr>)"

definition sampleRules :: "(sampleSeries \<times> sampleRule) list" where
  "sampleRules =
     [add_rule ''app'' ''service_up'' ''app'' ''boolean'' sampleWindowForbidden,
      add_rule ''app'' ''service_ready'' ''app'' ''boolean'' sampleWindowForbidden,
      add_rule ''postgres'' ''service_up'' ''postgres'' ''boolean'' sampleWindowForbidden,
      add_rule ''redis'' ''service_up'' ''redis'' ''boolean'' sampleWindowForbidden,
      add_rule ''object_store'' ''service_up'' ''object_store'' ''boolean'' sampleWindowForbidden,
      add_rule ''worker'' ''service_up'' ''worker'' ''boolean'' sampleWindowForbidden] @
     concat (map (\<lambda>scope.
       [add_rule ''host'' ''service_up'' scope ''boolean'' sampleWindowForbidden,
        add_rule ''host'' ''host_service_cpu_percent'' scope ''percent'' sampleWindowForbidden,
        add_rule ''host'' ''host_service_memory_bytes'' scope ''bytes'' sampleWindowForbidden,
        add_rule ''host'' ''host_service_memory_limit_bytes'' scope ''bytes'' sampleWindowForbidden,
        add_rule ''host'' ''host_service_restarts'' scope ''count'' sampleWindowForbidden])
       [''app'', ''caddy'', ''postgres'', ''redis'', ''object_store'', ''worker'']) @
     map (\<lambda>(source, scope). add_rule source ''service_latency_milliseconds'' scope ''milliseconds'' sampleWindowForbidden)
       [(''postgres'', ''postgres''), (''redis'', ''redis''), (''object_store'', ''object_store'')] @
     [add_rule ''postgres'' ''postgres_pool_in_use'' ''postgres'' ''count'' sampleWindowForbidden,
      add_rule ''postgres'' ''postgres_transaction_failures_total'' ''postgres'' ''count'' sampleWindowRequired,
      add_rule ''postgres'' ''postgres_migration_version'' ''postgres'' ''version'' sampleWindowForbidden,
      add_rule ''redis'' ''redis_limiter_up'' ''redis'' ''boolean'' sampleWindowForbidden,
      add_rule ''object_store'' ''object_capacity_bytes'' ''object_store'' ''bytes'' sampleWindowForbidden,
      add_rule ''object_store'' ''object_used_bytes'' ''object_store'' ''bytes'' sampleWindowForbidden,
      add_rule ''object_store'' ''object_operation_failures_total'' ''object_store'' ''count'' sampleWindowRequired] @
     concat (map (\<lambda>scope.
       [add_rule ''worker'' ''queue_items'' scope ''count'' sampleWindowForbidden,
        add_rule ''worker'' ''queue_failures_total'' scope ''count'' sampleWindowRequired]) [''processing'', ''outbox'']) @
     map (\<lambda>scope. add_rule ''app'' ''backup_age_seconds'' scope ''seconds'' sampleWindowForbidden) [''local'', ''remote''] @
     [add_rule ''app'' ''backup_remote_up'' ''remote'' ''boolean'' sampleWindowForbidden,
      add_rule ''app'' ''restore_age_seconds'' ''local'' ''seconds'' sampleWindowForbidden] @
     map (\<lambda>scope. add_rule ''app'' ''ai_runs'' scope ''count'' sampleWindowForbidden) [''queued'', ''streaming'', ''expired''] @
     map (\<lambda>scope. add_rule ''app'' ''ai_requests_total'' scope ''count'' sampleWindowRequired) [''succeeded'', ''failed''] @
     map (\<lambda>scope. add_rule ''app'' ''ai_latency_milliseconds'' scope ''milliseconds'' sampleWindowRequired) [''first_byte'', ''total''] @
     map (\<lambda>scope. add_rule ''app'' ''ai_tokens_total'' scope ''count'' sampleWindowRequired) [''input'', ''output''] @
     [add_rule ''app'' ''ai_cost_micro_usd'' ''total'' ''micro_usd'' sampleWindowRequired] @
     map (\<lambda>scope. add_rule ''app'' ''security_events_total'' scope ''count'' sampleWindowRequired)
       [''login_failure'', ''authorization_denial'', ''file_access_denial''] @
     map (\<lambda>scope. add_rule ''host'' ''filesystem_used_percent'' scope ''percent'' sampleWindowForbidden) [''root'', ''backup'']"

definition sampleRuleFor :: "string \<Rightarrow> string \<Rightarrow> string \<Rightarrow> sampleRule option" where
  "sampleRuleFor source metric scope = map_of sampleRules (source, metric, scope)"

definition validSampleValue :: "float64 \<Rightarrow> string \<Rightarrow> bool" where
  "validSampleValue v u =
     (if IsNaN v \<or> IsInf v \<or> flt v (Fin 0) \<or> v = NegZero \<or> flt maxExactFloatInteger v then False
      else if u = ''boolean'' then feq v (Fin 0) \<or> feq v (Fin 1)
      else if u = ''percent'' then fle v (Fin 100)
      else if u \<in> {''count'', ''version'', ''bytes'', ''micro_usd''} then integral v
      else u = ''milliseconds'' \<or> u = ''seconds'')"

definition ValidateSample :: "Sample \<Rightarrow> time \<Rightarrow> operations_error option" where
  "ValidateSample s now =
     (if \<not> validSampleTime now \<or> \<not> validSampleTime (sm_ObservedAt s) \<or> sm_ObservedAt s > now + maxSampleFutureSkew
      then Some ErrOpsInvalid
      else case sampleRuleFor (sm_Source s) (sm_Metric s) (sm_Scope s) of
        None \<Rightarrow> Some ErrOpsInvalid
      | Some rule \<Rightarrow>
          if sm_Unit s \<noteq> sr_unit rule \<or> \<not> validSampleValue (sm_Value s) (sm_Unit s) then Some ErrOpsInvalid
          else case sr_windowPolicy rule of
            sampleWindowForbidden \<Rightarrow> if sm_WindowStartedAt s \<noteq> None then Some ErrOpsInvalid else None
          | sampleWindowRequired \<Rightarrow>
              (case sm_WindowStartedAt s of
                 None \<Rightarrow> Some ErrOpsInvalid
               | Some w \<Rightarrow>
                   if \<not> validSampleTime w \<or> \<not> w < sm_ObservedAt s \<or> time_sub (sm_ObservedAt s) w > maxSampleWindow
                   then Some ErrOpsInvalid else None))"

definition NormalizeHostServiceScope :: "string \<Rightarrow> operations_error + string" where
  "NormalizeHostServiceScope service =
     (if service \<in> {''app'', ''caddy'', ''postgres'', ''redis'', ''worker''} then Inr service
      else if service = ''minio'' then Inr ''object_store''
      else Inl ErrOpsInvalid)"

section \<open>Alert rules\<close>

record Rule =
  rl_DedupeKey :: string
  rl_Category :: string
  rl_Summary :: string
  rl_Warning :: float64
  rl_Critical :: float64
  rl_Direction :: string
  rl_MinimumSamples :: int

text \<open>\<^verbatim>\<open>^[a-z][a-z0-9_]{0,n}$\<close>\<close>

definition lower_identifier :: "nat \<Rightarrow> string \<Rightarrow> bool" where
  "lower_identifier n s = (case s of [] \<Rightarrow> False
     | c # cs \<Rightarrow> 97 \<le> byte c \<and> byte c \<le> 122 \<and> length cs \<le> n \<and>
         list_all (\<lambda>d. (97 \<le> byte d \<and> byte d \<le> 122) \<or> (48 \<le> byte d \<and> byte d \<le> 57) \<or> byte d = 95) cs)"

definition alertIdentifier :: "string \<Rightarrow> bool" where "alertIdentifier = lower_identifier 127"

definition alertCategories :: "string list" where
  "alertCategories = [''storage'', ''backup'', ''ai'', ''processing'', ''security'']"

definition validAlertFloat :: "float64 \<Rightarrow> bool" where
  "validAlertFloat v \<longleftrightarrow> \<not> IsNaN v \<and> \<not> IsInf v"

definition safeAlertSummary :: "string \<Rightarrow> bool" where
  "safeAlertSummary summary \<longleftrightarrow>
     ValidString summary \<and> TrimSpace summary = summary \<and> summary \<noteq> [] \<and> RuneCount summary \<le> 240 \<and>
     list_all (\<lambda>r. \<not> IsControl r) (runes summary)"

definition validateAlertRule :: "Rule \<Rightarrow> operations_error option" where
  "validateAlertRule rule =
     (if \<not> alertIdentifier (rl_DedupeKey rule) \<or> length (rl_DedupeKey rule) > 128 \<or> \<not> alertIdentifier (rl_Category rule)
      then Some ErrOpsInvalid
      else if rl_Category rule \<notin> set alertCategories then Some ErrOpsInvalid
      else if \<not> safeAlertSummary (rl_Summary rule) \<or> \<not> validAlertFloat (rl_Warning rule) \<or>
              \<not> validAlertFloat (rl_Critical rule) \<or> rl_MinimumSamples rule < 1
      then Some ErrOpsInvalid
      else if rl_Direction rule = ''above''
      then (if fle (rl_Critical rule) (rl_Warning rule) then Some ErrOpsInvalid else None)
      else if rl_Direction rule = ''below''
      then (if fle (rl_Warning rule) (rl_Critical rule) then Some ErrOpsInvalid else None)
      else Some ErrOpsInvalid)"

definition mk_rule :: "string \<Rightarrow> string \<Rightarrow> string \<Rightarrow> float64 \<Rightarrow> float64 \<Rightarrow> string \<Rightarrow> int \<Rightarrow> Rule" where
  "mk_rule key category summary warning critical direction samples =
     \<lparr>rl_DedupeKey = key, rl_Category = category, rl_Summary = summary, rl_Warning = warning, rl_Critical = critical,
      rl_Direction = direction, rl_MinimumSamples = samples\<rparr>"

definition hours_in_seconds :: "int \<Rightarrow> float64" where
  "hours_in_seconds h = fmul (fmul (float_of_int h) (Fin 60)) (Fin 60)"

definition alert_rules :: "Settings \<Rightarrow> Rule list" where
  "alert_rules s =
     [mk_rule ''filesystem_root_usage'' ''storage'' ''Root filesystem usage is high''
        (float_of_int (st_DiskWarningPercent s)) (float_of_int (st_DiskCriticalPercent s)) ''above'' 1,
      mk_rule ''filesystem_backup_usage'' ''storage'' ''Backup filesystem usage is high''
        (float_of_int (st_BackupFilesystemWarningPercent s)) (float_of_int (st_BackupFilesystemCriticalPercent s)) ''above'' 1,
      mk_rule ''backup_local_age'' ''backup'' ''Verified local backup is overdue''
        (hours_in_seconds (st_LocalBackupAgeWarningHours s)) (hours_in_seconds (st_LocalBackupAgeCriticalHours s)) ''above'' 1,
      mk_rule ''backup_remote_sync'' ''backup'' ''Remote backup replication is unavailable'' (Fin 1) (Fin (-1)) ''below'' 1,
      mk_rule ''ai_error_rate'' ''ai'' ''AI error rate is high''
        (float_of_int (st_AIErrorWarningPercent s)) (float_of_int (st_AIErrorCriticalPercent s)) ''above'' 20,
      mk_rule ''processing_queue_depth'' ''processing'' ''Processing queue depth is high''
        (float_of_int (st_ProcessingQueueWarning s)) (float_of_int (st_ProcessingQueueCritical s)) ''above'' 1,
      mk_rule ''processing_failures'' ''processing'' ''Processing failures are high''
        (float_of_int (st_ProcessingFailureWarningCount s)) (float_of_int (st_ProcessingFailureCriticalCount s)) ''above'' 1,
      mk_rule ''login_failures'' ''security'' ''Login failures are high''
        (float_of_int (st_LoginFailureWarningCount s)) (float_of_int (st_LoginFailureCriticalCount s)) ''above'' 1,
      mk_rule ''authorization_denials'' ''security'' ''Authorization denials are high''
        (float_of_int (st_AuthorizationDenialWarningCount s)) (float_of_int (st_AuthorizationDenialCriticalCount s)) ''above'' 1]"

fun first_error :: "('a \<Rightarrow> 'e option) \<Rightarrow> 'a list \<Rightarrow> 'e option" where
  "first_error f [] = None"
| "first_error f (x # xs) = (case f x of Some e \<Rightarrow> Some e | None \<Rightarrow> first_error f xs)"

definition DefaultAlertRules :: "Settings \<Rightarrow> operations_error + Rule list" where
  "DefaultAlertRules s = (case ValidateSettings s of
     Some e \<Rightarrow> Inl e
   | None \<Rightarrow> (case first_error validateAlertRule (alert_rules s) of Some e \<Rightarrow> Inl e | None \<Rightarrow> Inr (alert_rules s)))"

end
