(* ===== verification/Alert_Evaluation.thy ===== *)
theory Alert_Evaluation
  imports Alert_Rules
begin

text \<open>
  From samples to conditions: \<^verbatim>\<open>BuildAlertEvaluations\<close>, \<^verbatim>\<open>classifyAlertEvaluation\<close> and
  the functions they call (\<^verbatim>\<open>internal/operations/alerts.go\<close>), the validity of the default
  rules and of every evaluation that is built from valid samples.
\<close>

section \<open>Evaluations\<close>

datatype RemoteReplicationState = RemoteReplicationUnknown | RemoteReplicationDisabled | RemoteReplicationEnabled

record Evaluation =
  el_Rule :: Rule
  el_Value :: float64
  el_ObservedAt :: time
  el_Available :: bool
  el_SampleCount :: int

definition series_of :: "Sample \<Rightarrow> sampleSeries" where
  "series_of s = (sm_Source s, sm_Metric s, sm_Scope s)"

text \<open>The loop that indexes the samples; a duplicate series or an invalid sample ends it.\<close>

fun index_samples :: "time \<Rightarrow> Sample list \<Rightarrow> (sampleSeries \<times> Sample) list \<Rightarrow> operations_error + (sampleSeries \<times> Sample) list" where
  "index_samples now [] indexed = Inr indexed"
| "index_samples now (s # ss) indexed =
     (case ValidateSample s now of
        Some e \<Rightarrow> Inl e
      | None \<Rightarrow>
          if map_of indexed (series_of s) \<noteq> None then Inl ErrOpsInvalid
          else index_samples now ss ((series_of s, s) # indexed))"

definition alertDependencySummaries :: "(string \<times> string) list" where
  "alertDependencySummaries =
     [(''filesystem_root_usage'', ''Root filesystem metrics are unavailable''),
      (''filesystem_backup_usage'', ''Backup filesystem metrics are unavailable''),
      (''backup_local_age'', ''Local backup status is unavailable''),
      (''backup_remote_sync'', ''Remote backup status is unavailable''),
      (''ai_error_rate'', ''AI request metrics are unavailable''),
      (''processing_queue_depth'', ''Processing queue metrics are unavailable''),
      (''processing_failures'', ''Processing failure metrics are unavailable''),
      (''login_failures'', ''Login failure metrics are unavailable''),
      (''authorization_denials'', ''Authorization denial metrics are unavailable'')]"

definition alertDependencyEvaluation :: "Evaluation \<Rightarrow> time \<Rightarrow> operations_error + Evaluation" where
  "alertDependencyEvaluation ev now =
     (case map_of alertDependencySummaries (rl_DedupeKey (el_Rule ev)) of
        None \<Rightarrow> Inl ErrOpsInvalid
      | Some summary \<Rightarrow>
          (let rule = mk_rule (rl_DedupeKey (el_Rule ev) @ ''_dependency_unavailable'') (rl_Category (el_Rule ev)) summary
                        (Fin 1) (Fin 2) ''above'' 1
           in case validateAlertRule rule of
                Some e \<Rightarrow> Inl e
              | None \<Rightarrow> Inr \<lparr>el_Rule = rule, el_Value = (if el_Available ev then Fin 0 else Fin 1), el_ObservedAt = now,
                            el_Available = True, el_SampleCount = 1\<rparr>))"

definition alertSeriesForRule :: "string \<Rightarrow> sampleSeries option" where
  "alertSeriesForRule key = map_of
     [(''filesystem_root_usage'', (''host'', ''filesystem_used_percent'', ''root'')),
      (''filesystem_backup_usage'', (''host'', ''filesystem_used_percent'', ''backup'')),
      (''backup_local_age'', (''app'', ''backup_age_seconds'', ''local'')),
      (''backup_remote_sync'', (''app'', ''backup_remote_up'', ''remote'')),
      (''processing_queue_depth'', (''worker'', ''queue_items'', ''processing'')),
      (''processing_failures'', (''worker'', ''queue_failures_total'', ''processing'')),
      (''login_failures'', (''app'', ''security_events_total'', ''login_failure'')),
      (''authorization_denials'', (''app'', ''security_events_total'', ''authorization_denial''))] key"

definition alertSampleFresh :: "Sample \<Rightarrow> time \<Rightarrow> bool" where
  "alertSampleFresh s now \<longleftrightarrow> \<not> sm_ObservedAt s < now - DashboardSampleFreshFor"

definition alertSampleHasExactWindow :: "Sample \<Rightarrow> duration \<Rightarrow> bool" where
  "alertSampleHasExactWindow s d = (case sm_WindowStartedAt s of None \<Rightarrow> False | Some w \<Rightarrow> time_sub (sm_ObservedAt s) w = d)"

definition unavailable :: "Rule \<Rightarrow> time \<Rightarrow> Evaluation" where
  "unavailable rule now = \<lparr>el_Rule = rule, el_Value = Fin 0, el_ObservedAt = now, el_Available = False, el_SampleCount = 0\<rparr>"

definition aiErrorRateEvaluation :: "Rule \<Rightarrow> (sampleSeries \<times> Sample) list \<Rightarrow> time \<Rightarrow> operations_error + Evaluation" where
  "aiErrorRateEvaluation rule samples now =
     (case (map_of samples (''app'', ''ai_requests_total'', ''succeeded''), map_of samples (''app'', ''ai_requests_total'', ''failed'')) of
        (Some succeeded, Some failed) \<Rightarrow>
          if \<not> alertSampleFresh succeeded now \<or> \<not> alertSampleFresh failed now then Inr (unavailable rule now)
          else if sm_WindowStartedAt succeeded = None \<or> sm_WindowStartedAt failed = None \<or>
               sm_ObservedAt succeeded \<noteq> sm_ObservedAt failed \<or>
               sm_WindowStartedAt succeeded \<noteq> sm_WindowStartedAt failed \<or>
               \<not> alertSampleHasExactWindow succeeded (15 * Minute) \<or> \<not> alertSampleHasExactWindow failed (15 * Minute)
          then Inl ErrOpsInvalid
          else (let tot = fadd (sm_Value succeeded) (sm_Value failed)
            in if \<not> validAlertFloat tot \<or> flt tot (Fin 0) \<or> flt maxExactFloatInteger tot \<or> \<not> integral tot then Inl ErrOpsInvalid
               else (let v = (if flt (Fin 0) tot then fmul (fdiv (sm_Value failed) tot) (Fin 100) else Fin 0)
                 in if \<not> validAlertFloat v then Inl ErrOpsInvalid
                    else Inr \<lparr>el_Rule = rule, el_Value = v,
                       el_ObservedAt = (if sm_ObservedAt failed > sm_ObservedAt succeeded then sm_ObservedAt failed else sm_ObservedAt succeeded),
                       el_Available = True, el_SampleCount = \<lfloor>fval tot\<rfloor>\<rparr>))
      | _ \<Rightarrow> Inr (unavailable rule now))"

definition alertEvaluationForRule :: "Rule \<Rightarrow> (sampleSeries \<times> Sample) list \<Rightarrow> time \<Rightarrow> operations_error + Evaluation" where
  "alertEvaluationForRule rule samples now =
     (if rl_DedupeKey rule = ''ai_error_rate'' then aiErrorRateEvaluation rule samples now
      else case alertSeriesForRule (rl_DedupeKey rule) of
        None \<Rightarrow> Inl ErrOpsInvalid
      | Some series \<Rightarrow>
          (case map_of samples series of
             None \<Rightarrow> Inr (unavailable rule now)
           | Some s \<Rightarrow>
               if \<not> alertSampleFresh s now then Inr (unavailable rule now)
               else if rl_DedupeKey rule \<in> {''processing_failures'', ''login_failures'', ''authorization_denials''} \<and>
                       \<not> alertSampleHasExactWindow s (15 * Minute)
               then Inl ErrOpsInvalid
               else Inr \<lparr>el_Rule = rule, el_Value = sm_Value s, el_ObservedAt = sm_ObservedAt s, el_Available = True,
                         el_SampleCount = 1\<rparr>))"

definition with_dependency :: "Evaluation \<Rightarrow> time \<Rightarrow> operations_error + Evaluation list" where
  "with_dependency ev now = (case alertDependencyEvaluation ev now of Inl e \<Rightarrow> Inl e | Inr d \<Rightarrow> Inr [ev, d])"

definition evaluations_for_rule ::
  "RemoteReplicationState \<Rightarrow> (sampleSeries \<times> Sample) list \<Rightarrow> time \<Rightarrow> Rule \<Rightarrow> operations_error + Evaluation list" where
  "evaluations_for_rule remote samples now rule =
     (case validateAlertRule rule of
        Some e \<Rightarrow> Inl e
      | None \<Rightarrow>
          if rl_DedupeKey rule = ''backup_remote_sync'' \<and> remote = RemoteReplicationUnknown
          then Inr [unavailable rule now]
          else if rl_DedupeKey rule = ''backup_remote_sync'' \<and> remote = RemoteReplicationDisabled
          then with_dependency \<lparr>el_Rule = rule, el_Value = Fin 1, el_ObservedAt = now, el_Available = True, el_SampleCount = 1\<rparr> now
          else case alertEvaluationForRule rule samples now of
            Inl e \<Rightarrow> Inl e
          | Inr ev \<Rightarrow> with_dependency ev now)"

fun evaluate_rules ::
  "RemoteReplicationState \<Rightarrow> (sampleSeries \<times> Sample) list \<Rightarrow> time \<Rightarrow> Rule list \<Rightarrow> operations_error + Evaluation list" where
  "evaluate_rules remote samples now [] = Inr []"
| "evaluate_rules remote samples now (r # rs) =
     (case evaluations_for_rule remote samples now r of
        Inl e \<Rightarrow> Inl e
      | Inr evs \<Rightarrow> (case evaluate_rules remote samples now rs of Inl e \<Rightarrow> Inl e | Inr rest \<Rightarrow> Inr (evs @ rest)))"

definition BuildAlertEvaluations ::
  "Rule list \<Rightarrow> Sample list \<Rightarrow> time \<Rightarrow> RemoteReplicationState \<Rightarrow> operations_error + Evaluation list" where
  "BuildAlertEvaluations rules samples now remote =
     (if \<not> validSampleTime now \<or> rules = [] then Inl ErrOpsInvalid
      else case index_samples now samples [] of
        Inl e \<Rightarrow> Inl e
      | Inr indexed \<Rightarrow> evaluate_rules remote indexed now rules)"

section \<open>Classification\<close>

datatype alertCondition = alertConditionHealthy | alertConditionWarning | alertConditionCritical | alertConditionNeutral

definition validateAlertEvaluation :: "Evaluation \<Rightarrow> operations_error option" where
  "validateAlertEvaluation ev = (case validateAlertRule (el_Rule ev) of
     Some e \<Rightarrow> Some e
   | None \<Rightarrow>
       if \<not> validAlertFloat (el_Value ev) \<or> flt (el_Value ev) (Fin 0) \<or> \<not> validSampleTime (el_ObservedAt ev) \<or> el_SampleCount ev < 0
       then Some ErrOpsInvalid else None)"

definition classifyAlertEvaluation :: "Evaluation \<Rightarrow> operations_error + alertCondition" where
  "classifyAlertEvaluation ev = (case validateAlertEvaluation ev of
     Some e \<Rightarrow> Inl e
   | None \<Rightarrow>
       if \<not> el_Available ev then Inr alertConditionNeutral
       else if el_SampleCount ev < rl_MinimumSamples (el_Rule ev) then Inr alertConditionNeutral
       else if rl_Direction (el_Rule ev) = ''above''
       then (if fle (rl_Critical (el_Rule ev)) (el_Value ev) then Inr alertConditionCritical
             else if fle (rl_Warning (el_Rule ev)) (el_Value ev) then Inr alertConditionWarning
             else Inr alertConditionHealthy)
       else if rl_Direction (el_Rule ev) = ''below''
       then (if flt (el_Value ev) (rl_Critical (el_Rule ev)) then Inr alertConditionCritical
             else if flt (el_Value ev) (rl_Warning (el_Rule ev)) then Inr alertConditionWarning
             else Inr alertConditionHealthy)
       else Inl ErrOpsInvalid)"

section \<open>Valid settings give valid rules\<close>

lemma fmul_int:
  assumes "0 < a" and "0 < b" and "a * b < 2 ^ 53"
  shows "fmul (Fin (of_int a)) (Fin (of_int b)) = Fin (of_int (a * b))"
  using assms fround_int [of "a * b"] by (simp add: fmul_def IsNaN_def IsInf_def fzero_def)

lemma hours_exact: "1 \<le> h \<Longrightarrow> h \<le> 2147483647 \<Longrightarrow> hours_in_seconds h = Fin (of_int (h * 3600))"
  using fmul_int [of h 60] fmul_int [of "h * 60" 60] by (simp add: hours_in_seconds_def mult.assoc)

lemma above_rule_valid:
  assumes "alertIdentifier key" "length key \<le> 128" "cat \<in> set alertCategories" "alertIdentifier cat" "safeAlertSummary smr"
    and "1 \<le> m" "a < b"
  shows "validateAlertRule (mk_rule key cat smr (Fin a) (Fin b) ''above'' m) = None"
  using assms by (simp add: validateAlertRule_def mk_rule_def validAlertFloat_def IsNaN_def IsInf_def)

lemmas rule_text = alertIdentifier_def lower_identifier_def alertCategories_def safeAlertSummary_def go_eval IsControl_def

lemma alert_rules_valid:
  assumes "ValidateSettings s = None"
  shows "first_error validateAlertRule (alert_rules s) = None"
proof -
  have pct: "1 \<le> w \<and> w < c \<and> c \<le> 100" if "validPercentThresholdPair w c" for w c
    using that by (simp add: validPercentThresholdPair_def)
  have cnt: "1 \<le> w \<and> w < c \<and> c \<le> 2147483647" if "validCountThresholdPair w c" for w c
    using that by (simp add: validCountThresholdPair_def)
  have ok: "validPercentThresholdPair (st_DiskWarningPercent s) (st_DiskCriticalPercent s)"
    "validPercentThresholdPair (st_BackupFilesystemWarningPercent s) (st_BackupFilesystemCriticalPercent s)"
    "validCountThresholdPair (st_LocalBackupAgeWarningHours s) (st_LocalBackupAgeCriticalHours s)"
    "validPercentThresholdPair (st_AIErrorWarningPercent s) (st_AIErrorCriticalPercent s)"
    "validCountThresholdPair (st_ProcessingQueueWarning s) (st_ProcessingQueueCritical s)"
    "validCountThresholdPair (st_ProcessingFailureWarningCount s) (st_ProcessingFailureCriticalCount s)"
    "validCountThresholdPair (st_LoginFailureWarningCount s) (st_LoginFailureCriticalCount s)"
    "validCountThresholdPair (st_AuthorizationDenialWarningCount s) (st_AuthorizationDenialCriticalCount s)"
    using assms by (auto simp: ValidateSettings_def Let_def split: if_splits)
  have int_rule: "validateAlertRule (mk_rule key cat smr (float_of_int w) (float_of_int c) ''above'' m) = None"
    if "alertIdentifier key" "length key \<le> 128" "cat \<in> set alertCategories" "alertIdentifier cat" "safeAlertSummary smr" "1 \<le> m"
      "1 \<le> w \<and> w < c \<and> c \<le> 2147483647" for key cat smr m w c
    using that by (simp add: above_rule_valid)
  show ?thesis
    unfolding alert_rules_def
    using pct [OF ok(1)] pct [OF ok(2)] cnt [OF ok(3)] pct [OF ok(4)] cnt [OF ok(5)] cnt [OF ok(6)] cnt [OF ok(7)] cnt [OF ok(8)]
    by (simp add: int_rule hours_exact above_rule_valid) (simp add: rule_text validateAlertRule_def mk_rule_def validAlertFloat_def IsNaN_def IsInf_def)
qed

lemma rules_keys: "map rl_DedupeKey (alert_rules s) =
   [''filesystem_root_usage'', ''filesystem_backup_usage'', ''backup_local_age'', ''backup_remote_sync'', ''ai_error_rate'',
    ''processing_queue_depth'', ''processing_failures'', ''login_failures'', ''authorization_denials'']"
  by (simp add: alert_rules_def mk_rule_def)

lemma settings_rejected_reason: "highRiskSettingsReason s \<noteq> [] \<Longrightarrow> ValidateSettings s = Some ErrOpsInvalid"
  by (auto simp: highRiskSettingsReason_def ValidateSettings_def Let_def split: if_splits)

lemma DefaultAlertRules_iff: "DefaultAlertRules s = Inr rs \<longleftrightarrow> ValidateSettings s = None \<and> rs = alert_rules s"
  by (auto simp: DefaultAlertRules_def alert_rules_valid split: option.splits)

lemma first_error_None: "first_error f xs = None \<longleftrightarrow> (\<forall>x \<in> set xs. f x = None)"
  by (induction xs) (auto split: option.splits)

section \<open>Evaluations built from valid samples are classifiable\<close>

definition nonneg_float :: "float64 \<Rightarrow> bool" where
  "nonneg_float v \<longleftrightarrow> v = PosInf \<or> (\<exists>q \<ge> 0. v = Fin q)"

lemma nonneg_fround: "0 \<le> q \<Longrightarrow> nonneg_float (fround q)"
  using fround_nonneg by (auto simp: nonneg_float_def)

lemma nonneg_fmul: "0 \<le> a \<Longrightarrow> 0 \<le> b \<Longrightarrow> nonneg_float (fmul (Fin a) (Fin b))"
  using nonneg_fround [of "a * b"]
  by (auto simp: fmul_def IsNaN_def IsInf_def fzero_def fneg_def signed_zero_def nonneg_float_def)

lemma nonneg_fdiv: "0 \<le> a \<Longrightarrow> 0 < b \<Longrightarrow> nonneg_float (fdiv (Fin a) (Fin b))"
  using nonneg_fround [of "a / b"]
  by (auto simp: fdiv_def IsNaN_def IsInf_def fzero_def fneg_def signed_zero_def nonneg_float_def)

lemma validSampleValue_Fin: "validSampleValue v u \<Longrightarrow> \<exists>q \<ge> 0. v = Fin q"
  by (cases v) (auto simp: validSampleValue_def IsNaN_def IsInf_def split: if_splits)

lemma ValidateSample_D:
  assumes "ValidateSample s now = None"
  shows "validSampleTime (sm_ObservedAt s)" and "\<exists>q \<ge> 0. sm_Value s = Fin q"
  using assms by (auto simp: ValidateSample_def dest: validSampleValue_Fin split: if_splits option.splits sampleWindowPolicy.splits)

lemma index_samples_valid:
  assumes "index_samples now ss indexed = Inr res" and "\<forall>(k, s) \<in> set indexed. k = series_of s \<and> ValidateSample s now = None"
  shows "\<forall>(k, s) \<in> set res. k = series_of s \<and> ValidateSample s now = None"
  using assms by (induction ss arbitrary: indexed) (auto split: option.splits if_splits)

lemma index_samples_lookup:
  assumes "index_samples now ss [] = Inr res" and "map_of res k = Some s"
  shows "ValidateSample s now = None"
  using index_samples_valid [OF assms(1)] map_of_SomeD [OF assms(2)] by auto

text \<open>An evaluation that carries a rule and passes every other check.\<close>

definition evaluation_ok :: "Rule \<Rightarrow> Evaluation \<Rightarrow> bool" where
  "evaluation_ok rule ev \<longleftrightarrow> el_Rule ev = rule \<and> validAlertFloat (el_Value ev) \<and> \<not> flt (el_Value ev) (Fin 0) \<and>
     validSampleTime (el_ObservedAt ev) \<and> 0 \<le> el_SampleCount ev"

lemma validAlertFloat_Fin [simp]: "validAlertFloat (Fin q)" by (simp add: validAlertFloat_def IsNaN_def IsInf_def)

lemma unavailable_ok: "validSampleTime now \<Longrightarrow> evaluation_ok rule (unavailable rule now)"
  by (simp add: evaluation_ok_def unavailable_def)

lemma rate_nonneg:
  assumes "0 \<le> q" and "tot = Fin t" and "0 < t" and "v = fmul (fdiv (Fin q) tot) (Fin 100)" and "validAlertFloat v"
  shows "\<not> flt v (Fin 0)"
proof -
  from nonneg_fdiv [of q t] assms have "fdiv (Fin q) tot = PosInf \<or> (\<exists>r \<ge> 0. fdiv (Fin q) tot = Fin r)"
    by (simp add: nonneg_float_def)
  then show ?thesis
  proof
    assume "fdiv (Fin q) tot = PosInf"
    with assms(4,5) show ?thesis by (simp add: fmul_def IsNaN_def IsInf_def fzero_def signed_inf_def fneg_def validAlertFloat_def)
  next
    assume "\<exists>r \<ge> 0. fdiv (Fin q) tot = Fin r"
    then obtain r where "0 \<le> r" "fdiv (Fin q) tot = Fin r" by blast
    with nonneg_fmul [of r 100] assms(4,5) show ?thesis
      by (auto simp: nonneg_float_def validAlertFloat_def IsInf_def)
  qed
qed

lemma aiErrorRate_ok:
  assumes idx: "index_samples now ss [] = Inr samples" and now: "validSampleTime now"
    and run: "aiErrorRateEvaluation rule samples now = Inr ev"
  shows "evaluation_ok rule ev"
proof (cases "ev = unavailable rule now")
  case False
  with run obtain su fa where lk: "map_of samples (''app'', ''ai_requests_total'', ''succeeded'') = Some su"
      "map_of samples (''app'', ''ai_requests_total'', ''failed'') = Some fa"
    by (auto simp: aiErrorRateEvaluation_def split: option.splits)
  from ValidateSample_D [OF index_samples_lookup [OF idx lk(1)]] ValidateSample_D [OF index_samples_lookup [OF idx lk(2)]]
  obtain q where q: "0 \<le> q" "sm_Value fa = Fin q" and times: "validSampleTime (sm_ObservedAt su)" "validSampleTime (sm_ObservedAt fa)"
    by blast
  let ?t = "fadd (sm_Value su) (sm_Value fa)"
  let ?v = "if flt (Fin 0) ?t then fmul (fdiv (sm_Value fa) ?t) (Fin 100) else Fin 0"
  from run False have t: "validAlertFloat ?t" "\<not> flt ?t (Fin 0)" and v: "validAlertFloat ?v"
    and ev: "el_Rule ev = rule" "el_Value ev = ?v" "el_SampleCount ev = \<lfloor>fval ?t\<rfloor>"
      "el_ObservedAt ev = sm_ObservedAt su \<or> el_ObservedAt ev = sm_ObservedAt fa"
    unfolding aiErrorRateEvaluation_def lk option.case prod.case
    by (auto simp: Let_def split: if_splits)
  have "\<not> flt ?v (Fin 0)"
  proof (cases "flt (Fin 0) ?t")
    case True
    with t(1) obtain tq where "?t = Fin tq" "0 < tq"
      by (cases ?t) (auto simp: validAlertFloat_def IsNaN_def IsInf_def flt_def)
    with rate_nonneg [of q ?t tq ?v] q v True show ?thesis by simp
  qed simp
  moreover have "0 \<le> fval ?t" using t by (cases ?t) (auto simp: flt_def)
  ultimately show ?thesis using ev v times by (auto simp: evaluation_ok_def)
qed (simp add: unavailable_ok now)

lemma alertEvaluationForRule_ok:
  assumes idx: "index_samples now ss [] = Inr samples" and now: "validSampleTime now"
    and run: "alertEvaluationForRule rule samples now = Inr ev"
  shows "evaluation_ok rule ev"
proof (cases "rl_DedupeKey rule = ''ai_error_rate'' \<or> ev = unavailable rule now")
  case False
  with run obtain series s where s: "map_of samples series = Some s"
    and ev: "ev = \<lparr>el_Rule = rule, el_Value = sm_Value s, el_ObservedAt = sm_ObservedAt s, el_Available = True, el_SampleCount = 1\<rparr>"
    by (auto simp: alertEvaluationForRule_def split: option.splits if_splits)
  from ValidateSample_D [OF index_samples_lookup [OF idx s]] show ?thesis by (auto simp: evaluation_ok_def ev)
next
  case True
  with run aiErrorRate_ok [OF idx now] unavailable_ok [OF now] show ?thesis
    by (auto simp: alertEvaluationForRule_def)
qed

definition evaluation_keys :: "RemoteReplicationState \<Rightarrow> string \<Rightarrow> string list" where
  "evaluation_keys remote key =
     (if key = ''backup_remote_sync'' \<and> remote = RemoteReplicationUnknown then [key] else [key, key @ ''_dependency_unavailable''])"

definition classifiable :: "Evaluation \<Rightarrow> bool" where
  "classifiable ev \<longleftrightarrow> (\<exists>c. classifyAlertEvaluation ev = Inr c \<and>
     (c = alertConditionNeutral \<longleftrightarrow> \<not> el_Available ev \<or> el_SampleCount ev < rl_MinimumSamples (el_Rule ev)))"

lemma valid_rule_direction: "validateAlertRule r = None \<Longrightarrow> rl_Direction r = ''above'' \<or> rl_Direction r = ''below''"
  by (auto simp: validateAlertRule_def split: if_splits)

lemma evaluation_ok_classifiable:
  assumes "evaluation_ok rule ev" and "validateAlertRule rule = None"
  shows "classifiable ev"
proof -
  have "validateAlertEvaluation ev = None" using assms by (simp add: evaluation_ok_def validateAlertEvaluation_def)
  with valid_rule_direction [OF assms(2)] assms(1) show ?thesis
    by (auto simp: classifiable_def classifyAlertEvaluation_def evaluation_ok_def)
qed

lemma with_dependency_ok:
  assumes ev: "evaluation_ok rule ev" and now: "validSampleTime now" and r: "validateAlertRule rule = None"
    and run: "with_dependency ev now = Inr evs"
  shows "map (rl_DedupeKey \<circ> el_Rule) evs = [rl_DedupeKey rule, rl_DedupeKey rule @ ''_dependency_unavailable''] \<and>
    (\<forall>x \<in> set evs. classifiable x) \<and> hd evs = ev"
proof -
  from run obtain d where d: "alertDependencyEvaluation ev now = Inr d" "evs = [ev, d]"
    by (auto simp: with_dependency_def split: sum.splits)
  from d(1) obtain dr where dr: "validateAlertRule dr = None" "rl_DedupeKey dr = rl_DedupeKey (el_Rule ev) @ ''_dependency_unavailable''"
      "d = \<lparr>el_Rule = dr, el_Value = (if el_Available ev then Fin 0 else Fin 1), el_ObservedAt = now, el_Available = True, el_SampleCount = 1\<rparr>"
    by (auto simp: alertDependencyEvaluation_def Let_def mk_rule_def split: option.splits)
  have "evaluation_ok dr d" using dr(3) now by (simp add: evaluation_ok_def)
  with evaluation_ok_classifiable [OF _ dr(1)] evaluation_ok_classifiable [OF ev r] ev dr d(2) show ?thesis
    by (auto simp: evaluation_ok_def)
qed

lemma evaluations_for_rule_ok:
  assumes idx: "index_samples now ss [] = Inr samples" and now: "validSampleTime now"
    and run: "evaluations_for_rule remote samples now rule = Inr evs"
  shows "map (rl_DedupeKey \<circ> el_Rule) evs = evaluation_keys remote (rl_DedupeKey rule) \<and> (\<forall>x \<in> set evs. classifiable x) \<and>
    evs \<noteq> [] \<and> el_Rule (hd evs) = rule"
proof -
  from run have r: "validateAlertRule rule = None"
    by (auto simp: evaluations_for_rule_def split: option.splits)
  consider (unknown) "rl_DedupeKey rule = ''backup_remote_sync''" "remote = RemoteReplicationUnknown"
    | (disabled) "rl_DedupeKey rule = ''backup_remote_sync''" "remote = RemoteReplicationDisabled"
    | (other) "\<not> (rl_DedupeKey rule = ''backup_remote_sync'' \<and> remote \<noteq> RemoteReplicationEnabled)"
    by (cases remote) auto
  then show ?thesis
  proof cases
    case unknown
    with run r have "evs = [unavailable rule now]" by (simp add: evaluations_for_rule_def)
    with unknown evaluation_ok_classifiable [OF unavailable_ok [OF now] r] show ?thesis
      by (simp add: evaluation_keys_def unavailable_def)
  next
    case disabled
    let ?e = "\<lparr>el_Rule = rule, el_Value = Fin 1, el_ObservedAt = now, el_Available = True, el_SampleCount = 1\<rparr>"
    have e: "evaluation_ok rule ?e" using now by (simp add: evaluation_ok_def)
    from disabled run r have "with_dependency ?e now = Inr evs" by (simp add: evaluations_for_rule_def)
    from with_dependency_ok [OF e now r this] disabled show ?thesis by (auto simp: evaluation_keys_def)
  next
    case other
    with run r obtain ev where ev: "alertEvaluationForRule rule samples now = Inr ev" "with_dependency ev now = Inr evs"
      by (cases remote) (auto simp: evaluations_for_rule_def split: sum.splits)
    have ok: "evaluation_ok rule ev" by (rule alertEvaluationForRule_ok [OF idx now ev(1)])
    from with_dependency_ok [OF ok now r ev(2)] other ok show ?thesis
      by (cases remote) (auto simp: evaluation_keys_def evaluation_ok_def)
  qed
qed

lemma evaluate_rules_ok:
  assumes idx: "index_samples now ss [] = Inr samples" and now: "validSampleTime now"
    and run: "evaluate_rules remote samples now rules = Inr evs"
  shows "map (rl_DedupeKey \<circ> el_Rule) evs = concat (map (evaluation_keys remote) (map rl_DedupeKey rules)) \<and>
    (\<forall>x \<in> set evs. classifiable x) \<and> set rules \<subseteq> el_Rule ` set evs"
  using run
proof (induction rules arbitrary: evs)
  case (Cons r rs)
  from Cons.prems obtain a b where ab: "evaluations_for_rule remote samples now r = Inr a" "evaluate_rules remote samples now rs = Inr b" "evs = a @ b"
    by (auto split: sum.splits)
  have "r \<in> el_Rule ` set a" using evaluations_for_rule_ok [OF idx now ab(1)] by (metis hd_in_set imageI)
  with Cons.IH [OF ab(2)] evaluations_for_rule_ok [OF idx now ab(1)] ab(3) show ?case by (auto simp: comp_def)
qed simp

text \<open>C25: Monitoring never stumbles over its own evaluations. Valid settings always yield the nine
  default rules; and whenever evaluations are built from samples, there is exactly one per rule and one
  per rule's data source (none for the source of the remote backup while its configuration is
  unknown), in rule order and with distinct keys, and every one of them can be classified: it is
  neutral exactly when it has no fresh data or too few samples.\<close>

theorem alert_evaluations_classified:
  assumes "ValidateSettings s = None"
  shows "\<exists>rules. DefaultAlertRules s = Inr rules \<and> length rules = 9 \<and>
    (\<forall>samples now remote evs. BuildAlertEvaluations rules samples now remote = Inr evs \<longrightarrow>
       map (rl_DedupeKey \<circ> el_Rule) evs = concat (map (evaluation_keys remote) (map rl_DedupeKey rules)) \<and>
       distinct (map (rl_DedupeKey \<circ> el_Rule) evs) \<and> set rules \<subseteq> el_Rule ` set evs \<and>
       (\<forall>ev \<in> set evs. classifiable ev))"
proof (intro exI [of _ "alert_rules s"] conjI allI impI)
  show "DefaultAlertRules s = Inr (alert_rules s)" using assms DefaultAlertRules_iff by blast
  show "length (alert_rules s) = 9" by (simp add: alert_rules_def)
  fix samples now remote evs assume "BuildAlertEvaluations (alert_rules s) samples now remote = Inr evs"
  then obtain indexed where idx: "index_samples now samples [] = Inr indexed" and now: "validSampleTime now"
    and run: "evaluate_rules remote indexed now (alert_rules s) = Inr evs"
    by (auto simp: BuildAlertEvaluations_def split: if_splits sum.splits)
  note ok = evaluate_rules_ok [OF idx now run]
  then show "map (rl_DedupeKey \<circ> el_Rule) evs = concat (map (evaluation_keys remote) (map rl_DedupeKey (alert_rules s)))"
    "set (alert_rules s) \<subseteq> el_Rule ` set evs" "\<forall>ev \<in> set evs. classifiable ev" by blast+
  have "distinct (concat (map (evaluation_keys remote) (map rl_DedupeKey (alert_rules s))))"
    unfolding rules_keys by (simp add: evaluation_keys_def)
  with ok show "distinct (map (rl_DedupeKey \<circ> el_Rule) evs)" by simp
qed

definition wit_settings :: Settings where
  "wit_settings = \<lparr>st_Version = 1, st_SiteName = ''Site'', st_SiteAnnouncement = [], st_SoftDeleteRetentionDays = 30,
     st_AuditRetentionDays = 365, st_OperationalSampleRetentionDays = 30, st_BackupHour = 3, st_BackupMinute = 0,
     st_BackupTimezone = ''Asia/Shanghai'', st_DiskWarningPercent = 80, st_DiskCriticalPercent = 90,
     st_BackupFilesystemWarningPercent = 80, st_BackupFilesystemCriticalPercent = 90, st_LocalBackupAgeWarningHours = 26,
     st_LocalBackupAgeCriticalHours = 48, st_AIErrorWarningPercent = 10, st_AIErrorCriticalPercent = 30,
     st_ProcessingQueueWarning = 100, st_ProcessingQueueCritical = 500, st_ProcessingFailureWarningCount = 5,
     st_ProcessingFailureCriticalCount = 20, st_LoginFailureWarningCount = 20, st_LoginFailureCriticalCount = 100,
     st_AuthorizationDenialWarningCount = 20, st_AuthorizationDenialCriticalCount = 100, st_Infrastructure = [],
     st_UpdatedBy = 1, st_UpdatedAt = 1\<rparr>"

definition wit_now :: time where "wit_now = 63000000000 * Second"

definition wit_disk :: Sample where
  "wit_disk = \<lparr>sm_Source = ''host'', sm_Metric = ''filesystem_used_percent'', sm_Scope = ''root'', sm_Value = Fin 85,
     sm_Unit = ''percent'', sm_ObservedAt = wit_now, sm_WindowStartedAt = None\<rparr>"

lemma wit_settings_valid: "ValidateSettings wit_settings = None"
  by (simp add: ValidateSettings_def wit_settings_def validPercentThresholdPair_def validCountThresholdPair_def go_eval)

lemma wit_disk_valid: "ValidateSample wit_disk wit_now = None"
  by (simp add: ValidateSample_def wit_disk_def wit_now_def validSampleTime_def year_10000_def maxSampleFutureSkew_def
      sampleRuleFor_def sampleRules_def add_rule_def validSampleValue_def IsNaN_def IsInf_def maxExactFloatInteger_def)

theorem alert_evaluations_classified_witness:
  "\<exists>evs. BuildAlertEvaluations (alert_rules wit_settings) [wit_disk] wit_now RemoteReplicationUnknown = Inr evs \<and>
     length evs = 17 \<and> (\<forall>ev \<in> set evs. classifiable ev)"
proof -
  have valid: "first_error validateAlertRule (alert_rules wit_settings) = None" by (rule alert_rules_valid [OF wit_settings_valid])
  obtain evs where evs: "BuildAlertEvaluations (alert_rules wit_settings) [wit_disk] wit_now RemoteReplicationUnknown = Inr evs"
  proof -
    have now: "validSampleTime wit_now" by (simp add: wit_now_def validSampleTime_def year_10000_def)
    have rules: "evaluate_rules RemoteReplicationUnknown [(series_of wit_disk, wit_disk)] wit_now rs \<noteq> Inl e"
      if "\<forall>r \<in> set rs. r \<in> set (alert_rules wit_settings)" for rs e
      using that
    proof (induction rs arbitrary: e)
      case (Cons r rs)
      then have "r \<in> set (alert_rules wit_settings)" and v: "validateAlertRule r = None"
        using valid by (auto simp: first_error_None)
      then have "\<exists>evs. evaluations_for_rule RemoteReplicationUnknown [(series_of wit_disk, wit_disk)] wit_now r = Inr evs"
        using v unfolding alert_rules_def set_simps
        by (elim insertE emptyE) (simp_all add: evaluations_for_rule_def mk_rule_def alertEvaluationForRule_def
            aiErrorRateEvaluation_def alertSeriesForRule_def series_of_def wit_disk_def alertSampleFresh_def
            DashboardSampleFreshFor_def with_dependency_def alertDependencyEvaluation_def alertDependencySummaries_def
            unavailable_def validateAlertRule_def rule_text)
      with Cons show ?case by (auto split: sum.splits)
    qed simp
    show ?thesis
      using that rules [of "alert_rules wit_settings"] now wit_disk_valid
      by (cases "evaluate_rules RemoteReplicationUnknown [(series_of wit_disk, wit_disk)] wit_now (alert_rules wit_settings)")
        (auto simp: BuildAlertEvaluations_def alert_rules_def)
  qed
  from alert_evaluations_classified [OF wit_settings_valid] evs
  have k: "map (rl_DedupeKey \<circ> el_Rule) evs = concat (map (evaluation_keys RemoteReplicationUnknown) (map rl_DedupeKey (alert_rules wit_settings)))"
    "\<forall>ev \<in> set evs. classifiable ev"
    unfolding DefaultAlertRules_iff by blast+
  have "length evs = 17" using arg_cong [OF k(1), of length] unfolding rules_keys by (simp add: evaluation_keys_def)
  with evs k(2) show ?thesis by blast
qed
end
