(* ===== verification/Alert_Store.thy ===== *)
theory Alert_Store
  imports Files_Model Alert_Evaluation
begin

text \<open>
  The alert table and the webhook outbox it feeds: \<^verbatim>\<open>internal/operations/postgres_alerts.go\<close>
  and \<^verbatim>\<open>postgres_webhook_outbox.go\<close>. The tables are the record \<open>alert_db\<close>. A row is
  written only if it satisfies the table's \<^verbatim>\<open>CHECK\<close> constraints (\<open>alert_checks\<close>);
  otherwise the statement fails with a driver error. The advisory lock per deduplication key
  makes the evaluations of one key serial, so a transaction is one step.
\<close>

section \<open>Data\<close>

datatype AlertSeverity = AlertSeverityWarning | AlertSeverityCritical
datatype AlertState = AlertStateOpen | AlertStateAcknowledged | AlertStateResolved

definition severity_text :: "AlertSeverity \<Rightarrow> string" where
  "severity_text s = (case s of AlertSeverityWarning \<Rightarrow> ''warning'' | AlertSeverityCritical \<Rightarrow> ''critical'')"

definition state_text :: "AlertState \<Rightarrow> string" where
  "state_text s = (case s of AlertStateOpen \<Rightarrow> ''open'' | AlertStateAcknowledged \<Rightarrow> ''acknowledged'' | AlertStateResolved \<Rightarrow> ''resolved'')"

record Alert =
  at_ID :: uuid
  at_DedupeKey :: string
  at_Category :: string
  at_Severity :: AlertSeverity
  at_State :: AlertState
  at_FirstObservedAt :: time
  at_LastObservedAt :: time
  at_AcknowledgedBy :: uuid
  at_AcknowledgedAt :: "time option"
  at_ResolvedAt :: "time option"
  at_CurrentValue :: float64
  at_ThresholdValue :: float64
  at_Summary :: string
  at_TraceID :: string
  at_ConsecutiveFailures :: int
  at_ConsecutiveSuccesses :: int
  at_Version :: int

datatype AlertTransitionKind = AlertTransitionNone | AlertTransitionOpened | AlertTransitionUpdated
  | AlertTransitionUpgraded | AlertTransitionResolved

record AlertTransition =
  tr_Kind :: AlertTransitionKind
  tr_Alert :: "Alert option"

record WebhookEvent =
  we_ID :: uuid
  we_AlertID :: uuid
  we_TransitionKind :: AlertTransitionKind
  we_AlertVersion :: int
  we_Category :: string
  we_Severity :: AlertSeverity
  we_State :: AlertState
  we_Summary :: string
  we_CurrentValue :: float64
  we_ThresholdValue :: float64
  we_FirstObservedAt :: time
  we_LastObservedAt :: time
  we_EnqueuedAt :: time

datatype delivery_state = DeliveryPending | DeliveryClaimed | DeliverySucceeded | DeliveryFailed | DeliveryCancelled

record delivery_row =
  dl_id :: uuid
  dl_alert_id :: uuid
  dl_event_id :: "uuid option"
  dl_attempt :: int
  dl_destination :: string
  dl_state :: delivery_state
  dl_outcome :: "string option"
  dl_http_status_class :: "int option"
  dl_error_category :: string
  dl_scheduled_at :: "time option"
  dl_started_at :: "time option"
  dl_finished_at :: "time option"
  dl_claim_owner :: "string option"
  dl_claim_token :: "uuid option"
  dl_claim_expires_at :: "time option"

record alert_db =
  operational_alerts :: "Alert list"
  alert_webhook_events :: "WebhookEvent list"
  alert_deliveries :: "delivery_row list"
  alert_audit :: "audit_event list"

text \<open>\<^verbatim>\<open>operational_alerts\<close>: the check constraints on values, acknowledgement, resolution,
  timing, counters and version (the texts are bounded by the rules' validation).\<close>

definition alert_checks :: "Alert \<Rightarrow> bool" where
  "alert_checks a \<longleftrightarrow>
     validAlertFloat (at_CurrentValue a) \<and> validAlertFloat (at_ThresholdValue a) \<and>
     (at_State a = AlertStateOpen \<longrightarrow> at_AcknowledgedAt a = None) \<and>
     (at_State a = AlertStateAcknowledged \<longrightarrow> at_AcknowledgedAt a \<noteq> None) \<and>
     (at_State a = AlertStateResolved \<longleftrightarrow> at_ResolvedAt a \<noteq> None) \<and>
     at_FirstObservedAt a \<le> at_LastObservedAt a \<and>
     pred_option (\<lambda>t. at_FirstObservedAt a \<le> t) (at_AcknowledgedAt a) \<and>
     pred_option (\<lambda>t. at_FirstObservedAt a \<le> t) (at_ResolvedAt a) \<and>
     0 \<le> at_ConsecutiveFailures a \<and> 0 \<le> at_ConsecutiveSuccesses a \<and> 1 \<le> at_Version a"

definition alertVisible :: "Alert \<Rightarrow> bool" where
  "alertVisible a \<longleftrightarrow> at_ConsecutiveFailures a \<ge> 2 \<or> at_Version a \<ge> 2"

section \<open>The webhook outbox\<close>

definition webhookAttemptDelays :: "duration list" where
  "webhookAttemptDelays = [Minute, 5 * Minute, 30 * Minute]"

text \<open>\<^verbatim>\<open>UTC().Round(time.Microsecond)\<close>: half-way values round up.\<close>

definition postgresAlertTime :: "time \<Rightarrow> time" where
  "postgresAlertTime t = (let r = t mod 1000 in if r + r < 1000 then t - r else t + (1000 - r))"

definition validWebhookTransition :: "AlertTransitionKind \<Rightarrow> Alert \<Rightarrow> bool" where
  "validWebhookTransition kind a \<longleftrightarrow>
     \<not> (at_ID a = uuid_Nil \<or> at_Version a < 1 \<or> \<not> alertIdentifier (at_Category a) \<or> \<not> safeAlertSummary (at_Summary a) \<or>
        \<not> validAlertFloat (at_CurrentValue a) \<or> \<not> validAlertFloat (at_ThresholdValue a) \<or>
        \<not> validSampleTime (at_FirstObservedAt a) \<or> \<not> validSampleTime (at_LastObservedAt a) \<or>
        at_LastObservedAt a < at_FirstObservedAt a) \<and>
     at_Category a \<in> set alertCategories \<and>
     (case kind of
        AlertTransitionOpened \<Rightarrow> at_State a = AlertStateOpen
      | AlertTransitionUpgraded \<Rightarrow> at_Severity a = AlertSeverityCritical \<and> (at_State a = AlertStateOpen \<or> at_State a = AlertStateAcknowledged)
      | AlertTransitionResolved \<Rightarrow> at_State a = AlertStateResolved
      | _ \<Rightarrow> False)"

text \<open>The store's webhook switch, its clock reading and the identifiers it draws.\<close>

record webhook_env =
  wh_enabled :: bool
  wh_clock :: time
  wh_event_id :: uuid
  wh_delivery_ids :: "uuid list"

definition event_of_alert :: "webhook_env \<Rightarrow> AlertTransitionKind \<Rightarrow> Alert \<Rightarrow> WebhookEvent" where
  "event_of_alert env kind a =
     \<lparr>we_ID = wh_event_id env, we_AlertID = at_ID a, we_TransitionKind = kind, we_AlertVersion = at_Version a,
      we_Category = at_Category a, we_Severity = at_Severity a, we_State = at_State a, we_Summary = at_Summary a,
      we_CurrentValue = at_CurrentValue a, we_ThresholdValue = at_ThresholdValue a, we_FirstObservedAt = at_FirstObservedAt a,
      we_LastObservedAt = at_LastObservedAt a, we_EnqueuedAt = postgresAlertTime (wh_clock env)\<rparr>"

text \<open>The event of an earlier, identical transition: everything but its identifier and its
  time must agree.\<close>

definition same_transition :: "WebhookEvent \<Rightarrow> AlertTransitionKind \<Rightarrow> Alert \<Rightarrow> bool" where
  "same_transition e kind a \<longleftrightarrow>
     we_TransitionKind e = kind \<and> we_Category e = at_Category a \<and> we_Severity e = at_Severity a \<and> we_State e = at_State a \<and>
     we_Summary e = at_Summary a \<and> feq (we_CurrentValue e) (at_CurrentValue a) \<and> feq (we_ThresholdValue e) (at_ThresholdValue a) \<and>
     we_FirstObservedAt e = at_FirstObservedAt a \<and> we_LastObservedAt e = at_LastObservedAt a"

definition pending_delivery :: "uuid \<Rightarrow> uuid \<Rightarrow> uuid \<Rightarrow> int \<Rightarrow> time \<Rightarrow> delivery_row" where
  "pending_delivery i alert event attempt due =
     \<lparr>dl_id = i, dl_alert_id = alert, dl_event_id = Some event, dl_attempt = attempt, dl_destination = ''webhook'',
      dl_state = DeliveryPending, dl_outcome = None, dl_http_status_class = None, dl_error_category = [],
      dl_scheduled_at = Some due, dl_started_at = None, dl_finished_at = None, dl_claim_owner = None, dl_claim_token = None,
      dl_claim_expires_at = None\<rparr>"

fun insert_deliveries :: "uuid \<Rightarrow> uuid \<Rightarrow> time \<Rightarrow> int \<Rightarrow> (duration \<times> uuid) list \<Rightarrow> delivery_row list \<Rightarrow> operations_error + delivery_row list" where
  "insert_deliveries alert event due n [] rows = Inr rows"
| "insert_deliveries alert event due n ((delay, i) # rest) rows =
     (if i = uuid_Nil then Inl ErrOpsInvalid
      else if list_ex (\<lambda>d. dl_event_id d = Some event \<and> dl_attempt d = n \<and> dl_destination d = ''webhook'') rows
      then insert_deliveries alert event due (n + 1) rest rows
      else if list_ex (\<lambda>d. dl_id d = i) rows then Inl ErrOpsDriver
      else insert_deliveries alert event due (n + 1) rest (rows @ [pending_delivery i alert event n (due + delay)]))"

definition schedule_deliveries :: "webhook_env \<Rightarrow> uuid \<Rightarrow> uuid \<Rightarrow> time \<Rightarrow> alert_db \<Rightarrow> operations_error + alert_db" where
  "schedule_deliveries env alert event due db =
     (case insert_deliveries alert event (postgresAlertTime due) 1 (zip webhookAttemptDelays (wh_delivery_ids env)) (alert_deliveries db) of
        Inl e \<Rightarrow> Inl e
      | Inr rows \<Rightarrow> Inr (db\<lparr>alert_deliveries := rows\<rparr>))"

definition enqueueWebhookTransition :: "webhook_env \<Rightarrow> AlertTransitionKind \<Rightarrow> Alert \<Rightarrow> alert_db \<Rightarrow> operations_error + alert_db" where
  "enqueueWebhookTransition env kind a db =
     (if \<not> wh_enabled env \<or> kind = AlertTransitionNone \<or> kind = AlertTransitionUpdated then Inr db
      else if \<not> validWebhookTransition kind a then Inl ErrOpsInvalid
      else if \<not> validSampleTime (postgresAlertTime (wh_clock env)) \<or> postgresAlertTime (wh_clock env) < at_FirstObservedAt a
      then Inl ErrOpsInvalid
      else if wh_event_id env = uuid_Nil then Inl ErrOpsInvalid
      else case find (\<lambda>e. we_AlertID e = at_ID a \<and> we_TransitionKind e = kind \<and> we_AlertVersion e = at_Version a) (alert_webhook_events db) of
        Some e \<Rightarrow>
          if \<not> same_transition e kind a then Inl ErrOpsConflict
          else schedule_deliveries env (at_ID a) (we_ID e) (we_EnqueuedAt e) db
      | None \<Rightarrow>
          if list_ex (\<lambda>e. we_ID e = wh_event_id env) (alert_webhook_events db) then Inl ErrOpsDriver
          else (let e = event_of_alert env kind a
            in schedule_deliveries env (at_ID a) (we_ID e) (we_EnqueuedAt e)
                 (db\<lparr>alert_webhook_events := alert_webhook_events db @ [e]\<rparr>)))"

section \<open>Evaluating an alert\<close>

definition selectUnresolvedAlert :: "string \<Rightarrow> alert_db \<Rightarrow> Alert option" where
  "selectUnresolvedAlert key db = find (\<lambda>a. at_DedupeKey a = key \<and> at_State a \<noteq> AlertStateResolved) (operational_alerts db)"

text \<open>\<^verbatim>\<open>UPDATE operational_alerts SET ... WHERE id=$1 AND state<>'resolved' RETURNING ...\<close>\<close>

definition update_alert :: "uuid \<Rightarrow> (Alert \<Rightarrow> Alert) \<Rightarrow> alert_db \<Rightarrow> operations_error + (Alert \<times> alert_db)" where
  "update_alert i f db =
     (case find (\<lambda>a. at_ID a = i \<and> at_State a \<noteq> AlertStateResolved) (operational_alerts db) of
        None \<Rightarrow> Inl ErrOpsDriver
      | Some a \<Rightarrow>
          if \<not> alert_checks (f a) then Inl ErrOpsDriver
          else Inr (f a, db\<lparr>operational_alerts := update_where (\<lambda>a. at_ID a = i \<and> at_State a \<noteq> AlertStateResolved) f (operational_alerts db)\<rparr>))"

definition failingSeverityAndThreshold :: "Rule \<Rightarrow> alertCondition \<Rightarrow> AlertSeverity \<times> float64" where
  "failingSeverityAndThreshold rule condition =
     (if condition = alertConditionCritical then (AlertSeverityCritical, rl_Critical rule) else (AlertSeverityWarning, rl_Warning rule))"

definition alert_candidate :: "uuid \<Rightarrow> Evaluation \<Rightarrow> alertCondition \<Rightarrow> Alert" where
  "alert_candidate i ev condition = (let (severity, threshold) = failingSeverityAndThreshold (el_Rule ev) condition
     in \<lparr>at_ID = i, at_DedupeKey = rl_DedupeKey (el_Rule ev), at_Category = rl_Category (el_Rule ev), at_Severity = severity,
         at_State = AlertStateOpen, at_FirstObservedAt = el_ObservedAt ev, at_LastObservedAt = el_ObservedAt ev,
         at_AcknowledgedBy = uuid_Nil, at_AcknowledgedAt = None, at_ResolvedAt = None, at_CurrentValue = el_Value ev,
         at_ThresholdValue = threshold, at_Summary = rl_Summary (el_Rule ev), at_TraceID = [], at_ConsecutiveFailures = 1,
         at_ConsecutiveSuccesses = 0, at_Version = 1\<rparr>)"

definition insertAlertCandidate :: "uuid \<Rightarrow> Evaluation \<Rightarrow> alertCondition \<Rightarrow> alert_db \<Rightarrow> operations_error + alert_db" where
  "insertAlertCandidate i ev condition db = (let a = alert_candidate i ev condition
     in if \<not> alert_checks a \<or> list_ex (\<lambda>x. at_ID x = i) (operational_alerts db) then Inl ErrOpsDriver
        else Inr (db\<lparr>operational_alerts := operational_alerts db @ [a]\<rparr>))"

definition failing_update :: "AlertSeverity \<Rightarrow> float64 \<Rightarrow> int \<Rightarrow> Evaluation \<Rightarrow> Alert \<Rightarrow> Alert" where
  "failing_update severity threshold failures ev a = a\<lparr>at_Category := rl_Category (el_Rule ev), at_Severity := severity,
     at_LastObservedAt := el_ObservedAt ev, at_CurrentValue := el_Value ev, at_ThresholdValue := threshold,
     at_Summary := rl_Summary (el_Rule ev), at_ConsecutiveFailures := failures, at_ConsecutiveSuccesses := 0,
     at_Version := at_Version a + 1\<rparr>"

definition recordFailingEvaluation ::
  "webhook_env \<Rightarrow> Alert \<Rightarrow> Evaluation \<Rightarrow> alertCondition \<Rightarrow> alert_db \<Rightarrow> operations_error + (AlertTransition \<times> alert_db)" where
  "recordFailingEvaluation env current ev condition db =
     (let observedSeverity = fst (failingSeverityAndThreshold (el_Rule ev) condition);
          wasVisible = alertVisible current;
          raise = (observedSeverity = AlertSeverityCritical \<and> at_Severity current \<noteq> AlertSeverityCritical);
          severity = (if raise then AlertSeverityCritical else at_Severity current);
          kind0 = (if raise \<and> wasVisible then AlertTransitionUpgraded else AlertTransitionUpdated);
          threshold = (if severity = AlertSeverityCritical then rl_Critical (el_Rule ev) else rl_Warning (el_Rule ev));
          failures = at_ConsecutiveFailures current + 1;
          kind = (if \<not> wasVisible \<and> failures \<ge> 2 then AlertTransitionOpened else kind0)
      in case update_alert (at_ID current) (failing_update severity threshold failures ev) db of
           Inl e \<Rightarrow> Inl e
         | Inr (updated, db1) \<Rightarrow>
             (case enqueueWebhookTransition env (if \<not> wasVisible \<and> failures < 2 then AlertTransitionNone else kind) updated db1 of
                Inl e \<Rightarrow> Inl e
              | Inr db2 \<Rightarrow>
                  if \<not> wasVisible \<and> failures < 2 then Inr (\<lparr>tr_Kind = AlertTransitionNone, tr_Alert = None\<rparr>, db2)
                  else Inr (\<lparr>tr_Kind = kind, tr_Alert = Some updated\<rparr>, db2)))"

definition healthy_update :: "bool \<Rightarrow> int \<Rightarrow> Evaluation \<Rightarrow> Alert \<Rightarrow> Alert" where
  "healthy_update resolve successes ev a =
     (let a' = a\<lparr>at_LastObservedAt := el_ObservedAt ev, at_CurrentValue := el_Value ev, at_ThresholdValue := rl_Warning (el_Rule ev),
               at_ConsecutiveFailures := 0, at_ConsecutiveSuccesses := successes, at_Version := at_Version a + 1\<rparr>
      in if resolve then a'\<lparr>at_State := AlertStateResolved, at_ResolvedAt := Some (el_ObservedAt ev)\<rparr> else a')"

definition recordHealthyEvaluation ::
  "webhook_env \<Rightarrow> Alert \<Rightarrow> Evaluation \<Rightarrow> alert_db \<Rightarrow> operations_error + (AlertTransition \<times> alert_db)" where
  "recordHealthyEvaluation env current ev db =
     (let successes = at_ConsecutiveSuccesses current + 1;
          resolve = (successes \<ge> 3)
      in case update_alert (at_ID current) (healthy_update resolve successes ev) db of
           Inl e \<Rightarrow> Inl e
         | Inr (updated, db1) \<Rightarrow>
             (let kind = (if resolve then AlertTransitionResolved else AlertTransitionUpdated)
              in case enqueueWebhookTransition env kind updated db1 of
                   Inl e \<Rightarrow> Inl e
                 | Inr db2 \<Rightarrow> Inr (\<lparr>tr_Kind = kind, tr_Alert = Some updated\<rparr>, db2)))"

definition no_transition :: AlertTransition where
  "no_transition = \<lparr>tr_Kind = AlertTransitionNone, tr_Alert = None\<rparr>"

text \<open>\<^verbatim>\<open>DELETE FROM operational_alerts WHERE id=$1\<close>; the foreign keys cascade.\<close>

definition delete_alert :: "uuid \<Rightarrow> alert_db \<Rightarrow> alert_db" where
  "delete_alert i db = db\<lparr>operational_alerts := delete_where (\<lambda>a. at_ID a = i) (operational_alerts db),
     alert_webhook_events := delete_where (\<lambda>e. we_AlertID e = i) (alert_webhook_events db),
     alert_deliveries := delete_where (\<lambda>d. dl_alert_id d = i) (alert_deliveries db)\<rparr>"

definition evaluate_tx ::
  "webhook_env \<Rightarrow> uuid \<Rightarrow> Evaluation \<Rightarrow> alertCondition \<Rightarrow> alert_db \<Rightarrow> operations_error + (AlertTransition \<times> alert_db)" where
  "evaluate_tx env newid ev condition db =
     (case selectUnresolvedAlert (rl_DedupeKey (el_Rule ev)) db of
        None \<Rightarrow>
          if condition = alertConditionHealthy then Inr (no_transition, db)
          else (case insertAlertCandidate newid ev condition db of Inl e \<Rightarrow> Inl e | Inr db1 \<Rightarrow> Inr (no_transition, db1))
      | Some current \<Rightarrow>
          if \<not> el_ObservedAt ev > at_LastObservedAt current \<or> time_sub (el_ObservedAt ev) (at_LastObservedAt current) < Minute
          then Inr (if alertVisible current then \<lparr>tr_Kind = AlertTransitionNone, tr_Alert = Some current\<rparr> else no_transition, db)
          else if condition = alertConditionHealthy
          then (if \<not> alertVisible current
                then Inr (no_transition, delete_alert (at_ID current) db)
                else recordHealthyEvaluation env current ev db)
          else recordFailingEvaluation env current ev condition db)"

definition EvaluateAlert ::
  "bool \<Rightarrow> webhook_env \<Rightarrow> uuid \<Rightarrow> Evaluation \<Rightarrow> alert_db \<Rightarrow> (operations_error + AlertTransition) \<times> alert_db" where
  "EvaluateAlert fault env newid ev db =
     (case classifyAlertEvaluation ev of
        Inl e \<Rightarrow> (Inl e, db)
      | Inr condition \<Rightarrow>
          if condition = alertConditionNeutral then (Inr no_transition, db)
          else transact fault ErrOpsDriver (evaluate_tx env newid ev condition) db)"

section \<open>Acknowledging and listing\<close>

definition To16_valid :: "string option \<Rightarrow> bool" where
  "To16_valid ip = (case ip of None \<Rightarrow> False | Some b \<Rightarrow> length b = 4 \<or> length b = 16)"

definition authorizeSettings :: "Principal \<Rightarrow> operations_error option" where
  "authorizeSettings p =
     (if u_ID (p_User p) = uuid_Nil \<or> u_Role (p_User p) \<noteq> RoleAdmin \<or> u_Status (p_User p) \<noteq> StatusActive \<or>
         TrimSpace (p_RequestID p) = [] \<or> length (p_RequestID p) > 64 \<or> \<not> To16_valid (p_IP p)
      then Some ErrOpsForbidden else None)"

definition acknowledge_update :: "uuid \<Rightarrow> time \<Rightarrow> Alert \<Rightarrow> Alert" where
  "acknowledge_update actor t a = a\<lparr>at_State := AlertStateAcknowledged, at_AcknowledgedBy := actor, at_AcknowledgedAt := Some t,
     at_Version := at_Version a + 1\<rparr>"

definition AcknowledgeAlert :: "bool \<Rightarrow> time \<Rightarrow> Principal \<Rightarrow> uuid \<Rightarrow> alert_db \<Rightarrow> (operations_error + Alert) \<times> alert_db" where
  "AcknowledgeAlert fault t actor i db =
     (if i = uuid_Nil then (Inl ErrOpsInvalid, db)
      else case authorizeSettings actor of
        Some e \<Rightarrow> (Inl e, db)
      | None \<Rightarrow> transact fault ErrOpsDriver (\<lambda>db.
          case find (\<lambda>a. at_ID a = i \<and> alertVisible a) (operational_alerts db) of
            None \<Rightarrow> Inl ErrAlertNotFound
          | Some current \<Rightarrow>
              (case at_State current of
                 AlertStateResolved \<Rightarrow> Inl ErrAlertAlreadyResolved
               | AlertStateAcknowledged \<Rightarrow> Inr (current, db)
               | AlertStateOpen \<Rightarrow>
                   (let a = acknowledge_update (u_ID (p_User actor)) t current
                    in if \<not> alert_checks a then Inl ErrOpsDriver
                       else Inr (a, db\<lparr>operational_alerts := update_where (\<lambda>x. at_ID x = i \<and> at_State x = AlertStateOpen)
                                  (acknowledge_update (u_ID (p_User actor)) t) (operational_alerts db),
                                alert_audit := alert_audit db @
                                  [\<lparr>ev_ActorUserID = u_ID (p_User actor), ev_Action = ''operations.alert_acknowledged'',
                                    ev_TargetType = ''operational_alert'', ev_TargetID = i, ev_RequestID = p_RequestID actor,
                                    ev_IP = p_IP actor\<rparr>]\<rparr>)))) db)"

record AlertFilter =
  af_State :: string
  af_Severity :: string
  af_Category :: string
  af_Before :: "(time \<times> uuid) option"
  af_Limit :: int

definition validateAlertFilter :: "AlertFilter \<Rightarrow> operations_error option" where
  "validateAlertFilter f =
     (if af_Limit f < 1 \<or> af_Limit f > 100 then Some ErrOpsInvalid
      else if af_State f \<notin> {[], ''open'', ''acknowledged'', ''resolved''} then Some ErrOpsInvalid
      else if af_Severity f \<notin> {[], ''warning'', ''critical''} then Some ErrOpsInvalid
      else if af_Category f \<noteq> [] \<and> af_Category f \<notin> set alertCategories then Some ErrOpsInvalid
      else case af_Before f of
        None \<Rightarrow> None
      | Some (t, i) \<Rightarrow> if \<not> validSampleTime t \<or> i = uuid_Nil then Some ErrOpsInvalid else None)"

definition alert_order :: "Alert \<Rightarrow> time \<times> uuid" where
  "alert_order a = (at_LastObservedAt a, at_ID a)"

definition alert_matches :: "AlertFilter \<Rightarrow> Alert \<Rightarrow> bool" where
  "alert_matches f a \<longleftrightarrow> alertVisible a \<and> (af_State f = [] \<or> state_text (at_State a) = af_State f) \<and>
     (af_Severity f = [] \<or> severity_text (at_Severity a) = af_Severity f) \<and>
     (af_Category f = [] \<or> at_Category a = af_Category f)"

definition before_cursor :: "(time \<times> uuid) option \<Rightarrow> Alert \<Rightarrow> bool" where
  "before_cursor c a = (case c of None \<Rightarrow> True | Some k \<Rightarrow> alert_order a < k)"

record AlertPage =
  ap_Items :: "Alert list"
  ap_Next :: "(time \<times> uuid) option"

definition ListAlerts :: "bool \<Rightarrow> AlertFilter \<Rightarrow> alert_db \<Rightarrow> operations_error + AlertPage" where
  "ListAlerts fault f db =
     (if validateAlertFilter f \<noteq> None then Inl ErrOpsInvalid
      else if fault then Inl ErrOpsDriver
      else (let items = take (nat (af_Limit f + 1))
              (rev (sort_key alert_order (filter (\<lambda>a. alert_matches f a \<and> before_cursor (af_Before f) a) (operational_alerts db))))
        in if int (length items) > af_Limit f
           then (let page = take (nat (af_Limit f)) items
                 in Inr \<lparr>ap_Items = page, ap_Next = Some (alert_order (last page))\<rparr>)
           else Inr \<lparr>ap_Items = items, ap_Next = None\<rparr>))"

end
