(* ===== verification/Alert_Machine.thy ===== *)
theory Alert_Machine
  imports Alert_Store
begin

text \<open>
  What the alert store guarantees: the table stays consistent, every evaluation follows the
  hysteresis automaton of its key (\<open>spec_step\<close>), acknowledging changes no phase, and the
  cursor pages of \<open>ListAlerts\<close> deliver the matching alerts exactly once.
\<close>

section \<open>The unresolved alert of a key\<close>

definition unresolved :: "Alert \<Rightarrow> bool" where "unresolved a \<longleftrightarrow> at_State a \<noteq> AlertStateResolved"

text \<open>The counters of a row tell its stage: a candidate has been seen once; a visible alert
  counts either failures or up to two successes; a resolved one has three.\<close>

definition alert_stage :: "Alert \<Rightarrow> bool" where
  "alert_stage a \<longleftrightarrow>
     (if at_Version a = 1 then at_State a = AlertStateOpen \<and> at_ConsecutiveFailures a = 1 \<and> at_ConsecutiveSuccesses a = 0
      else 2 \<le> at_Version a \<and>
        (case at_State a of
           AlertStateResolved \<Rightarrow> at_ConsecutiveFailures a = 0 \<and> at_ConsecutiveSuccesses a = 3
         | _ \<Rightarrow> 1 \<le> at_ConsecutiveFailures a \<and> at_ConsecutiveSuccesses a = 0 \<or>
               at_ConsecutiveFailures a = 0 \<and> 1 \<le> at_ConsecutiveSuccesses a \<and> at_ConsecutiveSuccesses a \<le> 2))"

definition one_unresolved :: "Alert list \<Rightarrow> bool" where
  "one_unresolved rows \<longleftrightarrow> (\<forall>a \<in> set rows. \<forall>b \<in> set rows. unresolved a \<and> unresolved b \<and> at_DedupeKey a = at_DedupeKey b \<longrightarrow> a = b)"

definition alerts_inv :: "alert_db \<Rightarrow> bool" where
  "alerts_inv db \<longleftrightarrow> keyed at_ID (operational_alerts db) \<and> one_unresolved (operational_alerts db) \<and>
     (\<forall>a \<in> set (operational_alerts db). alert_checks a \<and> alert_stage a)"

lemma alert_stage_visible: "alert_stage a \<Longrightarrow> alertVisible a \<longleftrightarrow> at_Version a \<noteq> 1"
  by (auto simp: alert_stage_def alertVisible_def split: if_splits AlertState.splits)

lemma select_Some:
  assumes "one_unresolved (operational_alerts db)"
  shows "selectUnresolvedAlert k db = Some a \<longleftrightarrow> a \<in> set (operational_alerts db) \<and> at_DedupeKey a = k \<and> unresolved a"
proof
  assume "selectUnresolvedAlert k db = Some a"
  then show "a \<in> set (operational_alerts db) \<and> at_DedupeKey a = k \<and> unresolved a"
    unfolding selectUnresolvedAlert_def unresolved_def by (auto dest: find_SomeD)
next
  assume a: "a \<in> set (operational_alerts db) \<and> at_DedupeKey a = k \<and> unresolved a"
  then obtain b where b: "selectUnresolvedAlert k db = Some b"
    unfolding selectUnresolvedAlert_def unresolved_def by (cases "find (\<lambda>a. at_DedupeKey a = k \<and> at_State a \<noteq> AlertStateResolved) (operational_alerts db)")
      (auto dest: find_NoneD)
  then have "b \<in> set (operational_alerts db) \<and> at_DedupeKey b = k \<and> unresolved b"
    unfolding selectUnresolvedAlert_def unresolved_def by (auto dest: find_SomeD)
  with a b assms show "selectUnresolvedAlert k db = Some a" unfolding one_unresolved_def by metis
qed

lemma select_None: "selectUnresolvedAlert k db = None \<longleftrightarrow> (\<forall>a \<in> set (operational_alerts db). at_DedupeKey a = k \<longrightarrow> \<not> unresolved a)"
  unfolding selectUnresolvedAlert_def unresolved_def find_None_iff by blast

text \<open>Lookup is determined by the set of rows, so it can be computed after each kind of change.\<close>

lemma select_by_set:
  assumes "one_unresolved (operational_alerts db)"
    and "\<And>a. r = Some a \<longleftrightarrow> a \<in> set (operational_alerts db) \<and> at_DedupeKey a = k \<and> unresolved a"
  shows "selectUnresolvedAlert k db = r"
proof (cases r)
  case None
  with assms(2) show ?thesis unfolding None select_None by auto
qed (use assms select_Some in blast)

lemma select_replaced:
  assumes u: "one_unresolved (operational_alerts db)" and c: "c \<in> set (operational_alerts db)" "unresolved c"
    and c': "at_DedupeKey c' = at_DedupeKey c"
    and rows: "operational_alerts db' = map (\<lambda>a. if a = c then c' else a) (operational_alerts db)"
  shows "one_unresolved (operational_alerts db') \<and> selectUnresolvedAlert k db' =
    (if k = at_DedupeKey c then (if unresolved c' then Some c' else None) else selectUnresolvedAlert k db)"
proof -
  have set': "set (operational_alerts db') = insert c' (set (operational_alerts db) - {c})"
    unfolding rows using c(1) by auto
  have other: "\<not> unresolved a" if "a \<in> set (operational_alerts db)" "a \<noteq> c" "at_DedupeKey a = at_DedupeKey c" for a
    using u c that unfolding one_unresolved_def by metis
  have u': "one_unresolved (operational_alerts db')"
    using u other c' unfolding one_unresolved_def set' by (metis Diff_iff insert_iff)
  moreover have "selectUnresolvedAlert k db' =
      (if k = at_DedupeKey c then (if unresolved c' then Some c' else None) else selectUnresolvedAlert k db)"
  proof (rule select_by_set [OF u'])
    fix a
    show "(if k = at_DedupeKey c then (if unresolved c' then Some c' else None) else selectUnresolvedAlert k db) = Some a \<longleftrightarrow>
      a \<in> set (operational_alerts db') \<and> at_DedupeKey a = k \<and> unresolved a"
      unfolding set' using other c' select_Some [OF u, of k a] by auto
  qed
  ultimately show ?thesis ..
qed

lemma select_appended:
  assumes u: "one_unresolved (operational_alerts db)" and none: "selectUnresolvedAlert (at_DedupeKey c) db = None"
    and c: "unresolved c" and rows: "operational_alerts db' = operational_alerts db @ [c]"
  shows "one_unresolved (operational_alerts db') \<and>
    selectUnresolvedAlert k db' = (if k = at_DedupeKey c then Some c else selectUnresolvedAlert k db)"
proof -
  have set': "set (operational_alerts db') = insert c (set (operational_alerts db))" by (simp add: rows)
  have other: "\<not> unresolved a" if "a \<in> set (operational_alerts db)" "at_DedupeKey a = at_DedupeKey c" for a
    using none that unfolding select_None by blast
  have u': "one_unresolved (operational_alerts db')"
    using u other unfolding one_unresolved_def set' by (metis insert_iff)
  have "selectUnresolvedAlert k db' = (if k = at_DedupeKey c then Some c else selectUnresolvedAlert k db)"
    by (rule select_by_set [OF u']) (use other c select_Some [OF u, of k] in \<open>auto simp: set'\<close>)
  with u' show ?thesis ..
qed

lemma select_deleted:
  assumes u: "one_unresolved (operational_alerts db)" and c: "c \<in> set (operational_alerts db)" "unresolved c"
    and set': "set (operational_alerts db') = set (operational_alerts db) - {c}"
  shows "one_unresolved (operational_alerts db') \<and>
    selectUnresolvedAlert k db' = (if k = at_DedupeKey c then None else selectUnresolvedAlert k db)"
proof -
  have other: "\<not> unresolved a" if "a \<in> set (operational_alerts db)" "a \<noteq> c" "at_DedupeKey a = at_DedupeKey c" for a
    using u c that unfolding one_unresolved_def by metis
  have u': "one_unresolved (operational_alerts db')" using u unfolding one_unresolved_def set' by (metis Diff_iff)
  have "selectUnresolvedAlert k db' = (if k = at_DedupeKey c then None else selectUnresolvedAlert k db)"
    by (rule select_by_set [OF u']) (use other select_Some [OF u, of k] in \<open>auto simp: set'\<close>)
  with u' show ?thesis ..
qed

section \<open>The automaton of one key\<close>

datatype alert_phase = Quiet | Candidate AlertSeverity | Active AlertSeverity nat

definition phase_of :: "string \<Rightarrow> alert_db \<Rightarrow> alert_phase" where
  "phase_of k db = (case selectUnresolvedAlert k db of
     None \<Rightarrow> Quiet
   | Some a \<Rightarrow> if alertVisible a then Active (at_Severity a) (nat (at_ConsecutiveSuccesses a)) else Candidate (at_Severity a))"

definition worst :: "AlertSeverity \<Rightarrow> AlertSeverity \<Rightarrow> AlertSeverity" where
  "worst a b = (if a = AlertSeverityCritical \<or> b = AlertSeverityCritical then AlertSeverityCritical else AlertSeverityWarning)"

text \<open>The specification: two failing observations in a row open an alert, three healthy ones
  resolve it, its severity only rises, and a single failing observation leaves no trace once a
  healthy one follows.\<close>

fun failing_step :: "AlertSeverity \<Rightarrow> alert_phase \<Rightarrow> alert_phase \<times> AlertTransitionKind" where
  "failing_step sev Quiet = (Candidate sev, AlertTransitionNone)"
| "failing_step sev (Candidate s) = (Active (worst s sev) 0, AlertTransitionOpened)"
| "failing_step sev (Active s n) = (Active (worst s sev) 0,
     if sev = AlertSeverityCritical \<and> s \<noteq> AlertSeverityCritical then AlertTransitionUpgraded else AlertTransitionUpdated)"

fun healthy_step :: "alert_phase \<Rightarrow> alert_phase \<times> AlertTransitionKind" where
  "healthy_step (Active s n) = (if n \<ge> 2 then (Quiet, AlertTransitionResolved) else (Active s (n + 1), AlertTransitionUpdated))"
| "healthy_step _ = (Quiet, AlertTransitionNone)"

definition spec_step :: "alertCondition \<Rightarrow> alert_phase \<Rightarrow> alert_phase \<times> AlertTransitionKind" where
  "spec_step c p = (case c of
     alertConditionHealthy \<Rightarrow> healthy_step p
   | alertConditionWarning \<Rightarrow> failing_step AlertSeverityWarning p
   | alertConditionCritical \<Rightarrow> failing_step AlertSeverityCritical p
   | alertConditionNeutral \<Rightarrow> (p, AlertTransitionNone))"

text \<open>An observation counts unless the key's alert was observed less than a minute before.\<close>

definition counts :: "Evaluation \<Rightarrow> alert_db \<Rightarrow> bool" where
  "counts ev db = (case selectUnresolvedAlert (rl_DedupeKey (el_Rule ev)) db of
     None \<Rightarrow> True | Some a \<Rightarrow> at_LastObservedAt a + Minute \<le> el_ObservedAt ev)"

lemma too_early: "(\<not> t > l \<or> time_sub t l < Minute) \<longleftrightarrow> \<not> l + Minute \<le> t"
  using time_sub_small(1) [of "Minute" t l] by auto

section \<open>Each step keeps the invariant and follows the automaton\<close>

lemma schedule_alerts: "schedule_deliveries env i e due db = Inr db' \<Longrightarrow> operational_alerts db' = operational_alerts db"
  by (auto simp: schedule_deliveries_def split: sum.splits)

lemma enqueue_alerts: "enqueueWebhookTransition env kind a db = Inr db' \<Longrightarrow> operational_alerts db' = operational_alerts db"
  by (auto simp: enqueueWebhookTransition_def Let_def dest: schedule_alerts split: if_splits option.splits)

lemma update_alert_Inr:
  assumes run: "update_alert (at_ID c) f db = Inr (u, db1)" and inv: "alerts_inv db"
    and c: "c \<in> set (operational_alerts db)" "unresolved c"
  shows "u = f c" "alert_checks (f c)" "operational_alerts db1 = map (\<lambda>a. if a = c then f c else a) (operational_alerts db)"
proof -
  have k: "keyed at_ID (operational_alerts db)" using inv by (simp add: alerts_inv_def)
  have f: "find (\<lambda>a. at_ID a = at_ID c \<and> at_State a \<noteq> AlertStateResolved) (operational_alerts db) = Some c"
    by (rule find_keyed [OF k c(1)]) (use c(2) in \<open>auto simp: unresolved_def\<close>)
  from run show "u = f c" "alert_checks (f c)" by (auto simp: update_alert_def f split: if_splits)
  have "at_ID a = at_ID c \<and> at_State a \<noteq> AlertStateResolved \<longleftrightarrow> a = c" if "a \<in> set (operational_alerts db)" for a
    using keyed_inj [OF k that c(1)] c(2) by (auto simp: unresolved_def)
  with run show "operational_alerts db1 = map (\<lambda>a. if a = c then f c else a) (operational_alerts db)"
    by (auto simp: update_alert_def f update_where_def split: if_splits)
qed

lemma alerts_inv_replaced:
  assumes inv: "alerts_inv db" and c: "c \<in> set (operational_alerts db)" "unresolved c"
    and c': "at_DedupeKey c' = at_DedupeKey c" "at_ID c' = at_ID c" "alert_checks c'" "alert_stage c'"
    and rows: "operational_alerts db' = map (\<lambda>a. if a = c then c' else a) (operational_alerts db)"
  shows "alerts_inv db'"
proof -
  have "map at_ID (operational_alerts db') = map at_ID (operational_alerts db)" unfolding rows using c'(2) by simp
  then have "keyed at_ID (operational_alerts db')" using inv by (simp add: alerts_inv_def keyed_def)
  moreover have "one_unresolved (operational_alerts db')"
    using select_replaced [OF _ c c'(1) rows] inv by (simp add: alerts_inv_def)
  moreover have "\<forall>a \<in> set (operational_alerts db'). alert_checks a \<and> alert_stage a"
    using inv c'(3,4) by (auto simp: rows alerts_inv_def)
  ultimately show ?thesis by (simp add: alerts_inv_def)
qed

lemma recordHealthy_refines:
  assumes inv: "alerts_inv db" and c: "selectUnresolvedAlert k db = Some c" "alertVisible c"
    and run: "recordHealthyEvaluation env c ev db = Inr (tr, db')"
  shows "alerts_inv db' \<and> (phase_of k db', tr_Kind tr) = healthy_step (phase_of k db) \<and> (\<forall>k'. k' \<noteq> k \<longrightarrow> phase_of k' db' = phase_of k' db)"
proof -
  have u: "one_unresolved (operational_alerts db)" using inv by (simp add: alerts_inv_def)
  have m: "c \<in> set (operational_alerts db)" "at_DedupeKey c = k" "unresolved c" using select_Some [OF u] c(1) by blast+
  have st: "alert_stage c" using inv m(1) by (simp add: alerts_inv_def)
  let ?n = "at_ConsecutiveSuccesses c + 1"
  let ?f = "healthy_update (?n \<ge> 3) ?n ev"
  from run obtain up db1 where up: "update_alert (at_ID c) ?f db = Inr (up, db1)"
      and enq: "enqueueWebhookTransition env (if ?n \<ge> 3 then AlertTransitionResolved else AlertTransitionUpdated) up db1 = Inr db'"
      and tr: "tr_Kind tr = (if ?n \<ge> 3 then AlertTransitionResolved else AlertTransitionUpdated)"
    by (auto simp: recordHealthyEvaluation_def Let_def split: sum.splits prod.splits)
  note upd = update_alert_Inr [OF up inv m(1,3)]
  have rows: "operational_alerts db' = map (\<lambda>a. if a = c then ?f c else a) (operational_alerts db)"
    using upd(3) enqueue_alerts [OF enq] by simp
  have v: "at_Version c \<noteq> 1" using alert_stage_visible [OF st] c(2) by simp
  with st m(3) have cnt: "0 \<le> at_ConsecutiveSuccesses c" "at_ConsecutiveSuccesses c \<le> 2" "2 \<le> at_Version c"
    by (auto simp: alert_stage_def unresolved_def split: AlertState.splits)
  have f: "at_DedupeKey (?f c) = k" "at_ID (?f c) = at_ID c" "at_Severity (?f c) = at_Severity c"
      "at_ConsecutiveSuccesses (?f c) = ?n" "at_Version (?f c) = at_Version c + 1"
      "unresolved (?f c) \<longleftrightarrow> \<not> ?n \<ge> 3" "alertVisible (?f c)"
    using m cnt by (auto simp: healthy_update_def Let_def unresolved_def alertVisible_def)
  have "alert_stage (?f c)"
    using cnt m(3) by (auto simp: alert_stage_def healthy_update_def Let_def unresolved_def split: AlertState.splits)
  then have inv': "alerts_inv db'"
    by (rule alerts_inv_replaced [OF inv m(1,3) trans [OF f(1) m(2) [symmetric]] f(2) upd(2) _ rows])
  have sel: "selectUnresolvedAlert k' db' = (if k' = k then (if \<not> ?n \<ge> 3 then Some (?f c) else None) else selectUnresolvedAlert k' db)" for k'
    using select_replaced [OF u m(1,3) _ rows, of k'] f(1,6) m(2) by simp
  have "(phase_of k db', tr_Kind tr) = healthy_step (phase_of k db)"
  proof (cases "?n \<ge> 3")
    case True
    then have "phase_of k db' = Quiet" unfolding phase_of_def sel by simp
    with True cnt c tr show ?thesis by (simp add: phase_of_def)
  next
    case False
    then have "selectUnresolvedAlert k db' = Some (?f c)" unfolding sel by simp
    with f(7) have "phase_of k db' = Active (at_Severity (?f c)) (nat (at_ConsecutiveSuccesses (?f c)))" by (simp add: phase_of_def)
    then have "phase_of k db' = Active (at_Severity c) (nat (at_ConsecutiveSuccesses c) + 1)" unfolding f(3,4) using cnt by simp
    with False cnt c tr show ?thesis by (simp add: phase_of_def)
  qed
  moreover have "phase_of k' db' = phase_of k' db" if "k' \<noteq> k" for k' by (simp add: phase_of_def sel that)
  ultimately show ?thesis using inv' by blast
qed

lemma recordFailing_refines:
  assumes inv: "alerts_inv db" and c: "selectUnresolvedAlert k db = Some c"
    and cond: "condition = alertConditionWarning \<or> condition = alertConditionCritical"
    and run: "recordFailingEvaluation env c ev condition db = Inr (tr, db')"
  shows "alerts_inv db' \<and> (phase_of k db', tr_Kind tr) = spec_step condition (phase_of k db) \<and> (\<forall>k'. k' \<noteq> k \<longrightarrow> phase_of k' db' = phase_of k' db)"
proof -
  have u: "one_unresolved (operational_alerts db)" using inv by (simp add: alerts_inv_def)
  have m: "c \<in> set (operational_alerts db)" "at_DedupeKey c = k" "unresolved c" using select_Some [OF u] c(1) by blast+
  have st: "alert_stage c" using inv m(1) by (simp add: alerts_inv_def)
  let ?o = "if condition = alertConditionCritical then AlertSeverityCritical else AlertSeverityWarning"
  let ?sev = "worst (at_Severity c) ?o"
  let ?th = "if ?sev = AlertSeverityCritical then rl_Critical (el_Rule ev) else rl_Warning (el_Rule ev)"
  let ?n = "at_ConsecutiveFailures c + 1"
  let ?f = "failing_update ?sev ?th ?n ev"
  let ?kind = "if \<not> alertVisible c then AlertTransitionOpened
    else if ?o = AlertSeverityCritical \<and> at_Severity c \<noteq> AlertSeverityCritical then AlertTransitionUpgraded else AlertTransitionUpdated"
  have sev: "(if ?o = AlertSeverityCritical \<and> at_Severity c \<noteq> AlertSeverityCritical then AlertSeverityCritical else at_Severity c) = ?sev"
    by (cases "at_Severity c") (auto simp: worst_def)
  have cnt: "0 \<le> at_ConsecutiveFailures c" "\<not> alertVisible c \<Longrightarrow> ?n = 2" "1 \<le> at_Version c"
    using st alert_stage_visible [OF st] by (auto simp: alert_stage_def split: if_splits AlertState.splits)
  have o: "fst (failingSeverityAndThreshold (el_Rule ev) condition) = ?o" by (simp add: failingSeverityAndThreshold_def)
  from run obtain up db1 where up: "update_alert (at_ID c) ?f db = Inr (up, db1)"
      and enq: "enqueueWebhookTransition env ?kind up db1 = Inr db'" and tr: "tr_Kind tr = ?kind"
    unfolding recordFailingEvaluation_def Let_def o sev
    using cnt(2) by (auto split: sum.splits prod.splits if_splits)
  note upd = update_alert_Inr [OF up inv m(1,3)]
  have rows: "operational_alerts db' = map (\<lambda>a. if a = c then ?f c else a) (operational_alerts db)"
    using upd(3) enqueue_alerts [OF enq] by simp
  have f: "at_DedupeKey (?f c) = k" "at_ID (?f c) = at_ID c" "at_Severity (?f c) = ?sev"
      "at_ConsecutiveSuccesses (?f c) = 0" "at_State (?f c) = at_State c" "alertVisible (?f c)"
    using m cnt by (auto simp: failing_update_def alertVisible_def)
  have "alert_stage (?f c)"
    using cnt m(3) by (auto simp: alert_stage_def failing_update_def unresolved_def split: AlertState.splits)
  then have inv': "alerts_inv db'"
    by (rule alerts_inv_replaced [OF inv m(1,3) trans [OF f(1) m(2) [symmetric]] f(2) upd(2) _ rows])
  have sel: "selectUnresolvedAlert k' db' = (if k' = k then Some (?f c) else selectUnresolvedAlert k' db)" for k'
    using select_replaced [OF u m(1,3) _ rows, of k'] f(1,5) m(2,3) by (simp add: unresolved_def)
  have "phase_of k db' = Active ?sev 0" using f by (simp add: phase_of_def sel)
  moreover have "phase_of k db = (if alertVisible c then Active (at_Severity c) (nat (at_ConsecutiveSuccesses c)) else Candidate (at_Severity c))"
    by (simp add: phase_of_def c)
  ultimately have "(phase_of k db', tr_Kind tr) = spec_step condition (phase_of k db)"
    using cond tr by (auto simp: spec_step_def)
  moreover have "phase_of k' db' = phase_of k' db" if "k' \<noteq> k" for k' by (simp add: phase_of_def sel that)
  ultimately show ?thesis using inv' by blast
qed

lemma insertCandidate_refines:
  assumes inv: "alerts_inv db" and c: "selectUnresolvedAlert (rl_DedupeKey (el_Rule ev)) db = None"
    and cond: "condition = alertConditionWarning \<or> condition = alertConditionCritical"
    and run: "insertAlertCandidate i ev condition db = Inr db'"
  shows "alerts_inv db' \<and> (phase_of (rl_DedupeKey (el_Rule ev)) db', AlertTransitionNone) = spec_step condition (phase_of (rl_DedupeKey (el_Rule ev)) db) \<and>
    (\<forall>k'. k' \<noteq> rl_DedupeKey (el_Rule ev) \<longrightarrow> phase_of k' db' = phase_of k' db)"
proof -
  let ?a = "alert_candidate i ev condition"
  let ?k = "rl_DedupeKey (el_Rule ev)"
  have u: "one_unresolved (operational_alerts db)" and k: "keyed at_ID (operational_alerts db)" using inv by (simp_all add: alerts_inv_def)
  have ok: "alert_checks ?a" "\<forall>x \<in> set (operational_alerts db). at_ID x \<noteq> i" and rows: "operational_alerts db' = operational_alerts db @ [?a]"
    using run by (auto simp: insertAlertCandidate_def Let_def list_ex_iff split: if_splits)
  have a: "at_DedupeKey ?a = ?k" "unresolved ?a" "at_ID ?a = i" "\<not> alertVisible ?a" "alert_stage ?a"
      "at_Severity ?a = (if condition = alertConditionCritical then AlertSeverityCritical else AlertSeverityWarning)"
    by (simp_all add: alert_candidate_def failingSeverityAndThreshold_def unresolved_def alertVisible_def alert_stage_def)
  note app = select_appended [OF u _ a(2) rows]
  have sel: "one_unresolved (operational_alerts db') \<and> selectUnresolvedAlert k' db' = (if k' = ?k then Some ?a else selectUnresolvedAlert k' db)" for k'
    using app [of k'] c a(1) by simp
  have "keyed at_ID (operational_alerts db')" unfolding rows by (rule keyed_append1 [OF k]) (use ok(2) a(3) in simp)
  then have "alerts_inv db'" using sel inv ok(1) a(5) by (auto simp: alerts_inv_def rows)
  moreover have "(phase_of ?k db', AlertTransitionNone) = spec_step condition (phase_of ?k db)"
    using cond a by (auto simp: phase_of_def sel c spec_step_def)
  ultimately show ?thesis by (simp add: phase_of_def sel)
qed

lemma delete_candidate_refines:
  assumes inv: "alerts_inv db" and c: "selectUnresolvedAlert k db = Some c" "\<not> alertVisible c"
    and db': "db' = delete_alert (at_ID c) db"
  shows "alerts_inv db' \<and> (phase_of k db', AlertTransitionNone) = healthy_step (phase_of k db) \<and>
    (\<forall>k'. k' \<noteq> k \<longrightarrow> phase_of k' db' = phase_of k' db)"
proof -
  have u: "one_unresolved (operational_alerts db)" and kd: "keyed at_ID (operational_alerts db)" using inv by (simp_all add: alerts_inv_def)
  have m: "c \<in> set (operational_alerts db)" "at_DedupeKey c = k" "unresolved c" using select_Some [OF u] c(1) by blast+
  have set': "set (operational_alerts db') = set (operational_alerts db) - {c}"
    unfolding db' using keyed_inj [OF kd _ m(1)] by (auto simp: delete_alert_def set_delete_where)
  have sel: "one_unresolved (operational_alerts db') \<and> selectUnresolvedAlert k' db' = (if k' = k then None else selectUnresolvedAlert k' db)" for k'
    using select_deleted [OF u m(1,3) set', of k'] m(2) by simp
  have "keyed at_ID (operational_alerts db')" unfolding db' using kd by (simp add: delete_alert_def keyed_delete_where)
  then have "alerts_inv db'" using sel inv set' by (auto simp: alerts_inv_def)
  then show ?thesis using c by (simp add: phase_of_def sel)
qed

lemma evaluate_tx_refines:
  assumes inv: "alerts_inv db" and cond: "condition \<noteq> alertConditionNeutral"
    and run: "evaluate_tx env i ev condition db = Inr (tr, db')"
  defines "k \<equiv> rl_DedupeKey (el_Rule ev)"
  shows "alerts_inv db' \<and> (\<forall>k'. k' \<noteq> k \<longrightarrow> phase_of k' db' = phase_of k' db) \<and>
    (if counts ev db then (phase_of k db', tr_Kind tr) = spec_step condition (phase_of k db)
     else operational_alerts db' = operational_alerts db \<and> db' = db \<and> tr_Kind tr = AlertTransitionNone)"
proof (cases "selectUnresolvedAlert k db")
  case None
  show ?thesis
  proof (cases "condition = alertConditionHealthy")
    case True
    with run None inv show ?thesis
      by (auto simp: evaluate_tx_def k_def counts_def spec_step_def phase_of_def no_transition_def)
  next
    case False
    with cond have c: "condition = alertConditionWarning \<or> condition = alertConditionCritical" by (cases condition) auto
    from run None False have ins: "insertAlertCandidate i ev condition db = Inr db'" "tr_Kind tr = AlertTransitionNone"
      by (auto simp: evaluate_tx_def k_def no_transition_def split: sum.splits)
    from insertCandidate_refines [OF inv None [unfolded k_def] c ins(1)] None ins(2) show ?thesis by (simp add: counts_def k_def)
  qed
next
  case (Some a)
  show ?thesis
  proof (cases "at_LastObservedAt a + Minute \<le> el_ObservedAt ev")
    case False
    then have "\<not> counts ev db" using Some by (simp add: counts_def k_def)
    with run False inv show ?thesis
      unfolding evaluate_tx_def k_def [symmetric] Some option.case too_early
      by (auto simp: no_transition_def split: if_splits)
  next
    case True
    then have cnt: "counts ev db" using Some by (simp add: counts_def k_def)
    note run' = run [unfolded evaluate_tx_def k_def [symmetric] Some option.case too_early]
    consider (gone) "condition = alertConditionHealthy" "\<not> alertVisible a" | (healthy) "condition = alertConditionHealthy" "alertVisible a"
      | (failing) "condition = alertConditionWarning \<or> condition = alertConditionCritical"
      using cond by (cases condition) auto
    then show ?thesis
    proof cases
      case gone
      with run' True have "db' = delete_alert (at_ID a) db" "tr_Kind tr = AlertTransitionNone"
        by (auto simp: no_transition_def)
      with delete_candidate_refines [OF inv Some gone(2) this(1)] gone cnt show ?thesis by (simp add: spec_step_def)
    next
      case healthy
      with run' True have "recordHealthyEvaluation env a ev db = Inr (tr, db')" by simp
      from recordHealthy_refines [OF inv Some healthy(2) this] healthy cnt show ?thesis by (simp add: spec_step_def)
    next
      case failing
      with run' True have "recordFailingEvaluation env a ev condition db = Inr (tr, db')" by auto
      from recordFailing_refines [OF inv Some failing this] cnt show ?thesis by simp
    qed
  qed
qed

text \<open>C17: The alert table implements the hysteresis automaton. From a consistent table every
  successful evaluation leaves it consistent (one unresolved alert per key, every row within its
  constraints) and touches only its own key; a neutral condition or an observation less than a
  minute after the last changes nothing; and a counted observation moves the key exactly as the
  automaton does: two failures in a row open, three successes in a row resolve, severity only
  rises, and the reported transition is the automaton's.\<close>

theorem evaluate_alert_refines:
  assumes inv: "alerts_inv db" and run: "EvaluateAlert fault env newid ev db = (Inr tr, db')"
    and cond: "classifyAlertEvaluation ev = Inr condition"
  shows "alerts_inv db' \<and>
    (\<forall>k. k \<noteq> rl_DedupeKey (el_Rule ev) \<longrightarrow> phase_of k db' = phase_of k db) \<and>
    (if condition = alertConditionNeutral \<or> \<not> counts ev db then db' = db \<and> tr_Kind tr = AlertTransitionNone
     else (phase_of (rl_DedupeKey (el_Rule ev)) db', tr_Kind tr) = spec_step condition (phase_of (rl_DedupeKey (el_Rule ev)) db))"
proof (cases "condition = alertConditionNeutral")
  case True
  with run cond inv show ?thesis by (auto simp: EvaluateAlert_def no_transition_def)
next
  case False
  with run cond have "evaluate_tx env newid ev condition db = Inr (tr, db')"
    by (auto simp: EvaluateAlert_def dest: transact_Inr)
  from evaluate_tx_refines [OF inv False this] False show ?thesis by (auto split: if_splits)
qed

section \<open>Acknowledgement\<close>

lemma acknowledge_keeps:
  assumes inv: "alerts_inv db" and run: "AcknowledgeAlert fault t actor i db = (res, db')"
  shows "alerts_inv db' \<and> (\<forall>k. phase_of k db' = phase_of k db)"
proof (cases "db' = db")
  case False
  have kd: "keyed at_ID (operational_alerts db)" and u: "one_unresolved (operational_alerts db)" using inv by (simp_all add: alerts_inv_def)
  from False run obtain c where c: "find (\<lambda>a. at_ID a = i \<and> alertVisible a) (operational_alerts db) = Some c" "at_State c = AlertStateOpen"
      "alert_checks (acknowledge_update (u_ID (p_User actor)) t c)"
      "operational_alerts db' = update_where (\<lambda>x. at_ID x = i \<and> at_State x = AlertStateOpen)
         (acknowledge_update (u_ID (p_User actor)) t) (operational_alerts db)"
    by (auto simp: AcknowledgeAlert_def transact_def Let_def split: if_splits option.splits AlertState.splits)
  let ?f = "acknowledge_update (u_ID (p_User actor)) t"
  have m: "c \<in> set (operational_alerts db)" "at_ID c = i" "alertVisible c" using find_SomeD [OF c(1)] by auto
  have "at_ID x = i \<and> at_State x = AlertStateOpen \<longleftrightarrow> x = c" if "x \<in> set (operational_alerts db)" for x
    using keyed_inj [OF kd that m(1)] m(2) c(2) by auto
  then have rows: "operational_alerts db' = map (\<lambda>a. if a = c then ?f c else a) (operational_alerts db)"
    unfolding c(4) update_where_def by simp
  have un: "unresolved c" "unresolved (?f c)" using c(2) by (simp_all add: unresolved_def acknowledge_update_def)
  have st: "alert_stage c" using inv m(1) by (simp add: alerts_inv_def)
  then have "alert_stage (?f c)"
    using m(3) c(2) alert_stage_visible [OF st] by (auto simp: alert_stage_def acknowledge_update_def split: if_splits)
  then have "alerts_inv db'"
    by (rule alerts_inv_replaced [OF inv m(1) un(1) _ _ c(3) _ rows, rotated 2]) (simp_all add: acknowledge_update_def)
  moreover have "alertVisible (?f c)" "at_Severity (?f c) = at_Severity c" "at_ConsecutiveSuccesses (?f c) = at_ConsecutiveSuccesses c"
    using m(3) by (auto simp: alertVisible_def acknowledge_update_def)
  moreover have "selectUnresolvedAlert k db' = (if k = at_DedupeKey c then Some (?f c) else selectUnresolvedAlert k db)" for k
    using select_replaced [OF u m(1) un(1) _ rows, of k] un(2) by (simp add: acknowledge_update_def)
  moreover have "selectUnresolvedAlert (at_DedupeKey c) db = Some c" using select_Some [OF u] m(1) un(1) by blast
  ultimately show ?thesis using m(3) by (simp add: phase_of_def)
qed (use inv in simp)

section \<open>Evaluation succeeds\<close>

lemma update_alert_runs:
  assumes inv: "alerts_inv db" and c: "c \<in> set (operational_alerts db)" "unresolved c" and ok: "alert_checks (f c)"
  shows "\<exists>r. update_alert (at_ID c) f db = Inr r"
proof -
  have k: "keyed at_ID (operational_alerts db)" using inv by (simp add: alerts_inv_def)
  have "find (\<lambda>a. at_ID a = at_ID c \<and> at_State a \<noteq> AlertStateResolved) (operational_alerts db) = Some c"
    by (rule find_keyed [OF k c(1)]) (use c(2) in \<open>auto simp: unresolved_def\<close>)
  with ok show ?thesis by (simp add: update_alert_def)
qed

lemma classified_parts:
  assumes "classifyAlertEvaluation ev = Inr condition"
  shows "validAlertFloat (el_Value ev)" "validAlertFloat (rl_Warning (el_Rule ev))" "validAlertFloat (rl_Critical (el_Rule ev))"
  using assms by (auto simp: classifyAlertEvaluation_def validateAlertEvaluation_def validateAlertRule_def split: option.splits if_splits)

text \<open>Without a database fault, with a fresh identifier and the webhook off, an evaluation that
  can be classified always succeeds.\<close>

lemma evaluate_alert_succeeds:
  assumes inv: "alerts_inv db" and cond: "classifyAlertEvaluation ev = Inr condition"
    and env: "\<not> wh_enabled env" "\<forall>a \<in> set (operational_alerts db). at_ID a \<noteq> i"
  shows "\<exists>tr db'. EvaluateAlert False env i ev db = (Inr tr, db')"
proof -
  note fl = classified_parts [OF cond]
  have u: "one_unresolved (operational_alerts db)" using inv by (simp add: alerts_inv_def)
  have enq: "enqueueWebhookTransition env kd a d = Inr d" for kd a d using env(1) by (simp add: enqueueWebhookTransition_def)
  have "\<exists>r. evaluate_tx env i ev condition db = Inr r"
  proof (cases "selectUnresolvedAlert (rl_DedupeKey (el_Rule ev)) db")
    case None
    have "alert_checks (alert_candidate i ev condition)"
      using fl by (auto simp: alert_checks_def alert_candidate_def failingSeverityAndThreshold_def)
    with None env(2) show ?thesis by (auto simp: evaluate_tx_def insertAlertCandidate_def list_ex_iff)
  next
    case (Some c)
    then have m: "c \<in> set (operational_alerts db)" "unresolved c" using select_Some [OF u] by blast+
    have ok: "alert_checks c" and st: "alert_stage c" using inv m(1) by (simp_all add: alerts_inv_def)
    have h: "alert_checks (healthy_update r (at_ConsecutiveSuccesses c + 1) ev c)" if "at_LastObservedAt c < el_ObservedAt ev" for r
      using ok that fl m(2) unfolding alert_checks_def option.pred_set healthy_update_def unresolved_def Let_def
      by (cases r; cases "at_State c") (auto)
    have f: "alert_checks (failing_update s th (at_ConsecutiveFailures c + 1) ev c)" if "at_LastObservedAt c < el_ObservedAt ev" "validAlertFloat th" for s th
      using ok that fl unfolding alert_checks_def option.pred_set failing_update_def by auto
    have healthy: "\<exists>r. recordHealthyEvaluation env c ev db = Inr r" if later: "at_LastObservedAt c < el_ObservedAt ev"
    proof -
      obtain a d where "update_alert (at_ID c) (healthy_update (at_ConsecutiveSuccesses c + 1 \<ge> 3) (at_ConsecutiveSuccesses c + 1) ev) db = Inr (a, d)"
        using update_alert_runs [OF inv m, of "healthy_update (at_ConsecutiveSuccesses c + 1 \<ge> 3) (at_ConsecutiveSuccesses c + 1) ev"] h [OF later]
        by (metis surj_pair)
      then show ?thesis by (simp add: recordHealthyEvaluation_def Let_def enq)
    qed
    have failing: "\<exists>r. recordFailingEvaluation env c ev condition db = Inr r" if "at_LastObservedAt c < el_ObservedAt ev"
    proof -
      have "\<exists>a d. update_alert (at_ID c) (failing_update s (if s = AlertSeverityCritical then rl_Critical (el_Rule ev) else rl_Warning (el_Rule ev))
          (at_ConsecutiveFailures c + 1) ev) db = Inr (a, d)" for s
        using update_alert_runs [OF inv m, of "failing_update s (if s = AlertSeverityCritical then rl_Critical (el_Rule ev) else rl_Warning (el_Rule ev))
            (at_ConsecutiveFailures c + 1) ev"] f [OF that, of "if s = AlertSeverityCritical then rl_Critical (el_Rule ev) else rl_Warning (el_Rule ev)" s] fl
        by (auto split: if_splits)
      then obtain a d where upd: "update_alert (at_ID c) (failing_update
          (if fst (failingSeverityAndThreshold (el_Rule ev) condition) = AlertSeverityCritical \<and> at_Severity c \<noteq> AlertSeverityCritical
           then AlertSeverityCritical else at_Severity c)
          (if (if fst (failingSeverityAndThreshold (el_Rule ev) condition) = AlertSeverityCritical \<and> at_Severity c \<noteq> AlertSeverityCritical
               then AlertSeverityCritical else at_Severity c) = AlertSeverityCritical then rl_Critical (el_Rule ev) else rl_Warning (el_Rule ev))
          (at_ConsecutiveFailures c + 1) ev) db = Inr (a, d)" by blast
      show ?thesis unfolding recordFailingEvaluation_def Let_def upd sum.case prod.case enq by simp
    qed
    show ?thesis
      unfolding evaluate_tx_def Some option.case using healthy failing by auto
  qed
  with cond show ?thesis by (cases "condition = alertConditionNeutral") (auto simp: EvaluateAlert_def transact_def)
qed


section \<open>Listing by cursor\<close>

text \<open>What a client gets that follows the cursors from a filter on.\<close>

fun all_pages :: "nat \<Rightarrow> AlertFilter \<Rightarrow> alert_db \<Rightarrow> Alert list option" where
  "all_pages 0 f db = None"
| "all_pages (Suc n) f db = (case ListAlerts False f db of
     Inl e \<Rightarrow> None
   | Inr p \<Rightarrow> (case ap_Next p of
       None \<Rightarrow> Some (ap_Items p)
     | Some k \<Rightarrow> map_option ((@) (ap_Items p)) (all_pages n (f\<lparr>af_Before := Some k\<rparr>) db)))"

definition listing :: "AlertFilter \<Rightarrow> alert_db \<Rightarrow> Alert list" where
  "listing f db = rev (sort_key alert_order (filter (\<lambda>a. alert_matches f a \<and> before_cursor (af_Before f) a) (operational_alerts db)))"

lemma set_listing: "set (listing f db) = {a \<in> set (operational_alerts db). alert_matches f a \<and> before_cursor (af_Before f) a}"
  by (auto simp: listing_def)

lemma listing_decreasing:
  assumes "keyed at_ID (operational_alerts db)"
  shows "sorted_wrt (\<lambda>a b. alert_order b < alert_order a) (listing f db)"
proof -
  let ?L = "sort_key alert_order (filter (\<lambda>a. alert_matches f a \<and> before_cursor (af_Before f) a) (operational_alerts db))"
  have "distinct (map at_ID (filter (\<lambda>a. alert_matches f a \<and> before_cursor (af_Before f) a) (operational_alerts db)))"
    using assms by (simp add: keyed_def distinct_map_filter)
  then have "distinct (filter (\<lambda>a. alert_matches f a \<and> before_cursor (af_Before f) a) (operational_alerts db))"
      "inj_on alert_order (set ?L)"
    by (auto simp: distinct_map inj_on_def alert_order_def)
  then have "distinct (map alert_order ?L)" by (simp add: distinct_map)
  then have "sorted_wrt (<) (map alert_order ?L)" using sorted_sort_key strict_sorted_iff by blast
  then show ?thesis unfolding listing_def sorted_wrt_rev sorted_wrt_map .
qed

lemma filter_below_nth:
  assumes "sorted_wrt (\<lambda>a b. k b < (k a :: 'k :: order)) xs" and "i < length xs"
  shows "filter (\<lambda>a. k a < k (xs ! i)) xs = drop (Suc i) xs"
proof -
  have "filter (\<lambda>a. k a < k (xs ! i)) (take (Suc i) xs) = []"
  proof (simp add: filter_empty_conv, intro ballI)
    fix a assume "a \<in> set (take (Suc i) xs)"
    then obtain j where j: "j \<le> i" "a = xs ! j" using assms(2) by (auto simp: in_set_conv_nth less_Suc_eq_le)
    show "\<not> k a < k (xs ! i)"
    proof (cases "j = i")
      case False
      with j assms show ?thesis using sorted_wrt_nth_less [OF assms(1), of j i] by auto
    qed (simp add: j)
  qed
  moreover have "filter (\<lambda>a. k a < k (xs ! i)) (drop (Suc i) xs) = drop (Suc i) xs"
  proof (simp add: filter_id_conv, intro ballI)
    fix a assume "a \<in> set (drop (Suc i) xs)"
    then obtain j where "j < length xs - Suc i" "a = xs ! (Suc i + j)" by (auto simp: in_set_conv_nth)
    then show "k a < k (xs ! i)" using sorted_wrt_nth_less [OF assms(1), of i "Suc i + j"] by simp
  qed
  ultimately show ?thesis
    using filter_append [of "\<lambda>a. k a < k (xs ! i)" "take (Suc i) xs" "drop (Suc i) xs"] by simp
qed

lemma listing_next:
  assumes kd: "keyed at_ID (operational_alerts db)" and i: "i < length (listing f db)"
  shows "listing (f\<lparr>af_Before := Some (alert_order (listing f db ! i))\<rparr>) db = drop (Suc i) (listing f db)"
proof -
  let ?c = "alert_order (listing f db ! i)"
  have "listing f db ! i \<in> set (listing f db)" using i by simp
  then have bc: "before_cursor (af_Before f) (listing f db ! i)" by (simp add: set_listing)
  have eq: "alert_matches (f\<lparr>af_Before := Some ?c\<rparr>) a \<and> before_cursor (Some ?c) a \<longleftrightarrow>
      alert_order a < ?c \<and> alert_matches f a \<and> before_cursor (af_Before f) a" for a
    using bc by (auto simp: alert_matches_def before_cursor_def split: option.splits)
  have "listing (f\<lparr>af_Before := Some ?c\<rparr>) db =
      filter (\<lambda>a. alert_order a < ?c) (listing f db)"
    unfolding listing_def rev_filter [symmetric] filter_sort filter_filter
    by (rule arg_cong [where f = rev], rule arg_cong [where f = "sort_key alert_order"], rule filter_cong [OF refl])
      (use eq in \<open>auto simp: listing_def\<close>)
  with filter_below_nth [OF listing_decreasing [OF kd] i] show ?thesis by simp
qed

lemma ListAlerts_listing:
  assumes "validateAlertFilter f = None"
  shows "ListAlerts False f db =
    (if length (listing f db) > nat (af_Limit f)
     then Inr \<lparr>ap_Items = take (nat (af_Limit f)) (listing f db), ap_Next = Some (alert_order (listing f db ! (nat (af_Limit f) - 1)))\<rparr>
     else Inr \<lparr>ap_Items = listing f db, ap_Next = None\<rparr>)"
proof -
  have lim: "1 \<le> af_Limit f" using assms by (auto simp: validateAlertFilter_def split: if_splits)
  let ?n = "nat (af_Limit f)"
  have n: "nat (af_Limit f + 1) = Suc ?n" "0 < ?n" using lim by auto
  have cond: "int (length (take (Suc ?n) (listing f db))) > af_Limit f \<longleftrightarrow> length (listing f db) > ?n" using lim by auto
  have page: "take ?n (take (Suc ?n) (listing f db)) = take ?n (listing f db)" by (simp add: min_def)
  have lst: "last (take ?n (listing f db)) = listing f db ! (?n - 1)" if "length (listing f db) > ?n"
  proof -
    have "take ?n (listing f db) \<noteq> []" using that n(2) by auto
    then show ?thesis using that by (simp add: last_conv_nth min_def)
  qed
  show ?thesis
    unfolding ListAlerts_def listing_def [symmetric] Let_def n(1) cond page
    using assms lst by auto
qed

lemma cursor_valid:
  assumes "validateAlertFilter f = None" and "validSampleTime (at_LastObservedAt a)" and "at_ID a \<noteq> uuid_Nil"
  shows "validateAlertFilter (f\<lparr>af_Before := Some (alert_order a)\<rparr>) = None"
  using assms by (auto simp: validateAlertFilter_def alert_order_def split: if_splits option.splits)

text \<open>Paging through the alerts loses and repeats nothing. Following the cursors of
  \<open>ListAlerts\<close> ends after at most one request per alert and delivers exactly the visible
  alerts that match the filter, each once, newest first.\<close>

theorem list_alerts_complete:
  assumes f: "validateAlertFilter f = None" "af_Before f = None" and kd: "keyed at_ID (operational_alerts db)"
    and rows: "\<forall>a \<in> set (operational_alerts db). validSampleTime (at_LastObservedAt a) \<and> at_ID a \<noteq> uuid_Nil"
  shows "\<exists>as. all_pages (Suc (length (operational_alerts db))) f db = Some as \<and> distinct as \<and>
    set as = {a \<in> set (operational_alerts db). alert_matches f a} \<and> sorted_wrt (\<lambda>a b. alert_order b < alert_order a) as"
proof -
  have pages: "all_pages n f db = Some (listing f db)" if "validateAlertFilter f = None" "length (listing f db) < n" for n f
    using that
  proof (induction n arbitrary: f)
    case (Suc n)
    note page = ListAlerts_listing [OF Suc.prems(1)]
    show ?case
    proof (cases "length (listing f db) > nat (af_Limit f)")
      case True
      have lim: "1 \<le> nat (af_Limit f)" using Suc.prems(1) by (auto simp: validateAlertFilter_def split: if_splits)
      let ?i = "nat (af_Limit f) - 1"
      let ?f = "f\<lparr>af_Before := Some (alert_order (listing f db ! ?i))\<rparr>"
      have i: "?i < length (listing f db)" using True by simp
      then have "listing f db ! ?i \<in> set (operational_alerts db)" using nth_mem set_listing by blast
      then have v: "validateAlertFilter ?f = None" using cursor_valid [OF Suc.prems(1)] rows by blast
      have rest: "listing ?f db = drop (nat (af_Limit f)) (listing f db)" using listing_next [OF kd i] lim by simp
      have "all_pages n ?f db = Some (listing ?f db)" using Suc.IH [OF v] Suc.prems(2) lim rest True by simp
      with True page rest show ?thesis by simp
    qed (use page in simp)
  qed simp
  have "length (listing f db) < Suc (length (operational_alerts db))" by (simp add: listing_def length_filter_le le_imp_less_Suc)
  then have "all_pages (Suc (length (operational_alerts db))) f db = Some (listing f db)" by (rule pages [OF f(1)])
  moreover have "distinct (listing f db)"
    using kd by (simp add: listing_def keyed_def distinct_map)
  moreover have "set (listing f db) = {a \<in> set (operational_alerts db). alert_matches f a}"
    using f(2) by (simp add: set_listing before_cursor_def)
  ultimately show ?thesis using listing_decreasing [OF kd] by blast
qed

section \<open>Concrete evaluations\<close>

definition wit_rule :: Rule where
  "wit_rule = mk_rule ''filesystem_root_usage'' ''storage'' ''Root filesystem usage is high'' (Fin 80) (Fin 90) ''above'' 1"

definition wit_evaluation :: "time \<Rightarrow> Evaluation" where
  "wit_evaluation t = \<lparr>el_Rule = wit_rule, el_Value = Fin 85, el_ObservedAt = t, el_Available = True, el_SampleCount = 1\<rparr>"

definition wit_webhook_off :: webhook_env where
  "wit_webhook_off = \<lparr>wh_enabled = False, wh_clock = wit_now, wh_event_id = 1, wh_delivery_ids = [1, 2, 3]\<rparr>"

definition empty_alert_db :: alert_db where
  "empty_alert_db = \<lparr>operational_alerts = [], alert_webhook_events = [], alert_deliveries = [], alert_audit = []\<rparr>"

lemma wit_classified: "classifyAlertEvaluation (wit_evaluation wit_now) = Inr alertConditionWarning"
  by (simp add: classifyAlertEvaluation_def validateAlertEvaluation_def wit_evaluation_def wit_rule_def mk_rule_def
      validateAlertRule_def rule_text validSampleTime_def wit_now_def year_10000_def)

theorem evaluate_alert_refines_witness:
  "\<exists>tr db'. EvaluateAlert False wit_webhook_off 7 (wit_evaluation wit_now) empty_alert_db = (Inr tr, db') \<and>
     phase_of ''filesystem_root_usage'' db' = Candidate AlertSeverityWarning \<and> alerts_inv db'"
proof -
  have inv: "alerts_inv empty_alert_db" by (simp add: alerts_inv_def empty_alert_db_def keyed_def one_unresolved_def)
  have quiet: "counts (wit_evaluation wit_now) empty_alert_db" "phase_of k empty_alert_db = Quiet" for k
    by (simp_all add: counts_def phase_of_def selectUnresolvedAlert_def empty_alert_db_def)
  have k: "rl_DedupeKey (el_Rule (wit_evaluation wit_now)) = ''filesystem_root_usage''"
    by (simp add: wit_evaluation_def wit_rule_def mk_rule_def)
  obtain tr db' where run: "EvaluateAlert False wit_webhook_off 7 (wit_evaluation wit_now) empty_alert_db = (Inr tr, db')"
    using evaluate_alert_succeeds [OF inv wit_classified, of wit_webhook_off 7]
    by (auto simp: wit_webhook_off_def empty_alert_db_def)
  from evaluate_alert_refines [OF inv run wit_classified] run show ?thesis
    by (auto simp: quiet k spec_step_def)
qed

definition wit_alert :: Alert where
  "wit_alert = (alert_candidate 7 (wit_evaluation wit_now) alertConditionWarning)\<lparr>at_ConsecutiveFailures := 2, at_Version := 2\<rparr>"

definition wit_filter :: AlertFilter where
  "wit_filter = \<lparr>af_State = ''open'', af_Severity = [], af_Category = ''storage'', af_Before = None, af_Limit = 50\<rparr>"

theorem list_alerts_complete_witness:
  "\<exists>as. all_pages 2 wit_filter (empty_alert_db\<lparr>operational_alerts := [wit_alert]\<rparr>) = Some as \<and> set as = {wit_alert}"
proof -
  have f: "validateAlertFilter wit_filter = None" "af_Before wit_filter = None"
    by (simp_all add: validateAlertFilter_def wit_filter_def alertCategories_def)
  have a: "validSampleTime (at_LastObservedAt wit_alert)" "at_ID wit_alert \<noteq> uuid_Nil" "alert_matches wit_filter wit_alert"
    by (simp_all add: wit_alert_def alert_candidate_def failingSeverityAndThreshold_def wit_evaluation_def wit_rule_def mk_rule_def
        validSampleTime_def wit_now_def year_10000_def alert_matches_def alertVisible_def wit_filter_def state_text_def)
  from list_alerts_complete [OF f, of "empty_alert_db\<lparr>operational_alerts := [wit_alert]\<rparr>"] a show ?thesis
    by (auto simp: keyed_def numeral_2_eq_2)
qed

end
