(* ===== verification/Webhook_Queue.thy ===== *)
theory Webhook_Queue
  imports Alert_Machine
begin

text \<open>
  Delivery of alert transitions: \<^verbatim>\<open>internal/operations/webhook_delivery.go\<close>,
  \<^verbatim>\<open>postgres_webhook_delivery.go\<close>, \<^verbatim>\<open>webhook_runner.go\<close> and the classification part of
  \<^verbatim>\<open>webhook_sender.go\<close>. What the sender answers is an argument of the runner; the three
  attempts of an event are rows of \<open>alert_deliveries\<close> that are claimed under a token.
\<close>

section \<open>Data\<close>

definition DefaultWebhookLeaseDuration :: duration where "DefaultWebhookLeaseDuration = 30 * Second"
definition maxWebhookLeaseDuration :: duration where "maxWebhookLeaseDuration = 5 * Minute"
definition DefaultWebhookPollInterval :: duration where "DefaultWebhookPollInterval = 5 * Second"
definition defaultWebhookSendTimeout :: duration where "defaultWebhookSendTimeout = 15 * Second"
definition maxWebhookNetworkTimeout :: duration where "maxWebhookNetworkTimeout = 30 * Second"

record WebhookDeliveryJob =
  wj_ID :: uuid
  wj_EventID :: uuid
  wj_AlertID :: uuid
  wj_Attempt :: int
  wj_ScheduledAt :: time
  wj_StartedAt :: time
  wj_ClaimOwner :: string
  wj_ClaimToken :: uuid
  wj_ClaimExpiresAt :: time
  wj_Event :: WebhookEvent

record WebhookDeliveryResult =
  wr_Succeeded :: bool
  wr_Retryable :: bool
  wr_HTTPStatusClass :: int
  wr_ErrorCategory :: string

text \<open>\<^verbatim>\<open>^[A-Za-z0-9][A-Za-z0-9._:-]{0,127}$\<close>\<close>

definition alnum :: "char \<Rightarrow> bool" where
  "alnum c \<longleftrightarrow> 65 \<le> byte c \<and> byte c \<le> 90 \<or> 97 \<le> byte c \<and> byte c \<le> 122 \<or> 48 \<le> byte c \<and> byte c \<le> 57"

definition webhookClaimOwner :: "string \<Rightarrow> bool" where
  "webhookClaimOwner s = (case s of [] \<Rightarrow> False
     | c # cs \<Rightarrow> alnum c \<and> length cs \<le> 127 \<and> list_all (\<lambda>d. alnum d \<or> d \<in> {CHR ''.'', CHR ''_'', CHR '':'', CHR ''-''}) cs)"

definition webhookDeliveryErrorCategories :: "string list" where
  "webhookDeliveryErrorCategories =
     [''client_error'', ''network'', ''protocol_error'', ''rate_limited'', ''redirect_rejected'', ''request_too_large'',
      ''response_read'', ''response_too_large'', ''server_error'', ''timeout'']"

definition validWebhookDeliveryResult :: "WebhookDeliveryResult \<Rightarrow> bool" where
  "validWebhookDeliveryResult r =
     (if wr_HTTPStatusClass r < 0 \<or> wr_HTTPStatusClass r > 5 then False
      else if wr_Succeeded r then \<not> wr_Retryable r \<and> wr_HTTPStatusClass r = 2 \<and> wr_ErrorCategory r = []
      else if wr_ErrorCategory r = [] then False
      else wr_ErrorCategory r \<in> set webhookDeliveryErrorCategories)"

section \<open>Classifying an answer\<close>

definition webhookStatusClass :: "int \<Rightarrow> int" where
  "webhookStatusClass status = (let c = go_div status 100 in if c < 0 \<or> c > 5 then 0 else c)"

definition result :: "bool \<Rightarrow> bool \<Rightarrow> int \<Rightarrow> string \<Rightarrow> WebhookDeliveryResult" where
  "result ok retry cls cat = \<lparr>wr_Succeeded = ok, wr_Retryable = retry, wr_HTTPStatusClass = cls, wr_ErrorCategory = cat\<rparr>"

definition webhookProtocolFailure :: WebhookDeliveryResult where
  "webhookProtocolFailure = result False False 0 ''protocol_error''"

definition classifyWebhookStatus :: "int \<Rightarrow> WebhookDeliveryResult" where
  "classifyWebhookStatus status =
     (let cls = webhookStatusClass status
      in if 200 \<le> status \<and> status \<le> 299 then result True False cls []
         else if status = 408 \<or> status = 425 \<or> status = 429 then result False True cls ''rate_limited''
         else if 500 \<le> status \<and> status \<le> 599 then result False True cls ''server_error''
         else if 400 \<le> status \<and> status \<le> 499 then result False False cls ''client_error''
         else if 300 \<le> status \<and> status \<le> 399 then result False False cls ''redirect_rejected''
         else result False False cls ''protocol_error'')"

text \<open>What the transport error is: a rejected redirect, a timeout, or anything else.\<close>

datatype transport_error = RedirectRejected | TransportTimeout | TransportOther

definition classifyWebhookTransportError :: "bool \<Rightarrow> transport_error \<Rightarrow> WebhookDeliveryResult" where
  "classifyWebhookTransportError ctx_deadline err =
     (if err = RedirectRejected then result False False 0 ''redirect_rejected''
      else if err = TransportTimeout \<or> ctx_deadline then result False True 0 ''timeout''
      else result False True 0 ''network'')"

section \<open>The delivery store\<close>

definition due_at :: "delivery_row \<Rightarrow> time option" where
  "due_at d = (case dl_state d of DeliveryPending \<Rightarrow> dl_scheduled_at d | DeliveryClaimed \<Rightarrow> dl_claim_expires_at d | _ \<Rightarrow> None)"

definition claimable_delivery :: "time \<Rightarrow> delivery_row list \<Rightarrow> delivery_row \<Rightarrow> bool" where
  "claimable_delivery now rows d \<longleftrightarrow>
     dl_event_id d \<noteq> None \<and> (dl_state d = DeliveryPending \<or> dl_state d = DeliveryClaimed) \<and>
     (case due_at d of None \<Rightarrow> False | Some t \<Rightarrow> t \<le> now) \<and>
     (dl_attempt d = 1 \<or>
      list_ex (\<lambda>p. dl_event_id p = dl_event_id d \<and> dl_attempt p = dl_attempt d - 1 \<and> dl_destination p = dl_destination d \<and>
                   dl_state p = DeliveryFailed) rows) \<and>
     \<not> list_ex (\<lambda>a. dl_event_id a = dl_event_id d \<and> dl_id a \<noteq> dl_id d \<and> dl_state a = DeliveryClaimed \<and>
                    (case dl_claim_expires_at a of None \<Rightarrow> False | Some t \<Rightarrow> t > now)) rows \<and>
     \<not> list_ex (\<lambda>s. dl_event_id s = dl_event_id d \<and> dl_state s = DeliverySucceeded) rows"

definition delivery_order :: "delivery_row \<Rightarrow> time \<times> uuid \<times> int \<times> uuid" where
  "delivery_order d = ((case due_at d of None \<Rightarrow> 0 | Some t \<Rightarrow> t), (case dl_event_id d of None \<Rightarrow> 0 | Some e \<Rightarrow> e), dl_attempt d, dl_id d)"

definition claim_delivery :: "string \<Rightarrow> uuid \<Rightarrow> time \<Rightarrow> time \<Rightarrow> delivery_row \<Rightarrow> delivery_row" where
  "claim_delivery owner token now expires d = d\<lparr>dl_state := DeliveryClaimed, dl_claim_owner := Some owner, dl_claim_token := Some token,
     dl_claim_expires_at := Some expires, dl_started_at := Some now, dl_finished_at := None, dl_outcome := None,
     dl_http_status_class := None, dl_error_category := []\<rparr>"

definition job_of_delivery :: "string \<Rightarrow> uuid \<Rightarrow> time \<Rightarrow> time \<Rightarrow> delivery_row \<Rightarrow> WebhookEvent \<Rightarrow> WebhookDeliveryJob" where
  "job_of_delivery owner token now expires d e =
     \<lparr>wj_ID = dl_id d, wj_EventID = we_ID e, wj_AlertID = dl_alert_id d, wj_Attempt = dl_attempt d,
      wj_ScheduledAt = (case dl_scheduled_at d of None \<Rightarrow> time_zero | Some t \<Rightarrow> t), wj_StartedAt = now, wj_ClaimOwner = owner,
      wj_ClaimToken = token, wj_ClaimExpiresAt = expires, wj_Event = e\<rparr>"

definition alert_of_event :: "WebhookEvent \<Rightarrow> Alert" where
  "alert_of_event e =
     \<lparr>at_ID = we_AlertID e, at_DedupeKey = [], at_Category = we_Category e, at_Severity = we_Severity e, at_State = we_State e,
      at_FirstObservedAt = we_FirstObservedAt e, at_LastObservedAt = we_LastObservedAt e, at_AcknowledgedBy = uuid_Nil,
      at_AcknowledgedAt = None, at_ResolvedAt = None, at_CurrentValue = we_CurrentValue e, at_ThresholdValue = we_ThresholdValue e,
      at_Summary = we_Summary e, at_TraceID = [], at_ConsecutiveFailures = 0, at_ConsecutiveSuccesses = 0,
      at_Version = we_AlertVersion e\<rparr>"

text \<open>The statement commits before the job is checked, so a refused job stays claimed.\<close>

definition Claim_delivery ::
  "bool \<Rightarrow> (uuid \<Rightarrow> bool) \<Rightarrow> string \<Rightarrow> uuid \<Rightarrow> time \<Rightarrow> duration \<Rightarrow> alert_db \<Rightarrow> (operations_error + WebhookDeliveryJob option) \<times> alert_db" where
  "Claim_delivery fault busy owner token now0 lease db =
     (if \<not> webhookClaimOwner owner \<or> token = uuid_Nil \<or> \<not> validSampleTime now0 \<or> lease \<le> 0 \<or> lease > maxWebhookLeaseDuration
      then (Inl ErrOpsInvalid, db)
      else if fault then (Inl ErrOpsDriver, db)
      else (let now = postgresAlertTime now0; expires = postgresAlertTime (now + lease); rows = alert_deliveries db
        in case filter (\<lambda>d. \<not> busy (dl_id d)) (sort_key delivery_order (filter (claimable_delivery now rows) rows)) of
             [] \<Rightarrow> (Inr None, db)
           | d # _ \<Rightarrow>
               (let db1 = db\<lparr>alert_deliveries := update_where (\<lambda>x. dl_id x = dl_id d) (claim_delivery owner token now expires) rows\<rparr>
                in case find (\<lambda>e. Some (we_ID e) = dl_event_id d) (alert_webhook_events db) of
                     None \<Rightarrow> (Inr None, db1)
                   | Some e \<Rightarrow>
                       if dl_alert_id d \<noteq> we_AlertID e \<or> \<not> validWebhookTransition (we_TransitionKind e) (alert_of_event e)
                       then (Inl ErrOpsInvalid, db1)
                       else (Inr (Some (job_of_delivery owner token now expires d e)), db1))))"

definition validWebhookDeliveryJobClaim :: "WebhookDeliveryJob \<Rightarrow> bool" where
  "validWebhookDeliveryJobClaim j \<longleftrightarrow>
     wj_ID j \<noteq> uuid_Nil \<and> wj_EventID j \<noteq> uuid_Nil \<and> wj_AlertID j \<noteq> uuid_Nil \<and> wj_Attempt j \<ge> 1 \<and>
     wj_Attempt j \<le> int (length webhookAttemptDelays) \<and> webhookClaimOwner (wj_ClaimOwner j) \<and> wj_ClaimToken j \<noteq> uuid_Nil \<and>
     validSampleTime (wj_ScheduledAt j) \<and> validSampleTime (wj_StartedAt j) \<and> validSampleTime (wj_ClaimExpiresAt j) \<and>
     \<not> wj_ClaimExpiresAt j < wj_StartedAt j"

definition nullableStatusClass :: "int \<Rightarrow> int option" where
  "nullableStatusClass c = (if c = 0 then None else Some c)"

definition claimed_by :: "WebhookDeliveryJob \<Rightarrow> delivery_row \<Rightarrow> bool" where
  "claimed_by j d \<longleftrightarrow> dl_id d = wj_ID j \<and> dl_event_id d = Some (wj_EventID j) \<and> dl_alert_id d = wj_AlertID j \<and>
     dl_state d = DeliveryClaimed \<and> dl_claim_owner d = Some (wj_ClaimOwner j) \<and> dl_claim_token d = Some (wj_ClaimToken j)"

definition finish_delivery :: "delivery_state \<Rightarrow> string \<Rightarrow> int option \<Rightarrow> string \<Rightarrow> time \<Rightarrow> delivery_row \<Rightarrow> delivery_row" where
  "finish_delivery st outcome cls cat finished d = d\<lparr>dl_state := st, dl_outcome := Some outcome, dl_http_status_class := cls,
     dl_error_category := cat, dl_finished_at := Some finished, dl_claim_owner := None, dl_claim_token := None, dl_claim_expires_at := None\<rparr>"

definition Complete_delivery ::
  "bool \<Rightarrow> WebhookDeliveryJob \<Rightarrow> WebhookDeliveryResult \<Rightarrow> time \<Rightarrow> alert_db \<Rightarrow> (operations_error + unit) \<times> alert_db" where
  "Complete_delivery fault j r finished0 db =
     (if \<not> validWebhookDeliveryJobClaim j \<or> \<not> validWebhookDeliveryResult r \<or> \<not> validSampleTime finished0 then (Inl ErrOpsInvalid, db)
      else (let finished = postgresAlertTime finished0
        in if finished < wj_StartedAt j then (Inl ErrOpsInvalid, db)
           else transact fault ErrOpsDriver (\<lambda>db.
             let p = (\<lambda>d. claimed_by j d \<and> (case dl_claim_expires_at d of None \<Rightarrow> False | Some t \<Rightarrow> t > finished));
                 f = (if wr_Succeeded r then finish_delivery DeliverySucceeded ''succeeded'' else finish_delivery DeliveryFailed ''failed'')
                       (nullableStatusClass (wr_HTTPStatusClass r)) (wr_ErrorCategory r) finished;
                 rows1 = update_where p f (alert_deliveries db)
             in if rows_affected p (alert_deliveries db) \<noteq> 1 then Inl ErrOpsConflict
                else Inr ((), db\<lparr>alert_deliveries :=
                  (if wr_Succeeded r \<or> \<not> wr_Retryable r
                   then update_where (\<lambda>d. dl_event_id d = Some (wj_EventID j) \<and> dl_attempt d > wj_Attempt j \<and> dl_state d = DeliveryPending)
                          (finish_delivery DeliveryCancelled ''cancelled'' None [] finished) rows1
                   else rows1)\<rparr>)) db))"

definition abandon_row :: "delivery_row \<Rightarrow> delivery_row" where
  "abandon_row d = d\<lparr>dl_state := DeliveryPending, dl_started_at := None, dl_finished_at := None, dl_outcome := None,
     dl_http_status_class := None, dl_error_category := [], dl_claim_owner := None, dl_claim_token := None, dl_claim_expires_at := None\<rparr>"

definition Abandon_delivery :: "bool \<Rightarrow> WebhookDeliveryJob \<Rightarrow> alert_db \<Rightarrow> operations_error option \<times> alert_db" where
  "Abandon_delivery fault j db =
     (if \<not> validWebhookDeliveryJobClaim j then (Some ErrOpsInvalid, db)
      else if fault then (Some ErrOpsDriver, db)
      else (let db1 = db\<lparr>alert_deliveries := update_where (claimed_by j) abandon_row (alert_deliveries db)\<rparr>
        in if rows_affected (claimed_by j) (alert_deliveries db) \<noteq> 1 then (Some ErrOpsConflict, db1) else (None, db1)))"

section \<open>The runner\<close>

record WebhookDeliveryRunner =
  rn_configured :: bool
  rn_ClaimOwner :: string
  rn_PollInterval :: duration
  rn_LeaseDuration :: duration
  rn_DeliveryTimeout :: duration

definition normalized_runner :: "WebhookDeliveryRunner \<Rightarrow> WebhookDeliveryRunner option" where
  "normalized_runner r =
     (if \<not> rn_configured r \<or> \<not> webhookClaimOwner (rn_ClaimOwner r) then None
      else (let r1 = r\<lparr>rn_PollInterval := (if rn_PollInterval r \<le> 0 then DefaultWebhookPollInterval else rn_PollInterval r),
                      rn_LeaseDuration := (if rn_LeaseDuration r \<le> 0 then DefaultWebhookLeaseDuration else rn_LeaseDuration r),
                      rn_DeliveryTimeout := (if rn_DeliveryTimeout r \<le> 0 then defaultWebhookSendTimeout else rn_DeliveryTimeout r)\<rparr>
        in if rn_PollInterval r1 \<le> 0 \<or> rn_LeaseDuration r1 \<le> 0 \<or> rn_LeaseDuration r1 > maxWebhookLeaseDuration \<or>
              rn_DeliveryTimeout r1 \<le> 0 \<or> rn_DeliveryTimeout r1 \<ge> rn_LeaseDuration r1 \<or> rn_DeliveryTimeout r1 > maxWebhookNetworkTimeout
           then None else Some r1))"

record WebhookPayload =
  wp_SchemaVersion :: int
  wp_AlertID :: uuid
  wp_Category :: string
  wp_Severity :: AlertSeverity
  wp_State :: AlertState
  wp_Summary :: string
  wp_FirstObservedAt :: time
  wp_LastObservedAt :: time
  wp_CurrentValue :: float64
  wp_Threshold :: float64
  wp_DashboardPath :: string

definition BuildWebhookPayload :: "WebhookEvent \<Rightarrow> operations_error + WebhookPayload" where
  "BuildWebhookPayload e =
     (if we_ID e = uuid_Nil \<or> \<not> validWebhookTransition (we_TransitionKind e) (alert_of_event e) then Inl ErrOpsInvalid
      else Inr \<lparr>wp_SchemaVersion = 1, wp_AlertID = we_AlertID e, wp_Category = we_Category e, wp_Severity = we_Severity e,
                wp_State = we_State e, wp_Summary = we_Summary e, wp_FirstObservedAt = we_FirstObservedAt e,
                wp_LastObservedAt = we_LastObservedAt e, wp_CurrentValue = we_CurrentValue e, wp_Threshold = we_ThresholdValue e,
                wp_DashboardPath = ''/admin/alerts''\<rparr>)"

text \<open>The errors a turn returns: joined causes, a cancelled context among them.\<close>

datatype run_cause = CauseError operations_error | CauseCancelled

text \<open>What happens around one turn.\<close>

record webhook_turn =
  wt_now :: time
  wt_token :: uuid
  wt_claim_fault :: bool
  wt_cancelled_early :: bool
  wt_send :: "WebhookPayload \<Rightarrow> WebhookDeliveryResult"
  wt_cancelled_late :: bool
  wt_finished :: time
  wt_complete_fault :: bool
  wt_abandon_fault :: bool

definition abandon_turn :: "webhook_turn \<Rightarrow> run_cause \<Rightarrow> WebhookDeliveryJob \<Rightarrow> alert_db \<Rightarrow> run_cause list \<times> alert_db" where
  "abandon_turn t cause j db = (case Abandon_delivery (wt_abandon_fault t) j db of
     (None, db1) \<Rightarrow> ([cause], db1)
   | (Some e, db1) \<Rightarrow> ([cause, CauseError e], db1))"

definition complete_turn :: "webhook_turn \<Rightarrow> WebhookDeliveryJob \<Rightarrow> WebhookDeliveryResult \<Rightarrow> alert_db \<Rightarrow> run_cause list \<times> alert_db" where
  "complete_turn t j r db =
     (if \<not> validSampleTime (wt_finished t) \<or> wt_finished t < wj_StartedAt j
      then abandon_turn t (CauseError ErrOpsInvalid) j db
      else case Complete_delivery (wt_complete_fault t) j r (wt_finished t) db of
        (Inl e, db1) \<Rightarrow> ([CauseError e], db1)
      | (Inr _, db1) \<Rightarrow> ([], db1))"

definition RunOnce_webhook :: "WebhookDeliveryRunner \<Rightarrow> (uuid \<Rightarrow> bool) \<Rightarrow> webhook_turn \<Rightarrow> alert_db \<Rightarrow> run_cause list \<times> alert_db" where
  "RunOnce_webhook runner busy t db = (case normalized_runner runner of
     None \<Rightarrow> ([CauseError ErrOpsInvalid], db)
   | Some r \<Rightarrow>
       if \<not> validSampleTime (wt_now t) \<or> wt_token t = uuid_Nil then ([CauseError ErrOpsInvalid], db)
       else case Claim_delivery (wt_claim_fault t) busy (rn_ClaimOwner r) (wt_token t) (wt_now t) (rn_LeaseDuration r) db of
         (Inl e, db1) \<Rightarrow> ([CauseError e], db1)
       | (Inr None, db1) \<Rightarrow> ([], db1)
       | (Inr (Some j), db1) \<Rightarrow>
           if wt_cancelled_early t then abandon_turn t CauseCancelled j db1
           else case BuildWebhookPayload (wj_Event j) of
             Inl _ \<Rightarrow> complete_turn t j webhookProtocolFailure db1
           | Inr payload \<Rightarrow>
               (let res = wt_send t payload
                in if wt_cancelled_late t then abandon_turn t CauseCancelled j db1
                   else complete_turn t j (if validWebhookDeliveryResult res then res else webhookProtocolFailure) db1))"

section \<open>The attempts of an event are made in order\<close>

definition started :: "delivery_row \<Rightarrow> bool" where
  "started d \<longleftrightarrow> dl_state d = DeliveryClaimed \<or> dl_state d = DeliverySucceeded \<or> dl_state d = DeliveryFailed"

definition previous_failed :: "delivery_row list \<Rightarrow> delivery_row \<Rightarrow> bool" where
  "previous_failed rows d \<longleftrightarrow> dl_attempt d = 1 \<or>
     (\<exists>p \<in> set rows. dl_event_id p = dl_event_id d \<and> dl_attempt p = dl_attempt d - 1 \<and> dl_state p = DeliveryFailed)"

definition deliveries_ok :: "delivery_row list \<Rightarrow> bool" where
  "deliveries_ok rows \<longleftrightarrow> keyed dl_id rows \<and>
     (\<forall>d \<in> set rows. dl_event_id d \<noteq> None \<longrightarrow> 1 \<le> dl_attempt d \<and> dl_destination d = ''webhook'' \<and> (started d \<longrightarrow> previous_failed rows d)) \<and>
     (\<forall>d \<in> set rows. \<forall>d' \<in> set rows. dl_event_id d \<noteq> None \<and> dl_event_id d = dl_event_id d' \<and> dl_attempt d = dl_attempt d' \<longrightarrow> d = d')"

definition webhook_inv :: "alert_db \<Rightarrow> bool" where
  "webhook_inv db \<longleftrightarrow> deliveries_ok (alert_deliveries db) \<and> keyed we_ID (alert_webhook_events db) \<and>
     (\<forall>d \<in> set (alert_deliveries db). \<forall>e. dl_event_id d = Some e \<longrightarrow>
        (\<exists>w \<in> set (alert_webhook_events db). we_ID w = e \<and> we_AlertID w = dl_alert_id d))"

text \<open>Changing rows in place: identities stay, a failed row stays failed, and a row that becomes
  started had a failed predecessor.\<close>

lemma deliveries_ok_update:
  assumes ok: "deliveries_ok rows"
    and f: "\<And>d. dl_id (f d) = dl_id d \<and> dl_event_id (f d) = dl_event_id d \<and> dl_attempt (f d) = dl_attempt d \<and>
        dl_destination (f d) = dl_destination d \<and> dl_alert_id (f d) = dl_alert_id d"
    and failed: "\<And>d. d \<in> set rows \<Longrightarrow> p d \<Longrightarrow> dl_state d \<noteq> DeliveryFailed"
    and began: "\<And>d. d \<in> set rows \<Longrightarrow> p d \<Longrightarrow> started (f d) \<Longrightarrow> dl_event_id d \<noteq> None \<Longrightarrow> previous_failed rows d"
  shows "deliveries_ok (update_where p f rows)"
proof -
  let ?g = "\<lambda>d. if p d then f d else d"
  have g: "dl_id (?g d) = dl_id d" "dl_event_id (?g d) = dl_event_id d" "dl_attempt (?g d) = dl_attempt d" "dl_destination (?g d) = dl_destination d" for d
    using f by auto
  have pf: "previous_failed (update_where p f rows) (?g d)" if pd: "previous_failed rows d" for d
  proof (cases "dl_attempt d = 1")
    case False
    with pd obtain q where q: "q \<in> set rows" "dl_event_id q = dl_event_id d" "dl_attempt q = dl_attempt d - 1" "dl_state q = DeliveryFailed"
      by (auto simp: previous_failed_def)
    then have "q \<in> set (update_where p f rows)" using failed [of q] by (auto simp: set_update_where image_iff intro!: bexI [of _ q])
    with q show ?thesis unfolding previous_failed_def g by blast
  qed (simp add: previous_failed_def g)
  have "map dl_id (update_where p f rows) = map dl_id rows" using f by (intro map_update_where) blast
  then have "keyed dl_id (update_where p f rows)" using ok by (simp add: deliveries_ok_def keyed_def)
  moreover have "1 \<le> dl_attempt d' \<and> dl_destination d' = ''webhook'' \<and> (started d' \<longrightarrow> previous_failed (update_where p f rows) d')"
    if d': "d' \<in> set (update_where p f rows)" "dl_event_id d' \<noteq> None" for d'
  proof -
    from d'(1) obtain d where d: "d \<in> set rows" "d' = ?g d" by (auto simp: set_update_where)
    with d'(2) g have e: "dl_event_id d \<noteq> None" by metis
    have "previous_failed rows d" if "started d'"
      using that d e began [of d] ok by (auto simp: deliveries_ok_def split: if_splits)
    moreover have "1 \<le> dl_attempt d" "dl_destination d = ''webhook''" using ok d(1) e by (simp_all add: deliveries_ok_def)
    ultimately show ?thesis using pf [of d] unfolding d(2) g by blast
  qed
  moreover have "d = d'" if "d \<in> set (update_where p f rows)" "d' \<in> set (update_where p f rows)"
      "dl_event_id d \<noteq> None" "dl_event_id d = dl_event_id d'" "dl_attempt d = dl_attempt d'" for d d'
  proof -
    from that(1,2) obtain a b where ab: "a \<in> set rows" "d = ?g a" "b \<in> set rows" "d' = ?g b" by (auto simp: set_update_where)
    with that(3-5) g have "dl_event_id a \<noteq> None" "dl_event_id a = dl_event_id b" "dl_attempt a = dl_attempt b" by metis+
    with ab ok show ?thesis unfolding deliveries_ok_def by metis
  qed
  ultimately show ?thesis unfolding deliveries_ok_def by blast
qed

lemma webhook_inv_update:
  assumes inv: "webhook_inv db" and ok: "deliveries_ok (update_where p f (alert_deliveries db))"
    and f: "\<And>d. dl_event_id (f d) = dl_event_id d \<and> dl_alert_id (f d) = dl_alert_id d"
  shows "webhook_inv (db\<lparr>alert_deliveries := update_where p f (alert_deliveries db)\<rparr>)"
  using inv ok f unfolding webhook_inv_def by (auto simp: set_update_where)

lemma Claim_delivery_inv:
  assumes inv: "webhook_inv db"
  shows "webhook_inv (snd (Claim_delivery fault busy owner token now lease db))"
proof -
  have ok: "deliveries_ok (alert_deliveries db)" using inv by (simp add: webhook_inv_def)
  have step: "webhook_inv (db\<lparr>alert_deliveries := update_where (\<lambda>x. dl_id x = dl_id d) (claim_delivery owner token t ex) (alert_deliveries db)\<rparr>)"
    if d: "d \<in> set (alert_deliveries db)" "claimable_delivery t (alert_deliveries db) d" for d t ex
  proof -
    have only: "x = d" if "x \<in> set (alert_deliveries db)" "dl_id x = dl_id d" for x
      using ok keyed_inj that d(1) unfolding deliveries_ok_def by metis
    have "dl_state d \<noteq> DeliveryFailed" using d(2) by (auto simp: claimable_delivery_def)
    moreover have "previous_failed (alert_deliveries db) d"
      using d(2) by (auto simp: claimable_delivery_def previous_failed_def list_ex_iff)
    ultimately have "deliveries_ok (update_where (\<lambda>x. dl_id x = dl_id d) (claim_delivery owner token t ex) (alert_deliveries db))"
      using only by (intro deliveries_ok_update [OF ok]) (auto simp: claim_delivery_def)
    then show ?thesis by (rule webhook_inv_update [OF inv]) (simp add: claim_delivery_def)
  qed
  have hd: "d \<in> set (alert_deliveries db)" "claimable_delivery t (alert_deliveries db) d"
    if "filter q (sort_key delivery_order (filter (claimable_delivery t (alert_deliveries db)) (alert_deliveries db))) = d # ds" for q d ds t
  proof -
    have "d \<in> set (filter q (sort_key delivery_order (filter (claimable_delivery t (alert_deliveries db)) (alert_deliveries db))))"
      unfolding that by simp
    then show "d \<in> set (alert_deliveries db)" "claimable_delivery t (alert_deliveries db) d" by auto
  qed
  let ?t = "postgresAlertTime now"
  let ?L = "filter (\<lambda>d. \<not> busy (dl_id d)) (sort_key delivery_order (filter (claimable_delivery ?t (alert_deliveries db)) (alert_deliveries db)))"
  show ?thesis
  proof (cases ?L)
    case Nil
    with inv show ?thesis by (simp add: Claim_delivery_def Let_def)
  next
    case (Cons d ds)
    note claimed = step [OF hd [OF Cons], of "postgresAlertTime (?t + lease)"]
    show ?thesis
      unfolding Claim_delivery_def Let_def Cons list.case using inv claimed by (simp split: option.split)
  qed
qed

lemma Complete_delivery_inv:
  assumes inv: "webhook_inv db"
  shows "webhook_inv (snd (Complete_delivery fault j r t db))"
proof -
  have ok: "deliveries_ok (alert_deliveries db)" using inv by (simp add: webhook_inv_def)
  let ?p = "\<lambda>t' d. claimed_by j d \<and> (case dl_claim_expires_at d of None \<Rightarrow> False | Some u \<Rightarrow> u > t')"
  have ok1: "deliveries_ok (update_where (?p t') (finish_delivery st oc cls cat t') (alert_deliveries db))" for t' st oc cls cat
    using ok by (intro deliveries_ok_update [OF ok]) (auto simp: finish_delivery_def claimed_by_def deliveries_ok_def started_def)
  have inv1: "webhook_inv (db\<lparr>alert_deliveries := update_where (?p t') (finish_delivery st oc cls cat t') (alert_deliveries db)\<rparr>)" for t' st oc cls cat
    by (rule webhook_inv_update [OF inv ok1]) (simp add: finish_delivery_def)
  have inv2: "webhook_inv (d\<lparr>alert_deliveries := update_where q (finish_delivery DeliveryCancelled ''cancelled'' None [] t') (alert_deliveries d)\<rparr>)"
    if "webhook_inv d" "\<And>x. q x \<Longrightarrow> dl_state x = DeliveryPending" for d q t'
  proof (rule webhook_inv_update [OF that(1)])
    have okd: "deliveries_ok (alert_deliveries d)" using that(1) by (simp add: webhook_inv_def)
    show "deliveries_ok (update_where q (finish_delivery DeliveryCancelled ''cancelled'' None [] t') (alert_deliveries d))"
      by (rule deliveries_ok_update [OF okd]) (auto simp: finish_delivery_def started_def dest: that(2))
  qed (simp add: finish_delivery_def)
  have inv3: "webhook_inv (db\<lparr>alert_deliveries := update_where q (finish_delivery DeliveryCancelled ''cancelled'' None [] t')
        (update_where (?p t') (finish_delivery st oc cls cat t') (alert_deliveries db))\<rparr>)"
    if "\<And>x. q x \<Longrightarrow> dl_state x = DeliveryPending" for q t' st oc cls cat
    using inv2 [OF inv1 that, of q t'] by simp
  have fin: "(if b then finish_delivery A x else finish_delivery B y) = finish_delivery (if b then A else B) (if b then x else y)" for b A B x y
    by simp
  have tx: "webhook_inv (snd (transact fault ErrOpsDriver body db))" if "\<And>x s'. body db = Inr (x, s') \<Longrightarrow> webhook_inv s'" for body :: "alert_db \<Rightarrow> operations_error + (unit \<times> alert_db)"
    by (rule transact_invariant [where I = webhook_inv and s = db and body = body, OF inv that])
  show ?thesis
  proof (cases "\<not> validWebhookDeliveryJobClaim j \<or> \<not> validWebhookDeliveryResult r \<or> \<not> validSampleTime t \<or> postgresAlertTime t < wj_StartedAt j")
    case True
    with inv show ?thesis by (auto simp: Complete_delivery_def Let_def)
  next
    case False
    then have c: "(\<not> validWebhookDeliveryJobClaim j \<or> \<not> validWebhookDeliveryResult r \<or> \<not> validSampleTime t) = False"
      "(postgresAlertTime t < wj_StartedAt j) = False" by auto
    show ?thesis
      unfolding Complete_delivery_def Let_def fin c if_False
      by (rule tx) (auto intro!: inv1 inv3 split: if_split_asm)
  qed
qed

lemma Abandon_delivery_inv:
  assumes inv: "webhook_inv db"
  shows "webhook_inv (snd (Abandon_delivery fault j db))"
proof -
  have ok: "deliveries_ok (alert_deliveries db)" using inv by (simp add: webhook_inv_def)
  have "deliveries_ok (update_where (claimed_by j) abandon_row (alert_deliveries db))"
    by (rule deliveries_ok_update [OF ok]) (auto simp: abandon_row_def claimed_by_def started_def)
  then have "webhook_inv (db\<lparr>alert_deliveries := update_where (claimed_by j) abandon_row (alert_deliveries db)\<rparr>)"
    by (rule webhook_inv_update [OF inv]) (simp add: abandon_row_def)
  with inv show ?thesis by (auto simp: Abandon_delivery_def Let_def)
qed

section \<open>Scheduling keeps the invariant\<close>

lemma deliveries_ok_append:
  assumes ok: "deliveries_ok rows" and fresh: "\<forall>d \<in> set rows. dl_id d \<noteq> i"
    and new: "\<forall>d \<in> set rows. dl_event_id d = Some e \<longrightarrow> dl_attempt d \<noteq> n" and n: "1 \<le> n"
  shows "deliveries_ok (rows @ [pending_delivery i a e n due])"
proof -
  let ?d = "pending_delivery i a e n due"
  have k: "keyed dl_id (rows @ [?d])"
    by (rule keyed_append1) (use ok fresh in \<open>auto simp: deliveries_ok_def pending_delivery_def\<close>)
  have pf: "previous_failed rows d \<Longrightarrow> previous_failed (rows @ [?d]) d" for d by (auto simp: previous_failed_def)
  have d: "dl_event_id ?d = Some e" "dl_attempt ?d = n" "dl_destination ?d = ''webhook''" "\<not> started ?d"
    by (simp_all add: pending_delivery_def started_def)
  show ?thesis
    unfolding deliveries_ok_def
  proof (intro conjI k ballI impI)
    fix x assume "x \<in> set (rows @ [?d])" "dl_event_id x \<noteq> None"
    then show "1 \<le> dl_attempt x" "dl_destination x = ''webhook''" using ok n d by (auto simp: deliveries_ok_def)
  next
    fix x assume "x \<in> set (rows @ [?d])" "dl_event_id x \<noteq> None" "started x"
    then show "previous_failed (rows @ [?d]) x" using ok d pf by (auto simp: deliveries_ok_def)
  next
    fix x y assume x: "x \<in> set (rows @ [?d])" "y \<in> set (rows @ [?d])"
      "dl_event_id x \<noteq> None \<and> dl_event_id x = dl_event_id y \<and> dl_attempt x = dl_attempt y"
    then consider "x \<in> set rows" "y \<in> set rows" | "x = ?d" "y \<in> set rows" | "x \<in> set rows" "y = ?d" | "x = ?d" "y = ?d" by auto
    then show "x = y"
    proof cases
      case 1 with ok x(3) show ?thesis unfolding deliveries_ok_def by blast
    next
      case 2 with new x(3) d show ?thesis by metis
    next
      case 3 with new x(3) d show ?thesis by metis
    qed simp
  qed
qed

lemma insert_deliveries_ok:
  assumes "insert_deliveries a e due n ps rows = Inr rows'" and "deliveries_ok rows" and "1 \<le> n"
  shows "deliveries_ok rows' \<and> set rows \<subseteq> set rows' \<and> (\<forall>d \<in> set rows' - set rows. dl_event_id d = Some e \<and> dl_alert_id d = a)"
  using assms
proof (induction a e due n ps rows rule: insert_deliveries.induct)
  case (2 a e due n delay i rest rows)
  show ?case
  proof (cases "list_ex (\<lambda>d. dl_event_id d = Some e \<and> dl_attempt d = n \<and> dl_destination d = ''webhook'') rows")
    case True
    from 2(3) True have i: "i \<noteq> uuid_Nil" "insert_deliveries a e due (n + 1) rest rows = Inr rows'"
      by (auto split: if_splits)
    show ?thesis by (rule 2(1) [OF i(1) True i(2) 2(4)]) (use 2(5) in simp)
  next
    case False
    let ?rows = "rows @ [pending_delivery i a e n (due + delay)]"
    from 2(3) False have i: "i \<noteq> uuid_Nil" "\<not> list_ex (\<lambda>d. dl_id d = i) rows" "insert_deliveries a e due (n + 1) rest ?rows = Inr rows'"
      by (auto split: if_splits)
    have "deliveries_ok ?rows"
    proof (rule deliveries_ok_append [OF 2(4) _ _ 2(5)])
      show "\<forall>d \<in> set rows. dl_id d \<noteq> i" using i(2) by (auto simp: list_ex_iff)
      show "\<forall>d \<in> set rows. dl_event_id d = Some e \<longrightarrow> dl_attempt d \<noteq> n"
        using False 2(4) by (auto simp: list_ex_iff deliveries_ok_def)
    qed
    from 2(2) [OF i(1) False i(2,3) this] 2(5) have "deliveries_ok rows' \<and> set ?rows \<subseteq> set rows' \<and>
        (\<forall>d \<in> set rows' - set ?rows. dl_event_id d = Some e \<and> dl_alert_id d = a)" by simp
    then show ?thesis by (auto simp: pending_delivery_def)
  qed
qed simp

lemma schedule_inv:
  assumes inv: "webhook_inv db" and w: "w \<in> set (alert_webhook_events db)" "we_ID w = e" "we_AlertID w = a"
    and run: "schedule_deliveries env a e due db = Inr db'"
  shows "webhook_inv db'"
proof -
  from run obtain rows where ins: "insert_deliveries a e (postgresAlertTime due) 1 (zip webhookAttemptDelays (wh_delivery_ids env)) (alert_deliveries db) = Inr rows"
      and db': "db' = db\<lparr>alert_deliveries := rows\<rparr>"
    by (auto simp: schedule_deliveries_def split: sum.splits)
  have ok: "deliveries_ok (alert_deliveries db)" using inv by (simp add: webhook_inv_def)
  have r: "deliveries_ok rows" "\<forall>d \<in> set rows - set (alert_deliveries db). dl_event_id d = Some e \<and> dl_alert_id d = a"
    using insert_deliveries_ok [OF ins ok] by auto
  have "\<exists>w \<in> set (alert_webhook_events db). we_ID w = e' \<and> we_AlertID w = dl_alert_id d" if "d \<in> set rows" "dl_event_id d = Some e'" for d e'
    using that r(2) w inv unfolding webhook_inv_def by (cases "d \<in> set (alert_deliveries db)") auto
  with r(1) inv show ?thesis unfolding webhook_inv_def db' by auto
qed

lemma enqueue_webhook_inv:
  assumes inv: "webhook_inv db" and run: "enqueueWebhookTransition env kind a db = Inr db'"
  shows "webhook_inv db'"
proof (cases "\<not> wh_enabled env \<or> kind = AlertTransitionNone \<or> kind = AlertTransitionUpdated")
  case True
  with run inv show ?thesis by (auto simp: enqueueWebhookTransition_def)
next
  case False
  let ?find = "find (\<lambda>e. we_AlertID e = at_ID a \<and> we_TransitionKind e = kind \<and> we_AlertVersion e = at_Version a) (alert_webhook_events db)"
  show ?thesis
  proof (cases ?find)
    case (Some e)
    with run False have "schedule_deliveries env (at_ID a) (we_ID e) (we_EnqueuedAt e) db = Inr db'"
      by (auto simp: enqueueWebhookTransition_def split: if_splits)
    with find_SomeD [OF Some] schedule_inv [OF inv] show ?thesis by blast
  next
    case None
    let ?e = "event_of_alert env kind a"
    let ?db = "db\<lparr>alert_webhook_events := alert_webhook_events db @ [?e]\<rparr>"
    from run False None have s: "schedule_deliveries env (at_ID a) (we_ID ?e) (we_EnqueuedAt ?e) ?db = Inr db'"
        "\<not> list_ex (\<lambda>e. we_ID e = wh_event_id env) (alert_webhook_events db)"
      by (auto simp: enqueueWebhookTransition_def Let_def split: if_splits)
    have "keyed we_ID (alert_webhook_events db @ [?e])"
      by (rule keyed_append1) (use inv s(2) in \<open>auto simp: webhook_inv_def event_of_alert_def list_ex_iff\<close>)
    with inv have "webhook_inv ?db" by (auto simp: webhook_inv_def)
    from schedule_inv [OF this _ _ _ s(1), of ?e] show ?thesis by (simp add: event_of_alert_def)
  qed
qed

lemma delete_alert_inv:
  assumes inv: "webhook_inv db"
  shows "webhook_inv (delete_alert i db)"
proof -
  let ?keep = "delete_where (\<lambda>d. dl_alert_id d = i) (alert_deliveries db)"
  have ok: "deliveries_ok (alert_deliveries db)" and kw: "keyed we_ID (alert_webhook_events db)" using inv by (simp_all add: webhook_inv_def)
  have same: "dl_alert_id p = dl_alert_id d" if "p \<in> set (alert_deliveries db)" "d \<in> set (alert_deliveries db)" "dl_event_id d \<noteq> None" "dl_event_id p = dl_event_id d" for p d
  proof -
    from that(3) obtain e where e: "dl_event_id d = Some e" by auto
    with that inv obtain w w' where "w \<in> set (alert_webhook_events db)" "we_ID w = e" "we_AlertID w = dl_alert_id d"
        "w' \<in> set (alert_webhook_events db)" "we_ID w' = e" "we_AlertID w' = dl_alert_id p"
      unfolding webhook_inv_def by metis
    with keyed_inj [OF kw] show ?thesis by metis
  qed
  have "previous_failed ?keep d" if d: "d \<in> set ?keep" "dl_event_id d \<noteq> None" "previous_failed (alert_deliveries db) d" for d
  proof (cases "dl_attempt d = 1")
    case False
    with d(3) obtain p where p: "p \<in> set (alert_deliveries db)" "dl_event_id p = dl_event_id d" "dl_attempt p = dl_attempt d - 1" "dl_state p = DeliveryFailed"
      by (auto simp: previous_failed_def)
    have "dl_alert_id p = dl_alert_id d" using same [OF p(1) _ d(2) p(2)] d(1) by (simp add: set_delete_where)
    with p d(1) have "p \<in> set ?keep" by (simp add: set_delete_where)
    with p show ?thesis unfolding previous_failed_def by blast
  qed (simp add: previous_failed_def)
  then have "deliveries_ok ?keep"
    using ok unfolding deliveries_ok_def set_delete_where by (auto simp: keyed_delete_where)
  moreover have "\<exists>w \<in> set (delete_where (\<lambda>e. we_AlertID e = i) (alert_webhook_events db)). we_ID w = e \<and> we_AlertID w = dl_alert_id d"
    if "d \<in> set ?keep" "dl_event_id d = Some e" for d e
    using that inv unfolding webhook_inv_def set_delete_where by fastforce
  ultimately show ?thesis
    using kw unfolding webhook_inv_def delete_alert_def by (simp add: keyed_delete_where)
qed

lemma update_alert_webhook: "update_alert i f db = Inr (u, db1) \<Longrightarrow> webhook_inv db1 = webhook_inv db"
  by (auto simp: update_alert_def webhook_inv_def split: option.splits if_splits)

lemma insertCandidate_webhook: "insertAlertCandidate i ev c db = Inr db1 \<Longrightarrow> webhook_inv db1 = webhook_inv db"
  by (auto simp: insertAlertCandidate_def webhook_inv_def Let_def split: if_splits)

lemma EvaluateAlert_webhook_inv:
  assumes inv: "webhook_inv db"
  shows "webhook_inv (snd (EvaluateAlert fault env i ev db))"
proof -
  have h: "webhook_inv db'" if run: "recordHealthyEvaluation env' c ev db = Inr (tr, db')" for env' c tr db'
  proof -
    from run obtain b n kind up db1 where "update_alert (at_ID c) (healthy_update b n ev) db = Inr (up, db1)"
        "enqueueWebhookTransition env' kind up db1 = Inr db'"
      unfolding recordHealthyEvaluation_def Let_def by (auto split: sum.splits prod.splits if_split_asm)
    with inv update_alert_webhook enqueue_webhook_inv show ?thesis by metis
  qed
  have f: "webhook_inv db'" if run: "recordFailingEvaluation env' c ev cond db = Inr (tr, db')" for env' c cond tr db'
  proof -
    from run obtain sev th n kind up db1 where "update_alert (at_ID c) (failing_update sev th n ev) db = Inr (up, db1)"
        "enqueueWebhookTransition env' kind up db1 = Inr db'"
      unfolding recordFailingEvaluation_def Let_def by (auto split: sum.splits prod.splits if_split_asm)
    with inv update_alert_webhook enqueue_webhook_inv show ?thesis by metis
  qed
  have "webhook_inv db'" if "evaluate_tx env i ev cond db = Inr (tr, db')" for cond tr db'
    using that inv delete_alert_inv [OF inv] h f
    by (auto simp: evaluate_tx_def insertCandidate_webhook split: option.splits if_split_asm sum.splits)
  then show ?thesis
    unfolding EvaluateAlert_def using inv
    by (auto intro!: transact_invariant [where I = webhook_inv] split: sum.split)
qed

section \<open>Reachable states\<close>

inductive alert_step :: "alert_db \<Rightarrow> alert_db \<Rightarrow> bool" where
  step_evaluate: "alert_step db (snd (EvaluateAlert fault env i ev db))"
| step_acknowledge: "alert_step db (snd (AcknowledgeAlert fault t actor i db))"
| step_claim_delivery: "alert_step db (snd (Claim_delivery fault busy owner token now lease db))"
| step_complete_delivery: "alert_step db (snd (Complete_delivery fault j r t db))"
| step_abandon_delivery: "alert_step db (snd (Abandon_delivery fault j db))"

definition alert_reachable :: "alert_db \<Rightarrow> bool" where
  "alert_reachable db \<longleftrightarrow> alert_step\<^sup>*\<^sup>* empty_alert_db db"

lemma delivery_steps_alerts:
  "operational_alerts (snd (Claim_delivery fault busy owner token now lease db)) = operational_alerts db"
  "operational_alerts (snd (Abandon_delivery fault j db)) = operational_alerts db"
  by (auto simp: Claim_delivery_def Abandon_delivery_def Let_def split: list.split option.split)

lemma Complete_delivery_alerts: "operational_alerts (snd (Complete_delivery fault j r t db)) = operational_alerts db"
  unfolding Complete_delivery_def Let_def by (auto simp: transact_def)

lemma Acknowledge_webhook_inv: "webhook_inv db \<Longrightarrow> webhook_inv (snd (AcknowledgeAlert fault t actor i db))"
  by (auto simp: AcknowledgeAlert_def transact_def webhook_inv_def Let_def split: option.split AlertState.split)

lemma EvaluateAlert_alerts_inv:
  assumes "alerts_inv db"
  shows "alerts_inv (snd (EvaluateAlert fault env i ev db))"
proof (cases "classifyAlertEvaluation ev")
  case (Inr c)
  show ?thesis
  proof (cases "c = alertConditionNeutral")
    case False
    have "alerts_inv s'" if "evaluate_tx env i ev c db = Inr (x, s')" for x s'
      using evaluate_tx_refines [OF assms False that] by blast
    then have "alerts_inv (snd (transact fault ErrOpsDriver (evaluate_tx env i ev c) db))"
      by (rule transact_invariant [where I = alerts_inv, OF assms])
    with Inr False show ?thesis by (simp add: EvaluateAlert_def)
  qed (simp add: EvaluateAlert_def Inr assms)
qed (simp add: EvaluateAlert_def assms)

lemma alerts_inv_cong: "operational_alerts db' = operational_alerts db \<Longrightarrow> alerts_inv db' = alerts_inv db"
  by (simp add: alerts_inv_def)

lemma alert_step_inv:
  assumes "alert_step db db'" and "alerts_inv db" "webhook_inv db"
  shows "alerts_inv db' \<and> webhook_inv db'"
  using assms
proof cases
  case (step_acknowledge fault t actor i)
  with assms(2) acknowledge_keeps [OF assms(2), of fault t actor i] show ?thesis
    using Acknowledge_webhook_inv [OF assms(3)] by (metis surjective_pairing)
qed (simp_all add: EvaluateAlert_alerts_inv EvaluateAlert_webhook_inv Claim_delivery_inv Complete_delivery_inv Abandon_delivery_inv
    alerts_inv_cong [OF delivery_steps_alerts(1)] alerts_inv_cong [OF delivery_steps_alerts(2)] alerts_inv_cong [OF Complete_delivery_alerts])

lemma alert_reachable_inv:
  assumes "alert_reachable db"
  shows "alerts_inv db \<and> webhook_inv db"
  using assms unfolding alert_reachable_def
proof (induction rule: rtranclp_induct)
  case base
  show ?case by (simp add: alerts_inv_def webhook_inv_def deliveries_ok_def empty_alert_db_def keyed_def one_unresolved_def)
qed (use alert_step_inv in blast)

lemma earlier_failed:
  assumes ok: "deliveries_ok rows" and d: "d \<in> set rows" "dl_event_id d = Some e" "started d"
    and d': "d' \<in> set rows" "dl_event_id d' = Some e" "dl_attempt d' < dl_attempt d"
  shows "dl_state d' = DeliveryFailed"
  using d d'(3)
proof (induction "nat (dl_attempt d - dl_attempt d')" arbitrary: d)
  case (Suc n)
  have "1 \<le> dl_attempt d'" using ok d'(1,2) by (auto simp: deliveries_ok_def)
  with Suc.prems(4) have "dl_attempt d \<noteq> 1" by simp
  moreover have "previous_failed rows d" using ok Suc.prems by (auto simp: deliveries_ok_def)
  ultimately obtain p where p: "p \<in> set rows" "dl_event_id p = Some e" "dl_attempt p = dl_attempt d - 1" "dl_state p = DeliveryFailed"
    using Suc.prems(2) by (auto simp: previous_failed_def)
  show ?case
  proof (cases "dl_attempt p = dl_attempt d'")
    case True
    with ok p d' have "p = d'" unfolding deliveries_ok_def by (metis option.distinct(1))
    with p(4) show ?thesis by simp
  next
    case False
    show ?thesis by (rule Suc.hyps(1) [OF _ p(1,2)]) (use False Suc p in \<open>auto simp: started_def\<close>)
  qed
qed simp


section \<open>A turn of the runner\<close>

text \<open>The only delivery that carries the token of a fresh claim is the claimed one.\<close>

lemma Claim_delivery_token:
  assumes inv: "webhook_inv db" and fresh: "\<forall>d \<in> set (alert_deliveries db). dl_claim_token d \<noteq> Some token"
    and run: "Claim_delivery fault busy owner token now lease db = (Inr r, db1)"
  shows "(r = None \<longrightarrow> db1 = db) \<and> (\<forall>j. r = Some j \<longrightarrow> wj_ClaimToken j = token \<and>
    (\<forall>d \<in> set (alert_deliveries db1). dl_claim_token d = Some token \<longrightarrow> dl_id d = wj_ID j))"
proof -
  let ?t = "postgresAlertTime now"
  let ?L = "filter (\<lambda>d. \<not> busy (dl_id d)) (sort_key delivery_order (filter (claimable_delivery ?t (alert_deliveries db)) (alert_deliveries db)))"
  show ?thesis
  proof (cases ?L)
    case Nil
    with run show ?thesis by (auto simp: Claim_delivery_def Let_def split: if_splits)
  next
    case (Cons d ds)
    have "d \<in> set ?L" unfolding Cons by simp
    then have d: "d \<in> set (alert_deliveries db)" "dl_event_id d \<noteq> None" by (auto simp: claimable_delivery_def)
    then obtain e where e: "e \<in> set (alert_webhook_events db)" "Some (we_ID e) = dl_event_id d"
      using inv unfolding webhook_inv_def by fastforce
    then obtain w where w: "find (\<lambda>e. Some (we_ID e) = dl_event_id d) (alert_webhook_events db) = Some w"
      by (cases "find (\<lambda>e. Some (we_ID e) = dl_event_id d) (alert_webhook_events db)") (auto dest: find_NoneD)
    from run have r: "r = Some (job_of_delivery owner token ?t (postgresAlertTime (?t + lease)) d w)"
        "db1 = db\<lparr>alert_deliveries := update_where (\<lambda>x. dl_id x = dl_id d) (claim_delivery owner token ?t (postgresAlertTime (?t + lease))) (alert_deliveries db)\<rparr>"
      unfolding Claim_delivery_def Let_def Cons list.case w option.case by (auto split: if_splits)
    show ?thesis
      unfolding r using fresh by (auto simp: set_update_where job_of_delivery_def claim_delivery_def)
  qed
qed

lemma deliveries_returned:
  "(Inr (x, d\<lparr>alert_deliveries := rows\<rparr>) :: operations_error + unit \<times> alert_db) = Inr (u, d') \<Longrightarrow> alert_deliveries d' = rows"
  by auto

lemma Complete_delivery_rows:
  assumes "Complete_delivery fault j r t db = (Inr u, db')"
  shows "\<exists>f q g. rows_affected (\<lambda>d. claimed_by j d \<and> (case dl_claim_expires_at d of None \<Rightarrow> False | Some x \<Rightarrow> x > postgresAlertTime t)) (alert_deliveries db) = 1 \<and>
    (\<forall>d. dl_claim_token (f d) = None \<and> dl_claim_token (g d) = None) \<and>
    alert_deliveries db' = update_where q g (update_where (\<lambda>d. claimed_by j d \<and> (case dl_claim_expires_at d of None \<Rightarrow> False | Some x \<Rightarrow> x > postgresAlertTime t)) f (alert_deliveries db))"
proof -
  let ?t = "postgresAlertTime t"
  let ?p = "\<lambda>d. claimed_by j d \<and> (case dl_claim_expires_at d of None \<Rightarrow> False | Some x \<Rightarrow> x > ?t)"
  let ?f = "(if wr_Succeeded r then finish_delivery DeliverySucceeded ''succeeded'' else finish_delivery DeliveryFailed ''failed'')
      (nullableStatusClass (wr_HTTPStatusClass r)) (wr_ErrorCategory r) ?t"
  let ?g = "finish_delivery DeliveryCancelled ''cancelled'' None [] ?t"
  let ?cancel = "\<lambda>d. dl_event_id d = Some (wj_EventID j) \<and> dl_attempt d > wj_Attempt j \<and> dl_state d = DeliveryPending"
  have none: "update_where (\<lambda>_. False) g rows = rows" for g and rows :: "delivery_row list" by (simp add: update_where_def)
  have fin: "\<forall>d. dl_claim_token (?f d) = None \<and> dl_claim_token (?g d) = None" by (simp add: finish_delivery_def)
  have c1: "(\<not> validWebhookDeliveryJobClaim j \<or> \<not> validWebhookDeliveryResult r \<or> \<not> validSampleTime t) = False" (is "?c = False")
  proof (rule ccontr)
    assume "?c \<noteq> False"
    then have "?c" by simp
    from assms [unfolded Complete_delivery_def if_P [OF this]] show False by simp
  qed
  have c2: "(?t < wj_StartedAt j) = False"
  proof (rule ccontr)
    assume "(?t < wj_StartedAt j) \<noteq> False"
    then have "?t < wj_StartedAt j" by simp
    from assms [unfolded Complete_delivery_def c1 if_False Let_def if_P [OF this]] show False by simp
  qed
  note rows = transact_Inr [OF assms [unfolded Complete_delivery_def c1 Let_def c2 if_False], THEN conjunct2]
  have one: "rows_affected ?p (alert_deliveries db) = 1"
  proof (rule ccontr)
    assume "rows_affected ?p (alert_deliveries db) \<noteq> 1"
    from rows [unfolded if_P [OF this]] show False by simp
  qed
  then have n: "\<not> rows_affected ?p (alert_deliveries db) \<noteq> 1" by simp
  from rows [unfolded if_not_P [OF n]]
  have new: "alert_deliveries db' = (if wr_Succeeded r \<or> \<not> wr_Retryable r
      then update_where ?cancel ?g (update_where ?p ?f (alert_deliveries db)) else update_where ?p ?f (alert_deliveries db))"
    by (rule deliveries_returned)
  show ?thesis
  proof (cases "wr_Succeeded r \<or> \<not> wr_Retryable r")
    case True
    show ?thesis by (intro exI [of _ ?f] exI [of _ ?cancel] exI [of _ ?g] conjI fin one) (rule new [unfolded if_P [OF True]])
  next
    case False
    show ?thesis by (intro exI [of _ ?f] exI [of _ "\<lambda>_. False"] exI [of _ ?g] conjI fin one) (unfold none, rule new [unfolded if_not_P [OF False]])
  qed
qed

lemma abandon_reports: "abandon_turn t c j d \<noteq> ([], d')"
  by (auto simp: abandon_turn_def split: prod.split option.split)

text \<open>A turn without an error that claimed a delivery has completed it.\<close>

lemma RunOnce_completes:
  assumes run: "RunOnce_webhook runner busy t db = ([], db')" and r: "normalized_runner runner = Some r"
    and cl: "Claim_delivery (wt_claim_fault t) busy (rn_ClaimOwner r) (wt_token t) (wt_now t) (rn_LeaseDuration r) db = (Inr (Some j), db1)"
  obtains rr u where "Complete_delivery (wt_complete_fault t) j rr (wt_finished t) db1 = (Inr u, db')"
proof -
  have ok: "\<not> (\<not> validSampleTime (wt_now t) \<or> wt_token t = uuid_Nil)"
  proof
    assume "\<not> validSampleTime (wt_now t) \<or> wt_token t = uuid_Nil"
    from run [unfolded RunOnce_webhook_def r option.case if_P [OF this]] show False by simp
  qed
  note turn = run [unfolded RunOnce_webhook_def r option.case if_not_P [OF ok] cl prod.case sum.case]
  have early: "\<not> wt_cancelled_early t"
  proof
    assume "wt_cancelled_early t"
    with turn abandon_reports show False by simp
  qed
  obtain rr where rr: "complete_turn t j rr db1 = ([], db')"
  proof (cases "BuildWebhookPayload (wj_Event j)")
    case (Inl e)
    with turn early have "complete_turn t j webhookProtocolFailure db1 = ([], db')" by simp
    then show thesis by (rule that)
  next
    case (Inr payload)
    show thesis
      using turn [unfolded if_not_P [OF early] Inr sum.case Let_def] abandon_reports
      by (cases "wt_cancelled_late t") (simp_all add: that)
  qed
  show thesis
  proof (cases "Complete_delivery (wt_complete_fault t) j rr (wt_finished t) db1")
    case (Pair x d)
    with rr abandon_reports that show thesis unfolding complete_turn_def by (cases x) (simp_all split: if_split_asm)
  qed
qed

text \<open>Completing the only delivery under a token leaves none.\<close>

lemma Complete_delivery_releases:
  assumes c: "Complete_delivery fault j r t db = (Inr u, db')" and kd: "keyed dl_id (alert_deliveries db)"
    and only: "\<forall>d \<in> set (alert_deliveries db). dl_claim_token d = Some token \<longrightarrow> dl_id d = wj_ID j"
  shows "\<forall>d \<in> set (alert_deliveries db'). dl_claim_token d \<noteq> Some token"
proof (rule ballI, rule notI)
  let ?p = "\<lambda>d. claimed_by j d \<and> (case dl_claim_expires_at d of None \<Rightarrow> False | Some x \<Rightarrow> x > postgresAlertTime t)"
  obtain f q g where one: "rows_affected ?p (alert_deliveries db) = 1"
    and fg: "\<forall>d. dl_claim_token (f d) = None \<and> dl_claim_token (g d) = None"
    and db': "alert_deliveries db' = update_where q g (update_where ?p f (alert_deliveries db))"
    using Complete_delivery_rows [OF c] by (elim exE conjE) (rule that)
  obtain x where x: "x \<in> set (alert_deliveries db)" "?p x"
    using rows_affected_witness [OF one] by (elim bexE) (rule that)
  fix d assume d: "d \<in> set (alert_deliveries db')" "dl_claim_token d = Some token"
  then obtain y where y: "y \<in> set (alert_deliveries db)" "d = (if ?p y then f y else y)"
    using fg unfolding db' set_update_where by (auto split: if_splits)
  with d(2) fg have nd: "\<not> ?p y" "d = y" by (auto split: if_splits)
  from bspec [OF only y(1)] d(2) nd(2) have "dl_id y = wj_ID j" by simp
  with x kd y(1) have "y = x" by (intro keyed_inj [OF kd]) (auto simp: claimed_by_def)
  with nd x show False by blast
qed

text \<open>A turn of the delivery runner that reports no error leaves nothing behind: no delivery
  stays claimed under the turn's token, whatever the sender answered.\<close>

theorem webhook_turn_settles:
  assumes inv: "alert_reachable db" and fresh: "\<forall>d \<in> set (alert_deliveries db). dl_claim_token d \<noteq> Some (wt_token t)"
    and run: "RunOnce_webhook runner busy t db = ([], db')"
  shows "\<forall>d \<in> set (alert_deliveries db'). dl_claim_token d \<noteq> Some (wt_token t)"
proof -
  have winv: "webhook_inv db" using alert_reachable_inv [OF inv] by blast
  from run obtain r where r: "normalized_runner runner = Some r" by (auto simp: RunOnce_webhook_def split: option.splits)
  obtain res db1 where cl: "Claim_delivery (wt_claim_fault t) busy (rn_ClaimOwner r) (wt_token t) (wt_now t) (rn_LeaseDuration r) db = (res, db1)"
    by fastforce
  from run r cl obtain jo where jo: "res = Inr jo" by (cases res) (auto simp: RunOnce_webhook_def split: if_splits)
  note tok = Claim_delivery_token [OF winv fresh cl [unfolded jo]]
  have kd: "keyed dl_id (alert_deliveries db1)"
    using Claim_delivery_inv [OF winv, of "wt_claim_fault t" busy "rn_ClaimOwner r" "wt_token t" "wt_now t" "rn_LeaseDuration r"] cl
    by (simp add: webhook_inv_def deliveries_ok_def)
  show ?thesis
  proof (cases jo)
    case None
    with run r cl jo tok fresh show ?thesis by (auto simp: RunOnce_webhook_def split: if_splits)
  next
    case (Some j)
    obtain rr u where c: "Complete_delivery (wt_complete_fault t) j rr (wt_finished t) db1 = (Inr u, db')"
      using run r cl [unfolded jo Some] by (rule RunOnce_completes)
    from tok Some have "\<forall>d \<in> set (alert_deliveries db1). dl_claim_token d = Some (wt_token t) \<longrightarrow> dl_id d = wj_ID j" by simp
    with c kd show ?thesis by (rule Complete_delivery_releases)
  qed
qed

section \<open>Witnesses\<close>

definition wit_webhook_on :: webhook_env where
  "wit_webhook_on = wit_webhook_off\<lparr>wh_enabled := True, wh_clock := wit_now + 2 * Minute, wh_event_id := 21, wh_delivery_ids := [11, 12, 13]\<rparr>"

lemma wit_classified_later: "classifyAlertEvaluation (wit_evaluation (wit_now + Minute)) = Inr alertConditionWarning"
  by (simp add: classifyAlertEvaluation_def validateAlertEvaluation_def wit_evaluation_def wit_rule_def mk_rule_def
      validateAlertRule_def rule_text validSampleTime_def wit_now_def year_10000_def)

definition wit_opened :: Alert where
  "wit_opened = failing_update AlertSeverityWarning (Fin 80) 2 (wit_evaluation (wit_now + Minute))
     (alert_candidate 7 (wit_evaluation wit_now) alertConditionWarning)"

definition wit_first :: delivery_row where
  "wit_first = pending_delivery 11 7 21 1 (wit_now + 3 * Minute)"

definition wit_second :: delivery_row where
  "wit_second = pending_delivery 12 7 21 2 (wit_now + 7 * Minute)"

definition wit_third :: delivery_row where
  "wit_third = pending_delivery 13 7 21 3 (wit_now + 32 * Minute)"

lemmas wit_rows = wit_first_def wit_second_def wit_third_def pending_delivery_def

definition wit_queue :: alert_db where
  "wit_queue = empty_alert_db\<lparr>operational_alerts := [wit_opened],
     alert_webhook_events := [event_of_alert wit_webhook_on AlertTransitionOpened wit_opened],
     alert_deliveries := [wit_first, wit_second,
       wit_third]\<rparr>"

lemma wit_candidate: "EvaluateAlert False wit_webhook_on 7 (wit_evaluation wit_now) empty_alert_db =
    (Inr no_transition, empty_alert_db\<lparr>operational_alerts := [alert_candidate 7 (wit_evaluation wit_now) alertConditionWarning]\<rparr>)"
proof -
  have "alert_checks (alert_candidate 7 (wit_evaluation wit_now) alertConditionWarning)"
    by (simp add: alert_checks_def alert_candidate_def failingSeverityAndThreshold_def wit_evaluation_def wit_rule_def mk_rule_def
        validAlertFloat_def IsNaN_def IsInf_def)
  then show ?thesis
    by (simp add: EvaluateAlert_def wit_classified transact_def evaluate_tx_def selectUnresolvedAlert_def empty_alert_db_def insertAlertCandidate_def)
qed

lemma wit_valid: "validWebhookTransition AlertTransitionOpened wit_opened"
  by (simp add: validWebhookTransition_def wit_opened_def failing_update_def alert_candidate_def failingSeverityAndThreshold_def
     wit_evaluation_def wit_rule_def mk_rule_def rule_text validSampleTime_def wit_now_def year_10000_def validAlertFloat_def IsNaN_def IsInf_def)

lemma wit_queued: "EvaluateAlert False wit_webhook_on 8 (wit_evaluation (wit_now + Minute))
    (empty_alert_db\<lparr>operational_alerts := [alert_candidate 7 (wit_evaluation wit_now) alertConditionWarning]\<rparr>) =
    (Inr \<lparr>tr_Kind = AlertTransitionOpened, tr_Alert = Some wit_opened\<rparr>, wit_queue)"
proof -
  let ?a = "alert_candidate 7 (wit_evaluation wit_now) alertConditionWarning"
  let ?db = "empty_alert_db\<lparr>operational_alerts := [?a]\<rparr>"
  have a: "at_ID ?a = 7" "at_State ?a = AlertStateOpen" "at_LastObservedAt ?a = wit_now" "\<not> alertVisible ?a" "at_Severity ?a = AlertSeverityWarning"
    "at_ConsecutiveFailures ?a = 1" "at_DedupeKey ?a = rl_DedupeKey wit_rule" "at_FirstObservedAt ?a = wit_now"
    by (simp_all add: alert_candidate_def failingSeverityAndThreshold_def wit_evaluation_def alertVisible_def)
  have r: "el_Rule (wit_evaluation t) = wit_rule" "el_ObservedAt (wit_evaluation t) = t" "rl_Warning wit_rule = Fin 80" for t
    by (simp_all add: wit_evaluation_def wit_rule_def mk_rule_def)
  have up: "update_alert 7 (failing_update AlertSeverityWarning (Fin 80) 2 (wit_evaluation (wit_now + Minute))) ?db =
      Inr (wit_opened, empty_alert_db\<lparr>operational_alerts := [wit_opened]\<rparr>)"
    by (simp add: update_alert_def a alert_checks_def wit_opened_def failing_update_def alert_candidate_def failingSeverityAndThreshold_def
       wit_evaluation_def validAlertFloat_def IsNaN_def IsInf_def update_where_def)
  have op: "at_ID wit_opened = 7" "at_FirstObservedAt wit_opened = wit_now"
    by (simp_all add: wit_opened_def failing_update_def a)
  have enq: "enqueueWebhookTransition wit_webhook_on AlertTransitionOpened wit_opened (empty_alert_db\<lparr>operational_alerts := [wit_opened]\<rparr>) = Inr wit_queue"
    by (simp add: enqueueWebhookTransition_def wit_webhook_on_def wit_webhook_off_def wit_valid postgresAlertTime_def wit_now_def
       validSampleTime_def year_10000_def op empty_alert_db_def event_of_alert_def schedule_deliveries_def webhookAttemptDelays_def wit_queue_def wit_rows)
  show ?thesis
    by (simp add: EvaluateAlert_def wit_classified_later transact_def evaluate_tx_def selectUnresolvedAlert_def r a time_sub_def
       recordFailingEvaluation_def failingSeverityAndThreshold_def up enq)
qed

lemma wit_queue_reachable: "alert_reachable wit_queue"
proof -
  have "alert_step empty_alert_db (snd (EvaluateAlert False wit_webhook_on 7 (wit_evaluation wit_now) empty_alert_db))"
    by (rule step_evaluate)
  moreover have "alert_step (empty_alert_db\<lparr>operational_alerts := [alert_candidate 7 (wit_evaluation wit_now) alertConditionWarning]\<rparr>)
      (snd (EvaluateAlert False wit_webhook_on 8 (wit_evaluation (wit_now + Minute))
        (empty_alert_db\<lparr>operational_alerts := [alert_candidate 7 (wit_evaluation wit_now) alertConditionWarning]\<rparr>)))"
    by (rule step_evaluate)
  ultimately show ?thesis
    unfolding alert_reachable_def wit_candidate wit_queued snd_conv by (rule rtranclp.rtrancl_into_rtrancl [OF r_into_rtranclp])
qed

definition wit_claim_time :: time where
  "wit_claim_time = wit_now + 4 * Minute"

definition wit_turn :: webhook_turn where
  "wit_turn = \<lparr>wt_now = wit_claim_time, wt_token = 9, wt_claim_fault = False, wt_cancelled_early = False,
     wt_send = (\<lambda>_. \<lparr>wr_Succeeded = True, wr_Retryable = False, wr_HTTPStatusClass = 2, wr_ErrorCategory = []\<rparr>),
     wt_cancelled_late = False, wt_finished = wit_claim_time + 1000, wt_complete_fault = False, wt_abandon_fault = False\<rparr>"

definition wit_runner :: WebhookDeliveryRunner where
  "wit_runner = \<lparr>rn_configured = True, rn_ClaimOwner = ''runner-1'', rn_PollInterval = 0, rn_LeaseDuration = 0, rn_DeliveryTimeout = 0\<rparr>"

lemma wit_runner_normal: "normalized_runner wit_runner = Some (wit_runner\<lparr>rn_PollInterval := DefaultWebhookPollInterval,
    rn_LeaseDuration := DefaultWebhookLeaseDuration, rn_DeliveryTimeout := defaultWebhookSendTimeout\<rparr>)"
  by (simp add: normalized_runner_def wit_runner_def webhookClaimOwner_def alnum_def go_eval Let_def DefaultWebhookPollInterval_def
     DefaultWebhookLeaseDuration_def defaultWebhookSendTimeout_def maxWebhookLeaseDuration_def maxWebhookNetworkTimeout_def)

definition wit_opened_event :: WebhookEvent where
  "wit_opened_event = event_of_alert wit_webhook_on AlertTransitionOpened wit_opened"

lemma wit_opened_event_valid: "validWebhookTransition (we_TransitionKind wit_opened_event) (alert_of_event wit_opened_event)" "we_ID wit_opened_event = 21" "we_AlertID wit_opened_event = 7"
  using wit_valid by (simp_all add: validWebhookTransition_def alert_of_event_def wit_opened_event_def event_of_alert_def wit_webhook_on_def wit_webhook_off_def
    wit_opened_def failing_update_def alert_candidate_def failingSeverityAndThreshold_def)

definition wit_claimed_row :: delivery_row where
  "wit_claimed_row = claim_delivery ''runner-1'' 9 wit_claim_time (wit_claim_time + DefaultWebhookLeaseDuration) wit_first"

definition wit_job :: WebhookDeliveryJob where
  "wit_job = job_of_delivery ''runner-1'' 9 wit_claim_time (wit_claim_time + DefaultWebhookLeaseDuration) wit_first wit_opened_event"

lemma wit_claim_run: "Claim_delivery False (\<lambda>_. False) ''runner-1'' 9 wit_claim_time DefaultWebhookLeaseDuration wit_queue =
   (Inr (Some wit_job),
    wit_queue\<lparr>alert_deliveries := [wit_claimed_row,
      wit_second, wit_third]\<rparr>)"
proof -
  let ?rows = "[wit_first, wit_second, wit_third]"
  have r: "alert_deliveries wit_queue = ?rows" "alert_webhook_events wit_queue = [wit_opened_event]" by (simp_all add: wit_queue_def wit_opened_event_def)
  have t: "postgresAlertTime wit_claim_time = wit_claim_time" "postgresAlertTime (wit_claim_time + DefaultWebhookLeaseDuration) = wit_claim_time + DefaultWebhookLeaseDuration"
    by (simp_all add: postgresAlertTime_def wit_now_def wit_claim_time_def DefaultWebhookLeaseDuration_def)
  have f: "filter (claimable_delivery wit_claim_time ?rows) ?rows = [wit_first]"
    by (simp add: claimable_delivery_def wit_rows due_at_def wit_now_def wit_claim_time_def)
  have g: "\<not> (\<not> webhookClaimOwner ''runner-1'' \<or> (9::nat) = uuid_Nil \<or> \<not> validSampleTime wit_claim_time \<or> DefaultWebhookLeaseDuration \<le> 0 \<or> DefaultWebhookLeaseDuration > maxWebhookLeaseDuration)"
    by (simp add: webhookClaimOwner_def alnum_def go_eval validSampleTime_def wit_now_def wit_claim_time_def year_10000_def DefaultWebhookLeaseDuration_def maxWebhookLeaseDuration_def)
  have a: "dl_alert_id wit_first = 7" "dl_id wit_first = 11" "dl_id wit_second = 12" "dl_id wit_third = 13" "dl_event_id wit_first = Some 21" by (simp_all add: wit_rows)
  have u: "update_where (\<lambda>x. dl_id x = 11) h ?rows = [h wit_first, wit_second, wit_third]" for h
    by (simp add: update_where_def a)
  show ?thesis
    unfolding Claim_delivery_def if_not_P [OF g] if_False Let_def t r f
    by (simp add: wit_opened_event_valid a u wit_claimed_row_def wit_job_def)
qed

lemma wit_completed: "Complete_delivery False
    wit_job
    \<lparr>wr_Succeeded = True, wr_Retryable = False, wr_HTTPStatusClass = 2, wr_ErrorCategory = []\<rparr> (wit_claim_time + 1000)
    (wit_queue\<lparr>alert_deliveries := [wit_claimed_row,
      wit_second, wit_third]\<rparr>) =
   (Inr (), wit_queue\<lparr>alert_deliveries := [
      finish_delivery DeliverySucceeded ''succeeded'' (Some 2) [] (wit_claim_time + 1000) wit_claimed_row,
      finish_delivery DeliveryCancelled ''cancelled'' None [] (wit_claim_time + 1000) wit_second,
      finish_delivery DeliveryCancelled ''cancelled'' None [] (wit_claim_time + 1000) wit_third]\<rparr>)"
proof -
  have t: "postgresAlertTime (wit_claim_time + 1000) = wit_claim_time + 1000" by (simp add: postgresAlertTime_def wit_now_def wit_claim_time_def)
  have o: "webhookClaimOwner ''runner-1''" by (simp add: webhookClaimOwner_def alnum_def go_eval)
  have j: "validWebhookDeliveryJobClaim wit_job"
    by (simp add: validWebhookDeliveryJobClaim_def wit_job_def job_of_delivery_def wit_rows wit_opened_event_valid webhookAttemptDelays_def o
      validSampleTime_def wit_now_def wit_claim_time_def year_10000_def DefaultWebhookLeaseDuration_def)
  have r: "validWebhookDeliveryResult \<lparr>wr_Succeeded = True, wr_Retryable = False, wr_HTTPStatusClass = 2, wr_ErrorCategory = []\<rparr>"
    by (simp add: validWebhookDeliveryResult_def)
  have v: "validSampleTime (wit_claim_time + 1000)" by (simp add: validSampleTime_def wit_now_def wit_claim_time_def year_10000_def)
  have job: "wj_StartedAt wit_job = wit_claim_time" "wj_EventID wit_job = 21" "wj_Attempt wit_job = 1"
    by (simp_all add: wit_job_def job_of_delivery_def wit_opened_event_valid wit_rows)
  have p: "claimed_by wit_job wit_claimed_row" "\<not> claimed_by wit_job wit_second" "\<not> claimed_by wit_job wit_third"
    "dl_claim_expires_at wit_claimed_row = Some (wit_claim_time + DefaultWebhookLeaseDuration)" "1000 < DefaultWebhookLeaseDuration"
    by (simp_all add: claimed_by_def wit_job_def wit_claimed_row_def claim_delivery_def job_of_delivery_def wit_opened_event_valid wit_rows DefaultWebhookLeaseDuration_def)
  have q: "dl_event_id wit_second = Some 21" "dl_event_id wit_third = Some 21" "dl_attempt wit_second = 2" "dl_attempt wit_third = 3"
    "dl_state wit_second = DeliveryPending" "dl_state wit_third = DeliveryPending"
    "dl_state (finish_delivery DeliverySucceeded x y z u w) = DeliverySucceeded" for x y z u w
    by (simp_all add: wit_rows finish_delivery_def)
  show ?thesis
    by (simp add: Complete_delivery_def j r v t job transact_def Let_def rows_affected_def update_where_def p q nullableStatusClass_def)
qed

lemma wit_claimed_row_reachable: "alert_reachable (wit_queue\<lparr>alert_deliveries := [wit_claimed_row, wit_second, wit_third]\<rparr>)"
proof -
  have "alert_step wit_queue (snd (Claim_delivery False (\<lambda>_. False) ''runner-1'' 9 wit_claim_time DefaultWebhookLeaseDuration wit_queue))"
    by (rule step_claim_delivery)
  with wit_queue_reachable show ?thesis
    unfolding alert_reachable_def wit_claim_run snd_conv by (rule rtranclp.rtrancl_into_rtrancl)
qed


theorem webhook_turn_settles_witness:
  "\<exists>db'. RunOnce_webhook wit_runner (\<lambda>_. False) wit_turn wit_queue = ([], db') \<and>
     map dl_state (alert_deliveries db') = [DeliverySucceeded, DeliveryCancelled, DeliveryCancelled] \<and>
     (\<forall>d \<in> set (alert_deliveries db'). dl_claim_token d \<noteq> Some 9)"
proof -
  have p: "\<exists>w. BuildWebhookPayload wit_opened_event = Inr w" by (simp add: BuildWebhookPayload_def wit_opened_event_valid)
  have v: "validWebhookDeliveryResult \<lparr>wr_Succeeded = True, wr_Retryable = False, wr_HTTPStatusClass = 2, wr_ErrorCategory = []\<rparr>"
    by (simp add: validWebhookDeliveryResult_def)
  have s: "validSampleTime (wt_now wit_turn)" "validSampleTime (wit_claim_time + 1000)"
    by (simp_all add: validSampleTime_def wit_turn_def wit_now_def wit_claim_time_def year_10000_def)
  have e: "wj_Event (job_of_delivery o' k t x d wit_opened_event) = wit_opened_event" "wj_StartedAt (job_of_delivery o' k t x d wit_opened_event) = t" for o' k t x d
    by (simp_all add: job_of_delivery_def)
  have e': "wj_Event wit_job = wit_opened_event" "wj_StartedAt wit_job = wit_claim_time" by (simp_all add: wit_job_def e)
  have w: "wt_now wit_turn = wit_claim_time" "wt_token wit_turn = 9" "wt_claim_fault wit_turn = False" "\<not> wt_cancelled_early wit_turn"
    "\<not> wt_cancelled_late wit_turn" "wt_finished wit_turn = wit_claim_time + 1000" "wt_complete_fault wit_turn = False"
    "wt_send wit_turn = (\<lambda>_. \<lparr>wr_Succeeded = True, wr_Retryable = False, wr_HTTPStatusClass = 2, wr_ErrorCategory = []\<rparr>)"
    by (simp_all add: wit_turn_def)
  have rn: "rn_ClaimOwner wit_runner = ''runner-1''" by (simp add: wit_runner_def)
  obtain db' where run: "RunOnce_webhook wit_runner (\<lambda>_. False) wit_turn wit_queue = ([], db')"
      "map dl_state (alert_deliveries db') = [DeliverySucceeded, DeliveryCancelled, DeliveryCancelled]"
    using p s by (elim exE) (simp add: RunOnce_webhook_def wit_runner_normal w rn wit_claim_run e' v complete_turn_def wit_completed, simp add: finish_delivery_def)
  have "\<forall>d \<in> set (alert_deliveries wit_queue). dl_claim_token d \<noteq> Some (wt_token wit_turn)"
    by (simp add: wit_queue_def wit_rows)
  from webhook_turn_settles [OF wit_queue_reachable this run(1)] run show ?thesis by (auto simp: w)
qed

end
