(* ===== verification/AI_Quota.thy ===== *)
theory AI_Quota
  imports Prelude Go_Strings
begin

text \<open>
  The arithmetic of AI answering: quota reservations and their calendar keys
  (\<^verbatim>\<open>internal/aiqa/quota.go\<close>), the choice of the conversation context
  (\<^verbatim>\<open>selectContext\<close> of \<^verbatim>\<open>service.go\<close>), and the cost and usage estimates of
  \<^verbatim>\<open>runner.go\<close>. All integers are \<^verbatim>\<open>int64\<close> and wrap.

  Shown here: the saturating cost computation equals the exact ceiling of tokens times price
  cut at the largest integer; a context that is selected fits the model's window, and the
  reservation made for it is exactly its size; and the quota check admits nothing beyond a
  limit.
\<close>

section \<open>Quotas\<close>

datatype ai_error =
    ErrAIForbidden | ErrAIInvalid | ErrAINotFound | ErrAIDisabled | ErrProviderUnavailable
  | ErrQuotaExceeded | ErrAIBusy | ErrContextTooLarge | ErrRunConflict
  | ErrNoRunnableRun | ErrRunnerLeaseLost | ErrCancelRequested | ErrAttachmentNotReady
  | ErrAIDriver

record QuotaLimits =
  ql_DailyRequests :: int
  ql_MonthlyRequests :: int
  ql_DailyTokens :: int
  ql_MonthlyTokens :: int

record StudentQuotaLimits =
  sl_DailyRequests :: "int option"
  sl_MonthlyRequests :: "int option"
  sl_DailyTokens :: "int option"
  sl_MonthlyTokens :: "int option"

record QuotaUsage =
  qu_DailyRequests :: int
  qu_MonthlyRequests :: int
  qu_DailyTokens :: int
  qu_MonthlyTokens :: int

record QuotaReservation =
  qr_RequestCount :: int
  qr_TokenCount :: int
  qr_DayKey :: string
  qr_MonthKey :: string
  qr_EstimatorVersion :: int

definition ResolveQuotaLimits :: "QuotaLimits \<Rightarrow> StudentQuotaLimits \<Rightarrow> ai_error + QuotaLimits" where
  "ResolveQuotaLimits global student =
     (let out = \<lparr>ql_DailyRequests = (case sl_DailyRequests student of None \<Rightarrow> ql_DailyRequests global | Some n \<Rightarrow> n),
                 ql_MonthlyRequests = (case sl_MonthlyRequests student of None \<Rightarrow> ql_MonthlyRequests global | Some n \<Rightarrow> n),
                 ql_DailyTokens = (case sl_DailyTokens student of None \<Rightarrow> ql_DailyTokens global | Some n \<Rightarrow> n),
                 ql_MonthlyTokens = (case sl_MonthlyTokens student of None \<Rightarrow> ql_MonthlyTokens global | Some n \<Rightarrow> n)\<rparr>
      in if ql_DailyRequests out \<le> 0 \<or> ql_MonthlyRequests out \<le> 0 \<or> ql_DailyTokens out \<le> 0 \<or> ql_MonthlyTokens out \<le> 0
         then Inl ErrAIDisabled else Inr out)"

definition CheckQuota :: "QuotaLimits \<Rightarrow> QuotaUsage \<Rightarrow> QuotaReservation \<Rightarrow> ai_error option" where
  "CheckQuota limits used r =
     (if qr_RequestCount r < 1 \<or> qr_TokenCount r < 0 \<or>
         int64 (qu_DailyRequests used + qr_RequestCount r) > ql_DailyRequests limits \<or>
         int64 (qu_MonthlyRequests used + qr_RequestCount r) > ql_MonthlyRequests limits \<or>
         int64 (qu_DailyTokens used + qr_TokenCount r) > ql_DailyTokens limits \<or>
         int64 (qu_MonthlyTokens used + qr_TokenCount r) > ql_MonthlyTokens limits
      then Some ErrQuotaExceeded else None)"

section \<open>Calendar keys\<close>

text \<open>\<^verbatim>\<open>time.Time\<close> counts from the first day of the year 1 of the proleptic Gregorian calendar.
  Years start in March here, so that the leap day is the last day of a year.\<close>

definition civil_date :: "int \<Rightarrow> int \<times> int \<times> int" where
  "civil_date days =
     (let z = days + 306; era = z div 146097; doe = z mod 146097;
          yoe = (doe - doe div 1460 + doe div 36524 - doe div 146096) div 365;
          doy = doe - (365 * yoe + yoe div 4 - yoe div 100);
          mp = (5 * doy + 2) div 153;
          d = doy - (153 * mp + 2) div 5 + 1;
          m = (if mp < 10 then mp + 3 else mp - 9)
      in (yoe + era * 400 + (if m \<le> 2 then 1 else 0), m, d))"

definition zero_pad :: "nat \<Rightarrow> int \<Rightarrow> string" where
  "zero_pad w n = (let s = show_nat (nat n) in replicate (w - length s) (CHR ''0'') @ s)"

text \<open>The time zone database of the host gives the offset of \<^verbatim>\<open>Asia/Shanghai\<close> at an instant
  (\<open>zone\<close>); without it the code falls back to eight hours.\<close>

definition shanghai_date :: "(time \<Rightarrow> duration) option \<Rightarrow> time \<Rightarrow> int \<times> int \<times> int" where
  "shanghai_date zone now = civil_date ((now + (case zone of None \<Rightarrow> 8 * Hour | Some off \<Rightarrow> off now)) div (24 * Hour))"

definition ShanghaiQuotaKeys :: "(time \<Rightarrow> duration) option \<Rightarrow> time \<Rightarrow> string \<times> string" where
  "ShanghaiQuotaKeys zone now =
     (let (y, m, d) = shanghai_date zone now; month = zero_pad 4 y @ ''-'' @ zero_pad 2 m
      in (month @ ''-'' @ zero_pad 2 d, month))"

definition CurrentEstimatorVersion :: int where "CurrentEstimatorVersion = 1"

definition add_lengths :: "int \<Rightarrow> string list \<Rightarrow> int" where
  "add_lengths n turns = foldl (\<lambda>n turn. int64 (n + int (length turn))) n turns"

definition EstimateQuotaReservation ::
  "(time \<Rightarrow> duration) option \<Rightarrow> string \<Rightarrow> string list \<Rightarrow> string \<Rightarrow> int \<Rightarrow> int \<Rightarrow> int \<Rightarrow> time \<Rightarrow> QuotaReservation" where
  "EstimateQuotaReservation zone systemPrompt turns extracted imageCount imageQuotaTokens maxOutputTokens now =
     (let n = add_lengths (int64 (int (length systemPrompt) + int (length extracted))) turns;
          n' = int64 (n + int64 (int64 (imageCount * imageQuotaTokens) + maxOutputTokens));
          (day, month) = ShanghaiQuotaKeys zone now
      in \<lparr>qr_RequestCount = 1, qr_TokenCount = n', qr_DayKey = day, qr_MonthKey = month,
          qr_EstimatorVersion = CurrentEstimatorVersion\<rparr>)"

section \<open>Context selection\<close>

record ai_message =
  mg_ID :: uuid
  mg_ThreadID :: uuid
  mg_Role :: string
  mg_Sender :: "uuid option"
  mg_Body :: string
  mg_RunID :: "uuid option"
  mg_Key :: "string option"
  mg_CreatedAt :: time

record GatewayContextTurn =
  ct_Role :: string
  ct_Text :: string

fun context_pairs :: "ai_message list \<Rightarrow> (ai_message \<times> ai_message) list" where
  "context_pairs (u # a # rest) =
     (if mg_Role u = ''student'' \<and> mg_Role a = ''assistant'' then (u, a) # context_pairs rest else context_pairs (a # rest))"
| "context_pairs _ = []"

definition pair_size :: "ai_message \<times> ai_message \<Rightarrow> int" where
  "pair_size p = int (length (mg_Body (fst p)) + length (mg_Body (snd p)))"

text \<open>The newest pairs first, until one does not fit.\<close>

fun select_pairs :: "int \<Rightarrow> (ai_message \<times> ai_message) list \<Rightarrow> (ai_message \<times> ai_message) list" where
  "select_pairs remaining [] = []"
| "select_pairs remaining (p # ps) = (if pair_size p > remaining then [] else p # select_pairs (remaining - pair_size p) ps)"

definition turns_of :: "ai_message \<times> ai_message \<Rightarrow> GatewayContextTurn list" where
  "turns_of p = [\<lparr>ct_Role = ''student'', ct_Text = mg_Body (fst p)\<rparr>, \<lparr>ct_Role = ''assistant'', ct_Text = mg_Body (snd p)\<rparr>]"

definition mandatory_size :: "string \<Rightarrow> string \<Rightarrow> string \<Rightarrow> int \<Rightarrow> int \<Rightarrow> int \<Rightarrow> int" where
  "mandatory_size system current extracted imageCount imageQuotaTokens maxOutput =
     int64 (int64 (int (length system + length current + length extracted) + int64 (imageCount * imageQuotaTokens)) + maxOutput)"

definition selectContext ::
  "string \<Rightarrow> ai_message list \<Rightarrow> string \<Rightarrow> string \<Rightarrow> int \<Rightarrow> int \<Rightarrow> int \<Rightarrow> int \<Rightarrow> ai_error + GatewayContextTurn list" where
  "selectContext system history current extracted imageCount imageQuotaTokens contextLimit maxOutput =
     (let mandatory = mandatory_size system current extracted imageCount imageQuotaTokens maxOutput
      in if contextLimit \<le> 0 \<or> maxOutput \<le> 0 \<or> mandatory > contextLimit then Inl ErrContextTooLarge
         else Inr (concat (map turns_of (rev (select_pairs (contextLimit - mandatory) (rev (context_pairs history)))))))"

section \<open>Usage and cost\<close>

definition MaxInt64 :: int where "MaxInt64 = 2 ^ 63 - 1"

definition million :: int where "million = 1000000"

definition add_saturating :: "int \<Rightarrow> int \<Rightarrow> int" where
  "add_saturating a b = (if b > MaxInt64 - a then MaxInt64 else a + b)"

text \<open>\<^verbatim>\<open>part > MaxInt64-cost\<close> returns \<^verbatim>\<open>MaxInt64\<close> from inside the loop over the two parts.\<close>

definition tokenCost :: "int \<Rightarrow> int \<Rightarrow> int" where
  "tokenCost tokens price =
     (if tokens \<le> 0 \<or> price \<le> 0 then 0
      else (let wholeTokens = go_div tokens million; remainingTokens = tokens - go_div tokens million * million
        in if wholeTokens > go_div MaxInt64 price then MaxInt64
           else (let cost = int64 (wholeTokens * price);
                     priceMillions = go_div price million; priceRemainder = price - go_div price million * million;
                     part1 = int64 (remainingTokens * priceMillions);
                     part2 = go_div (int64 (int64 (int64 (remainingTokens * priceRemainder) + million) - 1)) million
                 in if part1 > MaxInt64 - cost then MaxInt64
                    else if part2 > MaxInt64 - (cost + part1) then MaxInt64
                    else cost + part1 + part2)))"

fun add_turns :: "int \<Rightarrow> string list \<Rightarrow> int option" where
  "add_turns n [] = Some n"
| "add_turns n (t # ts) = (if int (length t) > MaxInt64 - n then None else add_turns (n + int (length t)) ts)"

definition estimateGatewayInput :: "string \<Rightarrow> string list \<Rightarrow> nat \<Rightarrow> int \<Rightarrow> int" where
  "estimateGatewayInput system turns images imageQuotaTokens =
     (case add_turns (int (length system)) turns of
        None \<Rightarrow> MaxInt64
      | Some n \<Rightarrow>
          if imageQuotaTokens \<le> 0 \<or> images = 0 then n
          else if int images > go_div (MaxInt64 - n) imageQuotaTokens then MaxInt64
          else n + int images * imageQuotaTokens)"


section \<open>Exactness of the cost\<close>

lemma saturated_sum: "a \<le> MaxInt64 \<Longrightarrow> (if b > MaxInt64 - a then MaxInt64 else a + b) = min MaxInt64 (a + b)"
  by auto

lemma div_less_iff_mult: "0 < (p :: int) \<Longrightarrow> a div p < w \<longleftrightarrow> a < w * p"
proof -
  assume p: "0 < p"
  have "w \<le> a div p \<longleftrightarrow> w * p \<le> a"
  proof
    assume "w \<le> a div p"
    then have "w * p \<le> a div p * p" using p by (intro mult_right_mono) auto
    also have "\<dots> \<le> a" using p pos_mod_sign [of p a] div_mult_mod_eq [of a p] by linarith
    finally show "w * p \<le> a" .
  next
    assume "w * p \<le> a"
    from zdiv_mono1 [OF this p] p show "w \<le> a div p" by simp
  qed
  then show ?thesis by (simp flip: not_le)
qed

lemma ceiling_split:
  fixes w r p q s :: int
  assumes "0 < m"
  shows "((w * m + r) * (q * m + s) + (m - 1)) div m = w * (q * m + s) + r * q + (r * s + (m - 1)) div m"
proof -
  have "(w * m + r) * (q * m + s) + (m - 1) = (r * s + (m - 1)) + (w * (q * m + s) + r * q) * m"
    by (simp add: algebra_simps)
  then show ?thesis using assms by (simp only: div_mult_self1)
qed

lemma tokenCost_exact:
  assumes "tokens \<le> MaxInt64" and "price \<le> MaxInt64"
  shows "tokenCost tokens price =
    (if tokens \<le> 0 \<or> price \<le> 0 then 0 else min MaxInt64 ((tokens * price + 999999) div 1000000))"
proof (cases "tokens \<le> 0 \<or> price \<le> 0")
  case True
  then show ?thesis by (simp add: tokenCost_def)
next
  case False
  define w where "w = tokens div 1000000"
  define r where "r = tokens mod 1000000"
  define q where "q = price div 1000000"
  define s where "s = price mod 1000000"
  have pos: "0 < tokens" "0 < price" using False by auto
  have m: "MaxInt64 = 9223372036854775807" by (simp add: MaxInt64_def)
  have b: "0 \<le> w" "0 \<le> r" "r \<le> 999999" "0 \<le> q" "0 \<le> s" "s \<le> 999999" "q \<le> 9223372036854"
    using pos assms(2) by (auto simp: w_def r_def q_def s_def m)
  have tok: "tokens = w * 1000000 + r" and pr: "price = q * 1000000 + s"
    by (simp_all add: w_def r_def q_def s_def)
  have dv: "go_div tokens million = w" "go_div price million = q" "go_div MaxInt64 price = MaxInt64 div price"
    using pos by (simp_all add: go_div_nonneg million_def w_def q_def m)
  have rm: "tokens - w * million = r" "price - q * million = s" by (simp_all add: tok pr million_def)
  have rq: "0 \<le> r * q" "r * q \<le> 9223362813481963146" using b mult_mono [of r 999999 q 9223372036854] by auto
  have rs: "0 \<le> r * s" "r * s \<le> 999998000001" using b mult_mono [of r 999999 s 999999] by auto
  have i1: "int64 (r * q) = r * q" using rq by (intro int64_id) auto
  have i2: "int64 (int64 (int64 (r * s) + million) - 1) = r * s + 999999"
    using rs by (simp add: int64_id million_def)
  have d2: "go_div (r * s + 999999) million = (r * s + 999999) div 1000000"
    using rs by (simp add: go_div_nonneg million_def)
  have exact: "(tokens * price + 999999) div 1000000 = w * price + r * q + (r * s + 999999) div 1000000"
    using ceiling_split [of 1000000 w r q s] unfolding tok pr by simp
  have part: "0 \<le> (r * s + 999999) div 1000000" using rs by simp
  show ?thesis
  proof (cases "w > MaxInt64 div price")
    case True
    then have "MaxInt64 < w * price" using pos(2) by (simp only: div_less_iff_mult)
    then have "min MaxInt64 ((tokens * price + 999999) div 1000000) = MaxInt64" unfolding exact using rq part by simp
    with True False show ?thesis by (simp add: tokenCost_def dv)
  next
    case small: False
    then have wp: "w * price \<le> MaxInt64" using pos(2) by (simp only: div_less_iff_mult not_less)
    have "0 \<le> w * price" using b(1) pos by simp
    with wp have i3: "int64 (w * price) = w * price" by (intro int64_id) (auto simp: m)
    have "tokenCost tokens price =
        (if r * q > MaxInt64 - w * price then MaxInt64
         else if (r * s + 999999) div 1000000 > MaxInt64 - (w * price + r * q) then MaxInt64
         else w * price + r * q + (r * s + 999999) div 1000000)"
      using False small
      by (simp add: tokenCost_def dv Let_def i3 rm i1 i2 d2)
    then show ?thesis unfolding exact using False part by auto
  qed
qed

text \<open>C21: The cost of a run is computed exactly. For every token count and price of 64 bits,
  \<open>tokenCost\<close> is the product divided by a million and rounded up, cut off at the largest
  64-bit integer: no intermediate product wraps and the splitting into whole millions and
  remainders loses nothing.\<close>

theorem token_cost_exact:
  assumes "tokens \<le> MaxInt64" and "price \<le> MaxInt64"
  shows "tokenCost tokens price =
    (if tokens \<le> 0 \<or> price \<le> 0 then 0 else min MaxInt64 ((tokens * price + 999999) div 1000000))"
  by (rule tokenCost_exact [OF assms])

section \<open>Selected contexts\<close>

lemma add_lengths_exact:
  "0 \<le> n \<Longrightarrow> n + (\<Sum>t \<leftarrow> ts. int (length t)) < 2 ^ 63 \<Longrightarrow> add_lengths n ts = n + (\<Sum>t \<leftarrow> ts. int (length t))"
proof (induction ts arbitrary: n)
  case (Cons t ts)
  have s: "0 \<le> (\<Sum>t \<leftarrow> ts. int (length t))" by (intro sum_list_nonneg) auto
  with Cons.prems have "int64 (n + int (length t)) = n + int (length t)" by (intro int64_id) auto
  with Cons.IH [of "n + int (length t)"] Cons.prems show ?case by (simp add: add_lengths_def)
qed (simp add: add_lengths_def)

definition pairs_size :: "(ai_message \<times> ai_message) list \<Rightarrow> int" where
  "pairs_size ps = sum_list (map pair_size ps)"

lemma pairs_size_simps [simp]: "pairs_size [] = 0" "pairs_size (p # ps) = pair_size p + pairs_size ps"
    "pairs_size (rev ps) = pairs_size ps"
  by (simp_all add: pairs_size_def sum_list.rev flip: rev_map)

text \<open>The chosen pairs are a longest prefix (newest first) whose size fits.\<close>

lemma select_pairs_prefix:
  assumes "0 \<le> rem"
  shows "\<exists>rest. ps = select_pairs rem ps @ rest \<and> pairs_size (select_pairs rem ps) \<le> rem \<and>
    (rest \<noteq> [] \<longrightarrow> pairs_size (select_pairs rem ps) + pair_size (hd rest) > rem)"
  using assms
proof (induction ps arbitrary: rem)
  case (Cons p ps)
  show ?case
  proof (cases "pair_size p > rem")
    case False
    from Cons.IH [of "rem - pair_size p"] False obtain rest where
      "ps = select_pairs (rem - pair_size p) ps @ rest" "pairs_size (select_pairs (rem - pair_size p) ps) \<le> rem - pair_size p"
      "rest \<noteq> [] \<longrightarrow> pairs_size (select_pairs (rem - pair_size p) ps) + pair_size (hd rest) > rem - pair_size p" by auto
    with False show ?thesis by (intro exI [of _ rest]) auto
  qed (use Cons.prems in simp)
qed simp

lemma turns_size: "(\<Sum>t \<leftarrow> concat (map turns_of ps). int (length (ct_Text t))) = pairs_size ps"
  by (induction ps) (simp_all add: turns_of_def pair_size_def)

definition small_context :: "string \<Rightarrow> string \<Rightarrow> string \<Rightarrow> int \<Rightarrow> int \<Rightarrow> int \<Rightarrow> int \<Rightarrow> bool" where
  "small_context system current extracted imageCount imageQuotaTokens contextLimit maxOutput \<longleftrightarrow>
     length system + length current + length extracted < 2 ^ 60 \<and> 0 \<le> imageCount \<and> imageCount \<le> 20 \<and>
     1 \<le> imageQuotaTokens \<and> imageQuotaTokens \<le> 10000000 \<and> contextLimit \<le> 10000000 \<and> maxOutput \<le> contextLimit"

lemma mandatory_size_exact:
  assumes "small_context system current extracted imageCount imageQuotaTokens contextLimit maxOutput" and "0 < maxOutput"
  shows "mandatory_size system current extracted imageCount imageQuotaTokens maxOutput =
    int (length system) + int (length current) + int (length extracted) + imageCount * imageQuotaTokens + maxOutput"
proof -
  have p: "0 \<le> imageCount * imageQuotaTokens" "imageCount * imageQuotaTokens \<le> 200000000"
    using assms mult_mono [of imageCount 20 imageQuotaTokens 10000000] by (auto simp: small_context_def)
  then have i: "int64 (imageCount * imageQuotaTokens) = imageCount * imageQuotaTokens" by (intro int64_id) auto
  let ?n = "int (length system + length current + length extracted)"
  have n: "?n < 2 ^ 60" and o: "maxOutput \<le> 10000000" using assms by (simp_all add: small_context_def)
  have j: "int64 (?n + imageCount * imageQuotaTokens) = ?n + imageCount * imageQuotaTokens" using n p by (intro int64_id) auto
  have "int64 (?n + imageCount * imageQuotaTokens + maxOutput) = ?n + imageCount * imageQuotaTokens + maxOutput"
    using n p o assms(2) by (intro int64_id) auto
  then show ?thesis unfolding mandatory_size_def i j by simp
qed

text \<open>What is sent fits, and what is reserved is what is sent. For a model within the limits of
  its table and at most twenty images, a selected context consists of the longest run of the
  newest complete question-and-answer pairs that fits the model's window together with the
  system prompt, the question, the attachments and the answer; and the tokens reserved for it
  are exactly that sum, so they are positive and never exceed the window.\<close>

theorem selected_context_fits:
  assumes sel: "selectContext system history current extracted imageCount imageQuotaTokens contextLimit maxOutput = Inr turns"
    and small: "small_context system current extracted imageCount imageQuotaTokens contextLimit maxOutput"
    and r: "r = EstimateQuotaReservation zone system (map ct_Text turns @ [current]) extracted imageCount imageQuotaTokens maxOutput now"
  shows "\<exists>older newer. context_pairs history = older @ newer \<and> turns = concat (map turns_of newer) \<and>
    qr_TokenCount r = int (length system) + int (length current) + int (length extracted) +
      imageCount * imageQuotaTokens + maxOutput + pairs_size newer \<and>
    0 < qr_TokenCount r \<and> qr_TokenCount r \<le> contextLimit \<and>
    (older \<noteq> [] \<longrightarrow> qr_TokenCount r + pair_size (last older) > contextLimit)"
proof -
  let ?m = "mandatory_size system current extracted imageCount imageQuotaTokens maxOutput"
  from sel have out: "0 < maxOutput" "?m \<le> contextLimit"
    and turns: "turns = concat (map turns_of (rev (select_pairs (contextLimit - ?m) (rev (context_pairs history)))))"
    by (auto simp: selectContext_def Let_def split: if_splits)
  have m: "?m = int (length system) + int (length current) + int (length extracted) + imageCount * imageQuotaTokens + maxOutput"
    by (rule mandatory_size_exact [OF small out(1)])
  from select_pairs_prefix [of "contextLimit - ?m" "rev (context_pairs history)"] out(2) obtain rest where
    rest: "rev (context_pairs history) = select_pairs (contextLimit - ?m) (rev (context_pairs history)) @ rest"
      "pairs_size (select_pairs (contextLimit - ?m) (rev (context_pairs history))) \<le> contextLimit - ?m"
      "rest \<noteq> [] \<longrightarrow> pairs_size (select_pairs (contextLimit - ?m) (rev (context_pairs history))) + pair_size (hd rest) > contextLimit - ?m"
    by auto
  define newer where "newer = rev (select_pairs (contextLimit - ?m) (rev (context_pairs history)))"
  have hist: "context_pairs history = rev rest @ newer" using arg_cong [OF rest(1), of rev] by (simp add: newer_def)
  have size: "pairs_size newer \<le> contextLimit - ?m" "0 \<le> pairs_size newer"
    using rest(2) by (simp_all add: newer_def) (auto simp: pairs_size_def pair_size_def intro!: sum_list_nonneg)
  have prod: "0 \<le> imageCount * imageQuotaTokens" "imageCount * imageQuotaTokens \<le> 200000000"
    using small mult_mono [of imageCount 20 imageQuotaTokens 10000000] by (auto simp: small_context_def)
  have tok: "qr_TokenCount r = ?m + pairs_size newer"
  proof -
    have total: "sum_list (map ((\<lambda>t. int (length t)) \<circ> ct_Text) turns) = pairs_size newer"
      using turns_size [of newer] unfolding turns newer_def [symmetric] by (simp add: comp_def)
    have lim: "contextLimit \<le> 10000000" using small by (simp add: small_context_def)
    have base: "int64 (int (length system) + int (length extracted)) = int (length system) + int (length extracted)"
      using small by (intro int64_id) (auto simp: small_context_def)
    have "add_lengths (int (length system) + int (length extracted)) (map ct_Text turns @ [current]) =
        int (length system) + int (length extracted) + (pairs_size newer + int (length current))"
      using size lim m prod out(1) by (subst add_lengths_exact) (auto simp: total)
    note lengths = this
    have i: "int64 (imageCount * imageQuotaTokens) = imageCount * imageQuotaTokens" using prod by (intro int64_id) auto
    have j: "int64 (imageCount * imageQuotaTokens + maxOutput) = imageCount * imageQuotaTokens + maxOutput"
      using prod out lim size m by (intro int64_id) auto
    have "int64 (int (length system) + int (length extracted) + (pairs_size newer + int (length current)) + (imageCount * imageQuotaTokens + maxOutput)) =
        ?m + pairs_size newer"
      using size lim m prod out(1) by (subst int64_id) auto
    then show ?thesis
      unfolding r EstimateQuotaReservation_def base Let_def lengths i j by (simp add: split_beta)
  qed
  show ?thesis
    by (rule exI [of _ "rev rest"], rule exI [of _ newer])
      (use hist turns tok m size out rest(3) prod in \<open>auto simp: newer_def last_rev\<close>)
qed

section \<open>What the quota check admits\<close>

lemma CheckQuota_admits:
  assumes "CheckQuota limits used r = None"
    and "0 \<le> qu_DailyRequests used" "0 \<le> qu_MonthlyRequests used" "0 \<le> qu_DailyTokens used" "0 \<le> qu_MonthlyTokens used"
    and "qu_DailyRequests used + qr_RequestCount r < 2 ^ 63" "qu_MonthlyRequests used + qr_RequestCount r < 2 ^ 63"
    and "qu_DailyTokens used + qr_TokenCount r < 2 ^ 63" "qu_MonthlyTokens used + qr_TokenCount r < 2 ^ 63"
  shows "1 \<le> qr_RequestCount r" "0 \<le> qr_TokenCount r"
    "qu_DailyRequests used + qr_RequestCount r \<le> ql_DailyRequests limits"
    "qu_MonthlyRequests used + qr_RequestCount r \<le> ql_MonthlyRequests limits"
    "qu_DailyTokens used + qr_TokenCount r \<le> ql_DailyTokens limits"
    "qu_MonthlyTokens used + qr_TokenCount r \<le> ql_MonthlyTokens limits"
  using assms by (auto simp: CheckQuota_def int64_id split: if_splits)

lemma estimateGatewayInput_exact:
  assumes "int (length system) + (\<Sum>t \<leftarrow> turns. int (length t)) \<le> MaxInt64" and "0 \<le> q"
  shows "estimateGatewayInput system turns images q =
    min MaxInt64 (int (length system) + (\<Sum>t \<leftarrow> turns. int (length t)) + int images * q)"
proof -
  have add: "add_turns n ts = Some (n + (\<Sum>t \<leftarrow> ts. int (length t)))" if "n + (\<Sum>t \<leftarrow> ts. int (length t)) \<le> MaxInt64" for n ts
    using that
  proof (induction ts arbitrary: n)
    case (Cons t ts)
    have "0 \<le> (\<Sum>t \<leftarrow> ts. int (length t))" by (intro sum_list_nonneg) auto
    with Cons show ?case by auto
  qed simp
  let ?n = "int (length system) + (\<Sum>t \<leftarrow> turns. int (length t))"
  have n: "0 \<le> MaxInt64 - ?n" using assms(1) by simp
  show ?thesis
  proof (cases "q \<le> 0 \<or> images = 0")
    case False
    then have "go_div (MaxInt64 - ?n) q < int images \<longleftrightarrow> MaxInt64 - ?n < int images * q"
      using n by (simp add: go_div_nonneg div_less_iff_mult)
    then show ?thesis using False add [OF assms(1)] by (auto simp: estimateGatewayInput_def)
  qed (use add [OF assms(1)] assms in \<open>auto simp: estimateGatewayInput_def\<close>)
qed

text \<open>The month key is the first part of the day key, so usage of one day is usage of one month.\<close>

lemma month_of_day: "ShanghaiQuotaKeys zone now = (day, month) \<Longrightarrow> \<exists>d. day = month @ ''-'' @ d"
  by (auto simp: ShanghaiQuotaKeys_def Let_def split_beta)

section \<open>Witnesses\<close>

theorem token_cost_exact_witness: "tokenCost 1500001 2000001 = 3000004 \<and> tokenCost (2 ^ 62) (2 ^ 62) = MaxInt64"
  using token_cost_exact [of 1500001 2000001] token_cost_exact [of "2 ^ 62" "2 ^ 62"] by (simp add: MaxInt64_def)

definition wit_history :: "ai_message list" where
  "wit_history = map (\<lambda>(i, role, body). \<lparr>mg_ID = i, mg_ThreadID = 1, mg_Role = role, mg_Sender = None, mg_Body = body,
     mg_RunID = None, mg_Key = None, mg_CreatedAt = 0\<rparr>)
     [(1, ''student'', ''a long first question''), (2, ''assistant'', ''a long first answer''),
      (3, ''student'', ''why?''), (4, ''assistant'', ''so.''), (5, ''student'', ''unanswered'')]"

theorem selected_context_fits_witness:
  "\<exists>turns. selectContext ''sys'' wit_history ''next?'' [] 0 1 40 20 = Inr turns \<and> length turns = 2 \<and>
     qr_TokenCount (EstimateQuotaReservation None ''sys'' (map ct_Text turns @ [''next?'']) [] 0 1 20 0) \<le> 40"
proof -
  let ?turns = "[\<lparr>ct_Role = ''student'', ct_Text = ''why?''\<rparr>, \<lparr>ct_Role = ''assistant'', ct_Text = ''so.''\<rparr>]"
  have "selectContext ''sys'' wit_history ''next?'' [] 0 1 40 20 = Inr ?turns"
    by (simp add: selectContext_def mandatory_size_def int64_def wit_history_def pair_size_def turns_of_def)
  from this selected_context_fits [OF this _ refl, of None 0] show ?thesis by (auto simp: small_context_def)
qed

end
