(* ===== verification/AI_Store.thy ===== *)
theory AI_Store
  imports AI_Quota Operations_Gate Files_Model
begin

text \<open>
  The runs of AI answering: \<^verbatim>\<open>internal/aiqa/postgres_runtime.go\<close> (admission, retry,
  cancellation and the read side) and \<^verbatim>\<open>internal/aiqa/postgres_runner.go\<close> (leasing, events,
  completion, failure and reconciliation), over the tables of \<^verbatim>\<open>00016_ai_runtime.sql\<close>.

  A run reserves quota when it is admitted and gives it back when it ends; the ledger
  \<^verbatim>\<open>ai_usage_ledger\<close> is append-only and unique per run, period kind and action. The unique
  indexes that the code relies on are part of the statements here; every other constraint of
  the schema is covered by the \<open>fault\<close> of the transaction. The digest of a prompt is the
  argument \<open>hex_sha256\<close>.
\<close>

section \<open>Data\<close>

datatype RunStatus = RunQueued | RunStreaming | RunSucceeded | RunFailed | RunCancelled

record Thread =
  th_ID :: uuid
  th_StudentID :: uuid
  th_Title :: string
  th_Subject :: string
  th_LastMessageAt :: time
  th_CreatedAt :: time

record GatewayTimeouts =
  gt_Connect :: duration
  gt_ResponseHeader :: duration
  gt_IdleStream :: duration
  gt_Total :: duration

record ModelView =
  mv_ID :: uuid
  mv_ProviderID :: uuid
  mv_UpstreamModelID :: string
  mv_Modality :: string
  mv_ContextTokens :: int
  mv_MaxOutputTokens :: int
  mv_ImageQuotaTokens :: int
  mv_InputPriceMicroUSD :: int
  mv_OutputPriceMicroUSD :: int
  mv_Enabled :: bool
  mv_QuotaBlockedAt :: "time option"

record PromptView =
  pv_ID :: uuid
  pv_Subject :: string
  pv_Version :: int
  pv_Body :: string
  pv_Active :: bool

text \<open>\<open>rc_BaseURL\<close> is the text of the URL, or nothing for a nil pointer.\<close>

record RuntimeProviderConfig =
  rc_ProviderID :: uuid
  rc_KeyVersion :: int
  rc_BaseURL :: "string option"
  rc_ProtocolMode :: string
  rc_Model :: ModelView
  rc_Prompt :: PromptView
  rc_Timeouts :: GatewayTimeouts

record RuntimeSnapshot =
  sn_Provider :: RuntimeProviderConfig
  sn_PromptSHA256 :: string

text \<open>A row of \<^verbatim>\<open>ai_runs\<close>; its snapshot columns are kept as the snapshot they were written from.\<close>

record ai_run =
  ar_id :: uuid
  ar_thread_id :: uuid
  ar_student_id :: uuid
  ar_trigger_message_id :: uuid
  ar_attempt_no :: int
  ar_idempotency_key :: string
  ar_status :: RunStatus
  ar_snapshot :: RuntimeSnapshot
  ar_reserved_requests :: int
  ar_reserved_tokens :: int
  ar_day_key :: string
  ar_month_key :: string
  ar_lease_owner :: "string option"
  ar_lease_expires_at :: "time option"
  ar_heartbeat_at :: "time option"
  ar_cancel_requested_at :: "time option"
  ar_usage :: "(int \<times> int \<times> int) option"
  ar_usage_source :: "string option"
  ar_finish_reason :: "string option"
  ar_error_code :: "string option"
  ar_first_byte_ms :: "int option"
  ar_total_ms :: "int option"
  ar_last_sequence :: int
  ar_created_at :: time
  ar_updated_at :: time
  ar_started_at :: "time option"
  ar_completed_at :: "time option"

record message_file =
  mf_message_id :: uuid
  mf_file_version_id :: uuid
  mf_sort_position :: nat
  mf_display_name :: string

record run_event =
  re_run_id :: uuid
  re_sequence :: int
  re_kind :: string
  re_payload :: string
  re_error_code :: "string option"
  re_created_at :: time

datatype ledger_action = Reserve | Settle | Release
datatype period_kind = Day | Month

record ledger_row =
  lg_student_id :: uuid
  lg_run_id :: uuid
  lg_action :: ledger_action
  lg_period_kind :: period_kind
  lg_period_key :: string
  lg_request_delta :: int
  lg_token_delta :: int
  lg_created_at :: time

record model_row =
  md_view :: ModelView
  md_timeouts_ms :: "int \<times> int \<times> int \<times> int"
  md_block_reason :: "string option"
  md_version :: int

record provider_row =
  pr_id :: uuid
  pr_base_url :: string
  pr_protocol_mode :: string
  pr_active :: bool
  pr_key_version :: int

record ai_db =
  ai_users :: "User list"
  ai_threads :: "Thread list"
  ai_messages :: "ai_message list"
  ai_message_files :: "message_file list"
  ai_runs :: "ai_run list"
  ai_run_events :: "run_event list"
  ai_usage_ledger :: "ledger_row list"
  ai_global_limits :: QuotaLimits
  student_ai_limits :: "(uuid \<times> StudentQuotaLimits) list"
  ai_models :: "model_row list"
  ai_providers :: "provider_row list"
  prompt_templates :: "PromptView list"

record AttachmentMetadata =
  am_FileVersionID :: uuid
  am_DisplayName :: string

record RuntimeAdmission =
  ra_StudentID :: uuid
  ra_ThreadID :: uuid
  ra_CreateThread :: bool
  ra_ThreadTitle :: string
  ra_Subject :: string
  ra_MessageID :: uuid
  ra_MessageBody :: string
  ra_IdempotencyKey :: string
  ra_Attachments :: "AttachmentMetadata list"
  ra_AttemptNo :: int
  ra_Snapshot :: RuntimeSnapshot
  ra_Reservation :: QuotaReservation
  ra_Now :: time

record RuntimeRetryAdmission =
  rr_StudentID :: uuid
  rr_SourceRunID :: uuid
  rr_RunID :: uuid
  rr_IdempotencyKey :: string
  rr_Snapshot :: RuntimeSnapshot
  rr_Reservation :: QuotaReservation
  rr_Now :: time

record TerminalUsage =
  tu_InputTokens :: int
  tu_OutputTokens :: int
  tu_CostMicroUSD :: int
  tu_UsageSource :: string
  tu_FinishReason :: string

record MessageCursor =
  mc_CreatedAt :: time
  mc_ID :: uuid
  mc_Limit :: int

record ThreadDetail =
  td_Thread :: Thread
  td_Messages :: "(ai_message \<times> AttachmentMetadata list) list"
  td_ActiveRun :: "ai_run option"
  td_Next :: MessageCursor

section \<open>Validation\<close>

definition subjectOK :: "string \<Rightarrow> bool" where
  "subjectOK s \<longleftrightarrow> s = ''math'' \<or> s = ''physics''"

definition validTitle :: "string \<Rightarrow> bool" where
  "validTitle v \<longleftrightarrow> (let n = RuneCount (TrimSpace v) in 1 \<le> n \<and> n \<le> 160)"

definition validBody :: "string \<Rightarrow> bool" where
  "validBody v \<longleftrightarrow> (let n = RuneCount (TrimSpace v) in 1 \<le> n \<and> n \<le> 100000)"

definition validIdempotency :: "string \<Rightarrow> bool" where
  "validIdempotency v \<longleftrightarrow> 16 \<le> length v \<and> length v \<le> 128"

definition validAdmission :: "RuntimeAdmission \<Rightarrow> bool" where
  "validAdmission i \<longleftrightarrow>
     ra_StudentID i \<noteq> uuid_Nil \<and> ra_ThreadID i \<noteq> uuid_Nil \<and> ra_MessageID i \<noteq> uuid_Nil \<and> validBody (ra_MessageBody i) \<and>
     validIdempotency (ra_IdempotencyKey i) \<and> ra_AttemptNo i > 0 \<and>
     (\<not> ra_CreateThread i \<or> (validTitle (ra_ThreadTitle i) \<and> subjectOK (ra_Subject i))) \<and>
     qr_RequestCount (ra_Reservation i) > 0 \<and> qr_TokenCount (ra_Reservation i) \<ge> 0 \<and>
     qr_DayKey (ra_Reservation i) \<noteq> [] \<and> qr_MonthKey (ra_Reservation i) \<noteq> []"

definition sameMetadataBindings :: "AttachmentMetadata list \<Rightarrow> AttachmentMetadata list \<Rightarrow> bool" where
  "sameMetadataBindings l r \<longleftrightarrow> map am_FileVersionID l = map am_FileVersionID r"

section \<open>Reading\<close>

definition run_of :: "uuid \<Rightarrow> uuid \<Rightarrow> ai_db \<Rightarrow> ai_run option" where
  "run_of student i db = find (\<lambda>r. ar_id r = i \<and> ar_student_id r = student) (ai_runs db)"

definition findRunByKey :: "uuid \<Rightarrow> string \<Rightarrow> ai_db \<Rightarrow> ai_run option" where
  "findRunByKey student key db = find (\<lambda>r. ar_student_id r = student \<and> ar_idempotency_key r = key) (ai_runs db)"

definition message_body :: "uuid \<Rightarrow> ai_db \<Rightarrow> string" where
  "message_body i db = (case find (\<lambda>m. mg_ID m = i) (ai_messages db) of None \<Rightarrow> [] | Some m \<Rightarrow> mg_Body m)"

definition loadMessageAttachments :: "uuid \<Rightarrow> ai_db \<Rightarrow> AttachmentMetadata list" where
  "loadMessageAttachments message db =
     map (\<lambda>f. \<lparr>am_FileVersionID = mf_file_version_id f, am_DisplayName = mf_display_name f\<rparr>)
       (sort_key mf_sort_position (filter (\<lambda>f. mf_message_id f = message) (ai_message_files db)))"

definition message_order :: "ai_message \<Rightarrow> time \<times> uuid" where
  "message_order m = (mg_CreatedAt m, mg_ID m)"

definition no_cursor :: MessageCursor where
  "no_cursor = \<lparr>mc_CreatedAt = time_zero, mc_ID = uuid_Nil, mc_Limit = 0\<rparr>"

definition page_limit :: "int \<Rightarrow> int \<Rightarrow> nat" where
  "page_limit standard limit = nat (min 100 (if limit \<le> 0 then standard else limit))"

text \<open>\<^verbatim>\<open>ORDER BY r.attempt_no DESC,r.created_at DESC,r.id DESC LIMIT 1\<close>\<close>

definition latest_run :: "uuid \<Rightarrow> uuid \<Rightarrow> ai_db \<Rightarrow> ai_run option" where
  "latest_run student thread db =
     (case rev (sort_key (\<lambda>r. (ar_attempt_no r, ar_created_at r, ar_id r))
        (filter (\<lambda>r. ar_thread_id r = thread \<and> ar_student_id r = student) (ai_runs db))) of
        [] \<Rightarrow> None | r # _ \<Rightarrow> Some r)"

definition getThreadTx :: "uuid \<Rightarrow> uuid \<Rightarrow> MessageCursor \<Rightarrow> ai_db \<Rightarrow> ai_error + ThreadDetail" where
  "getThreadTx student thread cursor db =
     (case find (\<lambda>t. th_ID t = thread \<and> th_StudentID t = student) (ai_threads db) of
        None \<Rightarrow> Inl ErrAINotFound
      | Some t \<Rightarrow>
          (let limit = page_limit 50 (mc_Limit cursor);
               rows = take (limit + 1) (sort_key message_order
                 (filter (\<lambda>m. mg_ThreadID m = thread \<and>
                    (mc_CreatedAt cursor = time_zero \<or> message_order m > (mc_CreatedAt cursor, mc_ID cursor))) (ai_messages db)));
               page = take limit rows
           in Inr \<lparr>td_Thread = t, td_Messages = map (\<lambda>m. (m, loadMessageAttachments (mg_ID m) db)) page,
                   td_ActiveRun = latest_run student thread db,
                   td_Next = (if length rows > limit
                     then \<lparr>mc_CreatedAt = mg_CreatedAt (last page), mc_ID = mg_ID (last page), mc_Limit = int limit\<rparr> else no_cursor)\<rparr>))"

definition GetRun :: "bool \<Rightarrow> uuid \<Rightarrow> uuid \<Rightarrow> ai_db \<Rightarrow> ai_error + (ai_run \<times> AttachmentMetadata list)" where
  "GetRun fault student i db =
     (if fault then Inl ErrAIDriver
      else case run_of student i db of
        None \<Rightarrow> Inl ErrAINotFound
      | Some r \<Rightarrow> Inr (r, loadMessageAttachments (ar_trigger_message_id r) db))"

definition GetRunByIdempotency :: "bool \<Rightarrow> uuid \<Rightarrow> string \<Rightarrow> ai_db \<Rightarrow> ai_error + (ThreadDetail \<times> ai_run)" where
  "GetRunByIdempotency fault student key db =
     (if student = uuid_Nil \<or> \<not> validIdempotency key then Inl ErrAINotFound
      else if fault then Inl ErrAIDriver
      else case findRunByKey student key db of
        None \<Rightarrow> Inl ErrAINotFound
      | Some r \<Rightarrow> (case getThreadTx student (ar_thread_id r) no_cursor db of Inl e \<Rightarrow> Inl e | Inr d \<Rightarrow> Inr (d, r)))"

definition LoadContext :: "bool \<Rightarrow> uuid \<Rightarrow> uuid \<Rightarrow> ai_db \<Rightarrow> ai_error + ai_message list" where
  "LoadContext fault student thread db =
     (if fault then Inl ErrAIDriver
      else if \<not> list_ex (\<lambda>t. th_ID t = thread \<and> th_StudentID t = student) (ai_threads db) then Inl ErrAINotFound
      else Inr (sort_key message_order (filter (\<lambda>m. mg_ThreadID m = thread) (ai_messages db))))"

definition ListThreads :: "bool \<Rightarrow> uuid \<Rightarrow> time \<Rightarrow> uuid \<Rightarrow> int \<Rightarrow> ai_db \<Rightarrow> ai_error + (Thread list \<times> (time \<times> uuid) option)" where
  "ListThreads fault student before before_id limit0 db =
     (if fault then Inl ErrAIDriver
      else (let limit = page_limit 20 limit0;
                rows = take (limit + 1) (rev (sort_key (\<lambda>t. (th_LastMessageAt t, th_ID t))
                  (filter (\<lambda>t. th_StudentID t = student \<and>
                     (before = time_zero \<or> (th_LastMessageAt t, th_ID t) < (before, before_id))) (ai_threads db))));
                page = take limit rows
            in Inr (page, if length rows > limit then Some (th_LastMessageAt (last page), th_ID (last page)) else None)))"

section \<open>Quota and snapshot\<close>

definition reserved_period :: "uuid \<Rightarrow> QuotaReservation \<Rightarrow> ledger_row \<Rightarrow> bool" where
  "reserved_period student r l \<longleftrightarrow> lg_student_id l = student \<and>
     ((lg_period_kind l = Day \<and> lg_period_key l = qr_DayKey r) \<or> (lg_period_kind l = Month \<and> lg_period_key l = qr_MonthKey r))"

definition add_usage :: "ledger_row \<Rightarrow> QuotaUsage \<Rightarrow> QuotaUsage" where
  "add_usage l u =
     (if lg_period_kind l = Day
      then u\<lparr>qu_DailyRequests := int64 (qu_DailyRequests u + lg_request_delta l), qu_DailyTokens := int64 (qu_DailyTokens u + lg_token_delta l)\<rparr>
      else u\<lparr>qu_MonthlyRequests := int64 (qu_MonthlyRequests u + lg_request_delta l), qu_MonthlyTokens := int64 (qu_MonthlyTokens u + lg_token_delta l)\<rparr>)"

definition no_usage :: QuotaUsage where
  "no_usage = \<lparr>qu_DailyRequests = 0, qu_MonthlyRequests = 0, qu_DailyTokens = 0, qu_MonthlyTokens = 0\<rparr>"

definition student_limits :: "uuid \<Rightarrow> ai_db \<Rightarrow> StudentQuotaLimits" where
  "student_limits student db = (case map_of (student_ai_limits db) student of
     None \<Rightarrow> \<lparr>sl_DailyRequests = None, sl_MonthlyRequests = None, sl_DailyTokens = None, sl_MonthlyTokens = None\<rparr>
   | Some l \<Rightarrow> l)"

definition reserveQuota :: "uuid \<Rightarrow> QuotaReservation \<Rightarrow> ai_db \<Rightarrow> ai_error option" where
  "reserveQuota student r db =
     (case ResolveQuotaLimits (ai_global_limits db) (student_limits student db) of
        Inl e \<Rightarrow> Some e
      | Inr limits \<Rightarrow> CheckQuota limits (fold add_usage (filter (reserved_period student r) (ai_usage_ledger db)) no_usage) r)"

definition Milliseconds :: "duration \<Rightarrow> int" where
  "Milliseconds d = go_div d 1000000"

definition timeouts_ms :: "GatewayTimeouts \<Rightarrow> int \<times> int \<times> int \<times> int" where
  "timeouts_ms t = (Milliseconds (gt_Connect t), Milliseconds (gt_ResponseHeader t), Milliseconds (gt_IdleStream t), Milliseconds (gt_Total t))"

definition validateAndLockSnapshot :: "(string \<Rightarrow> string) \<Rightarrow> RuntimeSnapshot \<Rightarrow> ai_db \<Rightarrow> ai_error option" where
  "validateAndLockSnapshot hex_sha256 s db =
     (let p = sn_Provider s; mdl = rc_Model p; pm = rc_Prompt p
      in if rc_ProviderID p = uuid_Nil \<or> rc_BaseURL p = None \<or> mv_ID mdl = uuid_Nil \<or> pv_ID pm = uuid_Nil \<or> length (sn_PromptSHA256 s) \<noteq> 64
         then Some ErrAIDisabled
         else case find (\<lambda>x. mv_ID (md_view x) = mv_ID mdl) (ai_models db) of
           None \<Rightarrow> Some ErrAIDisabled
         | Some row \<Rightarrow>
             if mv_ProviderID (md_view row) \<noteq> rc_ProviderID p \<or> mv_UpstreamModelID (md_view row) \<noteq> mv_UpstreamModelID mdl \<or>
                mv_Modality (md_view row) \<noteq> mv_Modality mdl \<or> mv_ContextTokens (md_view row) \<noteq> mv_ContextTokens mdl \<or>
                mv_MaxOutputTokens (md_view row) \<noteq> mv_MaxOutputTokens mdl \<or> mv_ImageQuotaTokens (md_view row) \<noteq> mv_ImageQuotaTokens mdl \<or>
                mv_InputPriceMicroUSD (md_view row) \<noteq> mv_InputPriceMicroUSD mdl \<or> mv_OutputPriceMicroUSD (md_view row) \<noteq> mv_OutputPriceMicroUSD mdl \<or>
                mv_Enabled (md_view row) \<noteq> mv_Enabled mdl \<or> \<not> mv_Enabled (md_view row) \<or>
                mv_QuotaBlockedAt (md_view row) \<noteq> None \<or> mv_QuotaBlockedAt mdl \<noteq> None \<or> md_timeouts_ms row \<noteq> timeouts_ms (rc_Timeouts p)
             then Some ErrAIDisabled
             else case find (\<lambda>x. pr_id x = rc_ProviderID p) (ai_providers db) of
               None \<Rightarrow> Some ErrAIDisabled
             | Some prov \<Rightarrow>
                 if \<not> pr_active prov \<or> Some (pr_base_url prov) \<noteq> rc_BaseURL p \<or> pr_protocol_mode prov \<noteq> rc_ProtocolMode p \<or>
                    pr_key_version prov \<noteq> rc_KeyVersion p
                 then Some ErrAIDisabled
                 else case find (\<lambda>x. pv_ID x = pv_ID pm) (prompt_templates db) of
                   None \<Rightarrow> Some ErrAIDisabled
                 | Some t \<Rightarrow>
                     if \<not> pv_Active t \<or> pv_Subject t \<noteq> pv_Subject pm \<or> pv_Version t \<noteq> pv_Version pm \<or>
                        hex_sha256 (pv_Body t) \<noteq> sn_PromptSHA256 s \<or> sn_PromptSHA256 s \<noteq> hex_sha256 (pv_Body pm)
                     then Some ErrAIDisabled else None)"

definition validateActiveStudent :: "uuid \<Rightarrow> ai_db \<Rightarrow> ai_error option" where
  "validateActiveStudent student db =
     (if list_ex (\<lambda>u. u_ID u = student \<and> u_Role u = RoleStudent \<and> u_Status u = StatusActive) (ai_users db)
      then None else Some ErrAINotFound)"

section \<open>Writing\<close>

definition active_run :: "ai_run \<Rightarrow> bool" where
  "active_run r \<longleftrightarrow> ar_status r = RunQueued \<or> ar_status r = RunStreaming"

definition new_run ::
  "uuid \<Rightarrow> uuid \<Rightarrow> uuid \<Rightarrow> uuid \<Rightarrow> int \<Rightarrow> string \<Rightarrow> RuntimeSnapshot \<Rightarrow> QuotaReservation \<Rightarrow> time \<Rightarrow> ai_run" where
  "new_run i student thread message attempt key snapshot r now =
     \<lparr>ar_id = i, ar_thread_id = thread, ar_student_id = student, ar_trigger_message_id = message, ar_attempt_no = attempt,
      ar_idempotency_key = key, ar_status = RunQueued, ar_snapshot = snapshot, ar_reserved_requests = qr_RequestCount r,
      ar_reserved_tokens = qr_TokenCount r, ar_day_key = qr_DayKey r, ar_month_key = qr_MonthKey r, ar_lease_owner = None,
      ar_lease_expires_at = None, ar_heartbeat_at = None, ar_cancel_requested_at = None, ar_usage = None, ar_usage_source = None,
      ar_finish_reason = None, ar_error_code = None, ar_first_byte_ms = None, ar_total_ms = None, ar_last_sequence = 0,
      ar_created_at = now, ar_updated_at = now, ar_started_at = None, ar_completed_at = None\<rparr>"

text \<open>The unique indexes of \<^verbatim>\<open>ai_runs\<close>: identifier, idempotency key per student, attempt per message,
  and one active run per student, whose violation \<^verbatim>\<open>runtimeDBError\<close> names.\<close>

definition insertRun :: "ai_run \<Rightarrow> ai_db \<Rightarrow> ai_error + ai_db" where
  "insertRun r db =
     (if list_ex (\<lambda>x. ar_id x = ar_id r) (ai_runs db) then Inl ErrAIDriver
      else if list_ex (\<lambda>x. ar_student_id x = ar_student_id r \<and> ar_idempotency_key x = ar_idempotency_key r) (ai_runs db) then Inl ErrRunConflict
      else if list_ex (\<lambda>x. ar_trigger_message_id x = ar_trigger_message_id r \<and> ar_attempt_no x = ar_attempt_no r) (ai_runs db) then Inl ErrAIDriver
      else if list_ex (\<lambda>x. active_run x \<and> ar_student_id x = ar_student_id r) (ai_runs db) then Inl ErrAIBusy
      else Inr (db\<lparr>ai_runs := ai_runs db @ [r]\<rparr>))"

definition ledger_row_for :: "ai_run \<Rightarrow> ledger_action \<Rightarrow> period_kind \<Rightarrow> int \<Rightarrow> int \<Rightarrow> time \<Rightarrow> ledger_row" where
  "ledger_row_for r act kind requests tokens now =
     \<lparr>lg_student_id = ar_student_id r, lg_run_id = ar_id r, lg_action = act, lg_period_kind = kind,
      lg_period_key = (case kind of Day \<Rightarrow> ar_day_key r | Month \<Rightarrow> ar_month_key r), lg_request_delta = requests, lg_token_delta = tokens, lg_created_at = now\<rparr>"

definition same_entry :: "ledger_row \<Rightarrow> ledger_row \<Rightarrow> bool" where
  "same_entry l k \<longleftrightarrow> lg_run_id l = lg_run_id k \<and> lg_period_kind l = lg_period_kind k \<and> lg_action l = lg_action k"

text \<open>\<^verbatim>\<open>INSERT INTO ai_usage_ledger\<close> fails on a second entry; \<^verbatim>\<open>ON CONFLICT DO NOTHING\<close> skips it.\<close>

definition insertReserveRows :: "ai_run \<Rightarrow> time \<Rightarrow> ai_db \<Rightarrow> ai_error + ai_db" where
  "insertReserveRows r now db =
     (let rows = map (\<lambda>k. ledger_row_for r Reserve k (ar_reserved_requests r) (ar_reserved_tokens r) now) [Day, Month]
      in if list_ex (\<lambda>l. list_ex (same_entry l) (ai_usage_ledger db)) rows then Inl ErrAIDriver
         else Inr (db\<lparr>ai_usage_ledger := ai_usage_ledger db @ rows\<rparr>))"

definition insert_ignore :: "ledger_row \<Rightarrow> ledger_row list \<Rightarrow> ledger_row list" where
  "insert_ignore l rows = (if list_ex (same_entry l) rows then rows else rows @ [l])"

definition settle_rows :: "ai_run \<Rightarrow> int option \<Rightarrow> time \<Rightarrow> ledger_row list" where
  "settle_rows r charged now = concat (map (\<lambda>k.
     (case charged of None \<Rightarrow> [] | Some c \<Rightarrow> [ledger_row_for r Settle k (ar_reserved_requests r) c now]) @
     [ledger_row_for r Release k (- ar_reserved_requests r) (- ar_reserved_tokens r) now]) [Day, Month])"

text \<open>\<open>charged\<close> is the settled token count of a success, nothing for a failure.\<close>

definition settleRunnerQuota :: "ai_run \<Rightarrow> int option \<Rightarrow> time \<Rightarrow> ai_db \<Rightarrow> ai_db" where
  "settleRunnerQuota r charged now db = db\<lparr>ai_usage_ledger := fold insert_ignore (settle_rows r charged now) (ai_usage_ledger db)\<rparr>"

definition insert_message :: "ai_message \<Rightarrow> ai_db \<Rightarrow> ai_error + ai_db" where
  "insert_message m db =
     (if list_ex (\<lambda>x. mg_ID x = mg_ID m) (ai_messages db) then Inl ErrAIDriver
      else if mg_Key m \<noteq> None \<and> list_ex (\<lambda>x. mg_Sender x = mg_Sender m \<and> mg_Key x = mg_Key m) (ai_messages db) then Inl ErrRunConflict
      else Inr (db\<lparr>ai_messages := ai_messages db @ [m]\<rparr>))"

text \<open>\<open>attachable\<close> is the answer of the insert trigger: a ready AI file owned by the student.\<close>

fun insert_files :: "(uuid \<Rightarrow> bool) \<Rightarrow> uuid \<Rightarrow> nat \<Rightarrow> AttachmentMetadata list \<Rightarrow> ai_db \<Rightarrow> ai_error + ai_db" where
  "insert_files attachable message n [] db = Inr db"
| "insert_files attachable message n (a # rest) db =
     (if \<not> attachable (am_FileVersionID a) \<or> list_ex (\<lambda>f. mf_file_version_id f = am_FileVersionID a) (ai_message_files db) then Inl ErrAIDriver
      else insert_files attachable message (Suc n) rest
        (db\<lparr>ai_message_files := ai_message_files db @ [\<lparr>mf_message_id = message, mf_file_version_id = am_FileVersionID a,
           mf_sort_position = n, mf_display_name = am_DisplayName a\<rparr>]\<rparr>))"

definition insert_event :: "uuid \<Rightarrow> int \<Rightarrow> string \<Rightarrow> string \<Rightarrow> string option \<Rightarrow> time \<Rightarrow> ai_db \<Rightarrow> ai_db" where
  "insert_event i seq kind payload code now db = db\<lparr>ai_run_events := ai_run_events db @
     [\<lparr>re_run_id = i, re_sequence = seq, re_kind = kind, re_payload = payload, re_error_code = code, re_created_at = now\<rparr>]\<rparr>"

definition update_run :: "uuid \<Rightarrow> (ai_run \<Rightarrow> ai_run) \<Rightarrow> ai_db \<Rightarrow> ai_db" where
  "update_run i f db = db\<lparr>ai_runs := update_where (\<lambda>r. ar_id r = i) f (ai_runs db)\<rparr>"

section \<open>Admission\<close>

definition replay_admission :: "RuntimeAdmission \<Rightarrow> ai_run \<Rightarrow> ai_db \<Rightarrow> ai_error + ((ThreadDetail \<times> ai_run) \<times> ai_db)" where
  "replay_admission i run db =
     (case getThreadTx (ra_StudentID i) (ar_thread_id run) no_cursor db of
        Inl e \<Rightarrow> Inl e
      | Inr detail \<Rightarrow>
          (let sameThread = ((\<not> ra_CreateThread i \<and> ar_thread_id run = ra_ThreadID i) \<or>
                 (ra_CreateThread i \<and> th_Title (td_Thread detail) = ra_ThreadTitle i \<and> th_Subject (td_Thread detail) = ra_Subject i))
           in if \<not> sameThread \<or> message_body (ar_trigger_message_id run) db \<noteq> ra_MessageBody i \<or>
                 \<not> sameMetadataBindings (ra_Attachments i) (loadMessageAttachments (ar_trigger_message_id run) db)
              then Inl ErrRunConflict else Inr ((detail, run), db)))"

definition student_message :: "RuntimeAdmission \<Rightarrow> ai_message" where
  "student_message i = \<lparr>mg_ID = ra_MessageID i, mg_ThreadID = ra_ThreadID i, mg_Role = ''student'', mg_Sender = Some (ra_StudentID i),
     mg_Body = ra_MessageBody i, mg_RunID = None, mg_Key = Some (ra_IdempotencyKey i), mg_CreatedAt = ra_Now i\<rparr>"

definition insert_thread :: "RuntimeAdmission \<Rightarrow> ai_db \<Rightarrow> ai_error + ai_db" where
  "insert_thread i db =
     (if \<not> ra_CreateThread i then Inr db
      else if list_ex (\<lambda>t. th_ID t = ra_ThreadID i) (ai_threads db) then Inl ErrAIDriver
      else Inr (db\<lparr>ai_threads := ai_threads db @ [\<lparr>th_ID = ra_ThreadID i, th_StudentID = ra_StudentID i, th_Title = ra_ThreadTitle i,
             th_Subject = ra_Subject i, th_LastMessageAt = ra_Now i, th_CreatedAt = ra_Now i\<rparr>]\<rparr>))"

definition admitted_run :: "uuid \<Rightarrow> RuntimeAdmission \<Rightarrow> ai_run" where
  "admitted_run newRun i = new_run newRun (ra_StudentID i) (ra_ThreadID i) (ra_MessageID i) (ra_AttemptNo i) (ra_IdempotencyKey i)
     (ra_Snapshot i) (ra_Reservation i) (ra_Now i)"

definition admit_new :: "(uuid \<Rightarrow> bool) \<Rightarrow> uuid \<Rightarrow> RuntimeAdmission \<Rightarrow> ai_db \<Rightarrow> ai_error + ((ThreadDetail \<times> ai_run) \<times> ai_db)" where
  "admit_new attachable newRun i db =
     (case insert_thread i db of Inl e \<Rightarrow> Inl e | Inr db1 \<Rightarrow>
      case insert_message (student_message i) db1 of Inl e \<Rightarrow> Inl e | Inr db2 \<Rightarrow>
      case insert_files attachable (ra_MessageID i) 0 (ra_Attachments i) db2 of Inl e \<Rightarrow> Inl e | Inr db3 \<Rightarrow>
      case insertRun (admitted_run newRun i) db3 of Inl e \<Rightarrow> Inl e | Inr db4 \<Rightarrow>
      case insertReserveRows (admitted_run newRun i) (ra_Now i) db4 of Inl e \<Rightarrow> Inl e | Inr db5 \<Rightarrow>
        (let db6 = db5\<lparr>ai_threads := update_where (\<lambda>t. th_ID t = ra_ThreadID i \<and> th_StudentID t = ra_StudentID i)
               (th_LastMessageAt_update (\<lambda>_. ra_Now i)) (ai_threads db5)\<rparr>
         in case getThreadTx (ra_StudentID i) (ra_ThreadID i) no_cursor db6 of
              Inl e \<Rightarrow> Inl e
            | Inr detail \<Rightarrow> Inr ((detail, admitted_run newRun i), db6)))"

definition AdmitRun ::
  "(string \<Rightarrow> string) \<Rightarrow> (uuid \<Rightarrow> bool) \<Rightarrow> bool \<Rightarrow> uuid \<Rightarrow> RuntimeAdmission \<Rightarrow> ai_db \<Rightarrow> (ai_error + (ThreadDetail \<times> ai_run)) \<times> ai_db" where
  "AdmitRun hex_sha256 attachable fault newRun i db =
     (if \<not> validAdmission i then (Inl ErrAIInvalid, db)
      else transact fault ErrAIDriver (\<lambda>db.
        case findRunByKey (ra_StudentID i) (ra_IdempotencyKey i) db of
          Some run \<Rightarrow> replay_admission i run db
        | None \<Rightarrow>
            case validateActiveStudent (ra_StudentID i) db of Some e \<Rightarrow> Inl e | None \<Rightarrow>
            if \<not> ra_CreateThread i \<and> \<not> list_ex (\<lambda>t. th_ID t = ra_ThreadID i \<and> th_StudentID t = ra_StudentID i \<and> th_Subject t = ra_Subject i) (ai_threads db)
            then Inl ErrAINotFound
            else case validateAndLockSnapshot hex_sha256 (ra_Snapshot i) db of Some e \<Rightarrow> Inl e | None \<Rightarrow>
            case reserveQuota (ra_StudentID i) (ra_Reservation i) db of Some e \<Rightarrow> Inl e | None \<Rightarrow>
            admit_new attachable newRun i db) db)"

definition next_attempt :: "uuid \<Rightarrow> ai_db \<Rightarrow> int" where
  "next_attempt message db = fold max (map ar_attempt_no (filter (\<lambda>r. ar_trigger_message_id r = message) (ai_runs db))) 0 + 1"

definition retried_run :: "RuntimeRetryAdmission \<Rightarrow> ai_run \<Rightarrow> ai_db \<Rightarrow> ai_run" where
  "retried_run i source db = new_run (rr_RunID i) (rr_StudentID i) (ar_thread_id source) (ar_trigger_message_id source)
     (next_attempt (ar_trigger_message_id source) db) (rr_IdempotencyKey i) (rr_Snapshot i) (rr_Reservation i) (rr_Now i)"

definition retry_new :: "RuntimeRetryAdmission \<Rightarrow> ai_run \<Rightarrow> ai_db \<Rightarrow> ai_error + ((ThreadDetail \<times> ai_run) \<times> ai_db)" where
  "retry_new i source db =
     (case insertRun (retried_run i source db) db of Inl e \<Rightarrow> Inl e | Inr db1 \<Rightarrow>
      case insertReserveRows (retried_run i source db) (rr_Now i) db1 of Inl e \<Rightarrow> Inl e | Inr db2 \<Rightarrow>
      case getThreadTx (rr_StudentID i) (ar_thread_id source) no_cursor db2 of
        Inl e \<Rightarrow> Inl e
      | Inr detail \<Rightarrow> Inr ((detail, retried_run i source db), db2))"

definition RetryRun ::
  "(string \<Rightarrow> string) \<Rightarrow> bool \<Rightarrow> RuntimeRetryAdmission \<Rightarrow> ai_db \<Rightarrow> (ai_error + (ThreadDetail \<times> ai_run)) \<times> ai_db" where
  "RetryRun hex_sha256 fault i db =
     (if rr_StudentID i = uuid_Nil \<or> rr_SourceRunID i = uuid_Nil \<or> rr_RunID i = uuid_Nil \<or> \<not> validIdempotency (rr_IdempotencyKey i)
      then (Inl ErrAIInvalid, db)
      else transact fault ErrAIDriver (\<lambda>db.
        case run_of (rr_StudentID i) (rr_SourceRunID i) db of
          None \<Rightarrow> Inl ErrAINotFound
        | Some source \<Rightarrow>
            if ar_status source \<noteq> RunFailed \<and> ar_status source \<noteq> RunCancelled then Inl ErrRunConflict
            else case findRunByKey (rr_StudentID i) (rr_IdempotencyKey i) db of
              Some run \<Rightarrow>
                if ar_trigger_message_id run \<noteq> ar_trigger_message_id source then Inl ErrRunConflict
                else (case getThreadTx (rr_StudentID i) (ar_thread_id run) no_cursor db of Inl e \<Rightarrow> Inl e | Inr detail \<Rightarrow> Inr ((detail, run), db))
            | None \<Rightarrow>
                case validateAndLockSnapshot hex_sha256 (rr_Snapshot i) db of Some e \<Rightarrow> Inl e | None \<Rightarrow>
                case reserveQuota (rr_StudentID i) (rr_Reservation i) db of Some e \<Rightarrow> Inl e | None \<Rightarrow>
                retry_new i source db) db)"

section \<open>Ending a run\<close>

definition finish_run :: "RunStatus \<Rightarrow> string option \<Rightarrow> (int \<times> int \<times> int) option \<Rightarrow> string \<Rightarrow> int \<Rightarrow> time \<Rightarrow> ai_run \<Rightarrow> ai_run" where
  "finish_run st code usage source seq now r = r\<lparr>ar_status := st, ar_lease_owner := None, ar_lease_expires_at := None,
     ar_heartbeat_at := None, ar_completed_at := Some now, ar_updated_at := now, ar_usage := usage, ar_usage_source := Some source,
     ar_error_code := code, ar_last_sequence := seq\<rparr>"

definition status_text :: "RunStatus \<Rightarrow> string" where
  "status_text s = (case s of RunQueued \<Rightarrow> ''queued'' | RunStreaming \<Rightarrow> ''streaming'' | RunSucceeded \<Rightarrow> ''succeeded''
     | RunFailed \<Rightarrow> ''failed'' | RunCancelled \<Rightarrow> ''cancelled'')"

text \<open>A failed or cancelled run: a last event, the status, and the reservation given back.\<close>

definition end_run :: "RunStatus \<Rightarrow> string \<Rightarrow> (int \<times> int \<times> int) option \<Rightarrow> string \<Rightarrow> int option \<Rightarrow> time \<Rightarrow> ai_run \<Rightarrow> ai_db \<Rightarrow> ai_db" where
  "end_run st code usage source total_ms now r db =
     settleRunnerQuota r None now
       (update_run (ar_id r) (\<lambda>r. (finish_run st (Some code) usage source (ar_last_sequence r + 1) now r)\<lparr>ar_total_ms := total_ms\<rparr>)
         (insert_event (ar_id r) (ar_last_sequence r + 1) (status_text st) [] (Some code) now db))"

definition releaseTerminal :: "bool \<Rightarrow> uuid \<Rightarrow> uuid \<Rightarrow> RunStatus \<Rightarrow> string \<Rightarrow> time \<Rightarrow> ai_db \<Rightarrow> (ai_error + ai_run option) \<times> ai_db" where
  "releaseTerminal fault student i target code now = transact fault ErrAIDriver (\<lambda>db.
     case run_of student i db of
       None \<Rightarrow> Inl ErrAINotFound
     | Some r \<Rightarrow>
         if ar_status r = target then Inr (Some r, db)
         else if ar_status r = RunSucceeded \<or> ar_status r = RunFailed \<or> ar_status r = RunCancelled then Inl ErrRunConflict
         else if target = RunCancelled \<and> ar_status r = RunStreaming
         then (let db1 = update_run i (\<lambda>r. r\<lparr>ar_cancel_requested_at := Some (case ar_cancel_requested_at r of None \<Rightarrow> now | Some t \<Rightarrow> t),
                     ar_updated_at := now\<rparr>) db
               in Inr (run_of student i db1, db1))
         else (let db1 = end_run target code None ''unknown'' (ar_total_ms r) now r db
               in Inr (run_of student i db1, db1)))"

definition CancelRun :: "bool \<Rightarrow> uuid \<Rightarrow> uuid \<Rightarrow> time \<Rightarrow> ai_db \<Rightarrow> (ai_error + ai_run option) \<times> ai_db" where
  "CancelRun fault student i now = releaseTerminal fault student i RunCancelled ''cancelled'' now"

definition FailRun :: "bool \<Rightarrow> uuid \<Rightarrow> uuid \<Rightarrow> string \<Rightarrow> time \<Rightarrow> ai_db \<Rightarrow> (ai_error + ai_run option) \<times> ai_db" where
  "FailRun fault student i code now = releaseTerminal fault student i RunFailed (if code = [] then ''run_failed'' else code) now"

definition block_model :: "uuid \<Rightarrow> time \<Rightarrow> ai_db \<Rightarrow> ai_db" where
  "block_model i now db = db\<lparr>ai_models := update_where (\<lambda>x. mv_ID (md_view x) = i \<and> mv_QuotaBlockedAt (md_view x) = None)
     (\<lambda>x. x\<lparr>md_view := (md_view x)\<lparr>mv_QuotaBlockedAt := Some now\<rparr>, md_block_reason := Some ''quota_estimation_anomaly'',
       md_version := md_version x + 1\<rparr>) (ai_models db)\<rparr>"

definition assistant_message :: "uuid \<Rightarrow> ai_run \<Rightarrow> string \<Rightarrow> time \<Rightarrow> ai_message" where
  "assistant_message i r body now = \<lparr>mg_ID = i, mg_ThreadID = ar_thread_id r, mg_Role = ''assistant'', mg_Sender = None, mg_Body = body,
     mg_RunID = Some (ar_id r), mg_Key = None, mg_CreatedAt = now\<rparr>"

definition nilIfEmpty :: "string \<Rightarrow> string option" where
  "nilIfEmpty v = (if v = [] then None else Some v)"

text \<open>Charging: at most the reservation; a run that used more blocks its model.\<close>

definition charge :: "int \<Rightarrow> ai_run \<Rightarrow> int" where
  "charge actual r = min actual (ar_reserved_tokens r)"

definition block_if_exceeded :: "int \<Rightarrow> ai_run \<Rightarrow> time \<Rightarrow> ai_db \<Rightarrow> ai_db" where
  "block_if_exceeded actual r now db =
     (if actual > ar_reserved_tokens r then block_model (mv_ID (rc_Model (sn_Provider (ar_snapshot r)))) now db else db)"

definition valid_usage :: "TerminalUsage \<Rightarrow> bool" where
  "valid_usage u \<longleftrightarrow> tu_InputTokens u \<ge> 0 \<and> tu_OutputTokens u \<ge> 0 \<and> tu_CostMicroUSD u \<ge> 0 \<and>
     (tu_UsageSource u = ''upstream'' \<or> tu_UsageSource u = ''estimated'')"

definition SucceedRun :: "bool \<Rightarrow> uuid \<Rightarrow> uuid \<Rightarrow> uuid \<Rightarrow> string \<Rightarrow> TerminalUsage \<Rightarrow> time \<Rightarrow> ai_db \<Rightarrow> (ai_error + ai_run option) \<times> ai_db" where
  "SucceedRun fault newMessage student i body u now db =
     (if \<not> validBody body \<or> \<not> valid_usage u then (Inl ErrAIInvalid, db)
      else transact fault ErrAIDriver (\<lambda>db.
        case run_of student i db of
          None \<Rightarrow> Inl ErrAINotFound
        | Some r \<Rightarrow>
            if ar_status r = RunSucceeded then Inr (Some r, db)
            else if ar_status r \<noteq> RunStreaming then Inl ErrRunConflict
            else (let actual = int64 (tu_InputTokens u + tu_OutputTokens u);
                      db1 = update_run i (\<lambda>r. (finish_run RunSucceeded None (Some (tu_InputTokens u, tu_OutputTokens u, tu_CostMicroUSD u))
                              (tu_UsageSource u) (ar_last_sequence r) now r)\<lparr>ar_finish_reason := nilIfEmpty (tu_FinishReason u)\<rparr>)
                              (block_if_exceeded actual r now db)
                  in case insert_message (assistant_message newMessage r body now) db1 of
                       Inl e \<Rightarrow> Inl e
                     | Inr db2 \<Rightarrow> (let db3 = settleRunnerQuota r (Some (charge actual r)) now db2 in Inr (run_of student i db3, db3)))) db)"

section \<open>Leasing\<close>

definition leased_by :: "uuid \<Rightarrow> string \<Rightarrow> ai_run \<Rightarrow> bool" where
  "leased_by i owner r \<longleftrightarrow> ar_id r = i \<and> ar_status r = RunStreaming \<and> ar_lease_owner r = Some owner"

record LeasedRun =
  lr_Run :: ai_run
  lr_LeaseOwner :: string
  lr_SystemPrompt :: string
  lr_Turns :: "GatewayContextTurn list"
  lr_Images :: nat

definition rotated :: "ai_db \<Rightarrow> ai_run \<Rightarrow> bool" where
  "rotated db r \<longleftrightarrow> ar_status r = RunQueued \<and>
     list_ex (\<lambda>p. pr_id p = rc_ProviderID (sn_Provider (ar_snapshot r)) \<and> pr_key_version p \<noteq> rc_KeyVersion (sn_Provider (ar_snapshot r))) (ai_providers db)"

definition oldest_run :: "(uuid \<Rightarrow> bool) \<Rightarrow> (ai_run \<Rightarrow> bool) \<Rightarrow> ai_db \<Rightarrow> ai_run option" where
  "oldest_run busy p db = (case filter (\<lambda>r. \<not> busy (ar_id r)) (sort_key (\<lambda>r. (ar_created_at r, ar_id r)) (filter p (ai_runs db))) of
     [] \<Rightarrow> None | r # _ \<Rightarrow> Some r)"

text \<open>Fails the oldest queued run whose provider key was replaced; nothing if there is none.\<close>

definition failQueuedRunWithRotatedKey :: "(uuid \<Rightarrow> bool) \<Rightarrow> time \<Rightarrow> ai_db \<Rightarrow> ai_db option" where
  "failQueuedRunWithRotatedKey busy now db =
     map_option (\<lambda>r. end_run RunFailed ''provider_key_rotated'' None ''unknown'' (ar_total_ms r) now r db) (oldest_run busy (rotated db) db)"

definition claim_run :: "string \<Rightarrow> time \<Rightarrow> duration \<Rightarrow> ai_run \<Rightarrow> ai_run" where
  "claim_run owner now dur r = r\<lparr>ar_status := RunStreaming, ar_lease_owner := Some owner, ar_lease_expires_at := Some (now + dur),
     ar_heartbeat_at := Some now, ar_started_at := Some now, ar_updated_at := now\<rparr>"

text \<open>What the lease transaction reads besides the run: the stored URL must still be absolute
  (\<open>url_ok\<close>), the provider key and the prompt unchanged, and the triggering message present.\<close>

definition lease_inputs :: "(string \<Rightarrow> string) \<Rightarrow> (string \<Rightarrow> bool) \<Rightarrow> ai_run \<Rightarrow> ai_db \<Rightarrow> ai_error + (string \<times> string \<times> ai_message list)" where
  "lease_inputs hex_sha256 url_ok r db =
     (let p = sn_Provider (ar_snapshot r)
      in if \<not> (case rc_BaseURL p of None \<Rightarrow> False | Some u \<Rightarrow> url_ok u) then Inl ErrProviderUnavailable
         else if \<not> list_ex (\<lambda>x. pr_id x = rc_ProviderID p \<and> pr_key_version x = rc_KeyVersion p) (ai_providers db) then Inl ErrProviderUnavailable
         else case find (\<lambda>t. pv_ID t = pv_ID (rc_Prompt p) \<and> pv_Subject t = pv_Subject (rc_Prompt p) \<and> pv_Version t = pv_Version (rc_Prompt p) \<and>
                   hex_sha256 (pv_Body t) = sn_PromptSHA256 (ar_snapshot r)) (prompt_templates db) of
           None \<Rightarrow> Inl ErrProviderUnavailable
         | Some t \<Rightarrow>
             case find (\<lambda>m. mg_ID m = ar_trigger_message_id r \<and> mg_ThreadID m = ar_thread_id r) (ai_messages db) of
               None \<Rightarrow> Inl ErrAIDriver
             | Some trigger \<Rightarrow>
                 Inr (pv_Body t, mg_Body trigger,
                   sort_key message_order (filter (\<lambda>m. mg_ThreadID m = ar_thread_id r \<and> message_order m < message_order trigger) (ai_messages db))))"

definition lease_tx ::
  "(string \<Rightarrow> string) \<Rightarrow> (string \<Rightarrow> bool) \<Rightarrow> bool \<Rightarrow> admission \<Rightarrow> (uuid \<Rightarrow> bool) \<Rightarrow> string \<Rightarrow> time \<Rightarrow> duration \<Rightarrow> ai_db
     \<Rightarrow> (ai_error + (ai_run \<times> string \<times> string \<times> ai_message list)) \<times> ai_db" where
  "lease_tx hex_sha256 url_ok fault adm busy owner now dur db =
     (if owner = [] \<or> length owner > 128 \<or> dur \<le> 0 then (Inl ErrAIInvalid, db)
      else if fault then (Inl ErrAIDriver, db)
      else case AdmitClaim adm of
        Some ErrLeaseHeld \<Rightarrow> (Inl ErrNoRunnableRun, db)
      | Some _ \<Rightarrow> (Inl ErrAIDriver, db)
      | None \<Rightarrow>
          case failQueuedRunWithRotatedKey busy now db of
            Some db1 \<Rightarrow> (Inl ErrNoRunnableRun, db1)
          | None \<Rightarrow>
              case oldest_run busy (\<lambda>r. ar_status r = RunQueued) db of
                None \<Rightarrow> (Inl ErrNoRunnableRun, db)
              | Some r \<Rightarrow>
                  (let db1 = update_run (ar_id r) (claim_run owner now dur) db
                   in case lease_inputs hex_sha256 url_ok r db1 of
                        Inl e \<Rightarrow> (Inl e, db)
                      | Inr (prompt, trigger, history) \<Rightarrow> (Inr (claim_run owner now dur r, prompt, trigger, history), db1)))"

definition Heartbeat_run :: "bool \<Rightarrow> time \<Rightarrow> uuid \<Rightarrow> string \<Rightarrow> time \<Rightarrow> ai_db \<Rightarrow> ai_error option \<times> ai_db" where
  "Heartbeat_run fault dbnow i owner until db =
     (if i = uuid_Nil \<or> owner = [] then (Some ErrAIInvalid, db)
      else if fault then (Some ErrAIDriver, db)
      else case find (leased_by i owner) (ai_runs db) of
        None \<Rightarrow> (Some ErrRunnerLeaseLost, db)
      | Some r \<Rightarrow>
          (if ar_cancel_requested_at r \<noteq> None then Some ErrCancelRequested else None,
           db\<lparr>ai_runs := update_where (leased_by i owner) (\<lambda>r. r\<lparr>ar_heartbeat_at := Some dbnow, ar_lease_expires_at := Some until, ar_updated_at := dbnow\<rparr>) (ai_runs db)\<rparr>))"

section \<open>Events, completion, failure\<close>

record RunEvent =
  ev_Sequence :: int
  ev_Kind :: string
  ev_Delta :: string
  ev_CreatedAt_run :: time

definition MaxGatewayEventBytes :: int where "MaxGatewayEventBytes = 16384"

fun append_events :: "time \<Rightarrow> uuid \<Rightarrow> int \<Rightarrow> RunEvent list \<Rightarrow> ai_db \<Rightarrow> ai_error + (int \<times> ai_db)" where
  "append_events now i seq [] db = Inr (seq, db)"
| "append_events now i seq (e # es) db =
     (if ev_Sequence e \<noteq> seq + 1 \<or> (ev_Kind e \<noteq> ''delta'' \<and> ev_Kind e \<noteq> ''usage'') \<or> int (length (ev_Delta e)) > MaxGatewayEventBytes
      then Inl ErrAIInvalid
      else append_events now i (ev_Sequence e) es (insert_event i (ev_Sequence e) (ev_Kind e) (ev_Delta e) None
             (if ev_CreatedAt_run e = time_zero then now else ev_CreatedAt_run e) db))"

text \<open>A requested cancellation is reported after the events have been committed.\<close>

definition AppendEvents :: "bool \<Rightarrow> time \<Rightarrow> uuid \<Rightarrow> string \<Rightarrow> RunEvent list \<Rightarrow> ai_db \<Rightarrow> ai_error option \<times> ai_db" where
  "AppendEvents fault dbnow i owner es db =
     (if i = uuid_Nil \<or> owner = [] \<or> es = [] then (Some ErrAIInvalid, db)
      else if fault then (Some ErrAIDriver, db)
      else case find (leased_by i owner) (ai_runs db) of
        None \<Rightarrow> (Some ErrRunnerLeaseLost, db)
      | Some r \<Rightarrow>
          case append_events dbnow i (ar_last_sequence r) es db of
            Inl e \<Rightarrow> (Some e, db)
          | Inr (seq, db1) \<Rightarrow>
              (if ar_cancel_requested_at r \<noteq> None then Some ErrCancelRequested else None,
               update_run i (\<lambda>r. r\<lparr>ar_last_sequence := seq, ar_updated_at := dbnow\<rparr>) db1))"

record Completion =
  cp_Answer :: string
  cp_InputTokens :: int
  cp_OutputTokens :: int
  cp_CostMicroUSD :: int
  cp_UsageSource :: string
  cp_FinishReason :: string
  cp_FirstByteMS :: int
  cp_TotalMS :: int

definition Complete_run :: "bool \<Rightarrow> uuid \<Rightarrow> time \<Rightarrow> uuid \<Rightarrow> string \<Rightarrow> Completion \<Rightarrow> ai_db \<Rightarrow> (ai_error + unit) \<times> ai_db" where
  "Complete_run fault newMessage now i owner c db =
     (if i = uuid_Nil \<or> owner = [] \<or> \<not> validBody (cp_Answer c) \<or> cp_InputTokens c < 0 \<or> cp_OutputTokens c < 0 \<or> cp_CostMicroUSD c < 0 \<or>
         (cp_UsageSource c \<noteq> ''upstream'' \<and> cp_UsageSource c \<noteq> ''estimated'')
      then (Inl ErrAIInvalid, db)
      else transact fault ErrAIDriver (\<lambda>db.
        case find (leased_by i owner) (ai_runs db) of
          None \<Rightarrow> Inl ErrRunnerLeaseLost
        | Some r \<Rightarrow>
            if ar_cancel_requested_at r \<noteq> None then Inl ErrCancelRequested
            else (let actual = add_saturating (cp_InputTokens c) (cp_OutputTokens c); seq = ar_last_sequence r + 1;
                      db1 = insert_event i seq ''completed'' [] None now (block_if_exceeded actual r now db);
                      db2 = update_run i (\<lambda>r. (finish_run RunSucceeded None (Some (cp_InputTokens c, cp_OutputTokens c, cp_CostMicroUSD c))
                              (cp_UsageSource c) seq now r)\<lparr>ar_finish_reason := nilIfEmpty (cp_FinishReason c),
                                ar_first_byte_ms := Some (cp_FirstByteMS c), ar_total_ms := Some (cp_TotalMS c)\<rparr>) db1
                  in case insert_message (assistant_message newMessage r (cp_Answer c) now) db2 of
                       Inl e \<Rightarrow> Inl e
                     | Inr db3 \<Rightarrow> Inr ((), settleRunnerQuota r (Some (charge actual r)) now db3))) db)"

record RunFailure =
  fa_Status :: RunStatus
  fa_ErrorCode :: string
  fa_UsageSource :: string
  fa_InputTokens :: int
  fa_OutputTokens :: int
  fa_CostMicroUSD :: int
  fa_TotalMS :: int

definition Fail_run :: "bool \<Rightarrow> time \<Rightarrow> uuid \<Rightarrow> string \<Rightarrow> RunFailure \<Rightarrow> ai_db \<Rightarrow> (ai_error + unit) \<times> ai_db" where
  "Fail_run fault now i owner f db =
     (if i = uuid_Nil \<or> owner = [] \<or> (fa_Status f \<noteq> RunFailed \<and> fa_Status f \<noteq> RunCancelled) \<or> fa_ErrorCode f = [] \<or>
         fa_InputTokens f < 0 \<or> fa_OutputTokens f < 0 \<or> fa_CostMicroUSD f < 0
      then (Inl ErrAIInvalid, db)
      else transact fault ErrAIDriver (\<lambda>db.
        case find (leased_by i owner) (ai_runs db) of
          None \<Rightarrow> Inl ErrRunnerLeaseLost
        | Some r \<Rightarrow>
            (let source = (if fa_UsageSource f = [] then ''unknown'' else fa_UsageSource f);
                 reported = (source = ''upstream'' \<or> source = ''estimated'')
             in if \<not> reported \<and> source \<noteq> ''unknown'' then Inl ErrAIInvalid
                else Inr ((), end_run (fa_Status f) (fa_ErrorCode f)
                  (if reported then Some (fa_InputTokens f, fa_OutputTokens f, fa_CostMicroUSD f) else None) source (Some (fa_TotalMS f)) now r db))) db)"

section \<open>Reconciliation\<close>

definition expired_run :: "time \<Rightarrow> ai_run \<Rightarrow> bool" where
  "expired_run now r \<longleftrightarrow> ar_status r = RunStreaming \<and> (case ar_lease_expires_at r of None \<Rightarrow> False | Some t \<Rightarrow> t < now)"

definition clear_stale_queued :: "time \<Rightarrow> ai_db \<Rightarrow> ai_db" where
  "clear_stale_queued now db = db\<lparr>ai_runs := update_where
     (\<lambda>r. ar_status r = RunQueued \<and> (case ar_lease_expires_at r of None \<Rightarrow> False | Some t \<Rightarrow> t < now))
     (\<lambda>r. r\<lparr>ar_lease_owner := None, ar_lease_expires_at := None, ar_heartbeat_at := None, ar_updated_at := now\<rparr>) (ai_runs db)\<rparr>"

definition lost_total_ms :: "time \<Rightarrow> ai_run \<Rightarrow> int option" where
  "lost_total_ms now r = map_option (\<lambda>t. max 0 ((now - t + 500000) div 1000000)) (ar_started_at r)"

text \<open>\<^verbatim>\<open>GREATEST(0,extract(epoch FROM ...)*1000)::bigint\<close> rounds to the nearest millisecond. The first row is read without a lock; a row that meanwhile is locked (\<open>busy\<close>) or no longer
  expired counts as found.\<close>

definition reconcileOneExpired :: "bool \<Rightarrow> (uuid \<Rightarrow> bool) \<Rightarrow> time \<Rightarrow> ai_db \<Rightarrow> (ai_error + bool) \<times> ai_db" where
  "reconcileOneExpired fault busy now = transact fault ErrAIDriver (\<lambda>db.
     case sort_key (\<lambda>r. (case ar_lease_expires_at r of None \<Rightarrow> 0 | Some t \<Rightarrow> t, ar_id r)) (filter (expired_run now) (ai_runs db)) of
       [] \<Rightarrow> Inr (False, db)
     | r # _ \<Rightarrow>
         if busy (ar_id r) then Inr (True, db)
         else Inr (True, end_run RunFailed ''runner_lost'' None ''unknown'' (lost_total_ms now r) now r db))"

fun reconcile_loop :: "(nat \<Rightarrow> bool) \<Rightarrow> (nat \<Rightarrow> uuid \<Rightarrow> bool) \<Rightarrow> time \<Rightarrow> nat \<Rightarrow> ai_db \<Rightarrow> ai_error option \<times> ai_db" where
  "reconcile_loop fault busy now 0 db = (None, db)"
| "reconcile_loop fault busy now (Suc n) db = (case reconcileOneExpired (fault n) (busy n) now db of
     (Inl e, db1) \<Rightarrow> (Some e, db1)
   | (Inr False, db1) \<Rightarrow> (None, db1)
   | (Inr True, db1) \<Rightarrow> reconcile_loop fault busy now n db1)"

definition ReconcileExpired :: "bool \<Rightarrow> (nat \<Rightarrow> bool) \<Rightarrow> (nat \<Rightarrow> uuid \<Rightarrow> bool) \<Rightarrow> time \<Rightarrow> int \<Rightarrow> ai_db \<Rightarrow> ai_error option \<times> ai_db" where
  "ReconcileExpired clear_fault fault busy now limit db =
     (if clear_fault then (Some ErrAIDriver, db)
      else reconcile_loop fault busy now (nat (if limit \<le> 0 then 100 else limit)) (clear_stale_queued now db))"

end
