(* ===== verification/AI_Attachments.thy ===== *)
theory AI_Attachments
  imports AI_Store
begin

text \<open>
  \<^verbatim>\<open>internal/aiqa/attachments.go\<close> and \<^verbatim>\<open>internal/aiqa/postgres_attachments.go\<close>: which uploaded
  files a question may carry, and the text that is extracted from them. The queries join users,
  files, versions and previews; their answer for a student and a version is an argument, one
  \<open>attachment_row\<close> when the version is an unpurged AI attachment of the active student.
  The object store is a function from keys to bytes, and the digest is an argument.

  The services that use attachments rely on the locale \<open>attachment_context\<close>.
\<close>

section \<open>Inputs\<close>

definition MaxAIAttachments :: nat where "MaxAIAttachments = 20"
definition MaxAttachmentTextBytes :: int where "MaxAttachmentTextBytes = 2097152"

record AttachmentInput =
  ai_FileVersionID :: uuid
  ai_SortPosition :: int

definition valid_attachment :: "AttachmentInput \<Rightarrow> bool" where
  "valid_attachment a \<longleftrightarrow> ai_FileVersionID a \<noteq> uuid_Nil \<and> 0 \<le> ai_SortPosition a \<and> ai_SortPosition a < int MaxAIAttachments"

fun attachment_inputs_loop :: "uuid list \<Rightarrow> int list \<Rightarrow> AttachmentInput list \<Rightarrow> bool" where
  "attachment_inputs_loop ids positions [] = True"
| "attachment_inputs_loop ids positions (a # rest) =
     (if \<not> valid_attachment a then False
      else if List.member ids (ai_FileVersionID a) then False
      else if List.member positions (ai_SortPosition a) then False
      else attachment_inputs_loop (ai_FileVersionID a # ids) (ai_SortPosition a # positions) rest)"

definition validateAttachmentInputs :: "AttachmentInput list \<Rightarrow> bool" where
  "validateAttachmentInputs inputs \<longleftrightarrow> length inputs \<le> MaxAIAttachments \<and> attachment_inputs_loop [] [] inputs"

section \<open>The attachment store\<close>

definition isAIImageMIME :: "string \<Rightarrow> bool" where
  "isAIImageMIME mime \<longleftrightarrow> List.member [''image/jpeg'', ''image/png'', ''image/webp'', ''image/gif''] mime"

definition isAITextMIME :: "string \<Rightarrow> bool" where
  "isAITextMIME mime \<longleftrightarrow> List.member [''application/pdf'',
     ''application/vnd.openxmlformats-officedocument.wordprocessingml.document'', ''text/plain'', ''text/markdown''] mime"

record attachment_row =
  aw_display_name :: string
  aw_detected_mime :: string
  aw_size :: int
  aw_state :: string
  aw_scan_result :: string
  aw_object_key :: string
  aw_text :: "(string option \<times> int option \<times> string option) option"

text \<open>The second component is the modality: \<^verbatim>\<open>vision\<close> for images, \<^verbatim>\<open>text\<close> otherwise.\<close>

definition attachment_metadata :: "uuid \<Rightarrow> attachment_row option \<Rightarrow> ai_error + (AttachmentMetadata \<times> string)" where
  "attachment_metadata version row =
     (case row of
        None \<Rightarrow> Inl ErrAINotFound
      | Some w \<Rightarrow>
          if aw_state w \<noteq> ''ready'' \<or> aw_scan_result w \<noteq> ''clean'' \<or> aw_detected_mime w = [] then Inl ErrAttachmentNotReady
          else (let md = \<lparr>am_FileVersionID = version, am_DisplayName = aw_display_name w\<rparr>
                in if isAIImageMIME (aw_detected_mime w) then Inr (md, ''vision'')
                   else if \<not> isAITextMIME (aw_detected_mime w) \<or> aw_text w = None then Inl ErrAttachmentNotReady
                   else Inr (md, ''text'')))"

fun attachment_loop :: "bool \<Rightarrow> (uuid \<Rightarrow> attachment_row option) \<Rightarrow> AttachmentInput list \<Rightarrow> ai_error + (int \<times> AttachmentMetadata \<times> string) list" where
  "attachment_loop fault rows [] = Inr []"
| "attachment_loop fault rows (a # rest) =
     (if fault then Inl ErrAIDriver
      else case attachment_metadata (ai_FileVersionID a) (rows (ai_FileVersionID a)) of
        Inl e \<Rightarrow> Inl e
      | Inr md \<Rightarrow> (case attachment_loop fault rows rest of Inl e \<Rightarrow> Inl e | Inr out \<Rightarrow> Inr ((ai_SortPosition a, md) # out)))"

definition ValidateForAI ::
  "bool \<Rightarrow> (uuid \<Rightarrow> uuid \<Rightarrow> attachment_row option) \<Rightarrow> ai_db \<Rightarrow> uuid \<Rightarrow> uuid \<Rightarrow> AttachmentInput list
     \<Rightarrow> ai_error + (AttachmentMetadata \<times> string) list" where
  "ValidateForAI fault rows db student thread inputs =
     (if student = uuid_Nil \<or> \<not> validateAttachmentInputs inputs then Inl ErrAIInvalid
      else if thread \<noteq> uuid_Nil \<and> fault then Inl ErrAIDriver
      else if thread \<noteq> uuid_Nil \<and> \<not> list_ex (\<lambda>t. th_ID t = thread \<and> th_StudentID t = student) (ai_threads db) then Inl ErrAINotFound
      else case attachment_loop fault (rows student) inputs of
        Inl e \<Rightarrow> Inl e
      | Inr ordered \<Rightarrow> Inr (map snd (sort_key fst ordered)))"

text \<open>\<open>blobs\<close> answers a key with the announced size and the bytes, or nothing on a failure of the store
  or of the reader.\<close>

definition readTextObject ::
  "(string \<Rightarrow> string) \<Rightarrow> (string \<Rightarrow> (int \<times> string option) option) \<Rightarrow> string \<Rightarrow> int \<Rightarrow> string \<Rightarrow> ai_error + string" where
  "readTextObject hex_sha256 blobs key expectedSize expectedSHA256 =
     (if key = [] \<or> expectedSize < 1 \<or> expectedSize > MaxAttachmentTextBytes \<or> length expectedSHA256 \<noteq> 64 then Inl ErrAttachmentNotReady
      else case blobs key of
        None \<Rightarrow> Inl ErrAttachmentNotReady
      | Some (announced, body) \<Rightarrow>
          if announced \<noteq> expectedSize then Inl ErrAttachmentNotReady
          else case body of
            None \<Rightarrow> Inl ErrAttachmentNotReady
          | Some bytes \<Rightarrow>
              (let raw = take (nat (MaxAttachmentTextBytes + 1)) bytes
               in if int (length raw) \<noteq> expectedSize \<or> int (length raw) > MaxAttachmentTextBytes \<or> hex_sha256 raw \<noteq> expectedSHA256 \<or>
                     \<not> ValidString raw \<or> List.member raw (CHR 0x00)
                  then Inl ErrAttachmentNotReady else Inr raw))"

definition LoadAIText ::
  "(string \<Rightarrow> string) \<Rightarrow> (string \<Rightarrow> (int \<times> string option) option) \<Rightarrow> bool \<Rightarrow> (uuid \<Rightarrow> uuid \<Rightarrow> attachment_row option) \<Rightarrow> uuid \<Rightarrow> uuid
     \<Rightarrow> ai_error + string" where
  "LoadAIText hex_sha256 blobs fault rows student version =
     (if student = uuid_Nil \<or> version = uuid_Nil then Inl ErrAIInvalid
      else if fault then Inl ErrAIDriver
      else case rows student version of
        None \<Rightarrow> Inl ErrAINotFound
      | Some w \<Rightarrow>
          if aw_state w \<noteq> ''ready'' \<or> aw_scan_result w \<noteq> ''clean'' \<or> \<not> isAITextMIME (aw_detected_mime w) then Inl ErrAttachmentNotReady
          else case aw_text w of
            Some (Some key, Some len, Some sha) \<Rightarrow> readTextObject hex_sha256 blobs key len sha
          | _ \<Rightarrow> Inl ErrAttachmentNotReady)"

section \<open>What clients rely on\<close>

text \<open>The attachments of a question come back in the order of their positions, all of them and no others.\<close>

locale attachment_context =
  fixes validate :: "ai_db \<Rightarrow> uuid \<Rightarrow> uuid \<Rightarrow> AttachmentInput list \<Rightarrow> ai_error + (AttachmentMetadata \<times> string) list"
  assumes validated_order: "validate db student thread inputs = Inr mds \<Longrightarrow>
      map (\<lambda>md. am_FileVersionID (fst md)) mds = map ai_FileVersionID (sort_key ai_SortPosition inputs)"
begin

lemma validated_set: "validate db student thread inputs = Inr mds \<Longrightarrow> (\<lambda>md. am_FileVersionID (fst md)) ` set mds = ai_FileVersionID ` set inputs"
  using validated_order [of db student thread inputs mds] by (metis list.set_map set_sort)

end

lemma attachment_loop_rows:
  assumes "attachment_loop fault rows inputs = Inr ordered"
  shows "map (\<lambda>(p, md, _). (p, am_FileVersionID md)) ordered = map (\<lambda>a. (ai_SortPosition a, ai_FileVersionID a)) inputs"
  using assms
  by (induction inputs arbitrary: ordered) (auto simp: attachment_metadata_def Let_def split: if_splits sum.splits option.splits)

lemma attachment_inputs_loop_iff:
  "attachment_inputs_loop ids positions inputs \<longleftrightarrow> (\<forall>a \<in> set inputs. valid_attachment a) \<and>
     distinct (map ai_FileVersionID inputs) \<and> distinct (map ai_SortPosition inputs) \<and>
     ai_FileVersionID ` set inputs \<inter> set ids = {} \<and> ai_SortPosition ` set inputs \<inter> set positions = {}"
  by (induction ids positions inputs rule: attachment_inputs_loop.induct) auto

lemma map_sort_key: "map f (sort_key (\<lambda>x. k (f x)) xs) = sort_key k (map f xs)"
proof -
  have "map f (insort_key (\<lambda>x. k (f x)) x ys) = insort_key k (f x) (map f ys)" for x ys by (induction ys) simp_all
  then show ?thesis by (induction xs) simp_all
qed

lemma ValidateForAI_order:
  assumes "ValidateForAI fault rows db student thread inputs = Inr mds"
  shows "map (\<lambda>md. am_FileVersionID (fst md)) mds = map ai_FileVersionID (sort_key ai_SortPosition inputs)"
proof -
  from assms obtain ordered where o: "attachment_loop fault (rows student) inputs = Inr ordered" and mds: "mds = map snd (sort_key fst ordered)"
    by (auto simp: ValidateForAI_def split: if_splits sum.splits)
  let ?h = "\<lambda>(p :: int, md, _ :: string). (p, am_FileVersionID md)"
  let ?g = "\<lambda>a. (ai_SortPosition a, ai_FileVersionID a)"
  have "map ?h (sort_key fst ordered) = sort_key fst (map ?h ordered)"
    using map_sort_key [of ?h fst ordered] by (simp add: case_prod_beta)
  also have "\<dots> = map ?g (sort_key ai_SortPosition inputs)"
    unfolding attachment_loop_rows [OF o] using map_sort_key [of ?g fst inputs] by simp
  finally have "map snd (map ?h (sort_key fst ordered)) = map snd (map ?g (sort_key ai_SortPosition inputs))" by simp
  then show ?thesis unfolding mds by (simp add: comp_def case_prod_beta)
qed

interpretation ai_attachments: attachment_context "ValidateForAI fault rows" for fault rows
  by unfold_locales (rule ValidateForAI_order)

text \<open>What is read back is text: of the stored size, with the stored digest, valid UTF-8 without NUL.\<close>

lemma LoadAIText_verified:
  assumes "LoadAIText hex_sha256 blobs fault rows student version = Inr text"
  shows "\<exists>w key len sha. rows student version = Some w \<and> aw_state w = ''ready'' \<and> aw_scan_result w = ''clean'' \<and>
    aw_text w = Some (Some key, Some len, Some sha) \<and> int (length text) = len \<and> len \<le> MaxAttachmentTextBytes \<and> hex_sha256 text = sha \<and> ValidString text"
  using assms by (auto simp: LoadAIText_def readTextObject_def Let_def split: if_splits option.splits prod.splits)

end
