(* ===== verification/AI_Machine.thy ===== *)
theory AI_Machine
  imports AI_Store
begin

text \<open>
  What the AI run store keeps true under every interleaving of its transactions. \<open>ai_step\<close>
  has one rule per transaction of the runtime store and the runner store, and one for changes
  of the configuration by an administrator.

  The ledger of a run is exactly its reservation, and after its end also the release and, for a
  success, the settled charge; so the usage of a period is what the student's runs of that
  period hold or have been charged, admission keeps it below the limits, and nothing else
  raises it. A student has at most one active run; an ended run never changes again.
\<close>

section \<open>Steps\<close>

definition limits_small :: "ai_db \<Rightarrow> bool" where
  "limits_small db \<longleftrightarrow> (\<forall>student limits. ResolveQuotaLimits (ai_global_limits db) (student_limits student db) = Inr limits \<longrightarrow>
     ql_DailyRequests limits \<le> 2 ^ 62 \<and> ql_MonthlyRequests limits \<le> 2 ^ 62 \<and>
     ql_DailyTokens limits \<le> 2 ^ 62 \<and> ql_MonthlyTokens limits \<le> 2 ^ 62)"

definition same_tables :: "ai_db \<Rightarrow> ai_db \<Rightarrow> bool" where
  "same_tables db db' \<longleftrightarrow> ai_threads db' = ai_threads db \<and> ai_messages db' = ai_messages db \<and> ai_message_files db' = ai_message_files db \<and>
     ai_runs db' = ai_runs db \<and> ai_run_events db' = ai_run_events db \<and> ai_usage_ledger db' = ai_usage_ledger db"

definition small_reservation :: "QuotaReservation \<Rightarrow> bool" where
  "small_reservation r \<longleftrightarrow> qr_RequestCount r < 2 ^ 62 \<and> qr_TokenCount r < 2 ^ 62"

inductive ai_step :: "ai_db \<Rightarrow> ai_db \<Rightarrow> bool" where
  step_admit: "small_reservation (ra_Reservation i) \<Longrightarrow> limits_small db \<Longrightarrow> ai_step db (snd (AdmitRun sha att fault newRun i db))"
| step_retry: "small_reservation (rr_Reservation i') \<Longrightarrow> limits_small db \<Longrightarrow> ai_step db (snd (RetryRun sha fault i' db))"
| step_cancel: "ai_step db (snd (CancelRun fault student i now db))"
| step_fail_run: "ai_step db (snd (FailRun fault student i code now db))"
| step_lease: "ai_step db (snd (lease_tx sha url_ok fault adm busy owner now dur db))"
| step_heartbeat: "ai_step db (snd (Heartbeat_run fault now i owner until db))"
| step_append: "ai_step db (snd (AppendEvents fault now i owner es db))"
| step_complete: "ai_step db (snd (Complete_run fault newMessage now i owner c db))"
| step_fail: "ai_step db (snd (Fail_run fault now i owner f db))"
| step_reconcile: "ai_step db (snd (reconcileOneExpired fault busy now db))"
| step_clear: "ai_step db (clear_stale_queued now db)"
| step_configure: "same_tables db db' \<Longrightarrow> ai_step db db'"

definition empty_ai_db :: "ai_db \<Rightarrow> bool" where
  "empty_ai_db db \<longleftrightarrow> ai_threads db = [] \<and> ai_messages db = [] \<and> ai_message_files db = [] \<and> ai_runs db = [] \<and>
     ai_run_events db = [] \<and> ai_usage_ledger db = []"

definition ai_reachable :: "ai_db \<Rightarrow> bool" where
  "ai_reachable db \<longleftrightarrow> (\<exists>db0. empty_ai_db db0 \<and> ai_step\<^sup>*\<^sup>* db0 db)"

section \<open>The invariant\<close>

definition period_key :: "period_kind \<Rightarrow> ai_run \<Rightarrow> string" where
  "period_key k r = (case k of Day \<Rightarrow> ar_day_key r | Month \<Rightarrow> ar_month_key r)"

definition ledger_of :: "uuid \<Rightarrow> period_kind \<Rightarrow> ledger_row list \<Rightarrow> (ledger_action \<times> int \<times> int) list" where
  "ledger_of i k rows = map (\<lambda>l. (lg_action l, lg_request_delta l, lg_token_delta l))
     (filter (\<lambda>l. lg_run_id l = i \<and> lg_period_kind l = k) rows)"

definition balanced :: "ai_run \<Rightarrow> (ledger_action \<times> int \<times> int) list \<Rightarrow> bool" where
  "balanced r entries \<longleftrightarrow> (let q = ar_reserved_requests r; t = ar_reserved_tokens r in
     if active_run r then entries = [(Reserve, q, t)]
     else if ar_status r = RunSucceeded
     then (case ar_usage r of None \<Rightarrow> False | Some (inp, out, _) \<Rightarrow> 0 \<le> inp \<and> 0 \<le> out \<and>
       entries = [(Reserve, q, t), (Settle, q, charge (add_saturating inp out) r), (Release, - q, - t)])
     else entries = [(Reserve, q, t), (Release, - q, - t)])"

definition owned_entry :: "ai_run list \<Rightarrow> ledger_row \<Rightarrow> bool" where
  "owned_entry runs l \<longleftrightarrow> (\<exists>r \<in> set runs. ar_id r = lg_run_id l \<and> lg_student_id l = ar_student_id r \<and>
     lg_period_key l = period_key (lg_period_kind l) r)"

definition events_of :: "uuid \<Rightarrow> run_event list \<Rightarrow> run_event list" where
  "events_of i es = filter (\<lambda>e. re_run_id e = i) es"

definition progress_event :: "run_event \<Rightarrow> bool" where
  "progress_event e \<longleftrightarrow> re_kind e = ''delta'' \<or> re_kind e = ''usage''"

definition terminal_kind :: "RunStatus \<Rightarrow> string" where
  "terminal_kind st = (if st = RunSucceeded then ''completed'' else status_text st)"

definition events_ok :: "ai_run \<Rightarrow> run_event list \<Rightarrow> bool" where
  "events_ok r es \<longleftrightarrow> map re_sequence es = [1..ar_last_sequence r] \<and>
     (if active_run r then list_all progress_event es
      else es \<noteq> [] \<and> list_all progress_event (butlast es) \<and> re_kind (last es) = terminal_kind (ar_status r))"

definition run_ok :: "ai_run \<Rightarrow> bool" where
  "run_ok r \<longleftrightarrow> 1 \<le> ar_reserved_requests r \<and> 0 \<le> ar_reserved_tokens r \<and> 0 \<le> ar_last_sequence r \<and>
     (ar_status r = RunStreaming \<longleftrightarrow> ar_lease_owner r \<noteq> None) \<and> (ar_lease_owner r = None \<longleftrightarrow> ar_lease_expires_at r = None)"

definition answers_of :: "uuid \<Rightarrow> ai_message list \<Rightarrow> nat" where
  "answers_of i ms = length (filter (\<lambda>m. mg_RunID m = Some i) ms)"

definition run_good :: "ai_db \<Rightarrow> ai_run \<Rightarrow> bool" where
  "run_good db r \<longleftrightarrow> run_ok r \<and> (\<forall>k. balanced r (ledger_of (ar_id r) k (ai_usage_ledger db))) \<and>
     events_ok r (events_of (ar_id r) (ai_run_events db)) \<and>
     answers_of (ar_id r) (ai_messages db) = (if ar_status r = RunSucceeded then 1 else 0)"

definition one_active :: "ai_run list \<Rightarrow> bool" where
  "one_active runs \<longleftrightarrow> (\<forall>r \<in> set runs. \<forall>r' \<in> set runs. active_run r \<and> active_run r' \<and> ar_student_id r = ar_student_id r' \<longrightarrow> r = r')"

definition linked :: "ai_db \<Rightarrow> bool" where
  "linked db \<longleftrightarrow> (\<forall>l \<in> set (ai_usage_ledger db). owned_entry (ai_runs db) l) \<and>
     (\<forall>e \<in> set (ai_run_events db). \<exists>r \<in> set (ai_runs db). ar_id r = re_run_id e) \<and>
     (\<forall>m \<in> set (ai_messages db). \<forall>i. mg_RunID m = Some i \<longrightarrow> (\<exists>r \<in> set (ai_runs db). ar_id r = i)) \<and>
     (\<forall>f \<in> set (ai_message_files db). \<exists>m \<in> set (ai_messages db). mg_ID m = mf_message_id f)"

definition runs_inv :: "ai_db \<Rightarrow> bool" where
  "runs_inv db \<longleftrightarrow> keyed ar_id (ai_runs db) \<and> (\<forall>r \<in> set (ai_runs db). run_good db r) \<and> one_active (ai_runs db) \<and> linked db"

lemma runs_invD:
  assumes "runs_inv db"
  shows "keyed ar_id (ai_runs db)" and "r \<in> set (ai_runs db) \<Longrightarrow> run_good db r" and "one_active (ai_runs db)" and "linked db"
  using assms by (simp_all add: runs_inv_def)

lemma one_activeD:
  "one_active runs \<Longrightarrow> r \<in> set runs \<Longrightarrow> r' \<in> set runs \<Longrightarrow> active_run r \<Longrightarrow> active_run r' \<Longrightarrow> ar_student_id r = ar_student_id r' \<Longrightarrow> r = r'"
  by (simp add: one_active_def)


text \<open>What a transaction may do to an existing run: follow the edges of its life cycle, with its
  identity, its snapshot and its reservation unchanged; an ended run stays as it is.\<close>

definition run_edge :: "RunStatus \<Rightarrow> RunStatus \<Rightarrow> bool" where
  "run_edge a b \<longleftrightarrow> (a, b) \<in> {(RunQueued, RunQueued), (RunQueued, RunStreaming), (RunQueued, RunFailed), (RunQueued, RunCancelled),
     (RunStreaming, RunStreaming), (RunStreaming, RunSucceeded), (RunStreaming, RunFailed), (RunStreaming, RunCancelled)}"

definition run_identity :: "ai_run \<Rightarrow> uuid \<times> uuid \<times> uuid \<times> uuid \<times> int \<times> string \<times> RuntimeSnapshot \<times> int \<times> int \<times> string \<times> string \<times> time" where
  "run_identity r = (ar_id r, ar_thread_id r, ar_student_id r, ar_trigger_message_id r, ar_attempt_no r, ar_idempotency_key r,
     ar_snapshot r, ar_reserved_requests r, ar_reserved_tokens r, ar_day_key r, ar_month_key r, ar_created_at r)"

definition run_moves :: "ai_run \<Rightarrow> ai_run \<Rightarrow> bool" where
  "run_moves r r' \<longleftrightarrow> r' = r \<or> (run_identity r' = run_identity r \<and> run_edge (ar_status r) (ar_status r') \<and> ar_last_sequence r \<le> ar_last_sequence r')"

definition run_tx :: "ai_db \<Rightarrow> ai_db \<Rightarrow> bool" where
  "run_tx db db' \<longleftrightarrow> runs_inv db' \<and> (\<exists>F. ai_runs db' = map F (ai_runs db) \<and> (\<forall>r. run_moves r (F r)))"

lemma run_movesI: "run_identity r' = run_identity r \<Longrightarrow> run_edge (ar_status r) (ar_status r') \<Longrightarrow> ar_last_sequence r \<le> ar_last_sequence r' \<Longrightarrow> run_moves r r'"
  by (simp add: run_moves_def)

lemma run_moves_refl [simp]: "run_moves r r"
  by (simp add: run_moves_def)

lemma run_tx_refl: "runs_inv db \<Longrightarrow> run_tx db db"
  unfolding run_tx_def by (intro conjI exI [of _ "\<lambda>r. r"]) simp_all

lemma edge_active: "run_edge a b \<Longrightarrow> ar_status r = a \<Longrightarrow> active_run r"
  by (auto simp: run_edge_def active_run_def)

section \<open>Replacing one run\<close>

text \<open>One run is replaced and rows for it are appended to the ledger, the events and the messages.\<close>

definition changes_run ::
  "ai_db \<Rightarrow> ai_db \<Rightarrow> ai_run \<Rightarrow> ai_run \<Rightarrow> ledger_row list \<Rightarrow> run_event list \<Rightarrow> ai_message list \<Rightarrow> bool" where
  "changes_run db db' r r' ls es ms \<longleftrightarrow>
     r \<in> set (ai_runs db) \<and> ar_id r' = ar_id r \<and> ar_student_id r' = ar_student_id r \<and>
     ar_day_key r' = ar_day_key r \<and> ar_month_key r' = ar_month_key r \<and>
     ai_runs db' = map (\<lambda>x. if ar_id x = ar_id r then r' else x) (ai_runs db) \<and>
     ai_usage_ledger db' = ai_usage_ledger db @ ls \<and> ai_run_events db' = ai_run_events db @ es \<and> ai_messages db' = ai_messages db @ ms \<and>
     ai_message_files db' = ai_message_files db \<and>
     (\<forall>l \<in> set ls. lg_run_id l = ar_id r \<and> lg_student_id l = ar_student_id r \<and> lg_period_key l = period_key (lg_period_kind l) r) \<and>
     (\<forall>e \<in> set es. re_run_id e = ar_id r) \<and> (\<forall>m \<in> set ms. mg_RunID m = Some (ar_id r))"

lemma changes_runD:
  assumes "changes_run db db' r r' ls es ms"
  shows "r \<in> set (ai_runs db)"
    and "ar_id r' = ar_id r" "ar_student_id r' = ar_student_id r" "ar_day_key r' = ar_day_key r" "ar_month_key r' = ar_month_key r"
    and "ai_runs db' = map (\<lambda>x. if ar_id x = ar_id r then r' else x) (ai_runs db)"
    and "ai_usage_ledger db' = ai_usage_ledger db @ ls" "ai_run_events db' = ai_run_events db @ es" "ai_messages db' = ai_messages db @ ms"
    and "l \<in> set ls \<Longrightarrow> lg_run_id l = ar_id r \<and> lg_student_id l = ar_student_id r \<and> lg_period_key l = period_key (lg_period_kind l) r"
    and "e \<in> set es \<Longrightarrow> re_run_id e = ar_id r" and "m \<in> set ms \<Longrightarrow> mg_RunID m = Some (ar_id r)"
    and "ai_message_files db' = ai_message_files db"
  using assms by (simp_all add: changes_run_def)

lemma changed_cases:
  assumes "changes_run db db' r r' ls es ms" and "x \<in> set (ai_runs db')"
  obtains "x = r'" | "x \<in> set (ai_runs db)" "ar_id x \<noteq> ar_id r"
  using assms by (auto simp: changes_runD(6) [OF assms(1)] split: if_splits)

lemma changed_mem: "changes_run db db' r r' ls es ms \<Longrightarrow> r' \<in> set (ai_runs db')"
  unfolding changes_run_def by force

lemma still_there:
  assumes ch: "changes_run db db' r r' ls es ms" and kd: "keyed ar_id (ai_runs db)" and x: "x \<in> set (ai_runs db)"
  obtains y where "y \<in> set (ai_runs db')" "ar_id y = ar_id x" "ar_student_id y = ar_student_id x" "\<And>k. period_key k y = period_key k x"
proof (cases "ar_id x = ar_id r")
  case True
  with x changes_runD(1) [OF ch] kd have "x = r" by (metis keyed_inj)
  with changed_mem [OF ch] changes_runD(2-5) [OF ch] show thesis by (intro that [of r']) (auto simp: period_key_def split: period_kind.splits)
next
  case False
  with x have "x \<in> set (ai_runs db')" unfolding changes_runD(6) [OF ch] by force
  then show thesis by (intro that) auto
qed

lemma own_rows:
  assumes "changes_run db db' r r' ls es ms"
  shows "ledger_of (ar_id r) k (ai_usage_ledger db') = ledger_of (ar_id r) k (ai_usage_ledger db) @ ledger_of (ar_id r) k ls"
  "events_of (ar_id r) (ai_run_events db') = events_of (ar_id r) (ai_run_events db) @ es"
  "answers_of (ar_id r) (ai_messages db') = answers_of (ar_id r) (ai_messages db) + length ms"
  using changes_runD(11,12) [OF assms] by (simp_all add: changes_runD(7-9) [OF assms] ledger_of_def events_of_def answers_of_def)

lemma other_rows:
  assumes ch: "changes_run db db' r r' ls es ms" and "i \<noteq> ar_id r"
  shows "ledger_of i k (ai_usage_ledger db') = ledger_of i k (ai_usage_ledger db)"
    and "events_of i (ai_run_events db') = events_of i (ai_run_events db)"
    and "answers_of i (ai_messages db') = answers_of i (ai_messages db)"
  using assms(2) changes_runD(10-12) [OF ch] by (auto simp: changes_runD(7-9) [OF ch] ledger_of_def events_of_def answers_of_def filter_empty_conv)

lemma still_linked:
  assumes ch: "changes_run db db' r r' ls es ms" and kd: "keyed ar_id (ai_runs db)" and l: "linked db"
  shows "linked db'"
proof -
  note D = changes_runD [OF ch] and still = still_there [OF ch kd]
  have "owned_entry (ai_runs db') x" if "x \<in> set (ai_usage_ledger db')" for x
  proof -
    obtain y where y: "y \<in> set (ai_runs db)" "ar_id y = lg_run_id x" "lg_student_id x = ar_student_id y" "lg_period_key x = period_key (lg_period_kind x) y"
    proof (cases "x \<in> set ls")
      case True
      with D(1) D(10) [of x] that show thesis by metis
    next
      case False
      with \<open>x \<in> _\<close> l that show thesis unfolding D(7) linked_def owned_entry_def by auto
    qed
    from still [OF y(1)] obtain z where "z \<in> set (ai_runs db')" "ar_id z = ar_id y" "ar_student_id z = ar_student_id y" "\<And>k. period_key k z = period_key k y" by blast
    with y show ?thesis unfolding owned_entry_def by (intro bexI [of _ z]) simp_all
  qed
  moreover have "\<exists>y \<in> set (ai_runs db'). ar_id y = re_run_id e" if "e \<in> set (ai_run_events db')" for e
  proof (cases "e \<in> set es")
    case True
    with D(11) changed_mem [OF ch] D(2) show ?thesis by metis
  next
    case False
    with that l obtain y where "y \<in> set (ai_runs db)" "ar_id y = re_run_id e" unfolding D(8) linked_def by auto
    then show ?thesis by (metis still)
  qed
  moreover have "\<exists>y \<in> set (ai_runs db'). ar_id y = i" if "m \<in> set (ai_messages db')" "mg_RunID m = Some i" for m i
  proof (cases "m \<in> set ms")
    case True
    with D(12) that changed_mem [OF ch] D(2) show ?thesis by (metis option.inject)
  next
    case False
    with that D(9) have "m \<in> set (ai_messages db)" by auto
    with that(2) l obtain y where "y \<in> set (ai_runs db)" "ar_id y = i" unfolding linked_def by blast
    then show ?thesis by (metis still)
  qed
  moreover have "\<forall>f \<in> set (ai_message_files db'). \<exists>m \<in> set (ai_messages db'). mg_ID m = mf_message_id f"
    using l unfolding D(9,13) linked_def by auto
  ultimately show ?thesis unfolding linked_def by blast
qed

lemma change_keeps_inv:
  assumes ch: "changes_run db db' r r' ls es ms" and before: "runs_inv db"
    and "active_run r' \<Longrightarrow> active_run r" and "run_good db' r'"
  shows "runs_inv db'"
proof -
  have "keyed ar_id (ai_runs db')"
    using runs_invD(1) [OF before] changes_runD(2) [OF ch] unfolding changes_runD(6) [OF ch] keyed_def by (simp add: comp_def if_distrib cong: if_cong)
  moreover have "run_good db' x" if "x \<in> set (ai_runs db')" for x
    using ch that
  proof (cases rule: changed_cases)
    case 1
    with assms(4) show ?thesis by simp
  next
    case 2
    with runs_invD(2) [OF before 2(1)] show ?thesis unfolding run_good_def other_rows [OF ch 2(2)] by simp
  qed
  moreover have "one_active (ai_runs db')"
  proof -
    have *: "z = r" if "z \<in> set (ai_runs db)" "active_run z" "active_run r'" "ar_student_id z = ar_student_id r'" for z
      using one_activeD [OF runs_invD(3) [OF before] that(1) changes_runD(1) [OF ch] that(2) assms(3) [OF that(3)]] that(4) changes_runD(3) [OF ch] by simp
    show ?thesis unfolding one_active_def
    proof (intro ballI impI)
      fix x y assume "x \<in> set (ai_runs db')" "y \<in> set (ai_runs db')" and a: "active_run x \<and> active_run y \<and> ar_student_id x = ar_student_id y"
      then show "x = y"
      proof (elim changed_cases [OF ch])
        assume "x = r'" "y \<in> set (ai_runs db)" "ar_id y \<noteq> ar_id r"
        with a * [of y] show ?thesis by simp
      next
        assume "y = r'" "x \<in> set (ai_runs db)" "ar_id x \<noteq> ar_id r"
        with a * [of x] show ?thesis by simp
      next
        assume "x \<in> set (ai_runs db)" "y \<in> set (ai_runs db)"
        with a one_activeD [OF runs_invD(3) [OF before]] show ?thesis by blast
      qed simp
    qed
  qed
  ultimately show ?thesis using still_linked [OF ch] runs_invD [OF before] unfolding runs_inv_def by blast
qed


lemma change_tx:
  assumes ch: "changes_run db db' r r' ls es ms" and inv: "runs_inv db" and good: "run_good db' r'" and mv: "run_moves r r'" and act: "active_run r"
  shows "run_tx db db'"
proof -
  have "runs_inv db'" by (rule change_keeps_inv [OF ch inv act good])
  moreover have "ai_runs db' = map (\<lambda>x. if x = r then r' else x) (ai_runs db)"
    unfolding changes_runD(6) [OF ch] using keyed_inj [OF runs_invD(1) [OF inv] _ changes_runD(1) [OF ch]] by (intro map_cong refl) auto
  ultimately show ?thesis using mv unfolding run_tx_def by (intro conjI exI [of _ "\<lambda>x. if x = r then r' else x"]) simp_all
qed

section \<open>Ending a run\<close>

lemma update_run_rows:
  assumes "keyed ar_id (ai_runs db)" and "r \<in> set (ai_runs db)"
  shows "ai_runs (update_run (ar_id r) f db) = map (\<lambda>x. if ar_id x = ar_id r then f r else x) (ai_runs db)"
proof -
  have "f x = f r" if "x \<in> set (ai_runs db)" "ar_id x = ar_id r" for x using assms that by (metis keyed_inj)
  then show ?thesis by (auto simp: update_run_def update_where_def)
qed

lemma update_run_tables [simp]:
  "ai_usage_ledger (update_run i f db) = ai_usage_ledger db" "ai_run_events (update_run i f db) = ai_run_events db"
  "ai_messages (update_run i f db) = ai_messages db" "ai_message_files (update_run i f db) = ai_message_files db"
  by (simp_all add: update_run_def)

lemma insert_event_tables [simp]:
  "ai_usage_ledger (insert_event i q k p c t db) = ai_usage_ledger db" "ai_runs (insert_event i q k p c t db) = ai_runs db"
  "ai_messages (insert_event i q k p c t db) = ai_messages db" "ai_message_files (insert_event i q k p c t db) = ai_message_files db"
  "ai_run_events (insert_event i q k p c t db) = ai_run_events db @
     [\<lparr>re_run_id = i, re_sequence = q, re_kind = k, re_payload = p, re_error_code = c, re_created_at = t\<rparr>]"
  by (simp_all add: insert_event_def)

lemma settle_tables [simp]:
  "ai_runs (settleRunnerQuota r c t db) = ai_runs db" "ai_run_events (settleRunnerQuota r c t db) = ai_run_events db"
  "ai_messages (settleRunnerQuota r c t db) = ai_messages db" "ai_message_files (settleRunnerQuota r c t db) = ai_message_files db"
  by (simp_all add: settleRunnerQuota_def)

lemma active_ledger:
  assumes "run_good db r" "active_run r"
  shows "ledger_of (ar_id r) k (ai_usage_ledger db) = [(Reserve, ar_reserved_requests r, ar_reserved_tokens r)]"
  using assms by (simp add: run_good_def balanced_def Let_def)

lemma reserve_only:
  assumes "run_good db r" "active_run r" and "l \<in> set (ai_usage_ledger db)" "lg_run_id l = ar_id r"
  shows "lg_action l = Reserve"
proof -
  have "(lg_action l, lg_request_delta l, lg_token_delta l) \<in> set (ledger_of (ar_id r) (lg_period_kind l) (ai_usage_ledger db))"
    using assms(3,4) by (auto simp: ledger_of_def)
  then show ?thesis unfolding active_ledger [OF assms(1,2)] by simp
qed

lemma settle_appends:
  assumes "run_good db r" "active_run r"
  shows "ai_usage_ledger (settleRunnerQuota r c now db) = ai_usage_ledger db @ settle_rows r c now"
proof -
  have "\<not> list_ex (same_entry (ledger_row_for r act k q t now)) (ai_usage_ledger db)" if "act \<noteq> Reserve" for act k q t
    using reserve_only [OF assms] that by (auto simp: list_ex_iff same_entry_def ledger_row_for_def)
  then show ?thesis
    by (cases c) (simp_all add: settleRunnerQuota_def settle_rows_def insert_ignore_def, simp_all add: same_entry_def ledger_row_for_def)
qed

lemma settle_rows_own:
  "l \<in> set (settle_rows r c now) \<Longrightarrow> lg_run_id l = ar_id r \<and> lg_student_id l = ar_student_id r \<and> lg_period_key l = period_key (lg_period_kind l) r"
  by (auto simp: settle_rows_def ledger_row_for_def period_key_def split: option.splits)

lemma ledger_of_settle:
  "ledger_of (ar_id r) k (settle_rows r c now) =
     (case c of None \<Rightarrow> [] | Some x \<Rightarrow> [(Settle, ar_reserved_requests r, x)]) @ [(Release, - ar_reserved_requests r, - ar_reserved_tokens r)]"
  by (cases k; cases c) (simp_all add: ledger_of_def settle_rows_def ledger_row_for_def)

lemma upto_snoc: "0 \<le> (n :: int) \<Longrightarrow> [1..n] @ [n + 1] = [1..n + 1]"
  by (simp add: upto_rec2)

text \<open>Ending an active run: its event, its final row, its last ledger entries and its answer.\<close>

lemma ends_good:
  assumes good: "run_good db r" and act: "active_run r" and ch: "changes_run db db' r r' (settle_rows r c now) [e] ms"
    and fin: "\<not> active_run r'" "ar_reserved_requests r' = ar_reserved_requests r" "ar_reserved_tokens r' = ar_reserved_tokens r"
      "ar_last_sequence r' = ar_last_sequence r + 1" "ar_lease_owner r' = None" "ar_lease_expires_at r' = None"
    and e: "re_sequence e = ar_last_sequence r + 1" "re_kind e = terminal_kind (ar_status r')"
    and c: "case c of None \<Rightarrow> ar_status r' \<noteq> RunSucceeded
      | Some x \<Rightarrow> ar_status r' = RunSucceeded \<and> (\<exists>inp out cost. ar_usage r' = Some (inp, out, cost) \<and> 0 \<le> inp \<and> 0 \<le> out \<and> x = charge (add_saturating inp out) r)"
    and ms: "length ms = (if ar_status r' = RunSucceeded then 1 else 0)"
  shows "run_good db' r'"
proof -
  have rok: "run_ok r" and ev: "events_ok r (events_of (ar_id r) (ai_run_events db))"
    and ans: "answers_of (ar_id r) (ai_messages db) = 0" using good act by (auto simp: run_good_def active_run_def)
  have "run_ok r'" using rok fin by (auto simp: run_ok_def active_run_def)
  moreover have "balanced r' (ledger_of (ar_id r') k (ai_usage_ledger db'))" for k
    using c unfolding changes_runD(2) [OF ch] own_rows(1) [OF ch] active_ledger [OF good act] ledger_of_settle
    by (auto simp: balanced_def Let_def fin charge_def split: option.splits)
  moreover have "events_ok r' (events_of (ar_id r') (ai_run_events db'))"
    using ev act rok fin(1,4) e unfolding changes_runD(2) [OF ch] own_rows(2) [OF ch]
    by (simp add: events_ok_def run_ok_def upto_snoc)
  moreover have "answers_of (ar_id r') (ai_messages db') = (if ar_status r' = RunSucceeded then 1 else 0)"
    unfolding changes_runD(2) [OF ch] own_rows(3) [OF ch] ans ms by simp
  ultimately show ?thesis unfolding run_good_def by blast
qed

lemma end_run_tx:
  assumes inv: "runs_inv db" and r: "r \<in> set (ai_runs db)" "active_run r" and st: "st = RunFailed \<or> st = RunCancelled"
  shows "run_tx db (end_run st code usage source ms now r db)" (is "run_tx db ?db'")
proof -
  let ?r = "(finish_run st (Some code) usage source (ar_last_sequence r + 1) now r)\<lparr>ar_total_ms := ms\<rparr>"
  let ?e = "\<lparr>re_run_id = ar_id r, re_sequence = ar_last_sequence r + 1, re_kind = status_text st, re_payload = [], re_error_code = Some code, re_created_at = now\<rparr>"
  have good: "run_good db r" and kd: "keyed ar_id (ai_runs db)" using runs_invD [OF inv] r by auto
  have "ai_usage_ledger ?db' = ai_usage_ledger db @ settle_rows r None now"
    using settle_appends [OF good r(2)] by (simp add: end_run_def settleRunnerQuota_def)
  then have ch: "changes_run db ?db' r ?r (settle_rows r None now) [?e] []"
    using r(1) update_run_rows [of "insert_event (ar_id r) (ar_last_sequence r + 1) (status_text st) [] (Some code) now db" r] kd settle_rows_own
    unfolding changes_run_def by (simp add: end_run_def finish_run_def)
  have na: "\<not> active_run ?r" using st by (auto simp: active_run_def finish_run_def)
  have "run_good ?db' ?r"
    by (rule ends_good [OF good r(2) ch na]) (use st in \<open>auto simp: finish_run_def terminal_kind_def\<close>)
  moreover have "run_moves r ?r" using r(2) st by (intro run_movesI) (auto simp: run_identity_def finish_run_def run_edge_def active_run_def)
  ultimately show ?thesis by (rule change_tx [OF ch inv _ _ r(2)])
qed


lemma leased_by_find:
  assumes "find (leased_by i owner) rows = Some r"
  shows "r \<in> set rows" "ar_id r = i" "active_run r" "ar_status r = RunStreaming" "ar_lease_owner r = Some owner"
  using find_SomeD [OF assms] by (auto simp: leased_by_def active_run_def)

lemma run_of_find:
  assumes "run_of student i db = Some r"
  shows "r \<in> set (ai_runs db)" "ar_id r = i" "ar_student_id r = student"
  using find_SomeD [OF assms [unfolded run_of_def]] by auto

lemma block_tables [simp]:
  "ai_runs (block_if_exceeded a r now db) = ai_runs db" "ai_run_events (block_if_exceeded a r now db) = ai_run_events db"
  "ai_messages (block_if_exceeded a r now db) = ai_messages db" "ai_usage_ledger (block_if_exceeded a r now db) = ai_usage_ledger db"
  "ai_message_files (block_if_exceeded a r now db) = ai_message_files db"
  by (simp_all add: block_if_exceeded_def block_model_def)

lemma insert_message_Inr: "insert_message m db = Inr db' \<Longrightarrow> db' = db\<lparr>ai_messages := ai_messages db @ [m]\<rparr>"
  by (auto simp: insert_message_def split: if_splits)

lemma insert_message_tables:
  assumes "insert_message m db = Inr db'"
  shows "ai_runs db' = ai_runs db" "ai_run_events db' = ai_run_events db" "ai_usage_ledger db' = ai_usage_ledger db"
    "ai_messages db' = ai_messages db @ [m]" "ai_message_files db' = ai_message_files db" "ai_threads db' = ai_threads db"
  using insert_message_Inr [OF assms] by simp_all

lemma charge_bounds: "0 \<le> actual \<Longrightarrow> 0 \<le> ar_reserved_tokens r \<Longrightarrow> 0 \<le> charge actual r \<and> charge actual r \<le> ar_reserved_tokens r"
  by (simp add: charge_def)

lemma add_saturating_nonneg: "0 \<le> a \<Longrightarrow> 0 \<le> b \<Longrightarrow> 0 \<le> add_saturating a b"
  by (simp add: add_saturating_def MaxInt64_def)

definition completed_row :: "time \<Rightarrow> Completion \<Rightarrow> ai_run \<Rightarrow> ai_run" where
  "completed_row now c r = (finish_run RunSucceeded None (Some (cp_InputTokens c, cp_OutputTokens c, cp_CostMicroUSD c))
     (cp_UsageSource c) (ar_last_sequence r + 1) now r)\<lparr>ar_finish_reason := nilIfEmpty (cp_FinishReason c),
       ar_first_byte_ms := Some (cp_FirstByteMS c), ar_total_ms := Some (cp_TotalMS c)\<rparr>"

definition completed_event :: "time \<Rightarrow> ai_run \<Rightarrow> run_event" where
  "completed_event now r = \<lparr>re_run_id = ar_id r, re_sequence = ar_last_sequence r + 1, re_kind = ''completed'', re_payload = [],
     re_error_code = None, re_created_at = now\<rparr>"

lemma Complete_run_changes:
  assumes tx: "Complete_run fault newMessage now i owner c db = (Inr u, db')" and inv: "runs_inv db"
  obtains r where "find (leased_by i owner) (ai_runs db) = Some r" "ar_cancel_requested_at r = None"
    "changes_run db db' r (completed_row now c r) (settle_rows r (Some (charge (add_saturating (cp_InputTokens c) (cp_OutputTokens c)) r)) now)
       [completed_event now r] [assistant_message newMessage r (cp_Answer c) now]"
    "0 \<le> cp_InputTokens c" "0 \<le> cp_OutputTokens c"
proof -
  let ?actual = "add_saturating (cp_InputTokens c) (cp_OutputTokens c)"
  have guard: "\<not> (i = uuid_Nil \<or> owner = [] \<or> \<not> validBody (cp_Answer c) \<or> cp_InputTokens c < 0 \<or> cp_OutputTokens c < 0 \<or> cp_CostMicroUSD c < 0 \<or>
         (cp_UsageSource c \<noteq> ''upstream'' \<and> cp_UsageSource c \<noteq> ''estimated''))"
    using tx unfolding Complete_run_def by (rule contrapos_pn) simp
  note body = transact_Inr [OF tx [unfolded Complete_run_def if_not_P [OF guard]], THEN conjunct2]
  obtain r where r: "find (leased_by i owner) (ai_runs db) = Some r" using body by (cases "find (leased_by i owner) (ai_runs db)") auto
  note body = body [unfolded r option.case]
  have nc: "ar_cancel_requested_at r = None" using body by (rule contrapos_pp) simp
  note L = leased_by_find [OF r]
  let ?db2 = "update_run i (\<lambda>x. (finish_run RunSucceeded None (Some (cp_InputTokens c, cp_OutputTokens c, cp_CostMicroUSD c))
                              (cp_UsageSource c) (ar_last_sequence r + 1) now x)\<lparr>ar_finish_reason := nilIfEmpty (cp_FinishReason c),
                                ar_first_byte_ms := Some (cp_FirstByteMS c), ar_total_ms := Some (cp_TotalMS c)\<rparr>)
               (insert_event i (ar_last_sequence r + 1) ''completed'' [] None now (block_if_exceeded ?actual r now db))"
  obtain db3 where m: "insert_message (assistant_message newMessage r (cp_Answer c) now) ?db2 = Inr db3"
    and db': "db' = settleRunnerQuota r (Some (charge ?actual r)) now db3"
    using body nc by (auto simp: Let_def split: sum.splits)
  have good: "run_good db r" and kd: "keyed ar_id (ai_runs db)" using runs_invD [OF inv] L by auto
  have led: "ai_usage_ledger db3 = ai_usage_ledger db" using insert_message_tables(3) [OF m] by simp
  have "ai_usage_ledger db' = ai_usage_ledger db @ settle_rows r (Some (charge ?actual r)) now"
    using settle_appends [OF good L(3), of "Some (charge ?actual r)" now] unfolding db' settleRunnerQuota_def by (simp add: led)
  moreover have "ai_runs db' = map (\<lambda>x. if ar_id x = ar_id r then completed_row now c r else x) (ai_runs db)"
    using update_run_rows [of "insert_event i (ar_last_sequence r + 1) ''completed'' [] None now (block_if_exceeded ?actual r now db)" r] kd L(1)
    unfolding db' by (simp add: insert_message_tables(1) [OF m] completed_row_def L(2))
  ultimately have "changes_run db db' r (completed_row now c r) (settle_rows r (Some (charge ?actual r)) now)
       [completed_event now r] [assistant_message newMessage r (cp_Answer c) now]"
    using L(1,2) insert_message_tables(2,4,5) [OF m] settle_rows_own
    unfolding changes_run_def db' by (simp add: completed_event_def completed_row_def finish_run_def assistant_message_def)
  with guard r nc show thesis by (intro that) auto
qed

lemma Complete_run_tx:
  assumes inv: "runs_inv db"
  shows "run_tx db (snd (Complete_run fault newMessage now i owner c db))"
proof (cases "Complete_run fault newMessage now i owner c db")
  case (Pair res db')
  show ?thesis
  proof (cases res)
    case (Inl e)
    with Pair have "db' = db" by (auto simp: Complete_run_def split: if_splits dest: transact_Inl)
    with Pair run_tx_refl [OF inv] show ?thesis by simp
  next
    case (Inr u)
    from Complete_run_changes [OF Pair [unfolded Inr] inv] obtain r where r: "find (leased_by i owner) (ai_runs db) = Some r"
      and ch: "changes_run db db' r (completed_row now c r) (settle_rows r (Some (charge (add_saturating (cp_InputTokens c) (cp_OutputTokens c)) r)) now)
       [completed_event now r] [assistant_message newMessage r (cp_Answer c) now]"
      and nn: "0 \<le> cp_InputTokens c" "0 \<le> cp_OutputTokens c" by metis
    note L = leased_by_find [OF r]
    have good: "run_good db r" using runs_invD [OF inv] L by auto
    have na: "\<not> active_run (completed_row now c r)" "ar_status (completed_row now c r) = RunSucceeded"
      by (simp_all add: completed_row_def finish_run_def active_run_def)
    have "run_good db' (completed_row now c r)"
      using nn good na(2)
      by (intro ends_good [OF good L(3) ch na(1)])
        (simp_all add: completed_row_def completed_event_def finish_run_def terminal_kind_def run_good_def run_ok_def)
    moreover have "run_moves r (completed_row now c r)"
      using L(4) by (intro run_movesI) (simp_all add: run_identity_def completed_row_def finish_run_def run_edge_def)
    ultimately have "run_tx db db'" by (rule change_tx [OF ch inv _ _ L(3)])
    with Pair show ?thesis by simp
  qed
qed


section \<open>Every transaction keeps the invariant\<close>

lemma Fail_run_tx:
  assumes inv: "runs_inv db"
  shows "run_tx db (snd (Fail_run fault now i owner f db))"
proof (cases "i = uuid_Nil \<or> owner = [] \<or> (fa_Status f \<noteq> RunFailed \<and> fa_Status f \<noteq> RunCancelled) \<or> fa_ErrorCode f = [] \<or>
    fa_InputTokens f < 0 \<or> fa_OutputTokens f < 0 \<or> fa_CostMicroUSD f < 0")
  case True
  then show ?thesis using run_tx_refl [OF inv] by (simp add: Fail_run_def)
next
  case False
  then have st: "fa_Status f = RunFailed \<or> fa_Status f = RunCancelled" by blast
  show ?thesis unfolding Fail_run_def if_not_P [OF False]
  proof (rule transact_invariant [of "run_tx db", OF run_tx_refl [OF inv]])
    fix x db' assume "(case find (leased_by i owner) (ai_runs db) of
          None \<Rightarrow> Inl ErrRunnerLeaseLost
        | Some r \<Rightarrow>
            (let source = (if fa_UsageSource f = [] then ''unknown'' else fa_UsageSource f);
                 reported = (source = ''upstream'' \<or> source = ''estimated'')
             in if \<not> reported \<and> source \<noteq> ''unknown'' then Inl ErrAIInvalid
                else Inr ((), end_run (fa_Status f) (fa_ErrorCode f)
                  (if reported then Some (fa_InputTokens f, fa_OutputTokens f, fa_CostMicroUSD f) else None) source (Some (fa_TotalMS f)) now r db))) = Inr (x, db')"
    then obtain r u q where "find (leased_by i owner) (ai_runs db) = Some r"
      and "db' = end_run (fa_Status f) (fa_ErrorCode f) u q (Some (fa_TotalMS f)) now r db"
      by (auto simp: Let_def split: option.splits if_splits)
    with end_run_tx [OF inv _ _ st] leased_by_find show "run_tx db db'" by metis
  qed
qed

lemma upto_join: "0 \<le> (a :: int) \<Longrightarrow> a \<le> b \<Longrightarrow> [1..a] @ [a + 1..b] = [1..b]"
  by (cases "a = 0") (simp_all add: upto_split2 [of 1 a b])

lemma stays_good:
  assumes good: "run_good db r" and act: "active_run r" "active_run r'" and ch: "changes_run db db' r r' [] new []"
    and f: "ar_reserved_requests r' = ar_reserved_requests r" "ar_reserved_tokens r' = ar_reserved_tokens r" and ok: "run_ok r'"
    and new: "map re_sequence new = [ar_last_sequence r + 1..ar_last_sequence r']" "ar_last_sequence r \<le> ar_last_sequence r'" "list_all progress_event new"
  shows "run_good db' r'"
proof -
  have ns: "ar_status r \<noteq> RunSucceeded" "ar_status r' \<noteq> RunSucceeded" using act by (auto simp: active_run_def)
  have "ledger_of (ar_id r) k [] = []" for k by (simp add: ledger_of_def)
  then have "balanced r' (ledger_of (ar_id r') k (ai_usage_ledger db'))" for k
    unfolding changes_runD(2) [OF ch] own_rows [OF ch] active_ledger [OF good act(1)] by (simp add: balanced_def Let_def act f)
  moreover have "events_ok r' (events_of (ar_id r') (ai_run_events db'))"
    using good act new upto_join [of "ar_last_sequence r" "ar_last_sequence r'"] unfolding changes_runD(2) [OF ch] own_rows [OF ch]
    by (simp add: run_good_def events_ok_def run_ok_def)
  moreover have "answers_of (ar_id r') (ai_messages db') = 0"
    using good ns unfolding changes_runD(2) [OF ch] own_rows [OF ch] run_good_def by simp
  ultimately show ?thesis using ns ok unfolding run_good_def by simp
qed

lemma quiet_change_tx:
  assumes inv: "runs_inv db" and r: "r \<in> set (ai_runs db)"
    and db': "ai_runs db' = map (\<lambda>x. if ar_id x = ar_id r then r' else x) (ai_runs db)"
      "ai_usage_ledger db' = ai_usage_ledger db" "ai_run_events db' = ai_run_events db" "ai_messages db' = ai_messages db" "ai_message_files db' = ai_message_files db"
    and seq: "ar_last_sequence r' = ar_last_sequence r" and act': "active_run r'"
    and act: "active_run r" and ok: "run_ok r'" and f: "run_identity r' = run_identity r" and ed: "run_edge (ar_status r) (ar_status r')"
  shows "run_tx db db'"
proof -
  have ch: "changes_run db db' r r' [] [] []" unfolding changes_run_def using r db' f by (simp add: run_identity_def)
  have "run_good db' r'" by (rule stays_good [OF runs_invD(2) [OF inv r] act act' ch _ _ ok]) (use f seq in \<open>simp_all add: run_identity_def\<close>)
  then show ?thesis using f ed seq by (intro change_tx [OF ch inv _ _ act] run_movesI) simp_all
qed

lemma releaseTerminal_tx:
  assumes inv: "runs_inv db" and st: "target = RunFailed \<or> target = RunCancelled"
  shows "run_tx db (snd (releaseTerminal fault student i target code now db))"
  unfolding releaseTerminal_def
proof (rule transact_invariant [of "run_tx db", OF run_tx_refl [OF inv]])
  fix x db'
  assume t: "(case run_of student i db of
       None \<Rightarrow> Inl ErrAINotFound
     | Some r \<Rightarrow>
         if ar_status r = target then Inr (Some r, db)
         else if ar_status r = RunSucceeded \<or> ar_status r = RunFailed \<or> ar_status r = RunCancelled then Inl ErrRunConflict
         else if target = RunCancelled \<and> ar_status r = RunStreaming
         then (let db1 = update_run i (\<lambda>r. r\<lparr>ar_cancel_requested_at := Some (case ar_cancel_requested_at r of None \<Rightarrow> now | Some t \<Rightarrow> t),
                     ar_updated_at := now\<rparr>) db
               in Inr (run_of student i db1, db1))
         else (let db1 = end_run target code None ''unknown'' (ar_total_ms r) now r db
               in Inr (run_of student i db1, db1))) = Inr (x, db')"
  then obtain r where r: "run_of student i db = Some r" by (auto split: option.splits)
  note R = run_of_find [OF r] and t = t [unfolded r option.case Let_def]
  show "run_tx db db'"
  proof (cases "ar_status r = target \<or> ar_status r = RunSucceeded \<or> ar_status r = RunFailed \<or> ar_status r = RunCancelled")
    case True
    with t have "db' = db" by (auto split: if_splits)
    with run_tx_refl [OF inv] show ?thesis by simp
  next
    case False
    then have act: "active_run r" unfolding active_run_def by (cases "ar_status r") auto
    show ?thesis
    proof (cases "target = RunCancelled \<and> ar_status r = RunStreaming")
      case True
      let ?f = "\<lambda>r. r\<lparr>ar_cancel_requested_at := Some (case ar_cancel_requested_at r of None \<Rightarrow> now | Some t \<Rightarrow> t), ar_updated_at := now\<rparr>"
      have db': "db' = update_run (ar_id r) ?f db" using t False True R(2) by simp
      have rok: "run_ok (?f r)" using runs_invD(2) [OF inv R(1)] unfolding run_good_def by (simp add: run_ok_def [of "?f r"]) (simp add: run_ok_def)
      show ?thesis unfolding db'
        by (rule quiet_change_tx [OF inv R(1) update_run_rows [OF runs_invD(1) [OF inv] R(1)]])
          (use act rok True in \<open>simp_all add: active_run_def run_identity_def run_edge_def\<close>)
    next
      case False2: False
      have "db' = end_run target code None ''unknown'' (ar_total_ms r) now r db" using t False False2 by auto
      with end_run_tx [OF inv R(1) act st] show ?thesis by simp
    qed
  qed
qed

lemma Heartbeat_run_tx:
  assumes inv: "runs_inv db"
  shows "run_tx db (snd (Heartbeat_run fault now i owner until db))"
proof (cases "(i = uuid_Nil \<or> owner = []) \<or> fault \<or> find (leased_by i owner) (ai_runs db) = None")
  case True
  then show ?thesis using run_tx_refl [OF inv] by (auto simp: Heartbeat_run_def)
next
  case False
  then obtain r where r: "find (leased_by i owner) (ai_runs db) = Some r" by auto
  note L = leased_by_find [OF r]
  have only: "leased_by i owner x \<longleftrightarrow> ar_id x = ar_id r" if "x \<in> set (ai_runs db)" for x
    using L that runs_invD(1) [OF inv] keyed_inj [of ar_id "ai_runs db" x r] by (auto simp: leased_by_def)
  let ?f = "\<lambda>r. r\<lparr>ar_heartbeat_at := Some now, ar_lease_expires_at := Some until, ar_updated_at := now\<rparr>"
  have db': "snd (Heartbeat_run fault now i owner until db) = db\<lparr>ai_runs := update_where (leased_by i owner) ?f (ai_runs db)\<rparr>"
    using False r by (simp add: Heartbeat_run_def)
  have "update_where (leased_by i owner) ?f (ai_runs db) = map (\<lambda>x. if ar_id x = ar_id r then ?f r else x) (ai_runs db)"
  proof -
    have "?f x = ?f r" if "x \<in> set (ai_runs db)" "ar_id x = ar_id r" for x
      using keyed_inj [OF runs_invD(1) [OF inv] that(1) L(1) that(2)] by (rule arg_cong)
    then show ?thesis unfolding update_where_def by (intro map_cong refl) (simp add: only)
  qed
  moreover have "run_ok r" using runs_invD(2) [OF inv L(1)] by (simp add: run_good_def)
  ultimately show ?thesis unfolding db'
    using L by (intro quiet_change_tx [OF inv L(1), where r' = "?f r"]) (simp_all add: active_run_def run_ok_def run_identity_def run_edge_def)
qed


lemma append_events_rows:
  assumes "append_events now i seq es db = Inr (seq', db')"
  obtains new where "ai_run_events db' = ai_run_events db @ new" "\<forall>e \<in> set new. re_run_id e = i" "list_all progress_event new"
    "map re_sequence new = [seq + 1..seq']" "seq \<le> seq'"
    "ai_runs db' = ai_runs db" "ai_usage_ledger db' = ai_usage_ledger db" "ai_messages db' = ai_messages db" "ai_message_files db' = ai_message_files db"
  using assms
proof (induction es arbitrary: seq db thesis)
  case Nil
  show ?case by (rule Nil(1) [of "[]"]) (use Nil(2) in auto)
next
  case (Cons e es)
  let ?e = "\<lparr>re_run_id = i, re_sequence = ev_Sequence e, re_kind = ev_Kind e, re_payload = ev_Delta e, re_error_code = None,
     re_created_at = (if ev_CreatedAt_run e = time_zero then now else ev_CreatedAt_run e)\<rparr>"
  from Cons.prems(2) have s: "ev_Sequence e = seq + 1" and k: "progress_event ?e"
    and rest: "append_events now i (seq + 1) es (insert_event i (seq + 1) (ev_Kind e) (ev_Delta e) None
       (if ev_CreatedAt_run e = time_zero then now else ev_CreatedAt_run e) db) = Inr (seq', db')"
    by (auto simp: progress_event_def split: if_splits)
  show ?case
  proof (rule Cons.IH [OF _ rest])
    fix new assume n: "ai_run_events db' = ai_run_events (insert_event i (seq + 1) (ev_Kind e) (ev_Delta e) None
       (if ev_CreatedAt_run e = time_zero then now else ev_CreatedAt_run e) db) @ new" "\<forall>e \<in> set new. re_run_id e = i"
      "list_all progress_event new" "map re_sequence new = [seq + 1 + 1..seq']" "seq + 1 \<le> seq'"
      "ai_runs db' = ai_runs (insert_event i (seq + 1) (ev_Kind e) (ev_Delta e) None
       (if ev_CreatedAt_run e = time_zero then now else ev_CreatedAt_run e) db)"
      "ai_usage_ledger db' = ai_usage_ledger (insert_event i (seq + 1) (ev_Kind e) (ev_Delta e) None
       (if ev_CreatedAt_run e = time_zero then now else ev_CreatedAt_run e) db)"
      "ai_messages db' = ai_messages (insert_event i (seq + 1) (ev_Kind e) (ev_Delta e) None
       (if ev_CreatedAt_run e = time_zero then now else ev_CreatedAt_run e) db)"
      "ai_message_files db' = ai_message_files (insert_event i (seq + 1) (ev_Kind e) (ev_Delta e) None
       (if ev_CreatedAt_run e = time_zero then now else ev_CreatedAt_run e) db)"
    show thesis
    proof (rule Cons.prems(1) [of "?e # new"])
      show "map re_sequence (?e # new) = [seq + 1..seq']" using n(4,5) s upto_rec1 [of "seq + 1" seq'] by simp
    qed (use n k s in simp_all)
  qed
qed

lemma AppendEvents_tx:
  assumes inv: "runs_inv db"
  shows "run_tx db (snd (AppendEvents fault now i owner es db))"
proof (cases "find (leased_by i owner) (ai_runs db)")
  case None
  then show ?thesis using run_tx_refl [OF inv] by (simp add: AppendEvents_def)
next
  case (Some r)
  note L = leased_by_find [OF Some]
  show ?thesis
  proof (cases "append_events now i (ar_last_sequence r) es db")
    case (Inl e)
    then show ?thesis using run_tx_refl [OF inv] by (simp add: AppendEvents_def Some)
  next
    case (Inr p)
    then obtain seq db1 where p: "append_events now i (ar_last_sequence r) es db = Inr (seq, db1)" by (cases p) auto
    let ?f = "\<lambda>r. r\<lparr>ar_last_sequence := seq, ar_updated_at := now\<rparr>"
    let ?db' = "update_run i ?f db1"
    have "run_tx db ?db'"
    proof (rule append_events_rows [OF p])
      fix new assume n: "ai_run_events db1 = ai_run_events db @ new" "\<forall>e \<in> set new. re_run_id e = i" "list_all progress_event new"
        "map re_sequence new = [ar_last_sequence r + 1..seq]" "ar_last_sequence r \<le> seq"
        "ai_runs db1 = ai_runs db" "ai_usage_ledger db1 = ai_usage_ledger db" "ai_messages db1 = ai_messages db"
        "ai_message_files db1 = ai_message_files db"
      have ch: "changes_run db ?db' r (?f r) [] new []"
        unfolding changes_run_def using n L update_run_rows [of db1 r ?f] runs_invD(1) [OF inv] by simp
      have good: "run_good db r" by (rule runs_invD(2) [OF inv L(1)])
      have ok: "run_ok (?f r)" using good n(5) by (simp add: run_good_def run_ok_def [of "?f r"]) (simp add: run_ok_def)
      have act: "active_run (?f r)" using L(3) by (simp add: active_run_def)
      have "run_good ?db' (?f r)" by (rule stays_good [OF good L(3) act ch _ _ ok]) (use n in simp_all)
      moreover have "run_moves r (?f r)" using n(5) L(4) by (intro run_movesI) (simp_all add: run_identity_def run_edge_def)
      ultimately show ?thesis by (rule change_tx [OF ch inv _ _ L(3)])
    qed
    then show ?thesis using run_tx_refl [OF inv] p by (simp add: AppendEvents_def Some)
  qed
qed

lemma oldest_run_mem: "oldest_run busy p db = Some r \<Longrightarrow> r \<in> set (ai_runs db) \<and> p r"
proof -
  assume a: "oldest_run busy p db = Some r"
  then have "r \<in> set (filter (\<lambda>r. \<not> busy (ar_id r)) (sort_key (\<lambda>r. (ar_created_at r, ar_id r)) (filter p (ai_runs db))))"
    unfolding oldest_run_def by (auto split: list.splits simp del: set_filter)
  then show ?thesis by simp
qed

lemma lease_tx_tx:
  assumes inv: "runs_inv db"
  shows "run_tx db (snd (lease_tx sha url_ok fault adm busy owner now dur db))"
proof -
  have rot: "run_tx db db1" if "failQueuedRunWithRotatedKey busy now db = Some db1" for db1
    using that oldest_run_mem end_run_tx [OF inv] by (fastforce simp: failQueuedRunWithRotatedKey_def rotated_def active_run_def)
  have claimed: "run_tx db (update_run (ar_id r) (claim_run owner now dur) db)" if "oldest_run busy (\<lambda>r. ar_status r = RunQueued) db = Some r" for r
  proof -
    from oldest_run_mem [OF that] have r: "r \<in> set (ai_runs db)" "ar_status r = RunQueued" by auto
    have "run_ok r" using runs_invD(2) [OF inv r(1)] by (simp add: run_good_def)
    with r(2) show ?thesis
      by (intro quiet_change_tx [OF inv r(1) update_run_rows [OF runs_invD(1) [OF inv] r(1)]]) (simp_all add: claim_run_def active_run_def run_ok_def run_identity_def run_edge_def)
  qed
  show ?thesis using run_tx_refl [OF inv] rot claimed
    by (simp add: lease_tx_def Let_def split: option.split sum.split prod.split ops_error.split)
qed

lemma reconcileOneExpired_tx:
  assumes inv: "runs_inv db"
  shows "run_tx db (snd (reconcileOneExpired fault busy now db))"
  unfolding reconcileOneExpired_def
proof (rule transact_invariant [of "run_tx db", OF run_tx_refl [OF inv]])
  fix x db'
  assume t: "(case sort_key (\<lambda>r. (case ar_lease_expires_at r of None \<Rightarrow> 0 | Some t \<Rightarrow> t, ar_id r)) (filter (expired_run now) (ai_runs db)) of
       [] \<Rightarrow> Inr (False, db)
     | r # _ \<Rightarrow>
         if busy (ar_id r) then Inr (True, db)
         else Inr (True, end_run RunFailed ''runner_lost'' None ''unknown'' (lost_total_ms now r) now r db)) = Inr (x, db')"
  show "run_tx db db'"
  proof (cases "sort_key (\<lambda>r. (case ar_lease_expires_at r of None \<Rightarrow> 0 | Some t \<Rightarrow> t, ar_id r)) (filter (expired_run now) (ai_runs db))")
    case Nil
    with t run_tx_refl [OF inv] show ?thesis by simp
  next
    case (Cons r rest)
    then have "r \<in> set (filter (expired_run now) (ai_runs db))" by (metis list.set_intros(1) set_sort)
    then have r: "r \<in> set (ai_runs db)" "active_run r" by (auto simp: expired_run_def active_run_def)
    from t Cons run_tx_refl [OF inv] end_run_tx [OF inv r] show ?thesis by (auto split: if_splits)
  qed
qed

lemma clear_stale_queued_id: "runs_inv db \<Longrightarrow> clear_stale_queued now db = db"
proof -
  assume inv: "runs_inv db"
  have "\<not> (ar_status r = RunQueued \<and> (case ar_lease_expires_at r of None \<Rightarrow> False | Some t \<Rightarrow> t < now))" if "r \<in> set (ai_runs db)" for r
    using runs_invD(2) [OF inv that] by (auto simp: run_good_def run_ok_def split: option.splits)
  then have "update_where (\<lambda>r. ar_status r = RunQueued \<and> (case ar_lease_expires_at r of None \<Rightarrow> False | Some t \<Rightarrow> t < now)) f (ai_runs db) = ai_runs db" for f
    unfolding update_where_def by (intro map_idI if_not_P) blast
  then show ?thesis by (simp add: clear_stale_queued_def)
qed

lemma same_tables_tx: "same_tables db db' \<Longrightarrow> runs_inv db \<Longrightarrow> run_tx db db'"
  unfolding run_tx_def same_tables_def
  by (intro conjI exI [of _ "\<lambda>r. r"]) (simp_all add: runs_inv_def run_good_def linked_def)


section \<open>Admission\<close>

text \<open>A new run with its reservation; a message of the student may come with it.\<close>

definition reserve_rows :: "ai_run \<Rightarrow> time \<Rightarrow> ledger_row list" where
  "reserve_rows r now = map (\<lambda>k. ledger_row_for r Reserve k (ar_reserved_requests r) (ar_reserved_tokens r) now) [Day, Month]"

definition adds_run :: "ai_db \<Rightarrow> ai_db \<Rightarrow> ai_run \<Rightarrow> time \<Rightarrow> bool" where
  "adds_run db db' r now \<longleftrightarrow>
     (\<forall>x \<in> set (ai_runs db). ar_id x \<noteq> ar_id r \<and> (active_run x \<longrightarrow> ar_student_id x \<noteq> ar_student_id r)) \<and>
     ar_status r = RunQueued \<and> ar_lease_owner r = None \<and> ar_lease_expires_at r = None \<and> ar_last_sequence r = 0 \<and>
     1 \<le> ar_reserved_requests r \<and> 0 \<le> ar_reserved_tokens r \<and>
     ai_runs db' = ai_runs db @ [r] \<and> ai_usage_ledger db' = ai_usage_ledger db @ reserve_rows r now \<and>
     ai_run_events db' = ai_run_events db \<and> 
     (\<exists>ms. ai_messages db' = ai_messages db @ ms \<and> (\<forall>m \<in> set ms. mg_RunID m = None) \<and>
        (\<forall>f \<in> set (ai_message_files db'). f \<in> set (ai_message_files db) \<or> (\<exists>m \<in> set ms. mg_ID m = mf_message_id f)))"

lemma adds_runD:
  assumes "adds_run db db' r now"
  shows "x \<in> set (ai_runs db) \<Longrightarrow> ar_id x \<noteq> ar_id r" "x \<in> set (ai_runs db) \<Longrightarrow> active_run x \<Longrightarrow> ar_student_id x \<noteq> ar_student_id r"
    "ar_status r = RunQueued" "ar_lease_owner r = None" "ar_lease_expires_at r = None" "ar_last_sequence r = 0"
    "1 \<le> ar_reserved_requests r" "0 \<le> ar_reserved_tokens r" "ai_runs db' = ai_runs db @ [r]"
    "ai_usage_ledger db' = ai_usage_ledger db @ reserve_rows r now" "ai_run_events db' = ai_run_events db"
    "answers_of i (ai_messages db') = answers_of i (ai_messages db)"
    "m \<in> set (ai_messages db') \<Longrightarrow> mg_RunID m = Some i \<Longrightarrow> m \<in> set (ai_messages db)"
  using assms unfolding adds_run_def by (auto simp: answers_of_def filter_empty_conv)

lemma adds_run_files:
  assumes "adds_run db db' r now" and "\<And>f. f \<in> set (ai_message_files db) \<Longrightarrow> \<exists>m \<in> set (ai_messages db). mg_ID m = mf_message_id f"
    and f: "f \<in> set (ai_message_files db')"
  shows "\<exists>m \<in> set (ai_messages db'). mg_ID m = mf_message_id f"
proof -
  from assms(1) obtain ms where ms: "ai_messages db' = ai_messages db @ ms"
    "\<forall>f \<in> set (ai_message_files db'). f \<in> set (ai_message_files db) \<or> (\<exists>m \<in> set ms. mg_ID m = mf_message_id f)" unfolding adds_run_def by blast
  from ms(2) f consider "f \<in> set (ai_message_files db)" | "\<exists>m \<in> set ms. mg_ID m = mf_message_id f" by blast
  then show ?thesis
  proof cases
    case 1
    from assms(2) [OF 1] show ?thesis unfolding ms(1) by auto
  next
    case 2
    then show ?thesis unfolding ms(1) by auto
  qed
qed

lemma unseen_run:
  assumes "linked db" and "\<And>x. x \<in> set (ai_runs db) \<Longrightarrow> ar_id x \<noteq> i"
  shows "ledger_of i k (ai_usage_ledger db) = []" "events_of i (ai_run_events db) = []" "answers_of i (ai_messages db) = 0"
  using assms by (auto simp: linked_def owned_entry_def ledger_of_def events_of_def answers_of_def filter_empty_conv)

lemma ledger_of_reserve:
  "ledger_of i k (reserve_rows r now) = (if i = ar_id r then [(Reserve, ar_reserved_requests r, ar_reserved_tokens r)] else [])"
  by (cases k) (simp_all add: ledger_of_def reserve_rows_def ledger_row_for_def)

lemma adds_run_inv:
  assumes ad: "adds_run db db' r now" and inv: "runs_inv db"
  shows "runs_inv db'"
proof -
  note A = adds_runD [OF ad] and I = runs_invD [OF inv]
  have led: "ledger_of i k (ai_usage_ledger db') = ledger_of i k (ai_usage_ledger db) @ ledger_of i k (reserve_rows r now)" for i k
    unfolding A(10) by (simp add: ledger_of_def)
  have act: "active_run r" "run_ok r" using A(3-8) by (simp_all add: active_run_def run_ok_def)
  have "run_good db' r"
    using act unseen_run [OF I(4) A(1)] A(3,6) unfolding run_good_def led ledger_of_reserve A(11,12) balanced_def events_ok_def Let_def by simp
  moreover have "run_good db' x" if "x \<in> set (ai_runs db)" for x
    using I(2) [OF that] A(1) [OF that] unfolding run_good_def led ledger_of_reserve A(11,12) by simp
  moreover have "keyed ar_id (ai_runs db')" unfolding A(9) using keyed_append1 [OF I(1)] A(1) by blast
  moreover have "one_active (ai_runs db')" unfolding one_active_def A(9) using one_activeD [OF I(3)] A(2) A(2) [symmetric] by auto
  moreover have "linked db'"
    using I(4) A(13) adds_run_files [OF ad] unfolding linked_def A(9-11) by (auto simp: owned_entry_def reserve_rows_def ledger_row_for_def period_key_def)
  ultimately show ?thesis unfolding runs_inv_def A(9) by auto
qed

lemma CheckQuota_counts: "CheckQuota limits used q = None \<Longrightarrow> 1 \<le> qr_RequestCount q \<and> 0 \<le> qr_TokenCount q"
  by (simp add: CheckQuota_def split: if_splits)

lemma reserveQuota_counts: "reserveQuota student q db = None \<Longrightarrow> 1 \<le> qr_RequestCount q \<and> 0 \<le> qr_TokenCount q"
  by (auto simp: reserveQuota_def dest: CheckQuota_counts split: sum.splits)

lemma insertRun_Inr:
  assumes "insertRun r db = Inr db'"
  shows "db' = db\<lparr>ai_runs := ai_runs db @ [r]\<rparr>"
    "x \<in> set (ai_runs db) \<Longrightarrow> ar_id x \<noteq> ar_id r" "x \<in> set (ai_runs db) \<Longrightarrow> active_run x \<Longrightarrow> ar_student_id x \<noteq> ar_student_id r"
  using assms by (auto simp: insertRun_def list_ex_iff split: if_splits)

lemma insertReserveRows_Inr: "insertReserveRows r now db = Inr db' \<Longrightarrow> db' = db\<lparr>ai_usage_ledger := ai_usage_ledger db @ reserve_rows r now\<rparr>"
  unfolding insertReserveRows_def reserve_rows_def Let_def by (metis (no_types, lifting) Inr_inject sum.distinct(1))

lemma insert_thread_tables:
  assumes "insert_thread i db = Inr db'"
  shows "ai_runs db' = ai_runs db" "ai_usage_ledger db' = ai_usage_ledger db" "ai_run_events db' = ai_run_events db"
    "ai_messages db' = ai_messages db" "ai_message_files db' = ai_message_files db"
  using assms by (auto simp: insert_thread_def split: if_splits)

fun attachment_rows :: "uuid \<Rightarrow> nat \<Rightarrow> AttachmentMetadata list \<Rightarrow> message_file list" where
  "attachment_rows message n [] = []"
| "attachment_rows message n (a # rest) = \<lparr>mf_message_id = message, mf_file_version_id = am_FileVersionID a, mf_sort_position = n,
     mf_display_name = am_DisplayName a\<rparr> # attachment_rows message (Suc n) rest"

lemma insert_files_rows:
  "insert_files att m n as db = Inr db' \<Longrightarrow> db' = db\<lparr>ai_message_files := ai_message_files db @ attachment_rows m n as\<rparr>"
  by (induction att m n as db rule: insert_files.induct) (auto split: if_splits)

lemma attachment_rows_message: "f \<in> set (attachment_rows m n as) \<Longrightarrow> mf_message_id f = m"
  by (induction m n as rule: attachment_rows.induct) auto

lemma admit_newE:
  assumes "admit_new att newRun i db = Inr ((detail, run), db')"
  obtains db1 db2 db3 db4 db5 where "insert_thread i db = Inr db1" "insert_message (student_message i) db1 = Inr db2"
    "insert_files att (ra_MessageID i) 0 (ra_Attachments i) db2 = Inr db3"
    "insertRun (admitted_run newRun i) db3 = Inr db4" "insertReserveRows (admitted_run newRun i) (ra_Now i) db4 = Inr db5"
    "run = admitted_run newRun i" "db' = db5\<lparr>ai_threads := update_where (\<lambda>t. th_ID t = ra_ThreadID i \<and> th_StudentID t = ra_StudentID i)
               (th_LastMessageAt_update (\<lambda>_. ra_Now i)) (ai_threads db5)\<rparr>"
    "getThreadTx (ra_StudentID i) (ra_ThreadID i) no_cursor db' = Inr detail"
proof -
  note t = assms [unfolded admit_new_def Let_def]
  obtain db1 where 1: "insert_thread i db = Inr db1" using t by (cases "insert_thread i db") simp_all
  note t = t [unfolded 1 sum.case]
  obtain db2 where 2: "insert_message (student_message i) db1 = Inr db2" using t by (cases "insert_message (student_message i) db1") simp_all
  note t = t [unfolded 2 sum.case]
  obtain db3 where 3: "insert_files att (ra_MessageID i) 0 (ra_Attachments i) db2 = Inr db3"
    using t by (cases "insert_files att (ra_MessageID i) 0 (ra_Attachments i) db2") simp_all
  note t = t [unfolded 3 sum.case]
  obtain db4 where 4: "insertRun (admitted_run newRun i) db3 = Inr db4" using t by (cases "insertRun (admitted_run newRun i) db3") simp_all
  note t = t [unfolded 4 sum.case]
  obtain db5 where 5: "insertReserveRows (admitted_run newRun i) (ra_Now i) db4 = Inr db5"
    using t by (cases "insertReserveRows (admitted_run newRun i) (ra_Now i) db4") simp_all
  note t = t [unfolded 5 sum.case]
  have "run = admitted_run newRun i \<and> db' = db5\<lparr>ai_threads := update_where (\<lambda>t. th_ID t = ra_ThreadID i \<and> th_StudentID t = ra_StudentID i)
               (th_LastMessageAt_update (\<lambda>_. ra_Now i)) (ai_threads db5)\<rparr> \<and> getThreadTx (ra_StudentID i) (ra_ThreadID i) no_cursor db' = Inr detail"
    using t by (cases "getThreadTx (ra_StudentID i) (ra_ThreadID i) no_cursor (db5\<lparr>ai_threads := update_where (\<lambda>t. th_ID t = ra_ThreadID i \<and> th_StudentID t = ra_StudentID i)
               (th_LastMessageAt_update (\<lambda>_. ra_Now i)) (ai_threads db5)\<rparr>)") simp_all
  then show thesis by (elim conjE) (rule that [OF 1 2 3 4 5])
qed

lemma admit_new_adds:
  assumes "admit_new att newRun i db = Inr ((detail, run), db')" and q: "reserveQuota (ra_StudentID i) (ra_Reservation i) db = None"
  shows "run = admitted_run newRun i \<and> adds_run db db' run (ra_Now i)"
proof -
  from assms(1) obtain db1 db2 db3 db4 db5 where t:
    "insert_thread i db = Inr db1" "insert_message (student_message i) db1 = Inr db2" "insert_files att (ra_MessageID i) 0 (ra_Attachments i) db2 = Inr db3"
    "insertRun (admitted_run newRun i) db3 = Inr db4" "insertReserveRows (admitted_run newRun i) (ra_Now i) db4 = Inr db5"
    and run: "run = admitted_run newRun i" and db': "db' = db5\<lparr>ai_threads := update_where (\<lambda>t. th_ID t = ra_ThreadID i \<and> th_StudentID t = ra_StudentID i)
               (th_LastMessageAt_update (\<lambda>_. ra_Now i)) (ai_threads db5)\<rparr>"
    by (rule admit_newE)
  have runs: "ai_runs db3 = ai_runs db" using insert_message_tables [OF t(2)] insert_files_rows [OF t(3)] insert_thread_tables [OF t(1)] by simp
  have tabs: "ai_runs db' = ai_runs db @ [run]" "ai_usage_ledger db' = ai_usage_ledger db @ reserve_rows run (ra_Now i)"
    "ai_run_events db' = ai_run_events db" "ai_messages db' = ai_messages db @ [student_message i]"
    "ai_message_files db' = ai_message_files db @ attachment_rows (ra_MessageID i) 0 (ra_Attachments i)"
    using insert_message_tables [OF t(2)] insert_thread_tables [OF t(1)]
    by (simp_all add: db' insertReserveRows_Inr [OF t(5)] insertRun_Inr(1) [OF t(4)] insert_files_rows [OF t(3)] run)
  have fresh: "\<forall>x \<in> set (ai_runs db). ar_id x \<noteq> ar_id run \<and> (active_run x \<longrightarrow> ar_student_id x \<noteq> ar_student_id run)"
    using insertRun_Inr(2,3) [OF t(4)] unfolding runs run by blast
  have "adds_run db db' run (ra_Now i)"
    unfolding adds_run_def using fresh tabs reserveQuota_counts [OF q] attachment_rows_message
    by (auto simp: run admitted_run_def new_run_def student_message_def)
  with run show ?thesis by simp
qed

lemma retry_new_adds:
  assumes "retry_new i source db = Inr ((detail, run), db')" and q: "reserveQuota (rr_StudentID i) (rr_Reservation i) db = None"
  shows "run = retried_run i source db \<and> adds_run db db' run (rr_Now i)"
proof -
  from assms(1) obtain db1 where t: "insertRun (retried_run i source db) db = Inr db1" "insertReserveRows (retried_run i source db) (rr_Now i) db1 = Inr db'"
    and run: "run = retried_run i source db"
    unfolding retry_new_def by (auto split: sum.splits)
  note T = insertRun_Inr [OF t(1)] insertReserveRows_Inr [OF t(2)]
  have "adds_run db db' (retried_run i source db) (rr_Now i)"
    unfolding adds_run_def using T reserveQuota_counts [OF q] by (auto simp: retried_run_def new_run_def)
  with run show ?thesis by simp
qed


lemma AdmitRun_cases [consumes 1, case_names replayed admitted]:
  assumes "AdmitRun sha att fault newRun i db = (Inr (detail, run), db')"
  obtains "findRunByKey (ra_StudentID i) (ra_IdempotencyKey i) db = Some run" "replay_admission i run db = Inr ((detail, run), db)" "db' = db"
  | "findRunByKey (ra_StudentID i) (ra_IdempotencyKey i) db = None" "reserveQuota (ra_StudentID i) (ra_Reservation i) db = None"
    "admit_new att newRun i db = Inr ((detail, run), db')"
proof -
  have v: "\<not> \<not> validAdmission i" using assms unfolding AdmitRun_def by (rule contrapos_pn) simp
  note t = transact_Inr [OF assms [unfolded AdmitRun_def if_not_P [OF v]], THEN conjunct2]
  show thesis
  proof (cases "findRunByKey (ra_StudentID i) (ra_IdempotencyKey i) db")
    case (Some r)
    note t = t [unfolded Some option.case]
    have "r = run \<and> db' = db" using t unfolding replay_admission_def Let_def by (auto split: sum.splits if_splits)
    with t Some that(1) show thesis by metis
  next
    case None
    note t = t [unfolded None option.case]
    have "validateActiveStudent (ra_StudentID i) db = None" using t by (cases "validateActiveStudent (ra_StudentID i) db") simp_all
    note t = t [unfolded this option.case]
    have "\<not> (\<not> ra_CreateThread i \<and> \<not> list_ex (\<lambda>t. th_ID t = ra_ThreadID i \<and> th_StudentID t = ra_StudentID i \<and> th_Subject t = ra_Subject i) (ai_threads db))"
      using t by (rule contrapos_pn) simp
    note t = t [unfolded if_not_P [OF this]]
    have "validateAndLockSnapshot sha (ra_Snapshot i) db = None" using t by (cases "validateAndLockSnapshot sha (ra_Snapshot i) db") simp_all
    note t = t [unfolded this option.case]
    have q: "reserveQuota (ra_StudentID i) (ra_Reservation i) db = None" using t by (cases "reserveQuota (ra_StudentID i) (ra_Reservation i) db") simp_all
    show thesis by (rule that(2) [OF None q t [unfolded q option.case]])
  qed
qed

lemma RetryRun_cases [consumes 1, case_names replayed admitted]:
  assumes "RetryRun sha fault i db = (Inr (detail, run), db')"
  obtains "findRunByKey (rr_StudentID i) (rr_IdempotencyKey i) db = Some run" "db' = db"
  | source where "run_of (rr_StudentID i) (rr_SourceRunID i) db = Some source" "findRunByKey (rr_StudentID i) (rr_IdempotencyKey i) db = None"
    "reserveQuota (rr_StudentID i) (rr_Reservation i) db = None" "retry_new i source db = Inr ((detail, run), db')"
proof -
  have v: "\<not> (rr_StudentID i = uuid_Nil \<or> rr_SourceRunID i = uuid_Nil \<or> rr_RunID i = uuid_Nil \<or> \<not> validIdempotency (rr_IdempotencyKey i))"
    using assms unfolding RetryRun_def by (rule contrapos_pn) simp
  note t = transact_Inr [OF assms [unfolded RetryRun_def if_not_P [OF v]], THEN conjunct2]
  obtain source where s: "run_of (rr_StudentID i) (rr_SourceRunID i) db = Some source"
    using t by (cases "run_of (rr_StudentID i) (rr_SourceRunID i) db") simp_all
  note t = t [unfolded s option.case]
  have "\<not> (ar_status source \<noteq> RunFailed \<and> ar_status source \<noteq> RunCancelled)" using t by (rule contrapos_pn) simp
  note t = t [unfolded if_not_P [OF this]]
  show thesis
  proof (cases "findRunByKey (rr_StudentID i) (rr_IdempotencyKey i) db")
    case (Some r)
    note t = t [unfolded Some option.case]
    have "r = run \<and> db' = db" using t by (auto split: sum.splits if_splits)
    with Some that(1) show thesis by metis
  next
    case None
    note t = t [unfolded None option.case]
    have "validateAndLockSnapshot sha (rr_Snapshot i) db = None" using t by (cases "validateAndLockSnapshot sha (rr_Snapshot i) db") simp_all
    note t = t [unfolded this option.case]
    have q: "reserveQuota (rr_StudentID i) (rr_Reservation i) db = None" using t by (cases "reserveQuota (rr_StudentID i) (rr_Reservation i) db") simp_all
    show thesis by (rule that(2) [OF s None q t [unfolded q option.case]])
  qed
qed

lemma AdmitRun_outcome:
  "snd (AdmitRun sha att fault newRun i db) = db \<or>
   (reserveQuota (ra_StudentID i) (ra_Reservation i) db = None \<and>
    adds_run db (snd (AdmitRun sha att fault newRun i db)) (admitted_run newRun i) (ra_Now i))"
proof (cases "AdmitRun sha att fault newRun i db")
  case (Pair res db')
  show ?thesis
  proof (cases res)
    case (Inl e)
    with Pair have "db' = db" unfolding AdmitRun_def by (auto split: if_splits dest: transact_Inl)
    with Pair show ?thesis by simp
  next
    case (Inr p)
    obtain detail run where p: "p = (detail, run)" by (cases p)
    from Pair [unfolded Inr p] show ?thesis
    proof (cases rule: AdmitRun_cases)
      case replayed
      with Pair show ?thesis by simp
    next
      case admitted
      with admit_new_adds [OF admitted(3,2)] Pair show ?thesis by auto
    qed
  qed
qed

lemma RetryRun_outcome:
  "snd (RetryRun sha fault i db) = db \<or>
   (\<exists>source. reserveQuota (rr_StudentID i) (rr_Reservation i) db = None \<and>
    adds_run db (snd (RetryRun sha fault i db)) (retried_run i source db) (rr_Now i))"
proof (cases "RetryRun sha fault i db")
  case (Pair res db')
  show ?thesis
  proof (cases res)
    case (Inl e)
    with Pair have "db' = db" unfolding RetryRun_def by (auto split: if_splits dest: transact_Inl)
    with Pair show ?thesis by simp
  next
    case (Inr p)
    obtain detail run where p: "p = (detail, run)" by (cases p)
    from Pair [unfolded Inr p] show ?thesis
    proof (cases rule: RetryRun_cases)
      case replayed
      with Pair show ?thesis by simp
    next
      case (admitted source)
      with retry_new_adds [OF admitted(4,3)] Pair show ?thesis by auto
    qed
  qed
qed

text \<open>A step changes existing runs along their life cycle, or it admits one run after the quota check.\<close>

definition admission_tx :: "ai_db \<Rightarrow> ai_db \<Rightarrow> ai_run \<Rightarrow> QuotaReservation \<Rightarrow> time \<Rightarrow> bool" where
  "admission_tx db db' r q now \<longleftrightarrow> adds_run db db' r now \<and> reserveQuota (ar_student_id r) q db = None \<and> limits_small db \<and> small_reservation q \<and>
     ar_reserved_requests r = qr_RequestCount q \<and> ar_reserved_tokens r = qr_TokenCount q \<and> ar_day_key r = qr_DayKey q \<and> ar_month_key r = qr_MonthKey q"

lemma AdmitRun_tx:
  assumes "runs_inv db" "small_reservation (ra_Reservation i)" "limits_small db"
  shows "run_tx db (snd (AdmitRun sha att fault newRun i db)) \<or>
    admission_tx db (snd (AdmitRun sha att fault newRun i db)) (admitted_run newRun i) (ra_Reservation i) (ra_Now i)"
proof -
  have f: "ar_student_id (admitted_run newRun i) = ra_StudentID i" "ar_reserved_requests (admitted_run newRun i) = qr_RequestCount (ra_Reservation i)"
    "ar_reserved_tokens (admitted_run newRun i) = qr_TokenCount (ra_Reservation i)" "ar_day_key (admitted_run newRun i) = qr_DayKey (ra_Reservation i)"
    "ar_month_key (admitted_run newRun i) = qr_MonthKey (ra_Reservation i)" by (simp_all add: admitted_run_def new_run_def)
  show ?thesis using AdmitRun_outcome [of sha att fault newRun i db] assms run_tx_refl [OF assms(1)] f unfolding admission_tx_def by metis
qed

lemma RetryRun_tx:
  assumes "runs_inv db" "small_reservation (rr_Reservation i)" "limits_small db"
  shows "run_tx db (snd (RetryRun sha fault i db)) \<or>
    (\<exists>source. admission_tx db (snd (RetryRun sha fault i db)) (retried_run i source db) (rr_Reservation i) (rr_Now i))"
proof -
  have f: "ar_student_id (retried_run i source db) = rr_StudentID i" "ar_reserved_requests (retried_run i source db) = qr_RequestCount (rr_Reservation i)"
    "ar_reserved_tokens (retried_run i source db) = qr_TokenCount (rr_Reservation i)" "ar_day_key (retried_run i source db) = qr_DayKey (rr_Reservation i)"
    "ar_month_key (retried_run i source db) = qr_MonthKey (rr_Reservation i)" for source by (simp_all add: retried_run_def new_run_def)
  show ?thesis using RetryRun_outcome [of sha fault i db] assms run_tx_refl [OF assms(1)] f unfolding admission_tx_def by metis
qed

lemma ai_step_effect:
  assumes "ai_step db db'" and inv: "runs_inv db"
  shows "run_tx db db' \<or> (\<exists>r q now. admission_tx db db' r q now)"
  using assms
proof (induction rule: ai_step.induct)
  case (step_admit i db sha att fault newRun)
  then show ?case using AdmitRun_tx by metis
next
  case (step_retry i db sha fault)
  then show ?case using RetryRun_tx by metis
next
  case (step_cancel db fault student i now)
  then show ?case unfolding CancelRun_def using releaseTerminal_tx by blast
next
  case (step_fail_run db fault student i code now)
  then show ?case unfolding FailRun_def using releaseTerminal_tx by blast
qed (simp_all add: lease_tx_tx Heartbeat_run_tx AppendEvents_tx Complete_run_tx Fail_run_tx reconcileOneExpired_tx
      clear_stale_queued_id same_tables_tx run_tx_refl)

lemma ai_step_inv: "ai_step db db' \<Longrightarrow> runs_inv db \<Longrightarrow> runs_inv db'"
  using ai_step_effect adds_run_inv unfolding run_tx_def admission_tx_def by metis

lemma empty_inv: "empty_ai_db db \<Longrightarrow> runs_inv db"
  by (simp add: empty_ai_db_def runs_inv_def keyed_def one_active_def linked_def)

lemma ai_reachable_inv: "ai_reachable db \<Longrightarrow> runs_inv db"
proof -
  assume "ai_reachable db"
  then obtain db0 where "empty_ai_db db0" "ai_step\<^sup>*\<^sup>* db0 db" unfolding ai_reachable_def by blast
  from this(2) show ?thesis by (induction rule: rtranclp_induct) (use \<open>empty_ai_db db0\<close> in \<open>simp_all add: empty_inv ai_step_inv\<close>)
qed

end
