(* ===== verification/AI_Accounting.thy ===== *)
theory AI_Accounting
  imports AI_Machine
begin

text \<open>
  The quota accounts of AI runs. \<open>used\<close> sums the ledger of a student and a period, the way
  \<^verbatim>\<open>reserveQuota\<close> of \<^verbatim>\<open>internal/aiqa/postgres_runtime.go\<close> reads it; \<open>held_requests\<close> and
  \<open>held_tokens\<close> are what a run accounts for by its own row. The ledger agrees with the runs, the
  wrapping sums of the quota check are exact, and usage grows only within the limits.
\<close>

section \<open>Usage\<close>

definition used :: "(ledger_row \<Rightarrow> int) \<Rightarrow> uuid \<Rightarrow> period_kind \<Rightarrow> string \<Rightarrow> ledger_row list \<Rightarrow> int" where
  "used f student k key rows =
     (\<Sum>l \<leftarrow> filter (\<lambda>l. lg_student_id l = student \<and> lg_period_kind l = k \<and> lg_period_key l = key) rows. f l)"

definition held_requests :: "ai_run \<Rightarrow> int" where
  "held_requests r = (if active_run r \<or> ar_status r = RunSucceeded then ar_reserved_requests r else 0)"

definition held_tokens :: "ai_run \<Rightarrow> int" where
  "held_tokens r = (if active_run r then ar_reserved_tokens r
     else if ar_status r = RunSucceeded
     then (case ar_usage r of None \<Rightarrow> 0 | Some (inp, out, _) \<Rightarrow> min (add_saturating inp out) (ar_reserved_tokens r))
     else 0)"

definition period_runs :: "uuid \<Rightarrow> period_kind \<Rightarrow> string \<Rightarrow> ai_db \<Rightarrow> ai_run list" where
  "period_runs student k key db = filter (\<lambda>r. ar_student_id r = student \<and> period_key k r = key) (ai_runs db)"

lemma sum_list_group:
  fixes f :: "'a \<Rightarrow> int"
  assumes "distinct is" and "\<And>x. x \<in> set xs \<Longrightarrow> h x \<in> set is"
  shows "(\<Sum>x \<leftarrow> xs. f x) = (\<Sum>i \<leftarrow> is. \<Sum>x \<leftarrow> filter (\<lambda>x. h x = i) xs. f x)"
  using assms(2)
proof (induction xs)
  case Nil
  show ?case by (induction "is") simp_all
next
  case (Cons x xs)
  have "(\<Sum>i \<leftarrow> is. \<Sum>y \<leftarrow> filter (\<lambda>y. h y = i) (x # xs). f y) = (\<Sum>i \<leftarrow> is. (if i = h x then f x else 0) + (\<Sum>y \<leftarrow> filter (\<lambda>y. h y = i) xs. f y))"
    by (intro arg_cong [where f = sum_list] map_cong refl) simp
  also have "\<dots> = (\<Sum>i \<leftarrow> is. (if i = h x then f x else 0)) + (\<Sum>i \<leftarrow> is. \<Sum>y \<leftarrow> filter (\<lambda>y. h y = i) xs. f y)"
    by (rule sum_list_addf)
  also have "(\<Sum>i \<leftarrow> is. (if i = h x then f x else 0)) = f x"
    using assms(1) Cons.prems [of x] by (simp add: sum_list_distinct_conv_sum_set)
  finally show ?case using Cons by simp
qed

lemma ledger_of_sums:
  assumes "run_good db r"
  shows "(\<Sum>(a, q, t) \<leftarrow> ledger_of (ar_id r) k (ai_usage_ledger db). q) = held_requests r"
    "(\<Sum>(a, q, t) \<leftarrow> ledger_of (ar_id r) k (ai_usage_ledger db). t) = held_tokens r"
proof -
  have b: "balanced r (ledger_of (ar_id r) k (ai_usage_ledger db))" using assms by (simp add: run_good_def)
  then show "(\<Sum>(a, q, t) \<leftarrow> ledger_of (ar_id r) k (ai_usage_ledger db). q) = held_requests r"
    "(\<Sum>(a, q, t) \<leftarrow> ledger_of (ar_id r) k (ai_usage_ledger db). t) = held_tokens r"
    by (auto simp: balanced_def Let_def held_requests_def held_tokens_def charge_def split: if_splits option.splits)
qed

lemma used_by_runs:
  assumes inv: "runs_inv db" and f: "\<And>r. r \<in> set (ai_runs db) \<Longrightarrow> (\<Sum>l \<leftarrow> filter (\<lambda>l. lg_run_id l = ar_id r \<and> lg_period_kind l = k) (ai_usage_ledger db). f l) = g r"
  shows "used f student k key (ai_usage_ledger db) = (\<Sum>r \<leftarrow> period_runs student k key db. g r)"
proof -
  let ?rows = "filter (\<lambda>l. lg_student_id l = student \<and> lg_period_kind l = k \<and> lg_period_key l = key) (ai_usage_ledger db)"
  let ?runs = "period_runs student k key db"
  note I = runs_invD [OF inv]
  have dist: "distinct (map ar_id ?runs)" using I(1) unfolding keyed_def period_runs_def by (rule distinct_map_filter)
  have owner: "r = x \<longleftrightarrow> lg_run_id l = ar_id r" "lg_student_id l = ar_student_id x" "lg_period_key l = period_key (lg_period_kind l) x"
    if "l \<in> set (ai_usage_ledger db)" "r \<in> set (ai_runs db)" "x \<in> set (ai_runs db)" "ar_id x = lg_run_id l" for l r x
  proof -
    from I(4) that(1) obtain y where y: "y \<in> set (ai_runs db)" "ar_id y = lg_run_id l" "lg_student_id l = ar_student_id y" "lg_period_key l = period_key (lg_period_kind l) y"
      unfolding linked_def owned_entry_def by blast
    then have "y = x" using that keyed_inj [OF I(1), of y x] by simp
    with y show "lg_student_id l = ar_student_id x" "lg_period_key l = period_key (lg_period_kind l) x" by simp_all
    show "r = x \<longleftrightarrow> lg_run_id l = ar_id r" using that keyed_inj [OF I(1), of r x] by auto
  qed
  have covered: "lg_run_id l \<in> set (map ar_id ?runs)" if "l \<in> set ?rows" for l
  proof -
    from that I(4) obtain x where x: "x \<in> set (ai_runs db)" "ar_id x = lg_run_id l" unfolding linked_def owned_entry_def by auto
    with that owner [of l x x] have "x \<in> set ?runs" unfolding period_runs_def by auto
    then show ?thesis using x(2) by force
  qed
  have part: "filter (\<lambda>l. lg_run_id l = ar_id r) ?rows = filter (\<lambda>l. lg_run_id l = ar_id r \<and> lg_period_kind l = k) (ai_usage_ledger db)"
    if "r \<in> set ?runs" for r
    using that owner(2,3) [of _ r r] unfolding filter_filter period_runs_def by (intro filter_cong refl) auto
  have "used f student k key (ai_usage_ledger db) = (\<Sum>i \<leftarrow> map ar_id ?runs. \<Sum>l \<leftarrow> filter (\<lambda>l. lg_run_id l = i) ?rows. f l)"
    unfolding used_def by (rule sum_list_group [OF dist covered])
  also have "\<dots> = (\<Sum>r \<leftarrow> ?runs. \<Sum>l \<leftarrow> filter (\<lambda>l. lg_run_id l = ar_id r) ?rows. f l)" by (simp add: comp_def)
  also have "\<dots> = (\<Sum>r \<leftarrow> ?runs. g r)"
  proof (intro arg_cong [where f = sum_list] map_cong refl)
    fix r assume r: "r \<in> set ?runs"
    then have "r \<in> set (ai_runs db)" by (simp add: period_runs_def)
    then show "(\<Sum>l \<leftarrow> filter (\<lambda>l. lg_run_id l = ar_id r) ?rows. f l) = g r" unfolding part [OF r] by (rule f)
  qed
  finally show ?thesis .
qed

lemma usage_from_runs:
  assumes inv: "runs_inv db"
  shows "used lg_request_delta student k key (ai_usage_ledger db) = (\<Sum>r \<leftarrow> period_runs student k key db. held_requests r)"
    and "used lg_token_delta student k key (ai_usage_ledger db) = (\<Sum>r \<leftarrow> period_runs student k key db. held_tokens r)"
  using ledger_of_sums [OF runs_invD(2) [OF inv]]
  by (intro used_by_runs [OF inv]; simp add: ledger_of_def comp_def case_prod_beta)+


section \<open>The quota check\<close>

lemma int64_add: "int64 (int64 a + b) = int64 (a + b)"
  unfolding int64_def by (simp add: mod_simps algebra_simps)

lemma int64_norm [simp]: "int64 (int64 a) = int64 a" "int64 0 = 0"
  using int64_add [of a 0] by (simp_all add: int64_id)

definition normal_usage :: "QuotaUsage \<Rightarrow> bool" where
  "normal_usage u \<longleftrightarrow> int64 (qu_DailyRequests u) = qu_DailyRequests u \<and> int64 (qu_MonthlyRequests u) = qu_MonthlyRequests u \<and>
     int64 (qu_DailyTokens u) = qu_DailyTokens u \<and> int64 (qu_MonthlyTokens u) = qu_MonthlyTokens u"

abbreviation kind_sum :: "(ledger_row \<Rightarrow> int) \<Rightarrow> period_kind \<Rightarrow> ledger_row list \<Rightarrow> int" where
  "kind_sum f k rows \<equiv> (\<Sum>l \<leftarrow> filter (\<lambda>l. lg_period_kind l = k) rows. f l)"

lemma fold_usage:
  assumes "normal_usage u"
  shows "fold add_usage rows u = \<lparr>qu_DailyRequests = int64 (qu_DailyRequests u + kind_sum lg_request_delta Day rows),
     qu_MonthlyRequests = int64 (qu_MonthlyRequests u + kind_sum lg_request_delta Month rows),
     qu_DailyTokens = int64 (qu_DailyTokens u + kind_sum lg_token_delta Day rows),
     qu_MonthlyTokens = int64 (qu_MonthlyTokens u + kind_sum lg_token_delta Month rows)\<rparr>"
  using assms
proof (induction rows arbitrary: u)
  case Nil
  then show ?case by (simp add: normal_usage_def)
next
  case (Cons l rows)
  have "normal_usage (add_usage l u)" using Cons.prems by (simp add: normal_usage_def add_usage_def)
  from Cons.IH [OF this] Cons.prems show ?case
    by (cases "lg_period_kind l") (simp_all add: add_usage_def int64_add add.assoc)
qed

lemma kind_sum_period:
  "kind_sum f k (filter (reserved_period student q) rows) = used f student k (case k of Day \<Rightarrow> qr_DayKey q | Month \<Rightarrow> qr_MonthKey q) rows"
  unfolding used_def filter_filter
  by (intro arg_cong [where f = sum_list] arg_cong [where f = "map f"] filter_cong refl) (cases k, auto simp: reserved_period_def)

definition request_limit :: "period_kind \<Rightarrow> QuotaLimits \<Rightarrow> int" where
  "request_limit k l = (case k of Day \<Rightarrow> ql_DailyRequests l | Month \<Rightarrow> ql_MonthlyRequests l)"

definition token_limit :: "period_kind \<Rightarrow> QuotaLimits \<Rightarrow> int" where
  "token_limit k l = (case k of Day \<Rightarrow> ql_DailyTokens l | Month \<Rightarrow> ql_MonthlyTokens l)"

definition usage_bounded :: "ai_db \<Rightarrow> bool" where
  "usage_bounded db \<longleftrightarrow> (\<forall>student k key. used lg_request_delta student k key (ai_usage_ledger db) \<le> 2 ^ 62 \<and>
     used lg_token_delta student k key (ai_usage_ledger db) \<le> 2 ^ 62)"

lemma held_nonneg:
  assumes "run_good db r"
  shows "0 \<le> held_requests r" "0 \<le> held_tokens r"
  using assms add_saturating_nonneg by (auto simp: held_requests_def held_tokens_def run_good_def run_ok_def balanced_def Let_def split: option.splits)

lemma used_nonneg:
  assumes inv: "runs_inv db"
  shows "0 \<le> used lg_request_delta student k key (ai_usage_ledger db)" "0 \<le> used lg_token_delta student k key (ai_usage_ledger db)"
proof -
  have "run_good db r" if "r \<in> set (period_runs student k key db)" for r using that runs_invD(2) [OF inv] by (simp add: period_runs_def)
  then show "0 \<le> used lg_request_delta student k key (ai_usage_ledger db)" "0 \<le> used lg_token_delta student k key (ai_usage_ledger db)"
    unfolding usage_from_runs [OF inv] by (auto intro!: sum_list_nonneg held_nonneg)
qed

lemma int64_small: "0 \<le> a \<Longrightarrow> a \<le> 2 ^ 62 \<Longrightarrow> 0 \<le> b \<Longrightarrow> b < 2 ^ 62 \<Longrightarrow> int64 (int64 a + b) = a + b"
  by (subst int64_add, rule int64_id) simp_all

lemma reserveQuota_checks:
  assumes q: "reserveQuota student q db = None" and small: "small_reservation q" and inv: "runs_inv db" and bd: "usage_bounded db"
  obtains limits where "ResolveQuotaLimits (ai_global_limits db) (student_limits student db) = Inr limits"
    "\<And>k. used lg_request_delta student k (case k of Day \<Rightarrow> qr_DayKey q | Month \<Rightarrow> qr_MonthKey q) (ai_usage_ledger db) + qr_RequestCount q \<le> request_limit k limits"
    "\<And>k. used lg_token_delta student k (case k of Day \<Rightarrow> qr_DayKey q | Month \<Rightarrow> qr_MonthKey q) (ai_usage_ledger db) + qr_TokenCount q \<le> token_limit k limits"
proof -
  from q obtain limits where l: "ResolveQuotaLimits (ai_global_limits db) (student_limits student db) = Inr limits"
    and c: "CheckQuota limits (fold add_usage (filter (reserved_period student q) (ai_usage_ledger db)) no_usage) q = None"
    by (auto simp: reserveQuota_def split: sum.splits)
  have n: "normal_usage no_usage" by (simp add: normal_usage_def no_usage_def)
  note counts = CheckQuota_counts [OF c]
  have e: "int64 (int64 (used lg_request_delta student k key (ai_usage_ledger db)) + qr_RequestCount q) = used lg_request_delta student k key (ai_usage_ledger db) + qr_RequestCount q"
    "int64 (int64 (used lg_token_delta student k key (ai_usage_ledger db)) + qr_TokenCount q) = used lg_token_delta student k key (ai_usage_ledger db) + qr_TokenCount q" for k key
    using used_nonneg [OF inv] bd small counts by (auto intro!: int64_small simp: usage_bounded_def small_reservation_def)
  from c have "used lg_request_delta student k (case k of Day \<Rightarrow> qr_DayKey q | Month \<Rightarrow> qr_MonthKey q) (ai_usage_ledger db) + qr_RequestCount q \<le> request_limit k limits"
    "used lg_token_delta student k (case k of Day \<Rightarrow> qr_DayKey q | Month \<Rightarrow> qr_MonthKey q) (ai_usage_ledger db) + qr_TokenCount q \<le> token_limit k limits" for k
    unfolding CheckQuota_def fold_usage [OF n] kind_sum_period
    by (cases k; simp add: no_usage_def e request_limit_def token_limit_def split: if_splits)+
  with l show thesis by (rule that)
qed


section \<open>Usage along the steps\<close>

lemma held_decreases:
  assumes mv: "run_moves r r'" and good: "run_good db r"
  shows "held_requests r' \<le> held_requests r \<and> held_tokens r' \<le> held_tokens r"
proof (cases "r' = r")
  case False
  have n: "0 \<le> ar_reserved_tokens r" "1 \<le> ar_reserved_requests r" using good by (auto simp: run_good_def run_ok_def)
  from False mv have f: "ar_reserved_requests r' = ar_reserved_requests r" "ar_reserved_tokens r' = ar_reserved_tokens r"
    and e: "run_edge (ar_status r) (ar_status r')" unfolding run_moves_def run_identity_def by simp_all
  have act: "active_run r" using edge_active [OF e refl] .
  show ?thesis using n f unfolding held_requests_def held_tokens_def by (simp add: act split: option.split prod.split)
qed simp

lemma run_tx_used:
  assumes inv: "runs_inv db" and tx: "run_tx db db'"
  shows "used lg_request_delta student k key (ai_usage_ledger db') \<le> used lg_request_delta student k key (ai_usage_ledger db)"
    "used lg_token_delta student k key (ai_usage_ledger db') \<le> used lg_token_delta student k key (ai_usage_ledger db)"
proof -
  from tx obtain F where inv': "runs_inv db'" and F: "ai_runs db' = map F (ai_runs db)" "\<And>r. run_moves r (F r)" unfolding run_tx_def by blast
  have "ar_student_id (F r) = ar_student_id r \<and> period_key k (F r) = period_key k r" for r
    using F(2) [of r] by (cases k) (auto simp: run_moves_def run_identity_def period_key_def)
  then have p: "period_runs student k key db' = map F (period_runs student k key db)"
    unfolding period_runs_def F(1) by (simp add: filter_map comp_def)
  have "held_requests (F r) \<le> held_requests r \<and> held_tokens (F r) \<le> held_tokens r" if "r \<in> set (period_runs student k key db)" for r
    using that held_decreases [OF F(2) runs_invD(2) [OF inv]] by (simp add: period_runs_def)
  then show "used lg_request_delta student k key (ai_usage_ledger db') \<le> used lg_request_delta student k key (ai_usage_ledger db)"
    "used lg_token_delta student k key (ai_usage_ledger db') \<le> used lg_token_delta student k key (ai_usage_ledger db)"
    unfolding usage_from_runs [OF inv] usage_from_runs [OF inv'] p map_map comp_def
    by (auto intro!: sum_list_mono)
qed

lemma adds_run_used:
  assumes "adds_run db db' r now"
  shows "used lg_request_delta student k key (ai_usage_ledger db') = used lg_request_delta student k key (ai_usage_ledger db) +
      (if student = ar_student_id r \<and> key = period_key k r then ar_reserved_requests r else 0)"
    "used lg_token_delta student k key (ai_usage_ledger db') = used lg_token_delta student k key (ai_usage_ledger db) +
      (if student = ar_student_id r \<and> key = period_key k r then ar_reserved_tokens r else 0)"
  unfolding used_def adds_runD(10) [OF assms]
  by (cases k; simp add: reserve_rows_def ledger_row_for_def period_key_def)+

text \<open>In a step the usage of a student in a period does not grow, or it stays below the student's limits.\<close>

definition within_limits :: "ai_db \<Rightarrow> ai_db \<Rightarrow> uuid \<Rightarrow> period_kind \<Rightarrow> string \<Rightarrow> bool" where
  "within_limits db db' student k key \<longleftrightarrow>
     (used lg_request_delta student k key (ai_usage_ledger db') \<le> used lg_request_delta student k key (ai_usage_ledger db) \<and>
      used lg_token_delta student k key (ai_usage_ledger db') \<le> used lg_token_delta student k key (ai_usage_ledger db)) \<or>
     (\<exists>limits. ResolveQuotaLimits (ai_global_limits db) (student_limits student db) = Inr limits \<and>
        used lg_request_delta student k key (ai_usage_ledger db') \<le> request_limit k limits \<and>
        used lg_token_delta student k key (ai_usage_ledger db') \<le> token_limit k limits)"

lemma admission_within:
  assumes inv: "runs_inv db" and bd: "usage_bounded db" and tx: "admission_tx db db' r q now"
  shows "within_limits db db' student k key"
proof -
  have ad: "adds_run db db' r now" and rq: "reserveQuota (ar_student_id r) q db = None" "small_reservation q"
    and q: "ar_reserved_requests r = qr_RequestCount q" "ar_reserved_tokens r = qr_TokenCount q"
    and pk: "period_key k r = (case k of Day \<Rightarrow> qr_DayKey q | Month \<Rightarrow> qr_MonthKey q)" for k
    using tx by (auto simp: admission_tx_def period_key_def split: period_kind.splits)
  show ?thesis
  proof (cases "student = ar_student_id r \<and> key = period_key k r")
    case True
    from reserveQuota_checks [OF rq inv bd] obtain limits where "ResolveQuotaLimits (ai_global_limits db) (student_limits student db) = Inr limits"
      "used lg_request_delta student k key (ai_usage_ledger db) + ar_reserved_requests r \<le> request_limit k limits"
      "used lg_token_delta student k key (ai_usage_ledger db) + ar_reserved_tokens r \<le> token_limit k limits"
      using True unfolding q pk [symmetric] by metis
    then show ?thesis unfolding within_limits_def adds_run_used [OF ad] using True by auto
  next
    case False
    then show ?thesis unfolding within_limits_def adds_run_used [OF ad] by auto
  qed
qed

lemma ai_step_within:
  assumes "runs_inv db" "usage_bounded db" "ai_step db db'"
  shows "within_limits db db' student k key"
  using ai_step_effect [OF assms(3,1)]
proof
  assume "run_tx db db'"
  then show ?thesis using run_tx_used [OF assms(1)] unfolding within_limits_def by blast
next
  assume "\<exists>r q now. admission_tx db db' r q now"
  then show ?thesis using admission_within [OF assms(1,2)] by blast
qed

lemma step_bounded:
  assumes inv: "runs_inv db" and bd: "usage_bounded db" and st: "ai_step db db'"
  shows "usage_bounded db'"
proof (cases "run_tx db db'")
  case True
  then show ?thesis using bd run_tx_used [OF inv] unfolding usage_bounded_def by (meson order_trans)
next
  case False
  with ai_step_effect [OF st inv] have small: "limits_small db" by (auto simp: admission_tx_def)
  show ?thesis unfolding usage_bounded_def
  proof (intro allI)
    fix student k key
    consider "used lg_request_delta student k key (ai_usage_ledger db') \<le> used lg_request_delta student k key (ai_usage_ledger db)"
        "used lg_token_delta student k key (ai_usage_ledger db') \<le> used lg_token_delta student k key (ai_usage_ledger db)"
      | limits where "ResolveQuotaLimits (ai_global_limits db) (student_limits student db) = Inr limits"
        "used lg_request_delta student k key (ai_usage_ledger db') \<le> request_limit k limits"
        "used lg_token_delta student k key (ai_usage_ledger db') \<le> token_limit k limits"
      using ai_step_within [OF inv bd st, of student k key] unfolding within_limits_def by blast
    then show "used lg_request_delta student k key (ai_usage_ledger db') \<le> 2 ^ 62 \<and> used lg_token_delta student k key (ai_usage_ledger db') \<le> 2 ^ 62"
    proof cases
      case 1
      then show ?thesis using bd unfolding usage_bounded_def by (meson order_trans)
    next
      case 2
      have "request_limit k limits \<le> 2 ^ 62 \<and> token_limit k limits \<le> 2 ^ 62"
        using small 2(1) unfolding limits_small_def by (cases k) (auto simp: request_limit_def token_limit_def)
      with 2 show ?thesis by linarith
    qed
  qed
qed

lemma reachable_bounded: "ai_reachable db \<Longrightarrow> usage_bounded db"
proof -
  assume "ai_reachable db"
  then obtain db0 where e: "empty_ai_db db0" and s: "ai_step\<^sup>*\<^sup>* db0 db" unfolding ai_reachable_def by blast
  from s show ?thesis
  proof (induction rule: rtranclp_induct)
    case base
    with e show ?case by (simp add: usage_bounded_def used_def empty_ai_db_def)
  next
    case (step y z)
    have "ai_reachable y" using e step(1) unfolding ai_reachable_def by blast
    then show ?case by (rule step_bounded [OF ai_reachable_inv step(3,2)])
  qed
qed


section \<open>Properties\<close>



lemma run_edge_ended: "run_edge (ar_status r) b \<Longrightarrow> active_run r"
  by (rule edge_active) simp_all

text \<open>C14: A run keeps its identity, reservation and snapshot, moves only along the edges of its life
  cycle, and is frozen once it has ended; a student never has two active runs.\<close>

theorem ai_run_lifecycle:
  assumes "ai_reachable db" and "ai_step db db'" and "r \<in> set (ai_runs db)"
  shows "(\<exists>r' \<in> set (ai_runs db'). run_identity r' = run_identity r \<and> (r' = r \<or> run_edge (ar_status r) (ar_status r')) \<and> (\<not> active_run r \<longrightarrow> r' = r)) \<and>
    (\<forall>x \<in> set (ai_runs db'). \<forall>y \<in> set (ai_runs db'). active_run x \<and> active_run y \<and> ar_student_id x = ar_student_id y \<longrightarrow> x = y)"
proof (intro conjI)
  have inv: "runs_inv db" by (rule ai_reachable_inv [OF assms(1)])
  show "\<exists>r' \<in> set (ai_runs db'). run_identity r' = run_identity r \<and> (r' = r \<or> run_edge (ar_status r) (ar_status r')) \<and> (\<not> active_run r \<longrightarrow> r' = r)"
    using ai_step_effect [OF assms(2) inv]
  proof
    assume "run_tx db db'"
    then obtain F where F: "ai_runs db' = map F (ai_runs db)" "run_moves r (F r)" unfolding run_tx_def by blast
    from F(1) assms(3) have "F r \<in> set (ai_runs db')" by simp
    with F(2) run_edge_ended show ?thesis unfolding run_moves_def by (intro bexI [of _ "F r"]) auto
  next
    assume "\<exists>x q now. admission_tx db db' x q now"
    then obtain x q now where "adds_run db db' x now" unfolding admission_tx_def by blast
    with adds_runD(9) assms(3) have "r \<in> set (ai_runs db')" by fastforce
    then show ?thesis by blast
  qed
  show "\<forall>x \<in> set (ai_runs db'). \<forall>y \<in> set (ai_runs db'). active_run x \<and> active_run y \<and> ar_student_id x = ar_student_id y \<longrightarrow> x = y"
    using runs_invD(3) [OF ai_step_inv [OF assms(2) inv]] unfolding one_active_def .
qed


section \<open>Repeated admission\<close>

lemma attachment_rows_sorted: "sort_key mf_sort_position (attachment_rows m n as) = attachment_rows m n as"
proof -
  have "n \<le> mf_sort_position f" if "f \<in> set (attachment_rows m n as)" for f m n as
    using that by (induction m n as rule: attachment_rows.induct) (auto dest: Suc_leD)
  then have "sorted (map mf_sort_position (attachment_rows m n as))"
    by (induction m n as rule: attachment_rows.induct) (auto, metis Suc_leD)
  then show ?thesis by (rule sort_key_id_if_sorted)
qed

lemma attachment_rows_versions: "map mf_file_version_id (attachment_rows m n as) = map am_FileVersionID as"
  by (induction m n as rule: attachment_rows.induct) simp_all

lemma new_attachments:
  assumes "ai_message_files db' = files @ attachment_rows m 0 as" and "\<And>f. f \<in> set files \<Longrightarrow> mf_message_id f \<noteq> m"
  shows "sameMetadataBindings as (loadMessageAttachments m db')"
proof -
  have "filter (\<lambda>f. mf_message_id f = m) (ai_message_files db') = attachment_rows m 0 as"
    using assms attachment_rows_message by (auto simp: filter_empty_conv filter_id_conv)
  then show ?thesis by (simp add: sameMetadataBindings_def loadMessageAttachments_def attachment_rows_sorted attachment_rows_versions comp_def)
qed

lemma insert_message_fresh: "insert_message m db = Inr db' \<Longrightarrow> x \<in> set (ai_messages db) \<Longrightarrow> mg_ID x \<noteq> mg_ID m"
  by (auto simp: insert_message_def list_ex_iff split: if_splits)

lemma find_fresh_last: "(\<And>x. x \<in> set xs \<Longrightarrow> \<not> p x) \<Longrightarrow> p y \<Longrightarrow> find p (xs @ [y]) = Some y"
  by (induction xs) auto

lemma getThreadTx_thread:
  "getThreadTx student thread c db = Inr d \<Longrightarrow> find (\<lambda>t. th_ID t = thread \<and> th_StudentID t = student) (ai_threads db) = Some (td_Thread d)"
  by (auto simp: getThreadTx_def Let_def split: option.splits)

lemma insert_thread_new:
  assumes "insert_thread i db = Inr db'" and "ra_CreateThread i"
  shows "find (\<lambda>t. th_ID t = ra_ThreadID i \<and> th_StudentID t = ra_StudentID i)
      (update_where (\<lambda>t. th_ID t = ra_ThreadID i \<and> th_StudentID t = ra_StudentID i) (th_LastMessageAt_update (\<lambda>_. ra_Now i)) (ai_threads db')) =
    Some \<lparr>th_ID = ra_ThreadID i, th_StudentID = ra_StudentID i, th_Title = ra_ThreadTitle i, th_Subject = ra_Subject i, th_LastMessageAt = ra_Now i, th_CreatedAt = ra_Now i\<rparr>"
proof -
  have db': "ai_threads db' = ai_threads db @ [\<lparr>th_ID = ra_ThreadID i, th_StudentID = ra_StudentID i, th_Title = ra_ThreadTitle i,
             th_Subject = ra_Subject i, th_LastMessageAt = ra_Now i, th_CreatedAt = ra_Now i\<rparr>]"
    and fresh: "\<And>t. t \<in> set (ai_threads db) \<Longrightarrow> th_ID t \<noteq> ra_ThreadID i"
    using assms by (auto simp: insert_thread_def list_ex_iff split: if_splits)
  have "find (\<lambda>t. th_ID t = ra_ThreadID i \<and> th_StudentID t = ra_StudentID i) (ai_threads db') =
      Some \<lparr>th_ID = ra_ThreadID i, th_StudentID = ra_StudentID i, th_Title = ra_ThreadTitle i, th_Subject = ra_Subject i, th_LastMessageAt = ra_Now i, th_CreatedAt = ra_Now i\<rparr>"
    unfolding db' by (rule find_fresh_last) (use fresh in auto)
  then show ?thesis by (subst find_update_where) auto
qed

lemma admitted_replays:
  assumes inv: "runs_inv db" and none: "findRunByKey (ra_StudentID i) (ra_IdempotencyKey i) db = None"
    and adm: "admit_new att newRun i db = Inr ((detail, run), db')"
  shows "findRunByKey (ra_StudentID i) (ra_IdempotencyKey i) db' = Some run \<and> replay_admission i run db' = Inr ((detail, run), db')"
proof -
  from adm obtain db1 db2 db3 db4 db5 where t:
    "insert_thread i db = Inr db1" "insert_message (student_message i) db1 = Inr db2" "insert_files att (ra_MessageID i) 0 (ra_Attachments i) db2 = Inr db3"
    "insertRun (admitted_run newRun i) db3 = Inr db4" "insertReserveRows (admitted_run newRun i) (ra_Now i) db4 = Inr db5"
    and run: "run = admitted_run newRun i" and db': "db' = db5\<lparr>ai_threads := update_where (\<lambda>t. th_ID t = ra_ThreadID i \<and> th_StudentID t = ra_StudentID i)
               (th_LastMessageAt_update (\<lambda>_. ra_Now i)) (ai_threads db5)\<rparr>"
    and d: "getThreadTx (ra_StudentID i) (ra_ThreadID i) no_cursor db' = Inr detail"
    by (rule admit_newE)
  note T1 = insert_thread_tables [OF t(1)] and T2 = insert_message_tables [OF t(2)] and T3 = insert_files_rows [OF t(3)]
  have tabs: "ai_runs db' = ai_runs db @ [run]" "ai_messages db' = ai_messages db @ [student_message i]"
    "ai_message_files db' = ai_message_files db @ attachment_rows (ra_MessageID i) 0 (ra_Attachments i)" "ai_threads db5 = ai_threads db1"
    using T1 T2 by (simp_all add: db' insertReserveRows_Inr [OF t(5)] insertRun_Inr(1) [OF t(4)] T3 run)
  have key: "ar_student_id run = ra_StudentID i" "ar_idempotency_key run = ra_IdempotencyKey i" "ar_thread_id run = ra_ThreadID i" "ar_trigger_message_id run = ra_MessageID i"
    by (simp_all add: run admitted_run_def new_run_def)
  have found: "findRunByKey (ra_StudentID i) (ra_IdempotencyKey i) db' = Some run"
    using none key unfolding findRunByKey_def tabs(1) by (intro find_fresh_last) (auto dest: find_NoneD)
  have nomsg: "mg_ID m \<noteq> ra_MessageID i" if "m \<in> set (ai_messages db)" for m
    using insert_message_fresh [OF t(2)] that T1(4) by (simp add: student_message_def)
  have "find (\<lambda>m. mg_ID m = ra_MessageID i) (ai_messages db') = Some (student_message i)"
    unfolding tabs(2) by (rule find_fresh_last) (use nomsg in \<open>auto simp: student_message_def\<close>)
  then have body: "message_body (ra_MessageID i) db' = ra_MessageBody i" by (simp add: message_body_def student_message_def)
  have "mf_message_id f \<noteq> ra_MessageID i" if "f \<in> set (ai_message_files db)" for f
    using runs_invD(4) [OF inv] that nomsg unfolding linked_def by metis
  then have atts: "sameMetadataBindings (ra_Attachments i) (loadMessageAttachments (ra_MessageID i) db')" by (rule new_attachments [OF tabs(3)])
  have thr: "th_Title (td_Thread detail) = ra_ThreadTitle i \<and> th_Subject (td_Thread detail) = ra_Subject i" if "ra_CreateThread i"
  proof -
    have "td_Thread detail = \<lparr>th_ID = ra_ThreadID i, th_StudentID = ra_StudentID i, th_Title = ra_ThreadTitle i, th_Subject = ra_Subject i, th_LastMessageAt = ra_Now i, th_CreatedAt = ra_Now i\<rparr>"
      using getThreadTx_thread [OF d] insert_thread_new [OF t(1) that] by (simp add: db' tabs(4))
    then show ?thesis by simp
  qed
  show ?thesis using found body atts thr d by (auto simp: replay_admission_def key)
qed

text \<open>Admission is idempotent: once \<^verbatim>\<open>AdmitRun\<close> has answered a request, repeating the request
  with the same idempotency key, whatever new identifiers it draws, returns the same run and thread
  and changes nothing; no second message, run or reservation appears.\<close>

theorem admit_run_idempotent:
  assumes "ai_reachable db" and "AdmitRun sha att fault newRun i db = (Inr (detail, run), db')"
  shows "AdmitRun sha' att' False newRun' i db' = (Inr (detail, run), db')"
proof -
  have v: "validAdmission i" using assms(2) by (auto simp: AdmitRun_def split: if_splits)
  from assms(2) have "findRunByKey (ra_StudentID i) (ra_IdempotencyKey i) db' = Some run \<and> replay_admission i run db' = Inr ((detail, run), db')"
  proof (cases rule: AdmitRun_cases)
    case replayed
    then show ?thesis by simp
  next
    case admitted
    then show ?thesis using admitted_replays [OF ai_reachable_inv [OF assms(1)]] by blast
  qed
  then show ?thesis using v by (simp add: AdmitRun_def transact_def)
qed


section \<open>Reconciliation\<close>

definition lost_row :: "time \<Rightarrow> ai_run \<Rightarrow> ai_run" where
  "lost_row now r = (finish_run RunFailed (Some ''runner_lost'') None ''unknown'' (ar_last_sequence r + 1) now r)\<lparr>ar_total_ms := lost_total_ms now r\<rparr>"

lemma lost_row_simps [simp]: "ar_id (lost_row now r) = ar_id r" "ar_status (lost_row now r) = RunFailed" "\<not> expired_run t (lost_row now r)"
  by (simp_all add: lost_row_def finish_run_def expired_run_def)

lemma filter_shrinks: "x \<in> set xs \<Longrightarrow> p x \<Longrightarrow> \<not> q x \<Longrightarrow> length (filter (\<lambda>y. p y \<and> q y) xs) < length (filter p xs)"
  using length_filter_less [of x "filter p xs" q] by (simp add: conj_commute)

lemma reconcile_once:
  assumes inv: "runs_inv db" and ex: "filter (expired_run now) (ai_runs db) \<noteq> []"
  obtains r db1 where "r \<in> set (ai_runs db)" "expired_run now r" "reconcileOneExpired False (\<lambda>_. False) now db = (Inr True, db1)" "runs_inv db1"
    "ai_runs db1 = map (\<lambda>x. if ar_id x = ar_id r then lost_row now r else x) (ai_runs db)"
proof -
  obtain r rest where s: "sort_key (\<lambda>r. (case ar_lease_expires_at r of None \<Rightarrow> 0 | Some t \<Rightarrow> t, ar_id r)) (filter (expired_run now) (ai_runs db)) = r # rest"
    using ex by (metis list.exhaust length_0_conv length_sort)
  then have "r \<in> set (filter (expired_run now) (ai_runs db))" by (metis list.set_intros(1) set_sort)
  then have r: "r \<in> set (ai_runs db)" "expired_run now r" and act: "active_run r" by (auto simp: expired_run_def active_run_def)
  let ?db1 = "end_run RunFailed ''runner_lost'' None ''unknown'' (lost_total_ms now r) now r db"
  have e: "reconcileOneExpired False (\<lambda>_. False) now db = (Inr True, ?db1)" by (simp add: reconcileOneExpired_def transact_def s)
  have i: "runs_inv ?db1" using end_run_tx [OF inv r(1) act] unfolding run_tx_def by blast
  have m: "ai_runs ?db1 = map (\<lambda>x. if ar_id x = ar_id r then lost_row now r else x) (ai_runs db)"
    using update_run_rows [of "insert_event (ar_id r) (ar_last_sequence r + 1) (status_text RunFailed) [] (Some ''runner_lost'') now db" r] runs_invD(1) [OF inv] r(1)
    by (simp add: end_run_def lost_row_def)
  show thesis by (rule that [OF r e i m])
qed

lemma reconcile_loop_all:
  assumes "runs_inv db" and "length (filter (expired_run now) (ai_runs db)) \<le> n"
  shows "\<exists>db'. reconcile_loop (\<lambda>_. False) (\<lambda>_ _. False) now n db = (None, db') \<and> runs_inv db' \<and>
    ai_runs db' = map (\<lambda>r. if expired_run now r then lost_row now r else r) (ai_runs db)"
  using assms
proof (induction n arbitrary: db)
  case 0
  then have "\<not> expired_run now r" if "r \<in> set (ai_runs db)" for r using that by (simp add: filter_empty_conv)
  then have "map (\<lambda>r. if expired_run now r then lost_row now r else r) (ai_runs db) = ai_runs db" by (intro map_idI) simp
  with 0 show ?case by simp
next
  case (Suc n)
  show ?case
  proof (cases "filter (expired_run now) (ai_runs db) = []")
    case True
    then have ne: "\<not> expired_run now r" if "r \<in> set (ai_runs db)" for r using that by (simp add: filter_empty_conv)
    then have "map (\<lambda>r. if expired_run now r then lost_row now r else r) (ai_runs db) = ai_runs db" by (intro map_idI) simp
    moreover have "reconcileOneExpired False (\<lambda>_. False) now db = (Inr False, db)" by (simp add: reconcileOneExpired_def transact_def True)
    ultimately show ?thesis using Suc.prems by simp
  next
    case False
    from reconcile_once [OF Suc.prems(1) False] obtain r db1 where r: "r \<in> set (ai_runs db)" "expired_run now r"
      and once: "reconcileOneExpired False (\<lambda>_. False) now db = (Inr True, db1)" and inv1: "runs_inv db1"
      and runs1: "ai_runs db1 = map (\<lambda>x. if ar_id x = ar_id r then lost_row now r else x) (ai_runs db)" by blast
    have "filter (expired_run now) (ai_runs db1) = filter (\<lambda>x. expired_run now x \<and> ar_id x \<noteq> ar_id r) (ai_runs db)"
      unfolding runs1 filter_map comp_def
    proof -
      have "filter (\<lambda>x. expired_run now (if ar_id x = ar_id r then lost_row now r else x)) (ai_runs db) = filter (\<lambda>x. expired_run now x \<and> ar_id x \<noteq> ar_id r) (ai_runs db)"
        by (intro filter_cong refl) simp
      then show "map (\<lambda>x. if ar_id x = ar_id r then lost_row now r else x) (filter (\<lambda>x. expired_run now (if ar_id x = ar_id r then lost_row now r else x)) (ai_runs db)) =
          filter (\<lambda>x. expired_run now x \<and> ar_id x \<noteq> ar_id r) (ai_runs db)"
        by (simp only:) (intro map_idI, simp)
    qed
    with filter_shrinks [of r "ai_runs db" "expired_run now" "\<lambda>x. ar_id x \<noteq> ar_id r"] r Suc.prems(2)
    have "length (filter (expired_run now) (ai_runs db1)) \<le> n" by simp
    from Suc.IH [OF inv1 this] obtain db' where db': "reconcile_loop (\<lambda>_. False) (\<lambda>_ _. False) now n db1 = (None, db')" "runs_inv db'"
      "ai_runs db' = map (\<lambda>r. if expired_run now r then lost_row now r else r) (ai_runs db1)" by blast
    have "ai_runs db' = map (\<lambda>r. if expired_run now r then lost_row now r else r) (ai_runs db)"
      unfolding db'(3) runs1 map_map comp_def
    proof (intro map_cong refl)
      fix x assume x: "x \<in> set (ai_runs db)"
      show "(if expired_run now (if ar_id x = ar_id r then lost_row now r else x) then lost_row now (if ar_id x = ar_id r then lost_row now r else x)
          else if ar_id x = ar_id r then lost_row now r else x) = (if expired_run now x then lost_row now x else x)"
        using keyed_inj [OF runs_invD(1) [OF Suc.prems(1)] x r(1)] r(2) by (cases "ar_id x = ar_id r") simp_all
    qed
    with db' once show ?thesis by simp
  qed
qed

text \<open>A reconciliation that meets no fault and no locked row, and whose limit is not below the number
  of runs with an expired lease, ends without error, fails exactly these runs as lost and
  leaves all others alone; none with an expired lease remains, so its student can ask again.\<close>

theorem reconcile_clears_expired:
  assumes "ai_reachable db" and "int (length (filter (expired_run now) (ai_runs db))) \<le> (if limit \<le> 0 then 100 else limit)"
  shows "\<exists>db'. ReconcileExpired False (\<lambda>_. False) (\<lambda>_ _. False) now limit db = (None, db') \<and>
    ai_runs db' = map (\<lambda>r. if expired_run now r then lost_row now r else r) (ai_runs db) \<and>
    filter (expired_run now) (ai_runs db') = []"
proof -
  have inv: "runs_inv db" by (rule ai_reachable_inv [OF assms(1)])
  have "length (filter (expired_run now) (ai_runs db)) \<le> nat (if limit \<le> 0 then 100 else limit)" using assms(2) by linarith
  from reconcile_loop_all [OF inv this] obtain db' where db':
    "reconcile_loop (\<lambda>_. False) (\<lambda>_ _. False) now (nat (if limit \<le> 0 then 100 else limit)) db = (None, db')"
    "ai_runs db' = map (\<lambda>r. if expired_run now r then lost_row now r else r) (ai_runs db)" by blast
  moreover have "filter (expired_run now) (ai_runs db') = []" unfolding db'(2) by (auto simp: filter_empty_conv)
  ultimately show ?thesis by (auto simp: ReconcileExpired_def clear_stale_queued_id [OF inv])
qed

section \<open>Witnesses\<close>

definition wit_model :: ModelView where
  "wit_model = \<lparr>mv_ID = 31, mv_ProviderID = 41, mv_UpstreamModelID = ''m'', mv_Modality = ''text'', mv_ContextTokens = 8000, mv_MaxOutputTokens = 100,
     mv_ImageQuotaTokens = 0, mv_InputPriceMicroUSD = 10, mv_OutputPriceMicroUSD = 20, mv_Enabled = True, mv_QuotaBlockedAt = None\<rparr>"

definition wit_prompt :: PromptView where
  "wit_prompt = \<lparr>pv_ID = 51, pv_Subject = ''math'', pv_Version = 2, pv_Body = ''p'', pv_Active = True\<rparr>"

definition wit_provider :: RuntimeProviderConfig where
  "wit_provider = \<lparr>rc_ProviderID = 41, rc_KeyVersion = 3, rc_BaseURL = Some ''u'', rc_ProtocolMode = ''chat'', rc_Model = wit_model, rc_Prompt = wit_prompt,
     rc_Timeouts = \<lparr>gt_Connect = 5000000, gt_ResponseHeader = 6000000, gt_IdleStream = 7000000, gt_Total = 8000000\<rparr>\<rparr>"

definition wit_sha :: "string \<Rightarrow> string" where "wit_sha v = replicate 64 (CHR ''a'')"

definition wit_snapshot :: RuntimeSnapshot where
  "wit_snapshot = \<lparr>sn_Provider = wit_provider, sn_PromptSHA256 = wit_sha ''p''\<rparr>"

definition wit_ai :: ai_db where
  "wit_ai = \<lparr>ai_users = [\<lparr>u_ID = 7, u_Username = ''s'', u_DisplayName = ''S'', u_Role = RoleStudent, u_Status = StatusActive, u_PasswordHash = [],
       u_MustChangePassword = False, u_CreatedAt = 2\<rparr>],
     ai_threads = [], ai_messages = [], ai_message_files = [], ai_runs = [], ai_run_events = [], ai_usage_ledger = [],
     ai_global_limits = \<lparr>ql_DailyRequests = 3, ql_MonthlyRequests = 30, ql_DailyTokens = 1000, ql_MonthlyTokens = 9000\<rparr>, student_ai_limits = [],
     ai_models = [\<lparr>md_view = wit_model, md_timeouts_ms = (5, 6, 7, 8), md_block_reason = None, md_version = 4\<rparr>],
     ai_providers = [\<lparr>pr_id = 41, pr_base_url = ''u'', pr_protocol_mode = ''chat'', pr_active = True, pr_key_version = 3\<rparr>],
     prompt_templates = [wit_prompt]\<rparr>"

definition wit_admission :: RuntimeAdmission where
  "wit_admission = \<lparr>ra_StudentID = 7, ra_ThreadID = 11, ra_CreateThread = True, ra_ThreadTitle = ''t'', ra_Subject = ''math'', ra_MessageID = 12,
     ra_MessageBody = ''why'', ra_IdempotencyKey = ''0123456789abcdef'', ra_Attachments = [\<lparr>am_FileVersionID = 61, am_DisplayName = ''a''\<rparr>], ra_AttemptNo = 1,
     ra_Snapshot = wit_snapshot, ra_Reservation = \<lparr>qr_RequestCount = 1, qr_TokenCount = 400, qr_DayKey = ''2026-01-02'', qr_MonthKey = ''2026-01'', qr_EstimatorVersion = 1\<rparr>,
     ra_Now = 9000\<rparr>"

definition wit_admitted :: ai_db where
  "wit_admitted = snd (AdmitRun wit_sha (\<lambda>_. True) False 21 wit_admission wit_ai)"


lemma wit_admission_valid: "validAdmission wit_admission"
proof -
  have "RuneCount (TrimSpace ''why'') = 3" "RuneCount (TrimSpace ''t'') = 1" by (simp_all add: go_eval ascii_def)
  then have "validBody ''why''" "validTitle ''t''" "validIdempotency ''0123456789abcdef''"
    by (simp_all add: validBody_def validTitle_def validIdempotency_def)
  then show ?thesis by (simp add: validAdmission_def wit_admission_def subjectOK_def)
qed

lemma wit_checks: "validateActiveStudent 7 wit_ai = None" "validateAndLockSnapshot wit_sha wit_snapshot wit_ai = None"
  "reserveQuota 7 (ra_Reservation wit_admission) wit_ai = None"
  by (simp_all add: validateActiveStudent_def wit_ai_def validateAndLockSnapshot_def wit_snapshot_def wit_provider_def wit_model_def wit_prompt_def
    wit_sha_def timeouts_ms_def Milliseconds_def go_div_def reserveQuota_def student_limits_def ResolveQuotaLimits_def CheckQuota_def wit_admission_def
    no_usage_def int64_def)

lemma wit_admit_new: "\<exists>detail. admit_new (\<lambda>_. True) 21 wit_admission wit_ai = Inr ((detail, admitted_run 21 wit_admission), wit_admitted)"
proof -
  have "\<exists>detail db'. admit_new (\<lambda>_. True) 21 wit_admission wit_ai = Inr ((detail, admitted_run 21 wit_admission), db')"
    by (simp add: admit_new_def insert_thread_def insert_message_def insertRun_def insertReserveRows_def getThreadTx_def wit_ai_def wit_admission_def
      admitted_run_def new_run_def student_message_def Let_def no_cursor_def)
  moreover have "AdmitRun wit_sha (\<lambda>_. True) False 21 wit_admission wit_ai = (case admit_new (\<lambda>_. True) 21 wit_admission wit_ai of Inl e \<Rightarrow> (Inl e, wit_ai) | Inr (x, s) \<Rightarrow> (Inr x, s))"
    using wit_admission_valid wit_checks by (simp add: AdmitRun_def transact_def findRunByKey_def wit_admission_def) (simp add: wit_ai_def)
  ultimately show ?thesis by (auto simp: wit_admitted_def)
qed

lemma wit_admitted_ok: "\<exists>detail. AdmitRun wit_sha (\<lambda>_. True) False 21 wit_admission wit_ai = (Inr (detail, admitted_run 21 wit_admission), wit_admitted)"
proof -
  have "AdmitRun wit_sha (\<lambda>_. True) False 21 wit_admission wit_ai = (case admit_new (\<lambda>_. True) 21 wit_admission wit_ai of Inl e \<Rightarrow> (Inl e, wit_ai) | Inr (x, s) \<Rightarrow> (Inr x, s))"
    using wit_admission_valid wit_checks by (simp add: AdmitRun_def transact_def findRunByKey_def wit_admission_def) (simp add: wit_ai_def)
  with wit_admit_new show ?thesis by auto
qed

lemma wit_empty: "empty_ai_db wit_ai" by (simp add: empty_ai_db_def wit_ai_def)

lemma wit_small: "limits_small wit_ai" "small_reservation (ra_Reservation wit_admission)"
  by (simp_all add: limits_small_def ResolveQuotaLimits_def student_limits_def wit_ai_def small_reservation_def wit_admission_def)

lemma wit_reachable: "ai_reachable wit_ai" "ai_step wit_ai wit_admitted" "ai_reachable wit_admitted"
proof -
  show "ai_reachable wit_ai" using wit_empty unfolding ai_reachable_def by blast
  show step: "ai_step wit_ai wit_admitted" unfolding wit_admitted_def by (rule step_admit [OF wit_small(2,1)])
  then show "ai_reachable wit_admitted" using wit_empty unfolding ai_reachable_def by blast
qed

lemma wit_tables:
  "ai_runs wit_admitted = [admitted_run 21 wit_admission]" "ai_usage_ledger wit_admitted = reserve_rows (admitted_run 21 wit_admission) 9000"
  "ai_run_events wit_admitted = []" "ai_messages wit_admitted = [student_message wit_admission]"
  "ai_providers wit_admitted = ai_providers wit_ai" "prompt_templates wit_admitted = [wit_prompt]"
proof -
  from wit_admit_new obtain detail where "admit_new (\<lambda>_. True) 21 wit_admission wit_ai = Inr ((detail, admitted_run 21 wit_admission), wit_admitted)" by blast
  then obtain db1 db2 db3 db4 db5 where t:
    "insert_thread wit_admission wit_ai = Inr db1" "insert_message (student_message wit_admission) db1 = Inr db2"
    "insert_files (\<lambda>_. True) (ra_MessageID wit_admission) 0 (ra_Attachments wit_admission) db2 = Inr db3"
    "insertRun (admitted_run 21 wit_admission) db3 = Inr db4" "insertReserveRows (admitted_run 21 wit_admission) (ra_Now wit_admission) db4 = Inr db5"
    and db': "wit_admitted = db5\<lparr>ai_threads := update_where (\<lambda>t. th_ID t = ra_ThreadID wit_admission \<and> th_StudentID t = ra_StudentID wit_admission)
               (th_LastMessageAt_update (\<lambda>_. ra_Now wit_admission)) (ai_threads db5)\<rparr>"
    by (rule admit_newE)
  note T = insert_thread_tables [OF t(1)] insert_message_tables [OF t(2)]
  have "ai_providers db1 = ai_providers wit_ai" "prompt_templates db1 = prompt_templates wit_ai"
    using t(1) by (auto simp: insert_thread_def split: if_splits)
  then show "ai_providers wit_admitted = ai_providers wit_ai" "prompt_templates wit_admitted = [wit_prompt]"
    by (simp_all add: db' insertReserveRows_Inr [OF t(5)] insertRun_Inr(1) [OF t(4)] insert_files_rows [OF t(3)] insert_message_Inr [OF t(2)], simp add: wit_ai_def)
  show "ai_runs wit_admitted = [admitted_run 21 wit_admission]" "ai_usage_ledger wit_admitted = reserve_rows (admitted_run 21 wit_admission) 9000"
    "ai_run_events wit_admitted = []" "ai_messages wit_admitted = [student_message wit_admission]"
    using T by (simp_all add: db' insertReserveRows_Inr [OF t(5)] insertRun_Inr(1) [OF t(4)] insert_files_rows [OF t(3)], simp_all add: wit_ai_def wit_admission_def)
qed

text \<open>The run is leased at 10000 for 500 and lost.\<close>

definition wit_leased :: ai_db where
  "wit_leased = snd (lease_tx wit_sha (\<lambda>_. True) False normal_admission (\<lambda>_. False) ''w'' 10000 500 wit_admitted)"



theorem admit_run_idempotent_witness:
  "\<exists>detail. AdmitRun wit_sha (\<lambda>_. False) False 99 wit_admission wit_admitted = (Inr (detail, admitted_run 21 wit_admission), wit_admitted)"
  using wit_admitted_ok admit_run_idempotent [OF wit_reachable(1)] by blast



lemma wit_leased_db: "wit_leased = update_run 21 (claim_run ''w'' 10000 500) wit_admitted"
proof -
  let ?r = "admitted_run 21 wit_admission"
  have q: "ar_status ?r = RunQueued" "ar_snapshot ?r = wit_snapshot" "ar_id ?r = 21" "ar_trigger_message_id ?r = 12" "ar_thread_id ?r = 11"
    by (simp_all add: admitted_run_def new_run_def wit_admission_def)
  have "failQueuedRunWithRotatedKey (\<lambda>_. False) 10000 wit_admitted = None"
    by (simp add: failQueuedRunWithRotatedKey_def oldest_run_def wit_tables rotated_def q) (simp add: wit_ai_def wit_snapshot_def wit_provider_def)
  moreover have "oldest_run (\<lambda>_. False) (\<lambda>r. ar_status r = RunQueued) wit_admitted = Some ?r"
    by (simp add: oldest_run_def wit_tables q)
  moreover have "\<exists>x. lease_inputs wit_sha (\<lambda>_. True) ?r (update_run (ar_id ?r) (claim_run ''w'' 10000 500) wit_admitted) = Inr x"
    unfolding lease_inputs_def Let_def q
    by (simp add: update_run_def wit_tables) (simp add: wit_ai_def wit_snapshot_def wit_provider_def wit_sha_def wit_prompt_def student_message_def wit_admission_def)
  ultimately show ?thesis unfolding wit_leased_def lease_tx_def
    by (auto simp: Let_def q)
qed

lemma wit_leased_run: "ai_runs wit_leased = [claim_run ''w'' 10000 500 (admitted_run 21 wit_admission)]"
  unfolding wit_leased_db by (simp add: update_run_def wit_tables) (simp add: admitted_run_def new_run_def)

lemma wit_leased_reachable: "ai_step wit_admitted wit_leased" "ai_reachable wit_leased"
proof -
  show step: "ai_step wit_admitted wit_leased" unfolding wit_leased_def by (rule step_lease)
  with wit_reachable(2) wit_empty show "ai_reachable wit_leased" unfolding ai_reachable_def by (meson rtranclp.rtrancl_into_rtrancl rtranclp.rtrancl_refl)
qed

theorem ai_run_lifecycle_witness:
  "\<exists>r \<in> set (ai_runs wit_leased). run_identity r = run_identity (admitted_run 21 wit_admission) \<and> ar_status r = RunStreaming"
  using ai_run_lifecycle [OF wit_reachable(3) wit_leased_reachable(1), of "admitted_run 21 wit_admission"]
  by (simp add: wit_tables(1) wit_leased_run) (simp add: claim_run_def)


theorem reconcile_clears_expired_witness:
  "\<exists>db'. ReconcileExpired False (\<lambda>_. False) (\<lambda>_ _. False) 20000 0 wit_leased = (None, db') \<and>
     map (\<lambda>r. (ar_id r, ar_status r, ar_error_code r)) (ai_runs db') = [(21, RunFailed, Some ''runner_lost'')]"
proof -
  have ex: "expired_run 20000 (claim_run ''w'' 10000 500 (admitted_run 21 wit_admission))" by (simp add: expired_run_def claim_run_def)
  have f: "ar_id (claim_run ''w'' 10000 500 (admitted_run 21 wit_admission)) = 21" "ar_error_code (lost_row now r) = Some ''runner_lost''" for now r
    by (simp_all add: claim_run_def admitted_run_def new_run_def lost_row_def finish_run_def)
  from ex have le: "int (length (filter (expired_run 20000) (ai_runs wit_leased))) \<le> (if (0::int) \<le> 0 then 100 else 0)" by (simp add: wit_leased_run)
  from reconcile_clears_expired [OF wit_leased_reachable(2) le] show ?thesis
    by (auto simp: wit_leased_run ex f)
qed

end
