(* ===== verification/AI_Service.thy ===== *)
theory AI_Service
  imports AI_Attachments AI_Accounting
begin

text \<open>
  \<^verbatim>\<open>internal/aiqa/service.go\<close>: what a student's request does before it reaches the store. The
  configuration source \<^verbatim>\<open>RuntimeConfigSource\<close> is the argument \<open>for_run\<close>, attachments come from
  \<open>AI_Attachments\<close> (\<open>validate\<close>, \<open>load_text\<close>), identifiers, the clock and the digest are
  arguments. \<open>faults\<close> says for each store call whether the connection fails in it.
\<close>

section \<open>Requests\<close>

record CreateThreadInput =
  ct_Subject :: string
  ct_Title :: string
  ct_Body :: string
  ct_IdempotencyKey :: string
  ct_Attachments :: "AttachmentInput list"

record AddMessageInput =
  mi_ThreadID :: uuid
  mi_Body :: string
  mi_IdempotencyKey :: string
  mi_Attachments :: "AttachmentInput list"

definition studentOK :: "Principal \<Rightarrow> bool" where
  "studentOK p \<longleftrightarrow> u_ID (p_User p) \<noteq> uuid_Nil \<and> u_Role (p_User p) = RoleStudent \<and> u_Status (p_User p) = StatusActive"

definition sameAttachmentBindings :: "AttachmentInput list \<Rightarrow> AttachmentMetadata list \<Rightarrow> bool" where
  "sameAttachmentBindings inputs persisted \<longleftrightarrow>
     map ai_FileVersionID (sort_key ai_SortPosition inputs) = map am_FileVersionID persisted"

text \<open>Everything the service calls besides the run store.\<close>

record ai_service =
  sv_for_run :: "string \<Rightarrow> string \<Rightarrow> ai_error + RuntimeProviderConfig"
  sv_validate :: "ai_db \<Rightarrow> uuid \<Rightarrow> uuid \<Rightarrow> AttachmentInput list \<Rightarrow> ai_error + (AttachmentMetadata \<times> string) list"
  sv_load_text :: "uuid \<Rightarrow> uuid \<Rightarrow> ai_error + string"
  sv_hex_sha256 :: "string \<Rightarrow> string"
  sv_zone :: "(time \<Rightarrow> duration) option"
  sv_attachable :: "uuid \<Rightarrow> bool"

record service_faults =
  sf_find :: bool
  sf_thread :: bool
  sf_context :: bool
  sf_admit :: bool

section \<open>Admission\<close>

fun collect_attachments ::
  "(uuid \<Rightarrow> ai_error + string) \<Rightarrow> string \<times> int \<times> string \<Rightarrow> (AttachmentMetadata \<times> string) list \<Rightarrow> ai_error + (string \<times> int \<times> string)" where
  "collect_attachments load acc [] = Inr acc"
| "collect_attachments load (modality, images, extracted) ((md, kind) # rest) =
     (if kind = ''vision'' then collect_attachments load (''vision'', images + 1, extracted) rest
      else case load (am_FileVersionID md) of
        Inl e \<Rightarrow> Inl e
      | Inr text \<Rightarrow> collect_attachments load (modality, images, extracted @ text) rest)"

definition reservation_for ::
  "ai_service \<Rightarrow> RuntimeProviderConfig \<Rightarrow> GatewayContextTurn list \<Rightarrow> string \<Rightarrow> string \<Rightarrow> int \<Rightarrow> time \<Rightarrow> QuotaReservation" where
  "reservation_for sv cfg turns current extracted images now =
     EstimateQuotaReservation (sv_zone sv) (pv_Body (rc_Prompt cfg)) (map ct_Text turns @ [current]) extracted images
       (mv_ImageQuotaTokens (rc_Model cfg)) (mv_MaxOutputTokens (rc_Model cfg)) now"

definition admit ::
  "ai_service \<Rightarrow> service_faults \<Rightarrow> uuid \<Rightarrow> uuid \<Rightarrow> time \<Rightarrow> uuid \<Rightarrow> uuid \<Rightarrow> bool \<Rightarrow> string \<Rightarrow> string \<Rightarrow> string \<Rightarrow> string \<Rightarrow> AttachmentInput list
     \<Rightarrow> ai_db \<Rightarrow> (ai_error + (ThreadDetail \<times> ai_run)) \<times> ai_db" where
  "admit sv faults newMessage newRun now student thread create title subject body key inputs db =
     (case sv_validate sv db student (if create then uuid_Nil else thread) inputs of Inl e \<Rightarrow> (Inl e, db) | Inr mds \<Rightarrow>
      case collect_attachments (sv_load_text sv student) (''text'', 0, []) mds of Inl e \<Rightarrow> (Inl e, db) | Inr (modality, images, extracted) \<Rightarrow>
      case sv_for_run sv subject modality of Inl e \<Rightarrow> (Inl e, db) | Inr cfg \<Rightarrow>
      case (if create then Inr [] else LoadContext (sf_context faults) student thread db) of Inl e \<Rightarrow> (Inl e, db) | Inr history \<Rightarrow>
      case selectContext (pv_Body (rc_Prompt cfg)) history body extracted images (mv_ImageQuotaTokens (rc_Model cfg))
             (mv_ContextTokens (rc_Model cfg)) (mv_MaxOutputTokens (rc_Model cfg)) of Inl e \<Rightarrow> (Inl e, db) | Inr turns \<Rightarrow>
        AdmitRun (sv_hex_sha256 sv) (sv_attachable sv) (sf_admit faults) newRun
          \<lparr>ra_StudentID = student, ra_ThreadID = thread, ra_CreateThread = create, ra_ThreadTitle = TrimSpace title, ra_Subject = subject,
           ra_MessageID = newMessage, ra_MessageBody = TrimSpace body, ra_IdempotencyKey = key, ra_Attachments = map fst mds, ra_AttemptNo = 1,
           ra_Snapshot = \<lparr>sn_Provider = cfg, sn_PromptSHA256 = sv_hex_sha256 sv (pv_Body (rc_Prompt cfg))\<rparr>,
           ra_Reservation = reservation_for sv cfg turns body extracted images now, ra_Now = now\<rparr> db)"

definition run_attachments :: "ai_run \<Rightarrow> ai_db \<Rightarrow> AttachmentMetadata list" where
  "run_attachments r db = loadMessageAttachments (ar_trigger_message_id r) db"

definition run_body :: "ai_run \<Rightarrow> ai_db \<Rightarrow> string" where
  "run_body r db = message_body (ar_trigger_message_id r) db"

definition CreateThread_ai ::
  "ai_service \<Rightarrow> service_faults \<Rightarrow> uuid \<Rightarrow> uuid \<Rightarrow> uuid \<Rightarrow> time \<Rightarrow> Principal \<Rightarrow> CreateThreadInput \<Rightarrow> ai_db \<Rightarrow> (ai_error + (ThreadDetail \<times> ai_run)) \<times> ai_db" where
  "CreateThread_ai sv faults newThread newMessage newRun now p i db =
     (if \<not> studentOK p then (Inl ErrAINotFound, db)
      else if \<not> subjectOK (ct_Subject i) \<or> \<not> validTitle (ct_Title i) \<or> \<not> validBody (ct_Body i) \<or> \<not> validIdempotency (ct_IdempotencyKey i) \<or>
         \<not> validateAttachmentInputs (ct_Attachments i)
      then (Inl ErrAIInvalid, db)
      else case GetRunByIdempotency (sf_find faults) (u_ID (p_User p)) (ct_IdempotencyKey i) db of
        Inr (detail, run) \<Rightarrow>
          if th_Title (td_Thread detail) \<noteq> TrimSpace (ct_Title i) \<or> th_Subject (td_Thread detail) \<noteq> ct_Subject i \<or>
             run_body run db \<noteq> TrimSpace (ct_Body i) \<or> \<not> sameAttachmentBindings (ct_Attachments i) (run_attachments run db)
          then (Inl ErrRunConflict, db) else (Inr (detail, run), db)
      | Inl ErrAINotFound \<Rightarrow>
          admit sv faults newMessage newRun now (u_ID (p_User p)) newThread True (ct_Title i) (ct_Subject i) (ct_Body i) (ct_IdempotencyKey i) (ct_Attachments i) db
      | Inl e \<Rightarrow> (Inl e, db))"

definition GetThread_store :: "bool \<Rightarrow> uuid \<Rightarrow> uuid \<Rightarrow> MessageCursor \<Rightarrow> ai_db \<Rightarrow> ai_error + ThreadDetail" where
  "GetThread_store fault student thread cursor db = (if fault then Inl ErrAIDriver else getThreadTx student thread cursor db)"

definition first_message :: MessageCursor where
  "first_message = no_cursor\<lparr>mc_Limit := 1\<rparr>"

definition AddMessage_ai ::
  "ai_service \<Rightarrow> service_faults \<Rightarrow> uuid \<Rightarrow> uuid \<Rightarrow> time \<Rightarrow> Principal \<Rightarrow> AddMessageInput \<Rightarrow> ai_db \<Rightarrow> (ai_error + (ThreadDetail \<times> ai_run)) \<times> ai_db" where
  "AddMessage_ai sv faults newMessage newRun now p i db =
     (if \<not> studentOK p then (Inl ErrAINotFound, db)
      else if mi_ThreadID i = uuid_Nil \<or> \<not> validBody (mi_Body i) \<or> \<not> validIdempotency (mi_IdempotencyKey i) \<or> \<not> validateAttachmentInputs (mi_Attachments i)
      then (Inl ErrAIInvalid, db)
      else case GetRunByIdempotency (sf_find faults) (u_ID (p_User p)) (mi_IdempotencyKey i) db of
        Inr (detail, run) \<Rightarrow>
          if ar_thread_id run \<noteq> mi_ThreadID i \<or> run_body run db \<noteq> TrimSpace (mi_Body i) \<or> \<not> sameAttachmentBindings (mi_Attachments i) (run_attachments run db)
          then (Inl ErrRunConflict, db) else (Inr (detail, run), db)
      | Inl ErrAINotFound \<Rightarrow>
          (case GetThread_store (sf_thread faults) (u_ID (p_User p)) (mi_ThreadID i) first_message db of
             Inl e \<Rightarrow> (Inl e, db)
           | Inr detail \<Rightarrow> admit sv faults newMessage newRun now (u_ID (p_User p)) (mi_ThreadID i) False [] (th_Subject (td_Thread detail)) (mi_Body i)
               (mi_IdempotencyKey i) (mi_Attachments i) db)
      | Inl e \<Rightarrow> (Inl e, db))"

section \<open>Retry, cancellation, reading\<close>

definition retry_inputs :: "AttachmentMetadata list \<Rightarrow> AttachmentInput list" where
  "retry_inputs mds = map (\<lambda>(n, md). \<lparr>ai_FileVersionID = am_FileVersionID md, ai_SortPosition = int n\<rparr>) (enumerate 0 mds)"

text \<open>The messages before the triggering one, and its body; nothing if it is missing or not the student's.\<close>

definition split_history :: "uuid \<Rightarrow> ai_message list \<Rightarrow> (ai_message list \<times> string) option" where
  "split_history trigger history =
     (case dropWhile (\<lambda>m. mg_ID m \<noteq> trigger) history of
        [] \<Rightarrow> None
      | m # _ \<Rightarrow> if mg_Role m \<noteq> ''student'' then None else Some (takeWhile (\<lambda>m. mg_ID m \<noteq> trigger) history, mg_Body m))"

definition retry_admission ::
  "ai_service \<Rightarrow> service_faults \<Rightarrow> uuid \<Rightarrow> time \<Rightarrow> uuid \<Rightarrow> ai_run \<Rightarrow> string \<Rightarrow> ai_db \<Rightarrow> (ai_error + ai_run) \<times> ai_db" where
  "retry_admission sv faults newRun now student source key db =
     (case sv_validate sv db student (ar_thread_id source) (retry_inputs (run_attachments source db)) of Inl e \<Rightarrow> (Inl e, db) | Inr mds \<Rightarrow>
      case GetThread_store (sf_thread faults) student (ar_thread_id source) first_message db of Inl e \<Rightarrow> (Inl e, db) | Inr detail \<Rightarrow>
      case collect_attachments (sv_load_text sv student) (''text'', 0, []) mds of Inl e \<Rightarrow> (Inl e, db) | Inr (modality, images, extracted) \<Rightarrow>
      case LoadContext (sf_context faults) student (ar_thread_id source) db of Inl e \<Rightarrow> (Inl e, db) | Inr history \<Rightarrow>
      case split_history (ar_trigger_message_id source) history of None \<Rightarrow> (Inl ErrAINotFound, db) | Some (before, current) \<Rightarrow>
      case sv_for_run sv (th_Subject (td_Thread detail)) modality of Inl e \<Rightarrow> (Inl e, db) | Inr cfg \<Rightarrow>
      case selectContext (pv_Body (rc_Prompt cfg)) before current extracted images (mv_ImageQuotaTokens (rc_Model cfg))
             (mv_ContextTokens (rc_Model cfg)) (mv_MaxOutputTokens (rc_Model cfg)) of Inl e \<Rightarrow> (Inl e, db) | Inr turns \<Rightarrow>
        (case RetryRun (sv_hex_sha256 sv) (sf_admit faults)
           \<lparr>rr_StudentID = student, rr_SourceRunID = ar_id source, rr_RunID = newRun, rr_IdempotencyKey = key,
            rr_Snapshot = \<lparr>sn_Provider = cfg, sn_PromptSHA256 = sv_hex_sha256 sv (pv_Body (rc_Prompt cfg))\<rparr>,
            rr_Reservation = reservation_for sv cfg turns current extracted images now, rr_Now = now\<rparr> db of
           (Inl e, db1) \<Rightarrow> (Inl e, db1)
         | (Inr (_, run), db1) \<Rightarrow> (Inr run, db1)))"

definition RetryRun_ai ::
  "ai_service \<Rightarrow> service_faults \<Rightarrow> bool \<Rightarrow> uuid \<Rightarrow> time \<Rightarrow> Principal \<Rightarrow> uuid \<Rightarrow> string \<Rightarrow> ai_db \<Rightarrow> (ai_error + ai_run) \<times> ai_db" where
  "RetryRun_ai sv faults get_fault newRun now p sourceRunID key db =
     (if \<not> studentOK p \<or> sourceRunID = uuid_Nil then (Inl ErrAINotFound, db)
      else if \<not> validIdempotency key then (Inl ErrAIInvalid, db)
      else case GetRun get_fault (u_ID (p_User p)) sourceRunID db of Inl e \<Rightarrow> (Inl e, db) | Inr (source, _) \<Rightarrow>
        if ar_status source \<noteq> RunFailed \<and> ar_status source \<noteq> RunCancelled then (Inl ErrRunConflict, db)
        else case GetRunByIdempotency (sf_find faults) (u_ID (p_User p)) key db of
          Inr (_, run) \<Rightarrow> if ar_trigger_message_id run \<noteq> ar_trigger_message_id source then (Inl ErrRunConflict, db) else (Inr run, db)
        | Inl ErrAINotFound \<Rightarrow> retry_admission sv faults newRun now (u_ID (p_User p)) source key db
        | Inl e \<Rightarrow> (Inl e, db))"

definition CancelRun_ai :: "bool \<Rightarrow> time \<Rightarrow> Principal \<Rightarrow> uuid \<Rightarrow> ai_db \<Rightarrow> (ai_error + ai_run option) \<times> ai_db" where
  "CancelRun_ai fault now p i db =
     (if \<not> studentOK p \<or> i = uuid_Nil then (Inl ErrAINotFound, db) else CancelRun fault (u_ID (p_User p)) i now db)"

definition GetThread_ai :: "bool \<Rightarrow> Principal \<Rightarrow> uuid \<Rightarrow> MessageCursor \<Rightarrow> ai_db \<Rightarrow> ai_error + ThreadDetail" where
  "GetThread_ai fault p i cursor db =
     (if \<not> studentOK p \<or> i = uuid_Nil then Inl ErrAINotFound else GetThread_store fault (u_ID (p_User p)) i cursor db)"

definition ListThreads_ai :: "bool \<Rightarrow> Principal \<Rightarrow> time \<Rightarrow> uuid \<Rightarrow> int \<Rightarrow> ai_db \<Rightarrow> ai_error + (Thread list \<times> (time \<times> uuid) option)" where
  "ListThreads_ai fault p before before_id limit db =
     (if \<not> studentOK p then Inl ErrAINotFound else ListThreads fault (u_ID (p_User p)) before before_id limit db)"

section \<open>Repeated requests\<close>

lemma GetRunByIdempotency_Inr:
  "findRunByKey student key db = Some run \<Longrightarrow> getThreadTx student (ar_thread_id run) no_cursor db = Inr detail \<Longrightarrow> student \<noteq> uuid_Nil \<Longrightarrow> validIdempotency key
     \<Longrightarrow> GetRunByIdempotency False student key db = Inr (detail, run)"
  by (simp add: GetRunByIdempotency_def)

lemma replay_admission_Inr:
  assumes "replay_admission i run db = Inr ((detail, run'), db')"
  shows "getThreadTx (ra_StudentID i) (ar_thread_id run) no_cursor db = Inr detail"
    "(\<not> ra_CreateThread i \<and> ar_thread_id run = ra_ThreadID i) \<or>
     (ra_CreateThread i \<and> th_Title (td_Thread detail) = ra_ThreadTitle i \<and> th_Subject (td_Thread detail) = ra_Subject i)"
    "message_body (ar_trigger_message_id run) db = ra_MessageBody i"
    "sameMetadataBindings (ra_Attachments i) (loadMessageAttachments (ar_trigger_message_id run) db)"
  using assms by (auto simp: replay_admission_def Let_def split: sum.splits if_splits)

lemma admit_calls:
  assumes "admit sv faults newMessage newRun now student thread create title subject body key inputs db = (Inr (detail, run), db')"
  obtains i mds where "sv_validate sv db student (if create then uuid_Nil else thread) inputs = Inr mds"
    "AdmitRun (sv_hex_sha256 sv) (sv_attachable sv) (sf_admit faults) newRun i db = (Inr (detail, run), db')"
    "ra_StudentID i = student" "ra_ThreadID i = thread" "ra_CreateThread i = create" "ra_ThreadTitle i = TrimSpace title" "ra_Subject i = subject"
    "ra_MessageBody i = TrimSpace body" "ra_IdempotencyKey i = key" "ra_Attachments i = map fst mds" "ra_MessageID i = newMessage"
proof -
  note a = assms [unfolded admit_def]
  obtain mds where 1: "sv_validate sv db student (if create then uuid_Nil else thread) inputs = Inr mds"
    using a by (cases "sv_validate sv db student (if create then uuid_Nil else thread) inputs") simp_all
  note a = a [unfolded 1 sum.case]
  obtain modality images extracted where 2: "collect_attachments (sv_load_text sv student) (''text'', 0, []) mds = Inr (modality, images, extracted)"
    using a by (cases "collect_attachments (sv_load_text sv student) (''text'', 0, []) mds") auto
  note a = a [unfolded 2 sum.case prod.case]
  obtain cfg where 3: "sv_for_run sv subject modality = Inr cfg" using a by (cases "sv_for_run sv subject modality") simp_all
  note a = a [unfolded 3 sum.case]
  obtain history where 4: "(if create then Inr [] else LoadContext (sf_context faults) student thread db) = Inr history"
    using a by (cases "if create then Inr [] else LoadContext (sf_context faults) student thread db") simp_all
  note a = a [unfolded 4 sum.case]
  let ?sel = "selectContext (pv_Body (rc_Prompt cfg)) history body extracted images (mv_ImageQuotaTokens (rc_Model cfg))
     (mv_ContextTokens (rc_Model cfg)) (mv_MaxOutputTokens (rc_Model cfg))"
  obtain turns where 5: "?sel = Inr turns" using a by (cases ?sel) simp_all
  note a = a [unfolded 5 sum.case]
  show thesis by (rule that [OF 1 a]) simp_all
qed

lemma admit_replays:
  assumes inv: "runs_inv db" and att: "attachment_context (sv_validate sv)"
    and adm: "admit sv faults newMessage newRun now student thread create title subject body key inputs db = (Inr (detail, run), db')"
    and new: "GetRunByIdempotency f student key db = Inl ErrAINotFound" and ok: "student \<noteq> uuid_Nil" "validIdempotency key"
  shows "GetRunByIdempotency False student key db' = Inr (detail, run)"
    and "if create then th_Title (td_Thread detail) = TrimSpace title \<and> th_Subject (td_Thread detail) = subject else ar_thread_id run = thread"
    and "run_body run db' = TrimSpace body" and "sameAttachmentBindings inputs (run_attachments run db')"
proof -
  from adm obtain i mds where v: "sv_validate sv db student (if create then uuid_Nil else thread) inputs = Inr mds"
    and a: "AdmitRun (sv_hex_sha256 sv) (sv_attachable sv) (sf_admit faults) newRun i db = (Inr (detail, run), db')"
    and i: "ra_StudentID i = student" "ra_ThreadID i = thread" "ra_CreateThread i = create" "ra_ThreadTitle i = TrimSpace title" "ra_Subject i = subject"
    "ra_MessageBody i = TrimSpace body" "ra_IdempotencyKey i = key" "ra_Attachments i = map fst mds"
    by (rule admit_calls)
  from a have found: "findRunByKey student key db' = Some run \<and> replay_admission i run db' = Inr ((detail, run), db')"
  proof (cases rule: AdmitRun_cases)
    case replayed
    then show ?thesis using i by simp
  next
    case admitted
    then show ?thesis using admitted_replays [OF inv admitted(1,3)] i by simp
  qed
  note R = replay_admission_Inr [OF found [THEN conjunct2], unfolded i]
  show "GetRunByIdempotency False student key db' = Inr (detail, run)" using found R(1) ok by (intro GetRunByIdempotency_Inr) simp_all
  show "if create then th_Title (td_Thread detail) = TrimSpace title \<and> th_Subject (td_Thread detail) = subject else ar_thread_id run = thread"
    using R(2) by auto
  show "run_body run db' = TrimSpace body" using R(3) by (simp add: run_body_def)
  have "map am_FileVersionID (map fst mds) = map ai_FileVersionID (sort_key ai_SortPosition inputs)"
    using attachment_context.validated_order [OF att v] by (simp add: comp_def case_prod_beta)
  with R(4) show "sameAttachmentBindings inputs (run_attachments run db')"
    by (simp add: sameAttachmentBindings_def run_attachments_def sameMetadataBindings_def)
qed

lemma CreateThread_ai_repeats:
  assumes inv: "runs_inv db" and att: "attachment_context (sv_validate sv)" and find: "\<not> sf_find faults'"
    and first: "CreateThread_ai sv faults newThread newMessage newRun now p i db = (Inr (detail, run), db')"
  shows "CreateThread_ai sv faults' newThread' newMessage' newRun' now' p i db' = (Inr (detail, run), db')"
proof -
  let ?student = "u_ID (p_User p)"
  have ok: "\<not> \<not> studentOK p" "\<not> (\<not> subjectOK (ct_Subject i) \<or> \<not> validTitle (ct_Title i) \<or> \<not> validBody (ct_Body i) \<or> \<not> validIdempotency (ct_IdempotencyKey i) \<or>
         \<not> validateAttachmentInputs (ct_Attachments i))"
    using first unfolding CreateThread_ai_def by (auto split: if_splits)
  have id: "?student \<noteq> uuid_Nil" "validIdempotency (ct_IdempotencyKey i)" using ok by (auto simp: studentOK_def)
  note call = CreateThread_ai_def if_not_P [OF ok(1)] if_not_P [OF ok(2)]
  note a = first [unfolded call]
  show ?thesis
  proof (cases "GetRunByIdempotency (sf_find faults) ?student (ct_IdempotencyKey i) db")
    case (Inr dr)
    obtain d r where dr: "dr = (d, r)" by (cases dr)
    have f: "\<not> sf_find faults" using Inr id by (auto simp: GetRunByIdempotency_def)
    from a [unfolded Inr dr] have same: "d = detail" "r = run" "db' = db" by (auto split: if_splits)
    show ?thesis using a find f Inr unfolding call dr same by simp
  next
    case (Inl e)
    have e: "e = ErrAINotFound" using a [unfolded Inl] by (cases e) simp_all
    note adm = a [unfolded Inl e sum.case ai_error.case]
    note R = admit_replays [OF inv att adm Inl [unfolded e] id]
    show ?thesis unfolding call using R find by simp
  qed
qed

lemma AddMessage_ai_repeats:
  assumes inv: "runs_inv db" and att: "attachment_context (sv_validate sv)" and find: "\<not> sf_find faults'"
    and first: "AddMessage_ai sv faults newMessage newRun now p i db = (Inr (detail, run), db')"
  shows "AddMessage_ai sv faults' newMessage' newRun' now' p i db' = (Inr (detail, run), db')"
proof -
  let ?student = "u_ID (p_User p)"
  have ok: "\<not> \<not> studentOK p" "\<not> (mi_ThreadID i = uuid_Nil \<or> \<not> validBody (mi_Body i) \<or> \<not> validIdempotency (mi_IdempotencyKey i) \<or> \<not> validateAttachmentInputs (mi_Attachments i))"
    using first unfolding AddMessage_ai_def by (auto split: if_splits)
  have id: "?student \<noteq> uuid_Nil" "validIdempotency (mi_IdempotencyKey i)" using ok by (auto simp: studentOK_def)
  note call = AddMessage_ai_def if_not_P [OF ok(1)] if_not_P [OF ok(2)]
  note a = first [unfolded call]
  show ?thesis
  proof (cases "GetRunByIdempotency (sf_find faults) ?student (mi_IdempotencyKey i) db")
    case (Inr dr)
    obtain d r where dr: "dr = (d, r)" by (cases dr)
    have f: "\<not> sf_find faults" using Inr id by (auto simp: GetRunByIdempotency_def)
    from a [unfolded Inr dr] have same: "d = detail" "r = run" "db' = db" by (auto split: if_splits)
    show ?thesis using a find f Inr unfolding call dr same by simp
  next
    case (Inl e)
    have e: "e = ErrAINotFound" using a [unfolded Inl] by (cases e) simp_all
    note a = a [unfolded Inl e sum.case ai_error.case]
    obtain d where d: "GetThread_store (sf_thread faults) ?student (mi_ThreadID i) first_message db = Inr d"
      using a by (cases "GetThread_store (sf_thread faults) ?student (mi_ThreadID i) first_message db") simp_all
    note adm = a [unfolded d sum.case]
    note R = admit_replays [OF inv att adm Inl [unfolded e] id]
    show ?thesis unfolding call using R find by simp
  qed
qed

text \<open>A student's request is idempotent end to end: repeating a successful request to open a
  thread or to add a message, under its idempotency key, gives the same thread and run and
  changes nothing, whatever the attachments, the clock and the fresh identifiers; this rests on the
  attachment store returning the attachments in the order of their positions.\<close>

theorem student_request_idempotent:
  assumes "ai_reachable db" and "attachment_context (sv_validate sv)" and "\<not> sf_find faults'"
  shows "(CreateThread_ai sv faults newThread newMessage newRun now p i db = (Inr (detail, run), db') \<longrightarrow>
      CreateThread_ai sv faults' newThread' newMessage' newRun' now' p i db' = (Inr (detail, run), db')) \<and>
    (AddMessage_ai sv faults newMessage newRun now p j db = (Inr (detail, run), db') \<longrightarrow>
      AddMessage_ai sv faults' newMessage' newRun' now' p j db' = (Inr (detail, run), db'))"
  by (intro conjI impI; rule CreateThread_ai_repeats [OF ai_reachable_inv [OF assms(1)] assms(2,3)] AddMessage_ai_repeats [OF ai_reachable_inv [OF assms(1)] assms(2,3)])

text \<open>A service that knows one provider and no attachments, and the request of the student 7.\<close>

definition wit_service :: ai_service where
  "wit_service = \<lparr>sv_for_run = (\<lambda>_ _. Inr wit_provider), sv_validate = ValidateForAI False (\<lambda>_ _. None), sv_load_text = (\<lambda>_ _. Inl ErrAINotFound),
     sv_hex_sha256 = wit_sha, sv_zone = None, sv_attachable = (\<lambda>_. True)\<rparr>"

definition wit_request :: CreateThreadInput where
  "wit_request = \<lparr>ct_Subject = ''math'', ct_Title = ''t'', ct_Body = ''why'', ct_IdempotencyKey = ''0123456789abcdef'', ct_Attachments = []\<rparr>"

definition wit_student :: Principal where
  "wit_student = \<lparr>p_User = \<lparr>u_ID = 7, u_Username = ''s'', u_DisplayName = ''S'', u_Role = RoleStudent, u_Status = StatusActive, u_PasswordHash = [],
       u_MustChangePassword = False, u_CreatedAt = 2\<rparr>, p_RequestID = ''q'', p_IP = None\<rparr>"

abbreviation no_faults :: service_faults where
  "no_faults \<equiv> \<lparr>sf_find = False, sf_thread = False, sf_context = False, sf_admit = False\<rparr>"

lemma wit_ai_admits:
  assumes v: "validAdmission i" and f: "ra_StudentID i = 7" "ra_CreateThread i" "ra_Snapshot i = wit_snapshot" "ra_Attachments i = []"
    and q: "qr_RequestCount (ra_Reservation i) = 1" "0 \<le> qr_TokenCount (ra_Reservation i)" "qr_TokenCount (ra_Reservation i) \<le> 1000"
  shows "\<exists>detail db'. AdmitRun wit_sha att False newRun i wit_ai = (Inr (detail, admitted_run newRun i), db')"
proof -
  have "int64 (qr_TokenCount (ra_Reservation i)) = qr_TokenCount (ra_Reservation i)" using q by (intro int64_id) auto
  then have "reserveQuota 7 (ra_Reservation i) wit_ai = None"
    using q by (simp add: reserveQuota_def student_limits_def ResolveQuotaLimits_def CheckQuota_def wit_ai_def no_usage_def) (simp add: int64_def)
  moreover have "\<exists>detail db'. admit_new att newRun i wit_ai = Inr ((detail, admitted_run newRun i), db')"
    using f by (simp add: admit_new_def insert_thread_def insert_message_def insertRun_def insertReserveRows_def getThreadTx_def wit_ai_def
      admitted_run_def new_run_def student_message_def Let_def no_cursor_def)
  ultimately show ?thesis using v wit_checks f
    by (auto simp: AdmitRun_def transact_def findRunByKey_def) (auto simp: wit_ai_def)
qed

lemma wit_request_admitted: "\<exists>detail run db'. CreateThread_ai wit_service no_faults 11 12 21 9000 wit_student wit_request wit_ai = (Inr (detail, run), db')"
proof -
  have trim: "TrimSpace ''why'' = ''why''" "TrimSpace ''t'' = ''t''" by (simp_all add: go_eval ascii_def)
  have valid: "validBody ''why''" "validTitle ''t''" "validIdempotency ''0123456789abcdef''"
    by (simp_all add: validBody_def validTitle_def validIdempotency_def trim, simp_all add: go_eval ascii_def)
  let ?i = "\<lparr>ra_StudentID = 7, ra_ThreadID = 11, ra_CreateThread = True, ra_ThreadTitle = ''t'', ra_Subject = ''math'',
           ra_MessageID = 12, ra_MessageBody = ''why'', ra_IdempotencyKey = ''0123456789abcdef'', ra_Attachments = [], ra_AttemptNo = 1,
           ra_Snapshot = wit_snapshot, ra_Reservation = reservation_for wit_service wit_provider [] ''why'' [] 0 9000, ra_Now = 9000\<rparr>"
  obtain day month where keys: "ShanghaiQuotaKeys None 9000 = (day, month)" by fastforce
  have r: "reservation_for wit_service wit_provider [] ''why'' [] 0 9000 =
     \<lparr>qr_RequestCount = 1, qr_TokenCount = 104, qr_DayKey = day, qr_MonthKey = month, qr_EstimatorVersion = 1\<rparr>"
    by (simp add: reservation_for_def EstimateQuotaReservation_def wit_service_def wit_provider_def wit_prompt_def wit_model_def keys add_lengths_def CurrentEstimatorVersion_def)
      (simp add: int64_def)
  have "day \<noteq> []" "month \<noteq> []" using keys by (auto simp: ShanghaiQuotaKeys_def Let_def split: prod.splits)
  then have "validAdmission ?i" using valid by (simp add: validAdmission_def subjectOK_def r)
  then have "\<exists>detail db'. AdmitRun wit_sha (\<lambda>_. True) False 21 ?i wit_ai = (Inr (detail, admitted_run 21 ?i), db')"
    by (rule wit_ai_admits) (simp_all add: r)
  then obtain detail db' where "AdmitRun wit_sha (\<lambda>_. True) False 21 ?i wit_ai = (Inr (detail, admitted_run 21 ?i), db')" by blast
  moreover have "CreateThread_ai wit_service no_faults 11 12 21 9000 wit_student wit_request wit_ai = AdmitRun wit_sha (\<lambda>_. True) False 21 ?i wit_ai"
  proof -
    have none: "GetRunByIdempotency False 7 ''0123456789abcdef'' wit_ai = Inl ErrAINotFound"
      using valid by (simp add: GetRunByIdempotency_def findRunByKey_def wit_ai_def)
    have sel: "selectContext (pv_Body (rc_Prompt wit_provider)) [] ''why'' [] 0 (mv_ImageQuotaTokens (rc_Model wit_provider)) (mv_ContextTokens (rc_Model wit_provider))
        (mv_MaxOutputTokens (rc_Model wit_provider)) = Inr []"
      by (simp add: selectContext_def mandatory_size_def wit_provider_def wit_prompt_def wit_model_def int64_def)
    have val: "ValidateForAI False (\<lambda>_ _. None) wit_ai 7 0 [] = Inr []" by (simp add: ValidateForAI_def validateAttachmentInputs_def)
    have sn: "\<lparr>sn_Provider = wit_provider, sn_PromptSHA256 = wit_sha (pv_Body (rc_Prompt wit_provider))\<rparr> = wit_snapshot"
      by (simp add: wit_snapshot_def wit_provider_def wit_prompt_def)
    show ?thesis
      using valid by (simp add: CreateThread_ai_def studentOK_def wit_student_def wit_request_def subjectOK_def validateAttachmentInputs_def none)
        (simp add: admit_def wit_service_def val sel trim sn)
  qed
  ultimately show ?thesis by simp
qed

theorem student_request_idempotent_witness:
  "\<exists>detail run db'. CreateThread_ai wit_service no_faults 11 12 21 9000 wit_student wit_request wit_ai = (Inr (detail, run), db') \<and>
     CreateThread_ai wit_service no_faults 91 92 93 9900 wit_student wit_request db' = (Inr (detail, run), db')"
proof -
  have att: "attachment_context (sv_validate wit_service)" unfolding wit_service_def by (simp add: ai_attachments.attachment_context_axioms)
  show ?thesis using wit_request_admitted student_request_idempotent [OF wit_reachable(1) att, of no_faults] by fastforce
qed

end
