(* ===== verification/AI_Runner.thy ===== *)
theory AI_Runner
  imports AI_Service
begin

text \<open>
  \<^verbatim>\<open>internal/aiqa/runner.go\<close> and the preparation phase of \<^verbatim>\<open>LeaseNext\<close> in
  \<^verbatim>\<open>internal/aiqa/postgres_runner.go\<close>: from a leased run to its answer. While the provider
  streams, three activities share the buffer: the callback of the gateway, the flush ticker and
  the heartbeat; the buffer's mutex makes each of them atomic, so a turn is a list of
  \<open>runner_event\<close>s in the order in which they took the mutex, ending with the gateway's return.
\<close>

section \<open>Preparation\<close>

text \<open>What the world answers while a leased run is prepared: the first heartbeat, the heartbeats of the
  background ticker, whether the provider key can be decrypted, the attachments, whether the
  context was cancelled, and the connection in the closing calls.\<close>

record preparation =
  pp_first_fault :: bool
  pp_first_now :: time
  pp_first_until :: time
  pp_beats :: "(bool \<times> time \<times> time) list"
  pp_secret_ok :: bool
  pp_load_fault :: bool
  pp_attachments :: "((uuid \<Rightarrow> string) \<times> (uuid \<Rightarrow> ai_error + string)) option"
  pp_ctx_done :: bool
  pp_verify_fault :: bool
  pp_verify_now :: time
  pp_fail_fault :: bool
  pp_fail_now :: time

text \<open>\<^verbatim>\<open>heartbeatOnTicks\<close>: renew until a heartbeat is refused.\<close>

fun heartbeatOnTicks :: "uuid \<Rightarrow> string \<Rightarrow> (bool \<times> time \<times> time) list \<Rightarrow> ai_db \<Rightarrow> ai_error option \<times> ai_db" where
  "heartbeatOnTicks i owner [] db = (None, db)"
| "heartbeatOnTicks i owner ((fault, now, until) # ticks) db =
     (case Heartbeat_run fault now i owner until db of
        (Some e, db1) \<Rightarrow> (Some e, db1)
      | (None, db1) \<Rightarrow> heartbeatOnTicks i owner ticks db1)"

definition run_failure :: "RunStatus \<Rightarrow> string \<Rightarrow> int \<Rightarrow> RunFailure" where
  "run_failure st code ms = \<lparr>fa_Status = st, fa_ErrorCode = code, fa_UsageSource = ''unknown'', fa_InputTokens = 0, fa_OutputTokens = 0,
     fa_CostMicroUSD = 0, fa_TotalMS = ms\<rparr>"

definition finishLostPreparation :: "preparation \<Rightarrow> uuid \<Rightarrow> string \<Rightarrow> ai_error \<Rightarrow> ai_db \<Rightarrow> ai_db" where
  "finishLostPreparation pp i owner err db =
     (if pp_ctx_done pp \<or> err = ErrRunnerLeaseLost then db
      else snd (Fail_run (pp_fail_fault pp) (pp_fail_now pp) i owner
        (if err = ErrCancelRequested then run_failure RunCancelled ''cancelled'' 0 else run_failure RunFailed ''preparation_store_failure'' 0) db))"

definition failPreparation :: "preparation \<Rightarrow> uuid \<Rightarrow> string \<Rightarrow> string \<Rightarrow> ai_db \<Rightarrow> ai_db" where
  "failPreparation pp i owner code db = snd (Fail_run (pp_fail_fault pp) (pp_fail_now pp) i owner (run_failure RunFailed code 0) db)"

definition verifyPreparedLease :: "bool \<Rightarrow> time \<Rightarrow> uuid \<Rightarrow> string \<Rightarrow> ai_db \<Rightarrow> ai_error option" where
  "verifyPreparedLease fault now i owner db =
     (if fault then Some ErrAIDriver
      else case find (\<lambda>r. leased_by i owner r \<and> (case ar_lease_expires_at r of None \<Rightarrow> False | Some t \<Rightarrow> t > now)) (ai_runs db) of
        None \<Rightarrow> Some ErrRunnerLeaseLost
      | Some r \<Rightarrow> if ar_cancel_requested_at r \<noteq> None then Some ErrCancelRequested else None)"

text \<open>The texts of the attachments, separated by an empty line, and the number of images.\<close>

fun prepare_attachments ::
  "((uuid \<Rightarrow> string) \<times> (uuid \<Rightarrow> ai_error + string)) option \<Rightarrow> string \<times> nat \<Rightarrow> AttachmentMetadata list \<Rightarrow> ai_error + (string \<times> nat)" where
  "prepare_attachments store acc [] = Inr acc"
| "prepare_attachments store (extracted, images) (md # rest) =
     (case store of
        None \<Rightarrow> Inl ErrAttachmentNotReady
      | Some (modality, load) \<Rightarrow>
          if modality (am_FileVersionID md) = ''vision'' then prepare_attachments store (extracted, Suc images) rest
          else case load (am_FileVersionID md) of
            Inl e \<Rightarrow> Inl e
          | Inr text \<Rightarrow> prepare_attachments store ((if extracted = [] then text else extracted @ [CHR 0x0A, CHR 0x0A] @ text), images) rest)"

definition prompt_of_turn :: "string \<Rightarrow> string \<Rightarrow> string" where
  "prompt_of_turn body extracted =
     (if extracted = [] then body else body @ [CHR 0x0A, CHR 0x0A] @ ''Attachment text:'' @ [CHR 0x0A] @ extracted)"

definition prepare ::
  "preparation \<Rightarrow> string \<Rightarrow> ai_run \<Rightarrow> string \<Rightarrow> string \<Rightarrow> ai_message list \<Rightarrow> ai_db \<Rightarrow> (ai_error + LeasedRun) \<times> ai_db" where
  "prepare pp owner r prompt trigger history db0 =
     (let i = ar_id r; mdl = rc_Model (sn_Provider (ar_snapshot r)) in
      case Heartbeat_run (pp_first_fault pp) (pp_first_now pp) i owner (pp_first_until pp) db0 of
        (Some e, db1) \<Rightarrow> (Inl ErrNoRunnableRun, finishLostPreparation pp i owner e db1)
      | (None, db1) \<Rightarrow>
          (let (beat, db2) = heartbeatOnTicks i owner (pp_beats pp) db1 in
           if \<not> pp_secret_ok pp
           then (Inl ErrNoRunnableRun, if beat \<noteq> None then db2 else failPreparation pp i owner ''provider_secret_unavailable'' db2)
           else case (if pp_load_fault pp then Inl ErrAIDriver
                      else prepare_attachments (pp_attachments pp) ([], 0) (loadMessageAttachments (ar_trigger_message_id r) db2)) of
             Inl _ \<Rightarrow>
               (case beat of
                  Some e \<Rightarrow> (Inl ErrNoRunnableRun, finishLostPreparation pp i owner e db2)
                | None \<Rightarrow> if pp_ctx_done pp then (Inl ErrAIDriver, db2)
                          else (Inl ErrNoRunnableRun, failPreparation pp i owner ''attachment_unavailable'' db2))
           | Inr (extracted, images) \<Rightarrow>
               case selectContext prompt history trigger extracted (int images) (mv_ImageQuotaTokens mdl) (mv_ContextTokens mdl) (mv_MaxOutputTokens mdl) of
                 Inl _ \<Rightarrow>
                   (case beat of
                      Some e \<Rightarrow> (Inl ErrNoRunnableRun, finishLostPreparation pp i owner e db2)
                    | None \<Rightarrow> (Inl ErrNoRunnableRun, failPreparation pp i owner ''context_too_large'' db2))
               | Inr turns \<Rightarrow>
                   (case beat of
                      Some e \<Rightarrow> (Inl ErrNoRunnableRun, finishLostPreparation pp i owner e db2)
                    | None \<Rightarrow>
                        case verifyPreparedLease (pp_verify_fault pp) (pp_verify_now pp) i owner db2 of
                          Some e \<Rightarrow> (Inl ErrNoRunnableRun, finishLostPreparation pp i owner e db2)
                        | None \<Rightarrow> (Inr \<lparr>lr_Run = r, lr_LeaseOwner = owner, lr_SystemPrompt = prompt,
                            lr_Turns = turns @ [\<lparr>ct_Role = ''student'', ct_Text = prompt_of_turn trigger extracted\<rparr>], lr_Images = images\<rparr>, db2))))"

definition LeaseNext_run ::
  "(string \<Rightarrow> string) \<Rightarrow> (string \<Rightarrow> bool) \<Rightarrow> bool \<Rightarrow> admission \<Rightarrow> (uuid \<Rightarrow> bool) \<Rightarrow> preparation \<Rightarrow> string \<Rightarrow> time \<Rightarrow> duration \<Rightarrow> ai_db
     \<Rightarrow> (ai_error + LeasedRun) \<times> ai_db" where
  "LeaseNext_run hex_sha256 url_ok fault adm busy pp owner now dur db =
     (case lease_tx hex_sha256 url_ok fault adm busy owner now dur db of
        (Inl e, db1) \<Rightarrow> (Inl e, db1)
      | (Inr (r, prompt, trigger, history), db1) \<Rightarrow> prepare pp owner r prompt trigger history db1)"

section \<open>Streaming\<close>

record GatewayEvent =
  ge_Kind :: string
  ge_Delta :: string
  ge_InputTokens :: int
  ge_OutputTokens :: int
  ge_FinishReason :: string

record runBuffer =
  rb_events :: "RunEvent list"
  rb_bytes :: int
  rb_answer :: string
  rb_nextSequence :: int
  rb_inputTokens :: int
  rb_outputTokens :: int
  rb_finishReason :: string
  rb_usageSeen :: bool
  rb_firstByteAt :: time
  rb_storeErr :: "ai_error option"

definition new_buffer :: "LeasedRun \<Rightarrow> runBuffer" where
  "new_buffer l = \<lparr>rb_events = [], rb_bytes = 0, rb_answer = [], rb_nextSequence = ar_last_sequence (lr_Run l) + 1, rb_inputTokens = 0,
     rb_outputTokens = 0, rb_finishReason = [], rb_usageSeen = False, rb_firstByteAt = time_zero, rb_storeErr = None\<rparr>"

definition flush :: "bool \<Rightarrow> time \<Rightarrow> LeasedRun \<Rightarrow> runBuffer \<times> ai_db \<Rightarrow> ai_error option \<times> runBuffer \<times> ai_db" where
  "flush fault dbnow l = (\<lambda>(b, db).
     case rb_storeErr b of
       Some e \<Rightarrow> (Some e, b, db)
     | None \<Rightarrow>
         if rb_events b = [] then (None, b, db)
         else case AppendEvents fault dbnow (ar_id (lr_Run l)) (lr_LeaseOwner l) (rb_events b) db of
           (Some e, db1) \<Rightarrow> (Some e, b\<lparr>rb_storeErr := Some e\<rparr>, db1)
         | (None, db1) \<Rightarrow> (None, b\<lparr>rb_events := [], rb_bytes := 0\<rparr>, db1))"

definition buffer_event :: "time \<Rightarrow> GatewayEvent \<Rightarrow> runBuffer \<Rightarrow> runBuffer" where
  "buffer_event now e b = b\<lparr>rb_events := rb_events b @ [\<lparr>ev_Sequence = rb_nextSequence b, ev_Kind = ge_Kind e, ev_Delta = ge_Delta e, ev_CreatedAt_run = now\<rparr>],
     rb_nextSequence := rb_nextSequence b + 1, rb_bytes := rb_bytes b + int (length (ge_Delta e))\<rparr>"

text \<open>The gateway's callback; \<open>fault\<close> and \<open>dbnow\<close> are for the flush it may end with.\<close>

definition on_event :: "int \<Rightarrow> bool \<Rightarrow> time \<Rightarrow> time \<Rightarrow> LeasedRun \<Rightarrow> GatewayEvent \<Rightarrow> runBuffer \<times> ai_db \<Rightarrow> ai_error option \<times> runBuffer \<times> ai_db" where
  "on_event FlushBytes fault dbnow now l e = (\<lambda>(b, db).
     case rb_storeErr b of
       Some err \<Rightarrow> (Some err, b, db)
     | None \<Rightarrow>
         (let flushed = (\<lambda>b'. if rb_bytes b' \<ge> FlushBytes then flush fault dbnow l (b', db) else (None, b', db)) in
          if ge_Kind e = ''delta'' then
            (if ge_Delta e = [] then (None, b, db)
             else flushed (buffer_event now e (b\<lparr>rb_firstByteAt := (if rb_firstByteAt b = time_zero then now else rb_firstByteAt b),
                 rb_answer := rb_answer b @ ge_Delta e\<rparr>)))
          else if ge_Kind e = ''usage'' then
            flushed (buffer_event now e (b\<lparr>rb_inputTokens := ge_InputTokens e, rb_outputTokens := ge_OutputTokens e, rb_usageSeen := True\<rparr>))
          else if ge_Kind e = ''completed'' then (None, b\<lparr>rb_finishReason := ge_FinishReason e\<rparr>, db)
          else (None, b, db)))"

text \<open>The error of the gateway: the category of a \<^verbatim>\<open>GatewayError\<close> in its chain, and whether a passed
  deadline is in it.\<close>

record stream_error =
  se_category :: "string option"
  se_deadline :: bool

definition gateway_categories :: "string list" where
  "gateway_categories = [''auth'', ''rate_limited'', ''upstream_4xx'', ''upstream_5xx'', ''malformed_stream'', ''response_too_large'',
     ''stream_interrupted'', ''timeout'', ''cancelled'']"

definition stableGatewayCategory :: "stream_error \<Rightarrow> string" where
  "stableGatewayCategory e =
     (case se_category e of
        Some c \<Rightarrow> if c \<in> set gateway_categories then c else if se_deadline e then ''timeout_total'' else ''stream_interrupted''
      | None \<Rightarrow> if se_deadline e then ''timeout_total'' else ''stream_interrupted'')"

datatype runner_event =
    EvGateway GatewayEvent time bool time
  | EvFlushTick bool time
  | EvBeat bool time time
  | EvReturn "stream_error option"

text \<open>Heartbeats stop after their first error (\<open>alive\<close>); the callback's answer goes back to the gateway,
  whose return is an event of its own.\<close>

fun stream_loop :: "int \<Rightarrow> LeasedRun \<Rightarrow> bool \<Rightarrow> runner_event list \<Rightarrow> runBuffer \<times> ai_db \<Rightarrow> (stream_error option \<times> runBuffer \<times> ai_db) option" where
  "stream_loop n l alive [] s = None"
| "stream_loop n l alive (EvReturn err # evs) s = Some (err, s)"
| "stream_loop n l alive (EvGateway e now fault dbnow # evs) s = stream_loop n l alive evs (snd (on_event n fault dbnow now l e s))"
| "stream_loop n l alive (EvFlushTick fault dbnow # evs) s = stream_loop n l alive evs (snd (flush fault dbnow l s))"
| "stream_loop n l alive (EvBeat fault dbnow until # evs) s =
     (if \<not> alive then stream_loop n l alive evs s
      else case Heartbeat_run fault dbnow (ar_id (lr_Run l)) (lr_LeaseOwner l) until (snd s) of
        (None, db1) \<Rightarrow> stream_loop n l True evs (fst s, db1)
      | (Some e, db1) \<Rightarrow> stream_loop n l False evs ((fst s)\<lparr>rb_storeErr := (case rb_storeErr (fst s) of None \<Rightarrow> Some e | Some x \<Rightarrow> Some x)\<rparr>, db1))"

text \<open>What the world answers after the stream: the last flush, the clock, and the final calls.\<close>

record terminal_env =
  te_flush_fault :: bool
  te_flush_now :: time
  te_started :: time
  te_ended :: time
  te_parent_done :: bool
  te_complete_fault :: bool
  te_complete_now :: time
  te_message :: uuid
  te_fail_fault :: bool
  te_fail_now :: time

definition elapsed_ms :: "time \<Rightarrow> time \<Rightarrow> int" where
  "elapsed_ms a b = max 0 (Milliseconds (b - a))"

definition store_failure :: "ai_error \<Rightarrow> int \<Rightarrow> RunFailure" where
  "store_failure e ms =
     (if e = ErrCancelRequested then run_failure RunCancelled ''cancelled'' ms
      else if e = ErrRunnerLeaseLost then run_failure RunFailed ''lease_lost'' ms
      else run_failure RunFailed ''callback_store_failure'' ms)"

definition completion_of :: "LeasedRun \<Rightarrow> terminal_env \<Rightarrow> runBuffer \<Rightarrow> Completion" where
  "completion_of l te b =
     (let mdl = rc_Model (sn_Provider (ar_snapshot (lr_Run l)));
          input = (if rb_usageSeen b then rb_inputTokens b else estimateGatewayInput (lr_SystemPrompt l) (map ct_Text (lr_Turns l)) (lr_Images l) (mv_ImageQuotaTokens mdl));
          output = (if rb_usageSeen b then rb_outputTokens b else int (length (rb_answer b)));
          total = elapsed_ms (te_started te) (te_ended te)
      in \<lparr>cp_Answer = rb_answer b, cp_InputTokens = input, cp_OutputTokens = output,
          cp_CostMicroUSD = add_saturating (tokenCost input (mv_InputPriceMicroUSD mdl)) (tokenCost output (mv_OutputPriceMicroUSD mdl)),
          cp_UsageSource = (if rb_usageSeen b then ''upstream'' else ''estimated''), cp_FinishReason = rb_finishReason b,
          cp_FirstByteMS = (if rb_firstByteAt b = time_zero then total else elapsed_ms (te_started te) (rb_firstByteAt b)), cp_TotalMS = total\<rparr>)"

definition fail_with :: "terminal_env \<Rightarrow> LeasedRun \<Rightarrow> RunFailure \<Rightarrow> ai_db \<Rightarrow> ai_db" where
  "fail_with te l f db = snd (Fail_run (te_fail_fault te) (te_fail_now te) (ar_id (lr_Run l)) (lr_LeaseOwner l) f db)"

definition finish_stream :: "LeasedRun \<Rightarrow> terminal_env \<Rightarrow> stream_error option \<Rightarrow> runBuffer \<Rightarrow> ai_db \<Rightarrow> ai_db" where
  "finish_stream l te streamErr b db =
     (let total = elapsed_ms (te_started te) (te_ended te) in
      if te_parent_done te then db
      else case rb_storeErr b of
        Some e \<Rightarrow> fail_with te l (store_failure e total) db
      | None \<Rightarrow>
          case streamErr of
            Some e \<Rightarrow> fail_with te l (run_failure RunFailed (stableGatewayCategory e) total) db
          | None \<Rightarrow>
              case Complete_run (te_complete_fault te) (te_message te) (te_complete_now te) (ar_id (lr_Run l)) (lr_LeaseOwner l) (completion_of l te b) db of
                (Inr _, db1) \<Rightarrow> db1
              | (Inl ErrCancelRequested, db1) \<Rightarrow> fail_with te l (run_failure RunCancelled ''cancelled'' total) db1
              | (Inl _, db1) \<Rightarrow> fail_with te l (run_failure RunFailed ''terminal_store_failure'' total) db1)"

text \<open>\<open>None\<close> while the gateway has not returned. A failed last flush sets \<open>rb_storeErr\<close>, which decides.\<close>

definition execute :: "int \<Rightarrow> LeasedRun \<Rightarrow> runner_event list \<Rightarrow> terminal_env \<Rightarrow> ai_db \<Rightarrow> ai_db option" where
  "execute FlushBytes l evs te db =
     (case stream_loop FlushBytes l True evs (new_buffer l, db) of
        None \<Rightarrow> None
      | Some (streamErr, b, db1) \<Rightarrow>
          (let (_, b2, db2) = flush (te_flush_fault te) (te_flush_now te) l (b, db1) in Some (finish_stream l te streamErr b2 db2)))"

definition runnerTerminalTimeout :: "duration \<Rightarrow> duration" where
  "runnerTerminalTimeout leaseDuration =
     (let timeout = go_div leaseDuration 3 in if timeout \<le> 0 \<or> timeout > 2 * Second then 2 * Second else timeout)"

section \<open>A turn is a sequence of store transactions\<close>

lemma snd_eqI: "f = (a, b) \<Longrightarrow> b = snd f" by simp

lemma flush_steps: "ai_step\<^sup>*\<^sup>* db (snd (snd (flush fault dbnow l (b, db))))"
  using step_append [of db fault dbnow "ar_id (lr_Run l)" "lr_LeaseOwner l" "rb_events b"]
  by (auto simp: flush_def split: option.split prod.split dest: snd_eqI)

lemma on_event_steps: "ai_step\<^sup>*\<^sup>* db (snd (snd (on_event n fault dbnow now l e (b, db))))"
  using flush_steps by (simp add: on_event_def Let_def split: option.split)

lemma stream_loop_steps: "stream_loop n l alive evs s = Some (err, b', db') \<Longrightarrow> ai_step\<^sup>*\<^sup>* (snd s) db'"
proof (induction n l alive evs s rule: stream_loop.induct)
  case (3 n l alive e now fault dbnow evs s)
  then show ?case using on_event_steps [of "snd s" n fault dbnow now l e "fst s"] by (auto intro: rtranclp_trans)
next
  case (4 n l alive fault dbnow evs s)
  then show ?case using flush_steps [of "snd s" fault dbnow l "fst s"] by (auto intro: rtranclp_trans)
next
  case (5 n l alive fault dbnow until evs s)
  have st: "ai_step (snd s) (snd (Heartbeat_run fault dbnow (ar_id (lr_Run l)) (lr_LeaseOwner l) until (snd s)))" by (rule step_heartbeat)
  obtain r db1 where h: "Heartbeat_run fault dbnow (ar_id (lr_Run l)) (lr_LeaseOwner l) until (snd s) = (r, db1)" by fastforce
  show ?case
  proof (cases alive)
    case False
    with 5 show ?thesis by simp
  next
    case True
    have "ai_step\<^sup>*\<^sup>* db1 db'"
    proof (cases r)
      case None
      with 5(2) [OF _ h [symmetric] None] True 5(4) h show ?thesis by simp
    next
      case (Some e)
      with 5(3) [OF _ h [symmetric] Some] True 5(4) h show ?thesis by simp
    qed
    with st h show ?thesis by (simp add: converse_rtranclp_into_rtranclp)
  qed
qed auto

lemma fail_with_steps: "ai_step\<^sup>*\<^sup>* db (fail_with te l f db)"
  unfolding fail_with_def by (rule r_into_rtranclp [of ai_step]) (rule step_fail)

lemma finish_stream_steps: "ai_step\<^sup>*\<^sup>* db (finish_stream l te err b db)"
proof -
  have c: "ai_step db (snd (Complete_run (te_complete_fault te) (te_message te) (te_complete_now te) (ar_id (lr_Run l)) (lr_LeaseOwner l) (completion_of l te b) db))"
    by (rule step_complete)
  obtain r db1 where h: "Complete_run (te_complete_fault te) (te_message te) (te_complete_now te) (ar_id (lr_Run l)) (lr_LeaseOwner l) (completion_of l te b) db = (r, db1)"
    by fastforce
  have "ai_step\<^sup>*\<^sup>* db (fail_with te l f db1)" for f using c h fail_with_steps [of db1] by (auto intro: converse_rtranclp_into_rtranclp)
  moreover have "ai_step\<^sup>*\<^sup>* db db1" using c h by auto
  ultimately show ?thesis unfolding finish_stream_def Let_def h
    by (auto intro: fail_with_steps split: option.split sum.split ai_error.split)
qed

lemma execute_steps: "execute n l evs te db = Some db' \<Longrightarrow> ai_step\<^sup>*\<^sup>* db db'"
proof -
  assume a: "execute n l evs te db = Some db'"
  then obtain err b db1 where s: "stream_loop n l True evs (new_buffer l, db) = Some (err, b, db1)" by (auto simp: execute_def split: option.splits)
  obtain e b2 db2 where f: "flush (te_flush_fault te) (te_flush_now te) l (b, db1) = (e, b2, db2)" by (rule prod_cases3)
  from a s f have "db' = finish_stream l te err b2 db2" by (simp add: execute_def)
  then show ?thesis using stream_loop_steps [OF s] flush_steps [of db1 "te_flush_fault te" "te_flush_now te" l b] f finish_stream_steps
    by (auto intro: rtranclp_trans)
qed


section \<open>The answer is what was streamed\<close>

definition event_row :: "time \<Rightarrow> uuid \<Rightarrow> RunEvent \<Rightarrow> run_event" where
  "event_row now i e = \<lparr>re_run_id = i, re_sequence = ev_Sequence e, re_kind = ev_Kind e, re_payload = ev_Delta e, re_error_code = None,
     re_created_at = (if ev_CreatedAt_run e = time_zero then now else ev_CreatedAt_run e)\<rparr>"

definition good_event :: "RunEvent \<Rightarrow> bool" where
  "good_event e \<longleftrightarrow> (ev_Kind e = ''delta'' \<or> ev_Kind e = ''usage'') \<and> int (length (ev_Delta e)) \<le> MaxGatewayEventBytes"

lemma append_events_ok:
  assumes "map ev_Sequence es = [seq + 1..seq + int (length es)]" and "list_all good_event es"
  shows "append_events now i seq es db = Inr (seq + int (length es), db\<lparr>ai_run_events := ai_run_events db @ map (event_row now i) es\<rparr>)"
  using assms
proof (induction es arbitrary: seq db)
  case (Cons e es)
  have "[seq + 1..seq + int (length (e # es))] = (seq + 1) # [(seq + 1) + 1..(seq + 1) + int (length es)]"
    by (subst upto_rec1) (simp_all add: algebra_simps)
  with Cons.prems(1) have e: "ev_Sequence e = seq + 1" and es: "map ev_Sequence es = [(seq + 1) + 1..(seq + 1) + int (length es)]" by simp_all
  from Cons.prems(2) have g: "good_event e" "list_all good_event es" by simp_all
  show ?case using Cons.IH [OF es g(2)] e g(1) by (simp add: good_event_def event_row_def insert_event_def)
qed simp

definition delta_text :: "RunEvent list \<Rightarrow> string" where
  "delta_text es = concat (map ev_Delta (filter (\<lambda>e. ev_Kind e = ''delta'') es))"

definition stored_text :: "uuid \<Rightarrow> ai_db \<Rightarrow> string" where
  "stored_text i db = concat (map re_payload (filter (\<lambda>e. re_run_id e = i \<and> re_kind e = ''delta'') (ai_run_events db)))"

text \<open>The state while the stream is undisturbed: the run is leased and not cancelled, the buffer
  continues the stored events, and stored and buffered deltas make up the answer so far.\<close>

definition streaming :: "LeasedRun \<Rightarrow> ai_message list \<Rightarrow> runBuffer \<times> ai_db \<Rightarrow> bool" where
  "streaming l ms s \<longleftrightarrow> (case s of (b, db) \<Rightarrow>
     \<exists>r. find (leased_by (ar_id (lr_Run l)) (lr_LeaseOwner l)) (ai_runs db) = Some r \<and> ar_cancel_requested_at r = None \<and>
       runs_inv db \<and> ai_messages db = ms \<and> rb_storeErr b = None \<and> list_all good_event (rb_events b) \<and>
       map ev_Sequence (rb_events b) = [ar_last_sequence r + 1..ar_last_sequence r + int (length (rb_events b))] \<and>
       rb_nextSequence b = ar_last_sequence r + int (length (rb_events b)) + 1 \<and>
       rb_answer b = stored_text (ar_id (lr_Run l)) db @ delta_text (rb_events b) \<and>
       0 \<le> rb_inputTokens b \<and> 0 \<le> rb_outputTokens b)"

lemma AppendEvents_success:
  assumes inv: "runs_inv db" and r: "find (leased_by i owner) (ai_runs db) = Some r" "ar_cancel_requested_at r = None"
    and ids: "i \<noteq> uuid_Nil" "owner \<noteq> []" "es \<noteq> []"
    and es: "map ev_Sequence es = [ar_last_sequence r + 1..ar_last_sequence r + int (length es)]" "list_all good_event es"
  obtains db1 r1 where "AppendEvents False now i owner es db = (None, db1)" "runs_inv db1"
    "find (leased_by i owner) (ai_runs db1) = Some r1" "ar_cancel_requested_at r1 = None" "ar_last_sequence r1 = ar_last_sequence r + int (length es)"
    "ai_messages db1 = ai_messages db" "ai_run_events db1 = ai_run_events db @ map (event_row now i) es"
proof -
  let ?f = "\<lambda>r. r\<lparr>ar_last_sequence := ar_last_sequence r + int (length es), ar_updated_at := now\<rparr>"
  let ?r = "r\<lparr>ar_last_sequence := ar_last_sequence r + int (length es), ar_updated_at := now\<rparr>"
  let ?db1 = "update_run i (\<lambda>x. x\<lparr>ar_last_sequence := ar_last_sequence r + int (length es), ar_updated_at := now\<rparr>)
      (db\<lparr>ai_run_events := ai_run_events db @ map (event_row now i) es\<rparr>)"
  have a: "AppendEvents False now i owner es db = (None, ?db1)"
    using ids r by (simp add: AppendEvents_def append_events_ok [OF es])
  have "runs_inv (snd (AppendEvents False now i owner es db))" using AppendEvents_tx [OF inv] unfolding run_tx_def by blast
  moreover have "find (leased_by i owner) (ai_runs ?db1) = Some ?r"
    unfolding update_run_def using find_update_where [of "leased_by i owner" "\<lambda>r. ar_id r = i" "\<lambda>x. x\<lparr>ar_last_sequence := ar_last_sequence r + int (length es), ar_updated_at := now\<rparr>" "ai_runs db"]
      r leased_by_find(2) [OF r(1)] by (simp add: leased_by_def)
  ultimately show thesis using a r by (intro that [of ?db1 ?r]) (simp_all add: a)
qed

lemma stored_text_append: "ai_run_events db1 = ai_run_events db @ map (event_row now i) es \<Longrightarrow> stored_text i db1 = stored_text i db @ delta_text es"
  by (simp add: stored_text_def delta_text_def filter_map comp_def event_row_def)

lemma flush_streaming:
  assumes st: "streaming l ms (b, db)" and ids: "ar_id (lr_Run l) \<noteq> uuid_Nil" "lr_LeaseOwner l \<noteq> []"
  obtains b' db' where "flush False now l (b, db) = (None, b', db')" "streaming l ms (b', db')" "rb_events b' = []" "rb_answer b' = rb_answer b"
    "rb_inputTokens b' = rb_inputTokens b" "rb_outputTokens b' = rb_outputTokens b" "rb_usageSeen b' = rb_usageSeen b"
proof (cases "rb_events b = []")
  case True
  with st show thesis by (intro that [of b db]) (auto simp: flush_def streaming_def)
next
  case False
  from st obtain r where r: "find (leased_by (ar_id (lr_Run l)) (lr_LeaseOwner l)) (ai_runs db) = Some r" "ar_cancel_requested_at r = None"
    and inv: "runs_inv db" and b: "ai_messages db = ms" "rb_storeErr b = None" "list_all good_event (rb_events b)"
       "map ev_Sequence (rb_events b) = [ar_last_sequence r + 1..ar_last_sequence r + int (length (rb_events b))]"
       "rb_nextSequence b = ar_last_sequence r + int (length (rb_events b)) + 1"
       "rb_answer b = stored_text (ar_id (lr_Run l)) db @ delta_text (rb_events b)" "0 \<le> rb_inputTokens b" "0 \<le> rb_outputTokens b"
    unfolding streaming_def by blast
  from AppendEvents_success [OF inv r ids False b(4,3), of now] obtain db1 r1 where
    a: "AppendEvents False now (ar_id (lr_Run l)) (lr_LeaseOwner l) (rb_events b) db = (None, db1)" "runs_inv db1"
    "find (leased_by (ar_id (lr_Run l)) (lr_LeaseOwner l)) (ai_runs db1) = Some r1" "ar_cancel_requested_at r1 = None"
    "ar_last_sequence r1 = ar_last_sequence r + int (length (rb_events b))"
    "ai_messages db1 = ai_messages db" "ai_run_events db1 = ai_run_events db @ map (event_row now (ar_id (lr_Run l))) (rb_events b)" by metis
  let ?b = "b\<lparr>rb_events := [], rb_bytes := 0\<rparr>"
  have "streaming l ms (?b, db1)" unfolding streaming_def using a b stored_text_append [OF a(7)] by (auto simp: delta_text_def)
  then show thesis using a(1) b(2) False by (intro that [of ?b db1]) (simp_all add: flush_def)
qed


lemma buffered_streaming:
  assumes st: "streaming l ms (b, db)" and e: "ge_Kind e = ''delta'' \<or> ge_Kind e = ''usage''" "int (length (ge_Delta e)) \<le> MaxGatewayEventBytes"
    and b': "rb_events b' = rb_events b" "rb_nextSequence b' = rb_nextSequence b" "rb_storeErr b' = rb_storeErr b"
      "rb_answer b' = rb_answer b @ (if ge_Kind e = ''delta'' then ge_Delta e else [])" "0 \<le> rb_inputTokens b'" "0 \<le> rb_outputTokens b'"
  shows "streaming l ms (buffer_event now e b', db)"
proof -
  from st obtain r where r: "find (leased_by (ar_id (lr_Run l)) (lr_LeaseOwner l)) (ai_runs db) = Some r" "ar_cancel_requested_at r = None"
    and inv: "runs_inv db" and b: "ai_messages db = ms" "rb_storeErr b = None" "list_all good_event (rb_events b)"
       "map ev_Sequence (rb_events b) = [ar_last_sequence r + 1..ar_last_sequence r + int (length (rb_events b))]"
       "rb_nextSequence b = ar_last_sequence r + int (length (rb_events b)) + 1"
       "rb_answer b = stored_text (ar_id (lr_Run l)) db @ delta_text (rb_events b)"
    unfolding streaming_def by blast
  let ?n = "ar_last_sequence r + int (length (rb_events b))"
  have seq: "[ar_last_sequence r + 1..?n + 1] = [ar_last_sequence r + 1..?n] @ [?n + 1]" by (subst upto_rec2) simp_all
  show ?thesis unfolding streaming_def prod.case
  proof (intro exI conjI)
    show "map ev_Sequence (rb_events (buffer_event now e b')) =
        [ar_last_sequence r + 1..ar_last_sequence r + int (length (rb_events (buffer_event now e b')))]"
      using b(4,5) seq by (simp add: buffer_event_def b' algebra_simps)
    show "rb_answer (buffer_event now e b') = stored_text (ar_id (lr_Run l)) db @ delta_text (rb_events (buffer_event now e b'))"
      using b(6) by (simp add: buffer_event_def b' delta_text_def)
  qed (use r inv b b' e in \<open>simp_all add: buffer_event_def good_event_def\<close>)
qed

lemma on_event_streaming:
  assumes st: "streaming l ms (b, db)" and ids: "ar_id (lr_Run l) \<noteq> uuid_Nil" "lr_LeaseOwner l \<noteq> []"
    and e: "int (length (ge_Delta e)) \<le> MaxGatewayEventBytes" "0 \<le> ge_InputTokens e" "0 \<le> ge_OutputTokens e"
  obtains b' db' where "snd (on_event n False dbnow now l e (b, db)) = (b', db')" "streaming l ms (b', db')"
    "rb_answer b' = rb_answer b @ (if ge_Kind e = ''delta'' then ge_Delta e else [])"
proof -
  note result = that
  have ns: "rb_storeErr b = None" and nn: "0 \<le> rb_inputTokens b" "0 \<le> rb_outputTokens b" using st by (auto simp: streaming_def)
  have flushed: thesis if s': "streaming l ms (b', db)" and a: "rb_answer b' = rb_answer b @ (if ge_Kind e = ''delta'' then ge_Delta e else [])"
    and o: "snd (on_event n False dbnow now l e (b, db)) = (if rb_bytes b' \<ge> n then snd (flush False dbnow l (b', db)) else (b', db))" for b'
  proof (cases "rb_bytes b' \<ge> n")
    case True
    from flush_streaming [OF s' ids, of dbnow] obtain b2 db2 where "flush False dbnow l (b', db) = (None, b2, db2)" "streaming l ms (b2, db2)" "rb_answer b2 = rb_answer b'"
      by metis
    with a o True show thesis by (intro result [of b2 db2]) simp_all
  next
    case False
    with a o s' show thesis by (intro result [of b' db]) simp_all
  qed
  consider "ge_Kind e = ''delta''" "ge_Delta e \<noteq> []" | "ge_Kind e = ''usage''" | "ge_Kind e \<noteq> ''usage''" "ge_Kind e = ''delta'' \<longrightarrow> ge_Delta e = []" by blast
  then show thesis
  proof cases
    case 1
    let ?b = "b\<lparr>rb_firstByteAt := (if rb_firstByteAt b = time_zero then now else rb_firstByteAt b), rb_answer := rb_answer b @ ge_Delta e\<rparr>"
    have "streaming l ms (buffer_event now e ?b, db)" by (rule buffered_streaming [OF st _ e(1)]) (use 1 nn in simp_all)
    then show thesis by (rule flushed) (use 1 ns in \<open>simp_all add: on_event_def buffer_event_def Let_def\<close>)
  next
    case 2
    let ?b = "b\<lparr>rb_inputTokens := ge_InputTokens e, rb_outputTokens := ge_OutputTokens e, rb_usageSeen := True\<rparr>"
    have "streaming l ms (buffer_event now e ?b, db)" by (rule buffered_streaming [OF st _ e(1)]) (use 2 e in simp_all)
    then show thesis by (rule flushed) (use 2 ns in \<open>simp_all add: on_event_def buffer_event_def Let_def\<close>)
  next
    case 3
    have "streaming l ms (b\<lparr>rb_finishReason := ge_FinishReason e\<rparr>, db)" using st by (simp add: streaming_def)
    with 3 ns st show thesis
      by (intro that [of "if ge_Kind e = ''completed'' then b\<lparr>rb_finishReason := ge_FinishReason e\<rparr> else b" db]) (auto simp: on_event_def Let_def)
  qed
qed

lemma Heartbeat_streaming:
  assumes st: "streaming l ms (b, db)" and ids: "ar_id (lr_Run l) \<noteq> uuid_Nil" "lr_LeaseOwner l \<noteq> []"
  obtains db' where "Heartbeat_run False now (ar_id (lr_Run l)) (lr_LeaseOwner l) until db = (None, db')" "streaming l ms (b, db')"
proof -
  let ?i = "ar_id (lr_Run l)" and ?o = "lr_LeaseOwner l"
  from st obtain r where r: "find (leased_by ?i ?o) (ai_runs db) = Some r" "ar_cancel_requested_at r = None" and inv: "runs_inv db"
    unfolding streaming_def by blast
  let ?f = "\<lambda>r. r\<lparr>ar_heartbeat_at := Some now, ar_lease_expires_at := Some until, ar_updated_at := now\<rparr>"
  let ?db = "db\<lparr>ai_runs := update_where (leased_by ?i ?o) ?f (ai_runs db)\<rparr>"
  have h: "Heartbeat_run False now ?i ?o until db = (None, ?db)" using ids r by (simp add: Heartbeat_run_def)
  have "runs_inv ?db" using Heartbeat_run_tx [OF inv, of False now ?i ?o until] h unfolding run_tx_def by simp
  moreover have "find (leased_by ?i ?o) (ai_runs ?db) = Some (?f r)"
    using find_update_where [of "leased_by ?i ?o" "leased_by ?i ?o" ?f "ai_runs db"] r find_SomeD [OF r(1)] by (simp add: leased_by_def)
  ultimately have "streaming l ms (b, ?db)" using st r unfolding streaming_def by (simp add: stored_text_def)
  with h show thesis by (rule that)
qed

fun quiet :: "runner_event \<Rightarrow> bool" where
  "quiet (EvGateway e now fault dbnow) \<longleftrightarrow> \<not> fault \<and> int (length (ge_Delta e)) \<le> MaxGatewayEventBytes \<and> 0 \<le> ge_InputTokens e \<and> 0 \<le> ge_OutputTokens e"
| "quiet (EvFlushTick fault dbnow) \<longleftrightarrow> \<not> fault"
| "quiet (EvBeat fault dbnow until) \<longleftrightarrow> \<not> fault"
| "quiet (EvReturn err) \<longleftrightarrow> False"

definition streamed_answer :: "runner_event list \<Rightarrow> string" where
  "streamed_answer evs = concat (map (\<lambda>ev. case ev of EvGateway e _ _ _ \<Rightarrow> if ge_Kind e = ''delta'' then ge_Delta e else [] | _ \<Rightarrow> []) evs)"

lemma stream_loop_quiet:
  assumes "streaming l ms (b, db)" and ids: "ar_id (lr_Run l) \<noteq> uuid_Nil" "lr_LeaseOwner l \<noteq> []" and "list_all quiet evs"
  shows "\<exists>b' db'. stream_loop n l True (evs @ [EvReturn err]) (b, db) = Some (err, b', db') \<and> streaming l ms (b', db') \<and> rb_answer b' = rb_answer b @ streamed_answer evs"
  using assms(1,4)
proof (induction evs arbitrary: b db)
  case Nil
  then show ?case by (simp add: streamed_answer_def)
next
  case (Cons ev evs)
  show ?case
  proof (cases ev)
    case (EvGateway e now fault dbnow)
    with Cons.prems(2) have q: "\<not> fault" "int (length (ge_Delta e)) \<le> MaxGatewayEventBytes" "0 \<le> ge_InputTokens e" "0 \<le> ge_OutputTokens e" "list_all quiet evs"
      by auto
    from on_event_streaming [OF Cons.prems(1) ids q(2-4), of n dbnow now] obtain b1 db1 where o: "snd (on_event n False dbnow now l e (b, db)) = (b1, db1)"
      "streaming l ms (b1, db1)" "rb_answer b1 = rb_answer b @ (if ge_Kind e = ''delta'' then ge_Delta e else [])" by blast
    from Cons.IH [OF o(2) q(5)] o q(1) EvGateway show ?thesis by (auto simp: streamed_answer_def)
  next
    case (EvFlushTick fault dbnow)
    with Cons.prems(2) have q: "\<not> fault" "list_all quiet evs" by auto
    from flush_streaming [OF Cons.prems(1) ids, of dbnow] obtain b1 db1 where o: "flush False dbnow l (b, db) = (None, b1, db1)" "streaming l ms (b1, db1)"
      "rb_answer b1 = rb_answer b" by metis
    from Cons.IH [OF o(2) q(2)] o q(1) EvFlushTick show ?thesis by (auto simp: streamed_answer_def)
  next
    case (EvBeat fault dbnow until)
    with Cons.prems(2) have q: "\<not> fault" "list_all quiet evs" by auto
    from Heartbeat_streaming [OF Cons.prems(1) ids, of dbnow until] obtain db1 where
      o: "Heartbeat_run False dbnow (ar_id (lr_Run l)) (lr_LeaseOwner l) until db = (None, db1)" "streaming l ms (b, db1)" by blast
    from Cons.IH [OF o(2) q(2)] o q(1) EvBeat show ?thesis by (auto simp: streamed_answer_def)
  next
    case (EvReturn e)
    with Cons.prems(2) show ?thesis by simp
  qed
qed


lemma cost_nonneg: "b \<le> MaxInt64 \<Longrightarrow> 0 \<le> tokenCost a b"
proof (cases "a \<le> 0 \<or> b \<le> 0")
  case False
  assume b: "b \<le> MaxInt64"
  let ?w = "a div million" and ?r = "a mod million" and ?P = "b div million" and ?R = "b mod million"
  have M: "0 < million" by (simp add: million_def)
  have d: "go_div a million = ?w" "go_div b million = ?P" "go_div MaxInt64 b = MaxInt64 div b" "a - go_div a million * million = ?r" "b - go_div b million * million = ?R"
    using False M by (simp_all add: go_div_nonneg MaxInt64_def minus_div_mult_eq_mod)
  have rR: "0 \<le> ?r" "?r < million" "0 \<le> ?R" "?R < million" "0 \<le> ?P" "0 \<le> ?w" using M False by (simp_all add: pos_imp_zdiv_nonneg_iff)
  show ?thesis
  proof (cases "?w > MaxInt64 div b")
    case True
    then show ?thesis using False d by (simp add: tokenCost_def MaxInt64_def)
  next
    case le: False
    have "?w * b \<le> (MaxInt64 div b) * b" using le False by (intro mult_right_mono) simp_all
    also have "\<dots> \<le> MaxInt64" using div_mult_mod_eq [of MaxInt64 b] pos_mod_sign [of b MaxInt64] False by linarith
    finally have up: "?w * b \<le> MaxInt64" .
    have lo0: "0 \<le> ?w * b" using rR False by simp
    with up have c: "int64 (?w * b) = ?w * b" by (intro int64_id) (simp_all add: MaxInt64_def)
    have "?r * ?P \<le> million * ?P" by (intro mult_right_mono less_imp_le [OF rR(2)] rR(5))
    also have "\<dots> \<le> b" using mult_div_mod_eq [of million b] rR(3) by linarith
    finally have up1: "?r * ?P \<le> MaxInt64" using b by simp
    have lo1: "0 \<le> ?r * ?P" using rR by simp
    with up1 have p1: "int64 (?r * ?P) = ?r * ?P" by (intro int64_id) (simp_all add: MaxInt64_def)
    have up2: "?r * ?R \<le> million * million" by (intro mult_mono less_imp_le [OF rR(2)] less_imp_le [OF rR(4)] less_imp_le [OF M] rR(3))
    have lo2: "0 \<le> ?r * ?R" using rR by simp
    have "int64 (int64 (int64 x + million) - 1) = x + million - 1" if "0 \<le> x" "x \<le> million * million" for x
      using that by (simp add: int64_id million_def)
    from this [OF lo2 up2] have p2: "int64 (int64 (int64 (?r * ?R) + million) - 1) = ?r * ?R + million - 1" .
    have nn: "0 \<le> ?r * ?R + million - 1" using lo2 M by linarith
    have "0 \<le> go_div (?r * ?R + million - 1) million" unfolding go_div_nonneg [OF nn M] using pos_imp_zdiv_nonneg_iff [OF M] nn by blast
    with lo0 lo1 have "0 \<le> ?w * b + ?r * ?P + go_div (?r * ?R + million - 1) million" by linarith
    then show ?thesis using False le unfolding tokenCost_def Let_def d(1-3) minus_div_mult_eq_mod c p1 p2
      by (simp add: MaxInt64_def)
  qed
qed (simp add: tokenCost_def)

lemma estimate_nonneg: "0 \<le> estimateGatewayInput p ts n q"
proof -
  have "add_turns a us = Some b \<Longrightarrow> a \<le> b" for a us b by (induction us arbitrary: a) (auto split: if_splits, fastforce)
  then have "add_turns (int (length p)) ts = Some b \<Longrightarrow> 0 \<le> b" for b by (meson of_nat_0_le_iff order_trans)
  then show ?thesis by (auto simp: estimateGatewayInput_def MaxInt64_def split: option.split)
qed

lemma complete_streaming:
  assumes st: "streaming l ms (b, db)" and e: "rb_events b = []" and ids: "ar_id (lr_Run l) \<noteq> uuid_Nil" "lr_LeaseOwner l \<noteq> []"
    and body: "validBody (rb_answer b)" and fresh: "\<And>m. m \<in> set ms \<Longrightarrow> mg_ID m \<noteq> newMessage"
    and c: "cp_Answer c = rb_answer b" "0 \<le> cp_InputTokens c" "0 \<le> cp_OutputTokens c" "0 \<le> cp_CostMicroUSD c"
      "cp_UsageSource c = ''upstream'' \<or> cp_UsageSource c = ''estimated''"
  shows "\<exists>db' r'. Complete_run False newMessage now (ar_id (lr_Run l)) (lr_LeaseOwner l) c db = (Inr (), db') \<and>
    r' \<in> set (ai_runs db') \<and> ar_id r' = ar_id (lr_Run l) \<and> ar_status r' = RunSucceeded \<and>
    ar_usage r' = Some (cp_InputTokens c, cp_OutputTokens c, cp_CostMicroUSD c) \<and>
    (\<exists>th. ai_messages db' = ms @ [\<lparr>mg_ID = newMessage, mg_ThreadID = th, mg_Role = ''assistant'', mg_Sender = None, mg_Body = rb_answer b,
       mg_RunID = Some (ar_id (lr_Run l)), mg_Key = None, mg_CreatedAt = now\<rparr>]) \<and>
    stored_text (ar_id (lr_Run l)) db' = rb_answer b"
proof -
  let ?i = "ar_id (lr_Run l)" and ?o = "lr_LeaseOwner l"
  from st obtain r where r: "find (leased_by ?i ?o) (ai_runs db) = Some r" "ar_cancel_requested_at r = None"
    and inv: "runs_inv db" and m: "ai_messages db = ms" and a: "rb_answer b = stored_text ?i db @ delta_text (rb_events b)"
    unfolding streaming_def by blast
  have guard: "\<not> (?i = uuid_Nil \<or> ?o = [] \<or> \<not> validBody (cp_Answer c) \<or> cp_InputTokens c < 0 \<or> cp_OutputTokens c < 0 \<or> cp_CostMicroUSD c < 0 \<or>
         (cp_UsageSource c \<noteq> ''upstream'' \<and> cp_UsageSource c \<noteq> ''estimated''))" using ids body c by auto
  let ?actual = "add_saturating (cp_InputTokens c) (cp_OutputTokens c)"
  let ?db2 = "update_run ?i (\<lambda>x. (finish_run RunSucceeded None (Some (cp_InputTokens c, cp_OutputTokens c, cp_CostMicroUSD c))
                              (cp_UsageSource c) (ar_last_sequence r + 1) now x)\<lparr>ar_finish_reason := nilIfEmpty (cp_FinishReason c),
                                ar_first_byte_ms := Some (cp_FirstByteMS c), ar_total_ms := Some (cp_TotalMS c)\<rparr>)
               (insert_event ?i (ar_last_sequence r + 1) ''completed'' [] None now (block_if_exceeded ?actual r now db))"
  have ins: "insert_message (assistant_message newMessage r (cp_Answer c) now) ?db2 = Inr (?db2\<lparr>ai_messages := ai_messages db @ [assistant_message newMessage r (cp_Answer c) now]\<rparr>)"
    using fresh m by (simp add: insert_message_def list_ex_iff assistant_message_def)
  obtain db' where t: "Complete_run False newMessage now ?i ?o c db = (Inr (), db')"
    using r ins unfolding Complete_run_def if_not_P [OF guard] by (simp add: transact_def Let_def)
  show ?thesis
  proof (rule Complete_run_changes [OF t inv])
    fix r1 assume r1: "find (leased_by ?i ?o) (ai_runs db) = Some r1" "ar_cancel_requested_at r1 = None"
      "changes_run db db' r1 (completed_row now c r1) (settle_rows r1 (Some (charge ?actual r1)) now)
       [completed_event now r1] [assistant_message newMessage r1 (cp_Answer c) now]"
    have "r1 = r" using r r1 by simp
    note ch = r1(3) [unfolded this] and L = leased_by_find [OF r(1)]
    have "stored_text ?i db' = rb_answer b" using a e changes_runD(8) [OF ch] by (simp add: stored_text_def delta_text_def completed_event_def)
    moreover have "\<exists>th. ai_messages db' = ms @ [\<lparr>mg_ID = newMessage, mg_ThreadID = th, mg_Role = ''assistant'', mg_Sender = None, mg_Body = rb_answer b,
       mg_RunID = Some ?i, mg_Key = None, mg_CreatedAt = now\<rparr>]"
      using changes_runD(9) [OF ch] m c(1) L(2) by (simp add: assistant_message_def)
    ultimately show ?thesis using t changed_mem [OF ch] changes_runD(2) [OF ch] L(2)
      by (intro exI [of _ db'] exI [of _ "completed_row now c r"]) (simp add: completed_row_def finish_run_def)
  qed
qed

text \<open>C16: An undisturbed turn of the runner succeeds and is faithful: when the gateway streams events within
  the size limit and returns without error, and no store call fails, then however flushes and
  heartbeats fall between the events and whatever the flush threshold, the run succeeds, its one
  answer is the concatenation of the streamed deltas, and so are the delta events that were stored
  for a reader that follows the stream.\<close>

theorem runner_stores_streamed_answer:
  assumes "ai_reachable db" and r: "find (leased_by (ar_id (lr_Run l)) (lr_LeaseOwner l)) (ai_runs db) = Some r"
    and start: "ar_cancel_requested_at r = None" "ar_last_sequence r = 0" "ar_last_sequence (lr_Run l) = 0"
    and ids: "ar_id (lr_Run l) \<noteq> uuid_Nil" "lr_LeaseOwner l \<noteq> []"
    and quiet: "list_all quiet evs" and body: "validBody (streamed_answer evs)"
    and prices: "mv_InputPriceMicroUSD (rc_Model (sn_Provider (ar_snapshot (lr_Run l)))) \<le> MaxInt64" "mv_OutputPriceMicroUSD (rc_Model (sn_Provider (ar_snapshot (lr_Run l)))) \<le> MaxInt64"
    and env: "\<not> te_flush_fault te" "\<not> te_complete_fault te" "\<not> te_parent_done te" "\<forall>m \<in> set (ai_messages db). mg_ID m \<noteq> te_message te"
  shows "\<exists>db' r'. execute n l (evs @ [EvReturn None]) te db = Some db' \<and>
    r' \<in> set (ai_runs db') \<and> ar_id r' = ar_id (lr_Run l) \<and> ar_status r' = RunSucceeded \<and>
    map mg_Body (filter (\<lambda>m. mg_RunID m = Some (ar_id (lr_Run l))) (ai_messages db')) = [streamed_answer evs] \<and>
    concat (map re_payload (filter (\<lambda>e. re_run_id e = ar_id (lr_Run l) \<and> re_kind e = ''delta'') (ai_run_events db'))) = streamed_answer evs"
proof -
  let ?i = "ar_id (lr_Run l)"
  have inv: "runs_inv db" by (rule ai_reachable_inv [OF assms(1)])
  note L = leased_by_find [OF r]
  have good: "run_good db r" by (rule runs_invD(2) [OF inv L(1)])
  then have "events_of ?i (ai_run_events db) = []" using start L(2) by (simp add: run_good_def events_ok_def)
  then have st0: "stored_text ?i db = []" by (auto simp: stored_text_def events_of_def filter_empty_conv)
  have s0: "streaming l (ai_messages db) (new_buffer l, db)"
    unfolding streaming_def using r start inv st0 by (simp add: new_buffer_def delta_text_def)
  from stream_loop_quiet [OF s0 ids quiet, of n None] obtain b db1 where
    s1: "stream_loop n l True (evs @ [EvReturn None]) (new_buffer l, db) = Some (None, b, db1)" "streaming l (ai_messages db) (b, db1)"
    "rb_answer b = streamed_answer evs" by (auto simp: new_buffer_def)
  from flush_streaming [OF s1(2) ids, of "te_flush_now te"] obtain b2 db2 where
    s2: "flush False (te_flush_now te) l (b, db1) = (None, b2, db2)" "streaming l (ai_messages db) (b2, db2)" "rb_events b2 = []" "rb_answer b2 = streamed_answer evs"
    using s1(3) by metis
  have nn: "0 \<le> rb_inputTokens b2" "0 \<le> rb_outputTokens b2" "rb_storeErr b2 = None" using s2(2) by (auto simp: streaming_def)
  have "\<exists>db' r'. Complete_run False (te_message te) (te_complete_now te) ?i (lr_LeaseOwner l) (completion_of l te b2) db2 = (Inr (), db') \<and>
    r' \<in> set (ai_runs db') \<and> ar_id r' = ?i \<and> ar_status r' = RunSucceeded \<and>
    ar_usage r' = Some (cp_InputTokens (completion_of l te b2), cp_OutputTokens (completion_of l te b2), cp_CostMicroUSD (completion_of l te b2)) \<and>
    (\<exists>th. ai_messages db' = ai_messages db @ [\<lparr>mg_ID = te_message te, mg_ThreadID = th, mg_Role = ''assistant'', mg_Sender = None, mg_Body = rb_answer b2,
       mg_RunID = Some ?i, mg_Key = None, mg_CreatedAt = te_complete_now te\<rparr>]) \<and> stored_text ?i db' = rb_answer b2"
    by (rule complete_streaming [OF s2(2,3) ids])
      (use s2(4) body env(4) nn estimate_nonneg prices in \<open>auto simp: completion_of_def Let_def intro: add_saturating_nonneg cost_nonneg\<close>)
  then obtain db' r' th where c: "Complete_run False (te_message te) (te_complete_now te) ?i (lr_LeaseOwner l) (completion_of l te b2) db2 = (Inr (), db')"
    "r' \<in> set (ai_runs db')" "ar_id r' = ?i" "ar_status r' = RunSucceeded"
    "ai_messages db' = ai_messages db @ [\<lparr>mg_ID = te_message te, mg_ThreadID = th, mg_Role = ''assistant'', mg_Sender = None, mg_Body = rb_answer b2,
       mg_RunID = Some ?i, mg_Key = None, mg_CreatedAt = te_complete_now te\<rparr>]" "stored_text ?i db' = rb_answer b2" by blast
  have "execute n l (evs @ [EvReturn None]) te db = Some db'"
    using s1(1) s2(1) env nn(3) c(1) by (simp add: execute_def finish_stream_def Let_def)
  moreover have "filter (\<lambda>m. mg_RunID m = Some ?i) (ai_messages db) = []"
    using good L(2,4) by (simp add: run_good_def answers_of_def)
  ultimately show ?thesis using c s2(4) by (intro exI [of _ db'] exI [of _ r']) (simp add: stored_text_def)
qed


definition wit_run :: LeasedRun where
  "wit_run = \<lparr>lr_Run = claim_run ''w'' 10000 500 (admitted_run 21 wit_admission), lr_LeaseOwner = ''w'', lr_SystemPrompt = ''p'',
     lr_Turns = [\<lparr>ct_Role = ''student'', ct_Text = ''why''\<rparr>], lr_Images = 0\<rparr>"

definition wit_env :: terminal_env where
  "wit_env = \<lparr>te_flush_fault = False, te_flush_now = 10100, te_started = 10000, te_ended = 10200, te_parent_done = False, te_complete_fault = False,
     te_complete_now = 10200, te_message = 71, te_fail_fault = False, te_fail_now = 10200\<rparr>"

definition wit_delta :: "string \<Rightarrow> runner_event" where
  "wit_delta text = EvGateway \<lparr>ge_Kind = ''delta'', ge_Delta = text, ge_InputTokens = 0, ge_OutputTokens = 0, ge_FinishReason = []\<rparr> 10020 False 10020"

theorem runner_stores_streamed_answer_witness:
  "\<exists>db' r'. execute 4096 wit_run [wit_delta ''be'', EvFlushTick False 10030, EvBeat False 10040 10540, wit_delta ''cause'', EvReturn None] wit_env wit_leased = Some db' \<and>
     r' \<in> set (ai_runs db') \<and> ar_id r' = 21 \<and> ar_status r' = RunSucceeded \<and>
     map mg_Body (filter (\<lambda>m. mg_RunID m = Some 21) (ai_messages db')) = [''because'']"
proof -
  let ?r = "claim_run ''w'' 10000 500 (admitted_run 21 wit_admission)"
  let ?evs = "[wit_delta ''be'', EvFlushTick False 10030, EvBeat False 10040 10540, wit_delta ''cause'']"
  have r: "ar_id ?r = 21" "ar_status ?r = RunStreaming" "ar_lease_owner ?r = Some ''w''" "ar_cancel_requested_at ?r = None" "ar_last_sequence ?r = 0" "ar_snapshot ?r = wit_snapshot"
    by (simp_all add: claim_run_def admitted_run_def new_run_def wit_admission_def)
  have f: "find (leased_by (ar_id (lr_Run wit_run)) (lr_LeaseOwner wit_run)) (ai_runs wit_leased) = Some ?r"
    using r by (simp add: wit_leased_run wit_run_def leased_by_def)
  have a: "streamed_answer ?evs = ''because''" by (simp add: streamed_answer_def wit_delta_def)
  have vb: "validBody (streamed_answer ?evs)" unfolding a validBody_def by (simp add: go_eval ascii_def)
  have q: "list_all quiet ?evs" by (simp add: wit_delta_def MaxGatewayEventBytes_def)
  have m: "\<forall>m \<in> set (ai_messages wit_leased). mg_ID m \<noteq> te_message wit_env"
    by (simp add: wit_leased_db wit_tables student_message_def wit_admission_def wit_env_def)
  have "\<exists>db' r'. execute 4096 wit_run (?evs @ [EvReturn None]) wit_env wit_leased = Some db' \<and>
    r' \<in> set (ai_runs db') \<and> ar_id r' = ar_id (lr_Run wit_run) \<and> ar_status r' = RunSucceeded \<and>
    map mg_Body (filter (\<lambda>m. mg_RunID m = Some (ar_id (lr_Run wit_run))) (ai_messages db')) = [streamed_answer ?evs] \<and>
    concat (map re_payload (filter (\<lambda>e. re_run_id e = ar_id (lr_Run wit_run) \<and> re_kind e = ''delta'') (ai_run_events db'))) = streamed_answer ?evs"
    by (rule runner_stores_streamed_answer [OF wit_leased_reachable(2) f r(4,5) _ _ _ q vb])
      (use r m in \<open>simp_all add: wit_run_def wit_env_def wit_snapshot_def wit_provider_def wit_model_def MaxInt64_def\<close>)
  then show ?thesis using r(1) a by (auto simp: wit_run_def)
qed

end
