(* ===== verification/AI_Stream.thy ===== *)
theory AI_Stream
  imports AI_Store
begin

text \<open>
  \<^verbatim>\<open>internal/aiqa/stream_reader.go\<close>: the reader of server-sent events that the gateway puts
  on the provider's response. The response is the list of its bytes, followed by the end of the
  file or, when \<open>broken\<close>, by a read error; \<open>ctx\<close> says before which line the context is
  done; the callback is a function on a state of its caller.
\<close>

section \<open>The reader\<close>

record sseEvent =
  sse_Name :: string
  sse_Data :: string

datatype 'e sse_error = SseTooLarge | SseCancelled | SseRead | SseCallback 'e

abbreviation (input) LF :: char where "LF \<equiv> CHR 0x0A"
abbreviation (input) CR :: char where "CR \<equiv> CHR 0x0D"

text \<open>\<^verbatim>\<open>ReadString('\n')\<close>: the line with its newline, the rest, and whether the input ended first.\<close>

definition read_line :: "string \<Rightarrow> string \<times> string \<times> bool" where
  "read_line input = (case dropWhile (\<lambda>c. c \<noteq> LF) input of
     [] \<Rightarrow> (input, [], True)
   | _ # rest \<Rightarrow> (takeWhile (\<lambda>c. c \<noteq> LF) input @ [LF], rest, False))"

text \<open>The line without its newline and a carriage return before it, and \<^verbatim>\<open>strings.Cut(line, ":")\<close>
  with one leading space of the value removed.\<close>

definition chomp :: "string \<Rightarrow> string" where
  "chomp raw = TrimSuffix (TrimSuffix raw [LF]) [CR]"

definition cut_field :: "string \<Rightarrow> string \<times> string" where
  "cut_field line = (case Cut (CHR '':'') line of None \<Rightarrow> (line, []) | Some (field, value) \<Rightarrow> (field, TrimPrefix value '' ''))"

fun join_lines :: "string list \<Rightarrow> string" where
  "join_lines [] = []"
| "join_lines [l] = l"
| "join_lines (l # ls) = l @ [LF] @ join_lines ls"

lemma chomp_Nil: "chomp [] = []"
  by (simp add: chomp_def TrimSuffix_def HasSuffix_def HasPrefix_def)

lemma read_line_shorter:
  assumes "read_line input = (raw, rest, eof)" and "chomp raw \<noteq> [] \<or> \<not> eof"
  shows "length rest < length input"
proof (cases "input = []")
  case True
  with assms show ?thesis by (auto simp: read_line_def chomp_Nil)
next
  case False
  have "length (dropWhile (\<lambda>c. c \<noteq> LF) input) \<le> length input" by (rule length_dropWhile_le)
  with assms(1) False show ?thesis by (auto simp: read_line_def split: list.splits)
qed

text \<open>\<open>name\<close>, \<open>data\<close> and \<open>n\<close> are the variables of the same names (\<^verbatim>\<open>eventBytes\<close> for \<open>n\<close>); \<^verbatim>\<open>hasData\<close> is that
  \<open>data\<close> is not empty.\<close>

function sse_loop ::
  "(sseEvent \<Rightarrow> 's \<Rightarrow> 'e option \<times> 's) \<Rightarrow> (nat \<Rightarrow> bool) \<Rightarrow> bool \<Rightarrow> nat \<Rightarrow> string \<Rightarrow> string list \<Rightarrow> int \<Rightarrow> string \<Rightarrow> 's \<Rightarrow> 'e sse_error option \<times> 's" where
  "sse_loop callback ctx broken k name data n input s =
     (if ctx k then (Some SseCancelled, s)
      else let (raw, rest, eof) = read_line input in
        if int (length raw) > MaxGatewayEventBytes + 1 then (Some SseTooLarge, s)
        else if eof \<and> broken then (Some SseRead, s)
        else let line = chomp raw in
          if line = [] then
            (case (if data \<noteq> [] then callback \<lparr>sse_Name = name, sse_Data = join_lines data\<rparr> s else (None, s)) of
               (Some e, s1) \<Rightarrow> (Some (SseCallback e), s1)
             | (None, s1) \<Rightarrow> if eof then (None, s1) else sse_loop callback ctx broken (Suc k) [] [] 0 rest s1)
          else if hd line = CHR '':'' then sse_loop callback ctx broken (Suc k) name data n rest s
          else let (field, value) = cut_field line;
                   name' = (if field = ''event'' then value else name);
                   data' = (if field = ''data'' then data @ [value] else data);
                   n' = (if field = ''event'' \<or> field = ''data'' then n + int (length value) else n) in
            if n' > MaxGatewayEventBytes then (Some SseTooLarge, s)
            else if eof then
              (case (if data' \<noteq> [] then callback \<lparr>sse_Name = name', sse_Data = join_lines data'\<rparr> s else (None, s)) of
                 (Some e, s1) \<Rightarrow> (Some (SseCallback e), s1)
               | (None, s1) \<Rightarrow> (None, s1))
            else sse_loop callback ctx broken (Suc k) name' data' n' rest s)"
  by pat_completeness auto

termination
  by (relation "measure (\<lambda>(callback, ctx, broken, k, name, data, n, input, s). length input)")
    (auto intro: read_line_shorter [OF sym] simp del: One_nat_def)

declare sse_loop.simps [simp del]

definition readSSE :: "(sseEvent \<Rightarrow> 's \<Rightarrow> 'e option \<times> 's) \<Rightarrow> (nat \<Rightarrow> bool) \<Rightarrow> bool \<Rightarrow> string \<Rightarrow> 's \<Rightarrow> 'e sse_error option \<times> 's" where
  "readSSE callback ctx broken input s = sse_loop callback ctx broken 0 [] [] 0 input s"

section \<open>One line at a time\<close>

text \<open>A line that the reader takes as it is: no newline in it and no carriage return at its end.\<close>

definition plain_line :: "string \<Rightarrow> bool" where
  "plain_line l \<longleftrightarrow> LF \<notin> set l \<and> (l = [] \<or> last l \<noteq> CR)"

lemma read_line_LF: "LF \<notin> set l \<Longrightarrow> read_line (l @ LF # rest) = (l @ [LF], rest, False)"
proof -
  assume l: "LF \<notin> set l"
  have d: "dropWhile (\<lambda>c. c \<noteq> LF) (l @ LF # rest) = LF # rest" using l by (induction l) auto
  have t: "takeWhile (\<lambda>c. c \<noteq> LF) (l @ LF # rest) = l" using l by (induction l) auto
  show ?thesis by (simp add: read_line_def d t)
qed

lemma TrimSuffix_snoc: "TrimSuffix (l @ [c]) [c] = l"
  by (simp add: TrimSuffix_def HasSuffix_def HasPrefix_def)

lemma TrimSuffix_other: "l = [] \<or> last l \<noteq> c \<Longrightarrow> TrimSuffix l [c] = l"
  by (cases l rule: rev_cases) (auto simp: TrimSuffix_def HasSuffix_def HasPrefix_def)

lemma chomp_plain: "plain_line l \<Longrightarrow> chomp (l @ [LF]) = l"
  by (simp add: chomp_def plain_line_def TrimSuffix_snoc TrimSuffix_other)

lemma plain_line_append: "plain_line l \<Longrightarrow> LF \<notin> set p \<Longrightarrow> p \<noteq> [] \<Longrightarrow> last p \<noteq> CR \<Longrightarrow> plain_line (p @ l)"
  by (cases "l = []") (auto simp: plain_line_def)

text \<open>What the loop does with a line of each form.\<close>

lemma loop_blank:
  assumes "\<not> ctx k" and "callback \<lparr>sse_Name = name, sse_Data = join_lines data\<rparr> s = (None, s1)" and "data \<noteq> []"
  shows "sse_loop callback ctx broken k name data n (LF # rest) s = sse_loop callback ctx broken (Suc k) [] [] 0 rest s1"
proof -
  have r: "read_line (LF # rest) = ([LF], rest, False)" using read_line_LF [of "[]"] by simp
  have c: "chomp [LF] = []" using chomp_plain [of "[]"] by (simp add: plain_line_def)
  show ?thesis
    by (subst sse_loop.simps) (use assms in \<open>simp add: r c Let_def MaxGatewayEventBytes_def\<close>)
qed

lemma loop_field:
  assumes ctx: "\<not> ctx k" and plain: "plain_line l" and short: "int (length l) \<le> MaxGatewayEventBytes"
    and l: "l \<noteq> []" "hd l \<noteq> CHR '':''" and cut: "cut_field l = (field, value)"
    and total: "(if field = ''event'' \<or> field = ''data'' then n + int (length value) else n) \<le> MaxGatewayEventBytes"
  shows "sse_loop callback ctx broken k name data n (l @ LF # rest) s =
    sse_loop callback ctx broken (Suc k) (if field = ''event'' then value else name)
      (if field = ''data'' then data @ [value] else data)
      (if field = ''event'' \<or> field = ''data'' then n + int (length value) else n) rest s"
proof -
  have r: "read_line (l @ LF # rest) = (l @ [LF], rest, False)" using plain by (intro read_line_LF) (simp add: plain_line_def)
  have z: "\<not> int (length (l @ [LF])) > MaxGatewayEventBytes + 1" using short by simp
  show ?thesis
    by (subst sse_loop.simps)
      (simp only: ctx r z chomp_plain [OF plain] l cut total Let_def prod.case if_False simp_thms not_less [symmetric] total [unfolded not_less [symmetric]])
qed

lemma cut_field_named: "CHR '':'' \<notin> set f \<Longrightarrow> cut_field (f @ '': '' @ v) = (f, v)"
  using Cut_append [of "CHR '':''" f "CHR '' '' # v"] by (simp add: cut_field_def TrimPrefix_def HasPrefix_def)

lemma loop_data:
  assumes "\<not> ctx k" and "plain_line v" and "int (length v) + 6 \<le> MaxGatewayEventBytes" and "n + int (length v) \<le> MaxGatewayEventBytes"
  shows "sse_loop callback ctx broken k name data n (''data: '' @ v @ LF # rest) s =
    sse_loop callback ctx broken (Suc k) name (data @ [v]) (n + int (length v)) rest s"
  using loop_field [of ctx k "''data: '' @ v" "''data''" v n] assms plain_line_append [of v "''data: ''"] cut_field_named [of "''data''" v]
  by simp

lemma loop_event:
  assumes "\<not> ctx k" and "plain_line v" and "int (length v) + 7 \<le> MaxGatewayEventBytes" and "n + int (length v) \<le> MaxGatewayEventBytes"
  shows "sse_loop callback ctx broken k name data n (''event: '' @ v @ LF # rest) s =
    sse_loop callback ctx broken (Suc k) v data (n + int (length v)) rest s"
  using loop_field [of ctx k "''event: '' @ v" "''event''" v n] assms plain_line_append [of v "''event: ''"] cut_field_named [of "''event''" v]
  by simp

lemma loop_end:
  assumes "\<not> ctx k"
  shows "sse_loop callback ctx False k name [] n [] s = (None, s)"
  by (subst sse_loop.simps) (simp add: assms read_line_def chomp_Nil MaxGatewayEventBytes_def)

section \<open>Events written and read back\<close>

text \<open>An event as a server writes it: its name, and its data line by line.\<close>

definition data_lines :: "string list \<Rightarrow> string" where
  "data_lines ls = concat (map (\<lambda>l. ''data: '' @ l @ [LF]) ls)"

definition write_event :: "string \<times> string list \<Rightarrow> string" where
  "write_event e = ''event: '' @ fst e @ [LF] @ data_lines (snd e) @ [LF]"

definition fits :: "string \<times> string list \<Rightarrow> bool" where
  "fits e \<longleftrightarrow> plain_line (fst e) \<and> int (length (fst e)) + 7 \<le> MaxGatewayEventBytes \<and> snd e \<noteq> []
     \<and> (\<forall>l \<in> set (snd e). plain_line l \<and> int (length l) + 6 \<le> MaxGatewayEventBytes)
     \<and> int (length (fst e)) + (\<Sum>l \<leftarrow> snd e. int (length l)) \<le> MaxGatewayEventBytes"

definition collect :: "sseEvent \<Rightarrow> sseEvent list \<Rightarrow> unit option \<times> sseEvent list" where
  "collect e es = (None, es @ [e])"

lemma loop_data_lines:
  assumes "\<forall>k. \<not> ctx k" and "\<forall>l \<in> set ls. plain_line l \<and> int (length l) + 6 \<le> MaxGatewayEventBytes"
    and "n + (\<Sum>l \<leftarrow> ls. int (length l)) \<le> MaxGatewayEventBytes"
  shows "sse_loop callback ctx broken k name data n (data_lines ls @ rest) s =
    sse_loop callback ctx broken (k + length ls) name (data @ ls) (n + (\<Sum>l \<leftarrow> ls. int (length l))) rest s"
  using assms(2,3)
proof (induction ls arbitrary: k data n)
  case Nil
  then show ?case by (simp add: data_lines_def)
next
  case (Cons l ls)
  have nn: "0 \<le> (\<Sum>l \<leftarrow> ls. int (length l))" by (induction ls) auto
  have e: "data_lines (l # ls) @ rest = ''data: '' @ l @ LF # (data_lines ls @ rest)" by (simp add: data_lines_def)
  have "sse_loop callback ctx broken k name data n (data_lines (l # ls) @ rest) s =
      sse_loop callback ctx broken (Suc k) name (data @ [l]) (n + int (length l)) (data_lines ls @ rest) s"
    unfolding e by (rule loop_data) (use Cons.prems assms(1) nn in auto)
  also have "\<dots> = sse_loop callback ctx broken (Suc k + length ls) name ((data @ [l]) @ ls)
      (n + int (length l) + (\<Sum>l \<leftarrow> ls. int (length l))) rest s"
    by (rule Cons.IH) (use Cons.prems in auto)
  finally show ?case by (simp add: add.assoc)
qed

lemma loop_write_event:
  assumes "\<forall>k. \<not> ctx k" and e: "fits e"
  shows "\<exists>k'. sse_loop collect ctx broken k [] [] 0 (write_event e @ rest) s =
    sse_loop collect ctx broken k' [] [] 0 rest (s @ [\<lparr>sse_Name = fst e, sse_Data = join_lines (snd e)\<rparr>])"
proof -
  note fit = e [unfolded fits_def]
  have nn: "0 \<le> (\<Sum>l \<leftarrow> snd e. int (length l))" by (rule sum_list_nonneg) auto
  have w: "write_event e @ rest = ''event: '' @ fst e @ LF # (data_lines (snd e) @ LF # rest)" by (simp add: write_event_def)
  have "sse_loop collect ctx broken k [] [] 0 (write_event e @ rest) s =
      sse_loop collect ctx broken (Suc k) (fst e) [] (0 + int (length (fst e))) (data_lines (snd e) @ LF # rest) s"
    unfolding w by (rule loop_event) (use fit assms(1) nn in auto)
  also have "\<dots> = sse_loop collect ctx broken (Suc k + length (snd e)) (fst e) ([] @ snd e)
      (0 + int (length (fst e)) + (\<Sum>l \<leftarrow> snd e. int (length l))) (LF # rest) s"
    by (rule loop_data_lines) (use fit assms(1) in auto)
  also have "\<dots> = sse_loop collect ctx broken (Suc (Suc k + length (snd e))) [] [] 0 rest
      (s @ [\<lparr>sse_Name = fst e, sse_Data = join_lines (snd e)\<rparr>])"
    by (rule loop_blank) (use fit assms(1) in \<open>auto simp: collect_def\<close>)
  finally show ?thesis by blast
qed

text \<open>The events a server writes, each with its name on an \<^verbatim>\<open>event:\<close> line and its data on
  \<^verbatim>\<open>data:\<close> lines that fit the reader's bounds, are delivered by \<^verbatim>\<open>readSSE\<close> one by one, in order and
  with exactly that name and data, and the reader then ends without an error.\<close>
theorem sse_roundtrip:
  assumes "list_all fits es"
  shows "readSSE collect (\<lambda>k. False) False (concat (map write_event es)) [] =
    (None, map (\<lambda>e. \<lparr>sse_Name = fst e, sse_Data = join_lines (snd e)\<rparr>) es)"
proof -
  have "sse_loop collect (\<lambda>k. False) False k [] [] 0 (concat (map write_event es)) s =
      (None, s @ map (\<lambda>e. \<lparr>sse_Name = fst e, sse_Data = join_lines (snd e)\<rparr>) es)" for k s
    using assms
  proof (induction es arbitrary: k s)
    case Nil
    then show ?case using loop_end [of "\<lambda>k. False"] by simp
  next
    case (Cons e es)
    have "fits e" using Cons.prems by simp
    from loop_write_event [of "\<lambda>k. False", OF _ this, of False k "concat (map write_event es)" s]
    obtain k' where "sse_loop collect (\<lambda>k. False) False k [] [] 0 (write_event e @ concat (map write_event es)) s =
      sse_loop collect (\<lambda>k. False) False k' [] [] 0 (concat (map write_event es))
        (s @ [\<lparr>sse_Name = fst e, sse_Data = join_lines (snd e)\<rparr>])" by auto
    with Cons show ?case by simp
  qed
  from this [of 0 "[]"] show ?thesis by (simp add: readSSE_def)
qed

theorem sse_roundtrip_witness:
  "readSSE collect (\<lambda>k. False) False (concat (map write_event [(''delta'', [''a:b'', '' c'']), ([], [[]])])) [] =
    (None, [\<lparr>sse_Name = ''delta'', sse_Data = ''a:b'' @ [LF] @ '' c''\<rparr>, \<lparr>sse_Name = [], sse_Data = []\<rparr>])"
  using sse_roundtrip [of "[(''delta'', [''a:b'', '' c'']), ([], [[]])]"]
  by (simp add: fits_def plain_line_def MaxGatewayEventBytes_def)

text \<open>The size of an event is checked on the values of its lines alone. Empty \<^verbatim>\<open>data:\<close> lines add
  nothing to it, but \<^verbatim>\<open>strings.Join\<close> puts a newline between any two of them.\<close>

lemma loop_empty_data:
  assumes "\<not> ctx k" "n \<le> MaxGatewayEventBytes"
  shows "sse_loop callback ctx broken k name data n (''data:'' @ LF # rest) s =
    sse_loop callback ctx broken (Suc k) name (data @ [[]]) n rest s"
proof -
  have "cut_field ''data:'' = (''data'', [])" by (simp add: cut_field_def TrimPrefix_def HasPrefix_def)
  from loop_field [of ctx k "''data:''" "''data''" "[]" n, OF assms(1) _ _ _ _ this] assms(2)
  show ?thesis by (simp add: plain_line_def MaxGatewayEventBytes_def)
qed

definition empty_lines :: "nat \<Rightarrow> string" where
  "empty_lines m = concat (replicate m (''data:'' @ [LF]))"

lemma loop_empty_lines:
  "sse_loop callback (\<lambda>k. False) broken k name data 0 (empty_lines m @ rest) s =
    sse_loop callback (\<lambda>k. False) broken (k + m) name (data @ replicate m []) 0 rest s"
proof (induction m arbitrary: k data)
  case 0
  then show ?case by (simp add: empty_lines_def)
next
  case (Suc m)
  have e: "empty_lines (Suc m) @ rest = ''data:'' @ LF # (empty_lines m @ rest)" by (simp add: empty_lines_def)
  have "sse_loop callback (\<lambda>k. False) broken k name data 0 (empty_lines (Suc m) @ rest) s =
      sse_loop callback (\<lambda>k. False) broken (Suc k) name (data @ [[]]) 0 (empty_lines m @ rest) s"
    unfolding e by (rule loop_empty_data) (simp_all add: MaxGatewayEventBytes_def)
  with Suc.IH [of "Suc k" "data @ [[]]"] show ?case by simp
qed

lemma join_empty_lines: "length (join_lines (replicate (Suc m) [])) = m"
  by (induction m) auto

text \<open>C22: \<^verbatim>\<open>readSSE\<close> does not bound the events it delivers by \<^verbatim>\<open>MaxGatewayEventBytes\<close>: for every number
  of bytes there is a response of which it delivers one event with that many bytes of data.\<close>
theorem sse_event_unbounded:
  "\<exists>input e. readSSE collect (\<lambda>k. False) False input [] = (None, [e]) \<and> length (sse_Data e) = m"
proof (intro exI conjI)
  let ?e = "\<lparr>sse_Name = [], sse_Data = join_lines (replicate (Suc m) [])\<rparr>"
  show "readSSE collect (\<lambda>k. False) False (empty_lines (Suc m) @ [LF]) [] = (None, [?e])"
    unfolding readSSE_def loop_empty_lines
    using loop_blank [of "\<lambda>k. False" "0 + Suc m" collect "[]" "[] @ replicate (Suc m) []" "[]" "[?e]" False 0 "[]"]
      loop_end [of "\<lambda>k. False"]
    by (simp add: collect_def)
  show "length (sse_Data ?e) = m" by (simp add: join_empty_lines del: replicate_Suc)
qed

end
