(* ===== verification/Auth_Password.thy ===== *)
theory Auth_Password
  imports Go_Strings
begin

text \<open>
  \<^verbatim>\<open>auth/password.go\<close>: the rules for passwords, and their hashes in the PHC string format. The key
  derivation \<^verbatim>\<open>argon2.IDKey\<close> of \<^verbatim>\<open>golang.org/x/crypto\<close> is the argument \<open>IDKey\<close>, a function of password,
  salt, iterations, memory, parallelism and key length; random salts are arguments. The PHC reader
  accepts only the canonical form, so reading and writing are inverse to each other.
\<close>

section \<open>Base64 without padding\<close>

definition alphabet :: string where
  "alphabet = ''ABCDEFGHIJKLMNOPQRSTUVWXYZabcdefghijklmnopqrstuvwxyz0123456789+/''"

fun sextets :: "nat list \<Rightarrow> nat list" where
  "sextets [] = []"
| "sextets [a] = [a div 4, (a mod 4) * 16]"
| "sextets [a, b] = [a div 4, (a mod 4) * 16 + b div 16, (b mod 16) * 4]"
| "sextets (a # b # c # r) = a div 4 # ((a mod 4) * 16 + b div 16) # ((b mod 16) * 4 + c div 64) # c mod 64 # sextets r"

fun octets :: "nat list \<Rightarrow> nat list option" where
  "octets [] = Some []"
| "octets [w] = None"
| "octets [w, x] = Some [w * 4 + x div 16]"
| "octets [w, x, y] = Some [w * 4 + x div 16, (x mod 16) * 16 + y div 4]"
| "octets (w # x # y # z # r) = map_option (\<lambda>bs. (w * 4 + x div 16) # ((x mod 16) * 16 + y div 4) # ((y mod 4) * 64 + z) # bs) (octets r)"

text \<open>\<^verbatim>\<open>base64.RawStdEncoding\<close>. Decoding skips carriage returns and newlines and ignores the unused bits
  of the last character.\<close>

definition Base64Encode :: "string \<Rightarrow> string" where
  "Base64Encode s = map ((!) alphabet) (sextets (map byte s))"

fun index_of :: "char \<Rightarrow> string \<Rightarrow> nat option" where
  "index_of c [] = None"
| "index_of c (d # ds) = (if c = d then Some 0 else map_option Suc (index_of c ds))"

fun sextet_values :: "string \<Rightarrow> nat list option" where
  "sextet_values [] = Some []"
| "sextet_values (c # cs) = (case (index_of c alphabet, sextet_values cs) of (Some v, Some vs) \<Rightarrow> Some (v # vs) | _ \<Rightarrow> None)"

definition Base64Decode :: "string \<Rightarrow> string option" where
  "Base64Decode s = (case sextet_values (filter (\<lambda>c. c \<noteq> CHR 0x0D \<and> c \<noteq> CHR 0x0A) s) of
     None \<Rightarrow> None | Some vs \<Rightarrow> map_option (map char_of) (octets vs))"

lemma octets_sextets: "list_all (\<lambda>n. n < 256) xs \<Longrightarrow> octets (sextets xs) = Some xs"
proof (induction xs rule: sextets.induct)
  case (4 a b c r)
  then show ?case by (auto simp: algebra_simps)
qed auto

lemma sextets_bound: "list_all (\<lambda>n. n < 256) xs \<Longrightarrow> list_all (\<lambda>n. n < 64) (sextets xs)"
proof (induction xs rule: sextets.induct)
  case (4 a b c r)
  then have "a div 4 < 64 \<and> a mod 4 * 16 + b div 16 < 64 \<and> b mod 16 * 4 + c div 64 < 64 \<and> c mod 64 < 64" by (auto simp: less_mult_imp_div_less)
  with 4 show ?case by simp
qed auto

lemma length_sextets: "length (sextets xs) = (length xs * 4 + 2) div 3"
  by (induction xs rule: sextets.induct) auto

lemma index_of_nth: "distinct ds \<Longrightarrow> n < length ds \<Longrightarrow> index_of (ds ! n) ds = Some n"
  by (induction ds arbitrary: n) (auto simp: nth_Cons' split: if_splits)

lemma alphabet_simps: "distinct alphabet" "length alphabet = 64"
  unfolding alphabet_def by simp_all

lemma sextet_values_map: "list_all (\<lambda>n. n < 64) vs \<Longrightarrow> sextet_values (map ((!) alphabet) vs) = Some vs"
  by (induction vs) (simp_all add: index_of_nth alphabet_simps)

lemma Base64Encode_alphabet: "set (Base64Encode s) \<subseteq> set alphabet"
proof -
  have "list_all (\<lambda>n. n < 256) (map byte s)" by (simp add: list_all_iff byte_def)
  from sextets_bound [OF this] show ?thesis by (auto simp: Base64Encode_def list_all_iff alphabet_simps)
qed

lemma Base64_roundtrip: "Base64Decode (Base64Encode s) = Some s"
proof -
  have b: "list_all (\<lambda>n. n < 256) (map byte s)" by (simp add: list_all_iff byte_def)
  have "filter (\<lambda>c. c \<noteq> CHR 0x0D \<and> c \<noteq> CHR 0x0A) (Base64Encode s) = Base64Encode s"
    using Base64Encode_alphabet [of s] by (intro filter_True) (auto simp: alphabet_def)
  then show ?thesis
    by (simp add: Base64Decode_def Base64Encode_def sextet_values_map [OF sextets_bound [OF b]] octets_sextets [OF b] byte_def comp_def)
qed

lemma length_Base64Encode: "length (Base64Encode s) = (length s * 4 + 2) div 3"
  by (simp add: Base64Encode_def length_sextets)

section \<open>Splitting\<close>

text \<open>\<^verbatim>\<open>strings.Split\<close> at a separator of one byte.\<close>

fun Split :: "char \<Rightarrow> string \<Rightarrow> string list" where
  "Split d [] = [[]]"
| "Split d (c # cs) = (if c = d then [] # Split d cs else (c # hd (Split d cs)) # tl (Split d cs))"

fun Join :: "char \<Rightarrow> string list \<Rightarrow> string" where
  "Join d [] = []"
| "Join d [p] = p"
| "Join d (p # ps) = p @ d # Join d ps"

lemma Split_not_Nil: "Split d s \<noteq> []"
  by (cases s) auto

lemma Join_Cons: "ps \<noteq> [] \<Longrightarrow> Join d (p # ps) = p @ d # Join d ps"
  by (cases ps) auto

lemma Join_hd: "ps \<noteq> [] \<Longrightarrow> Join d ((c # hd ps) # tl ps) = c # Join d ps"
  by (cases ps; cases "tl ps") auto

lemma Join_Split: "Join d (Split d s) = s"
  by (induction s) (auto simp: Join_Cons Split_not_Nil Join_hd)

lemma Split_clean: "\<forall>p \<in> set (Split d s). d \<notin> set p"
proof (induction s)
  case (Cons c s)
  then show ?case using Split_not_Nil [of d s] by (cases "Split d s") auto
qed simp

lemma Split_none: "d \<notin> set p \<Longrightarrow> Split d p = [p]"
  by (induction p) auto

lemma Split_append: "d \<notin> set p \<Longrightarrow> Split d (p @ d # s) = p # Split d s"
  by (induction p) auto

lemma Split_Join: "ps \<noteq> [] \<Longrightarrow> \<forall>p \<in> set ps. d \<notin> set p \<Longrightarrow> Split d (Join d ps) = ps"
  by (induction d ps rule: Join.induct) (auto simp: Split_none Split_append)

lemma Split_iff: "Split d s = ps \<longleftrightarrow> ps \<noteq> [] \<and> (\<forall>p \<in> set ps. d \<notin> set p) \<and> s = Join d ps"
  using Join_Split Split_clean Split_not_Nil Split_Join by metis

section \<open>Passwords\<close>

datatype password_error = NotUTF8 | BadLength | LeadingSpace | TrailingSpace

definition ValidatePassword :: "string \<Rightarrow> password_error option" where
  "ValidatePassword p =
     (if \<not> ValidString p then Some NotUTF8
      else if RuneCount p < 12 \<or> RuneCount p > 128 then Some BadLength
      else if IsSpace (hd (runes p)) then Some LeadingSpace
      else if IsSpace (last (runes p)) then Some TrailingSpace
      else None)"

record Argon2Params =
  a_MemoryKiB :: nat
  a_Iterations :: nat
  a_Parallelism :: nat
  a_SaltLength :: nat
  a_KeyLength :: nat

definition maxPHCEncodedLength :: nat where "maxPHCEncodedLength = 512"
definition maxPHCBase64Length :: nat where "maxPHCBase64Length = 88"
definition maxArgon2MemoryKiB :: nat where "maxArgon2MemoryKiB = 128 * 1024"
definition maxArgon2Iterations :: nat where "maxArgon2Iterations = 4"
definition maxArgon2Parallelism :: nat where "maxArgon2Parallelism = 4"

definition validateArgon2Work :: "Argon2Params \<Rightarrow> bool" where
  "validateArgon2Work a \<longleftrightarrow> \<not> (a_MemoryKiB a < 8 * a_Parallelism a \<or> a_MemoryKiB a > maxArgon2MemoryKiB \<or> a_Iterations a = 0 \<or>
     a_Iterations a > maxArgon2Iterations \<or> a_Parallelism a = 0 \<or> a_Parallelism a > maxArgon2Parallelism)"

definition validateArgon2Params :: "Argon2Params \<Rightarrow> bool" where
  "validateArgon2Params a \<longleftrightarrow> validateArgon2Work a \<and>
     \<not> (a_SaltLength a < 16 \<or> a_SaltLength a > 64 \<or> a_KeyLength a < 16 \<or> a_KeyLength a > 64)"

type_synonym idkey = "string \<Rightarrow> string \<Rightarrow> nat \<Rightarrow> nat \<Rightarrow> nat \<Rightarrow> nat \<Rightarrow> string"

text \<open>The format string of \<^verbatim>\<open>hashWithSalt\<close>.\<close>

definition phc :: "Argon2Params \<Rightarrow> string \<Rightarrow> string \<Rightarrow> string" where
  "phc a salt key = ''$argon2id$v=19$m='' @ show_nat (a_MemoryKiB a) @ '',t='' @ show_nat (a_Iterations a) @ '',p='' @ show_nat (a_Parallelism a) @
     ''$'' @ Base64Encode salt @ ''$'' @ Base64Encode key"

definition hashWithSalt :: "idkey \<Rightarrow> Argon2Params \<Rightarrow> string \<Rightarrow> string \<Rightarrow> string option" where
  "hashWithSalt IDKey a password salt =
     (if \<not> validateArgon2Params a then None
      else if length salt \<noteq> a_SaltLength a then None
      else Some (phc a salt (IDKey password salt (a_Iterations a) (a_MemoryKiB a) (a_Parallelism a) (a_KeyLength a))))"

text \<open>\<open>salt\<close> is what the random generator gave, nothing when it failed.\<close>

definition Hash :: "idkey \<Rightarrow> Argon2Params \<Rightarrow> string option \<Rightarrow> string \<Rightarrow> string option" where
  "Hash IDKey a salt password =
     (if ValidatePassword password \<noteq> None then None
      else if \<not> validateArgon2Params a then None
      else case salt of None \<Rightarrow> None | Some x \<Rightarrow> hashWithSalt IDKey a password x)"

definition parseCanonicalUint :: "string \<Rightarrow> string \<Rightarrow> nat \<Rightarrow> nat option" where
  "parseCanonicalUint value prefix bitSize =
     (if \<not> HasPrefix value prefix then None
      else let digits = TrimPrefix value prefix in
        if digits = [] \<or> (length digits > 1 \<and> hd digits = CHR ''0'') then None
        else if \<not> list_all digit digits \<or> decimal_value digits \<ge> 2 ^ bitSize then None
        else if show_nat (decimal_value digits) \<noteq> digits then None
        else Some (decimal_value digits))"

definition decodeCanonicalBase64 :: "string \<Rightarrow> string option" where
  "decodeCanonicalBase64 value =
     (if value = [] \<or> CHR ''='' \<in> set value then None
      else case Base64Decode value of
        None \<Rightarrow> None
      | Some decoded \<Rightarrow> if Base64Encode decoded \<noteq> value then None else Some decoded)"

definition parsePHC :: "string \<Rightarrow> (Argon2Params \<times> string \<times> string) option" where
  "parsePHC encoded =
     (if length encoded > maxPHCEncodedLength then None
      else let parts = Split (CHR ''$'') encoded in
        if length parts \<noteq> 6 \<or> parts ! 0 \<noteq> [] \<or> parts ! 1 \<noteq> ''argon2id'' \<or> parts ! 2 \<noteq> ''v=19'' \<or>
           length (parts ! 4) > maxPHCBase64Length \<or> length (parts ! 5) > maxPHCBase64Length then None
        else let paramParts = Split (CHR '','') (parts ! 3) in
          if length paramParts \<noteq> 3 then None
          else case parseCanonicalUint (paramParts ! 0) ''m='' 32 of None \<Rightarrow> None | Some memory \<Rightarrow>
               case parseCanonicalUint (paramParts ! 1) ''t='' 32 of None \<Rightarrow> None | Some iterations \<Rightarrow>
               case parseCanonicalUint (paramParts ! 2) ''p='' 8 of None \<Rightarrow> None | Some parallelism \<Rightarrow>
                 (let a = \<lparr>a_MemoryKiB = memory, a_Iterations = iterations, a_Parallelism = parallelism, a_SaltLength = 0, a_KeyLength = 0\<rparr> in
                  if \<not> validateArgon2Work a then None
                  else case decodeCanonicalBase64 (parts ! 4) of None \<Rightarrow> None | Some salt \<Rightarrow>
                    if length salt < 16 \<or> length salt > 64 then None
                    else case decodeCanonicalBase64 (parts ! 5) of None \<Rightarrow> None | Some key \<Rightarrow>
                      if length key < 16 \<or> length key > 64 then None
                      else Some (a, salt, key)))"

text \<open>\<^verbatim>\<open>Compare\<close> returns nil exactly when the password matches.\<close>

definition Compare :: "idkey \<Rightarrow> string \<Rightarrow> string \<Rightarrow> bool" where
  "Compare IDKey encoded password =
     (case parsePHC encoded of
        None \<Rightarrow> False
      | Some (a, salt, want) \<Rightarrow> IDKey password salt (a_Iterations a) (a_MemoryKiB a) (a_Parallelism a) (length want) = want)"

section \<open>Canonical encodings\<close>

lemma show_nat_zero: "hd (show_nat n) = CHR ''0'' \<Longrightarrow> n = 0"
proof (induction n rule: show_nat.induct)
  case (1 n)
  show ?case
  proof (cases "n < 10")
    case True
    with 1 have "of_char (char_of (48 + n) :: char) = (48::nat)" by (subst (asm) show_nat.simps) simp
    with True show ?thesis by simp
  next
    case False
    then have "hd (show_nat n) = hd (show_nat (n div 10))" using show_nat_digits [of "n div 10"] by (subst show_nat.simps) simp
    with 1 False show ?thesis by auto
  qed
qed

lemma parseCanonicalUint_iff: "parseCanonicalUint v p bits = Some n \<longleftrightarrow> v = p @ show_nat n \<and> n < 2 ^ bits"
proof
  assume a: "parseCanonicalUint v p bits = Some n"
  then have "take (length p) v = p" "n = decimal_value (drop (length p) v)" "show_nat n = drop (length p) v" "n < 2 ^ bits"
    by (auto simp: parseCanonicalUint_def HasPrefix_def TrimPrefix_def Let_def split: if_splits)
  then show "v = p @ show_nat n \<and> n < 2 ^ bits" by (metis append_take_drop_id)
next
  assume a: "v = p @ show_nat n \<and> n < 2 ^ bits"
  have "\<not> (length (show_nat n) > 1 \<and> hd (show_nat n) = CHR ''0'')" using show_nat_zero [of n] by (auto simp: show_nat.simps [of 0])
  with a show "parseCanonicalUint v p bits = Some n"
    using show_nat_digits [of n] by (simp add: parseCanonicalUint_def HasPrefix_def TrimPrefix_def decimal_value_show_nat Let_def)
qed

lemma decodeCanonicalBase64_iff: "decodeCanonicalBase64 v = Some b \<longleftrightarrow> v = Base64Encode b \<and> b \<noteq> []"
proof
  assume "decodeCanonicalBase64 v = Some b"
  then show "v = Base64Encode b \<and> b \<noteq> []"
    by (auto simp: decodeCanonicalBase64_def Base64Encode_def split: if_splits option.splits)
next
  assume v: "v = Base64Encode b \<and> b \<noteq> []"
  then have "v \<noteq> []" using length_Base64Encode [of b] by (cases b) auto
  moreover have "CHR ''='' \<notin> set v" using v Base64Encode_alphabet [of b] by (auto simp: alphabet_def)
  ultimately show "decodeCanonicalBase64 v = Some b" using v by (simp add: decodeCanonicalBase64_def Base64_roundtrip)
qed

text \<open>The parts between the separators.\<close>

definition phc_parameters :: "Argon2Params \<Rightarrow> string list" where
  "phc_parameters a = [''m='' @ show_nat (a_MemoryKiB a), ''t='' @ show_nat (a_Iterations a), ''p='' @ show_nat (a_Parallelism a)]"

definition phc_parts :: "Argon2Params \<Rightarrow> string \<Rightarrow> string \<Rightarrow> string list" where
  "phc_parts a salt key = [[], ''argon2id'', ''v=19'', Join (CHR '','') (phc_parameters a), Base64Encode salt, Base64Encode key]"

lemma phc_Join: "phc a salt key = Join (CHR ''$'') (phc_parts a salt key)"
  by (simp add: phc_def phc_parts_def phc_parameters_def)

lemma digits_clean: "\<not> digit c \<Longrightarrow> c \<notin> set (show_nat n)"
  using show_nat_digits [of n] by (auto simp: list_all_iff)

lemma not_digits: "\<not> digit (CHR ''$'')" "\<not> digit (CHR '','')"
  by (simp_all add: digit_def byte_def)

lemma Base64_clean: "c \<notin> set alphabet \<Longrightarrow> c \<notin> set (Base64Encode s)"
  using Base64Encode_alphabet by blast

lemma phc_splits:
  "Split (CHR '','') (Join (CHR '','') (phc_parameters a)) = phc_parameters a"
  "Split (CHR ''$'') (phc a salt key) = phc_parts a salt key"
proof -
  show "Split (CHR '','') (Join (CHR '','') (phc_parameters a)) = phc_parameters a"
    by (rule Split_Join) (simp_all add: phc_parameters_def digits_clean not_digits)
  have "CHR ''$'' \<notin> set (Base64Encode x)" for x by (rule Base64_clean) (simp add: alphabet_def)
  then show "Split (CHR ''$'') (phc a salt key) = phc_parts a salt key"
    unfolding phc_Join by (intro Split_Join) (simp_all add: phc_parts_def phc_parameters_def digits_clean not_digits)
qed

lemma length_show_nat: "n < 10 ^ k \<Longrightarrow> 0 < k \<Longrightarrow> length (show_nat n) \<le> k"
proof (induction k arbitrary: n)
  case (Suc k)
  show ?case
  proof (cases "n < 10")
    case False
    with Suc.prems have "n div 10 < 10 ^ k" "0 < k" by (auto simp: less_mult_imp_div_less intro: gr0I)
    with Suc.IH False show ?thesis by (subst show_nat.simps) simp
  qed (subst show_nat.simps, simp)
qed simp

definition phc_valid :: "Argon2Params \<Rightarrow> string \<Rightarrow> string \<Rightarrow> bool" where
  "phc_valid a salt key \<longleftrightarrow> validateArgon2Work a \<and> a_SaltLength a = 0 \<and> a_KeyLength a = 0 \<and>
     16 \<le> length salt \<and> length salt \<le> 64 \<and> 16 \<le> length key \<and> length key \<le> 64"

lemma phc_short:
  assumes "phc_valid a salt key"
  shows "length (phc a salt key) \<le> maxPHCEncodedLength" "length (Base64Encode salt) \<le> maxPHCBase64Length" "length (Base64Encode key) \<le> maxPHCBase64Length"
proof -
  note v = assms [unfolded phc_valid_def validateArgon2Work_def maxArgon2MemoryKiB_def maxArgon2Iterations_def maxArgon2Parallelism_def]
  have "length (show_nat (a_MemoryKiB a)) \<le> 6" by (rule length_show_nat) (use v in auto)
  moreover have "length (show_nat (a_Iterations a)) \<le> 1" by (rule length_show_nat) (use v in auto)
  moreover have "length (show_nat (a_Parallelism a)) \<le> 1" by (rule length_show_nat) (use v in auto)
  moreover have b: "length (Base64Encode salt) \<le> 86" "length (Base64Encode key) \<le> 86" using v by (auto simp: length_Base64Encode)
  ultimately show "length (phc a salt key) \<le> maxPHCEncodedLength" by (simp add: phc_def maxPHCEncodedLength_def)
  show "length (Base64Encode salt) \<le> maxPHCBase64Length" "length (Base64Encode key) \<le> maxPHCBase64Length"
    using b by (simp_all add: maxPHCBase64Length_def)
qed

lemma parsePHC_phc:
  assumes "phc_valid a salt key"
  shows "parsePHC (phc a salt key) = Some (a, salt, key)"
proof -
  note v = assms [unfolded phc_valid_def]
  note w = v [unfolded validateArgon2Work_def maxArgon2MemoryKiB_def maxArgon2Iterations_def maxArgon2Parallelism_def]
  have p: "parseCanonicalUint (''m='' @ show_nat (a_MemoryKiB a)) ''m='' 32 = Some (a_MemoryKiB a)"
      "parseCanonicalUint (''t='' @ show_nat (a_Iterations a)) ''t='' 32 = Some (a_Iterations a)"
      "parseCanonicalUint (''p='' @ show_nat (a_Parallelism a)) ''p='' 8 = Some (a_Parallelism a)"
    unfolding parseCanonicalUint_iff using w by auto
  have d: "decodeCanonicalBase64 (Base64Encode salt) = Some salt" "decodeCanonicalBase64 (Base64Encode key) = Some key"
    unfolding decodeCanonicalBase64_iff using v by auto
  have a: "\<lparr>a_MemoryKiB = a_MemoryKiB a, a_Iterations = a_Iterations a, a_Parallelism = a_Parallelism a, a_SaltLength = 0, a_KeyLength = 0\<rparr> = a"
    using v by simp
  have parts: "phc_parts a salt key ! 0 = []" "phc_parts a salt key ! 1 = ''argon2id''" "phc_parts a salt key ! 2 = ''v=19''"
      "phc_parts a salt key ! 3 = Join (CHR '','') (phc_parameters a)" "phc_parts a salt key ! 4 = Base64Encode salt"
      "phc_parts a salt key ! 5 = Base64Encode key" "length (phc_parts a salt key) = 6" by (simp_all add: phc_parts_def)
  have params: "phc_parameters a ! 0 = ''m='' @ show_nat (a_MemoryKiB a)" "phc_parameters a ! 1 = ''t='' @ show_nat (a_Iterations a)"
      "phc_parameters a ! 2 = ''p='' @ show_nat (a_Parallelism a)" "length (phc_parameters a) = 3" by (simp_all add: phc_parameters_def)
  have n: "\<not> length (phc a salt key) > maxPHCEncodedLength" "\<not> length (Base64Encode salt) > maxPHCBase64Length" "\<not> length (Base64Encode key) > maxPHCBase64Length"
    using phc_short [OF assms] by simp_all
  have l: "\<not> (length salt < 16 \<or> length salt > 64)" "\<not> (length key < 16 \<or> length key > 64)" using v by auto
  show ?thesis
    unfolding parsePHC_def phc_splits parts Let_def params p option.case a d if_not_P [OF n(1)] if_not_P [OF l(1)] if_not_P [OF l(2)]
    using v n by simp
qed

lemma parsePHC_Some:
  assumes "parsePHC s = Some (a, salt, key)"
  shows "s = phc a salt key \<and> phc_valid a salt key"
proof -
  let ?p = "Split (CHR ''$'') s" and ?q = "Split (CHR '','') (Split (CHR ''$'') s ! 3)"
  from assms obtain m t p where
    l: "length ?p = 6" "?p ! 0 = []" "?p ! 1 = ''argon2id''" "?p ! 2 = ''v=19''" "length ?q = 3"
    and q: "parseCanonicalUint (?q ! 0) ''m='' 32 = Some m" "parseCanonicalUint (?q ! 1) ''t='' 32 = Some t" "parseCanonicalUint (?q ! 2) ''p='' 8 = Some p"
    and a: "a = \<lparr>a_MemoryKiB = m, a_Iterations = t, a_Parallelism = p, a_SaltLength = 0, a_KeyLength = 0\<rparr>" "validateArgon2Work a"
    and d: "decodeCanonicalBase64 (?p ! 4) = Some salt" "decodeCanonicalBase64 (?p ! 5) = Some key"
    and n: "16 \<le> length salt" "length salt \<le> 64" "16 \<le> length key" "length key \<le> 64"
    unfolding parsePHC_def Let_def by (auto split: if_splits option.splits)
  have "?q = [?q ! 0, ?q ! 1, ?q ! 2]" using l(5) by (intro nth_equalityI) (auto simp: less_Suc_eq numeral_3_eq_3 numeral_2_eq_2)
  also have "\<dots> = phc_parameters a" using q unfolding parseCanonicalUint_iff phc_parameters_def a(1) by simp
  finally have "?q = phc_parameters a" .
  then have q3: "?p ! 3 = Join (CHR '','') (phc_parameters a)" using Join_Split [of "CHR '',''" "?p ! 3"] by simp
  have "?p = [?p ! 0, ?p ! 1, ?p ! 2, ?p ! 3, ?p ! 4, ?p ! 5]"
    using l(1) by (intro nth_equalityI) (auto simp: less_Suc_eq eval_nat_numeral)
  also have "\<dots> = phc_parts a salt key" using d unfolding decodeCanonicalBase64_iff phc_parts_def l q3 by simp
  finally have "?p = phc_parts a salt key" .
  then have "s = phc a salt key" using Join_Split [of "CHR ''$''" s] by (simp add: phc_Join)
  with a n show ?thesis by (simp add: phc_valid_def)
qed

text \<open>C32: the reader of stored password hashes accepts exactly the strings that the writer can produce
  within the bounds on work, salt and key: \<^verbatim>\<open>parsePHC\<close> returns parameters, salt and key for a string
  if and only if the string is their one canonical rendering, so no two stored strings mean the
  same hash and none that exceeds the bounds is ever used.\<close>
theorem phc_canonical: "parsePHC s = Some (a, salt, key) \<longleftrightarrow> s = phc a salt key \<and> phc_valid a salt key"
  using parsePHC_Some parsePHC_phc by blast

section \<open>Hashing and comparing\<close>

lemma Compare_Hash:
  assumes "\<And>p s t m l n. length (IDKey p s t m l n) = n" and "Hash IDKey a salt p = Some h"
  shows "\<exists>x. salt = Some x \<and> Compare IDKey h q =
    (IDKey q x (a_Iterations a) (a_MemoryKiB a) (a_Parallelism a) (a_KeyLength a) =
     IDKey p x (a_Iterations a) (a_MemoryKiB a) (a_Parallelism a) (a_KeyLength a))"
proof -
  from assms(2) obtain x where x: "salt = Some x" "validateArgon2Params a" "length x = a_SaltLength a"
    and h: "h = phc a x (IDKey p x (a_Iterations a) (a_MemoryKiB a) (a_Parallelism a) (a_KeyLength a))"
    by (auto simp: Hash_def hashWithSalt_def split: if_splits option.splits)
  let ?a = "a\<lparr>a_SaltLength := 0, a_KeyLength := 0\<rparr>" and ?k = "IDKey p x (a_Iterations a) (a_MemoryKiB a) (a_Parallelism a) (a_KeyLength a)"
  have "h = phc ?a x ?k" by (simp add: h phc_def)
  moreover have "phc_valid ?a x ?k" using x assms(1) by (auto simp: phc_valid_def validateArgon2Params_def validateArgon2Work_def)
  ultimately have "parsePHC h = Some (?a, x, ?k)" using parsePHC_phc by simp
  then show ?thesis using x(1) by (simp add: Compare_def assms(1))
qed

text \<open>A password hash made by \<^verbatim>\<open>Hash\<close> is accepted by \<^verbatim>\<open>Compare\<close> for exactly the passwords from which
  the key derivation computes the same key with the same salt, in particular for the password itself;
  the derivation is any function that returns keys of the requested length.\<close>
theorem hash_compare_roundtrip:
  assumes "\<And>p s t m l n. length (IDKey p s t m l n) = n" and "Hash IDKey a (Some x) p = Some h"
  shows "Compare IDKey h q \<longleftrightarrow>
    IDKey q x (a_Iterations a) (a_MemoryKiB a) (a_Parallelism a) (a_KeyLength a) =
    IDKey p x (a_Iterations a) (a_MemoryKiB a) (a_Parallelism a) (a_KeyLength a)"
  using Compare_Hash [OF assms(1) assms(2), of q] by simp

text \<open>A key derivation for examples: the password, cut or filled up to the length.\<close>

definition wit_idkey :: idkey where
  "wit_idkey p s t m l n = take n (p @ replicate n (CHR ''.''))"

definition wit_argon :: Argon2Params where
  "wit_argon = \<lparr>a_MemoryKiB = 64, a_Iterations = 1, a_Parallelism = 1, a_SaltLength = 16, a_KeyLength = 16\<rparr>"

lemma wit_idkey_length: "length (wit_idkey p s t m l n) = n"
  by (simp add: wit_idkey_def)

lemma wit_hash:
  "ascii p \<Longrightarrow> ValidatePassword p = None \<Longrightarrow>
   Hash wit_idkey wit_argon (Some (replicate 16 (CHR ''s''))) p = Some (phc wit_argon (replicate 16 (CHR ''s'')) (wit_idkey p (replicate 16 (CHR ''s'')) 1 64 1 16))"
  by (simp add: Hash_def hashWithSalt_def validateArgon2Params_def validateArgon2Work_def wit_argon_def
      maxArgon2MemoryKiB_def maxArgon2Iterations_def maxArgon2Parallelism_def)

lemma wit_password: "ValidatePassword ''correct horse'' = None"
  by (simp add: ValidatePassword_def go_eval ascii_def)

theorem hash_compare_roundtrip_witness:
  "\<exists>h. Hash wit_idkey wit_argon (Some (replicate 16 (CHR ''s''))) ''correct horse'' = Some h \<and>
     Compare wit_idkey h ''correct horse'' \<and> \<not> Compare wit_idkey h ''wrong horse''"
proof -
  let ?s = "replicate 16 (CHR ''s'')"
  have h: "Hash wit_idkey wit_argon (Some ?s) ''correct horse'' = Some (phc wit_argon ?s (wit_idkey ''correct horse'' ?s 1 64 1 16))"
    by (rule wit_hash [OF _ wit_password]) (simp add: byte_def)
  have same: "Compare wit_idkey (phc wit_argon ?s (wit_idkey ''correct horse'' ?s 1 64 1 16)) ''correct horse''"
    using hash_compare_roundtrip [OF wit_idkey_length h] by blast
  have "wit_idkey ''wrong horse'' ?s 1 64 1 16 \<noteq> wit_idkey ''correct horse'' ?s 1 64 1 16" by (simp add: wit_idkey_def)
  then have "\<not> Compare wit_idkey (phc wit_argon ?s (wit_idkey ''correct horse'' ?s 1 64 1 16)) ''wrong horse''"
    using hash_compare_roundtrip [OF wit_idkey_length h, of "''wrong horse''"] by (simp only: wit_argon_def Argon2Params.select_convs) simp
  with h same show ?thesis by blast
qed

end
