(* ===== verification/Audit_Log.thy ===== *)
theory Audit_Log
  imports Go_Strings Prelude "HOL-Library.AList"
begin

text \<open>
  \<^verbatim>\<open>audit/postgres_store.go\<close>: the audit log. An event is checked against the schema of its action,
  classified by its outcome and appended; the log is listed with filters, where the outcome of a row is
  computed by an SQL expression generated from the same rules. Metadata, a Go map, is an
  association list with distinct keys. \<^verbatim>\<open>uuid.Parse\<close> and \<^verbatim>\<open>UUID.String\<close> of the uuid package are the
  arguments \<open>parse\<close> and \<open>render\<close>.
\<close>

section \<open>Events\<close>

datatype meta_value = MString string | MOther

record Event_audit =
  ev_ActorUserID :: uuid
  ev_Action :: string
  ev_TargetType :: string
  ev_TargetID :: string
  ev_Metadata :: "(string \<times> meta_value) list"
  ev_RequestID :: string
  ev_IP :: "string option"

datatype audit_error = ErrInvalidEvent | ErrInvalidFilter | ErrAuditDriver

text \<open>\<^verbatim>\<open>^[a-z][a-z0-9._-]{0,63}$\<close>\<close>

definition lower_letter :: "char \<Rightarrow> bool" where
  "lower_letter c \<longleftrightarrow> 97 \<le> byte c \<and> byte c \<le> 122"

definition identifier_match :: "string \<Rightarrow> bool" where
  "identifier_match s \<longleftrightarrow> s \<noteq> [] \<and> length s \<le> 64 \<and> lower_letter (hd s) \<and>
     list_all (\<lambda>c. lower_letter c \<or> digit c \<or> c = CHR ''.'' \<or> c = CHR ''_'' \<or> c = CHR ''-'') s"

text \<open>The string at a key; \<^verbatim>\<open>x, _ := m[k].(string)\<close> gives the empty string when there is none.\<close>

definition meta :: "(string \<times> meta_value) list \<Rightarrow> string \<Rightarrow> string option" where
  "meta m k = (case map_of m k of Some (MString s) \<Rightarrow> Some s | _ \<Rightarrow> None)"

definition meta_text :: "(string \<times> meta_value) list \<Rightarrow> string \<Rightarrow> string" where
  "meta_text m k = (case meta m k of Some s \<Rightarrow> s | None \<Rightarrow> [])"

section \<open>The schema of the actions\<close>

definition allowedMetadata :: "(string \<times> string list) list" where
  "allowedMetadata = [
    (''student.created'', [''username'', ''display_name'']), (''student.disabled'', [''status'']), (''student.enabled'', [''status'']), (''student.password_reset'', []),
    (''catalog.created'', [''kind'']), (''catalog.renamed'', [''kind'']), (''catalog.reordered'', [''kind'']), (''catalog.archived'', [''kind'']), (''catalog.restored'', [''kind'']),
    (''lesson.draft_saved'', []), (''lesson.published'', [''revision_id'']), (''lesson.withdrawn'', []), (''lesson.archived'', []),
    (''file.uploaded'', []), (''file.policy_changed'', []), (''file.processing_retried'', []), (''file.replaced'', []), (''file.draft_rolled_back'', []), (''file.delete_requested'', []),
    (''file.cleanup_scheduled'', [''previewCount'']), (''file.cleanup_completed'', []),
    (''file.processing_artifact_cleanup_scheduled'', []), (''file.processing_artifact_cleanup_completed'', []),
    (''qa.thread_created'', [''messageCount'', ''attachmentCount'']), (''qa.student_followed_up'', [''messageCount'', ''attachmentCount'']),
    (''qa.admin_replied'', [''messageCount'', ''attachmentCount'', ''oldStatus'', ''newStatus'']), (''qa.status_changed'', [''oldStatus'', ''newStatus'']), (''qa.teacher_note_added'', [''noteCount'']),
    (''ai.provider_created'', []), (''ai.provider_updated'', [''keyChanged'']), (''ai.provider_activated'', []),
    (''ai.provider_tested'', [''providerId'', ''protocol'', ''ok'', ''errorCategory'', ''latencyMs'']), (''ai.model_put'', [''providerId'', ''modality'']),
    (''ai.prompt_put'', [''subject'', ''version'']), (''ai.limits_global_put'', []), (''ai.limits_student_put'', [''studentId'']),
    (''ai.file_access_rejected'', [''reason'']),
    (''operations.settings_updated'', []), (''operations.settings_rejected'', [''category'', ''reason'']), (''operations.lease_taken_over'', []),
    (''operations.retention_completed'', [''samples'', ''alertDeliveries'', ''alerts'', ''restoreVerifications'', ''backupRuns'']),
    (''operations.backup_requested'', []), (''operations.alert_acknowledged'', [''status'']),
    (''operations.update_requested'', [''status'']), (''operations.rollback_requested'', [''status''])]"

definition allowedTargetTypes :: "(string \<times> string) list" where
  "allowedTargetTypes = [
    (''student.created'', ''student''), (''student.disabled'', ''student''), (''student.enabled'', ''student''), (''student.password_reset'', ''student''),
    (''catalog.created'', ''catalog''), (''catalog.renamed'', ''catalog''), (''catalog.reordered'', ''catalog''), (''catalog.archived'', ''catalog''), (''catalog.restored'', ''catalog''),
    (''lesson.draft_saved'', ''lesson''), (''lesson.published'', ''lesson''), (''lesson.withdrawn'', ''lesson''), (''lesson.archived'', ''lesson''),
    (''file.uploaded'', ''file_version''), (''file.policy_changed'', ''lesson''), (''file.processing_retried'', ''file_version''), (''file.replaced'', ''file''),
    (''file.draft_rolled_back'', ''file_version''), (''file.delete_requested'', ''file''),
    (''file.cleanup_scheduled'', ''file_version''), (''file.cleanup_completed'', ''file_version''),
    (''file.processing_artifact_cleanup_scheduled'', ''file_version''), (''file.processing_artifact_cleanup_completed'', ''file_version''),
    (''qa.thread_created'', ''qa_thread''), (''qa.student_followed_up'', ''qa_thread''), (''qa.admin_replied'', ''qa_thread''), (''qa.status_changed'', ''qa_thread''), (''qa.teacher_note_added'', ''qa_thread''),
    (''ai.provider_created'', ''ai_provider''), (''ai.provider_updated'', ''ai_provider''), (''ai.provider_activated'', ''ai_provider''), (''ai.provider_tested'', ''ai_provider''),
    (''ai.model_put'', ''ai_model''), (''ai.prompt_put'', ''ai_prompt''), (''ai.limits_global_put'', ''ai_limits''), (''ai.limits_student_put'', ''ai_limits''),
    (''ai.file_access_rejected'', ''ai_file_request''),
    (''operations.settings_updated'', ''system_settings''), (''operations.settings_rejected'', ''system_settings''), (''operations.lease_taken_over'', ''operational_mode''),
    (''operations.retention_completed'', ''metadata_retention''), (''operations.backup_requested'', ''backup_run''),
    (''operations.alert_acknowledged'', ''operational_alert''), (''operations.update_requested'', ''application_update''), (''operations.rollback_requested'', ''application_update'')]"

text \<open>\<^verbatim>\<open>auditOutcomeRules\<close>: a fixed outcome, or a key of the metadata with the outcome for each of its values.\<close>

datatype outcome_rule = Outcome string | ByMetadata string "(string \<times> string) list"

definition succeeded_actions :: "string list" where
  "succeeded_actions = [
    ''student.created'', ''student.disabled'', ''student.enabled'', ''student.password_reset'',
    ''catalog.created'', ''catalog.renamed'', ''catalog.reordered'', ''catalog.archived'', ''catalog.restored'',
    ''lesson.draft_saved'', ''lesson.published'', ''lesson.withdrawn'', ''lesson.archived'',
    ''file.uploaded'', ''file.policy_changed'', ''file.processing_retried'', ''file.replaced'', ''file.draft_rolled_back'', ''file.delete_requested'',
    ''file.cleanup_scheduled'', ''file.cleanup_completed'', ''file.processing_artifact_cleanup_scheduled'', ''file.processing_artifact_cleanup_completed'',
    ''qa.thread_created'', ''qa.student_followed_up'', ''qa.admin_replied'', ''qa.status_changed'', ''qa.teacher_note_added'',
    ''ai.provider_created'', ''ai.provider_updated'', ''ai.provider_activated'', ''ai.model_put'', ''ai.prompt_put'', ''ai.limits_global_put'', ''ai.limits_student_put'',
    ''operations.settings_updated'', ''operations.lease_taken_over'', ''operations.retention_completed'', ''operations.backup_requested'', ''operations.alert_acknowledged'']"

definition auditOutcomeRules :: "(string \<times> outcome_rule) list" where
  "auditOutcomeRules = map (\<lambda>a. (a, Outcome ''succeeded'')) succeeded_actions @
    [(''ai.file_access_rejected'', Outcome ''rejected''), (''operations.settings_rejected'', Outcome ''rejected''),
     (''operations.update_requested'', Outcome ''attempted''), (''operations.rollback_requested'', Outcome ''attempted''),
     (''ai.provider_tested'', ByMetadata ''ok'' [(''true'', ''succeeded''), (''false'', ''failed'')])]"

definition classifyAuditOutcome :: "string \<Rightarrow> (string \<times> meta_value) list \<Rightarrow> string option" where
  "classifyAuditOutcome action m =
     (case map_of auditOutcomeRules action of
        None \<Rightarrow> None
      | Some (Outcome x) \<Rightarrow> Some x
      | Some (ByMetadata k outcomes) \<Rightarrow> (case meta m k of None \<Rightarrow> None | Some v \<Rightarrow> map_of outcomes v))"

definition IsValidOutcome :: "string \<Rightarrow> bool" where
  "IsValidOutcome x \<longleftrightarrow> x \<noteq> [] \<and> list_ex (\<lambda>(_, rule). case rule of Outcome y \<Rightarrow> y = x | ByMetadata _ outcomes \<Rightarrow> list_ex (\<lambda>(_, y). y = x) outcomes) auditOutcomeRules"

section \<open>Validation\<close>

text \<open>\<^verbatim>\<open>net.IP.Equal(127.0.0.1)\<close>: the four bytes, or the same address in its sixteen-byte form.\<close>

definition loopback :: "string option \<Rightarrow> bool" where
  "loopback ip \<longleftrightarrow> ip = Some (map char_of [127, 0, 0, 1 :: nat]) \<or>
     ip = Some (map char_of [0, 0, 0, 0, 0, 0, 0, 0, 0, 0, 255, 255, 127, 0, 0, 1 :: nat])"

definition systemActorAllowed :: "Event_audit \<Rightarrow> bool" where
  "systemActorAllowed e \<longleftrightarrow>
     (if ev_Action e = ''operations.lease_taken_over''
      then ev_TargetType e = ''operational_mode'' \<and> ev_TargetID e = ''global'' \<and> ev_Metadata e = [] \<and>
        ev_RequestID e = ''operations-lease-takeover'' \<and> loopback (ev_IP e)
      else if ev_Action e = ''operations.retention_completed''
      then ev_TargetType e = ''metadata_retention'' \<and> ev_TargetID e = ''global'' \<and> ev_RequestID e = ''operations-retention'' \<and> loopback (ev_IP e)
      else False)"

definition safeQAStatus :: "string \<Rightarrow> bool" where
  "safeQAStatus s \<longleftrightarrow> s \<in> set [''pending'', ''in_progress'', ''waiting_student'', ''completed'']"

text \<open>\<^verbatim>\<open>strconv.Atoi\<close> and \<^verbatim>\<open>ParseInt(_, 10, 64)\<close>: an optional sign and decimal digits within 64 bits.\<close>

definition ParseInt :: "string \<Rightarrow> int option" where
  "ParseInt s =
     (let sign = (s \<noteq> [] \<and> (hd s = CHR ''+'' \<or> hd s = CHR ''-'')); digits = (if sign then tl s else s); n = int (decimal_value digits) in
      if digits = [] \<or> \<not> list_all digit digits then None
      else if sign \<and> hd s = CHR ''-'' then (if n \<le> 2 ^ 63 then Some (- n) else None)
      else (if n < 2 ^ 63 then Some n else None))"

definition attachment_count_ok :: "(string \<times> meta_value) list \<Rightarrow> bool" where
  "attachment_count_ok m \<longleftrightarrow> meta m ''messageCount'' = Some ''1'' \<and>
     (case meta m ''attachmentCount'' of None \<Rightarrow> False | Some s \<Rightarrow> (case ParseInt s of None \<Rightarrow> False | Some n \<Rightarrow> 0 \<le> n \<and> n \<le> 20))"

definition statuses_ok :: "(string \<times> meta_value) list \<Rightarrow> bool" where
  "statuses_ok m \<longleftrightarrow> (case meta m ''oldStatus'' of None \<Rightarrow> False | Some s \<Rightarrow> safeQAStatus s) \<and>
     (case meta m ''newStatus'' of None \<Rightarrow> False | Some s \<Rightarrow> safeQAStatus s)"

definition validQAEvent :: "Event_audit \<Rightarrow> bool" where
  "validQAEvent e \<longleftrightarrow> (let m = ev_Metadata e; a = ev_Action e in
     ((a = ''qa.thread_created'' \<or> a = ''qa.student_followed_up'') \<longrightarrow> length m = 2 \<and> attachment_count_ok m) \<and>
     (a = ''qa.admin_replied'' \<longrightarrow> length m = 4 \<and> attachment_count_ok m \<and> statuses_ok m) \<and>
     (a = ''qa.status_changed'' \<longrightarrow> length m = 2 \<and> statuses_ok m) \<and>
     (a = ''qa.teacher_note_added'' \<longrightarrow> length m = 1 \<and> meta m ''noteCount'' = Some ''1''))"

definition count_text :: "string \<Rightarrow> bool" where
  "count_text s \<longleftrightarrow> (case ParseInt s of None \<Rightarrow> False | Some n \<Rightarrow> 0 \<le> n \<and> show_nat (nat n) = s)"

definition canonical_id :: "(string \<Rightarrow> uuid option) \<Rightarrow> (uuid \<Rightarrow> string) \<Rightarrow> string \<Rightarrow> bool" where
  "canonical_id parse render s \<longleftrightarrow> (case parse s of None \<Rightarrow> False | Some i \<Rightarrow> i \<noteq> uuid_Nil \<and> render i = s)"

definition validOperationsEvent :: "(string \<Rightarrow> uuid option) \<Rightarrow> (uuid \<Rightarrow> string) \<Rightarrow> Event_audit \<Rightarrow> bool" where
  "validOperationsEvent parse render e \<longleftrightarrow> (let m = ev_Metadata e; a = ev_Action e in
     if a = ''operations.settings_updated'' \<or> a = ''operations.lease_taken_over'' then m = []
     else if a = ''operations.retention_completed'' then ev_ActorUserID e = uuid_Nil \<and> length m = 5 \<and>
       list_all (\<lambda>k. case meta m k of None \<Rightarrow> False | Some s \<Rightarrow> count_text s) [''samples'', ''alertDeliveries'', ''alerts'', ''restoreVerifications'', ''backupRuns'']
     else if a = ''operations.backup_requested'' then m = [] \<and> canonical_id parse render (ev_TargetID e)
     else if a = ''operations.alert_acknowledged'' then length m = 1 \<and> canonical_id parse render (ev_TargetID e) \<and> meta m ''status'' = Some ''acknowledged''
     else if a = ''operations.update_requested'' \<or> a = ''operations.rollback_requested''
     then ev_TargetID e = ''global'' \<and> length m = 1 \<and> meta m ''status'' = Some ''requested''
     else if a = ''operations.settings_rejected'' then length m = 2 \<and> meta m ''category'' = Some ''high_risk'' \<and>
       meta m ''reason'' \<in> {Some ''retention'', Some ''backup_schedule'', Some ''threshold''}
     else False)"

definition validAIEvent :: "(string \<Rightarrow> uuid option) \<Rightarrow> Event_audit \<Rightarrow> bool" where
  "validAIEvent parse e \<longleftrightarrow> (let m = ev_Metadata e; a = ev_Action e; v = meta_text m in
     if a = ''ai.provider_created'' \<or> a = ''ai.provider_activated'' \<or> a = ''ai.limits_global_put'' then m = []
     else if a = ''ai.provider_updated'' then length m = 1 \<and> (v ''keyChanged'' = ''true'' \<or> v ''keyChanged'' = ''false'')
     else if a = ''ai.provider_tested'' then
       (if parse (v ''providerId'') = None \<or> (case ParseInt (v ''latencyMs'') of None \<Rightarrow> True | Some n \<Rightarrow> n < 0) \<or>
           (v ''protocol'' \<noteq> ''chat_completions'' \<and> v ''protocol'' \<noteq> ''responses'') \<or> (v ''ok'' \<noteq> ''true'' \<and> v ''ok'' \<noteq> ''false'') then False
        else if v ''ok'' = ''true'' then length m = 5 \<and> v ''errorCategory'' = []
        else length m = 5 \<and> v ''errorCategory'' \<in> set [''auth'', ''rate_limited'', ''upstream_4xx'', ''upstream_5xx'', ''timeout'', ''stream_interrupted'',
          ''malformed_stream'', ''response_too_large'', ''cancelled'', ''unavailable'', ''busy''])
     else if a = ''ai.model_put'' then length m = 2 \<and> parse (v ''providerId'') \<noteq> None \<and> (v ''modality'' = ''text'' \<or> v ''modality'' = ''vision'')
     else if a = ''ai.prompt_put'' then length m = 2 \<and> (case ParseInt (v ''version'') of None \<Rightarrow> False | Some n \<Rightarrow> n > 0) \<and>
       (v ''subject'' = ''math'' \<or> v ''subject'' = ''physics'')
     else if a = ''ai.limits_student_put'' then length m = 1 \<and> parse (v ''studentId'') \<noteq> None
     else if a = ''ai.file_access_rejected'' then ev_TargetID e = ''unresolved'' \<and> length m = 1 \<and>
       v ''reason'' \<in> set [''malformed_id'', ''unexpected_query'', ''invalid_actor'', ''invalid_ip'']
     else False)"

text \<open>The metadata that is stored with the event: its own and its outcome.\<close>

definition validateAndMarshal ::
  "(string \<Rightarrow> uuid option) \<Rightarrow> (uuid \<Rightarrow> string) \<Rightarrow> Event_audit \<Rightarrow> (string \<times> meta_value) list option" where
  "validateAndMarshal parse render e =
     (if (ev_ActorUserID e = uuid_Nil \<and> \<not> systemActorAllowed e) \<or> \<not> identifier_match (ev_Action e) \<or> \<not> identifier_match (ev_TargetType e) \<or>
         TrimSpace (ev_TargetID e) = [] \<or> length (ev_TargetID e) > 128 \<or> TrimSpace (ev_RequestID e) = [] \<or> length (ev_RequestID e) > 64 \<or> ev_IP e = None then None
      else case map_of allowedMetadata (ev_Action e) of
        None \<Rightarrow> None
      | Some allowed \<Rightarrow>
          if map_of allowedTargetTypes (ev_Action e) \<noteq> Some (ev_TargetType e) then None
          else if \<not> list_all (\<lambda>(k, v). k \<in> set allowed \<and> v \<noteq> MOther) (ev_Metadata e) then None
          else if \<not> validQAEvent e then None
          else if HasPrefix (ev_Action e) ''ai.'' \<and> \<not> validAIEvent parse e then None
          else if HasPrefix (ev_Action e) ''operations.'' \<and> \<not> validOperationsEvent parse render e then None
          else case classifyAuditOutcome (ev_Action e) (ev_Metadata e) of
            None \<Rightarrow> None
          | Some outcome \<Rightarrow> Some (AList.update ''outcome'' (MString outcome) (ev_Metadata e)))"

section \<open>The log\<close>

record audit_row =
  al_id :: int
  al_event :: Event_audit
  al_metadata :: "(string \<times> meta_value) list"
  al_occurred_at :: time

text \<open>Identity columns count upwards; \<open>next\<close> is the next value of the sequence.\<close>

definition Write ::
  "(string \<Rightarrow> uuid option) \<Rightarrow> (uuid \<Rightarrow> string) \<Rightarrow> bool \<Rightarrow> int \<Rightarrow> time \<Rightarrow> Event_audit \<Rightarrow> audit_row list \<Rightarrow> audit_error option \<times> audit_row list" where
  "Write parse render fault next now e log =
     (case validateAndMarshal parse render e of
        None \<Rightarrow> (Some ErrInvalidEvent, log)
      | Some m \<Rightarrow> if fault then (Some ErrAuditDriver, log)
          else (None, log @ [\<lparr>al_id = next, al_event = e, al_metadata = m, al_occurred_at = now\<rparr>]))"

text \<open>The clauses of the expression that \<^verbatim>\<open>auditOutcomeSQL\<close> builds: first those that look at the metadata,
  then one for each fixed outcome, both in alphabetical order. Without a match the value is null.\<close>

datatype outcome_clause = WhenMetadata string string string string | WhenAction "string list" string

definition dynamicActions :: "(string \<times> outcome_rule) list \<Rightarrow> string list" where
  "dynamicActions rules = sort (map fst (filter (\<lambda>(_, r). case r of Outcome _ \<Rightarrow> False | ByMetadata _ _ \<Rightarrow> True) rules))"

definition staticActions :: "(string \<times> outcome_rule) list \<Rightarrow> string \<Rightarrow> string list" where
  "staticActions rules x = sort (map fst (filter (\<lambda>(_, r). r = Outcome x) rules))"

definition static_outcomes :: "(string \<times> outcome_rule) list \<Rightarrow> string list" where
  "static_outcomes rules = sort (remdups (concat (map (\<lambda>(_, r). case r of Outcome x \<Rightarrow> [x] | ByMetadata _ _ \<Rightarrow> []) rules)))"

definition metadata_clauses :: "(string \<times> outcome_rule) list \<Rightarrow> string \<Rightarrow> outcome_clause list" where
  "metadata_clauses rules action = (case map_of rules action of
     Some (ByMetadata k outcomes) \<Rightarrow> map (\<lambda>v. WhenMetadata action k v (the (map_of outcomes v))) (sort (map fst outcomes))
   | _ \<Rightarrow> [])"

definition auditOutcomeSQL :: "(string \<times> outcome_rule) list \<Rightarrow> outcome_clause list" where
  "auditOutcomeSQL rules = concat (map (metadata_clauses rules) (dynamicActions rules)) @
     map (\<lambda>x. WhenAction (staticActions rules x) x) (static_outcomes rules)"

fun clause_value :: "string \<Rightarrow> (string \<times> meta_value) list \<Rightarrow> outcome_clause \<Rightarrow> string option" where
  "clause_value action m (WhenMetadata a k v x) = (if action = a \<and> meta m k = Some v then Some x else None)"
| "clause_value action m (WhenAction as x) = (if action \<in> set as then Some x else None)"

fun case_value :: "string \<Rightarrow> (string \<times> meta_value) list \<Rightarrow> outcome_clause list \<Rightarrow> string option" where
  "case_value action m [] = None"
| "case_value action m (c # cs) = (case clause_value action m c of Some x \<Rightarrow> Some x | None \<Rightarrow> case_value action m cs)"

record AuditFilter =
  af_Action :: string
  af_TargetType :: string
  af_Outcome :: string
  af_ActorID :: uuid
  af_From :: time
  af_To :: time
  af_BeforeID :: int
  af_Limit :: int

definition validateAuditFilter :: "AuditFilter \<Rightarrow> bool" where
  "validateAuditFilter f \<longleftrightarrow> \<not> (af_Limit f < 1 \<or> af_Limit f > 100 \<or> af_BeforeID f < 0 \<or>
     (af_Action f \<noteq> [] \<and> \<not> identifier_match (af_Action f)) \<or> (af_TargetType f \<noteq> [] \<and> \<not> identifier_match (af_TargetType f)) \<or>
     (af_Outcome f \<noteq> [] \<and> (\<not> identifier_match (af_Outcome f) \<or> \<not> IsValidOutcome (af_Outcome f))) \<or>
     (af_From f \<noteq> time_zero \<and> af_To f \<noteq> time_zero \<and> af_From f > af_To f))"

definition audit_matches :: "AuditFilter \<Rightarrow> audit_row \<Rightarrow> bool" where
  "audit_matches f r \<longleftrightarrow>
     (af_Action f = [] \<or> ev_Action (al_event r) = af_Action f) \<and>
     (af_TargetType f = [] \<or> ev_TargetType (al_event r) = af_TargetType f) \<and>
     (af_Outcome f = [] \<or> case_value (ev_Action (al_event r)) (al_metadata r) (auditOutcomeSQL auditOutcomeRules) = Some (af_Outcome f)) \<and>
     (af_ActorID f = uuid_Nil \<or> ev_ActorUserID (al_event r) = af_ActorID f) \<and>
     (af_From f = time_zero \<or> al_occurred_at r \<ge> af_From f) \<and> (af_To f = time_zero \<or> al_occurred_at r \<le> af_To f)"

definition newest_first :: "AuditFilter \<Rightarrow> int \<Rightarrow> audit_row list \<Rightarrow> audit_row list" where
  "newest_first f before log = rev (sort_key al_id (filter (\<lambda>r. audit_matches f r \<and> (before = 0 \<or> al_id r < before)) log))"

definition ListFiltered :: "bool \<Rightarrow> AuditFilter \<Rightarrow> audit_row list \<Rightarrow> audit_error + (audit_row list \<times> int)" where
  "ListFiltered fault f log =
     (if \<not> validateAuditFilter f then Inl ErrInvalidFilter
      else if fault then Inl ErrAuditDriver
      else let rows = take (nat (af_Limit f + 1)) (newest_first f (af_BeforeID f) log) in
        if int (length rows) > af_Limit f
        then (let items = take (nat (af_Limit f)) rows in Inr (items, al_id (last items)))
        else Inr (rows, 0))"

definition List_audit :: "bool \<Rightarrow> int \<Rightarrow> int \<Rightarrow> audit_row list \<Rightarrow> audit_error + audit_row list" where
  "List_audit fault limit beforeID log =
     (if beforeID < 0 then Inr []
      else case ListFiltered fault \<lparr>af_Action = [], af_TargetType = [], af_Outcome = [], af_ActorID = uuid_Nil, af_From = time_zero, af_To = time_zero,
             af_BeforeID = beforeID, af_Limit = max 1 (min 100 limit)\<rparr> log of
        Inl e \<Rightarrow> Inl e | Inr (items, _) \<Rightarrow> Inr items)"

section \<open>Outcomes\<close>

lemma rules_distinct: "distinct (map fst auditOutcomeRules)"
  by (simp add: auditOutcomeRules_def succeeded_actions_def)

lemma case_value_none: "(\<forall>c \<in> set cs. clause_value action m c = None) \<Longrightarrow> case_value action m cs = None"
  by (induction cs) auto

lemma case_value_some:
  assumes "c \<in> set cs" "clause_value action m c = Some x" and "\<forall>d \<in> set cs. clause_value action m d \<in> {None, Some x}"
  shows "case_value action m cs = Some x"
  using assms by (induction cs) (auto split: option.splits)

text \<open>The generated expression computes the same outcome as the rules, for any rules with distinct
  actions and values.\<close>

definition rule_outcome :: "(string \<times> outcome_rule) list \<Rightarrow> string \<Rightarrow> (string \<times> meta_value) list \<Rightarrow> string option" where
  "rule_outcome rules action m = (case map_of rules action of
     None \<Rightarrow> None | Some (Outcome x) \<Rightarrow> Some x
   | Some (ByMetadata k outcomes) \<Rightarrow> (case meta m k of None \<Rightarrow> None | Some v \<Rightarrow> map_of outcomes v))"

lemma clause_sound:
  assumes d: "distinct (map fst rules)" and c: "c \<in> set (auditOutcomeSQL rules)" and v: "clause_value action m c = Some x"
  shows "rule_outcome rules action m = Some x"
  using c unfolding auditOutcomeSQL_def set_append
proof
  assume "c \<in> set (concat (map (metadata_clauses rules) (dynamicActions rules)))"
  then obtain a where "c \<in> set (metadata_clauses rules a)" by auto
  then obtain k outcomes y where a: "map_of rules a = Some (ByMetadata k outcomes)" "y \<in> fst ` set outcomes" "c = WhenMetadata a k y (the (map_of outcomes y))"
    unfolding metadata_clauses_def by (cases "map_of rules a") (auto split: outcome_rule.splits)
  moreover from a(2) obtain z where "map_of outcomes y = Some z" by (metis domD dom_map_of_conv_image_fst)
  ultimately show ?thesis using v by (auto simp: rule_outcome_def split: if_splits)
next
  assume "c \<in> set (map (\<lambda>x. WhenAction (staticActions rules x) x) (static_outcomes rules))"
  then obtain y where "c = WhenAction (staticActions rules y) y" by auto
  with v have "x = y" "(action, Outcome y) \<in> set rules" by (auto simp: staticActions_def split: if_splits)
  with d show ?thesis by (simp add: rule_outcome_def)
qed

lemma clause_complete:
  assumes d: "distinct (map fst rules)" and r: "rule_outcome rules action m = Some x"
  shows "\<exists>c \<in> set (auditOutcomeSQL rules). clause_value action m c = Some x"
proof (cases "map_of rules action")
  case (Some rule)
  then have mem: "(action, rule) \<in> set rules" by (rule map_of_SomeD)
  show ?thesis
  proof (cases rule)
    case (Outcome y)
    with r Some have "y = x" by (simp add: rule_outcome_def)
    with mem Outcome have "x \<in> set (static_outcomes rules)" "action \<in> set (staticActions rules x)"
      unfolding static_outcomes_def staticActions_def by force+
    then show ?thesis by (intro bexI [of _ "WhenAction (staticActions rules x) x"]) (auto simp: auditOutcomeSQL_def)
  next
    case (ByMetadata k outcomes)
    with r Some obtain v where v: "meta m k = Some v" "map_of outcomes v = Some x" by (auto simp: rule_outcome_def split: option.splits)
    then have "v \<in> fst ` set outcomes" by (metis domI dom_map_of_conv_image_fst)
    then have "WhenMetadata action k v x \<in> set (metadata_clauses rules action)" using Some ByMetadata v by (force simp: metadata_clauses_def)
    moreover have "action \<in> set (dynamicActions rules)" unfolding dynamicActions_def using mem ByMetadata by force
    ultimately show ?thesis using v by (intro bexI [of _ "WhenMetadata action k v x"]) (auto simp: auditOutcomeSQL_def)
  qed
qed (use r in \<open>simp add: rule_outcome_def\<close>)

lemma sql_outcome:
  assumes "distinct (map fst rules)"
  shows "case_value action m (auditOutcomeSQL rules) = rule_outcome rules action m"
proof (cases "rule_outcome rules action m")
  case None
  have "case_value action m (auditOutcomeSQL rules) = None"
  proof (rule case_value_none, rule ballI)
    fix c assume "c \<in> set (auditOutcomeSQL rules)"
    with clause_sound [OF assms this, of action m] None show "clause_value action m c = None" by (cases "clause_value action m c") auto
  qed
  with None show ?thesis by simp
next
  case (Some x)
  from clause_complete [OF assms Some] obtain c where "c \<in> set (auditOutcomeSQL rules)" "clause_value action m c = Some x" by blast
  moreover have "\<forall>d \<in> set (auditOutcomeSQL rules). clause_value action m d \<in> {None, Some x}"
  proof
    fix d assume "d \<in> set (auditOutcomeSQL rules)"
    with clause_sound [OF assms this, of action m] Some show "clause_value action m d \<in> {None, Some x}" by (cases "clause_value action m d") auto
  qed
  ultimately show ?thesis using case_value_some Some by fastforce
qed

lemma meta_update: "k \<noteq> k' \<Longrightarrow> meta (AList.update k' v m) k = meta m k"
  by (simp add: meta_def AList.update_conv')

lemma rule_outcomes_valid:
  "(a, Outcome x) \<in> set auditOutcomeRules \<Longrightarrow> IsValidOutcome x"
  "(a, ByMetadata k outcomes) \<in> set auditOutcomeRules \<Longrightarrow> (v, x) \<in> set outcomes \<Longrightarrow> IsValidOutcome x"
proof -
  assume m: "(a, Outcome x) \<in> set auditOutcomeRules"
  then have "x \<noteq> []" by (auto simp: auditOutcomeRules_def)
  with m show "IsValidOutcome x" unfolding IsValidOutcome_def list_ex_iff by force
next
  assume m: "(a, ByMetadata k outcomes) \<in> set auditOutcomeRules" "(v, x) \<in> set outcomes"
  then have "x \<noteq> []" by (auto simp: auditOutcomeRules_def)
  with m show "IsValidOutcome x" unfolding IsValidOutcome_def list_ex_iff by force
qed

text \<open>C33: a row of the audit log is filtered by exactly the outcome that was stored with it: for every
  accepted event the SQL expression that \<^verbatim>\<open>auditOutcomeSQL\<close> generates from the rules gives, on the
  stored row, the outcome that \<^verbatim>\<open>validateAndMarshal\<close> put into its metadata, and this outcome is one that
  a filter may name.\<close>
theorem audit_outcome_consistent:
  assumes "validateAndMarshal parse render e = Some stored"
  shows "\<exists>x. meta stored ''outcome'' = Some x \<and> IsValidOutcome x \<and>
    case_value (ev_Action e) stored (auditOutcomeSQL auditOutcomeRules) = Some x"
proof -
  from assms obtain x where c: "classifyAuditOutcome (ev_Action e) (ev_Metadata e) = Some x"
    and s: "stored = AList.update ''outcome'' (MString x) (ev_Metadata e)"
    by (auto simp: validateAndMarshal_def split: if_splits option.splits)
  have rule: "rule_outcome auditOutcomeRules a m = classifyAuditOutcome a m" for a m by (simp add: rule_outcome_def classifyAuditOutcome_def)
  have key: "k = ''ok''" if "map_of auditOutcomeRules a = Some (ByMetadata k o')" for a k o'
    using map_of_SomeD [OF that] by (auto simp: auditOutcomeRules_def)
  have "meta stored ''ok'' = meta (ev_Metadata e) ''ok''" unfolding s by (rule meta_update) simp
  then have "classifyAuditOutcome (ev_Action e) stored = Some x"
    using c key unfolding classifyAuditOutcome_def by (fastforce split: option.splits outcome_rule.splits)
  moreover have "IsValidOutcome x"
    using c unfolding classifyAuditOutcome_def by (auto split: option.splits outcome_rule.splits dest!: map_of_SomeD intro: rule_outcomes_valid)
  moreover have "meta stored ''outcome'' = Some x" by (simp add: s meta_def AList.update_conv')
  ultimately show ?thesis unfolding sql_outcome [OF rules_distinct] rule by blast
qed


text \<open>An event of the student administration, accepted and classified.\<close>

definition wit_audit :: Event_audit where
  "wit_audit = \<lparr>ev_ActorUserID = 1, ev_Action = ''student.disabled'', ev_TargetType = ''student'', ev_TargetID = ''7'',
     ev_Metadata = [(''status'', MString ''disabled'')], ev_RequestID = ''r'', ev_IP = Some ''1234''\<rparr>"

lemma wit_audit_valid:
  "validateAndMarshal parse render wit_audit = Some [(''status'', MString ''disabled''), (''outcome'', MString ''succeeded'')]"
  by (simp add: validateAndMarshal_def wit_audit_def identifier_match_def lower_letter_def digit_def byte_def go_eval ascii_def
      allowedMetadata_def allowedTargetTypes_def validQAEvent_def classifyAuditOutcome_def auditOutcomeRules_def succeeded_actions_def)

theorem audit_outcome_consistent_witness:
  "case_value ''student.disabled'' [(''status'', MString ''disabled''), (''outcome'', MString ''succeeded'')] (auditOutcomeSQL auditOutcomeRules) = Some ''succeeded''"
  using audit_outcome_consistent [OF wit_audit_valid] by (simp add: meta_def wit_audit_def)

section \<open>Pages\<close>

lemma newest_first_older:
  assumes "before = 0 \<or> k \<le> before" "k \<noteq> 0"
  shows "newest_first f k log = filter (\<lambda>r. al_id r < k) (newest_first f before log)"
proof -
  have "filter (\<lambda>r. audit_matches f r \<and> (k = 0 \<or> al_id r < k)) log =
      filter (\<lambda>r. al_id r < k) (filter (\<lambda>r. audit_matches f r \<and> (before = 0 \<or> al_id r < before)) log)"
    using assms by (auto intro!: filter_cong)
  then show ?thesis by (simp only: newest_first_def filter_sort rev_filter [symmetric])
qed

lemma newest_first_decreasing:
  assumes "keyed al_id log"
  shows "sorted_wrt (\<lambda>r r'. al_id r' < al_id r) (newest_first f before log)"
proof -
  let ?rows = "filter (\<lambda>r. audit_matches f r \<and> (before = 0 \<or> al_id r < before)) log"
  have "distinct (map al_id (sort_key al_id ?rows))"
    using assms by (simp add: keyed_def distinct_map inj_on_def)
  then have "sorted_wrt (<) (map al_id (sort_key al_id ?rows))" by (simp add: strict_sorted_iff)
  then show ?thesis by (simp add: newest_first_def sorted_wrt_rev sorted_wrt_map)
qed

lemma decreasing_split:
  assumes "sorted_wrt (\<lambda>r r'. al_id r' < al_id r) (ys @ zs)" "ys \<noteq> []"
  shows "filter (\<lambda>r. al_id r < al_id (last ys)) (ys @ zs) = zs"
proof -
  from assms have z: "\<forall>z \<in> set zs. al_id z < al_id (last ys)" by (simp add: sorted_wrt_append)
  from assms have "sorted_wrt (\<lambda>r r'. al_id r' < al_id r) (butlast ys @ [last ys])" by (simp add: sorted_wrt_append)
  then have "\<forall>y \<in> set (butlast ys). al_id (last ys) < al_id y" by (simp add: sorted_wrt_append)
  moreover have "set ys = set (butlast ys) \<union> {last ys}" using assms(2) by (metis append_butlast_last_id list.set(1) list.set(2) set_append)
  ultimately have "filter (\<lambda>r. al_id r < al_id (last ys)) ys = []" by (fastforce simp: filter_empty_conv)
  with z show ?thesis by simp
qed

text \<open>Following the cursor of the audit log loses and repeats nothing: a page holds the newest
  matching rows below its cursor in descending order, at most \<^verbatim>\<open>Limit\<close> of them; without a next
  cursor it is all of them, and otherwise the rows below the next cursor are exactly the remaining ones.\<close>
theorem audit_pages_complete:
  assumes "keyed al_id log" and "list_all (\<lambda>r. al_id r > 0) log" and "ListFiltered False f log = Inr (items, next)"
  shows "int (length items) \<le> af_Limit f \<and>
    newest_first f (af_BeforeID f) log = items @ (if next = 0 then [] else newest_first f next log)"
proof -
  let ?all = "newest_first f (af_BeforeID f) log"
  have lim: "1 \<le> af_Limit f" "0 \<le> af_BeforeID f" using assms(3) by (auto simp: ListFiltered_def validateAuditFilter_def split: if_splits)
  have pos: "0 < al_id r" "af_BeforeID f = 0 \<or> al_id r < af_BeforeID f" if "r \<in> set ?all" for r
    using assms(2) that by (auto simp: newest_first_def list_all_iff)
  show ?thesis
  proof (cases "int (length ?all) > af_Limit f")
    case False
    then have "take (nat (af_Limit f + 1)) ?all = ?all" by simp
    with assms(3) False show ?thesis by (auto simp: ListFiltered_def Let_def split: if_splits)
  next
    case True
    let ?ys = "take (nat (af_Limit f)) ?all"
    have ys: "?ys \<noteq> []" "int (length ?ys) = af_Limit f" using True lim by auto
    have "\<not> int (length (take (nat (af_Limit f + 1)) ?all)) \<le> af_Limit f" using True lim by simp
    with assms(3) lim have i: "items = ?ys" "next = al_id (last ?ys)"
      by (auto simp: ListFiltered_def Let_def min_def split: if_splits)
    have l: "last ?ys \<in> set ?all" using ys(1) by (meson in_set_takeD last_in_set)
    have "newest_first f next log = filter (\<lambda>r. al_id r < next) ?all"
      by (rule newest_first_older) (use pos [OF l] i in auto)
    also have "\<dots> = drop (nat (af_Limit f)) ?all"
      using decreasing_split [of ?ys "drop (nat (af_Limit f)) ?all"] newest_first_decreasing [OF assms(1), of f "af_BeforeID f"] ys(1) i by simp
    finally show ?thesis using i ys pos [OF l] by simp
  qed
qed

theorem audit_pages_complete_witness:
  "\<exists>items next. ListFiltered False \<lparr>af_Action = [], af_TargetType = [], af_Outcome = [], af_ActorID = 0, af_From = 0, af_To = 0, af_BeforeID = 0, af_Limit = 1\<rparr>
     (map (\<lambda>i. \<lparr>al_id = i, al_event = wit_audit, al_metadata = [], al_occurred_at = 5\<rparr>) [1, 2]) = Inr (items, next) \<and> int (length items) \<le> 1 \<and> next = 2"
proof -
  let ?f = "\<lparr>af_Action = [], af_TargetType = [], af_Outcome = [], af_ActorID = 0, af_From = 0, af_To = 0, af_BeforeID = 0, af_Limit = 1\<rparr>"
  let ?row = "\<lambda>i. \<lparr>al_id = i, al_event = wit_audit, al_metadata = [], al_occurred_at = 5\<rparr>"
  have "ListFiltered False ?f (map ?row [1, 2]) = Inr ([?row 2], 2)"
    by (simp add: ListFiltered_def validateAuditFilter_def newest_first_def audit_matches_def eval_nat_numeral)
  with audit_pages_complete [of "map ?row [1, 2]" ?f "[?row 2]" 2] show ?thesis by (simp add: keyed_def)
qed

end
