(* ===== verification/Auth_Store.thy ===== *)
theory Auth_Store
  imports Files_Model Auth_Password Audit_Log
begin

text \<open>
  \<^verbatim>\<open>auth/model.go\<close>, \<^verbatim>\<open>auth/postgres_store.go\<close> and \<^verbatim>\<open>students/postgres_uow.go\<close>: users, sessions and login
  events. A session stores the hash of its token, never the token. The unique indexes of the tables
  are checked by the insertions: one active user per name, one administrator, one session per token.
\<close>

section \<open>Tables\<close>

record user_row = User +
  ur_Deleted :: bool

record CreateSessionParams =
  se_ID :: uuid
  se_UserID :: uuid
  se_TokenHash :: string
  se_UserAgent :: string
  se_IP :: "string option"
  se_CreatedAt :: time
  se_LastSeenAt :: time
  se_IdleExpiresAt :: time
  se_AbsoluteExpiresAt :: time

record Session = CreateSessionParams +
  se_RevokedAt :: "time option"
  se_RevokeReason :: "string option"

record LoginEvent =
  ln_UserID :: "uuid option"
  ln_Username :: string
  ln_Success :: bool
  ln_Reason :: string
  ln_IP :: "string option"
  ln_UserAgent :: string
  ln_OccurredAt :: time

record CreateUserParams =
  cu_Username :: string
  cu_DisplayName :: string
  cu_Role :: Role
  cu_Status :: "Status option"
  cu_PasswordHash :: string
  cu_MustChangePassword :: bool

record PasswordRotationParams =
  pw_UserID :: uuid
  pw_ExpectedPasswordHash :: string
  pw_PasswordHash :: string
  pw_MustChangePassword :: bool
  pw_ReplacementSession :: CreateSessionParams

record auth_db =
  au_users :: "user_row list"
  au_sessions :: "Session list"
  au_login_events :: "LoginEvent list"
  au_log :: "audit_row list"

datatype auth_error =
    ErrAuthNotFound | ErrAuthConflict | ErrUnauthenticated | ErrInvalidCredentials | ErrAuthDriver
  | ErrPassword password_error | ErrHashing | ErrTokenEntropy
  | ErrStudentForbidden | ErrStudentInvalid | ErrAudit audit_error

section \<open>Users\<close>

definition normalizeUsername :: "string \<Rightarrow> string" where
  "normalizeUsername s = ToLower (TrimSpace s)"

definition FindByUsername :: "bool \<Rightarrow> string \<Rightarrow> auth_db \<Rightarrow> auth_error + User" where
  "FindByUsername fault name db =
     (if fault then Inl ErrAuthDriver
      else case find (\<lambda>u. ToLower (u_Username u) = normalizeUsername name \<and> \<not> ur_Deleted u) (au_users db) of
        None \<Rightarrow> Inl ErrAuthNotFound | Some u \<Rightarrow> Inr (User.truncate u))"

definition by_id :: "uuid \<Rightarrow> user_row \<Rightarrow> bool" where
  "by_id i u \<longleftrightarrow> u_ID u = i \<and> \<not> ur_Deleted u"

definition FindByID :: "bool \<Rightarrow> uuid \<Rightarrow> auth_db \<Rightarrow> auth_error + User" where
  "FindByID fault i db =
     (if fault then Inl ErrAuthDriver
      else case find (by_id i) (au_users db) of None \<Rightarrow> Inl ErrAuthNotFound | Some u \<Rightarrow> Inr (User.truncate u))"

text \<open>The constraints \<^verbatim>\<open>users_username_format\<close>, \<^verbatim>\<open>users_username_active_key\<close> and \<^verbatim>\<open>users_single_admin_key\<close>.\<close>

definition username_format :: "string \<Rightarrow> bool" where
  "username_format s \<longleftrightarrow> 3 \<le> length s \<and> length s \<le> 64 \<and>
     list_all (\<lambda>c. lower_letter c \<or> (65 \<le> byte c \<and> byte c \<le> 90) \<or> digit c \<or> c = CHR ''.'' \<or> c = CHR ''_'' \<or> c = CHR ''-'') s"

definition insert_user :: "uuid \<Rightarrow> time \<Rightarrow> Status \<Rightarrow> CreateUserParams \<Rightarrow> auth_db \<Rightarrow> auth_error + (User \<times> auth_db)" where
  "insert_user newID now st p db =
     (let name = normalizeUsername (cu_Username p);
          u = \<lparr>u_ID = newID, u_Username = name, u_DisplayName = cu_DisplayName p, u_Role = cu_Role p, u_Status = st,
               u_PasswordHash = cu_PasswordHash p, u_MustChangePassword = cu_MustChangePassword p, u_CreatedAt = now, ur_Deleted = False\<rparr>
      in if \<not> username_format name \<or> list_ex (\<lambda>x. u_ID x = newID) (au_users db) then Inl ErrAuthDriver
         else if list_ex (\<lambda>x. ToLower (u_Username x) = ToLower name \<and> \<not> ur_Deleted x) (au_users db) then Inl ErrAuthConflict
         else if cu_Role p = RoleAdmin \<and> list_ex (\<lambda>x. u_Role x = RoleAdmin \<and> \<not> ur_Deleted x) (au_users db) then Inl ErrAuthConflict
         else Inr (User.truncate u, db\<lparr>au_users := au_users db @ [u]\<rparr>))"

definition Create_user :: "bool \<Rightarrow> uuid \<Rightarrow> time \<Rightarrow> CreateUserParams \<Rightarrow> auth_db \<Rightarrow> (auth_error + User) \<times> auth_db" where
  "Create_user fault newID now p = transact fault ErrAuthDriver (insert_user newID now (case cu_Status p of None \<Rightarrow> StatusActive | Some st \<Rightarrow> st) p)"

definition set_password :: "uuid \<Rightarrow> string \<Rightarrow> bool \<Rightarrow> auth_db \<Rightarrow> auth_db" where
  "set_password i h must db = db\<lparr>au_users := update_where (by_id i) (\<lambda>u. u\<lparr>u_PasswordHash := h, u_MustChangePassword := must\<rparr>) (au_users db)\<rparr>"

definition UpdatePassword :: "bool \<Rightarrow> uuid \<Rightarrow> string \<Rightarrow> bool \<Rightarrow> auth_db \<Rightarrow> auth_error option \<times> auth_db" where
  "UpdatePassword fault i h must db =
     (if fault then (Some ErrAuthDriver, db)
      else if rows_affected (by_id i) (au_users db) = 0 then (Some ErrAuthNotFound, db)
      else (None, set_password i h must db))"

definition set_status :: "uuid \<Rightarrow> Status \<Rightarrow> auth_db \<Rightarrow> auth_db" where
  "set_status i st db = db\<lparr>au_users := update_where (by_id i) (\<lambda>u. u\<lparr>u_Status := st\<rparr>) (au_users db)\<rparr>"

definition SetStatus_user :: "bool \<Rightarrow> uuid \<Rightarrow> Status \<Rightarrow> auth_db \<Rightarrow> auth_error option \<times> auth_db" where
  "SetStatus_user fault i st db =
     (if fault then (Some ErrAuthDriver, db)
      else if rows_affected (by_id i) (au_users db) = 0 then (Some ErrAuthNotFound, db)
      else (None, set_status i st db))"

definition ListStudents :: "bool \<Rightarrow> int \<Rightarrow> uuid \<Rightarrow> auth_db \<Rightarrow> auth_error + User list" where
  "ListStudents fault limit afterID db =
     (if fault then Inl ErrAuthDriver
      else Inr (map User.truncate (take (nat (min 100 (max 1 limit)))
        (sort_key u_ID (filter (\<lambda>u. u_Role u = RoleStudent \<and> \<not> ur_Deleted u \<and> (afterID = uuid_Nil \<or> u_ID u > afterID)) (au_users db))))))"

section \<open>Sessions\<close>

text \<open>Primary key, unique token hash, and the reference to the user.\<close>

definition insert_session :: "CreateSessionParams \<Rightarrow> auth_db \<Rightarrow> auth_db option" where
  "insert_session p db =
     (if list_ex (\<lambda>s. se_ID s = se_ID p \<or> se_TokenHash s = se_TokenHash p) (au_sessions db) \<or> \<not> list_ex (\<lambda>u. u_ID u = se_UserID p) (au_users db)
      then None
      else Some (db\<lparr>au_sessions := au_sessions db @ [CreateSessionParams.extend p (Session.fields None None)]\<rparr>))"

text \<open>\<open>spare\<close> replaces a missing identifier.\<close>

definition Create_session :: "bool \<Rightarrow> uuid \<Rightarrow> CreateSessionParams \<Rightarrow> auth_db \<Rightarrow> auth_error option \<times> auth_db" where
  "Create_session fault spare p db =
     (case insert_session (if se_ID p = uuid_Nil then p\<lparr>se_ID := spare\<rparr> else p) db of
        None \<Rightarrow> (Some ErrAuthDriver, db)
      | Some db' \<Rightarrow> if fault then (Some ErrAuthDriver, db) else (None, db'))"

definition usable :: "time \<Rightarrow> Session \<Rightarrow> bool" where
  "usable now s \<longleftrightarrow> se_RevokedAt s = None \<and> se_IdleExpiresAt s > now \<and> se_AbsoluteExpiresAt s > now"

definition FindActiveByTokenHash :: "bool \<Rightarrow> string \<Rightarrow> time \<Rightarrow> auth_db \<Rightarrow> auth_error + (Session \<times> User)" where
  "FindActiveByTokenHash fault h now db =
     (if fault then Inl ErrAuthDriver
      else case find (\<lambda>s. se_TokenHash s = h \<and> usable now s) (au_sessions db) of
        None \<Rightarrow> Inl ErrAuthNotFound
      | Some s \<Rightarrow> (case find (by_id (se_UserID s)) (au_users db) of
          None \<Rightarrow> Inl ErrAuthNotFound | Some u \<Rightarrow> Inr (s, User.truncate u)))"

definition touched :: "time \<Rightarrow> time \<Rightarrow> Session \<Rightarrow> Session" where
  "touched lastSeen idle s =
     (if se_LastSeenAt s \<le> lastSeen - 5 * Minute
      then s\<lparr>se_LastSeenAt := lastSeen, se_IdleExpiresAt := min idle (se_AbsoluteExpiresAt s)\<rparr> else s)"

definition Touch :: "bool \<Rightarrow> uuid \<Rightarrow> time \<Rightarrow> time \<Rightarrow> auth_db \<Rightarrow> auth_error option \<times> auth_db" where
  "Touch fault i lastSeen idle db =
     (let p = (\<lambda>s. se_ID s = i \<and> usable lastSeen s) in
      if fault then (Some ErrAuthDriver, db)
      else if rows_affected p (au_sessions db) = 0 then (Some ErrAuthNotFound, db)
      else (None, db\<lparr>au_sessions := update_where p (touched lastSeen idle) (au_sessions db)\<rparr>))"

definition revoke_where :: "(Session \<Rightarrow> bool) \<Rightarrow> time \<Rightarrow> string \<Rightarrow> auth_db \<Rightarrow> auth_db" where
  "revoke_where p now reason db = db\<lparr>au_sessions := update_where (\<lambda>s. p s \<and> se_RevokedAt s = None)
     (\<lambda>s. s\<lparr>se_RevokedAt := Some now, se_RevokeReason := Some reason\<rparr>) (au_sessions db)\<rparr>"

definition Revoke :: "bool \<Rightarrow> time \<Rightarrow> uuid \<Rightarrow> string \<Rightarrow> auth_db \<Rightarrow> auth_error option \<times> auth_db" where
  "Revoke fault now i reason db =
     (if fault then (Some ErrAuthDriver, db)
      else if rows_affected (\<lambda>s. se_ID s = i \<and> se_RevokedAt s = None) (au_sessions db) = 0 then (Some ErrAuthNotFound, db)
      else (None, revoke_where (\<lambda>s. se_ID s = i) now reason db))"

definition RevokeAllForUser :: "bool \<Rightarrow> time \<Rightarrow> uuid \<Rightarrow> string \<Rightarrow> auth_db \<Rightarrow> auth_error option \<times> auth_db" where
  "RevokeAllForUser fault now i reason db =
     (if fault then (Some ErrAuthDriver, db) else (None, revoke_where (\<lambda>s. se_UserID s = i) now reason db))"

text \<open>\<open>now\<close> is the caller's clock, \<open>dbnow\<close> the database's.\<close>

definition RevokeAllExceptForUser :: "bool \<Rightarrow> time \<Rightarrow> uuid \<Rightarrow> uuid \<Rightarrow> time \<Rightarrow> string \<Rightarrow> auth_db \<Rightarrow> (auth_error + unit) \<times> auth_db" where
  "RevokeAllExceptForUser fault dbnow user except now reason = transact fault ErrAuthDriver (\<lambda>db.
     case find (\<lambda>s. se_ID s = except \<and> se_UserID s = user \<and> usable now s) (au_sessions db) of
       None \<Rightarrow> Inl ErrAuthNotFound
     | Some kept \<Rightarrow> Inr ((), revoke_where (\<lambda>s. se_UserID s = user \<and> se_ID s \<noteq> se_ID kept) dbnow reason db))"

definition RecordLoginEvent :: "bool \<Rightarrow> LoginEvent \<Rightarrow> auth_db \<Rightarrow> auth_error option \<times> auth_db" where
  "RecordLoginEvent fault e db =
     (if fault then (Some ErrAuthDriver, db)
      else (None, db\<lparr>au_login_events := au_login_events db @ [e\<lparr>ln_Username := normalizeUsername (ln_Username e)\<rparr>]\<rparr>))"

definition RotatePassword :: "bool \<Rightarrow> time \<Rightarrow> PasswordRotationParams \<Rightarrow> auth_db \<Rightarrow> (auth_error + unit) \<times> auth_db" where
  "RotatePassword fault dbnow p db =
     (if pw_UserID p = uuid_Nil \<or> se_UserID (pw_ReplacementSession p) \<noteq> pw_UserID p \<or> se_ID (pw_ReplacementSession p) = uuid_Nil
      then (Inl ErrAuthConflict, db)
      else transact fault ErrAuthDriver (\<lambda>db.
        case find (by_id (pw_UserID p)) (au_users db) of
          None \<Rightarrow> Inl ErrAuthNotFound
        | Some u \<Rightarrow>
            if u_Status u \<noteq> StatusActive \<or> u_PasswordHash u \<noteq> pw_ExpectedPasswordHash p then Inl ErrAuthConflict
            else if rows_affected (by_id (pw_UserID p)) (au_users db) \<noteq> 1 then Inl ErrAuthConflict
            else case insert_session (pw_ReplacementSession p)
                   (revoke_where (\<lambda>s. se_UserID s = pw_UserID p) dbnow ''password changed''
                     (set_password (pw_UserID p) (pw_PasswordHash p) (pw_MustChangePassword p) db)) of
                None \<Rightarrow> Inl ErrAuthDriver
              | Some db' \<Rightarrow> Inr ((), db')) db)"

end
