(* ===== verification/Auth_Service.thy ===== *)
theory Auth_Service
  imports Auth_Store
begin

text \<open>
  \<^verbatim>\<open>auth/service.go\<close>, \<^verbatim>\<open>auth/token.go\<close>, \<^verbatim>\<open>students/service.go\<close> and the middleware of \<^verbatim>\<open>auth/http.go\<close>:
  logging in, authenticating a request, changing a password, logging out, and the administration of
  students. The hash \<^verbatim>\<open>sha256\<close> and the key derivation are parameters of the service; a fresh token is an
  argument, nothing when the random generator fails. The comparison with a dummy hash for an
  unknown user only takes time and is not modelled.
\<close>

section \<open>Sessions of the service\<close>

definition sessionIdleTTL :: duration where "sessionIdleTTL = 7 * 24 * Hour"
definition sessionAbsoluteTTL :: duration where "sessionAbsoluteTTL = 30 * 24 * Hour"
definition sessionTouchPeriod :: duration where "sessionTouchPeriod = 5 * Minute"

record auth_service =
  sv_IDKey :: idkey
  sv_Argon2 :: Argon2Params
  sv_sha256 :: "string \<Rightarrow> string"

record LoginInput =
  li_Username :: string
  li_Password :: string
  li_IP :: "string option"
  li_UserAgent :: string

record ChangePasswordInput =
  cp_SessionToken :: string
  cp_CurrentPassword :: string
  cp_NewPassword :: string
  cp_IP :: "string option"
  cp_UserAgent :: string

definition newSession :: "auth_service \<Rightarrow> string \<Rightarrow> uuid \<Rightarrow> time \<Rightarrow> uuid \<Rightarrow> string option \<Rightarrow> string \<Rightarrow> CreateSessionParams" where
  "newSession sv raw newID now user ip agent =
     \<lparr>se_ID = newID, se_UserID = user, se_TokenHash = sv_sha256 sv raw, se_UserAgent = agent, se_IP = ip, se_CreatedAt = now,
      se_LastSeenAt = now, se_IdleExpiresAt = now + sessionIdleTTL, se_AbsoluteExpiresAt = now + sessionAbsoluteTTL\<rparr>"

definition fresh_session :: "CreateSessionParams \<Rightarrow> Session" where
  "fresh_session p = CreateSessionParams.extend p (Session.fields None None)"

section \<open>Login\<close>

text \<open>The first half of \<^verbatim>\<open>Login\<close>, up to the decision. A refusal carries what is recorded about it;
  when the user cannot be read nothing is recorded.\<close>

definition check_credentials :: "auth_service \<Rightarrow> bool \<Rightarrow> LoginInput \<Rightarrow> auth_db \<Rightarrow> ((uuid option \<times> string) option) + User" where
  "check_credentials sv fault i db =
     (case FindByUsername fault (normalizeUsername (li_Username i)) db of
        Inl ErrAuthNotFound \<Rightarrow> Inl (Some (None, ''unknown_user''))
      | Inl _ \<Rightarrow> Inl None
      | Inr u \<Rightarrow>
          if \<not> Compare (sv_IDKey sv) (u_PasswordHash u) (li_Password i) then Inl (Some (Some (u_ID u), ''invalid_password''))
          else if u_Status u \<noteq> StatusActive then Inl (Some (Some (u_ID u), ''disabled''))
          else Inr u)"

definition login_event :: "LoginInput \<Rightarrow> uuid option \<Rightarrow> bool \<Rightarrow> string \<Rightarrow> time \<Rightarrow> LoginEvent" where
  "login_event i user success reason now =
     \<lparr>ln_UserID = user, ln_Username = normalizeUsername (li_Username i), ln_Success = success, ln_Reason = reason,
      ln_IP = li_IP i, ln_UserAgent = li_UserAgent i, ln_OccurredAt = now\<rparr>"

text \<open>What a login meets: failing store calls, a fresh identifier and token, and the clocks.\<close>

record login_env =
  le_find_fault :: bool
  le_create_fault :: bool
  le_event_fault :: bool
  le_revoke_fault :: bool
  le_id :: uuid
  le_token :: "string option"
  le_now :: time
  le_event_now :: time
  le_db_now :: time

text \<open>The second half: the session, then the login event; without the event the session is revoked.\<close>

definition finish_login ::
  "auth_service \<Rightarrow> login_env \<Rightarrow> LoginInput \<Rightarrow> User \<Rightarrow> auth_db \<Rightarrow> (auth_error + (User \<times> Session \<times> string)) \<times> auth_db" where
  "finish_login sv en i u db =
     (case le_token en of
        None \<Rightarrow> (Inl ErrTokenEntropy, db)
      | Some raw \<Rightarrow>
          (let p = newSession sv raw (le_id en) (le_now en) (u_ID u) (li_IP i) (li_UserAgent i) in
           case Create_session (le_create_fault en) (le_id en) p db of
             (Some e, db1) \<Rightarrow> (Inl e, db1)
           | (None, db1) \<Rightarrow>
               (case RecordLoginEvent (le_event_fault en) (login_event i (Some (u_ID u)) True ''success'' (le_event_now en)) db1 of
                  (Some e, db2) \<Rightarrow> (Inl ErrInvalidCredentials, snd (Revoke (le_revoke_fault en) (le_db_now en) (le_id en) ''login event failed'' db2))
                | (None, db2) \<Rightarrow> (Inr (u, fresh_session p, raw), db2))))"

definition Login :: "auth_service \<Rightarrow> login_env \<Rightarrow> LoginInput \<Rightarrow> auth_db \<Rightarrow> (auth_error + (User \<times> Session \<times> string)) \<times> auth_db" where
  "Login sv en i db =
     (case check_credentials sv (le_find_fault en) i db of
        Inl None \<Rightarrow> (Inl ErrInvalidCredentials, db)
      | Inl (Some (user, reason)) \<Rightarrow> (Inl ErrInvalidCredentials, snd (RecordLoginEvent (le_event_fault en) (login_event i user False reason (le_event_now en)) db))
      | Inr u \<Rightarrow> finish_login sv en i u db)"

section \<open>Authentication\<close>

definition touch_expiry :: "time \<Rightarrow> Session \<Rightarrow> time" where
  "touch_expiry now s = (if now + sessionIdleTTL > se_AbsoluteExpiresAt s then se_AbsoluteExpiresAt s else now + sessionIdleTTL)"

definition Authenticate ::
  "auth_service \<Rightarrow> bool \<Rightarrow> bool \<Rightarrow> time \<Rightarrow> string \<Rightarrow> auth_db \<Rightarrow> (auth_error + (User \<times> Session)) \<times> auth_db" where
  "Authenticate sv find_fault touch_fault now raw db =
     (if raw = [] then (Inl ErrUnauthenticated, db)
      else case FindActiveByTokenHash find_fault (sv_sha256 sv raw) now db of
        Inl e \<Rightarrow> (Inl ErrUnauthenticated, db)
      | Inr (s, u) \<Rightarrow>
          if u_Status u \<noteq> StatusActive then (Inl ErrUnauthenticated, db)
          else if now - se_LastSeenAt s \<ge> sessionTouchPeriod
          then (case Touch touch_fault (se_ID s) now (touch_expiry now s) db of
                  (Some e, db1) \<Rightarrow> (Inl ErrUnauthenticated, db1)
                | (None, db1) \<Rightarrow> (Inr (u, s\<lparr>se_LastSeenAt := now, se_IdleExpiresAt := touch_expiry now s\<rparr>), db1))
          else (Inr (u, s), db))"

record auth_env =
  ae_find_fault :: bool
  ae_touch_fault :: bool
  ae_store_fault :: bool
  ae_now :: time
  ae_later :: time
  ae_db_now :: time

text \<open>\<open>salt\<close> and \<open>token\<close> are drawn from the random generator.\<close>

definition ChangePassword ::
  "auth_service \<Rightarrow> auth_env \<Rightarrow> string option \<Rightarrow> string option \<Rightarrow> uuid \<Rightarrow> ChangePasswordInput \<Rightarrow> auth_db \<Rightarrow>
     (auth_error + (User \<times> Session \<times> string)) \<times> auth_db" where
  "ChangePassword sv en salt token newID i db =
     (case Authenticate sv (ae_find_fault en) (ae_touch_fault en) (ae_now en) (cp_SessionToken i) db of
        (Inl e, db1) \<Rightarrow> (Inl e, db1)
      | (Inr (u, _), db1) \<Rightarrow>
          if \<not> Compare (sv_IDKey sv) (u_PasswordHash u) (cp_CurrentPassword i) then (Inl ErrInvalidCredentials, db1)
          else case ValidatePassword (cp_NewPassword i) of
            Some e \<Rightarrow> (Inl (ErrPassword e), db1)
          | None \<Rightarrow>
              (case Hash (sv_IDKey sv) (sv_Argon2 sv) salt (cp_NewPassword i) of
                 None \<Rightarrow> (Inl ErrHashing, db1)
               | Some newHash \<Rightarrow>
                   (case token of
                      None \<Rightarrow> (Inl ErrTokenEntropy, db1)
                    | Some raw \<Rightarrow>
                        (let p = newSession sv raw newID (ae_later en) (u_ID u) (cp_IP i) (cp_UserAgent i) in
                         case RotatePassword (ae_store_fault en) (ae_db_now en)
                                \<lparr>pw_UserID = u_ID u, pw_ExpectedPasswordHash = u_PasswordHash u, pw_PasswordHash = newHash,
                                 pw_MustChangePassword = False, pw_ReplacementSession = p\<rparr> db1 of
                           (Inl e, db2) \<Rightarrow> (Inl ErrInvalidCredentials, db2)
                         | (Inr _, db2) \<Rightarrow> (Inr (u\<lparr>u_PasswordHash := newHash, u_MustChangePassword := False\<rparr>, fresh_session p, raw), db2)))))"

definition Logout :: "auth_service \<Rightarrow> auth_env \<Rightarrow> string \<Rightarrow> auth_db \<Rightarrow> auth_error option \<times> auth_db" where
  "Logout sv en raw db =
     (case Authenticate sv (ae_find_fault en) (ae_touch_fault en) (ae_now en) raw db of
        (Inl e, db1) \<Rightarrow> (Some e, db1)
      | (Inr (_, s), db1) \<Rightarrow>
          (case Revoke (ae_store_fault en) (ae_db_now en) (se_ID s) ''logout'' db1 of
             (Some ErrAuthNotFound, db2) \<Rightarrow> (None, db2)
           | (Some e, db2) \<Rightarrow> (Some e, db2)
           | (None, db2) \<Rightarrow> (None, db2)))"

definition LogoutOthers :: "auth_service \<Rightarrow> auth_env \<Rightarrow> string \<Rightarrow> auth_db \<Rightarrow> auth_error option \<times> auth_db" where
  "LogoutOthers sv en raw db =
     (case Authenticate sv (ae_find_fault en) (ae_touch_fault en) (ae_now en) raw db of
        (Inl e, db1) \<Rightarrow> (Some e, db1)
      | (Inr (u, s), db1) \<Rightarrow>
          (case RevokeAllExceptForUser (ae_store_fault en) (ae_db_now en) (u_ID u) (se_ID s) (ae_later en) ''logout others'' db1 of
             (Inl ErrAuthNotFound, db2) \<Rightarrow> (Some ErrUnauthenticated, db2)
           | (Inl e, db2) \<Rightarrow> (Some e, db2)
           | (Inr _, db2) \<Rightarrow> (None, db2)))"

section \<open>Requests\<close>

text \<open>\<^verbatim>\<open>Handler.Authenticate\<close> and \<^verbatim>\<open>RequireRole\<close>: the request is refused with a status, or passed on with
  the user and the session of its one session cookie.\<close>

datatype gate_answer = Refused nat string | Passed User uuid

definition passwordChangeAllowed :: "string \<Rightarrow> bool" where
  "passwordChangeAllowed path \<longleftrightarrow> path = ''/api/v1/auth/me'' \<or> path = ''/api/v1/auth/change-password'' \<or> path = ''/api/v1/auth/logout''"

definition sessionCookie :: "(string \<times> string) list \<Rightarrow> string option" where
  "sessionCookie cookies = (case filter (\<lambda>c. fst c = ''hl_session'') cookies of
     [(_, v)] \<Rightarrow> if v = [] then None else Some v | _ \<Rightarrow> None)"

definition Authenticate_request ::
  "auth_service \<Rightarrow> bool \<Rightarrow> bool \<Rightarrow> time \<Rightarrow> (string \<times> string) list \<Rightarrow> string \<Rightarrow> auth_db \<Rightarrow> gate_answer \<times> auth_db" where
  "Authenticate_request sv find_fault touch_fault now cookies path db =
     (case sessionCookie cookies of
        None \<Rightarrow> (Refused 401 ''unauthenticated'', db)
      | Some raw \<Rightarrow>
          (case Authenticate sv find_fault touch_fault now raw db of
             (Inl e, db1) \<Rightarrow> (Refused 401 ''unauthenticated'', db1)
           | (Inr (u, s), db1) \<Rightarrow>
               if u_Status u \<noteq> StatusActive then (Refused 401 ''unauthenticated'', db1)
               else if u_MustChangePassword u \<and> \<not> passwordChangeAllowed path then (Refused 403 ''password_change_required'', db1)
               else (Passed u (se_ID s), db1)))"

definition RequireRole :: "Role \<Rightarrow> gate_answer \<Rightarrow> gate_answer" where
  "RequireRole role a = (case a of
     Refused n c \<Rightarrow> Refused n c
   | Passed u s \<Rightarrow> if u_Role u \<noteq> role then Refused 403 ''forbidden'' else Passed u s)"

section \<open>Student administration\<close>

definition authorize_students :: "Principal \<Rightarrow> bool" where
  "authorize_students a \<longleftrightarrow> \<not> (u_Role (p_User a) \<noteq> RoleAdmin \<or> u_ID (p_User a) = uuid_Nil \<or> u_Status (p_User a) \<noteq> StatusActive \<or>
     TrimSpace (p_RequestID a) = [] \<or> p_IP a = None)"

text \<open>\<^verbatim>\<open>^[a-z0-9._-]{3,64}$\<close>\<close>

definition validUsername :: "string \<Rightarrow> bool" where
  "validUsername s \<longleftrightarrow> 3 \<le> length s \<and> length s \<le> 64 \<and>
     list_all (\<lambda>c. lower_letter c \<or> digit c \<or> c = CHR ''.'' \<or> c = CHR ''_'' \<or> c = CHR ''-'') s"

definition validDisplayName_student :: "string \<Rightarrow> bool" where
  "validDisplayName_student s \<longleftrightarrow> ValidString s \<and> RuneCount s \<ge> 1 \<and> RuneCount s \<le> 64 \<and> TrimSpace s \<noteq> []"

record CreateInput =
  ci_Username :: string
  ci_DisplayName :: string
  ci_TemporaryPassword :: string

text \<open>What the administration uses of its surroundings: the text of identifiers, and whether a call fails.\<close>

record students_env =
  st_parse :: "string \<Rightarrow> uuid option"
  st_render :: "uuid \<Rightarrow> string"
  st_fault :: bool
  st_next :: int
  st_now :: time

definition student_event :: "students_env \<Rightarrow> Principal \<Rightarrow> string \<Rightarrow> uuid \<Rightarrow> (string \<times> meta_value) list \<Rightarrow> Event_audit" where
  "student_event en actor action target m = \<lparr>ev_ActorUserID = u_ID (p_User actor), ev_Action = action, ev_TargetType = ''student'',
     ev_TargetID = st_render en target, ev_Metadata = m, ev_RequestID = p_RequestID actor, ev_IP = p_IP actor\<rparr>"

definition write_audit :: "students_env \<Rightarrow> Event_audit \<Rightarrow> 'a \<Rightarrow> auth_db \<Rightarrow> auth_error + ('a \<times> auth_db)" where
  "write_audit en e x db =
     (case Write (st_parse en) (st_render en) False (st_next en) (st_now en) e (au_log db) of
        (Some er, _) \<Rightarrow> Inl (ErrAudit er) | (None, log) \<Rightarrow> Inr (x, db\<lparr>au_log := log\<rparr>))"

definition targetStudent :: "uuid \<Rightarrow> auth_db \<Rightarrow> auth_error + User" where
  "targetStudent i db = (case FindByID False i db of
     Inl e \<Rightarrow> Inl e | Inr u \<Rightarrow> if u_Role u \<noteq> RoleStudent then Inl ErrStudentForbidden else Inr u)"

definition List_students :: "bool \<Rightarrow> Principal \<Rightarrow> int \<Rightarrow> uuid \<Rightarrow> auth_db \<Rightarrow> auth_error + (User list \<times> uuid)" where
  "List_students fault actor limit after db =
     (if \<not> authorize_students actor then Inl ErrStudentForbidden
      else if limit < 1 \<or> limit > 100 then Inl ErrStudentInvalid
      else case ListStudents fault limit after db of
        Inl e \<Rightarrow> Inl e | Inr us \<Rightarrow> Inr (us, if int (length us) = limit then u_ID (last us) else uuid_Nil))"

definition Create_student ::
  "auth_service \<Rightarrow> students_env \<Rightarrow> string option \<Rightarrow> uuid \<Rightarrow> Principal \<Rightarrow> CreateInput \<Rightarrow> auth_db \<Rightarrow> (auth_error + User) \<times> auth_db" where
  "Create_student sv en salt newID actor i db =
     (if \<not> authorize_students actor then (Inl ErrStudentForbidden, db)
      else let name = normalizeUsername (ci_Username i) in
        if \<not> validUsername name \<or> \<not> validDisplayName_student (ci_DisplayName i) \<or> ValidatePassword (ci_TemporaryPassword i) \<noteq> None
        then (Inl ErrStudentInvalid, db)
        else case Hash (sv_IDKey sv) (sv_Argon2 sv) salt (ci_TemporaryPassword i) of
          None \<Rightarrow> (Inl ErrHashing, db)
        | Some h \<Rightarrow> transact (st_fault en) ErrAuthDriver (\<lambda>db.
            case insert_user newID (st_now en) StatusActive \<lparr>cu_Username = name, cu_DisplayName = ci_DisplayName i, cu_Role = RoleStudent,
                   cu_Status = Some StatusActive, cu_PasswordHash = h, cu_MustChangePassword = True\<rparr> db of
              Inl e \<Rightarrow> Inl e
            | Inr (u, db1) \<Rightarrow> write_audit en (student_event en actor ''student.created'' (u_ID u)
                [(''username'', MString (u_Username u)), (''display_name'', MString (u_DisplayName u))]) u db1) db)"

definition status_name :: "Status \<Rightarrow> string" where
  "status_name st = (case st of StatusActive \<Rightarrow> ''active'' | StatusDisabled \<Rightarrow> ''disabled'')"

definition SetStatus_student :: "students_env \<Rightarrow> Principal \<Rightarrow> uuid \<Rightarrow> Status \<Rightarrow> auth_db \<Rightarrow> (auth_error + unit) \<times> auth_db" where
  "SetStatus_student en actor i st db =
     (if \<not> authorize_students actor then (Inl ErrStudentForbidden, db)
      else if i = uuid_Nil then (Inl ErrStudentInvalid, db)
      else transact (st_fault en) ErrAuthDriver (\<lambda>db.
        case targetStudent i db of
          Inl e \<Rightarrow> Inl e
        | Inr u \<Rightarrow>
            if rows_affected (by_id (u_ID u)) (au_users db) \<noteq> 1 then Inl ErrAuthNotFound
            else let db1 = set_status (u_ID u) st db;
                     db2 = (if st = StatusDisabled then revoke_where (\<lambda>s. se_UserID s = u_ID u) (st_now en) ''student disabled'' db1 else db1)
                 in write_audit en (student_event en actor (if st = StatusDisabled then ''student.disabled'' else ''student.enabled'') (u_ID u)
                      [(''status'', MString (status_name st))]) () db2) db)"

definition ResetPassword ::
  "auth_service \<Rightarrow> students_env \<Rightarrow> string option \<Rightarrow> Principal \<Rightarrow> uuid \<Rightarrow> string \<Rightarrow> auth_db \<Rightarrow> (auth_error + unit) \<times> auth_db" where
  "ResetPassword sv en salt actor i password db =
     (if \<not> authorize_students actor then (Inl ErrStudentForbidden, db)
      else if i = uuid_Nil \<or> ValidatePassword password \<noteq> None then (Inl ErrStudentInvalid, db)
      else case Hash (sv_IDKey sv) (sv_Argon2 sv) salt password of
        None \<Rightarrow> (Inl ErrHashing, db)
      | Some h \<Rightarrow> transact (st_fault en) ErrAuthDriver (\<lambda>db.
          case targetStudent i db of
            Inl e \<Rightarrow> Inl e
          | Inr u \<Rightarrow>
              if rows_affected (by_id (u_ID u)) (au_users db) \<noteq> 1 then Inl ErrAuthNotFound
              else write_audit en (student_event en actor ''student.password_reset'' (u_ID u) []) ()
                     (revoke_where (\<lambda>s. se_UserID s = u_ID u) (st_now en) ''password reset'' (set_password (u_ID u) h True db))) db)"

end
