(* ===== verification/Auth_Machine.thy ===== *)
theory Auth_Machine
  imports Auth_Service
begin

text \<open>
  The interleavings of the authentication store's transactions as a step relation, the invariant of
  its tables, and what follows for tokens: how long a session lives, that a revoked token is dead
  for good, that a password change or a disabled account ends the sessions that exist, and the one gap that
  remains because a login checks the password and creates its session in separate transactions.
\<close>

section \<open>Invariant\<close>

definition session_ok :: "Session \<Rightarrow> bool" where
  "session_ok s \<longleftrightarrow> se_CreatedAt s \<le> se_LastSeenAt s \<and> se_AbsoluteExpiresAt s = se_CreatedAt s + sessionAbsoluteTTL \<and>
     se_IdleExpiresAt s = min (se_LastSeenAt s + sessionIdleTTL) (se_AbsoluteExpiresAt s)"

definition users_ok :: "user_row list \<Rightarrow> bool" where
  "users_ok us \<longleftrightarrow> keyed u_ID us \<and>
     (\<forall>x \<in> set us. \<forall>y \<in> set us. \<not> ur_Deleted x \<and> \<not> ur_Deleted y \<and> ToLower (u_Username x) = ToLower (u_Username y) \<longrightarrow> x = y) \<and>
     (\<forall>x \<in> set us. \<forall>y \<in> set us. \<not> ur_Deleted x \<and> \<not> ur_Deleted y \<and> u_Role x = RoleAdmin \<and> u_Role y = RoleAdmin \<longrightarrow> x = y)"

definition auth_inv :: "auth_db \<Rightarrow> bool" where
  "auth_inv db \<longleftrightarrow> users_ok (au_users db) \<and> keyed se_ID (au_sessions db) \<and> keyed se_TokenHash (au_sessions db) \<and>
     (\<forall>s \<in> set (au_sessions db). session_ok s \<and> (\<exists>u \<in> set (au_users db). u_ID u = se_UserID s))"

lemma auth_invD:
  assumes "auth_inv db"
  shows "users_ok (au_users db)" "keyed se_ID (au_sessions db)" "keyed se_TokenHash (au_sessions db)"
    and "s \<in> set (au_sessions db) \<Longrightarrow> session_ok s"
  using assms by (auto simp: auth_inv_def)

definition session_identity :: "Session \<Rightarrow> uuid \<times> uuid \<times> string \<times> time \<times> time" where
  "session_identity s = (se_ID s, se_UserID s, se_TokenHash s, se_CreatedAt s, se_AbsoluteExpiresAt s)"

definition sessions_kept :: "auth_db \<Rightarrow> auth_db \<Rightarrow> bool" where
  "sessions_kept db db' \<longleftrightarrow> (\<forall>s \<in> set (au_sessions db). \<exists>s' \<in> set (au_sessions db').
     session_identity s' = session_identity s \<and> (se_RevokedAt s \<noteq> None \<longrightarrow> s' = s))"

text \<open>What every transaction does: it keeps the invariant, and it neither removes a session nor
  changes a revoked one.\<close>

definition auth_tx :: "auth_db \<Rightarrow> auth_db \<Rightarrow> bool" where
  "auth_tx db db' \<longleftrightarrow> (auth_inv db \<longrightarrow> auth_inv db' \<and> sessions_kept db db')"

lemma auth_tx_refl [simp]: "auth_tx db db"
  by (auto simp: auth_tx_def sessions_kept_def)

lemma sessions_kept_trans: "sessions_kept a b \<Longrightarrow> sessions_kept b c \<Longrightarrow> sessions_kept a c"
  unfolding sessions_kept_def by metis

lemma auth_tx_trans: "auth_tx a b \<Longrightarrow> auth_tx b c \<Longrightarrow> auth_tx a c"
  using sessions_kept_trans unfolding auth_tx_def by blast

lemma auth_tx_same: "au_users db' = au_users db \<Longrightarrow> au_sessions db' = au_sessions db \<Longrightarrow> auth_tx db db'"
  by (auto simp: auth_tx_def auth_inv_def sessions_kept_def)

lemma transact_tx: "(\<And>x db'. body db = Inr (x, db') \<Longrightarrow> auth_tx db db') \<Longrightarrow> auth_tx db (snd (transact fault e body db))"
  by (auto simp: transact_def split: sum.splits prod.splits)

section \<open>The statements\<close>

lemma update_users_tx:
  assumes "\<And>u. u_ID (g u) = u_ID u" "\<And>u. u_Username (g u) = u_Username u" "\<And>u. u_Role (g u) = u_Role u" "\<And>u. ur_Deleted (g u) = ur_Deleted u"
  shows "auth_tx db (db\<lparr>au_users := update_where p g (au_users db)\<rparr>)"
proof -
  define G where "G r = (if p r then g r else r)" for r
  have G: "u_ID (G r) = u_ID r" "u_Username (G r) = u_Username r" "u_Role (G r) = u_Role r" "ur_Deleted (G r) = ur_Deleted r" for r
    using assms by (simp_all add: G_def)
  have m: "update_where p g (au_users db) = map G (au_users db)" by (simp add: update_where_def G_def)
  have u: "users_ok (update_where p g (au_users db))" if ok: "users_ok (au_users db)"
    unfolding users_ok_def m
  proof (intro conjI ballI impI)
    show "keyed u_ID (map G (au_users db))" using ok by (simp add: users_ok_def keyed_def comp_def G)
  next
    fix x y assume xy: "x \<in> set (map G (au_users db))" "y \<in> set (map G (au_users db))"
      "\<not> ur_Deleted x \<and> \<not> ur_Deleted y \<and> ToLower (u_Username x) = ToLower (u_Username y)"
    then obtain x' y' where "x = G x'" "y = G y'" "x' \<in> set (au_users db)" "y' \<in> set (au_users db)" by auto
    with xy ok have "x' = y'" unfolding users_ok_def by (simp add: G)
    with \<open>x = G x'\<close> \<open>y = G y'\<close> show "x = y" by simp
  next
    fix x y assume xy: "x \<in> set (map G (au_users db))" "y \<in> set (map G (au_users db))"
      "\<not> ur_Deleted x \<and> \<not> ur_Deleted y \<and> u_Role x = RoleAdmin \<and> u_Role y = RoleAdmin"
    then obtain x' y' where "x = G x'" "y = G y'" "x' \<in> set (au_users db)" "y' \<in> set (au_users db)" by auto
    with xy ok have "x' = y'" unfolding users_ok_def by (simp add: G)
    with \<open>x = G x'\<close> \<open>y = G y'\<close> show "x = y" by simp
  qed
  have "\<exists>u' \<in> set (update_where p g (au_users db)). u_ID u' = i" if "u \<in> set (au_users db)" "u_ID u = i" for u i
    using that assms(1) by (auto simp: set_update_where)
  with u show ?thesis unfolding auth_tx_def auth_inv_def sessions_kept_def by fastforce
qed

lemma set_password_tx: "auth_tx db (set_password i h must db)"
  unfolding set_password_def by (rule update_users_tx) simp_all

lemma set_status_tx: "auth_tx db (set_status i st db)"
  unfolding set_status_def by (rule update_users_tx) simp_all

lemma update_sessions_tx:
  assumes "\<And>s. p s \<Longrightarrow> session_identity (g s) = session_identity s" "\<And>s. p s \<Longrightarrow> se_RevokedAt s = None" "\<And>s. p s \<Longrightarrow> session_ok s \<Longrightarrow> session_ok (g s)"
  shows "auth_tx db (db\<lparr>au_sessions := update_where p g (au_sessions db)\<rparr>)"
proof -
  have "keyed se_ID (update_where p g (au_sessions db))" if "keyed se_ID (au_sessions db)"
    using assms(1) that by (intro keyed_update_where) (auto simp: session_identity_def)
  moreover have "keyed se_TokenHash (update_where p g (au_sessions db))" if "keyed se_TokenHash (au_sessions db)"
    using assms(1) that by (intro keyed_update_where) (auto simp: session_identity_def)
  moreover have "sessions_kept db (db\<lparr>au_sessions := update_where p g (au_sessions db)\<rparr>)"
    unfolding sessions_kept_def
  proof
    fix s assume s: "s \<in> set (au_sessions db)"
    then have "(if p s then g s else s) \<in> set (update_where p g (au_sessions db))" by (auto simp: set_update_where)
    moreover have "session_identity (if p s then g s else s) = session_identity s" using assms(1) by simp
    moreover have "se_RevokedAt s \<noteq> None \<longrightarrow> (if p s then g s else s) = s" using assms(2) by auto
    ultimately show "\<exists>s' \<in> set (au_sessions (db\<lparr>au_sessions := update_where p g (au_sessions db)\<rparr>)).
        session_identity s' = session_identity s \<and> (se_RevokedAt s \<noteq> None \<longrightarrow> s' = s)" by force
  qed
  ultimately show ?thesis using assms(1,3) unfolding auth_tx_def auth_inv_def by (fastforce simp: set_update_where session_identity_def)
qed

lemma revoke_where_tx: "auth_tx db (revoke_where p now reason db)"
  unfolding revoke_where_def by (rule update_sessions_tx) (auto simp: session_identity_def session_ok_def)

lemma insert_session_tx:
  assumes "insert_session p db = Some db'" and "session_ok (fresh_session p)"
  shows "auth_tx db db'"
proof -
  have db': "db' = db\<lparr>au_sessions := au_sessions db @ [fresh_session p]\<rparr>"
    and new: "\<forall>s \<in> set (au_sessions db). se_ID s \<noteq> se_ID p \<and> se_TokenHash s \<noteq> se_TokenHash p" "\<exists>u \<in> set (au_users db). u_ID u = se_UserID p"
    using assms(1) by (auto simp: insert_session_def fresh_session_def list_ex_iff split: if_splits)
  have f: "se_ID (fresh_session p) = se_ID p" "se_TokenHash (fresh_session p) = se_TokenHash p" "se_UserID (fresh_session p) = se_UserID p"
    by (simp_all add: fresh_session_def CreateSessionParams.defs Session.defs)
  show ?thesis
    using new assms(2) unfolding db' auth_tx_def auth_inv_def sessions_kept_def by (auto simp: f intro!: keyed_append1)
qed

lemma new_session_ok: "session_ok (fresh_session (newSession sv raw newID now user ip agent))"
  by (simp add: session_ok_def fresh_session_def newSession_def CreateSessionParams.defs Session.defs sessionIdleTTL_def sessionAbsoluteTTL_def)

lemma insert_user_tx:
  assumes "insert_user newID now st p db = Inr (u, db')"
  shows "auth_tx db db'"
proof -
  let ?name = "normalizeUsername (cu_Username p)"
  from assms obtain x where db': "db' = db\<lparr>au_users := au_users db @ [x]\<rparr>" and x: "u_ID x = newID" "u_Username x = ?name" "u_Role x = cu_Role p" "\<not> ur_Deleted x"
    and new: "\<forall>y \<in> set (au_users db). u_ID y \<noteq> newID" "\<forall>y \<in> set (au_users db). ToLower (u_Username y) = ToLower ?name \<longrightarrow> ur_Deleted y"
      "cu_Role p = RoleAdmin \<longrightarrow> (\<forall>y \<in> set (au_users db). u_Role y = RoleAdmin \<longrightarrow> ur_Deleted y)"
    unfolding insert_user_def Let_def by (auto simp: list_ex_iff split: if_splits)
  have "users_ok (au_users db @ [x])" if "users_ok (au_users db)"
    using that new x unfolding users_ok_def by (auto intro!: keyed_append1)
  then show ?thesis unfolding db' auth_tx_def auth_inv_def sessions_kept_def by fastforce
qed

section \<open>The transactions\<close>

lemma Create_user_tx: "auth_tx db (snd (Create_user fault newID now p db))"
  unfolding Create_user_def by (rule transact_tx) (rule insert_user_tx)

lemma UpdatePassword_tx: "auth_tx db (snd (UpdatePassword fault i h must db))"
  by (simp add: UpdatePassword_def set_password_tx)

lemma SetStatus_user_tx: "auth_tx db (snd (SetStatus_user fault i st db))"
  by (simp add: SetStatus_user_def set_status_tx)

lemma Create_session_tx:
  "auth_tx db (snd (Create_session fault spare (newSession sv raw newID now user ip agent) db))"
proof -
  have n: "(newSession sv raw newID now user ip agent)\<lparr>se_ID := spare\<rparr> = newSession sv raw spare now user ip agent" by (simp add: newSession_def)
  show ?thesis using insert_session_tx [OF _ new_session_ok] by (auto simp: Create_session_def n split: option.splits)
qed

lemma touched_ok: "session_ok s \<Longrightarrow> session_ok (touched now (touch_expiry now r) s)" if "se_AbsoluteExpiresAt r = se_AbsoluteExpiresAt s"
  using that by (auto simp: session_ok_def touched_def touch_expiry_def)

lemma Touch_tx:
  assumes "r \<in> set (au_sessions db)"
  shows "auth_tx db (snd (Touch fault (se_ID r) now (touch_expiry now r) db))"
proof -
  have row: "s = r" if "auth_inv db" "s \<in> set (au_sessions db)" "se_ID s = se_ID r" for s
    using keyed_inj [OF auth_invD(2) [OF that(1)] that(2) assms that(3)] .
  have e: "update_where (\<lambda>s. se_ID s = se_ID r \<and> usable now s) (touched now (touch_expiry now r)) (au_sessions db) =
      update_where (\<lambda>s. s = r \<and> usable now s) (touched now (touch_expiry now r)) (au_sessions db)" if "auth_inv db"
    unfolding update_where_def using row [OF that] by (intro map_cong) auto
  have "auth_tx db (db\<lparr>au_sessions := update_where (\<lambda>s. s = r \<and> usable now s) (touched now (touch_expiry now r)) (au_sessions db)\<rparr>)"
    by (rule update_sessions_tx) (auto simp: touched_ok usable_def, auto simp: session_identity_def touched_def)
  with e show ?thesis unfolding Touch_def Let_def by (auto simp: auth_tx_def sessions_kept_def)
qed

lemma Revoke_tx: "auth_tx db (snd (Revoke fault now i reason db))"
  by (simp add: Revoke_def revoke_where_tx)

lemma RevokeAllForUser_tx: "auth_tx db (snd (RevokeAllForUser fault now i reason db))"
  by (simp add: RevokeAllForUser_def revoke_where_tx)

lemma RevokeAllExcept_tx: "auth_tx db (snd (RevokeAllExceptForUser fault dbnow user except now reason db))"
  unfolding RevokeAllExceptForUser_def by (rule transact_tx) (auto simp: revoke_where_tx split: option.splits)

lemma RecordLoginEvent_tx: "auth_tx db (snd (RecordLoginEvent fault e db))"
  by (simp add: RecordLoginEvent_def auth_tx_same)

lemma RotatePassword_tx:
  assumes "pw_ReplacementSession p = newSession sv raw newID now user ip agent"
  shows "auth_tx db (snd (RotatePassword fault dbnow p db))"
proof -
  have "auth_tx db db'" if "insert_session (pw_ReplacementSession p) (revoke_where q n r (set_password i h m db)) = Some db'" for db' q n r i h m
    using auth_tx_trans [OF auth_tx_trans [OF set_password_tx revoke_where_tx] insert_session_tx [OF that]] new_session_ok assms by simp
  then show ?thesis unfolding RotatePassword_def by (auto intro!: transact_tx split: option.splits if_splits)
qed

lemma write_audit_tx: "write_audit en e x db = Inr (y, db') \<Longrightarrow> auth_tx db db' \<and> au_users db' = au_users db \<and> au_sessions db' = au_sessions db"
  by (auto simp: write_audit_def auth_tx_same split: prod.splits option.splits)

lemma Create_student_tx: "auth_tx db (snd (Create_student sv en salt newID actor i db))"
proof -
  have "auth_tx db db'" if "insert_user newID now st p db = Inr (u, db1)" "write_audit en e u db1 = Inr (y, db')" for now st p u db1 e y db'
    using auth_tx_trans [OF insert_user_tx [OF that(1)]] write_audit_tx [OF that(2)] by blast
  then show ?thesis unfolding Create_student_def Let_def by (auto intro!: transact_tx split: option.splits sum.splits prod.splits)
qed

lemma SetStatus_student_tx: "auth_tx db (snd (SetStatus_student en actor i st db))"
proof -
  have "auth_tx db db'" if "write_audit en e () (revoke_where q n r (set_status j x db)) = Inr (y, db')" for e q n r j x y db'
    using write_audit_tx [OF that] auth_tx_trans [OF set_status_tx revoke_where_tx] auth_tx_trans by blast
  moreover have "auth_tx db db'" if "write_audit en e () (set_status j x db) = Inr (y, db')" for e j x y db'
    using write_audit_tx [OF that] set_status_tx auth_tx_trans by blast
  ultimately show ?thesis unfolding SetStatus_student_def Let_def by (auto intro!: transact_tx split: sum.splits if_splits)
qed

lemma ResetPassword_tx: "auth_tx db (snd (ResetPassword sv en salt actor i password db))"
proof -
  have "auth_tx db db'" if "write_audit en e () (revoke_where q n r (set_password j h m db)) = Inr (y, db')" for e q n r j h m y db'
    using write_audit_tx [OF that] auth_tx_trans [OF set_password_tx revoke_where_tx] auth_tx_trans by blast
  then show ?thesis unfolding ResetPassword_def by (auto intro!: transact_tx split: sum.splits if_splits option.splits)
qed

section \<open>Interleavings\<close>

text \<open>One rule for each transaction. A session is always one that the service built; the row
  of a touch may have been read earlier, but its identity and absolute expiry never change.\<close>

inductive auth_step :: "auth_db \<Rightarrow> auth_db \<Rightarrow> bool" where
  create_user: "auth_step db (snd (Create_user fault newID now p db))"
| update_password: "auth_step db (snd (UpdatePassword fault i h must db))"
| set_user_status: "auth_step db (snd (SetStatus_user fault i st db))"
| create_session: "auth_step db (snd (Create_session fault spare (newSession sv raw newID now user ip agent) db))"
| touch: "r \<in> set (au_sessions db) \<Longrightarrow> auth_step db (snd (Touch fault (se_ID r) now (touch_expiry now r) db))"
| revoke: "auth_step db (snd (Revoke fault now i reason db))"
| revoke_all: "auth_step db (snd (RevokeAllForUser fault now i reason db))"
| revoke_others: "auth_step db (snd (RevokeAllExceptForUser fault dbnow user except now reason db))"
| login_event: "auth_step db (snd (RecordLoginEvent fault e db))"
| rotate: "pw_ReplacementSession p = newSession sv raw newID now user ip agent \<Longrightarrow> auth_step db (snd (RotatePassword fault dbnow p db))"
| create_student: "auth_step db (snd (Create_student sv en salt newID actor ci db))"
| student_status: "auth_step db (snd (SetStatus_student en actor i st db))"
| reset_password: "auth_step db (snd (ResetPassword sv en salt actor i password db))"

definition empty_auth_db :: auth_db where
  "empty_auth_db = \<lparr>au_users = [], au_sessions = [], au_login_events = [], au_log = []\<rparr>"

definition auth_reachable :: "auth_db \<Rightarrow> bool" where
  "auth_reachable db \<longleftrightarrow> auth_step\<^sup>*\<^sup>* empty_auth_db db"

lemmas transaction_tx = Create_user_tx UpdatePassword_tx SetStatus_user_tx Create_session_tx Touch_tx Revoke_tx RevokeAllForUser_tx
  RevokeAllExcept_tx RecordLoginEvent_tx RotatePassword_tx Create_student_tx SetStatus_student_tx ResetPassword_tx

lemma auth_step_tx: "auth_step db db' \<Longrightarrow> auth_tx db db'"
  by (induction rule: auth_step.induct) (auto intro: transaction_tx)

lemma auth_steps_tx: "auth_step\<^sup>*\<^sup>* db db' \<Longrightarrow> auth_tx db db'"
  by (induction rule: rtranclp_induct) (auto intro: auth_tx_trans auth_step_tx)

lemma auth_reachable_inv: "auth_reachable db \<Longrightarrow> auth_inv db"
  using auth_steps_tx [of empty_auth_db db]
  by (auto simp: auth_reachable_def auth_tx_def auth_inv_def users_ok_def keyed_def empty_auth_db_def)

section \<open>Dead tokens\<close>

text \<open>Credentials that, once dead, stay dead: the contract between a store of credentials and whoever
  revokes them.\<close>

locale revocable =
  fixes step :: "'s \<Rightarrow> 's \<Rightarrow> bool" and inv :: "'s \<Rightarrow> bool" and dead :: "'s \<Rightarrow> 't \<Rightarrow> bool" and accepts :: "'s \<Rightarrow> 't \<Rightarrow> bool"
  assumes step_inv: "inv s \<Longrightarrow> step s s' \<Longrightarrow> inv s'"
    and step_dead: "inv s \<Longrightarrow> step s s' \<Longrightarrow> dead s t \<Longrightarrow> dead s' t"
    and dead_refused: "inv s \<Longrightarrow> dead s t \<Longrightarrow> \<not> accepts s t"
begin

lemma dead_forever: "step\<^sup>*\<^sup>* s s' \<Longrightarrow> inv s \<Longrightarrow> dead s t \<Longrightarrow> \<not> accepts s' t"
proof -
  assume "step\<^sup>*\<^sup>* s s'" "inv s" "dead s t"
  then have "inv s' \<and> dead s' t" by (induction rule: rtranclp_induct) (auto intro: step_inv step_dead)
  then show ?thesis using dead_refused by blast
qed

end

definition token_dead :: "auth_db \<Rightarrow> string \<Rightarrow> bool" where
  "token_dead db h \<longleftrightarrow> (\<exists>s \<in> set (au_sessions db). se_TokenHash s = h \<and> se_RevokedAt s \<noteq> None)"

definition token_accepted :: "auth_db \<Rightarrow> string \<Rightarrow> bool" where
  "token_accepted db h \<longleftrightarrow> (\<exists>s \<in> set (au_sessions db). se_TokenHash s = h \<and> se_RevokedAt s = None)"

interpretation tokens: revocable auth_step auth_inv token_dead token_accepted
proof
  fix db db' :: auth_db and h
  assume inv: "auth_inv db" and step: "auth_step db db'"
  have tx: "auth_inv db'" "sessions_kept db db'" using auth_step_tx [OF step] inv by (auto simp: auth_tx_def)
  show "auth_inv db'" by (rule tx)
  show "token_dead db' h" if "token_dead db h"
    using that tx(2) unfolding token_dead_def sessions_kept_def by (metis session_identity_def)
next
  fix db h assume "auth_inv db" "token_dead db h"
  then show "\<not> token_accepted db h" unfolding token_dead_def token_accepted_def using keyed_inj [OF auth_invD(3)] by (metis option.distinct(1))
qed

lemma find_active_accepted:
  "FindActiveByTokenHash fault h now db = Inr (s, u) \<Longrightarrow> s \<in> set (au_sessions db) \<and> se_TokenHash s = h \<and> usable now s"
  by (auto simp: FindActiveByTokenHash_def split: if_splits option.splits dest!: find_SomeD)

lemma Authenticate_needs_token:
  "\<not> token_accepted db (sv_sha256 sv raw) \<Longrightarrow> fst (Authenticate sv f t now raw db) = Inl ErrUnauthenticated"
  using find_active_accepted [of f "sv_sha256 sv raw" now db]
  by (auto simp: Authenticate_def token_accepted_def usable_def split: sum.splits)

lemma dead_never_authenticates:
  assumes "auth_reachable db" "token_dead db (sv_sha256 sv raw)" "auth_step\<^sup>*\<^sup>* db db'"
  shows "fst (Authenticate sv f t now raw db') = Inl ErrUnauthenticated"
  using tokens.dead_forever [OF assms(3) auth_reachable_inv [OF assms(1)] assms(2)] by (rule Authenticate_needs_token)

section \<open>Service calls as steps\<close>

lemma Authenticate_steps: "auth_step\<^sup>*\<^sup>* db (snd (Authenticate sv f t now raw db))"
proof -
  have "auth_step\<^sup>*\<^sup>* db (snd (Touch t (se_ID s) now (touch_expiry now s) db))" if "FindActiveByTokenHash f h now db = Inr (s, u)" for h s u
    using find_active_accepted [OF that] auth_step.touch by blast
  then show ?thesis unfolding Authenticate_def by (fastforce split: sum.splits prod.splits option.splits simp: prod_eq_iff)
qed

lemma Authenticate_session:
  assumes "Authenticate sv f t now raw db = (Inr (u, s), db')"
  shows "\<exists>r. r \<in> set (au_sessions db) \<and> se_TokenHash r = sv_sha256 sv raw \<and> usable now r \<and> session_identity s = session_identity r \<and>
    se_RevokedAt s = None \<and> (\<exists>x \<in> set (au_users db). u_ID x = se_UserID r \<and> \<not> ur_Deleted x \<and> u = User.truncate x) \<and> u_Status u = StatusActive"
proof -
  from assms obtain r where r: "FindActiveByTokenHash f (sv_sha256 sv raw) now db = Inr (r, u)" "u_Status u = StatusActive"
    and s: "s = r \<or> s = r\<lparr>se_LastSeenAt := now, se_IdleExpiresAt := touch_expiry now r\<rparr>"
    by (auto simp: Authenticate_def split: if_splits sum.splits prod.splits option.splits)
  from r(1) have "\<exists>x \<in> set (au_users db). u_ID x = se_UserID r \<and> \<not> ur_Deleted x \<and> u = User.truncate x"
    by (auto simp: FindActiveByTokenHash_def by_id_def split: if_splits option.splits dest!: find_SomeD)
  with find_active_accepted [OF r(1)] r(2) s show ?thesis by (auto simp: session_identity_def usable_def)
qed

section \<open>Properties\<close>

text \<open>C28: in every reachable state a session expires thirty days after its creation and, before that,
  seven days after it was last seen, which is never before its creation; its token belongs to no other session; and a
  transaction of any process keeps its identity and lifetime, and keeps it unchanged once it is revoked.\<close>
theorem session_lifetimes:
  assumes "auth_reachable db" and "auth_step db db'" and "s \<in> set (au_sessions db)"
  shows "se_AbsoluteExpiresAt s = se_CreatedAt s + 30 * 24 * Hour \<and>
    se_IdleExpiresAt s = min (se_LastSeenAt s + 7 * 24 * Hour) (se_AbsoluteExpiresAt s) \<and> se_CreatedAt s \<le> se_LastSeenAt s \<and>
    (\<forall>s' \<in> set (au_sessions db). se_TokenHash s' = se_TokenHash s \<longrightarrow> s' = s) \<and>
    (\<exists>s' \<in> set (au_sessions db'). session_identity s' = session_identity s \<and> (se_RevokedAt s \<noteq> None \<longrightarrow> s' = s))"
proof -
  have inv: "auth_inv db" by (rule auth_reachable_inv [OF assms(1)])
  have "session_ok s" by (rule auth_invD(4) [OF inv assms(3)])
  moreover have "sessions_kept db db'" using auth_step_tx [OF assms(2)] inv by (simp add: auth_tx_def)
  moreover have "\<forall>s' \<in> set (au_sessions db). se_TokenHash s' = se_TokenHash s \<longrightarrow> s' = s"
    using keyed_inj [OF auth_invD(3) [OF inv] _ assms(3)] by blast
  ultimately show ?thesis using assms(3) by (auto simp: session_ok_def sessions_kept_def sessionAbsoluteTTL_def sessionIdleTTL_def)
qed

text \<open>A request is authenticated only by a live session: the hash of its token is stored in a session
  that is not revoked, was created less than thirty days and last seen less than seven days ago, and
  belongs to the active, undeleted user that is returned.\<close>
theorem authenticated_session_live:
  assumes "auth_reachable db" and "Authenticate sv find_fault touch_fault now raw db = (Inr (u, s), db')"
  shows "\<exists>r \<in> set (au_sessions db). se_TokenHash r = sv_sha256 sv raw \<and> se_RevokedAt r = None \<and> se_ID s = se_ID r \<and>
    now < se_CreatedAt r + 30 * 24 * Hour \<and> now < se_LastSeenAt r + 7 * 24 * Hour \<and>
    u_Status u = StatusActive \<and> (\<exists>x \<in> set (au_users db). u_ID x = se_UserID r \<and> \<not> ur_Deleted x \<and> u = User.truncate x)"
proof -
  from Authenticate_session [OF assms(2)] obtain r where r: "r \<in> set (au_sessions db)" "se_TokenHash r = sv_sha256 sv raw" "usable now r"
    "session_identity s = session_identity r" "\<exists>x \<in> set (au_users db). u_ID x = se_UserID r \<and> \<not> ur_Deleted x \<and> u = User.truncate x" "u_Status u = StatusActive"
    by blast
  have "session_ok r" by (rule auth_invD(4) [OF auth_reachable_inv [OF assms(1)] r(1)])
  with r show ?thesis
    by (intro bexI [of _ r]) (auto simp: session_ok_def usable_def session_identity_def sessionAbsoluteTTL_def sessionIdleTTL_def)
qed

lemma revoke_where_dead:
  "s \<in> set (au_sessions db) \<Longrightarrow> p s \<Longrightarrow> token_dead (revoke_where p now reason db) (se_TokenHash s)"
proof -
  assume s: "s \<in> set (au_sessions db)" "p s"
  let ?g = "\<lambda>s. if p s \<and> se_RevokedAt s = None then s\<lparr>se_RevokedAt := Some now, se_RevokeReason := Some reason\<rparr> else s"
  have "?g s \<in> set (au_sessions (revoke_where p now reason db))" using s(1) by (auto simp: revoke_where_def set_update_where)
  moreover have "se_TokenHash (?g s) = se_TokenHash s" "se_RevokedAt (?g s) \<noteq> None" using s(2) by auto
  ultimately show ?thesis unfolding token_dead_def by blast
qed

lemma Logout_dead:
  assumes inv: "auth_inv db" and out: "Logout sv en raw db = (None, db')"
  shows "token_dead db' (sv_sha256 sv raw) \<and> auth_step\<^sup>*\<^sup>* db db'"
proof -
  let ?a = "Authenticate sv (ae_find_fault en) (ae_touch_fault en) (ae_now en) raw db"
  obtain u s where a: "?a = (Inr (u, s), snd ?a)"
    using out unfolding Logout_def by (cases ?a; cases "fst ?a") auto
  have rest: "(case Revoke (ae_store_fault en) (ae_db_now en) (se_ID s) ''logout'' (snd ?a) of
       (Some ErrAuthNotFound, db2) \<Rightarrow> (None, db2) | (Some e, db2) \<Rightarrow> (Some e, db2) | (None, db2) \<Rightarrow> (None, db2)) = (None, db')"
    using out unfolding Logout_def by (subst (asm) a) simp
  have tx: "auth_inv (snd ?a)" "sessions_kept db (snd ?a)" using auth_steps_tx [OF Authenticate_steps] inv by (auto simp: auth_tx_def)
  from Authenticate_session [OF a] obtain r where r: "r \<in> set (au_sessions db)" "se_TokenHash r = sv_sha256 sv raw" "session_identity s = session_identity r" by blast
  with tx(2) obtain r' where r': "r' \<in> set (au_sessions (snd ?a))" "se_TokenHash r' = sv_sha256 sv raw" "se_ID r' = se_ID s"
    unfolding sessions_kept_def by (metis session_identity_def prod.inject)
  have db': "db' = snd (Revoke (ae_store_fault en) (ae_db_now en) (se_ID s) ''logout'' (snd ?a))" "\<not> ae_store_fault en"
    using rest by (auto simp: Revoke_def split: if_splits)
  have "token_dead db' (sv_sha256 sv raw)"
  proof (cases "rows_affected (\<lambda>x. se_ID x = se_ID s \<and> se_RevokedAt x = None) (au_sessions (snd ?a)) = 0")
    case True
    then have "se_RevokedAt r' \<noteq> None" using r' by (auto simp: rows_affected_def filter_empty_conv)
    with r' True db' show ?thesis by (auto simp: Revoke_def token_dead_def)
  next
    case False
    then show ?thesis using db' revoke_where_dead [OF r'(1), of "\<lambda>x. se_ID x = se_ID s"] r' by (simp add: Revoke_def)
  qed
  moreover have "auth_step\<^sup>*\<^sup>* db db'" using Authenticate_steps auth_step.revoke db'(1) by (metis rtranclp.rtrancl_into_rtrancl)
  ultimately show ?thesis by simp
qed

lemma reachable_steps: "auth_reachable db \<Longrightarrow> auth_step\<^sup>*\<^sup>* db db' \<Longrightarrow> auth_reachable db'"
  unfolding auth_reachable_def by (rule rtranclp_trans)

text \<open>C29: logging out is final: after a logout that reports success the token is refused at every
  later time, whatever transactions any process runs in between.\<close>
theorem logout_final:
  assumes "auth_reachable db" and "Logout sv en raw db = (None, db1)" and "auth_step\<^sup>*\<^sup>* db1 db2"
  shows "fst (Authenticate sv find_fault touch_fault now raw db2) = Inl ErrUnauthenticated"
proof -
  note out = Logout_dead [OF auth_reachable_inv [OF assms(1)] assms(2)]
  from out have "auth_reachable db1" using reachable_steps [OF assms(1)] by blast
  with out assms(3) show ?thesis using dead_never_authenticates by blast
qed

lemma write_audit_keeps: "write_audit en e x db = Inr (y, db') \<Longrightarrow> au_users db' = au_users db \<and> au_sessions db' = au_sessions db"
  by (auto simp: write_audit_def split: prod.splits option.splits)

lemma targetStudent_id: "targetStudent i db = Inr u \<Longrightarrow> u_ID u = i"
  by (auto simp: targetStudent_def FindByID_def by_id_def User.truncate_def split: if_splits option.splits dest!: find_SomeD)

lemma disabled_sessions:
  assumes "SetStatus_student en actor i StatusDisabled db = (Inr (), db1)"
  shows "\<exists>now. au_sessions db1 = au_sessions (revoke_where (\<lambda>s. se_UserID s = i) now ''student disabled'' db)"
proof -
  from assms obtain u e where u: "targetStudent i db = Inr u" and w: "write_audit en e () (revoke_where (\<lambda>s. se_UserID s = u_ID u) (st_now en) ''student disabled'' (set_status (u_ID u) StatusDisabled db)) = Inr ((), db1)"
    by (auto simp: SetStatus_student_def transact_def Let_def split: if_splits sum.splits)
  have "au_sessions db1 = au_sessions (revoke_where (\<lambda>s. se_UserID s = i) (st_now en) ''student disabled'' db)"
    using write_audit_keeps [OF w] by (simp add: targetStudent_id [OF u] revoke_where_def set_status_def)
  then show ?thesis by blast
qed

text \<open>Disabling a student ends every session of that student for good: a token that belonged to the
  student before is refused in every later state, even when the student is enabled again.\<close>
theorem disabled_student_out:
  assumes "auth_reachable db" and "SetStatus_student en actor i StatusDisabled db = (Inr (), db1)" and "auth_step\<^sup>*\<^sup>* db1 db2"
    and "s \<in> set (au_sessions db)" and "se_UserID s = i" and "sv_sha256 sv raw = se_TokenHash s"
  shows "fst (Authenticate sv find_fault touch_fault now raw db2) = Inl ErrUnauthenticated"
proof -
  from disabled_sessions [OF assms(2)] obtain t where t: "au_sessions db1 = au_sessions (revoke_where (\<lambda>s. se_UserID s = i) t ''student disabled'' db)" by blast
  have "token_dead db1 (sv_sha256 sv raw)"
    using revoke_where_dead [OF assms(4), of "\<lambda>s. se_UserID s = i" t] assms(5,6) unfolding token_dead_def t by simp
  moreover have "auth_reachable db1"
    using reachable_steps [OF assms(1)] auth_step.student_status [of db en actor i StatusDisabled] assms(2) by (metis r_into_rtranclp snd_conv)
  ultimately show ?thesis using dead_never_authenticates assms(3) by blast
qed

section \<open>New sessions\<close>

lemma fresh_session_simps [simp]:
  "se_ID (fresh_session p) = se_ID p" "se_UserID (fresh_session p) = se_UserID p" "se_TokenHash (fresh_session p) = se_TokenHash p"
  "se_RevokedAt (fresh_session p) = None" "se_IdleExpiresAt (fresh_session p) = se_IdleExpiresAt p"
  "se_AbsoluteExpiresAt (fresh_session p) = se_AbsoluteExpiresAt p" "se_LastSeenAt (fresh_session p) = se_LastSeenAt p"
  by (simp_all add: fresh_session_def CreateSessionParams.defs Session.defs)

lemma fresh_session_usable: "now < t + sessionIdleTTL \<Longrightarrow> usable now (fresh_session (newSession sv raw newID t user ip agent))"
  by (simp add: usable_def newSession_def sessionIdleTTL_def sessionAbsoluteTTL_def)

lemma token_authenticates:
  assumes inv: "auth_inv db" and s: "s \<in> set (au_sessions db)" "se_TokenHash s = sv_sha256 sv raw" "usable now s" and raw: "raw \<noteq> []"
    and x: "find (by_id (se_UserID s)) (au_users db) = Some x" "u_Status x = StatusActive"
  shows "\<exists>s'. fst (Authenticate sv False False now raw db) = Inr (User.truncate x, s')"
proof -
  have f: "find (\<lambda>r. se_TokenHash r = sv_sha256 sv raw \<and> usable now r) (au_sessions db) = Some s"
    by (rule find_keyed [OF auth_invD(3) [OF inv] s(1)]) (use s in auto)
  have st: "u_Status (User.truncate x) = StatusActive" using x(2) by (simp add: User.truncate_def)
  have "rows_affected (\<lambda>r. se_ID r = se_ID s \<and> usable now r) (au_sessions db) \<noteq> 0"
    using s by (auto simp: rows_affected_def filter_empty_conv)
  then show ?thesis using f x(1) st raw by (simp add: Authenticate_def FindActiveByTokenHash_def Touch_def)
qed

lemma insert_session_Some: "insert_session p db = Some db' \<Longrightarrow> db' = db\<lparr>au_sessions := au_sessions db @ [fresh_session p]\<rparr>"
  by (auto simp: insert_session_def fresh_session_def split: if_splits)

lemma find_by_id_update:
  assumes "\<And>u. u_ID (g u) = u_ID u" "\<And>u. ur_Deleted (g u) = ur_Deleted u"
  shows "find (by_id i) (update_where (by_id i) g us) = map_option g (find (by_id i) us)"
proof -
  have "find (by_id i) (update_where (by_id i) g us) = map_option (\<lambda>r. if by_id i r then g r else r) (find (by_id i) us)"
    by (rule find_update_where) (auto simp: by_id_def assms)
  also have "\<dots> = map_option g (find (by_id i) us)" by (cases "find (by_id i) us") (auto dest: find_SomeD)
  finally show ?thesis .
qed

lemma ChangePassword_InrD:
  assumes "ChangePassword sv en salt token newID i db = (Inr (u', s', raw'), db')"
  obtains u s db1 h p where "Authenticate sv (ae_find_fault en) (ae_touch_fault en) (ae_now en) (cp_SessionToken i) db = (Inr (u, s), db1)"
    "Hash (sv_IDKey sv) (sv_Argon2 sv) salt (cp_NewPassword i) = Some h"
    "p = newSession sv raw' newID (ae_later en) (u_ID u) (cp_IP i) (cp_UserAgent i)"
    "RotatePassword (ae_store_fault en) (ae_db_now en) \<lparr>pw_UserID = u_ID u, pw_ExpectedPasswordHash = u_PasswordHash u, pw_PasswordHash = h,
       pw_MustChangePassword = False, pw_ReplacementSession = p\<rparr> db1 = (Inr (), db')"
    "u' = u\<lparr>u_PasswordHash := h, u_MustChangePassword := False\<rparr>" "s' = fresh_session p"
  using assms unfolding ChangePassword_def Let_def by (auto split: sum.splits prod.splits if_splits option.splits)

lemma RotatePassword_InrD:
  assumes "RotatePassword fault dbnow p db = (Inr (), db')"
  obtains x where "find (by_id (pw_UserID p)) (au_users db) = Some x" "u_Status x = StatusActive" "u_PasswordHash x = pw_ExpectedPasswordHash p"
    "au_sessions db' = au_sessions (revoke_where (\<lambda>s. se_UserID s = pw_UserID p) dbnow ''password changed'' db) @ [fresh_session (pw_ReplacementSession p)]"
    "au_users db' = update_where (by_id (pw_UserID p)) (\<lambda>u. u\<lparr>u_PasswordHash := pw_PasswordHash p, u_MustChangePassword := pw_MustChangePassword p\<rparr>) (au_users db)"
    "se_UserID (pw_ReplacementSession p) = pw_UserID p"
  using assms unfolding RotatePassword_def transact_def
  by (auto simp: revoke_where_def set_password_def split: if_splits sum.splits option.splits dest!: insert_session_Some)

lemma Authenticate_user:
  assumes "Authenticate sv f t now raw db = (Inr (u, s), db')"
  shows "find (by_id (u_ID u)) (au_users db') = Some x \<Longrightarrow> u = User.truncate x"
proof -
  from assms obtain r where r: "FindActiveByTokenHash f (sv_sha256 sv raw) now db = Inr (r, u)"
    by (auto simp: Authenticate_def split: if_splits sum.splits prod.splits option.splits)
  have "au_users db' = au_users db" using assms by (auto simp: Authenticate_def Touch_def Let_def split: if_splits sum.splits prod.splits option.splits)
  moreover from r obtain x' where x': "find (by_id (se_UserID r)) (au_users db) = Some x'" "u = User.truncate x'"
    by (auto simp: FindActiveByTokenHash_def split: if_splits option.splits)
  moreover have "u_ID u = se_UserID r" using x' by (auto simp: by_id_def User.truncate_def dest: find_SomeD)
  ultimately show "find (by_id (u_ID u)) (au_users db') = Some x \<Longrightarrow> u = User.truncate x" by simp
qed

lemma check_credentials_user:
  assumes "auth_inv db" "check_credentials sv f i db = Inr u" "find (by_id (u_ID u)) (au_users db) = Some y"
  shows "u_Status y = StatusActive \<and> u = User.truncate y"
proof -
  from assms(2) obtain x where x: "find (\<lambda>u. ToLower (u_Username u) = normalizeUsername (normalizeUsername (li_Username i)) \<and> \<not> ur_Deleted u) (au_users db) = Some x"
    "u = User.truncate x" "u_Status u = StatusActive"
    by (auto simp: check_credentials_def FindByUsername_def split: if_splits option.splits sum.splits auth_error.splits)
  have "u_ID x = u_ID y" using find_SomeD [OF assms(3)] x(2) by (simp add: by_id_def User.truncate_def)
  then have "x = y" using keyed_inj [of u_ID "au_users db" x y] find_SomeD [OF assms(3)] find_SomeD [OF x(1)] auth_invD(1) [OF assms(1)] by (simp add: users_ok_def)
  with x show ?thesis by (simp add: User.truncate_def)
qed

lemma reset_users:
  assumes "ResetPassword sv en salt actor i password db = (Inr (), db1)"
  obtains h y where "Hash (sv_IDKey sv) (sv_Argon2 sv) salt password = Some h" "find (by_id i) (au_users db) = Some y"
    "au_users db1 = update_where (by_id i) (\<lambda>u. u\<lparr>u_PasswordHash := h, u_MustChangePassword := True\<rparr>) (au_users db)"
proof -
  from assms obtain h u e where h: "Hash (sv_IDKey sv) (sv_Argon2 sv) salt password = Some h" and u: "targetStudent i db = Inr u"
    and w: "write_audit en e () (revoke_where (\<lambda>s. se_UserID s = u_ID u) (st_now en) ''password reset'' (set_password (u_ID u) h True db)) = Inr ((), db1)"
    by (auto simp: ResetPassword_def transact_def split: if_splits sum.splits option.splits)
  from u obtain y where "find (by_id i) (au_users db) = Some y" by (auto simp: targetStudent_def FindByID_def split: option.splits)
  with h show ?thesis using write_audit_keeps [OF w] targetStudent_id [OF u] by (intro that) (auto simp: revoke_where_def set_password_def)
qed

lemma finish_login_InrD:
  assumes "finish_login sv le i u db = (Inr (u2, s, raw), db2)" "le_id le \<noteq> uuid_Nil"
  shows "auth_step\<^sup>*\<^sup>* db db2 \<and> au_users db2 = au_users db \<and>
    au_sessions db2 = au_sessions db @ [fresh_session (newSession sv raw (le_id le) (le_now le) (u_ID u) (li_IP i) (li_UserAgent i))]"
proof -
  let ?p = "newSession sv raw (le_id le) (le_now le) (u_ID u) (li_IP i) (li_UserAgent i)"
  from assms obtain db1 where c: "Create_session (le_create_fault le) (le_id le) ?p db = (None, db1)"
    and r: "RecordLoginEvent (le_event_fault le) (login_event i (Some (u_ID u)) True ''success'' (le_event_now le)) db1 = (None, db2)"
    unfolding finish_login_def Let_def by (auto split: option.splits prod.splits)
  have "se_ID ?p \<noteq> uuid_Nil" using assms(2) by (simp add: newSession_def)
  with c have "insert_session ?p db = Some db1" by (auto simp: Create_session_def split: option.splits if_splits)
  from insert_session_Some [OF this] have "au_users db2 = au_users db \<and> au_sessions db2 = au_sessions db @ [fresh_session ?p]"
    using r by (auto simp: RecordLoginEvent_def split: if_splits)
  moreover have "auth_step db db1" using auth_step.create_session [of db "le_create_fault le" "le_id le" sv raw "le_id le" "le_now le" "u_ID u" "li_IP i" "li_UserAgent i"] c by simp
  moreover have "auth_step db1 db2" using auth_step.login_event [of db1 "le_event_fault le"] r by (metis snd_conv)
  ultimately show ?thesis by (meson converse_rtranclp_into_rtranclp r_into_rtranclp)
qed

text \<open>C30: changing the password replaces every session: after a successful change each token that the
  user had before is refused in all later states, the returned token authenticates the user for the next seven
  days, and the stored hash accepts the new password.\<close>
theorem change_password_rotates:
  assumes "auth_reachable db" and "ChangePassword sv en salt token newID i db = (Inr (u', s', raw'), db')"
    and "\<And>p s t m l n. length (sv_IDKey sv p s t m l n) = n"
  shows "(\<forall>s \<in> set (au_sessions db). \<forall>raw db2. se_UserID s = u_ID u' \<and> sv_sha256 sv raw = se_TokenHash s \<and> auth_step\<^sup>*\<^sup>* db' db2 \<longrightarrow>
      fst (Authenticate sv find_fault touch_fault now raw db2) = Inl ErrUnauthenticated) \<and>
    (raw' \<noteq> [] \<and> later < ae_later en + 7 * 24 * Hour \<longrightarrow> (\<exists>s2. fst (Authenticate sv False False later raw' db') = Inr (u', s2))) \<and>
    Compare (sv_IDKey sv) (u_PasswordHash u') (cp_NewPassword i)"
proof -
  obtain u s db1 h p where a: "Authenticate sv (ae_find_fault en) (ae_touch_fault en) (ae_now en) (cp_SessionToken i) db = (Inr (u, s), db1)"
    and h: "Hash (sv_IDKey sv) (sv_Argon2 sv) salt (cp_NewPassword i) = Some h"
    and p: "p = newSession sv raw' newID (ae_later en) (u_ID u) (cp_IP i) (cp_UserAgent i)"
    and rot: "RotatePassword (ae_store_fault en) (ae_db_now en) \<lparr>pw_UserID = u_ID u, pw_ExpectedPasswordHash = u_PasswordHash u, pw_PasswordHash = h,
       pw_MustChangePassword = False, pw_ReplacementSession = p\<rparr> db1 = (Inr (), db')"
    and u': "u' = u\<lparr>u_PasswordHash := h, u_MustChangePassword := False\<rparr>" and "s' = fresh_session p"
    by (rule ChangePassword_InrD [OF assms(2)])
  have st: "auth_step\<^sup>*\<^sup>* db db1" using Authenticate_steps [of db sv "ae_find_fault en" "ae_touch_fault en" "ae_now en" "cp_SessionToken i"] unfolding a by simp
  have "auth_step db1 db'"
    using auth_step.rotate [of "\<lparr>pw_UserID = u_ID u, pw_ExpectedPasswordHash = u_PasswordHash u, pw_PasswordHash = h, pw_MustChangePassword = False, pw_ReplacementSession = p\<rparr>"
      sv raw' newID "ae_later en" "u_ID u" "cp_IP i" "cp_UserAgent i" db1 "ae_store_fault en" "ae_db_now en"] unfolding rot by (simp add: p)
  then have st': "auth_step\<^sup>*\<^sup>* db1 db'" by blast
  have reach: "auth_reachable db1" "auth_reachable db'" using reachable_steps [OF assms(1) st] reachable_steps [OF _ st'] by blast+
  have kept: "sessions_kept db db1" using auth_steps_tx [OF st] auth_reachable_inv [OF assms(1)] by (simp add: auth_tx_def)
  from RotatePassword_InrD [OF rot] obtain x where x: "find (by_id (u_ID u)) (au_users db1) = Some x" "u_Status x = StatusActive"
    and ses: "au_sessions db' = au_sessions (revoke_where (\<lambda>s. se_UserID s = u_ID u) (ae_db_now en) ''password changed'' db1) @ [fresh_session p]"
    and usr: "au_users db' = update_where (by_id (u_ID u)) (\<lambda>u. u\<lparr>u_PasswordHash := h, u_MustChangePassword := False\<rparr>) (au_users db1)" by auto
  show ?thesis
  proof (intro conjI ballI allI impI)
    fix r raw db2 assume r: "r \<in> set (au_sessions db)" and c: "se_UserID r = u_ID u' \<and> sv_sha256 sv raw = se_TokenHash r \<and> auth_step\<^sup>*\<^sup>* db' db2"
    from kept r obtain r' where r': "r' \<in> set (au_sessions db1)" "session_identity r' = session_identity r" unfolding sessions_kept_def by blast
    then have r': "r' \<in> set (au_sessions db1)" "se_UserID r' = u_ID u" "se_TokenHash r' = sv_sha256 sv raw"
      using c u' by (simp_all add: session_identity_def)
    have "token_dead db' (sv_sha256 sv raw)"
      using revoke_where_dead [OF r'(1), of "\<lambda>s. se_UserID s = u_ID u" "ae_db_now en" "''password changed''", OF r'(2)] r'(3)
      unfolding token_dead_def ses by (simp add: bex_Un)
    then show "fst (Authenticate sv find_fault touch_fault now raw db2) = Inl ErrUnauthenticated"
      using dead_never_authenticates [OF reach(2)] c by blast
  next
    show "Compare (sv_IDKey sv) (u_PasswordHash u') (cp_NewPassword i)" using Compare_Hash [OF assms(3) h] u' by auto
  next
    assume c: "raw' \<noteq> [] \<and> later < ae_later en + 7 * 24 * Hour"
    define y where "y = x\<lparr>u_PasswordHash := h, u_MustChangePassword := False\<rparr>"
    have y: "find (by_id (se_UserID (fresh_session p))) (au_users db') = Some y"
      unfolding usr p y_def using x(1) by (simp add: newSession_def find_by_id_update)
    have "u = User.truncate x" using Authenticate_user [OF a] x(1) by simp
    then have u: "User.truncate y = u'" by (simp add: u' y_def User.truncate_def)
    have mem: "fresh_session p \<in> set (au_sessions db')" unfolding ses by simp
    have "usable later (fresh_session p)" unfolding p by (rule fresh_session_usable) (use c in \<open>simp add: sessionIdleTTL_def\<close>)
    from token_authenticates [OF auth_reachable_inv [OF reach(2)] mem _ this _ y] c x(2) u
    show "\<exists>s2. fst (Authenticate sv False False later raw' db') = Inr (u', s2)" by (simp add: p y_def newSession_def)
  qed
qed

text \<open>C31: a login that is under way when its account's password is reset survives the reset: \<^verbatim>\<open>Login\<close> checks
  the password in one transaction and creates the session in another, which does not look at the
  account again. If the reset, which revokes all sessions, commits between the two, the token that
  the login returns authenticates for seven days although the password it was given is not the
  account's any more.\<close>
theorem login_outlives_reset:
  assumes "auth_reachable db" and "check_credentials sv False i db = Inr u"
    and "ResetPassword sv en salt actor (u_ID u) password db = (Inr (), db1)"
    and "finish_login sv le i u db1 = (Inr (u2, s, raw), db2)" and "raw \<noteq> []" and "now < le_now le + 7 * 24 * Hour" and "le_id le \<noteq> uuid_Nil"
  shows "\<exists>x s2. fst (Authenticate sv False False now raw db2) = Inr (x, s2) \<and> u_ID x = u_ID u \<and>
    Some (u_PasswordHash x) = Hash (sv_IDKey sv) (sv_Argon2 sv) salt password"
proof -
  from reset_users [OF assms(3)] obtain h y where h: "Hash (sv_IDKey sv) (sv_Argon2 sv) salt password = Some h"
    and y: "find (by_id (u_ID u)) (au_users db) = Some y"
    and usr: "au_users db1 = update_where (by_id (u_ID u)) (\<lambda>u. u\<lparr>u_PasswordHash := h, u_MustChangePassword := True\<rparr>) (au_users db)" by blast
  define p where "p = newSession sv raw (le_id le) (le_now le) (u_ID u) (li_IP i) (li_UserAgent i)"
  have reach1: "auth_reachable db1"
    using reachable_steps [OF assms(1)] auth_step.reset_password [of db sv en salt actor "u_ID u" password] assms(3) by (metis r_into_rtranclp snd_conv)
  from finish_login_InrD [OF assms(4,7)] have db2: "auth_step\<^sup>*\<^sup>* db1 db2" "au_sessions db2 = au_sessions db1 @ [fresh_session p]" "au_users db2 = au_users db1"
    unfolding p_def by auto
  have act: "u_Status y = StatusActive \<and> u = User.truncate y" by (rule check_credentials_user [OF auth_reachable_inv [OF assms(1)] assms(2) y])
  let ?y = "y\<lparr>u_PasswordHash := h, u_MustChangePassword := True\<rparr>"
  have f: "find (by_id (se_UserID (fresh_session p))) (au_users db2) = Some ?y"
    unfolding db2(3) usr p_def using y by (simp add: newSession_def find_by_id_update)
  have "usable now (fresh_session p)" unfolding p_def by (rule fresh_session_usable) (use assms(6) in \<open>simp add: sessionIdleTTL_def\<close>)
  from token_authenticates [OF auth_reachable_inv [OF reachable_steps [OF reach1 db2(1)]] _ _ this assms(5) f] act db2(2)
  obtain s2 where "fst (Authenticate sv False False now raw db2) = Inr (User.truncate ?y, s2)" by (auto simp: p_def newSession_def)
  then show ?thesis using act h by (auto simp: User.truncate_def)
qed

section \<open>An example\<close>

text \<open>The student \<^verbatim>\<open>mia\<close> with one session, and an administrator who acts on the account.\<close>

definition wit_auth_sv :: auth_service where
  "wit_auth_sv = \<lparr>sv_IDKey = wit_idkey, sv_Argon2 = wit_argon, sv_sha256 = (\<lambda>x. x)\<rparr>"

definition wit_salt :: string where "wit_salt = replicate 16 (CHR ''s'')"

definition wit_pw_hash :: "string \<Rightarrow> string" where
  "wit_pw_hash p = phc wit_argon wit_salt (wit_idkey p wit_salt 1 64 1 16)"

lemma wit_passwords: "ValidatePassword ''correct horse'' = None" "ValidatePassword ''battery staple'' = None"
  by (simp_all add: ValidatePassword_def go_eval ascii_def)

lemma wit_hashes:
  "Hash wit_idkey wit_argon (Some wit_salt) ''correct horse'' = Some (wit_pw_hash ''correct horse'')"
  "Hash wit_idkey wit_argon (Some wit_salt) ''battery staple'' = Some (wit_pw_hash ''battery staple'')"
  unfolding wit_salt_def wit_pw_hash_def by (rule wit_hash; simp add: wit_passwords byte_def)+

lemma wit_compare: "Compare wit_idkey (wit_pw_hash ''correct horse'') ''correct horse''"
  using Compare_Hash [OF wit_idkey_length wit_hashes(1)] by auto

definition wit_mia :: user_row where
  "wit_mia = \<lparr>u_ID = 7, u_Username = ''mia'', u_DisplayName = ''Mia'', u_Role = RoleStudent, u_Status = StatusActive,
     u_PasswordHash = wit_pw_hash ''correct horse'', u_MustChangePassword = False, u_CreatedAt = 5, ur_Deleted = False\<rparr>"

definition wit_users :: auth_db where
  "wit_users = empty_auth_db\<lparr>au_users := [wit_mia]\<rparr>"

definition wit_login_session :: Session where
  "wit_login_session = fresh_session (newSession wit_auth_sv ''tok1'' 21 1000 7 None [])"

definition wit_auth :: auth_db where
  "wit_auth = wit_users\<lparr>au_sessions := [wit_login_session]\<rparr>"

lemma mia_name: "normalizeUsername ''mia'' = ''mia''" "ToLower ''mia'' = ''mia''"
  by (simp_all add: normalizeUsername_def go_eval ascii_def)

lemma wit_users_reachable: "auth_reachable wit_users"
proof -
  have "snd (Create_user False 7 5 \<lparr>cu_Username = ''mia'', cu_DisplayName = ''Mia'', cu_Role = RoleStudent, cu_Status = None,
      cu_PasswordHash = wit_pw_hash ''correct horse'', cu_MustChangePassword = False\<rparr> empty_auth_db) = wit_users"
    by (simp add: Create_user_def transact_def insert_user_def mia_name username_format_def lower_letter_def byte_def empty_auth_db_def wit_users_def wit_mia_def Let_def)
  with auth_step.create_user show ?thesis unfolding auth_reachable_def by (metis r_into_rtranclp)
qed

lemma wit_auth_reachable: "auth_reachable wit_auth"
proof -
  have "snd (Create_session False 21 (newSession wit_auth_sv ''tok1'' 21 1000 7 None []) wit_users) = wit_auth"
    by (simp add: Create_session_def insert_session_def wit_auth_def wit_users_def wit_mia_def empty_auth_db_def wit_login_session_def fresh_session_def newSession_def)
  with auth_step.create_session have "auth_step wit_users wit_auth" by metis
  with wit_users_reachable reachable_steps show ?thesis by blast
qed

lemma wit_session_simps:
  "se_ID wit_login_session = 21" "se_UserID wit_login_session = 7" "se_TokenHash wit_login_session = ''tok1''" "se_RevokedAt wit_login_session = None"
  "se_LastSeenAt wit_login_session = 1000" "usable 2000 wit_login_session"
  by (simp_all add: wit_login_session_def newSession_def wit_auth_sv_def usable_def sessionIdleTTL_def sessionAbsoluteTTL_def)

lemma wit_auth_simps: "au_sessions wit_auth = [wit_login_session]" "au_users wit_auth = [wit_mia]" "by_id 7 wit_mia"
  by (simp_all add: wit_auth_def wit_users_def by_id_def wit_mia_def)

lemma wit_authenticated:
  "Authenticate wit_auth_sv False False 2000 ''tok1'' wit_auth = (Inr (User.truncate wit_mia, wit_login_session), wit_auth)"
  by (simp add: Authenticate_def FindActiveByTokenHash_def wit_auth_simps wit_session_simps sessionTouchPeriod_def)
    (simp add: wit_auth_sv_def wit_session_simps, simp add: wit_mia_def User.truncate_def)

theorem session_lifetimes_witness:
  "se_AbsoluteExpiresAt wit_login_session = se_CreatedAt wit_login_session + 30 * 24 * Hour"
  using session_lifetimes [OF wit_auth_reachable auth_step.revoke, of wit_login_session] by (simp add: wit_auth_simps)

theorem authenticated_session_live_witness:
  "\<exists>r \<in> set (au_sessions wit_auth). se_TokenHash r = ''tok1'' \<and> se_RevokedAt r = None"
  using authenticated_session_live [OF wit_auth_reachable wit_authenticated] by (auto simp: wit_auth_sv_def)

definition wit_auth_env :: auth_env where
  "wit_auth_env = \<lparr>ae_find_fault = False, ae_touch_fault = False, ae_store_fault = False, ae_now = 2000, ae_later = 2001, ae_db_now = 2002\<rparr>"

theorem logout_final_witness:
  "\<exists>db1. Logout wit_auth_sv wit_auth_env ''tok1'' wit_auth = (None, db1) \<and> fst (Authenticate wit_auth_sv False False 3000 ''tok1'' db1) = Inl ErrUnauthenticated"
proof -
  have "\<exists>db1. Logout wit_auth_sv wit_auth_env ''tok1'' wit_auth = (None, db1)"
    by (simp add: Logout_def wit_auth_env_def wit_authenticated Revoke_def wit_auth_simps wit_session_simps rows_affected_def)
  then show ?thesis using logout_final [OF wit_auth_reachable _ rtranclp.rtrancl_refl] by blast
qed

definition wit_teacher :: Principal where
  "wit_teacher = \<lparr>p_User = \<lparr>u_ID = 1, u_Username = ''admin'', u_DisplayName = ''Admin'', u_Role = RoleAdmin, u_Status = StatusActive,
     u_PasswordHash = [], u_MustChangePassword = False, u_CreatedAt = 1\<rparr>, p_RequestID = ''r'', p_IP = Some ''1234''\<rparr>"

definition wit_students_env :: students_env where
  "wit_students_env = \<lparr>st_parse = (\<lambda>_. Some 7), st_render = (\<lambda>_. ''7''), st_fault = False, st_next = 1, st_now = 1500\<rparr>"

lemma wit_teacher_authorized: "authorize_students wit_teacher"
  by (simp add: authorize_students_def wit_teacher_def go_eval ascii_def)

lemma wit_student_audit:
  "validateAndMarshal p r (student_event wit_students_env wit_teacher ''student.password_reset'' 7 []) = Some [(''outcome'', MString ''succeeded'')]"
  "validateAndMarshal p r (student_event wit_students_env wit_teacher ''student.disabled'' 7 [(''status'', MString ''disabled'')]) =
     Some [(''status'', MString ''disabled''), (''outcome'', MString ''succeeded'')]"
  by (simp_all add: validateAndMarshal_def student_event_def wit_students_env_def wit_teacher_def identifier_match_def lower_letter_def digit_def byte_def go_eval ascii_def
      allowedMetadata_def allowedTargetTypes_def validQAEvent_def classifyAuditOutcome_def auditOutcomeRules_def succeeded_actions_def)

lemma wit_target: "au_users db = [wit_mia] \<Longrightarrow> targetStudent 7 db = Inr (User.truncate wit_mia)" "u_ID (User.truncate wit_mia) = 7"
  "rows_affected (by_id 7) [wit_mia] = 1"
  by (simp_all add: targetStudent_def FindByID_def by_id_def wit_mia_def User.truncate_def rows_affected_def)

theorem disabled_student_out_witness:
  "\<exists>db1. SetStatus_student wit_students_env wit_teacher 7 StatusDisabled wit_auth = (Inr (), db1) \<and>
     fst (Authenticate wit_auth_sv False False 2000 ''tok1'' db1) = Inl ErrUnauthenticated"
proof -
  have "st_fault wit_students_env = False" by (simp add: wit_students_env_def)
  then have "\<exists>db1. SetStatus_student wit_students_env wit_teacher 7 StatusDisabled wit_auth = (Inr (), db1)"
    by (simp add: SetStatus_student_def wit_teacher_authorized transact_def wit_target wit_auth_simps write_audit_def Write_def status_name_def wit_student_audit Let_def)
  then show ?thesis
    using disabled_student_out [OF wit_auth_reachable _ rtranclp.rtrancl_refl, of wit_students_env wit_teacher 7 _ wit_login_session wit_auth_sv "''tok1''"]
    by (auto simp: wit_auth_simps wit_session_simps wit_auth_sv_def)
qed

definition wit_change :: ChangePasswordInput where
  "wit_change = \<lparr>cp_SessionToken = ''tok1'', cp_CurrentPassword = ''correct horse'', cp_NewPassword = ''battery staple'', cp_IP = None, cp_UserAgent = []\<rparr>"

theorem change_password_rotates_witness:
  "\<exists>u s db'. ChangePassword wit_auth_sv wit_auth_env (Some wit_salt) (Some ''tok2'') 22 wit_change wit_auth = (Inr (u, s, ''tok2''), db') \<and>
     Compare wit_idkey (u_PasswordHash u) ''battery staple''"
proof -
  have c: "Compare wit_idkey (u_PasswordHash (User.truncate wit_mia)) ''correct horse''" using wit_compare by (simp add: wit_mia_def User.truncate_def)
  have u: "u_ID (User.truncate wit_mia) = 7" by (rule wit_target)
  have f: "find (by_id 7) [wit_mia] = Some wit_mia" "u_Status wit_mia = StatusActive" "u_PasswordHash (User.truncate wit_mia) = u_PasswordHash wit_mia"
    by (simp_all add: by_id_def wit_mia_def User.truncate_def)
  let ?p = "newSession wit_auth_sv ''tok2'' 22 2001 7 None []"
  have p: "se_ID ?p = 22" "se_UserID ?p = 7" "se_TokenHash ?p = ''tok2''" by (simp_all add: newSession_def wit_auth_sv_def)
  let ?db = "revoke_where (\<lambda>s. se_UserID s = 7) 2002 ''password changed'' (set_password 7 (wit_pw_hash ''battery staple'') False wit_auth)"
  have ids: "map se_ID (au_sessions ?db) = [21]" "map se_TokenHash (au_sessions ?db) = [''tok1'']" "map u_ID (au_users ?db) = [7]"
    by (simp_all add: revoke_where_def set_password_def wit_auth_simps wit_session_simps by_id_def wit_mia_def)
  then have "insert_session ?p ?db = Some (?db\<lparr>au_sessions := au_sessions ?db @ [fresh_session ?p]\<rparr>)"
    by (auto simp: insert_session_def p fresh_session_def list_ex_iff map_eq_Cons_conv)
  with f wit_target(3) have rot: "\<exists>db'. RotatePassword False 2002 \<lparr>pw_UserID = 7, pw_ExpectedPasswordHash = u_PasswordHash wit_mia, pw_PasswordHash = wit_pw_hash ''battery staple'',
      pw_MustChangePassword = False, pw_ReplacementSession = ?p\<rparr> wit_auth = (Inr (), db')"
    by (simp add: RotatePassword_def transact_def p wit_auth_simps)
  have sv: "sv_IDKey wit_auth_sv = wit_idkey" "sv_Argon2 wit_auth_sv = wit_argon" by (simp_all add: wit_auth_sv_def)
  from rot obtain db' where rot: "RotatePassword False 2002 \<lparr>pw_UserID = 7, pw_ExpectedPasswordHash = u_PasswordHash wit_mia, pw_PasswordHash = wit_pw_hash ''battery staple'',
      pw_MustChangePassword = False, pw_ReplacementSession = ?p\<rparr> wit_auth = (Inr (), db')" by blast
  have "\<exists>u s db'. ChangePassword wit_auth_sv wit_auth_env (Some wit_salt) (Some ''tok2'') 22 wit_change wit_auth = (Inr (u, s, ''tok2''), db')"
    by (simp add: ChangePassword_def wit_auth_env_def wit_change_def wit_authenticated sv c [unfolded f(3)] wit_hashes wit_passwords Let_def u f rot)
  then show ?thesis
    using change_password_rotates [OF wit_auth_reachable, of wit_auth_sv wit_auth_env "Some wit_salt" "Some ''tok2''" 22 wit_change] wit_idkey_length
    by (fastforce simp: sv wit_change_def)
qed

definition wit_login :: LoginInput where
  "wit_login = \<lparr>li_Username = ''mia'', li_Password = ''correct horse'', li_IP = None, li_UserAgent = []\<rparr>"

definition wit_login_env :: login_env where
  "wit_login_env = \<lparr>le_find_fault = False, le_create_fault = False, le_event_fault = False, le_revoke_fault = False, le_id = 21,
     le_token = Some ''tok1'', le_now = 2000, le_event_now = 2001, le_db_now = 2002\<rparr>"

theorem login_outlives_reset_witness:
  "\<exists>u db1 db2 s x s2. check_credentials wit_auth_sv False wit_login wit_users = Inr u \<and>
     ResetPassword wit_auth_sv wit_students_env (Some wit_salt) wit_teacher (u_ID u) ''battery staple'' wit_users = (Inr (), db1) \<and>
     finish_login wit_auth_sv wit_login_env wit_login u db1 = (Inr (u, s, ''tok1''), db2) \<and>
     fst (Authenticate wit_auth_sv False False 3000 ''tok1'' db2) = Inr (x, s2) \<and> u_PasswordHash x = wit_pw_hash ''battery staple''"
proof -
  let ?u = "User.truncate wit_mia"
  have sv: "sv_IDKey wit_auth_sv = wit_idkey" "sv_Argon2 wit_auth_sv = wit_argon" by (simp_all add: wit_auth_sv_def)
  have users: "au_users wit_users = [wit_mia]" "au_sessions wit_users = []" by (simp_all add: wit_users_def empty_auth_db_def)
  have "find (\<lambda>u. ToLower (u_Username u) = normalizeUsername (normalizeUsername ''mia'') \<and> \<not> ur_Deleted u) [wit_mia] = Some wit_mia"
    by (simp add: wit_mia_def mia_name)
  moreover have "Compare wit_idkey (u_PasswordHash ?u) ''correct horse''" "u_Status ?u = StatusActive"
    using wit_compare by (simp_all add: wit_mia_def User.truncate_def)
  ultimately have c: "check_credentials wit_auth_sv False wit_login wit_users = Inr ?u"
    by (simp add: check_credentials_def FindByUsername_def wit_login_def users sv)
  have "st_fault wit_students_env = False" by (simp add: wit_students_env_def)
  then obtain db1 where r: "ResetPassword wit_auth_sv wit_students_env (Some wit_salt) wit_teacher (u_ID ?u) ''battery staple'' wit_users = (Inr (), db1)"
    and db1: "map u_ID (au_users db1) = [7]" "au_sessions db1 = []"
    by (simp add: ResetPassword_def wit_teacher_authorized wit_passwords sv wit_hashes transact_def wit_target users write_audit_def Write_def wit_student_audit
        revoke_where_def set_password_def) (simp add: wit_mia_def by_id_def)
  have "insert_session (newSession wit_auth_sv ''tok1'' 21 2000 7 None []) db1 \<noteq> None"
    using db1 by (auto simp: insert_session_def newSession_def list_ex_iff map_eq_Cons_conv)
  then obtain s db2 where l: "finish_login wit_auth_sv wit_login_env wit_login ?u db1 = (Inr (?u, s, ''tok1''), db2)"
    by (auto simp: finish_login_def wit_login_env_def wit_login_def Let_def Create_session_def wit_target RecordLoginEvent_def newSession_def)
  have "le_id wit_login_env \<noteq> 0" "3000 < le_now wit_login_env + 7 * 24 * Hour" by (simp_all add: wit_login_env_def)
  with login_outlives_reset [OF wit_users_reachable c r l, of 3000] obtain x s2 where
    "fst (Authenticate wit_auth_sv False False 3000 ''tok1'' db2) = Inr (x, s2)" "u_PasswordHash x = wit_pw_hash ''battery staple''"
    by (auto simp: sv wit_hashes)
  with c r l show ?thesis by blast
qed

end
