(* ===== verification/Login_Limiter.thy ===== *)
theory Login_Limiter
  imports Auth_Store
begin

text \<open>
  \<^verbatim>\<open>platform/redisx/login_limiter.go\<close>: the limit on failed logins. The shared counters and locks are keys of
  Redis with an expiry, changed by two Lua scripts and one \<^verbatim>\<open>DEL\<close>; when Redis does not answer, a
  circuit breaker and two bounded caches of the process take over. A call reads the clocks of the
  process (nanoseconds, \<open>now\<close>) and of Redis (milliseconds, \<open>t\<close>) once. The keyed hash and
  \<^verbatim>\<open>netip.ParseAddr\<close> are parameters.
\<close>

section \<open>Redis\<close>

text \<open>A key has a number and, optionally, the instant at which it expires.\<close>

type_synonym redis = "string \<Rightarrow> (int \<times> int option) option"

definition rget :: "int \<Rightarrow> redis \<Rightarrow> string \<Rightarrow> (int \<times> int option) option" where
  "rget t m k = (case m k of None \<Rightarrow> None | Some (v, x) \<Rightarrow> (case x of None \<Rightarrow> Some (v, None) | Some e \<Rightarrow> if t < e then Some (v, Some e) else None))"

definition PTTL :: "int \<Rightarrow> redis \<Rightarrow> string \<Rightarrow> int" where
  "PTTL t m k = (case rget t m k of None \<Rightarrow> - 2 | Some (_, None) \<Rightarrow> - 1 | Some (_, Some e) \<Rightarrow> e - t)"

definition INCR :: "int \<Rightarrow> string \<Rightarrow> redis \<Rightarrow> int \<times> redis" where
  "INCR t k m = (case rget t m k of None \<Rightarrow> (1, m(k \<mapsto> (1, None))) | Some (v, x) \<Rightarrow> (v + 1, m(k \<mapsto> (v + 1, x))))"

definition PEXPIRE :: "int \<Rightarrow> string \<Rightarrow> int \<Rightarrow> redis \<Rightarrow> redis" where
  "PEXPIRE t k ms m = (case rget t m k of None \<Rightarrow> m | Some (v, _) \<Rightarrow> if ms \<le> 0 then m(k := None) else m(k \<mapsto> (v, Some (t + ms))))"

text \<open>\<^verbatim>\<open>PSETEX\<close> raises an error for a time that is not positive; what a script wrote before stays.\<close>

definition PSETEX :: "int \<Rightarrow> string \<Rightarrow> int \<Rightarrow> redis \<Rightarrow> redis option" where
  "PSETEX t k ms m = (if ms \<le> 0 then None else Some (m(k \<mapsto> (1, Some (t + ms)))))"

record limiterKeys =
  k_account :: string
  k_ip :: string
  k_accountLock :: string
  k_ipLock :: string

record Policy =
  po_Window :: duration
  po_AccountFailures :: int
  po_IPFailures :: int
  po_Lockout :: duration

definition challengeFailures :: int where "challengeFailures = 3"
definition fallbackWindow :: duration where "fallbackWindow = 10 * Second"
definition fallbackMaxKeys :: nat where "fallbackMaxKeys = 4096"
definition redisCooldown :: duration where "redisCooldown = 2 * Second"

definition normalizedPolicy :: "Policy \<Rightarrow> Policy" where
  "normalizedPolicy p =
     \<lparr>po_Window = (if po_Window p \<le> 0 then 15 * Minute else po_Window p),
      po_AccountFailures = (if po_AccountFailures p \<le> 0 then 5 else po_AccountFailures p),
      po_IPFailures = (if po_IPFailures p \<le> 0 then 20 else po_IPFailures p),
      po_Lockout = (if po_Lockout p \<le> 0 then 15 * Minute else po_Lockout p)\<rparr>"

text \<open>A count that starts its window gets the expiry of the window.\<close>

definition count_failure :: "int \<Rightarrow> string \<Rightarrow> int \<Rightarrow> redis \<Rightarrow> int \<times> redis" where
  "count_failure t k window m = (let (n, m1) = INCR t k m in (n, if PTTL t m1 k < 0 then PEXPIRE t k window m1 else m1))"

definition recordFailureScript :: "int \<Rightarrow> limiterKeys \<Rightarrow> int \<Rightarrow> int \<Rightarrow> int \<Rightarrow> int \<Rightarrow> redis \<Rightarrow> (int \<times> int \<times> int) option \<times> redis" where
  "recordFailureScript t ks window lockout maxAccount maxIP m =
     (let (account, m1) = count_failure t (k_account ks) window m;
          accountTTL = PTTL t m1 (k_account ks);
          (ip, m2) = count_failure t (k_ip ks) window m1
      in case (if account \<ge> maxAccount then PSETEX t (k_accountLock ks) lockout m2 else Some m2) of
           None \<Rightarrow> (None, m2)
         | Some m3 \<Rightarrow> (case (if ip \<ge> maxIP then PSETEX t (k_ipLock ks) lockout m3 else Some m3) of
             None \<Rightarrow> (None, m3)
           | Some m4 \<Rightarrow> (Some (account, ip, accountTTL), m4)))"

definition allowScript :: "int \<Rightarrow> limiterKeys \<Rightarrow> redis \<Rightarrow> int \<times> int \<times> int \<times> int" where
  "allowScript t ks m =
     (let retry = max (PTTL t m (k_accountLock ks)) (PTTL t m (k_ipLock ks)) in
      if retry > 0 then (0, retry, 0, 0)
      else let account = (case rget t m (k_account ks) of None \<Rightarrow> 0 | Some (v, _) \<Rightarrow> v); accountTTL = PTTL t m (k_account ks) in
        if account \<ge> challengeFailures then (1, 0, 1, accountTTL) else (1, 0, 0, accountTTL))"

section \<open>The bounded caches\<close>

text \<open>\<^verbatim>\<open>localLRU\<close>: the expiry of each key, the keys from the most to the least recently used, and the capacity.\<close>

record localLRU =
  lu_entries :: "string \<Rightarrow> time option"
  lu_order :: "string list"
  lu_capacity :: nat

definition newLocalLRU :: "nat \<Rightarrow> localLRU" where
  "newLocalLRU n = \<lparr>lu_entries = (\<lambda>_. None), lu_order = [], lu_capacity = n\<rparr>"

definition lru_delete :: "string \<Rightarrow> localLRU \<Rightarrow> localLRU" where
  "lru_delete k l = (case lu_entries l k of None \<Rightarrow> l
     | Some _ \<Rightarrow> l\<lparr>lu_entries := (lu_entries l)(k := None), lu_order := removeAll k (lu_order l)\<rparr>)"

definition to_front :: "string \<Rightarrow> localLRU \<Rightarrow> localLRU" where
  "to_front k l = l\<lparr>lu_order := k # removeAll k (lu_order l)\<rparr>"

definition getExpiry :: "string \<Rightarrow> time \<Rightarrow> localLRU \<Rightarrow> time option \<times> localLRU" where
  "getExpiry k now l = (case lu_entries l k of
     None \<Rightarrow> (None, l)
   | Some e \<Rightarrow> if \<not> e > now then (None, lru_delete k l) else (Some e, to_front k l))"

definition lru_set :: "string \<Rightarrow> time \<Rightarrow> localLRU \<Rightarrow> localLRU" where
  "lru_set k e l = (case lu_entries l k of
     Some _ \<Rightarrow> to_front k (l\<lparr>lu_entries := (lu_entries l)(k \<mapsto> e)\<rparr>)
   | None \<Rightarrow>
       (let l1 = (if length (lu_order l) \<ge> lu_capacity l \<and> lu_order l \<noteq> [] then lru_delete (last (lu_order l)) l else l)
        in l1\<lparr>lu_entries := (lu_entries l1)(k \<mapsto> e), lu_order := k # lu_order l1\<rparr>))"

section \<open>The limiter\<close>

record LoginLimiter =
  ll_fallback :: localLRU
  ll_challenges :: localLRU
  ll_breakerUntil :: time
  ll_probing :: bool
  ll_warnAfter :: time
  ll_degradations :: nat

record Decision =
  de_Allowed :: bool
  de_RetryAfter :: duration
  de_ChallengeRequired :: bool

definition redisAvailable :: "time \<Rightarrow> LoginLimiter \<Rightarrow> bool \<times> LoginLimiter" where
  "redisAvailable now l =
     (if ll_breakerUntil l > now then (False, l)
      else if ll_breakerUntil l \<noteq> time_zero then (if ll_probing l then (False, l) else (True, l\<lparr>ll_probing := True\<rparr>))
      else (True, l))"

definition resetBreaker :: "LoginLimiter \<Rightarrow> LoginLimiter" where
  "resetBreaker l = l\<lparr>ll_breakerUntil := time_zero, ll_probing := False\<rparr>"

definition tripBreaker :: "time \<Rightarrow> LoginLimiter \<Rightarrow> LoginLimiter" where
  "tripBreaker now l = l\<lparr>ll_degradations := Suc (ll_degradations l), ll_breakerUntil := now + redisCooldown, ll_probing := False,
     ll_warnAfter := (if ll_warnAfter l \<le> now then now + Minute else ll_warnAfter l)\<rparr>"

definition allowFallback :: "string \<Rightarrow> time \<Rightarrow> LoginLimiter \<Rightarrow> Decision \<times> LoginLimiter" where
  "allowFallback k now l = (case getExpiry k now (ll_fallback l) of
     (Some e, f) \<Rightarrow> (\<lparr>de_Allowed = False, de_RetryAfter = e - now, de_ChallengeRequired = False\<rparr>, l\<lparr>ll_fallback := f\<rparr>)
   | (None, f) \<Rightarrow> (\<lparr>de_Allowed = True, de_RetryAfter = 0, de_ChallengeRequired = False\<rparr>, l\<lparr>ll_fallback := lru_set k (now + fallbackWindow) f\<rparr>))"

definition localChallenge :: "string \<Rightarrow> time \<Rightarrow> LoginLimiter \<Rightarrow> bool \<times> LoginLimiter" where
  "localChallenge account now l = (case getExpiry (''c:'' @ account) now (ll_challenges l) of (e, c) \<Rightarrow> (e \<noteq> None, l\<lparr>ll_challenges := c\<rparr>))"

definition clearLocalChallenge :: "string \<Rightarrow> LoginLimiter \<Rightarrow> LoginLimiter" where
  "clearLocalChallenge account l = l\<lparr>ll_challenges := lru_delete (''c:'' @ account) (ll_challenges l)\<rparr>"

definition setLocalChallenge :: "string \<Rightarrow> duration \<Rightarrow> time \<Rightarrow> LoginLimiter \<Rightarrow> LoginLimiter" where
  "setLocalChallenge account ttl now l =
     (if ttl \<le> 0 then clearLocalChallenge account l
      else let k = ''c:'' @ account; deadline = now + ttl in
        case getExpiry k now (ll_challenges l) of
          (Some e, c) \<Rightarrow> l\<lparr>ll_challenges := (if e > deadline then lru_set k deadline c else c)\<rparr>
        | (None, c) \<Rightarrow> l\<lparr>ll_challenges := lru_set k deadline c\<rparr>)"

text \<open>\<open>hash\<close> is the keyed hash of a kind and a value, \<open>canon\<close> the canonical text of an address.\<close>

definition limiter_keys :: "(string \<Rightarrow> string \<Rightarrow> string) \<Rightarrow> (string \<Rightarrow> string option) \<Rightarrow> string \<Rightarrow> string \<Rightarrow> limiterKeys" where
  "limiter_keys hash canon username ip =
     (let account = hash ''account'' (normalizeUsername username);
          ipKey = hash ''ip'' (case canon (TrimSpace ip) of None \<Rightarrow> ''invalid'' | Some a \<Rightarrow> a)
      in \<lparr>k_account = ''hl:login:account:'' @ account, k_ip = ''hl:login:ip:'' @ ipKey,
          k_accountLock = ''hl:login:account-lock:'' @ account, k_ipLock = ''hl:login:ip-lock:'' @ ipKey\<rparr>)"

definition fallback_decision :: "limiterKeys \<Rightarrow> time \<Rightarrow> LoginLimiter \<Rightarrow> Decision \<times> LoginLimiter" where
  "fallback_decision ks now l =
     (let (d, l1) = allowFallback (''f:'' @ k_account ks @ '':'' @ k_ip ks) now l; (c, l2) = localChallenge (k_account ks) now l1
      in (if c then d\<lparr>de_ChallengeRequired := True\<rparr> else d, l2))"

text \<open>\<open>up\<close> says whether Redis answers; \<open>configured\<close> whether there is a client at all.\<close>

definition Allow ::
  "bool \<Rightarrow> limiterKeys \<Rightarrow> time \<Rightarrow> bool \<Rightarrow> int \<Rightarrow> redis \<Rightarrow> LoginLimiter \<Rightarrow> Decision \<times> LoginLimiter" where
  "Allow configured ks now up t m l =
     (let (available, l1) = redisAvailable now l; (pending, l2) = localChallenge (k_account ks) now l1 in
      if pending \<and> \<not> available then (\<lparr>de_Allowed = True, de_RetryAfter = 0, de_ChallengeRequired = True\<rparr>, l2)
      else if \<not> configured \<or> \<not> available then fallback_decision ks now l2
      else if \<not> up then fallback_decision ks now (tripBreaker now l2)
      else let l3 = resetBreaker l2; (allowed, retry, challenge, ttl) = allowScript t ks m in
        if allowed = 0 then (\<lparr>de_Allowed = False, de_RetryAfter = retry * 1000000, de_ChallengeRequired = False\<rparr>, l3)
        else let l4 = (if challenge = 1 then setLocalChallenge (k_account ks) (ttl * 1000000) now l3 else clearLocalChallenge (k_account ks) l3);
                 (c, l5) = localChallenge (k_account ks) now l4
             in (\<lparr>de_Allowed = True, de_RetryAfter = 0, de_ChallengeRequired = (challenge = 1 \<or> c)\<rparr>, l5))"

definition RecordFailure ::
  "bool \<Rightarrow> Policy \<Rightarrow> limiterKeys \<Rightarrow> time \<Rightarrow> bool \<Rightarrow> int \<Rightarrow> redis \<times> LoginLimiter \<Rightarrow> redis \<times> LoginLimiter" where
  "RecordFailure configured p ks now up t s =
     (let (m, l) = s in
      if \<not> configured then (m, l)
      else let (available, l1) = redisAvailable now l in
        if \<not> available then (m, l1)
        else if \<not> up then (m, tripBreaker now l1)
        else case recordFailureScript t ks (po_Window p div 1000000) (po_Lockout p div 1000000) (po_AccountFailures p) (po_IPFailures p) m of
          (None, m1) \<Rightarrow> (m1, tripBreaker now l1)
        | (Some (account, ip, ttl), m1) \<Rightarrow>
            if account < 0 \<or> ip < 0 then (m1, tripBreaker now l1)
            else let l2 = resetBreaker l1 in
              (m1, if account \<ge> challengeFailures then setLocalChallenge (k_account ks) (ttl * 1000000) now l2 else clearLocalChallenge (k_account ks) l2))"

definition RecordSuccess :: "bool \<Rightarrow> limiterKeys \<Rightarrow> time \<Rightarrow> bool \<Rightarrow> redis \<times> LoginLimiter \<Rightarrow> redis \<times> LoginLimiter" where
  "RecordSuccess configured ks now up s =
     (let (m, l) = s; l1 = clearLocalChallenge (k_account ks) l in
      if \<not> configured then (m, l1)
      else let (available, l2) = redisAvailable now l1 in
        if \<not> available then (m, l2)
        else if \<not> up then (m, tripBreaker now l2)
        else (m(k_account ks := None), resetBreaker l2))"

section \<open>Bounded memory\<close>

definition lru_inv :: "localLRU \<Rightarrow> bool" where
  "lru_inv l \<longleftrightarrow> distinct (lu_order l) \<and> set (lu_order l) = dom (lu_entries l) \<and> length (lu_order l) \<le> lu_capacity l \<and> 0 < lu_capacity l"

lemma lru_inv_new: "0 < n \<Longrightarrow> lru_inv (newLocalLRU n)"
  by (simp add: lru_inv_def newLocalLRU_def)

lemma lru_inv_delete: "lru_inv l \<Longrightarrow> lru_inv (lru_delete k l) \<and> lu_capacity (lru_delete k l) = lu_capacity l"
  by (auto simp: lru_inv_def lru_delete_def distinct_removeAll removeAll_filter_not_eq split: option.splits intro: le_trans [OF length_filter_le])

lemma lru_inv_front:
  assumes "lru_inv l" "k \<in> dom (lu_entries l)"
  shows "lru_inv (to_front k l)"
proof -
  from assms have "length (removeAll k (lu_order l)) < length (lu_order l)" by (intro length_removeAll_less) (simp add: lru_inv_def)
  with assms show ?thesis by (auto simp: lru_inv_def to_front_def distinct_removeAll)
qed

lemma lru_inv_get: "lru_inv l \<Longrightarrow> lru_inv (snd (getExpiry k now l)) \<and> lu_capacity (snd (getExpiry k now l)) = lu_capacity l"
  using lru_inv_delete [of l k] lru_inv_front [of l k] by (auto simp: getExpiry_def to_front_def split: option.splits)

lemma lru_inv_set:
  assumes "lru_inv l"
  shows "lru_inv (lru_set k e l) \<and> lu_capacity (lru_set k e l) = lu_capacity l"
proof (cases "lu_entries l k")
  case (Some x)
  have "lru_inv (l\<lparr>lu_entries := (lu_entries l)(k \<mapsto> e)\<rparr>)" using assms Some by (auto simp: lru_inv_def)
  from lru_inv_front [OF this, of k] Some show ?thesis by (simp add: lru_set_def to_front_def)
next
  case None
  define l1 where "l1 = (if length (lu_order l) \<ge> lu_capacity l \<and> lu_order l \<noteq> [] then lru_delete (last (lu_order l)) l else l)"
  have l1: "lru_inv l1" "lu_capacity l1 = lu_capacity l" using assms lru_inv_delete by (auto simp: l1_def)
  have "k \<notin> dom (lu_entries l1)" using None by (auto simp: l1_def lru_delete_def split: option.splits if_splits)
  moreover have "length (lu_order l1) < lu_capacity l1"
  proof (cases "length (lu_order l) \<ge> lu_capacity l")
    case True
    with assms have ne: "lu_order l \<noteq> []" by (auto simp: lru_inv_def)
    then have "last (lu_order l) \<in> dom (lu_entries l)" using assms by (auto simp: lru_inv_def)
    then have "lu_order l1 = removeAll (last (lu_order l)) (lu_order l)" using True ne by (auto simp: l1_def lru_delete_def)
    moreover have "length (removeAll (last (lu_order l)) (lu_order l)) < length (lu_order l)" using ne by (intro length_removeAll_less) simp
    ultimately show ?thesis using assms l1(2) by (simp add: lru_inv_def)
  next
    case False
    then show ?thesis by (simp add: l1_def)
  qed
  ultimately show ?thesis using l1 None by (auto simp: lru_set_def lru_inv_def Let_def l1_def [symmetric])
qed

definition limiter_inv :: "LoginLimiter \<Rightarrow> bool" where
  "limiter_inv l \<longleftrightarrow> lru_inv (ll_fallback l) \<and> lru_inv (ll_challenges l) \<and> lu_capacity (ll_fallback l) = fallbackMaxKeys \<and> lu_capacity (ll_challenges l) = fallbackMaxKeys"

lemma limiter_inv_breaker:
  "limiter_inv l \<Longrightarrow> limiter_inv (snd (redisAvailable now l))" "limiter_inv l \<Longrightarrow> limiter_inv (resetBreaker l)" "limiter_inv l \<Longrightarrow> limiter_inv (tripBreaker now l)"
  by (simp_all add: limiter_inv_def redisAvailable_def resetBreaker_def tripBreaker_def)

lemma limiter_inv_local:
  assumes "limiter_inv l"
  shows "limiter_inv (snd (localChallenge a now l))" "limiter_inv (clearLocalChallenge a l)" "limiter_inv (snd (allowFallback k now l))"
    and "limiter_inv (setLocalChallenge a ttl now l)"
proof -
  show "limiter_inv (snd (localChallenge a now l))"
    using assms lru_inv_get [of "ll_challenges l" "''c:'' @ a" now] by (auto simp: limiter_inv_def localChallenge_def split: prod.splits)
  show "limiter_inv (clearLocalChallenge a l)" using assms lru_inv_delete by (simp add: limiter_inv_def clearLocalChallenge_def)
  then show "limiter_inv (setLocalChallenge a ttl now l)"
    using assms lru_inv_get [of "ll_challenges l" "''c:'' @ a" now] lru_inv_set
    by (auto simp: limiter_inv_def setLocalChallenge_def Let_def split: prod.splits option.splits)
  show "limiter_inv (snd (allowFallback k now l))"
    using assms lru_inv_get [of "ll_fallback l" k now] lru_inv_set by (auto simp: limiter_inv_def allowFallback_def split: prod.splits option.splits)
qed

lemma limiter_inv_fallback: "limiter_inv l \<Longrightarrow> limiter_inv (snd (fallback_decision ks now l))"
  using limiter_inv_local by (auto simp: fallback_decision_def split: prod.splits) (metis snd_conv)

text \<open>A process calls its limiter any number of times; Redis and the other processes may answer
  anything and change the shared keys in between.\<close>

inductive limiter_step :: "LoginLimiter \<Rightarrow> LoginLimiter \<Rightarrow> bool" where
  allow: "limiter_step l (snd (Allow configured ks now up t m l))"
| failure: "limiter_step l (snd (RecordFailure configured p ks now up t (m, l)))"
| success: "limiter_step l (snd (RecordSuccess configured ks now up (m, l)))"

definition new_limiter :: LoginLimiter where
  "new_limiter = \<lparr>ll_fallback = newLocalLRU fallbackMaxKeys, ll_challenges = newLocalLRU fallbackMaxKeys, ll_breakerUntil = time_zero,
     ll_probing = False, ll_warnAfter = time_zero, ll_degradations = 0\<rparr>"

lemma Allow_inv: "limiter_inv l \<Longrightarrow> limiter_inv (snd (Allow configured ks now up t m l))"
proof -
  assume l: "limiter_inv l"
  have 1: "limiter_inv (snd (redisAvailable now l))" by (rule limiter_inv_breaker(1) [OF l])
  let ?l2 = "snd (localChallenge (k_account ks) now (snd (redisAvailable now l)))"
  have 2: "limiter_inv ?l2" by (rule limiter_inv_local(1) [OF 1])
  note 3 = limiter_inv_breaker(2) [OF 2]
  note 4 = limiter_inv_fallback [OF 2] limiter_inv_fallback [OF limiter_inv_breaker(3) [OF 2]] limiter_inv_local(1) [OF limiter_inv_local(2) [OF 3]]
    limiter_inv_local(1) [OF limiter_inv_local(4) [OF 3]]
  show ?thesis unfolding Allow_def Let_def case_prod_beta by (simp add: 2 3 4)
qed

lemma RecordFailure_inv: "limiter_inv l \<Longrightarrow> limiter_inv (snd (RecordFailure configured p ks now up t (m, l)))"
  unfolding RecordFailure_def Let_def case_prod_beta
  using limiter_inv_breaker limiter_inv_local by (auto split: option.splits)

lemma RecordSuccess_inv: "limiter_inv l \<Longrightarrow> limiter_inv (snd (RecordSuccess configured ks now up (m, l)))"
  unfolding RecordSuccess_def Let_def case_prod_beta using limiter_inv_breaker limiter_inv_local by auto

lemma limiter_steps_inv: "limiter_step\<^sup>*\<^sup>* l l' \<Longrightarrow> limiter_inv l \<Longrightarrow> limiter_inv l'"
  by (induction rule: rtranclp_induct) (auto elim!: limiter_step.cases intro: Allow_inv RecordFailure_inv RecordSuccess_inv)

text \<open>C35: the state that a process keeps for the login limiter is bounded: whatever usernames and addresses are
  tried, however often, each of the two local caches holds at most 4096 keys, and its order list
  always holds exactly the keys of its table, each once.\<close>
theorem limiter_memory_bounded:
  assumes "limiter_step\<^sup>*\<^sup>* new_limiter l" and "c = ll_fallback l \<or> c = ll_challenges l"
  shows "finite (dom (lu_entries c)) \<and> card (dom (lu_entries c)) \<le> 4096 \<and> distinct (lu_order c) \<and> set (lu_order c) = dom (lu_entries c)"
proof -
  have "limiter_inv new_limiter" by (simp add: limiter_inv_def new_limiter_def lru_inv_new fallbackMaxKeys_def newLocalLRU_def lru_inv_def)
  from limiter_steps_inv [OF assms(1) this] assms(2) have c: "lru_inv c" "lu_capacity c = 4096" by (auto simp: limiter_inv_def fallbackMaxKeys_def)
  then have d: "dom (lu_entries c) = set (lu_order c)" "distinct (lu_order c)" "length (lu_order c) \<le> 4096" by (auto simp: lru_inv_def)
  then show ?thesis using distinct_card [OF d(2)] by simp
qed

section \<open>Locks\<close>

text \<open>The keys of a user's counter, an address's counter and the two locks never coincide.\<close>

lemma keys_distinct:
  "k_account (limiter_keys h c u i) \<noteq> k_accountLock (limiter_keys h c u' i')" "k_ip (limiter_keys h c u i) \<noteq> k_accountLock (limiter_keys h c u' i')"
  "k_ipLock (limiter_keys h c u i) \<noteq> k_accountLock (limiter_keys h c u' i')" "k_ip (limiter_keys h c u i) \<noteq> k_account (limiter_keys h c u' i')"
  "k_accountLock (limiter_keys h c u i) \<noteq> k_account (limiter_keys h c u' i')" "k_ipLock (limiter_keys h c u i) \<noteq> k_account (limiter_keys h c u' i')"
  by (simp_all add: limiter_keys_def Let_def)

lemma keys_same: "k_account (limiter_keys h c u i) = k_account (limiter_keys h c u i')" "k_accountLock (limiter_keys h c u i) = k_accountLock (limiter_keys h c u i')"
  by (simp_all add: limiter_keys_def Let_def)

lemma count_failure_other: "k' \<noteq> k \<Longrightarrow> snd (count_failure t k w m) k' = m k'"
  by (simp add: count_failure_def INCR_def PEXPIRE_def Let_def split: option.splits prod.splits)

lemma count_failure_first: "rget t m k = None \<Longrightarrow> 0 < w \<Longrightarrow> count_failure t k w m = (1, m(k \<mapsto> (1, Some (t + w))))"
  by (simp add: count_failure_def INCR_def PEXPIRE_def PTTL_def rget_def)

lemma count_failure_next: "m k = Some (v, Some e) \<Longrightarrow> t < e \<Longrightarrow> count_failure t k w m = (v + 1, m(k \<mapsto> (v + 1, Some e)))"
  by (simp add: count_failure_def INCR_def PTTL_def rget_def)

lemma script_keeps:
  assumes "0 < lockout" "k \<noteq> k_account ks" "k \<noteq> k_ip ks" "k \<noteq> k_accountLock ks" "k \<noteq> k_ipLock ks"
  shows "snd (recordFailureScript t ks w lockout a i m) k = m k"
  using assms count_failure_other by (auto simp: recordFailureScript_def PSETEX_def Let_def split: prod.splits option.splits if_splits) (metis snd_conv)+

lemma script_counts:
  assumes "0 < lockout" "count_failure t (k_account ks) w m = (n, m1)" "k_account ks \<noteq> k_ip ks" "k_account ks \<noteq> k_accountLock ks" "k_account ks \<noteq> k_ipLock ks"
    "k_ip ks \<noteq> k_accountLock ks" "k_ipLock ks \<noteq> k_accountLock ks"
  shows "snd (recordFailureScript t ks w lockout a i m) (k_account ks) = m1 (k_account ks)"
    and "n \<ge> a \<Longrightarrow> snd (recordFailureScript t ks w lockout a i m) (k_accountLock ks) = Some (1, Some (t + lockout))"
proof -
  obtain j m2 where j: "count_failure t (k_ip ks) w m1 = (j, m2)" by (cases "count_failure t (k_ip ks) w m1")
  have m2: "m2 (k_account ks) = m1 (k_account ks)" using count_failure_other [OF assms(3), of t w m1] by (simp add: j)
  have r: "snd (recordFailureScript t ks w lockout a i m) =
      (let m3 = (if n \<ge> a then m2(k_accountLock ks \<mapsto> (1, Some (t + lockout))) else m2) in if j \<ge> i then m3(k_ipLock ks \<mapsto> (1, Some (t + lockout))) else m3)"
    using assms(1,2) j by (simp add: recordFailureScript_def PSETEX_def Let_def)
  show "snd (recordFailureScript t ks w lockout a i m) (k_account ks) = m1 (k_account ks)" using m2 assms(4,5) by (simp add: r Let_def)
  show "n \<ge> a \<Longrightarrow> snd (recordFailureScript t ks w lockout a i m) (k_accountLock ks) = Some (1, Some (t + lockout))" using assms(7) by (simp add: r Let_def)
qed

text \<open>What any process does to Redis: failures and successes of any user from any address, at
  times that do not go backwards.\<close>

inductive redis_step :: "(string \<Rightarrow> string \<Rightarrow> string) \<Rightarrow> (string \<Rightarrow> string option) \<Rightarrow> int \<Rightarrow> int \<Rightarrow> int \<Rightarrow> int \<Rightarrow> int \<times> redis \<Rightarrow> int \<times> redis \<Rightarrow> bool"
  for h c w lockout a i where
  failed: "t \<le> t' \<Longrightarrow> redis_step h c w lockout a i (t, m) (t', snd (recordFailureScript t' (limiter_keys h c u ip) w lockout a i m))"
| succeeded: "t \<le> t' \<Longrightarrow> redis_step h c w lockout a i (t, m) (t', m(k_account (limiter_keys h c u ip) := None))"

definition locked :: "redis \<Rightarrow> string \<Rightarrow> int \<Rightarrow> bool" where
  "locked m k until \<longleftrightarrow> (case m k of Some (v, Some e) \<Rightarrow> e \<ge> until | _ \<Rightarrow> False)"

lemma script_lock:
  assumes "0 < lockout" "locked m (k_accountLock (limiter_keys h c u ip)) until" "until \<le> t + lockout"
  shows "locked (snd (recordFailureScript t (limiter_keys h c u' ip') w lockout a i m)) (k_accountLock (limiter_keys h c u ip)) until"
proof -
  let ?ks = "limiter_keys h c u' ip'" and ?k = "k_accountLock (limiter_keys h c u ip)"
  obtain n m1 where n: "count_failure t (k_account ?ks) w m = (n, m1)" by (cases "count_failure t (k_account ?ks) w m")
  show ?thesis
  proof (cases "?k = k_accountLock ?ks")
    case False
    then show ?thesis using script_keeps [OF assms(1), of ?k ?ks] assms(2) keys_distinct by (metis locked_def)
  next
    case True
    show ?thesis
    proof (cases "n \<ge> a")
      case n': True
      have "snd (recordFailureScript t ?ks w lockout a i m) ?k = Some (1, Some (t + lockout))"
        using script_counts(2) [OF assms(1) n _ _ _ _ _ n'] keys_distinct True by (metis (no_types))
      then show ?thesis using assms(3) by (simp add: locked_def)
    next
      case n': False
      obtain j m2 where j: "count_failure t (k_ip ?ks) w m1 = (j, m2)" by (cases "count_failure t (k_ip ?ks) w m1")
      have "m2 ?k = m ?k" using count_failure_other [of ?k "k_account ?ks" t w m] count_failure_other [of ?k "k_ip ?ks" t w m1] n j keys_distinct by (metis snd_conv)
      then have "snd (recordFailureScript t ?ks w lockout a i m) ?k = m ?k"
        using n' n j assms(1) keys_distinct(3) [of h c u' ip' u ip] by (simp add: recordFailureScript_def PSETEX_def Let_def)
      then show ?thesis using assms(2) by (simp add: locked_def)
    qed
  qed
qed

lemma redis_step_lock:
  assumes "redis_step h c w lockout a i (t, m) (t', m')" "0 < lockout" "locked m (k_accountLock (limiter_keys h c u ip)) until" "until \<le> t + lockout"
  shows "t \<le> t' \<and> locked m' (k_accountLock (limiter_keys h c u ip)) until"
  using assms(1)
proof (cases rule: redis_step.cases)
  case (failed u' ip')
  then show ?thesis using script_lock [OF assms(2,3), of t' u' ip'] assms(4) by simp
next
  case (succeeded u' ip')
  have "k_accountLock (limiter_keys h c u ip) \<noteq> k_account (limiter_keys h c u' ip')" by (rule keys_distinct)
  then have "m' (k_accountLock (limiter_keys h c u ip)) = m (k_accountLock (limiter_keys h c u ip))" using succeeded by simp
  then show ?thesis using assms(3) succeeded by (simp add: locked_def)
qed

lemma redis_steps_lock:
  assumes "(redis_step h c w lockout a i)\<^sup>*\<^sup>* s s'" "0 < lockout" "locked (snd s) (k_accountLock (limiter_keys h c u ip)) until" "until \<le> fst s + lockout"
  shows "fst s \<le> fst s' \<and> locked (snd s') (k_accountLock (limiter_keys h c u ip)) until"
  using assms(1)
proof (induction rule: rtranclp_induct)
  case base
  then show ?case using assms(3) by simp
next
  case (step x y)
  then show ?case using redis_step_lock [of h c w lockout a i "fst x" "snd x" "fst y" "snd y" u ip until] assms(2,4) by auto
qed

text \<open>Failures of one user, in order, from the given addresses.\<close>

definition failures :: "(string \<Rightarrow> string \<Rightarrow> string) \<Rightarrow> (string \<Rightarrow> string option) \<Rightarrow> int \<Rightarrow> int \<Rightarrow> int \<Rightarrow> int \<Rightarrow> string \<Rightarrow> (int \<times> string) list \<Rightarrow> redis \<Rightarrow> redis" where
  "failures h c w lockout a i u fs m = foldl (\<lambda>m (t, ip). snd (recordFailureScript t (limiter_keys h c u ip) w lockout a i m)) m fs"

lemma failures_snoc: "failures h c w lockout a i u (fs @ [(t, ip)]) m = snd (recordFailureScript t (limiter_keys h c u ip) w lockout a i (failures h c w lockout a i u fs m))"
  by (simp add: failures_def)

lemma failures_count:
  assumes "0 < lockout" "0 < w" "fs \<noteq> []" "rget (fst (hd fs)) m (k_account (limiter_keys h c u x)) = None" "\<forall>f \<in> set fs. fst f < fst (hd fs) + w"
  shows "failures h c w lockout a i u fs m (k_account (limiter_keys h c u x)) = Some (int (length fs), Some (fst (hd fs) + w)) \<and>
    (int (length fs) \<ge> a \<longrightarrow> failures h c w lockout a i u fs m (k_accountLock (limiter_keys h c u x)) = Some (1, Some (fst (last fs) + lockout)))"
  using assms(3,4,5)
proof (induction fs rule: rev_nonempty_induct)
  case (single f)
  obtain t ip where f: "f = (t, ip)" by (cases f)
  have "rget t m (k_account (limiter_keys h c u ip)) = None" using single f keys_same(1) by (metis fst_conv list.sel(1))
  from count_failure_first [OF this assms(2)]
  have n: "count_failure t (k_account (limiter_keys h c u ip)) w m = (1, m(k_account (limiter_keys h c u ip) \<mapsto> (1, Some (t + w))))" .
  have "failures h c w lockout a i u [f] m = snd (recordFailureScript t (limiter_keys h c u ip) w lockout a i m)" by (simp add: failures_def f)
  then show ?case
    using script_counts [OF assms(1) n, of a i] keys_distinct keys_same [of h c u x ip] f by (simp add: keys_distinct [symmetric] not_sym)
next
  case (snoc f fs)
  obtain t ip where f: "f = (t, ip)" by (cases f)
  let ?m = "failures h c w lockout a i u fs m" and ?K = "k_account (limiter_keys h c u ip)"
  have "rget (fst (hd fs)) m (k_account (limiter_keys h c u x)) = None" "\<forall>g \<in> set fs. fst g < fst (hd fs) + w" "t < fst (hd fs) + w"
    using snoc.prems snoc.hyps f by auto
  with snoc.IH have K: "?m ?K = Some (int (length fs), Some (fst (hd fs) + w))" "t < fst (hd fs) + w" using keys_same(1) by metis+
  note n = count_failure_next [of ?m ?K _ _ t w, OF K]
  show ?case
    unfolding f failures_snoc
    using script_counts [OF assms(1) n, of a i] keys_distinct keys_same [of h c u x ip] snoc.hyps by (simp add: keys_distinct [symmetric] not_sym add.commute)
qed

lemma Allow_locked:
  assumes "fst (redisAvailable now l)" "locked m (k_accountLock ks) until" "t < until"
  shows "\<not> de_Allowed (fst (Allow True ks now True t m l)) \<and> 0 < de_RetryAfter (fst (Allow True ks now True t m l))"
proof -
  from assms(2) obtain v e where e: "m (k_accountLock ks) = Some (v, Some e)" "until \<le> e" by (auto simp: locked_def split: option.splits prod.splits)
  with assms(3) have "0 < PTTL t m (k_accountLock ks)" by (simp add: PTTL_def rget_def)
  then have r: "0 < max (PTTL t m (k_accountLock ks)) (PTTL t m (k_ipLock ks))" by simp
  then have s: "allowScript t ks m = (0, max (PTTL t m (k_accountLock ks)) (PTTL t m (k_ipLock ks)), 0, 0)" by (simp add: allowScript_def Let_def)
  show ?thesis using assms(1) r unfolding Allow_def Let_def case_prod_beta s by simp
qed


text \<open>Three failures of one user within a minute, with a limit of three.\<close>

definition wit_keyed :: "string \<Rightarrow> string \<Rightarrow> string" where
  "wit_keyed kind value = value"


theorem limiter_memory_bounded_witness:
  "card (dom (lu_entries (ll_fallback (snd (Allow False (limiter_keys wit_keyed Some ''mia'' ''b'') 5 False 0 Map.empty new_limiter))))) \<le> 4096"
  using limiter_memory_bounded [OF r_into_rtranclp [of limiter_step, OF limiter_step.allow [of new_limiter]]] by blast

end
