(* ===== verification/Outbox.thy ===== *)
theory Outbox
  imports Go_Strings Operations_Gate Lease_Protocol
begin

text \<open>
  Lesson notifications: \<^verbatim>\<open>internal/notifications/outbox.go\<close>,
  \<^verbatim>\<open>postgres_outbox.go\<close> and \<^verbatim>\<open>runner.go\<close>. The outbox rows, the notifications and the
  tables the delivery reads are the record \<open>outbox_db\<close>. A clock reading
  (\<^verbatim>\<open>clock_timestamp()\<close>) is an argument, one per statement. Parsing and printing of UUIDs
  is the library's: \<open>uuid_parse\<close> and \<open>uuid_text\<close> are arguments.
\<close>

section \<open>Data\<close>

definition OutboxBatchLimit :: nat where "OutboxBatchLimit = 50"
definition OutboxLeaseDuration :: duration where "OutboxLeaseDuration = 30 * Second"
definition OutboxMaxAttempts :: int where "OutboxMaxAttempts = 10"

text \<open>A \<^verbatim>\<open>jsonb\<close> value; \<open>JOther\<close> stands for booleans, arrays and numbers that are not
  integers.\<close>

datatype json = JNull | JString string | JInt int | JObject "(string \<times> json) list" | JOther

record outbox_row =
  oe_id :: uuid
  oe_kind :: string
  oe_payload :: json
  oe_created_at :: time
  oe_published_at :: "time option"
  oe_attempts :: int
  oe_next_attempt_at :: time
  oe_lease_owner :: "string option"
  oe_lease_until :: "time option"
  oe_last_error_category :: "string option"

record OutboxEvent =
  ev_ID :: uuid
  ev_Kind :: string
  ev_Payload :: json
  ev_Attempts :: int
  ev_LeaseOwner :: string
  ev_LeaseUntil :: time

record notification =
  nt_recipient :: uuid
  nt_kind :: string
  nt_title :: string
  nt_summary :: string
  nt_target_type :: string
  nt_target_id :: uuid
  nt_target_path :: string
  nt_dedupe_key :: string

text \<open>The rows the audience query joins: a finalized revision of a lesson with its audience
  mode, the selected users of a revision, and the users.\<close>

record audience_row =
  ar_lesson :: uuid
  ar_revision :: uuid
  ar_mode :: string

record student_row =
  su_id :: uuid
  su_role :: string
  su_status :: string
  su_deleted :: bool

record outbox_db =
  outbox_events :: "outbox_row list"
  notifications :: "notification list"
  revision_audiences :: "audience_row list"
  audience_users :: "(uuid \<times> uuid) list"
  outbox_users :: "student_row list"

datatype outbox_error = ErrInvalidInput | ErrLeaseLost | ErrPermanentOutbox string | ErrOutboxDriver

definition outboxErrorCategory :: "outbox_error \<Rightarrow> string" where
  "outboxErrorCategory e = (case e of ErrPermanentOutbox c \<Rightarrow> c | _ \<Rightarrow> ''delivery_failed'')"

section \<open>Payloads\<close>

text \<open>\<^verbatim>\<open>encoding/json\<close> matches an object's keys to the struct's fields without regard to
  case (simple folding also maps U+017F to s and U+212A to k).\<close>

definition fold_name :: "string \<Rightarrow> nat list" where
  "fold_name s = map (\<lambda>r. if 65 \<le> r \<and> r \<le> 90 then r + 32 else if r = 383 then 115 else if r = 8490 then 107 else r) (runes s)"

definition field :: "string \<Rightarrow> string list \<Rightarrow> string option" where
  "field key names = find (\<lambda>n. fold_name n = fold_name key) names"

text \<open>One field of the struct: its zero value stays on \<^verbatim>\<open>null\<close>; a UUID is read from a
  string, an integer from a number.\<close>

record payload_fields =
  pf_version :: int
  pf_lesson :: uuid
  pf_revision :: uuid

definition set_field ::
  "(string \<Rightarrow> uuid option) \<Rightarrow> string \<times> string \<times> string \<Rightarrow> string \<times> json \<Rightarrow> payload_fields \<Rightarrow> payload_fields option" where
  "set_field uuid_parse names entry pf = (case names of (vn, ln, rn) \<Rightarrow> (case entry of (key, v) \<Rightarrow>
     (case field key (filter (\<lambda>n. n \<noteq> []) [vn, ln, rn]) of
        None \<Rightarrow> None
      | Some n \<Rightarrow>
          (case v of
             JNull \<Rightarrow> Some pf
           | JInt i \<Rightarrow> if n = vn then Some (pf\<lparr>pf_version := i\<rparr>) else None
           | JString s \<Rightarrow>
               if n = vn then None
               else map_option (\<lambda>u. if n = ln then pf\<lparr>pf_lesson := u\<rparr> else pf\<lparr>pf_revision := u\<rparr>) (uuid_parse s)
           | _ \<Rightarrow> None))))"

fun decode_fields ::
  "(string \<Rightarrow> uuid option) \<Rightarrow> string \<times> string \<times> string \<Rightarrow> (string \<times> json) list \<Rightarrow> payload_fields \<Rightarrow> payload_fields option" where
  "decode_fields uuid_parse names [] pf = Some pf"
| "decode_fields uuid_parse names (e # es) pf =
     (case set_field uuid_parse names e pf of None \<Rightarrow> None | Some pf' \<Rightarrow> decode_fields uuid_parse names es pf')"

definition decode_struct :: "(string \<Rightarrow> uuid option) \<Rightarrow> string \<times> string \<times> string \<Rightarrow> json \<Rightarrow> payload_fields option" where
  "decode_struct uuid_parse names raw = (case raw of
     JObject es \<Rightarrow> decode_fields uuid_parse names es \<lparr>pf_version = 0, pf_lesson = uuid_Nil, pf_revision = uuid_Nil\<rparr>
   | JNull \<Rightarrow> Some \<lparr>pf_version = 0, pf_lesson = uuid_Nil, pf_revision = uuid_Nil\<rparr>
   | _ \<Rightarrow> None)"

definition decodeLessonPublicationPayload :: "(string \<Rightarrow> uuid option) \<Rightarrow> json \<Rightarrow> outbox_error + (uuid \<times> uuid)" where
  "decodeLessonPublicationPayload uuid_parse raw =
     (case decode_struct uuid_parse (''schemaVersion'', ''lessonId'', ''revisionId'') raw of
        Some pf \<Rightarrow>
          if pf_version pf = 1 \<and> pf_lesson pf \<noteq> uuid_Nil \<and> pf_revision pf \<noteq> uuid_Nil
          then Inr (pf_lesson pf, pf_revision pf)
          else
           (case decode_struct uuid_parse ([], ''lesson_id'', ''revision_id'') raw of
              Some l \<Rightarrow> if pf_lesson l \<noteq> uuid_Nil \<and> pf_revision l \<noteq> uuid_Nil then Inr (pf_lesson l, pf_revision l)
                        else Inl (ErrPermanentOutbox ''payload_invalid'')
            | None \<Rightarrow> Inl (ErrPermanentOutbox ''payload_invalid''))
      | None \<Rightarrow>
           (case decode_struct uuid_parse ([], ''lesson_id'', ''revision_id'') raw of
              Some l \<Rightarrow> if pf_lesson l \<noteq> uuid_Nil \<and> pf_revision l \<noteq> uuid_Nil then Inr (pf_lesson l, pf_revision l)
                        else Inl (ErrPermanentOutbox ''payload_invalid'')
            | None \<Rightarrow> Inl (ErrPermanentOutbox ''payload_invalid'')))"

definition retryDelay :: "int \<Rightarrow> duration" where
  "retryDelay attempts =
     (let attempts = (if attempts < 1 then 1 else attempts)
      in if attempts > 10 then 15 * Minute
         else (let d = Second * 2 ^ nat (attempts - 1) in if d > 15 * Minute then 15 * Minute else d))"

section \<open>Claiming\<close>

definition lease_free :: "time \<Rightarrow> outbox_row \<Rightarrow> bool" where
  "lease_free t e = (case oe_lease_until e of None \<Rightarrow> True | Some u \<Rightarrow> u \<le> t)"

definition outbox_order :: "outbox_row \<Rightarrow> time \<times> uuid" where
  "outbox_order e = (oe_created_at e, oe_id e)"

definition first_unlocked :: "(uuid \<Rightarrow> bool) \<Rightarrow> (outbox_row \<Rightarrow> bool) \<Rightarrow> outbox_row list \<Rightarrow> uuid list" where
  "first_unlocked busy p rows =
     map oe_id (take OutboxBatchLimit (filter (\<lambda>e. \<not> busy (oe_id e)) (sort_key outbox_order (filter p rows))))"

definition terminal_row :: "time \<Rightarrow> outbox_row \<Rightarrow> bool" where
  "terminal_row t e \<longleftrightarrow> oe_published_at e = None \<and> oe_attempts e \<ge> OutboxMaxAttempts \<and> lease_free t e"

definition ready_row :: "time \<Rightarrow> outbox_row \<Rightarrow> bool" where
  "ready_row t e \<longleftrightarrow> oe_published_at e = None \<and> oe_next_attempt_at e \<le> t \<and> oe_attempts e < OutboxMaxAttempts \<and> lease_free t e"

definition publish_row :: "string option \<Rightarrow> time \<Rightarrow> outbox_row \<Rightarrow> outbox_row" where
  "publish_row category t e = e\<lparr>oe_published_at := Some t, oe_lease_owner := None, oe_lease_until := None,
     oe_last_error_category := category\<rparr>"

definition lease_row :: "string \<Rightarrow> time \<Rightarrow> outbox_row \<Rightarrow> outbox_row" where
  "lease_row owner t e = e\<lparr>oe_lease_owner := Some owner, oe_lease_until := Some (t + OutboxLeaseDuration),
     oe_attempts := oe_attempts e + 1\<rparr>"

definition close_terminal :: "(uuid \<Rightarrow> bool) \<Rightarrow> time \<Rightarrow> outbox_db \<Rightarrow> outbox_db" where
  "close_terminal busy t db = (let ids = first_unlocked busy (terminal_row t) (outbox_events db)
     in db\<lparr>outbox_events := update_where (\<lambda>e. oe_id e \<in> set ids) (publish_row (Some ''max_attempts'') t) (outbox_events db)\<rparr>)"

definition event_of :: "outbox_row \<Rightarrow> OutboxEvent" where
  "event_of e = \<lparr>ev_ID = oe_id e, ev_Kind = oe_kind e, ev_Payload = oe_payload e, ev_Attempts = oe_attempts e,
     ev_LeaseOwner = (case oe_lease_owner e of None \<Rightarrow> [] | Some w \<Rightarrow> w),
     ev_LeaseUntil = (case oe_lease_until e of None \<Rightarrow> time_zero | Some u \<Rightarrow> u)\<rparr>"

definition Claim ::
  "bool \<Rightarrow> admission \<Rightarrow> (uuid \<Rightarrow> bool) \<Rightarrow> time \<Rightarrow> time \<Rightarrow> string \<Rightarrow> outbox_db \<Rightarrow> (outbox_error + OutboxEvent list) \<times> outbox_db" where
  "Claim fault adm busy t1 t2 owner db =
     (if TrimSpace owner = [] \<or> length owner > 160 then (Inl ErrInvalidInput, db)
      else transact fault ErrOutboxDriver (\<lambda>db.
        case AdmitClaim adm of
          Some ErrLeaseHeld \<Rightarrow> Inr ([], db)
        | Some _ \<Rightarrow> Inl ErrOutboxDriver
        | None \<Rightarrow>
            (let db1 = close_terminal busy t1 db;
                 ids = first_unlocked busy (ready_row t2) (outbox_events db1);
                 rows = update_where (\<lambda>e. oe_id e \<in> set ids) (lease_row owner t2) (outbox_events db1)
             in Inr (map event_of (filter (\<lambda>e. oe_id e \<in> set ids) rows), db1\<lparr>outbox_events := rows\<rparr>))) db)"

section \<open>Delivering, completing, failing\<close>

definition held :: "string \<Rightarrow> time \<Rightarrow> outbox_row \<Rightarrow> bool" where
  "held owner t e \<longleftrightarrow> oe_published_at e = None \<and> oe_lease_owner e = Some owner \<and>
     (case oe_lease_until e of None \<Rightarrow> False | Some u \<Rightarrow> u > t)"

definition active_student :: "student_row \<Rightarrow> bool" where
  "active_student u \<longleftrightarrow> su_role u = ''student'' \<and> su_status u = ''active'' \<and> \<not> su_deleted u"

definition audience :: "string \<Rightarrow> uuid \<Rightarrow> outbox_db \<Rightarrow> uuid list" where
  "audience mode revision db =
     (if mode = ''all'' then map su_id (filter active_student (outbox_users db))
      else concat (map (\<lambda>(r, uid). if r = revision
                 then map su_id (filter (\<lambda>u. su_id u = uid \<and> active_student u) (outbox_users db)) else [])
             (audience_users db)))"

definition lesson_notification :: "(uuid \<Rightarrow> string) \<Rightarrow> uuid \<Rightarrow> uuid \<Rightarrow> uuid \<Rightarrow> notification" where
  "lesson_notification uuid_text lesson revision recipient =
     \<lparr>nt_recipient = recipient, nt_kind = ''lesson_published'', nt_title = ''New lesson'',
      nt_summary = ''A new lesson is available.'', nt_target_type = ''lesson'', nt_target_id = lesson,
      nt_target_path = ''/student/learning/'' @ uuid_text lesson,
      nt_dedupe_key = ''lesson-published:'' @ uuid_text revision\<rparr>"

text \<open>\<^verbatim>\<open>INSERT ... ON CONFLICT(recipient_user_id,dedupe_key) DO NOTHING\<close>\<close>

definition insert_notification :: "notification \<Rightarrow> notification list \<Rightarrow> notification list" where
  "insert_notification n rows =
     (if list_ex (\<lambda>x. nt_recipient x = nt_recipient n \<and> nt_dedupe_key x = nt_dedupe_key n) rows then rows else rows @ [n])"

definition DeliverLessonPublication ::
  "bool \<Rightarrow> (string \<Rightarrow> uuid option) \<Rightarrow> (uuid \<Rightarrow> string) \<Rightarrow> time \<Rightarrow> time \<Rightarrow> OutboxEvent \<Rightarrow> string \<Rightarrow> outbox_db
     \<Rightarrow> (outbox_error + unit) \<times> outbox_db" where
  "DeliverLessonPublication fault uuid_parse uuid_text t1 t2 event owner db =
     (if ev_Kind event \<noteq> ''lesson.published'' then (Inl (ErrPermanentOutbox ''kind_unsupported''), db)
      else transact fault ErrOutboxDriver (\<lambda>db.
        case find (\<lambda>e. oe_id e = ev_ID event) (outbox_events db) of
          None \<Rightarrow> Inl ErrLeaseLost
        | Some e \<Rightarrow>
            if \<not> held owner t1 e then Inl ErrLeaseLost
            else if oe_kind e \<noteq> ''lesson.published'' then Inl (ErrPermanentOutbox ''kind_unsupported'')
            else case decodeLessonPublicationPayload uuid_parse (oe_payload e) of
              Inl err \<Rightarrow> Inl err
            | Inr (lesson, revision) \<Rightarrow>
                (case (case find (\<lambda>a. ar_lesson a = lesson \<and> ar_revision a = revision) (revision_audiences db) of
                         None \<Rightarrow> Inr db
                       | Some a \<Rightarrow>
                           if ar_mode a \<noteq> ''all'' \<and> ar_mode a \<noteq> ''selected''
                           then Inl (ErrPermanentOutbox ''audience_invalid'')
                           else Inr (db\<lparr>notifications := fold insert_notification
                                   (map (lesson_notification uuid_text lesson revision) (audience (ar_mode a) revision db))
                                   (notifications db)\<rparr>)) of
                   Inl err \<Rightarrow> Inl err
                 | Inr db1 \<Rightarrow>
                     (let p = (\<lambda>e. oe_id e = ev_ID event \<and> held owner t2 e)
                      in if rows_affected p (outbox_events db1) \<noteq> 1 then Inl ErrLeaseLost
                         else Inr ((), db1\<lparr>outbox_events := update_where p (publish_row None t2) (outbox_events db1)\<rparr>)))) db)"

definition Complete_event :: "bool \<Rightarrow> time \<Rightarrow> uuid \<Rightarrow> string \<Rightarrow> outbox_db \<Rightarrow> outbox_error option \<times> outbox_db" where
  "Complete_event fault t eid owner db =
     (if fault then (Some ErrOutboxDriver, db)
      else (let p = (\<lambda>e. oe_id e = eid \<and> held owner t e);
                db' = db\<lparr>outbox_events := update_where p (publish_row None t) (outbox_events db)\<rparr>
            in if rows_affected p (outbox_events db) \<noteq> 1 then (Some ErrLeaseLost, db') else (None, db')))"

definition stableOutboxCategories :: "string list" where
  "stableOutboxCategories = [''payload_invalid'', ''kind_unsupported'', ''audience_invalid'', ''delivery_failed'',
     ''lease_lost'', ''max_attempts'']"

definition retry_row :: "string \<Rightarrow> time \<Rightarrow> outbox_row \<Rightarrow> outbox_row" where
  "retry_row category at e = e\<lparr>oe_lease_owner := None, oe_lease_until := None, oe_next_attempt_at := at,
     oe_last_error_category := Some category\<rparr>"

definition Fail_event ::
  "bool \<Rightarrow> time \<Rightarrow> time \<Rightarrow> uuid \<Rightarrow> string \<Rightarrow> string \<Rightarrow> bool \<Rightarrow> outbox_db \<Rightarrow> (outbox_error + unit) \<times> outbox_db" where
  "Fail_event fault t1 t2 eid owner category0 permanent =
     (let category = (if category0 \<in> set stableOutboxCategories then category0 else ''delivery_failed'')
      in transact fault ErrOutboxDriver (\<lambda>db.
        case find (\<lambda>e. oe_id e = eid \<and> held owner t1 e) (outbox_events db) of
          None \<Rightarrow> Inl ErrLeaseLost
        | Some e \<Rightarrow>
            (let terminal = (permanent \<or> oe_attempts e \<ge> OutboxMaxAttempts);
                 p = (\<lambda>e. oe_id e = eid \<and> oe_lease_owner e = Some owner);
                 f = (if terminal then publish_row (Some category) t2
                      else retry_row category (t2 + retryDelay (oe_attempts e)))
             in Inr ((), db\<lparr>outbox_events := update_where p f (outbox_events db)\<rparr>))))"

section \<open>The runner\<close>

text \<open>What the environment decides while one event is handled.\<close>

record handling =
  hd_cancelled :: bool
  hd_deliver_fault :: bool
  hd_deliver_t1 :: time
  hd_deliver_t2 :: time
  hd_fail_fault :: bool
  hd_fail_t1 :: time
  hd_fail_t2 :: time

datatype batch_error = BatchStore outbox_error | BatchCancelled

fun handle_events ::
  "(string \<Rightarrow> uuid option) \<Rightarrow> (uuid \<Rightarrow> string) \<Rightarrow> (uuid \<Rightarrow> handling) \<Rightarrow> string \<Rightarrow> OutboxEvent list \<Rightarrow> outbox_db
     \<Rightarrow> batch_error option \<times> outbox_db" where
  "handle_events uuid_parse uuid_text env owner [] db = (None, db)"
| "handle_events uuid_parse uuid_text env owner (ev # evs) db =
     (let h = env (ev_ID ev)
      in if hd_cancelled h then (Some BatchCancelled, db)
         else case DeliverLessonPublication (hd_deliver_fault h) uuid_parse uuid_text (hd_deliver_t1 h) (hd_deliver_t2 h) ev owner db of
           (Inr _, db1) \<Rightarrow> handle_events uuid_parse uuid_text env owner evs db1
         | (Inl e, db1) \<Rightarrow>
             (let category = (if e = ErrLeaseLost then ''lease_lost'' else outboxErrorCategory e);
                  permanent = (case e of ErrPermanentOutbox _ \<Rightarrow> True | _ \<Rightarrow> False)
              in case Fail_event (hd_fail_fault h) (hd_fail_t1 h) (hd_fail_t2 h) (ev_ID ev) owner category permanent db1 of
                   (Inl fe, db2) \<Rightarrow>
                     if fe \<noteq> ErrLeaseLost then (Some (BatchStore fe), db2)
                     else handle_events uuid_parse uuid_text env owner evs db2
                 | (Inr _, db2) \<Rightarrow> handle_events uuid_parse uuid_text env owner evs db2))"

definition ProcessBatch ::
  "bool \<Rightarrow> (unit + bool) option \<Rightarrow> bool \<Rightarrow> admission \<Rightarrow> (uuid \<Rightarrow> bool) \<Rightarrow> time \<Rightarrow> time \<Rightarrow> (string \<Rightarrow> uuid option) \<Rightarrow> (uuid \<Rightarrow> string)
     \<Rightarrow> (uuid \<Rightarrow> handling) \<Rightarrow> string \<Rightarrow> outbox_db \<Rightarrow> batch_error option \<times> outbox_db" where
  "ProcessBatch configured gate fault adm busy t1 t2 uuid_parse uuid_text env owner db =
     (if \<not> configured \<or> owner = [] then (Some (BatchStore ErrInvalidInput), db)
      else if gate = Some (Inl ()) \<or> gate = Some (Inr False) then (None, db)
      else case Claim fault adm busy t1 t2 owner db of
        (Inl e, db1) \<Rightarrow> (Some (BatchStore e), db1)
      | (Inr events, db1) \<Rightarrow> handle_events uuid_parse uuid_text env owner events db1)"

section \<open>Events follow the lease protocol\<close>

definition event_view :: "outbox_row \<Rightarrow> lease_view" where
  "event_view e = \<lparr>lv_attempts = oe_attempts e, lv_holder = oe_lease_owner e, lv_closed = (oe_published_at e \<noteq> None)\<rparr>"

definition events_move :: "outbox_row list \<Rightarrow> outbox_row list \<Rightarrow> bool" where
  "events_move rows rows' = list_all2 (\<lambda>e e'. oe_id e' = oe_id e \<and> lease_move 10 (event_view e) (event_view e')) rows rows'"

lemma events_move_refl [simp]: "events_move rows rows"
  by (simp add: events_move_def list_all2_same)

lemma events_move_update:
  assumes "\<And>e. e \<in> set rows \<Longrightarrow> p e \<Longrightarrow> oe_id (f e) = oe_id e \<and> lease_move 10 (event_view e) (event_view (f e))"
  shows "events_move rows (update_where p f rows)"
  using assms unfolding events_move_def update_where_def list.rel_map list_all2_same by auto

lemma first_unlocked_mem:
  assumes "keyed oe_id rows" and "e \<in> set rows" and "oe_id e \<in> set (first_unlocked busy p rows)"
  shows "p e"
proof -
  obtain x where "x \<in> set (filter p rows)" "oe_id x = oe_id e"
    using assms(3) unfolding first_unlocked_def by (auto dest!: in_set_takeD)
  with assms(1,2) keyed_inj show ?thesis by fastforce
qed

lemma publish_move: "oe_published_at e = None \<Longrightarrow> oe_id (publish_row c t e) = oe_id e \<and> lease_move 10 (event_view e) (event_view (publish_row c t e))"
  by (simp add: lease_move_def event_view_def publish_row_def)

lemma retry_move: "oe_published_at e = None \<Longrightarrow> oe_id (retry_row c t e) = oe_id e \<and> lease_move 10 (event_view e) (event_view (retry_row c t e))"
  by (simp add: lease_move_def event_view_def retry_row_def)

lemma lease_row_move: "ready_row t e \<Longrightarrow> oe_id (lease_row w t e) = oe_id e \<and> lease_move 10 (event_view e) (event_view (lease_row w t e))"
  by (auto simp: lease_move_def event_view_def lease_row_def ready_row_def OutboxMaxAttempts_def)

lemma keyed_close_terminal:
  "keyed oe_id (outbox_events db) \<Longrightarrow> keyed oe_id (outbox_events (close_terminal busy t db))"
  unfolding close_terminal_def Let_def by (simp, rule keyed_update_where) (simp_all add: publish_row_def)

lemma Claim_move:
  assumes k: "keyed oe_id (outbox_events db)"
  shows "events_move (outbox_events db) (outbox_events (snd (Claim fault adm busy t1 t2 owner db)))"
proof (cases "TrimSpace owner = [] \<or> length owner > 160")
  case False
  let ?db1 = "close_terminal busy t1 db"
  let ?T = "set (first_unlocked busy (terminal_row t1) (outbox_events db))"
  let ?R = "set (first_unlocked busy (ready_row t2) (outbox_events ?db1))"
  let ?g = "\<lambda>e. if oe_id e \<in> ?T then publish_row (Some ''max_attempts'') t1 e else e"
  let ?h = "\<lambda>e. if oe_id e \<in> ?R then lease_row owner t2 e else e"
  have rows1: "outbox_events ?db1 = map ?g (outbox_events db)"
    by (simp add: close_terminal_def update_where_def)
  have "oe_id (?h (?g e)) = oe_id e \<and> lease_move 10 (event_view e) (event_view (?h (?g e)))"
    if e: "e \<in> set (outbox_events db)" for e
  proof -
    have g: "?g e \<in> set (outbox_events ?db1)" using e by (simp add: rows1)
    have id: "oe_id (?g e) = oe_id e" by (simp add: publish_row_def)
    show ?thesis
    proof (cases "oe_id e \<in> ?T")
      case True
      then have open_e: "oe_published_at e = None"
        using first_unlocked_mem [OF k e, of busy "terminal_row t1"] by (simp add: terminal_row_def)
      have "\<not> ready_row t2 (?g e)" using True by (simp add: ready_row_def publish_row_def)
      then have "oe_id (?g e) \<notin> ?R"
        using first_unlocked_mem [OF keyed_close_terminal [OF k] g, of busy "ready_row t2"] by blast
      with True id publish_move [OF open_e, of "Some ''max_attempts''" t1] show ?thesis by simp
    next
      case False
      then have "oe_id e \<in> ?R \<Longrightarrow> ready_row t2 e"
        using first_unlocked_mem [OF keyed_close_terminal [OF k] g, of busy "ready_row t2"] by simp
      with False lease_row_move [of t2 e owner] show ?thesis by simp
    qed
  qed
  then have moved: "events_move (outbox_events db) (map ?h (map ?g (outbox_events db)))"
    unfolding events_move_def map_map list.rel_map list_all2_same by simp
  show ?thesis
    unfolding Claim_def if_not_P [OF False]
    by (rule transact_invariant [where I = "\<lambda>d. events_move (outbox_events db) (outbox_events d)"], simp)
      (use moved in \<open>auto simp: Let_def rows1 update_where_def split: option.splits ops_error.splits\<close>)
qed (auto simp: Claim_def)

lemma DeliverLessonPublication_move:
  "events_move (outbox_events db) (outbox_events (snd (DeliverLessonPublication fault up ut t1 t2 ev owner db)))"
proof (cases "ev_Kind ev = ''lesson.published''")
  case True
  have moved: "events_move rows (update_where (\<lambda>e. oe_id e = ev_ID ev \<and> held owner t2 e) (publish_row None t2) rows)" for rows
    by (rule events_move_update, rule publish_move) (simp add: held_def)
  show ?thesis
    unfolding DeliverLessonPublication_def
    by (simp add: True, rule transact_invariant [where I = "\<lambda>d. events_move (outbox_events db) (outbox_events d)"], simp)
      (use moved in \<open>auto simp: Let_def split: option.splits if_splits sum.splits prod.splits\<close>)
qed (simp add: DeliverLessonPublication_def)

lemma Complete_event_move:
  "events_move (outbox_events db) (outbox_events (snd (Complete_event fault t eid owner db)))"
proof -
  have "events_move rows (update_where (\<lambda>e. oe_id e = eid \<and> held owner t e) (publish_row None t) rows)" for rows
    by (rule events_move_update, rule publish_move) (simp add: held_def)
  then show ?thesis by (simp add: Complete_event_def Let_def)
qed

lemma Fail_event_move:
  assumes k: "keyed oe_id (outbox_events db)"
  shows "events_move (outbox_events db) (outbox_events (snd (Fail_event fault t1 t2 eid owner category permanent db)))"
  unfolding Fail_event_def Let_def
proof (rule transact_invariant [where I = "\<lambda>d. events_move (outbox_events db) (outbox_events d)"], simp, goal_cases)
  case (1 x db')
  then obtain e where e: "find (\<lambda>e. oe_id e = eid \<and> held owner t1 e) (outbox_events db) = Some e"
    by (auto split: option.splits)
  have open_row: "oe_published_at x = None" if "x \<in> set (outbox_events db)" "oe_id x = eid" for x
  proof -
    have "x = e" using keyed_inj [OF k that(1)] find_SomeD [OF e] that(2) by blast
    then show ?thesis using find_SomeD [OF e] by (simp add: held_def)
  qed
  from 1 e show ?case
    by (auto split: if_split_asm intro!: events_move_update publish_move retry_move open_row)
qed

text \<open>One rule per transaction, and one for the publication that inserts an event with the
  column defaults.\<close>

inductive outbox_step :: "outbox_db \<Rightarrow> outbox_db \<Rightarrow> bool" where
  step_publish: "oe_id e \<notin> oe_id ` set (outbox_events db) \<Longrightarrow> lease_fresh (event_view e) \<Longrightarrow>
     outbox_step db (db\<lparr>outbox_events := outbox_events db @ [e]\<rparr>)"
| step_claim: "outbox_step db (snd (Claim fault adm busy t1 t2 owner db))"
| step_deliver: "outbox_step db (snd (DeliverLessonPublication fault up ut t1 t2 ev owner db))"
| step_complete: "outbox_step db (snd (Complete_event fault t eid owner db))"
| step_fail: "outbox_step db (snd (Fail_event fault t1 t2 eid owner category permanent db))"

lemma events_move_ids: "events_move rows rows' \<Longrightarrow> map oe_id rows' = map oe_id rows"
  unfolding events_move_def by (induction rule: list_all2_induct) auto

lemma events_move_row:
  assumes "events_move rows rows'" and "e \<in> set rows"
  shows "\<exists>e' \<in> set rows'. oe_id e' = oe_id e \<and> lease_move 10 (event_view e) (event_view e')"
proof -
  obtain i where i: "i < length rows" "e = rows ! i" using assms(2) by (auto simp: in_set_conv_nth)
  with assms(1) have "rows' ! i \<in> set rows'" "oe_id (rows' ! i) = oe_id e"
    "lease_move 10 (event_view e) (event_view (rows' ! i))"
    by (auto simp: events_move_def list_all2_conv_all_nth)
  then show ?thesis by blast
qed

lemma outbox_step_events:
  assumes "outbox_step db db'" and "keyed oe_id (outbox_events db)"
  shows "events_move (outbox_events db) (outbox_events db') \<or>
    (\<exists>e. oe_id e \<notin> oe_id ` set (outbox_events db) \<and> lease_fresh (event_view e) \<and> outbox_events db' = outbox_events db @ [e])"
  using assms
proof cases
  case (step_publish e)
  then show ?thesis by auto
qed (simp_all add: Claim_move DeliverLessonPublication_move Complete_event_move Fail_event_move)

interpretation event_queue: leased_queue outbox_events oe_id event_view outbox_step 10
proof
  fix db db' :: outbox_db assume k: "keyed oe_id (outbox_events db)" and st: "outbox_step db db'"
  note moves = outbox_step_events [OF st k]
  show "keyed oe_id (outbox_events db')"
    using moves k events_move_ids by (auto simp: keyed_def)
  fix e
  show "\<exists>e' \<in> set (outbox_events db'). oe_id e' = oe_id e \<and> lease_move 10 (event_view e) (event_view e')"
    if "e \<in> set (outbox_events db)"
    using moves that events_move_row by (elim disjE) auto
  show "lease_fresh (event_view e)" if e: "e \<in> set (outbox_events db')" "oe_id e \<notin> oe_id ` set (outbox_events db)"
    using moves
  proof
    assume "events_move (outbox_events db) (outbox_events db')"
    from events_move_ids [OF this] e show ?thesis by (metis image_eqI list.set_map)
  qed (use e in auto)
qed simp

definition event_attempts :: "uuid \<Rightarrow> outbox_db \<Rightarrow> int" where
  "event_attempts eid db = (case find (\<lambda>e. oe_id e = eid) (outbox_events db) of None \<Rightarrow> 0 | Some e \<Rightarrow> oe_attempts e)"

lemma event_attempts_of: "event_queue.attempts_of = event_attempts"
  by (intro ext) (simp add: event_queue.attempts_of_def event_queue.row_of_def event_attempts_def event_view_def split: option.split)

text \<open>However runners interleave, crash and lose their leases, an outbox event is handed out at
  most ten times.\<close>

theorem event_claimed_at_most_ten_times:
  assumes "successively outbox_step (db # dbs)" and "keyed oe_id (outbox_events db)"
    and "\<forall>e \<in> set (outbox_events db). lease_fresh (event_view e)"
  shows "claims (event_attempts eid) (db # dbs) \<le> 10"
proof -
  have "event_queue.within db" using assms(2,3) by (auto simp: event_queue.within_def lease_fresh_def)
  from event_queue.claims_bounded [OF this assms(1), of eid] show ?thesis by (simp add: event_attempts_of)
qed

text \<open>A published event is final. Along every execution, once an event is published neither
  its attempts nor its lease nor its published state changes again, so no runner delivers
  it a second time.\<close>

theorem published_event_final:
  assumes "successively outbox_step (db # dbs)" and "keyed oe_id (outbox_events db)"
    and "e \<in> set (outbox_events db)" "oe_published_at e \<noteq> None"
  shows "\<exists>e' \<in> set (outbox_events (last (db # dbs))). oe_id e' = oe_id e \<and> oe_published_at e' \<noteq> None \<and>
    oe_attempts e' = oe_attempts e \<and> oe_lease_owner e' = oe_lease_owner e"
proof -
  have "event_queue.row_of (oe_id e) db = Some e" using event_queue.row_of_eq [OF assms(2,3)] .
  from event_queue.closed_forever [OF assms(1,2) this] assms(4)
  obtain e' where "event_queue.row_of (oe_id e) (last (db # dbs)) = Some e'" "event_view e' = event_view e"
    by (auto simp: event_view_def)
  with event_queue.row_of_SomeD [of "oe_id e" "last (db # dbs)" e'] assms(4) show ?thesis
    by (intro bexI [of _ e']) (auto simp: event_view_def)
qed

section \<open>Exactly one notification per student\<close>

definition note_key :: "notification \<Rightarrow> uuid \<times> string" where
  "note_key n = (nt_recipient n, nt_dedupe_key n)"

lemma keyed_exactly_one:
  assumes "keyed k rows" and "v \<in> k ` set rows"
  shows "length (filter (\<lambda>r. k r = v) rows) = 1"
  using assms
proof (induction rows)
  case (Cons r rows)
  show ?case
  proof (cases "k r = v")
    case True
    with Cons.prems have "filter (\<lambda>r. k r = v) rows = []"
      by (simp add: keyed_def filter_empty_conv) (metis imageI)
    with True show ?thesis by simp
  qed (use Cons in \<open>auto simp: keyed_def\<close>)
qed simp

lemma insert_notification_alt:
  "insert_notification n rows = (if note_key n \<in> note_key ` set rows then rows else rows @ [n])"
proof -
  have "list_ex (\<lambda>x. nt_recipient x = nt_recipient n \<and> nt_dedupe_key x = nt_dedupe_key n) rows \<longleftrightarrow> note_key n \<in> note_key ` set rows"
    unfolding list_ex_iff image_iff by (simp add: note_key_def eq_commute)
  then show ?thesis unfolding insert_notification_def by presburger
qed

lemma insert_notification_keys:
  "note_key ` set (insert_notification n rows) = insert (note_key n) (note_key ` set rows)"
  unfolding insert_notification_alt by (simp add: insert_absorb)

lemma insert_notification_keyed: "keyed note_key rows \<Longrightarrow> keyed note_key (insert_notification n rows)"
proof (cases "note_key n \<in> note_key ` set rows")
  case False
  assume k: "keyed note_key rows"
  have "keyed note_key (rows @ [n])"
    by (rule keyed_append1 [OF k]) (use False in \<open>metis imageI\<close>)
  then show ?thesis unfolding insert_notification_alt if_not_P [OF False] .
qed (simp only: insert_notification_alt if_True)

lemma insert_notification_set: "set rows \<subseteq> set (insert_notification n rows)"
  "set (insert_notification n rows) \<subseteq> insert n (set rows)"
  by (auto simp: insert_notification_def)

lemma fold_insert_keyed: "keyed note_key rows \<Longrightarrow> keyed note_key (fold insert_notification ns rows)"
  by (induction ns arbitrary: rows) (auto intro: insert_notification_keyed)

lemma fold_insert_keys:
  "note_key ` set (fold insert_notification ns rows) = note_key ` set ns \<union> note_key ` set rows"
  by (induction ns arbitrary: rows) (simp_all add: insert_notification_keys)

lemma fold_insert_set: "set rows \<subseteq> set (fold insert_notification ns rows) \<and> set (fold insert_notification ns rows) \<subseteq> set ns \<union> set rows"
proof (induction ns arbitrary: rows)
  case (Cons n ns)
  show ?case
    using Cons [of "insert_notification n rows"] insert_notification_set [where n = n and rows = rows] unfolding fold_simps by auto
qed simp

lemma fold_insert_idem: "note_key ` set ns \<subseteq> note_key ` set rows \<Longrightarrow> fold insert_notification ns rows = rows"
proof (induction ns)
  case (Cons n ns)
  then have "insert_notification n rows = rows"
    by (simp add: insert_notification_alt)
  with Cons show ?case by simp
qed simp

lemma Deliver_InrD:
  assumes "DeliverLessonPublication fault up ut t1 t2 ev owner db = (Inr x, db')"
  obtains e lesson revision where "find (\<lambda>e. oe_id e = ev_ID ev) (outbox_events db) = Some e" "held owner t1 e"
    "oe_kind e = ''lesson.published''" "decodeLessonPublicationPayload up (oe_payload e) = Inr (lesson, revision)"
    "notifications db' = (case find (\<lambda>a. ar_lesson a = lesson \<and> ar_revision a = revision) (revision_audiences db) of
       None \<Rightarrow> notifications db
     | Some a \<Rightarrow> fold insert_notification (map (lesson_notification ut lesson revision) (audience (ar_mode a) revision db)) (notifications db))"
    "outbox_events db' = update_where (\<lambda>e. oe_id e = ev_ID ev \<and> held owner t2 e) (publish_row None t2) (outbox_events db)"
    "rows_affected (\<lambda>e. oe_id e = ev_ID ev \<and> held owner t2 e) (outbox_events db) = 1"
proof -
  from assms obtain e where e: "find (\<lambda>e. oe_id e = ev_ID ev) (outbox_events db) = Some e" "held owner t1 e"
      "oe_kind e = ''lesson.published''"
    by (auto simp: DeliverLessonPublication_def transact_def split: if_splits option.splits)
  with assms obtain lesson revision where d: "decodeLessonPublicationPayload up (oe_payload e) = Inr (lesson, revision)"
    by (auto simp: DeliverLessonPublication_def transact_def split: if_splits sum.splits)
  from assms e d show ?thesis
    by (intro that [OF e d])
      (auto simp: DeliverLessonPublication_def transact_def Let_def split: if_splits option.splits)
qed


text \<open>Inserting a lesson's notifications for a list of recipients, none of them twice.\<close>

lemma lesson_notifications_inserted:
  fixes ns and ut :: "uuid \<Rightarrow> string" and lesson revision :: uuid
  defines "rows \<equiv> \<lambda>rs. map (lesson_notification ut lesson revision) rs"
  assumes k: "keyed note_key ns"
  shows "s \<in> set rs \<Longrightarrow> length (filter (\<lambda>n. note_key n = (s, ''lesson-published:'' @ ut revision)) (fold insert_notification (rows rs) ns)) = 1"
    and "n \<in> set (fold insert_notification (rows rs) ns) - set ns \<Longrightarrow> nt_recipient n \<in> set rs \<and> nt_target_id n = lesson"
    and "fold insert_notification (rows rs) (fold insert_notification (rows rs) ns) = fold insert_notification (rows rs) ns"
proof -
  have keys: "note_key ` set (fold insert_notification (rows rs) ns) = note_key ` set (rows rs) \<union> note_key ` set ns"
    by (rule fold_insert_keys)
  show "length (filter (\<lambda>n. note_key n = (s, ''lesson-published:'' @ ut revision)) (fold insert_notification (rows rs) ns)) = 1" if "s \<in> set rs"
  proof (rule keyed_exactly_one)
    show "keyed note_key (fold insert_notification (rows rs) ns)" using k by (rule fold_insert_keyed)
    have "(s, ''lesson-published:'' @ ut revision) \<in> note_key ` set (rows rs)"
      using that by (force simp: rows_def lesson_notification_def note_key_def)
    with keys show "(s, ''lesson-published:'' @ ut revision) \<in> note_key ` set (fold insert_notification (rows rs) ns)" by blast
  qed
  show "nt_recipient n \<in> set rs \<and> nt_target_id n = lesson" if "n \<in> set (fold insert_notification (rows rs) ns) - set ns"
    using that fold_insert_set [of ns "rows rs"] by (auto simp: rows_def lesson_notification_def)
  show "fold insert_notification (rows rs) (fold insert_notification (rows rs) ns) = fold insert_notification (rows rs) ns"
    by (rule fold_insert_idem) (use keys in blast)
qed

text \<open>C18: A successful delivery notifies the audience exactly once. The event was held by the
  caller and is now published; notifications stay unique per recipient and deduplication
  key; for the audience mode of the finalized revision every active student it selects has
  exactly one notification of that lesson, nobody else got a new one, and delivering the
  same revision again would add nothing.\<close>

theorem deliver_notifies_once:
  assumes run: "DeliverLessonPublication fault up ut t1 t2 ev owner db = (Inr x, db')"
    and k: "keyed oe_id (outbox_events db)" "keyed note_key (notifications db)"
  shows "keyed note_key (notifications db') \<and> set (notifications db) \<subseteq> set (notifications db') \<and>
    (\<exists>e' \<in> set (outbox_events db'). oe_id e' = ev_ID ev \<and> oe_published_at e' = Some t2 \<and> oe_lease_owner e' = None) \<and>
    (\<exists>e lesson revision. e \<in> set (outbox_events db) \<and> oe_id e = ev_ID ev \<and> held owner t1 e \<and>
       decodeLessonPublicationPayload up (oe_payload e) = Inr (lesson, revision) \<and>
       (\<forall>a. find (\<lambda>a. ar_lesson a = lesson \<and> ar_revision a = revision) (revision_audiences db) = Some a \<longrightarrow>
          (\<forall>s \<in> set (audience (ar_mode a) revision db).
             length (filter (\<lambda>n. note_key n = (s, ''lesson-published:'' @ ut revision)) (notifications db')) = 1) \<and>
          (\<forall>n \<in> set (notifications db') - set (notifications db).
             nt_recipient n \<in> set (audience (ar_mode a) revision db) \<and> nt_target_id n = lesson) \<and>
          fold insert_notification (map (lesson_notification ut lesson revision) (audience (ar_mode a) revision db))
            (notifications db') = notifications db'))"
proof -
  from run obtain e lesson revision where e: "find (\<lambda>e. oe_id e = ev_ID ev) (outbox_events db) = Some e" "held owner t1 e"
    and d: "decodeLessonPublicationPayload up (oe_payload e) = Inr (lesson, revision)"
    and n: "notifications db' = (case find (\<lambda>a. ar_lesson a = lesson \<and> ar_revision a = revision) (revision_audiences db) of
       None \<Rightarrow> notifications db
     | Some a \<Rightarrow> fold insert_notification (map (lesson_notification ut lesson revision) (audience (ar_mode a) revision db)) (notifications db))"
    and ev: "outbox_events db' = update_where (\<lambda>e. oe_id e = ev_ID ev \<and> held owner t2 e) (publish_row None t2) (outbox_events db)"
    and one: "rows_affected (\<lambda>e. oe_id e = ev_ID ev \<and> held owner t2 e) (outbox_events db) = 1"
    by (rule Deliver_InrD)
  from one obtain e2 where e2: "e2 \<in> set (outbox_events db)" "oe_id e2 = ev_ID ev" "held owner t2 e2"
    using rows_affected_witness by blast
  have published: "\<exists>e' \<in> set (outbox_events db'). oe_id e' = ev_ID ev \<and> oe_published_at e' = Some t2 \<and> oe_lease_owner e' = None"
    unfolding ev set_update_where using e2 by (intro bexI [of _ "publish_row None t2 e2"]) (auto simp: publish_row_def image_iff intro!: bexI [of _ e2])
  have keyed': "keyed note_key (notifications db')" "set (notifications db) \<subseteq> set (notifications db')"
    unfolding n using k(2) fold_insert_set by (auto split: option.splits intro!: fold_insert_keyed)
  have each: "(\<forall>s \<in> set (audience (ar_mode a) revision db).
         length (filter (\<lambda>n. note_key n = (s, ''lesson-published:'' @ ut revision)) (notifications db')) = 1) \<and>
      (\<forall>n \<in> set (notifications db') - set (notifications db). nt_recipient n \<in> set (audience (ar_mode a) revision db) \<and> nt_target_id n = lesson) \<and>
      fold insert_notification (map (lesson_notification ut lesson revision) (audience (ar_mode a) revision db)) (notifications db') = notifications db'"
    if "find (\<lambda>a. ar_lesson a = lesson \<and> ar_revision a = revision) (revision_audiences db) = Some a" for a
    unfolding n that option.case using lesson_notifications_inserted [OF k(2)] by blast
  show ?thesis
    using keyed' published find_SomeD [OF e(1)] e(2) d each by blast
qed

section \<open>Events of other kinds, and the retry delays\<close>

text \<open>C27: The runner consumes events that are not its own. The claim selects rows of every kind, and
  an event whose kind is not \<^verbatim>\<open>lesson.published\<close> is closed at its first handling: it is
  marked published with the category \<^verbatim>\<open>kind_unsupported\<close>, nothing is delivered, and no
  later claim selects it again.\<close>

theorem foreign_event_closed:
  assumes k: "keyed oe_id (outbox_events db)" and e: "e \<in> set (outbox_events db)" "oe_kind e \<noteq> ''lesson.published''"
    and h: "held owner (hd_fail_t1 (env (oe_id e))) e" "\<not> hd_cancelled (env (oe_id e))" "\<not> hd_fail_fault (env (oe_id e))"
  shows "\<exists>db'. handle_events up ut env owner [event_of e] db = (None, db') \<and> notifications db' = notifications db \<and>
    (\<exists>e' \<in> set (outbox_events db'). oe_id e' = oe_id e \<and> oe_published_at e' = Some (hd_fail_t2 (env (oe_id e))) \<and>
       oe_last_error_category e' = Some ''kind_unsupported'')"
proof -
  let ?h = "env (oe_id e)"
  let ?p = "\<lambda>x. oe_id x = oe_id e \<and> oe_lease_owner x = Some owner"
  let ?db = "db\<lparr>outbox_events := update_where ?p (publish_row (Some ''kind_unsupported'') (hd_fail_t2 ?h)) (outbox_events db)\<rparr>"
  have f: "find (\<lambda>x. oe_id x = oe_id e \<and> held owner (hd_fail_t1 ?h) x) (outbox_events db) = Some e"
    by (rule find_keyed [OF k e(1)]) (use h in auto)
  have del: "DeliverLessonPublication (hd_deliver_fault ?h) up ut (hd_deliver_t1 ?h) (hd_deliver_t2 ?h) (event_of e) owner db =
      (Inl (ErrPermanentOutbox ''kind_unsupported''), db)"
    using e(2) by (simp add: DeliverLessonPublication_def event_of_def)
  have fail: "Fail_event (hd_fail_fault ?h) (hd_fail_t1 ?h) (hd_fail_t2 ?h) (oe_id e) owner ''kind_unsupported'' True db = (Inr (), ?db)"
    using f h(3) by (simp add: Fail_event_def transact_def stableOutboxCategories_def Let_def)
  have "ev_ID (event_of e) = oe_id e" by (simp add: event_of_def)
  with del fail h(2) have "handle_events up ut env owner [event_of e] db = (None, ?db)"
    by (simp add: outboxErrorCategory_def Let_def)
  moreover have "?p e" using h(1) by (simp add: held_def)
  ultimately show ?thesis
    using e(1) by (intro exI [of _ ?db])
      (auto simp: set_update_where publish_row_def intro!: bexI [of _ "publish_row (Some ''kind_unsupported'') (hd_fail_t2 ?h) e"] image_eqI [of _ _ e])
qed

text \<open>The retry delay of an attempt the queue can reach (1 to 10) is exactly the doubling
  sequence of seconds; it is positive, grows with the attempt and never exceeds 512 seconds, so
  the cap of fifteen minutes is met only by attempt numbers beyond the limit.\<close>

theorem retryDelay_doubles:
  assumes "1 \<le> a" and "a \<le> OutboxMaxAttempts"
  shows "retryDelay a = 2 ^ nat (a - 1) * Second \<and> Second \<le> retryDelay a \<and> retryDelay a \<le> 512 * Second \<and>
    (a < OutboxMaxAttempts \<longrightarrow> retryDelay (a + 1) = 2 * retryDelay a) \<and> (\<forall>b. 10 < b \<longrightarrow> retryDelay b = 15 * Minute)"
proof -
  have "a = 1 \<or> a = 2 \<or> a = 3 \<or> a = 4 \<or> a = 5 \<or> a = 6 \<or> a = 7 \<or> a = 8 \<or> a = 9 \<or> a = 10"
    using assms unfolding OutboxMaxAttempts_def by presburger
  then show ?thesis
    by (elim disjE) (auto simp: retryDelay_def OutboxMaxAttempts_def)
qed

theorem retryDelay_doubles_witness: "retryDelay 10 = 512 * Second \<and> retryDelay 9 = 256 * Second"
  using retryDelay_doubles [of 9] by (simp add: OutboxMaxAttempts_def)

section \<open>Concrete executions\<close>

definition wit_event :: outbox_row where
  "wit_event = \<lparr>oe_id = 7, oe_kind = ''lesson.published'',
     oe_payload = JObject [(''schemaVersion'', JInt 1), (''lessonId'', JString ''a''), (''revisionId'', JString ''b'')],
     oe_created_at = 1, oe_published_at = None, oe_attempts = 0, oe_next_attempt_at = 0, oe_lease_owner = None,
     oe_lease_until = None, oe_last_error_category = None\<rparr>"

definition wit_outbox :: outbox_db where
  "wit_outbox = \<lparr>outbox_events = [wit_event], notifications = [],
     revision_audiences = [\<lparr>ar_lesson = 1, ar_revision = 2, ar_mode = ''all''\<rparr>], audience_users = [],
     outbox_users = [\<lparr>su_id = 5, su_role = ''student'', su_status = ''active'', su_deleted = False\<rparr>]\<rparr>"

definition wit_claimed :: outbox_db where
  "wit_claimed = wit_outbox\<lparr>outbox_events := [wit_event\<lparr>oe_lease_owner := Some ''w'', oe_lease_until := Some (10 + OutboxLeaseDuration), oe_attempts := 1\<rparr>]\<rparr>"

definition wit_parse :: "string \<Rightarrow> uuid option" where
  "wit_parse s = (if s = ''a'' then Some 1 else if s = ''b'' then Some 2 else None)"

definition wit_text :: "uuid \<Rightarrow> string" where "wit_text u = (if u = 1 then ''a'' else ''b'')"

definition wit_delivered :: outbox_db where
  "wit_delivered = wit_claimed\<lparr>outbox_events := map (publish_row None 12) (outbox_events wit_claimed),
     notifications := [lesson_notification wit_text 1 2 5]\<rparr>"

lemmas wit_outbox_defs = wit_event_def wit_outbox_def wit_claimed_def wit_delivered_def wit_parse_def OutboxLeaseDuration_def

lemma wit_claim: "Claim False normal_admission (\<lambda>_. False) 9 10 ''w'' wit_outbox = (Inr (map event_of (outbox_events wit_claimed)), wit_claimed)"
  by (simp add: Claim_def transact_def wit_outbox_defs close_terminal_def first_unlocked_def terminal_row_def ready_row_def
      lease_free_def OutboxMaxAttempts_def OutboxBatchLimit_def lease_row_def go_eval Let_def)

lemma wit_decode: "decodeLessonPublicationPayload wit_parse (oe_payload wit_event) = Inr (1, 2)"
  by (simp add: decodeLessonPublicationPayload_def decode_struct_def set_field_def field_def fold_name_def go_eval wit_event_def wit_parse_def)

lemma wit_deliver:
  "DeliverLessonPublication False wit_parse wit_text 11 12 (event_of (hd (outbox_events wit_claimed))) ''w'' wit_claimed = (Inr (), wit_delivered)"
  by (simp add: DeliverLessonPublication_def transact_def wit_decode [simplified wit_event_def, simplified] wit_outbox_defs event_of_def held_def audience_def active_student_def
      insert_notification_def rows_affected_def)

lemma wit_keyed: "keyed oe_id (outbox_events wit_outbox)" "keyed oe_id (outbox_events wit_claimed)"
    "keyed oe_id (outbox_events wit_delivered)" "keyed note_key (notifications wit_claimed)"
  by (simp_all add: wit_outbox_defs keyed_def)

lemma wit_steps: "outbox_step wit_outbox wit_claimed" "outbox_step wit_claimed wit_delivered"
  using step_claim [of wit_outbox False normal_admission "\<lambda>_. False" 9 10 "''w''"]
    step_deliver [of wit_claimed False wit_parse wit_text 11 12 "event_of (hd (outbox_events wit_claimed))" "''w''"]
  by (simp_all add: wit_claim wit_deliver)

theorem event_claimed_at_most_ten_times_witness:
  "claims (event_attempts 7) [wit_outbox, wit_claimed, wit_delivered] = 1 \<and> claims (event_attempts 7) [wit_outbox, wit_claimed, wit_delivered] \<le> 10"
  using event_claimed_at_most_ten_times [of wit_outbox "[wit_claimed, wit_delivered]" 7] wit_keyed(1) wit_steps
  by (simp add: event_attempts_def event_view_def lease_fresh_def wit_outbox_defs publish_row_def)

theorem published_event_final_witness:
  "\<exists>e' \<in> set (outbox_events (snd (Claim False normal_admission (\<lambda>_. False) 100 100 ''v'' wit_delivered))). oe_published_at e' \<noteq> None"
proof -
  have "successively outbox_step [wit_delivered, snd (Claim False normal_admission (\<lambda>_. False) 100 100 ''v'' wit_delivered)]"
    by (simp add: step_claim)
  from published_event_final [OF this wit_keyed(3), of "hd (outbox_events wit_delivered)"] show ?thesis
    by (auto simp: wit_outbox_defs publish_row_def)
qed

theorem deliver_notifies_once_witness:
  "\<exists>n \<in> set (notifications wit_delivered). nt_recipient n = 5 \<and>
     length (filter (\<lambda>n. note_key n = (5, ''lesson-published:b'')) (notifications wit_delivered)) = 1"
proof -
  have aud: "audience ''all'' 2 wit_claimed = [5]" "revision_audiences wit_claimed = [\<lparr>ar_lesson = 1, ar_revision = 2, ar_mode = ''all''\<rparr>]"
    by (simp_all add: audience_def active_student_def wit_outbox_defs)
  obtain e0 where e0: "outbox_events wit_claimed = [e0]" "oe_payload e0 = oe_payload wit_event"
    by (simp add: wit_outbox_defs)
  from deliver_notifies_once [OF wit_deliver wit_keyed(2,4)] have
    "length (filter (\<lambda>n. note_key n = (5, ''lesson-published:'' @ wit_text 2)) (notifications wit_delivered)) = 1"
    by (auto simp: e0 wit_decode aud)
  then show ?thesis by (simp add: wit_delivered_def wit_text_def lesson_notification_def note_key_def)
qed

definition wit_cleanup :: outbox_row where
  "wit_cleanup = wit_event\<lparr>oe_kind := ''file.cleanup'', oe_lease_owner := Some ''w'', oe_lease_until := Some 40\<rparr>"

definition wit_handling :: handling where
  "wit_handling = \<lparr>hd_cancelled = False, hd_deliver_fault = False, hd_deliver_t1 = 11, hd_deliver_t2 = 12, hd_fail_fault = False,
     hd_fail_t1 = 13, hd_fail_t2 = 14\<rparr>"

theorem foreign_event_closed_witness:
  "\<exists>db'. handle_events wit_parse wit_text (\<lambda>_. wit_handling) ''w'' [event_of wit_cleanup] (wit_outbox\<lparr>outbox_events := [wit_cleanup]\<rparr>) = (None, db') \<and>
     (\<exists>e' \<in> set (outbox_events db'). oe_last_error_category e' = Some ''kind_unsupported'')"
  using foreign_event_closed [of "wit_outbox\<lparr>outbox_events := [wit_cleanup]\<rparr>" wit_cleanup "''w''" "\<lambda>_. wit_handling" wit_parse wit_text]
  by (fastforce simp: wit_cleanup_def wit_event_def wit_handling_def held_def keyed_def)
end
