(* ===== verification/Paging.thy ===== *)
theory Paging
  imports Prelude
begin

text \<open>
  Keyset pagination, the way the stores of questions and notifications write it: a page is
  \<^verbatim>\<open>WHERE key > cursor ORDER BY key LIMIT n\<close>, and the next cursor is the key of the last row exactly
  when the page is full. The locale \<open>keyset\<close> is the contract of such a listing; its lemmas say what
  a client gets that follows the cursors. Descending listings use negated keys.
\<close>

section \<open>One page\<close>

definition keyset_page :: "('r \<Rightarrow> 'k::linorder) \<Rightarrow> nat \<Rightarrow> 'k \<Rightarrow> 'r list \<Rightarrow> 'r list" where
  "keyset_page key limit bound rows = take limit (sort_key key (filter (\<lambda>r. bound < key r) rows))"

text \<open>Following cursors from \<open>c\<close> on; \<open>None\<close> means that the fuel ended before the pages did.\<close>

fun follow :: "nat \<Rightarrow> ('c \<Rightarrow> 'r list \<times> 'c option) \<Rightarrow> 'c \<Rightarrow> 'r list option" where
  "follow 0 page c = None"
| "follow (Suc n) page c = (case page c of
     (items, None) \<Rightarrow> Some items
   | (items, Some c') \<Rightarrow> map_option ((@) items) (follow n page c'))"

lemma sort_key_after:
  assumes "distinct (map key rows)" and "i < length (sort_key key rows)"
  shows "sort_key key (filter (\<lambda>r. key (sort_key key rows ! i) < key r) rows) = drop (Suc i) (sort_key key rows)"
proof -
  let ?L = "sort_key key rows"
  have d: "distinct (map key ?L)" using assms(1) by (simp add: distinct_map)
  have s: "sorted (map key ?L)" by simp
  have split: "?L = take (Suc i) ?L @ drop (Suc i) ?L" by simp
  have lt: "filter (\<lambda>r. key (?L ! i) < key r) (take (Suc i) ?L) = []"
  proof -
    have "\<not> key (?L ! i) < key r" if "r \<in> set (take (Suc i) ?L)" for r
    proof -
      from that obtain j where "j < Suc i" "r = ?L ! j" using assms(2) by (auto simp: in_set_conv_nth)
      then show ?thesis using s assms(2) by (auto simp: sorted_iff_nth_mono not_less dest: less_Suc_eq_le [THEN iffD1])
    qed
    then show ?thesis by (simp add: filter_empty_conv)
  qed
  have gt: "filter (\<lambda>r. key (?L ! i) < key r) (drop (Suc i) ?L) = drop (Suc i) ?L"
  proof (rule filter_True, rule ballI)
    fix r assume "r \<in> set (drop (Suc i) ?L)"
    then obtain j where "j < length (drop (Suc i) ?L)" "r = drop (Suc i) ?L ! j" unfolding in_set_conv_nth by blast
    then have j: "Suc i + j < length ?L" "r = ?L ! (Suc i + j)" by simp_all
    have "sorted_wrt (<) (map key ?L)" using s d by (simp add: strict_sorted_iff)
    then show "key (?L ! i) < key r" using j sorted_wrt_nth_less [of "(<)" "map key ?L" i "Suc i + j"] assms(2) by simp
  qed
  have "sort_key key (filter P rows) = filter P ?L" for P by (simp add: filter_sort)
  then have "sort_key key (filter (\<lambda>r. key (?L ! i) < key r) rows) = filter (\<lambda>r. key (?L ! i) < key r) ?L" .
  also have "\<dots> = filter (\<lambda>r. key (?L ! i) < key r) (take (Suc i) ?L @ drop (Suc i) ?L)" using split by presburger
  finally show ?thesis unfolding filter_append lt gt by simp
qed

section \<open>The contract\<close>

locale keyset =
  fixes key :: "'r \<Rightarrow> 'k::linorder" and limit :: nat and bound :: "'c \<Rightarrow> 'k" and page :: "'c \<Rightarrow> 'r list \<times> 'c option" and rows :: "'r list"
    and ok :: "'r \<Rightarrow> bool"
  assumes page_items: "fst (page c) = keyset_page key limit (bound c) rows"
    and page_next: "snd (page c) = None \<longleftrightarrow> length (fst (page c)) \<noteq> limit"
    and next_bound: "\<forall>r \<in> set rows. ok r \<Longrightarrow> snd (page c) = Some c' \<Longrightarrow> fst (page c) \<noteq> [] \<Longrightarrow> bound c' = key (last (fst (page c)))"
begin

definition pending_rows :: "'c \<Rightarrow> 'r list" where
  "pending_rows c = sort_key key (filter (\<lambda>r. bound c < key r) rows)"

lemma page_pending: "fst (page c) = take limit (pending_rows c)"
  by (simp add: page_items keyset_page_def pending_rows_def)

lemma pending_next:
  assumes "distinct (map key rows)" and "0 < limit" and "snd (page c) = Some c'" and "\<forall>r \<in> set rows. ok r"
  shows "pending_rows c' = drop limit (pending_rows c) \<and> limit \<le> length (pending_rows c)"
proof -
  have full: "length (fst (page c)) = limit" using assms(3) page_next [of c] by simp
  then have len: "limit \<le> length (pending_rows c)" by (simp add: page_pending)
  let ?F = "filter (\<lambda>r. bound c < key r) rows"
  have last: "last (fst (page c)) = pending_rows c ! (limit - 1)"
    unfolding page_pending using assms(2) len by (subst last_conv_nth) (auto simp: min_def)
  have b: "bound c' = key (pending_rows c ! (limit - 1))"
    using next_bound [OF assms(4,3)] full assms(2) last by fastforce
  have i: "limit - 1 < length (sort_key key ?F)" using len assms(2) by (simp add: pending_rows_def)
  then have "pending_rows c ! (limit - 1) \<in> set (sort_key key ?F)" unfolding pending_rows_def by (rule nth_mem)
  then have lt: "bound c < key (pending_rows c ! (limit - 1))" by simp
  have "pending_rows c' = sort_key key (filter (\<lambda>r. key (sort_key key ?F ! (limit - 1)) < key r) ?F)"
    using b lt unfolding pending_rows_def by (auto intro!: arg_cong [where f = "sort_key key"] filter_cong)
  also have "\<dots> = drop (Suc (limit - 1)) (sort_key key ?F)"
    by (rule sort_key_after) (use assms(1) i in \<open>simp_all add: distinct_map_filter\<close>)
  finally show ?thesis using assms(2) len by (simp add: pending_rows_def)
qed

lemma follow_pending:
  assumes "distinct (map key rows)" and "0 < limit" and "\<forall>r \<in> set rows. ok r" and "length (pending_rows c) < n"
  shows "follow n page c = Some (pending_rows c)"
  using assms(4)
proof (induction n arbitrary: c)
  case (Suc n)
  show ?case
  proof (cases "snd (page c)")
    case None
    then have "length (take limit (pending_rows c)) \<noteq> limit" using page_next [of c] by (simp add: page_pending)
    then have "take limit (pending_rows c) = pending_rows c" by (simp add: min_def split: if_splits)
    with None show ?thesis by (cases "page c") (use page_pending [of c] in auto)
  next
    case (Some c')
    from pending_next [OF assms(1,2) Some assms(3)] have n: "pending_rows c' = drop limit (pending_rows c)" "limit \<le> length (pending_rows c)" by auto
    then have "follow n page c' = Some (pending_rows c')" using Suc assms(2) by simp
    then show ?thesis using Some page_pending [of c] n by (cases "page c") (simp add: n)
  qed
qed simp

lemma follow_complete:
  assumes "distinct (map key rows)" and "0 < limit" and "\<forall>r \<in> set rows. ok r"
  shows "follow (Suc (length rows)) page c = Some (sort_key key (filter (\<lambda>r. bound c < key r) rows))"
  using follow_pending [OF assms, of c "Suc (length rows)"] by (simp add: pending_rows_def le_imp_less_Suc)

end

section \<open>Cursors of time and identifier\<close>

text \<open>The cursors of \<^verbatim>\<open>qanda\<close> and \<^verbatim>\<open>notifications\<close>: an instant, an identifier that breaks ties, and the size of
  a page. The zero cursor stands for the start in a request and for the end in an answer. A listing of
  the newest first starts below 9999-12-31 and the largest identifier.\<close>

record keyset_cursor =
  kc_At :: time
  kc_ID :: uuid
  kc_Limit :: int

definition zero_cursor :: keyset_cursor where
  "zero_cursor = \<lparr>kc_At = time_zero, kc_ID = uuid_Nil, kc_Limit = 0\<rparr>"

definition far_future :: time where
  "far_future = 3652059 * 86400 * Second - 1000"

definition newest_bound :: "keyset_cursor \<Rightarrow> int \<times> int" where
  "newest_bound c = (if kc_At c = time_zero then (- far_future, - (2 ^ 128 - 1)) else (- kc_At c, - int (kc_ID c)))"

definition oldest_bound :: "keyset_cursor \<Rightarrow> int \<times> int" where
  "oldest_bound c = (if kc_At c = time_zero then (time_zero, 0) else (kc_At c, int (kc_ID c)))"

definition newest_page :: "('r \<Rightarrow> time) \<Rightarrow> ('r \<Rightarrow> uuid) \<Rightarrow> keyset_cursor \<Rightarrow> 'r list \<Rightarrow> 'r list" where
  "newest_page t i c rows = keyset_page (\<lambda>r. (- t r, - int (i r))) (nat (kc_Limit c)) (newest_bound c) rows"

definition oldest_page :: "('r \<Rightarrow> time) \<Rightarrow> ('r \<Rightarrow> uuid) \<Rightarrow> keyset_cursor \<Rightarrow> 'r list \<Rightarrow> 'r list" where
  "oldest_page t i c rows = keyset_page (\<lambda>r. (t r, int (i r))) (nat (kc_Limit c)) (oldest_bound c) rows"

definition next_cursor :: "('r \<Rightarrow> time) \<Rightarrow> ('r \<Rightarrow> uuid) \<Rightarrow> keyset_cursor \<Rightarrow> 'r list \<Rightarrow> keyset_cursor" where
  "next_cursor t i c items = (if int (length items) = kc_Limit c
     then \<lparr>kc_At = t (last items), kc_ID = i (last items), kc_Limit = kc_Limit c\<rparr> else zero_cursor)"

text \<open>A client with pages of \<open>Suc l\<close> rows.\<close>

definition client_page :: "(keyset_cursor \<Rightarrow> 'r list) \<Rightarrow> ('r \<Rightarrow> time) \<Rightarrow> ('r \<Rightarrow> uuid) \<Rightarrow> nat \<Rightarrow> keyset_cursor \<Rightarrow> 'r list \<times> keyset_cursor option" where
  "client_page list t i l c = (let c = c\<lparr>kc_Limit := int (Suc l)\<rparr>; items = list c; n = next_cursor t i c items
     in (items, if n = zero_cursor then None else Some n))"

lemma client_page_next:
  "snd (client_page list t i l c) = None \<longleftrightarrow> length (fst (client_page list t i l c)) \<noteq> Suc l"
  "snd (client_page list t i l c) = Some c' \<Longrightarrow> c' = \<lparr>kc_At = t (last (fst (client_page list t i l c))), kc_ID = i (last (fst (client_page list t i l c))), kc_Limit = int (Suc l)\<rparr>"
  by (auto simp: client_page_def Let_def next_cursor_def zero_cursor_def split: if_splits)

lemma client_page_items:
  "fst (client_page (\<lambda>c. newest_page t i c rows) t i l c) = keyset_page (\<lambda>r. (- t r, - int (i r))) (Suc l) (newest_bound c) rows"
  "fst (client_page (\<lambda>c. oldest_page t i c rows) t i l c) = keyset_page (\<lambda>r. (t r, int (i r))) (Suc l) (oldest_bound c) rows"
  using nat_int [of "Suc l"] by (simp_all add: client_page_def Let_def newest_page_def oldest_page_def newest_bound_def oldest_bound_def del: nat_int)

lemma keyset_page_subset: "set (keyset_page key n b rows) \<subseteq> set rows"
  by (auto simp: keyset_page_def dest: in_set_takeD)

interpretation newest: keyset "\<lambda>r. (- t r, - int (i r))" "Suc l" newest_bound "client_page (\<lambda>c. newest_page t i c rows) t i l" rows "\<lambda>r. t r \<noteq> time_zero" for t i l rows
proof unfold_locales
  fix c c' assume ok: "\<forall>r \<in> set rows. t r \<noteq> time_zero" and n: "snd (client_page (\<lambda>c. newest_page t i c rows) t i l c) = Some c'"
    and ne: "fst (client_page (\<lambda>c. newest_page t i c rows) t i l c) \<noteq> []"
  have "last (fst (client_page (\<lambda>c. newest_page t i c rows) t i l c)) \<in> set rows"
    using last_in_set [OF ne] keyset_page_subset by (fastforce simp: client_page_def Let_def newest_page_def)
  with ok show "newest_bound c' = (- t (last (fst (client_page (\<lambda>c. newest_page t i c rows) t i l c))), - int (i (last (fst (client_page (\<lambda>c. newest_page t i c rows) t i l c)))))"
    using client_page_next(2) [OF n] by (simp add: newest_bound_def)
qed (rule client_page_items, rule client_page_next(1))

interpretation oldest: keyset "\<lambda>r. (t r, int (i r))" "Suc l" oldest_bound "client_page (\<lambda>c. oldest_page t i c rows) t i l" rows "\<lambda>r. t r \<noteq> time_zero" for t i l rows
proof unfold_locales
  fix c c' assume ok: "\<forall>r \<in> set rows. t r \<noteq> time_zero" and n: "snd (client_page (\<lambda>c. oldest_page t i c rows) t i l c) = Some c'"
    and ne: "fst (client_page (\<lambda>c. oldest_page t i c rows) t i l c) \<noteq> []"
  have "last (fst (client_page (\<lambda>c. oldest_page t i c rows) t i l c)) \<in> set rows"
    using last_in_set [OF ne] keyset_page_subset by (fastforce simp: client_page_def Let_def oldest_page_def)
  with ok show "oldest_bound c' = (t (last (fst (client_page (\<lambda>c. oldest_page t i c rows) t i l c))), int (i (last (fst (client_page (\<lambda>c. oldest_page t i c rows) t i l c)))))"
    using client_page_next(2) [OF n] by (simp add: oldest_bound_def)
qed (rule client_page_items, rule client_page_next(1))

end
