(* ===== verification/Notifications.thy ===== *)
theory Notifications
  imports Outbox Audit_Log Paging
begin

text \<open>
  The notifications of a user: \<^verbatim>\<open>internal/notifications/postgres_store.go\<close>, \<^verbatim>\<open>service.go\<close> and
  \<^verbatim>\<open>model.go\<close>. A row extends the announcement that \<open>Outbox\<close> inserts by its identifier and instants. Parsing
  and printing of UUIDs is the library's: \<open>parse\<close> and \<open>render\<close> are arguments.
\<close>

section \<open>Data\<close>

type_synonym NotificationIntent = notification

record Notification = notification +
  nr_ID :: uuid
  nr_ReadAt :: "time option"
  nr_CreatedAt :: time

datatype notification_error = ErrNotifyInvalid | ErrNotifyNotFound | ErrNotifyDriver

section \<open>Announcing\<close>

definition safeTemplates :: "(string \<times> string \<times> string) list" where
  "safeTemplates =
     [(''qa_created'', ''New student question'', ''A student created a question.''),
      (''qa_replied'', ''Teacher reply'', ''Your teacher replied to a question.''),
      (''qa_followed_up'', ''Student follow-up'', ''A student followed up on a question.''),
      (''qa_status_changed'', ''Question status changed'', ''Your question status changed.''),
      (''lesson_published'', ''New lesson'', ''A new lesson is available.'')]"

definition dedupe_prefixes :: "(string \<times> string) list" where
  "dedupe_prefixes = [(''qa_created'', ''qa-created:''), (''qa_replied'', ''qa-replied:''), (''qa_followed_up'', ''qa-followed-up:''),
     (''lesson_published'', ''lesson-published:'')]"

definition validDedupe :: "(string \<Rightarrow> uuid option) \<Rightarrow> (uuid \<Rightarrow> string) \<Rightarrow> NotificationIntent \<Rightarrow> bool" where
  "validDedupe parse render n \<longleftrightarrow> (let k = nt_dedupe_key n in
     if nt_kind n = ''qa_status_changed''
     then (let prefix = ''qa-status:'' @ render (nt_target_id n) @ '':'' in
       case ParseInt (TrimPrefix k prefix) of None \<Rightarrow> False | Some v \<Rightarrow> HasPrefix k prefix \<and> v > 0 \<and> k = prefix @ show_nat (nat v))
     else case map_of dedupe_prefixes (nt_kind n) of
       None \<Rightarrow> False
     | Some prefix \<Rightarrow> (case parse (TrimPrefix k prefix) of
         None \<Rightarrow> False | Some i \<Rightarrow> HasPrefix k prefix \<and> i \<noteq> uuid_Nil \<and> TrimPrefix k prefix = render i))"

definition target_rules :: "(string \<times> string \<times> string) list" where
  "target_rules =
     [(''qa_created'', ''qa_thread'', ''/admin/questions/''), (''qa_followed_up'', ''qa_thread'', ''/admin/questions/''),
      (''qa_replied'', ''qa_thread'', ''/student/questions/''), (''qa_status_changed'', ''qa_thread'', ''/student/questions/''),
      (''lesson_published'', ''lesson'', ''/student/learning/'')]"

definition validTarget :: "(uuid \<Rightarrow> string) \<Rightarrow> NotificationIntent \<Rightarrow> bool" where
  "validTarget render n \<longleftrightarrow> (case map_of target_rules (nt_kind n) of
     None \<Rightarrow> False
   | Some (ty, prefix) \<Rightarrow> nt_target_type n = ty \<and> HasPrefix (nt_target_path n) prefix \<and> TrimPrefix (nt_target_path n) prefix = render (nt_target_id n))"

definition valid_intent :: "(string \<Rightarrow> uuid option) \<Rightarrow> (uuid \<Rightarrow> string) \<Rightarrow> NotificationIntent \<Rightarrow> bool" where
  "valid_intent parse render n \<longleftrightarrow> (case map_of safeTemplates (nt_kind n) of
     None \<Rightarrow> False
   | Some (title, summary) \<Rightarrow> nt_recipient n \<noteq> uuid_Nil \<and> nt_target_id n \<noteq> uuid_Nil \<and> nt_title n = title \<and> nt_summary n = summary \<and>
       16 \<le> length (nt_dedupe_key n) \<and> length (nt_dedupe_key n) \<le> 200 \<and> validTarget render n \<and> validDedupe parse render n)"

definition same_announcement :: "notification \<Rightarrow> Notification \<Rightarrow> bool" where
  "same_announcement n x \<longleftrightarrow> nt_recipient x = nt_recipient n \<and> nt_dedupe_key x = nt_dedupe_key n"

definition Notify ::
  "(string \<Rightarrow> uuid option) \<Rightarrow> (uuid \<Rightarrow> string) \<Rightarrow> uuid \<Rightarrow> time \<Rightarrow> NotificationIntent \<Rightarrow> Notification list \<Rightarrow> notification_error + Notification list" where
  "Notify parse render newID now n rows =
     (if \<not> valid_intent parse render n then Inl ErrNotifyInvalid
      else if list_ex (same_announcement n) rows then Inr rows
      else if list_ex (\<lambda>x. nr_ID x = newID) rows then Inl ErrNotifyDriver
      else Inr (rows @ [notification.extend n (Notification.fields newID None now)]))"

section \<open>Reading\<close>

definition List_notifications :: "bool \<Rightarrow> uuid \<Rightarrow> keyset_cursor \<Rightarrow> Notification list \<Rightarrow> notification_error + (Notification list \<times> keyset_cursor)" where
  "List_notifications fault recipient c rows =
     (if recipient = uuid_Nil \<or> kc_Limit c < 1 \<or> kc_Limit c > 100 \<or> (kc_ID c = uuid_Nil) \<noteq> (kc_At c = time_zero) then Inl ErrNotifyInvalid
      else if fault then Inl ErrNotifyDriver
      else let items = newest_page nr_CreatedAt nr_ID c (filter (\<lambda>x. nt_recipient x = recipient) rows)
           in Inr (items, next_cursor nr_CreatedAt nr_ID c items))"

definition UnreadCount :: "bool \<Rightarrow> uuid \<Rightarrow> Notification list \<Rightarrow> notification_error + nat" where
  "UnreadCount fault recipient rows =
     (if recipient = uuid_Nil then Inl ErrNotifyInvalid
      else if fault then Inl ErrNotifyDriver
      else Inr (rows_affected (\<lambda>x. nt_recipient x = recipient \<and> nr_ReadAt x = None) rows))"

definition mark_where :: "(Notification \<Rightarrow> bool) \<Rightarrow> time \<Rightarrow> Notification list \<Rightarrow> Notification list" where
  "mark_where p t rows = update_where (\<lambda>x. p x \<and> nr_ReadAt x = None) (\<lambda>x. x\<lparr>nr_ReadAt := Some t\<rparr>) rows"

definition MarkRead :: "bool \<Rightarrow> time \<Rightarrow> uuid \<Rightarrow> uuid \<Rightarrow> Notification list \<Rightarrow> notification_error option \<times> Notification list" where
  "MarkRead fault t recipient i rows =
     (if recipient = uuid_Nil \<or> i = uuid_Nil then (Some ErrNotifyInvalid, rows)
      else if fault then (Some ErrNotifyDriver, rows)
      else let own = (\<lambda>x. nr_ID x = i \<and> nt_recipient x = recipient)
           in if rows_affected (\<lambda>x. own x \<and> nr_ReadAt x = None) rows = 0 \<and> \<not> list_ex own rows then (Some ErrNotifyNotFound, rows)
              else (None, mark_where own t rows))"

definition MarkAllRead :: "bool \<Rightarrow> time \<Rightarrow> uuid \<Rightarrow> Notification list \<Rightarrow> (notification_error + nat) \<times> Notification list" where
  "MarkAllRead fault cutoff recipient rows =
     (if recipient = uuid_Nil then (Inl ErrNotifyInvalid, rows)
      else transact fault ErrNotifyDriver (\<lambda>rows. let old = (\<lambda>x. nt_recipient x = recipient \<and> nr_CreatedAt x \<le> cutoff)
        in Inr (rows_affected (\<lambda>x. old x \<and> nr_ReadAt x = None) rows, mark_where old cutoff rows)) rows)"

end
