(* ===== verification/QA_Store.thy ===== *)
theory QA_Store
  imports Auth_Store Notifications
begin

text \<open>
  Questions to the teacher: \<^verbatim>\<open>internal/qanda/model.go\<close> and \<^verbatim>\<open>internal/qanda/postgres_store.go\<close>. A thread
  has a status and a version, its messages and notes are only ever appended. The triggers and unique
  indexes of the tables are checked by the insertions: a student writes only into the own threads,
  a key is used once per sender, a file is attached to one message. PostgreSQL keeps instants to the
  microsecond, so an instant is truncated when it is stored.
\<close>

section \<open>Data\<close>

text \<open>A \<^verbatim>\<open>Status\<close> is a string; \<open>StatusText\<close> is any other one, the empty string included.\<close>

datatype Status_qa = StatusPending | StatusInProgress | StatusWaitingStudent | StatusCompleted | StatusText string
datatype MessageKind = MessageKindInitial | MessageKindStudentFollowUp | MessageKindAdminReply
datatype Action_qa = ActionCreate | ActionClaim | ActionAdminReply | ActionStudentFollowUp | ActionComplete | ActionReopen

datatype qa_error =
    ErrQAForbidden | ErrQAInvalidInput | ErrQANotFound | ErrInvalidStatusTransition | ErrQAIdempotencyConflict | ErrThreadConflict
  | ErrQAAttachmentNotReady | ErrQAAttachmentLimit | ErrQADriver | ErrQAAudit audit_error | ErrQANotify notification_error

definition qa_status_text :: "Status_qa \<Rightarrow> string" where
  "qa_status_text s = (case s of StatusPending \<Rightarrow> ''pending'' | StatusInProgress \<Rightarrow> ''in_progress''
     | StatusWaitingStudent \<Rightarrow> ''waiting_student'' | StatusCompleted \<Rightarrow> ''completed'' | StatusText t \<Rightarrow> t)"

definition NextStatus :: "Status_qa \<Rightarrow> Action_qa \<Rightarrow> Role \<Rightarrow> qa_error + Status_qa" where
  "NextStatus current action actor =
     (if actor = RoleStudent \<and> action = ActionCreate \<and> current = StatusText [] then Inr StatusPending
      else if actor = RoleAdmin \<and> action = ActionClaim \<and> current = StatusPending then Inr StatusInProgress
      else if actor = RoleAdmin \<and> action = ActionAdminReply \<and> (current = StatusPending \<or> current = StatusInProgress \<or> current = StatusWaitingStudent)
      then Inr StatusWaitingStudent
      else if actor = RoleStudent \<and> action = ActionStudentFollowUp \<and> (current = StatusWaitingStudent \<or> current = StatusInProgress \<or> current = StatusCompleted)
      then Inr StatusPending
      else if actor = RoleAdmin \<and> action = ActionComplete \<and> (current = StatusPending \<or> current = StatusInProgress \<or> current = StatusWaitingStudent)
      then Inr StatusCompleted
      else if actor = RoleAdmin \<and> action = ActionReopen \<and> current = StatusCompleted then Inr StatusInProgress
      else Inl ErrInvalidStatusTransition)"

record AttachmentInput_qa =
  qi_FileVersionID :: uuid
  qi_SortPosition :: int

record CreateThreadInput_qa =
  ct_Title :: string
  ct_Body :: string
  ct_IdempotencyKey :: string
  ct_Attachments :: "AttachmentInput_qa list"

text \<open>\<^verbatim>\<open>AddMessageInput\<close> and \<^verbatim>\<open>AddAdminMessageInput\<close> have the same fields.\<close>

record AddMessageInput_qa =
  am_ThreadID :: uuid
  am_ExpectedVersion :: int
  am_Body :: string
  am_IdempotencyKey :: string
  am_Attachments :: "AttachmentInput_qa list"

record ChangeStatusInput =
  cs_ThreadID :: uuid
  cs_ExpectedVersion :: int
  cs_Status :: Status_qa

record AddTeacherNoteInput =
  an_ThreadID :: uuid
  an_Body :: string

record AdminThreadFilter =
  ft_Status :: Status_qa
  ft_StudentID :: uuid
  ft_From :: time
  ft_To :: time

record Thread_qa =
  qt_ID :: uuid
  qt_StudentID :: uuid
  qt_Title :: string
  qt_Status :: Status_qa
  qt_Version :: int
  qt_LastMessageAt :: time
  qt_CreatedAt :: time
  qt_UpdatedAt :: time
  qt_CompletedAt :: "time option"

record Attachment_qa =
  qa_FileVersionID :: uuid
  qa_SortPosition :: int
  qa_DisplayName :: string
  qa_PreviewAvailable :: bool

record message_columns =
  qm_ID :: uuid
  qm_ThreadID :: uuid
  qm_SenderUserID :: uuid
  qm_SenderRole :: Role
  qm_Kind :: MessageKind
  qm_Body :: string
  qm_CreatedAt :: time

record Message_qa = message_columns +
  qm_Attachments :: "Attachment_qa list"

record message_row = message_columns +
  qm_IdempotencyKey :: string

record TeacherNote =
  tn_ID :: uuid
  tn_ThreadID :: uuid
  tn_AuthorUserID :: uuid
  tn_Body :: string
  tn_CreatedAt :: time

section \<open>Tables\<close>

text \<open>A row of \<open>qa_files\<close> is a file version with the columns of its file, and whether a preview is ready.\<close>

record lockedQAAttachment =
  lq_id :: uuid
  lq_owner :: uuid
  lq_purpose :: string
  lq_state :: string
  lq_mime :: string
  lq_name :: string
  lq_cleanupState :: string
  lq_size :: int
  lq_preview :: bool
  lq_purgedAt :: "time option"
  lq_deleted :: bool

record message_file =
  mf_message :: uuid
  mf_version :: uuid
  mf_position :: int
  mf_name :: string

record qa_db =
  qa_users :: "user_row list"
  qa_files :: "lockedQAAttachment list"
  qa_threads :: "Thread_qa list"
  qa_messages :: "message_row list"
  qa_message_files :: "message_file list"
  teacher_notes :: "TeacherNote list"
  qa_notifications :: "Notification list"
  qa_log :: "audit_row list"

definition timestamptz :: "time \<Rightarrow> time" where
  "timestamptz t = 1000 * (t div 1000)"

definition active_user :: "Role \<Rightarrow> uuid \<Rightarrow> qa_db \<Rightarrow> bool" where
  "active_user r i db \<longleftrightarrow> list_ex (\<lambda>u. u_ID u = i \<and> u_Role u = r \<and> u_Status u = StatusActive \<and> \<not> ur_Deleted u) (qa_users db)"

definition known_student :: "uuid \<Rightarrow> qa_db \<Rightarrow> bool" where
  "known_student i db \<longleftrightarrow> list_ex (\<lambda>u. u_ID u = i \<and> u_Role u = RoleStudent \<and> \<not> ur_Deleted u) (qa_users db)"

definition found :: "'a option \<Rightarrow> qa_error + 'a" where
  "found x = (case x of None \<Rightarrow> Inl ErrQANotFound | Some y \<Rightarrow> Inr y)"

section \<open>Validation of inputs\<close>

definition validText :: "string \<Rightarrow> nat \<Rightarrow> nat \<Rightarrow> bool" where
  "validText s lo hi \<longleftrightarrow> ValidString s \<and> lo \<le> RuneCount s \<and> RuneCount s \<le> hi"

definition validIdempotencyKey :: "string \<Rightarrow> bool" where
  "validIdempotencyKey k \<longleftrightarrow> ValidString k \<and> TrimSpace k = k \<and> 16 \<le> RuneCount k \<and> RuneCount k \<le> 128"

fun attachments_loop :: "uuid list \<Rightarrow> int list \<Rightarrow> AttachmentInput_qa list \<Rightarrow> bool" where
  "attachments_loop files positions [] = True"
| "attachments_loop files positions (a # rest) =
     (if qi_FileVersionID a = uuid_Nil \<or> qi_SortPosition a < 0 \<or> qi_SortPosition a > 19 then False
      else if List.member files (qi_FileVersionID a) then False
      else if List.member positions (qi_SortPosition a) then False
      else attachments_loop (qi_FileVersionID a # files) (qi_SortPosition a # positions) rest)"

definition validAttachments :: "AttachmentInput_qa list \<Rightarrow> bool" where
  "validAttachments xs \<longleftrightarrow> length xs \<le> 20 \<and> attachments_loop [] [] xs"

definition normalizeCreateInput :: "CreateThreadInput_qa \<Rightarrow> qa_error + CreateThreadInput_qa" where
  "normalizeCreateInput i =
     (let j = i\<lparr>ct_Title := TrimSpace (ct_Title i), ct_Body := TrimSpace (ct_Body i)\<rparr>
      in if \<not> validText (ct_Title j) 1 160 \<or> \<not> validText (ct_Body j) 1 20000 \<or> \<not> validIdempotencyKey (ct_IdempotencyKey j) \<or> \<not> validAttachments (ct_Attachments j)
         then Inl ErrQAInvalidInput else Inr j)"

definition normalizeAddMessageInput :: "AddMessageInput_qa \<Rightarrow> qa_error + AddMessageInput_qa" where
  "normalizeAddMessageInput i =
     (let j = i\<lparr>am_Body := TrimSpace (am_Body i)\<rparr>
      in if am_ThreadID j = uuid_Nil \<or> am_ExpectedVersion j < 1 \<or> \<not> validText (am_Body j) 1 20000 \<or> \<not> validIdempotencyKey (am_IdempotencyKey j) \<or> \<not> validAttachments (am_Attachments j)
         then Inl ErrQAInvalidInput else Inr j)"

definition normalizeTeacherNoteInput :: "AddTeacherNoteInput \<Rightarrow> qa_error + AddTeacherNoteInput" where
  "normalizeTeacherNoteInput i =
     (let j = i\<lparr>an_Body := TrimSpace (an_Body i)\<rparr>
      in if an_ThreadID j = uuid_Nil \<or> \<not> validText (an_Body j) 1 20000 then Inl ErrQAInvalidInput else Inr j)"

section \<open>Reading threads\<close>

definition ListStudentThreads_store :: "bool \<Rightarrow> uuid \<Rightarrow> Status_qa \<Rightarrow> keyset_cursor \<Rightarrow> qa_db \<Rightarrow> qa_error + (Thread_qa list \<times> keyset_cursor)" where
  "ListStudentThreads_store fault student st c db =
     (if fault then Inl ErrQADriver
      else if \<not> active_user RoleStudent student db then Inl ErrQANotFound
      else let items = newest_page qt_LastMessageAt qt_ID c
             (filter (\<lambda>q. qt_StudentID q = student \<and> (qa_status_text st = [] \<or> qt_Status q = st)) (qa_threads db))
           in Inr (items, next_cursor qt_LastMessageAt qt_ID c items))"

definition ListAdminThreads_store :: "bool \<Rightarrow> AdminThreadFilter \<Rightarrow> keyset_cursor \<Rightarrow> qa_db \<Rightarrow> qa_error + (Thread_qa list \<times> keyset_cursor)" where
  "ListAdminThreads_store fault f c db =
     (if fault then Inl ErrQADriver
      else let items = newest_page qt_LastMessageAt qt_ID c
             (filter (\<lambda>q. known_student (qt_StudentID q) db \<and> (qa_status_text (ft_Status f) = [] \<or> qt_Status q = ft_Status f) \<and>
                (ft_StudentID f = uuid_Nil \<or> qt_StudentID q = ft_StudentID f) \<and>
                (ft_From f = time_zero \<or> timestamptz (ft_From f) \<le> qt_CreatedAt q) \<and> (ft_To f = time_zero \<or> qt_CreatedAt q \<le> timestamptz (ft_To f))) (qa_threads db))
           in Inr (items, next_cursor qt_LastMessageAt qt_ID c items))"

definition GetAdminThread_store :: "uuid \<Rightarrow> qa_db \<Rightarrow> qa_error + Thread_qa" where
  "GetAdminThread_store i db = found (find (\<lambda>q. qt_ID q = i \<and> known_student (qt_StudentID q) db) (qa_threads db))"

definition GetStudentThread_store :: "uuid \<Rightarrow> uuid \<Rightarrow> qa_db \<Rightarrow> qa_error + Thread_qa" where
  "GetStudentThread_store student i db =
     found (find (\<lambda>q. qt_ID q = i \<and> qt_StudentID q = student \<and> active_user RoleStudent student db) (qa_threads db))"

definition LockAdminThread :: "uuid \<Rightarrow> qa_db \<Rightarrow> qa_error + Thread_qa" where
  "LockAdminThread i db = found (find (\<lambda>q. qt_ID q = i \<and> known_student (qt_StudentID q) db) (qa_threads db))"

definition LockStudentThread :: "uuid \<Rightarrow> uuid \<Rightarrow> qa_db \<Rightarrow> qa_error + Thread_qa" where
  "LockStudentThread student i db =
     found (find (\<lambda>q. qt_ID q = i \<and> qt_StudentID q = student \<and> active_user RoleStudent student db) (qa_threads db))"

section \<open>Reading messages\<close>

text \<open>Which files of a message are shown: ready attachments that still belong to the sender.\<close>

definition attachment_rows :: "(message_row \<Rightarrow> lockedQAAttachment \<Rightarrow> bool) \<Rightarrow> uuid \<Rightarrow> qa_db \<Rightarrow> Attachment_qa list" where
  "attachment_rows shown m db =
     concat (map (\<lambda>x. case find (\<lambda>r. qm_ID r = mf_message x) (qa_messages db) of
         None \<Rightarrow> []
       | Some r \<Rightarrow> (case find (\<lambda>f. lq_id f = mf_version x \<and> lq_purpose f = ''qa_attachment'' \<and> lq_state f = ''ready'' \<and> \<not> lq_deleted f) (qa_files db) of
           None \<Rightarrow> []
         | Some f \<Rightarrow> if shown r f then [\<lparr>qa_FileVersionID = mf_version x, qa_SortPosition = mf_position x, qa_DisplayName = mf_name x, qa_PreviewAvailable = lq_preview f\<rparr>] else []))
       (sort_key (\<lambda>x. (mf_position x, mf_version x)) (filter (\<lambda>x. mf_message x = m) (qa_message_files db))))"

definition student_wrote :: "uuid \<Rightarrow> message_row \<Rightarrow> bool" where
  "student_wrote student r \<longleftrightarrow> qm_SenderRole r = RoleStudent \<and> qm_SenderUserID r = student \<and> qm_Kind r \<in> {MessageKindInitial, MessageKindStudentFollowUp}"

definition admin_message :: "message_row \<Rightarrow> bool" where
  "admin_message r \<longleftrightarrow> qm_SenderRole r = RoleAdmin \<and> qm_Kind r = MessageKindAdminReply"

definition listAdminMessageAttachments :: "uuid \<Rightarrow> qa_db \<Rightarrow> Attachment_qa list" where
  "listAdminMessageAttachments m db = attachment_rows (\<lambda>r f. lq_owner f = qm_SenderUserID r) m db"

definition listStudentMessageAttachments :: "uuid \<Rightarrow> uuid \<Rightarrow> qa_db \<Rightarrow> Attachment_qa list" where
  "listStudentMessageAttachments student m db =
     attachment_rows (\<lambda>r f. list_ex (\<lambda>q. qt_ID q = qm_ThreadID r \<and> qt_StudentID q = student) (qa_threads db) \<and> active_user RoleStudent student db \<and>
       ((student_wrote student r \<and> lq_owner f = student) \<or> (admin_message r \<and> lq_owner f = qm_SenderUserID r))) m db"

definition with_attachments :: "message_row \<Rightarrow> Attachment_qa list \<Rightarrow> Message_qa" where
  "with_attachments r as = message_columns.extend (message_columns.truncate r) (Message_qa.fields as)"

definition ListAdminMessages_store :: "bool \<Rightarrow> uuid \<Rightarrow> keyset_cursor \<Rightarrow> qa_db \<Rightarrow> qa_error + (Message_qa list \<times> keyset_cursor)" where
  "ListAdminMessages_store fault i c db =
     (if fault then Inl ErrQADriver
      else let rows = oldest_page qm_CreatedAt qm_ID c (filter (\<lambda>r. qm_ThreadID r = i \<and>
             list_ex (\<lambda>q. qt_ID q = i \<and> (student_wrote (qt_StudentID q) r \<or> admin_message r)) (qa_threads db)) (qa_messages db))
           in case (rows, GetAdminThread_store i db) of
                ([], Inl e) \<Rightarrow> Inl e
              | _ \<Rightarrow> Inr (map (\<lambda>r. with_attachments r (listAdminMessageAttachments (qm_ID r) db)) rows, next_cursor qm_CreatedAt qm_ID c rows))"

definition ListStudentMessages_store :: "bool \<Rightarrow> uuid \<Rightarrow> uuid \<Rightarrow> keyset_cursor \<Rightarrow> qa_db \<Rightarrow> qa_error + (Message_qa list \<times> keyset_cursor)" where
  "ListStudentMessages_store fault student i c db =
     (if fault then Inl ErrQADriver
      else let rows = oldest_page qm_CreatedAt qm_ID c (filter (\<lambda>r. qm_ThreadID r = i \<and> active_user RoleStudent student db \<and>
             list_ex (\<lambda>q. qt_ID q = i \<and> qt_StudentID q = student \<and> (student_wrote student r \<or> admin_message r)) (qa_threads db)) (qa_messages db))
           in case (rows, GetStudentThread_store student i db) of
                ([], Inl e) \<Rightarrow> Inl e
              | _ \<Rightarrow> Inr (map (\<lambda>r. with_attachments r (listStudentMessageAttachments student (qm_ID r) db)) rows, next_cursor qm_CreatedAt qm_ID c rows))"

definition ListTeacherNotes :: "bool \<Rightarrow> uuid \<Rightarrow> qa_db \<Rightarrow> qa_error + TeacherNote list" where
  "ListTeacherNotes fault i db =
     (if fault then Inl ErrQADriver
      else let notes = sort_key (\<lambda>n. (tn_CreatedAt n, tn_ID n)) (filter (\<lambda>n. tn_ThreadID n = i \<and> list_ex (\<lambda>q. qt_ID q = i) (qa_threads db) \<and>
             list_ex (\<lambda>u. u_ID u = tn_AuthorUserID n \<and> u_Role u = RoleAdmin) (qa_users db)) (teacher_notes db))
           in case (notes, GetAdminThread_store i db) of ([], Inl e) \<Rightarrow> Inl e | _ \<Rightarrow> Inr notes)"

definition FindMessageByIdempotency :: "uuid \<Rightarrow> string \<Rightarrow> qa_db \<Rightarrow> (Thread_qa \<times> Message_qa) option" where
  "FindMessageByIdempotency sender key db =
     (case find (\<lambda>r. qm_SenderUserID r = sender \<and> qm_IdempotencyKey r = key) (qa_messages db) of
        None \<Rightarrow> None
      | Some r \<Rightarrow> (case find (\<lambda>q. qt_ID q = qm_ThreadID r \<and> qt_StudentID q = sender) (qa_threads db) of
          None \<Rightarrow> None
        | Some q \<Rightarrow> if active_user RoleStudent sender db
            then Some (q, with_attachments r (listStudentMessageAttachments (qt_StudentID q) (qm_ID r) db)) else None))"

definition FindAdminMessageByIdempotency :: "uuid \<Rightarrow> string \<Rightarrow> qa_db \<Rightarrow> (Thread_qa \<times> Message_qa) option" where
  "FindAdminMessageByIdempotency sender key db =
     (case find (\<lambda>r. qm_SenderUserID r = sender \<and> admin_message r \<and> qm_IdempotencyKey r = key) (qa_messages db) of
        None \<Rightarrow> None
      | Some r \<Rightarrow> (case find (\<lambda>q. qt_ID q = qm_ThreadID r) (qa_threads db) of
          None \<Rightarrow> None
        | Some q \<Rightarrow> if active_user RoleAdmin sender db then Some (q, with_attachments r (listAdminMessageAttachments (qm_ID r) db)) else None))"

definition ActiveAdminID :: "qa_db \<Rightarrow> qa_error + uuid" where
  "ActiveAdminID db = found (map_option u_ID (find (\<lambda>u. u_Role u = RoleAdmin \<and> u_Status u = StatusActive \<and> \<not> ur_Deleted u) (qa_users db)))"

section \<open>Writing\<close>

text \<open>The trigger \<^verbatim>\<open>enforce_qa_message_sender\<close>, then the primary key and \<^verbatim>\<open>UNIQUE(sender_user_id,idempotency_key)\<close>.\<close>

definition sender_allowed :: "message_row \<Rightarrow> qa_db \<Rightarrow> bool" where
  "sender_allowed r db \<longleftrightarrow> active_user (qm_SenderRole r) (qm_SenderUserID r) db \<and>
     (qm_SenderRole r = RoleStudent \<longrightarrow> list_ex (\<lambda>q. qt_ID q = qm_ThreadID r \<and> qt_StudentID q = qm_SenderUserID r) (qa_threads db))"

definition insert_qa_message :: "message_row \<Rightarrow> qa_db \<Rightarrow> qa_error + qa_db" where
  "insert_qa_message r db =
     (if \<not> sender_allowed r db then Inl ErrQAInvalidInput
      else if list_ex (\<lambda>x. qm_ID x = qm_ID r \<or> (qm_SenderUserID x = qm_SenderUserID r \<and> qm_IdempotencyKey x = qm_IdempotencyKey r)) (qa_messages db)
      then Inl ErrQAIdempotencyConflict
      else Inr (db\<lparr>qa_messages := qa_messages db @ [r]\<rparr>))"

definition CreateThreadWithFirstMessage ::
  "uuid \<Rightarrow> uuid \<Rightarrow> uuid \<Rightarrow> CreateThreadInput_qa \<Rightarrow> time \<Rightarrow> qa_db \<Rightarrow> qa_error + (Thread_qa \<times> Message_qa \<times> bool \<times> qa_db)" where
  "CreateThreadWithFirstMessage threadID messageID student i now db =
     (case FindMessageByIdempotency student (ct_IdempotencyKey i) db of
        Some (q, m) \<Rightarrow> if qm_Kind m \<noteq> MessageKindInitial then Inl ErrQAIdempotencyConflict else Inr (q, m, False, db)
      | None \<Rightarrow>
          if \<not> active_user RoleStudent student db then Inl ErrQANotFound
          else if list_ex (\<lambda>q. qt_ID q = threadID) (qa_threads db) then Inl ErrQAIdempotencyConflict
          else let t = timestamptz now;
                   q = \<lparr>qt_ID = threadID, qt_StudentID = student, qt_Title = ct_Title i, qt_Status = StatusPending, qt_Version = 1,
                        qt_LastMessageAt = t, qt_CreatedAt = t, qt_UpdatedAt = t, qt_CompletedAt = None\<rparr>;
                   r = \<lparr>qm_ID = messageID, qm_ThreadID = threadID, qm_SenderUserID = student, qm_SenderRole = RoleStudent, qm_Kind = MessageKindInitial,
                        qm_Body = ct_Body i, qm_CreatedAt = t, qm_IdempotencyKey = ct_IdempotencyKey i\<rparr>
               in case insert_qa_message r (db\<lparr>qa_threads := qa_threads db @ [q]\<rparr>) of
                    Inl e \<Rightarrow> Inl e
                  | Inr db1 \<Rightarrow> Inr (q, with_attachments r [], True, db1))"

text \<open>An update that finds no row is \<^verbatim>\<open>ErrNotFound\<close>, which the calls for the administrator turn into \<^verbatim>\<open>ErrThreadConflict\<close>.\<close>

definition update_thread :: "qa_error \<Rightarrow> (Thread_qa \<Rightarrow> bool) \<Rightarrow> (Thread_qa \<Rightarrow> Thread_qa) \<Rightarrow> qa_db \<Rightarrow> qa_error + (Thread_qa \<times> qa_db)" where
  "update_thread missing p f db =
     (case find p (qa_threads db) of
        None \<Rightarrow> Inl missing
      | Some q \<Rightarrow> Inr (f q, db\<lparr>qa_threads := update_where p f (qa_threads db)\<rparr>))"

definition completed_at :: "Status_qa \<Rightarrow> time \<Rightarrow> time option" where
  "completed_at s t = (if s = StatusCompleted then Some t else None)"

definition AppendStudentMessage ::
  "uuid \<Rightarrow> Thread_qa \<Rightarrow> uuid \<Rightarrow> AddMessageInput_qa \<Rightarrow> Status_qa \<Rightarrow> time \<Rightarrow> qa_db \<Rightarrow> qa_error + (Thread_qa \<times> Message_qa \<times> qa_db)" where
  "AppendStudentMessage messageID q student i st now db =
     (let t = timestamptz now;
          r = \<lparr>qm_ID = messageID, qm_ThreadID = qt_ID q, qm_SenderUserID = student, qm_SenderRole = RoleStudent, qm_Kind = MessageKindStudentFollowUp,
               qm_Body = am_Body i, qm_CreatedAt = t, qm_IdempotencyKey = am_IdempotencyKey i\<rparr>
      in case insert_qa_message r db of
           Inl e \<Rightarrow> Inl e
         | Inr db1 \<Rightarrow>
             (case update_thread ErrQANotFound (\<lambda>x. qt_ID x = qt_ID q \<and> qt_StudentID x = student \<and> qt_Version x = qt_Version q)
                (\<lambda>x. x\<lparr>qt_Status := st, qt_Version := qt_Version x + 1, qt_LastMessageAt := t, qt_UpdatedAt := t, qt_CompletedAt := completed_at st t\<rparr>) db1 of
                Inl e \<Rightarrow> Inl e
              | Inr (q', db2) \<Rightarrow> Inr (q', with_attachments r [], db2)))"

definition AppendAdminMessage ::
  "uuid \<Rightarrow> Thread_qa \<Rightarrow> uuid \<Rightarrow> AddMessageInput_qa \<Rightarrow> Status_qa \<Rightarrow> time \<Rightarrow> qa_db \<Rightarrow> qa_error + (Thread_qa \<times> Message_qa \<times> qa_db)" where
  "AppendAdminMessage messageID q admin i st now db =
     (let t = timestamptz now;
          r = \<lparr>qm_ID = messageID, qm_ThreadID = qt_ID q, qm_SenderUserID = admin, qm_SenderRole = RoleAdmin, qm_Kind = MessageKindAdminReply,
               qm_Body = am_Body i, qm_CreatedAt = t, qm_IdempotencyKey = am_IdempotencyKey i\<rparr>
      in if \<not> active_user RoleAdmin admin db then Inl ErrQANotFound
         else case insert_qa_message r db of
           Inl e \<Rightarrow> Inl e
         | Inr db1 \<Rightarrow>
             (case update_thread ErrThreadConflict (\<lambda>x. qt_ID x = qt_ID q \<and> qt_Version x = qt_Version q)
                (\<lambda>x. x\<lparr>qt_Status := st, qt_Version := qt_Version x + 1, qt_LastMessageAt := t, qt_UpdatedAt := t, qt_CompletedAt := None\<rparr>) db1 of
                Inl e \<Rightarrow> Inl e
              | Inr (q', db2) \<Rightarrow> Inr (q', with_attachments r [], db2)))"

definition UpdateAdminThreadStatus :: "Thread_qa \<Rightarrow> Status_qa \<Rightarrow> time \<Rightarrow> qa_db \<Rightarrow> qa_error + (Thread_qa \<times> qa_db)" where
  "UpdateAdminThreadStatus q st now db =
     (let t = timestamptz now
      in update_thread ErrThreadConflict (\<lambda>x. qt_ID x = qt_ID q \<and> qt_Version x = qt_Version q)
           (\<lambda>x. x\<lparr>qt_Status := st, qt_Version := qt_Version x + 1, qt_UpdatedAt := t, qt_CompletedAt := completed_at st t\<rparr>) db)"

definition InsertTeacherNote :: "uuid \<Rightarrow> uuid \<Rightarrow> uuid \<Rightarrow> string \<Rightarrow> time \<Rightarrow> qa_db \<Rightarrow> qa_error + (TeacherNote \<times> qa_db)" where
  "InsertTeacherNote noteID i admin body now db =
     (let n = \<lparr>tn_ID = noteID, tn_ThreadID = i, tn_AuthorUserID = admin, tn_Body = body, tn_CreatedAt = timestamptz now\<rparr>
      in if \<not> list_ex (\<lambda>q. qt_ID q = i) (qa_threads db) \<or> \<not> active_user RoleAdmin admin db then Inl ErrQANotFound
         else if list_ex (\<lambda>x. tn_ID x = noteID) (teacher_notes db) then Inl ErrQAIdempotencyConflict
         else Inr (n, db\<lparr>teacher_notes := teacher_notes db @ [n]\<rparr>))"

section \<open>Attachments\<close>

definition qaAttachmentLimits :: "(string \<times> int) list" where
  "qaAttachmentLimits =
     [(''image/jpeg'', 20971520), (''image/png'', 20971520), (''image/webp'', 20971520), (''image/gif'', 20971520), (''application/pdf'', 52428800),
      (''application/vnd.openxmlformats-officedocument.wordprocessingml.document'', 31457280),
      (''application/vnd.openxmlformats-officedocument.spreadsheetml.sheet'', 31457280),
      (''application/vnd.openxmlformats-officedocument.presentationml.presentation'', 31457280),
      (''text/plain'', 10485760), (''text/markdown'', 10485760)]"

definition validQAAttachmentName :: "string \<Rightarrow> bool" where
  "validQAAttachmentName name \<longleftrightarrow> name \<noteq> [] \<and> ValidString name \<and> RuneCount name \<le> 255 \<and> name \<noteq> ''.'' \<and> name \<noteq> ''..'' \<and> TrimSpace name = name \<and>
     \<not> ContainsAny name (CHR ''/'' # CHR 0x5C # CHR 0x00 # CHR 0x0D # CHR 0x0A # []) \<and> list_all (\<lambda>r. 32 \<le> r \<and> r \<noteq> 127) (runes name) \<and> Ext name \<noteq> []"

text \<open>The checks of one attachment, with the sum of the sizes and the number of images before it.\<close>

definition check_attachment ::
  "uuid \<Rightarrow> lockedQAAttachment \<Rightarrow> AttachmentInput_qa \<Rightarrow> int \<times> nat \<Rightarrow> qa_error + (Attachment_qa \<times> int \<times> nat)" where
  "check_attachment actor a i acc = (case acc of (bytes, images) \<Rightarrow>
     (if lq_owner a \<noteq> actor \<or> lq_purpose a \<noteq> ''qa_attachment'' \<or> lq_cleanupState a = ''deleting'' \<or> lq_purgedAt a \<noteq> None then Inl ErrQAForbidden
      else if lq_state a \<noteq> ''ready'' then Inl ErrQAAttachmentNotReady
      else case map_of qaAttachmentLimits (ToLower (lq_mime a)) of
        None \<Rightarrow> Inl ErrQAInvalidInput
      | Some limit \<Rightarrow>
          if lq_size a < 1 \<or> lq_size a > limit then Inl ErrQAAttachmentLimit
          else let bytes = bytes + lq_size a; images = (if HasPrefix (ToLower (lq_mime a)) ''image/'' then images + 1 else images); name = TrimSpace (lq_name a) in
            if bytes > 104857600 then Inl ErrQAAttachmentLimit
            else if images > 10 then Inl ErrQAAttachmentLimit
            else if \<not> validQAAttachmentName name then Inl ErrQAInvalidInput
            else Inr (\<lparr>qa_FileVersionID = qi_FileVersionID i, qa_SortPosition = qi_SortPosition i, qa_DisplayName = name, qa_PreviewAvailable = lq_preview a\<rparr>, bytes, images)))"

fun check_attachments :: "uuid \<Rightarrow> (lockedQAAttachment \<times> AttachmentInput_qa) list \<Rightarrow> int \<times> nat \<Rightarrow> qa_error + Attachment_qa list" where
  "check_attachments actor [] acc = Inr []"
| "check_attachments actor ((a, i) # rest) acc =
     (case check_attachment actor a i acc of
        Inl e \<Rightarrow> Inl e
      | Inr (x, acc') \<Rightarrow> (case check_attachments actor rest acc' of Inl e \<Rightarrow> Inl e | Inr xs \<Rightarrow> Inr (x # xs)))"

text \<open>The loop runs over a map, whose order Go leaves open: \<open>rank\<close> orders the identifiers.\<close>

definition locked_file :: "qa_db \<Rightarrow> uuid \<Rightarrow> lockedQAAttachment option" where
  "locked_file db i = find (\<lambda>f. lq_id f = i \<and> \<not> lq_deleted f) (qa_files db)"

definition ValidateForMessage :: "(uuid \<Rightarrow> nat) \<Rightarrow> User \<Rightarrow> AttachmentInput_qa list \<Rightarrow> qa_db \<Rightarrow> qa_error + Attachment_qa list" where
  "ValidateForMessage rank actor inputs db =
     (if inputs = [] then Inr []
      else if length inputs > 20 \<or> u_ID actor = uuid_Nil \<or> u_Status actor \<noteq> StatusActive then Inl ErrQAAttachmentLimit
      else if \<not> attachments_loop [] [] inputs then Inl ErrQAInvalidInput
      else if \<not> list_all (\<lambda>i. locked_file db (qi_FileVersionID i) \<noteq> None) inputs then Inl ErrQAForbidden
      else if list_ex (\<lambda>x. mf_version x \<in> qi_FileVersionID ` set inputs) (qa_message_files db) then Inl ErrQAInvalidInput
      else case check_attachments (u_ID actor) (map (\<lambda>i. (the (locked_file db (qi_FileVersionID i)), i)) (sort_key (\<lambda>i. rank (qi_FileVersionID i)) inputs)) (0, 0) of
        Inl e \<Rightarrow> Inl e
      | Inr out \<Rightarrow> Inr (sort_key qa_SortPosition out))"

text \<open>One statement inserts all rows; the unique index on the file makes it fail as a whole.\<close>

definition BindMessageAttachments :: "uuid \<Rightarrow> Attachment_qa list \<Rightarrow> qa_db \<Rightarrow> qa_error + qa_db" where
  "BindMessageAttachments m as db =
     (if list_ex (\<lambda>x. mf_version x \<in> qa_FileVersionID ` set as) (qa_message_files db) \<or> \<not> distinct (map qa_FileVersionID as) then Inl ErrQAInvalidInput
      else Inr (db\<lparr>qa_message_files := qa_message_files db @
        map (\<lambda>a. \<lparr>mf_message = m, mf_version = qa_FileVersionID a, mf_position = qa_SortPosition a, mf_name = qa_DisplayName a\<rparr>) as\<rparr>))"

end
