(* ===== verification/QA_Service.thy ===== *)
theory QA_Service
  imports QA_Store
begin

text \<open>
  \<^verbatim>\<open>internal/qanda/service.go\<close>: asking, following up, replying, changing the status and taking notes, each
  in one transaction with its audit event and its notification, and the listings. What a call takes
  from its surroundings is the record \<open>qa_env\<close>: the clocks, fresh identifiers, the text of
  identifiers, and whether the database fails.
\<close>

record qa_env =
  qe_parse :: "string \<Rightarrow> uuid option"
  qe_render :: "uuid \<Rightarrow> string"
  qe_fault :: bool
  qe_now :: time
  qe_db_now :: time
  qe_threadID :: uuid
  qe_newID :: uuid
  qe_notificationID :: uuid
  qe_log_next :: int
  qe_rank :: "uuid \<Rightarrow> nat"

text \<open>\<^verbatim>\<open>if err != nil { return err }\<close>\<close>

definition andThen :: "'e + 'a \<Rightarrow> ('a \<Rightarrow> 'e + 'b) \<Rightarrow> 'e + 'b" where
  "andThen x f = (case x of Inl e \<Rightarrow> Inl e | Inr a \<Rightarrow> f a)"

lemma andThen_simps [simp]: "andThen (Inl e) f = Inl e" "andThen (Inr a) f = f a"
  by (simp_all add: andThen_def)

lemma andThen_Inr: "andThen x f = Inr y \<longleftrightarrow> (\<exists>a. x = Inr a \<and> f a = Inr y)"
  by (cases x) simp_all

section \<open>Shared steps\<close>

definition authorizeStudent :: "Principal \<Rightarrow> bool" where
  "authorizeStudent a \<longleftrightarrow> u_ID (p_User a) \<noteq> uuid_Nil \<and> u_Role (p_User a) = RoleStudent \<and> u_Status (p_User a) = StatusActive \<and>
     TrimSpace (p_RequestID a) \<noteq> [] \<and> p_IP a \<noteq> None"

definition authorizeAdmin :: "Principal \<Rightarrow> bool" where
  "authorizeAdmin a \<longleftrightarrow> u_ID (p_User a) \<noteq> uuid_Nil \<and> u_Role (p_User a) = RoleAdmin \<and> u_Status (p_User a) = StatusActive \<and>
     TrimSpace (p_RequestID a) \<noteq> [] \<and> p_IP a \<noteq> None"

definition monotonicActivity :: "time \<Rightarrow> time \<Rightarrow> time" where
  "monotonicActivity now last_at = (let minimum = last_at + 1000 in if now < minimum then minimum else now)"

definition auditEvent :: "(uuid \<Rightarrow> string) \<Rightarrow> Principal \<Rightarrow> string \<Rightarrow> uuid \<Rightarrow> (string \<times> meta_value) list \<Rightarrow> Event_audit" where
  "auditEvent render a action i m = \<lparr>ev_ActorUserID = u_ID (p_User a), ev_Action = action, ev_TargetType = ''qa_thread'', ev_TargetID = render i,
     ev_Metadata = m, ev_RequestID = p_RequestID a, ev_IP = p_IP a\<rparr>"

definition audited :: "qa_env \<Rightarrow> Event_audit \<Rightarrow> qa_db \<Rightarrow> qa_error + qa_db" where
  "audited en e db = (case Write (qe_parse en) (qe_render en) False (qe_log_next en) (qe_db_now en) e (qa_log db) of
     (Some er, _) \<Rightarrow> Inl (ErrQAAudit er) | (None, log) \<Rightarrow> Inr (db\<lparr>qa_log := log\<rparr>))"

definition notified :: "qa_env \<Rightarrow> NotificationIntent \<Rightarrow> qa_db \<Rightarrow> qa_error + qa_db" where
  "notified en n db = (case Notify (qe_parse en) (qe_render en) (qe_notificationID en) (qe_db_now en) n (qa_notifications db) of
     Inl e \<Rightarrow> Inl (ErrQANotify e) | Inr rows \<Rightarrow> Inr (db\<lparr>qa_notifications := rows\<rparr>))"

definition bindMessageAttachments :: "uuid \<Rightarrow> Attachment_qa list \<Rightarrow> qa_db \<Rightarrow> qa_error + qa_db" where
  "bindMessageAttachments m as db = (if as = [] then Inr db else BindMessageAttachments m as db)"

definition qa_intent :: "uuid \<Rightarrow> string \<Rightarrow> string \<Rightarrow> string \<Rightarrow> uuid \<Rightarrow> string \<Rightarrow> string \<Rightarrow> NotificationIntent" where
  "qa_intent recipient kind title summary thread path key = \<lparr>nt_recipient = recipient, nt_kind = kind, nt_title = title, nt_summary = summary,
     nt_target_type = ''qa_thread'', nt_target_id = thread, nt_target_path = path, nt_dedupe_key = key\<rparr>"

definition counts :: "AttachmentInput_qa list \<Rightarrow> (string \<times> meta_value) list" where
  "counts as = [(''messageCount'', MString ''1''), (''attachmentCount'', MString (show_nat (length as)))]"

definition statuses :: "Status_qa \<Rightarrow> Status_qa \<Rightarrow> (string \<times> meta_value) list" where
  "statuses old new = [(''oldStatus'', MString (qa_status_text old)), (''newStatus'', MString (qa_status_text new))]"

section \<open>Messages\<close>

definition CreateThread :: "qa_env \<Rightarrow> Principal \<Rightarrow> CreateThreadInput_qa \<Rightarrow> qa_db \<Rightarrow> (qa_error + (Thread_qa \<times> Message_qa)) \<times> qa_db" where
  "CreateThread en actor input db =
     (if \<not> authorizeStudent actor then (Inl ErrQAForbidden, db)
      else case normalizeCreateInput input of
        Inl e \<Rightarrow> (Inl e, db)
      | Inr i \<Rightarrow> transact (qe_fault en) ErrQADriver (\<lambda>db.
          case FindMessageByIdempotency (u_ID (p_User actor)) (ct_IdempotencyKey i) db of
            Some (q, m) \<Rightarrow> if qm_Kind m \<noteq> MessageKindInitial then Inl ErrQAIdempotencyConflict else Inr ((q, m), db)
          | None \<Rightarrow>
              andThen (ValidateForMessage (qe_rank en) (p_User actor) (ct_Attachments i) db) (\<lambda>as.
              andThen (CreateThreadWithFirstMessage (qe_threadID en) (qe_newID en) (u_ID (p_User actor)) i (qe_now en) db) (\<lambda>(q, m, created, db1).
              if \<not> created then Inr ((q, m), db1)
              else andThen (bindMessageAttachments (qm_ID m) as db1) (\<lambda>db2.
                   andThen (audited en (auditEvent (qe_render en) actor ''qa.thread_created'' (qt_ID q) (counts (ct_Attachments i))) db2) (\<lambda>db3.
                   andThen (ActiveAdminID db3) (\<lambda>admin.
                   andThen (notified en (qa_intent admin ''qa_created'' ''New student question'' ''A student created a question.'' (qt_ID q)
                       (''/admin/questions/'' @ qe_render en (qt_ID q)) (''qa-created:'' @ qe_render en (qm_ID m))) db3) (\<lambda>db4.
                   Inr ((q, m\<lparr>qm_Attachments := as\<rparr>), db4)))))))) db)"

definition AddStudentMessage :: "qa_env \<Rightarrow> Principal \<Rightarrow> AddMessageInput_qa \<Rightarrow> qa_db \<Rightarrow> (qa_error + (Thread_qa \<times> Message_qa)) \<times> qa_db" where
  "AddStudentMessage en actor input db =
     (if \<not> authorizeStudent actor then (Inl ErrQAForbidden, db)
      else case normalizeAddMessageInput input of
        Inl e \<Rightarrow> (Inl e, db)
      | Inr i \<Rightarrow> transact (qe_fault en) ErrQADriver (\<lambda>db.
          andThen (LockStudentThread (u_ID (p_User actor)) (am_ThreadID i) db) (\<lambda>q.
          case FindMessageByIdempotency (u_ID (p_User actor)) (am_IdempotencyKey i) db of
            Some (q', m) \<Rightarrow> if qm_Kind m \<noteq> MessageKindStudentFollowUp \<or> qt_ID q' \<noteq> am_ThreadID i then Inl ErrQAIdempotencyConflict else Inr ((q', m), db)
          | None \<Rightarrow>
              if qt_Version q \<noteq> am_ExpectedVersion i then Inl ErrThreadConflict
              else andThen (NextStatus (qt_Status q) ActionStudentFollowUp RoleStudent) (\<lambda>st.
                   andThen (ValidateForMessage (qe_rank en) (p_User actor) (am_Attachments i) db) (\<lambda>as.
                   andThen (AppendStudentMessage (qe_newID en) q (u_ID (p_User actor)) i st (monotonicActivity (qe_now en) (qt_LastMessageAt q)) db) (\<lambda>(q', m, db1).
                   andThen (bindMessageAttachments (qm_ID m) as db1) (\<lambda>db2.
                   andThen (audited en (auditEvent (qe_render en) actor ''qa.student_followed_up'' (qt_ID q') (counts (am_Attachments i))) db2) (\<lambda>db3.
                   andThen (ActiveAdminID db3) (\<lambda>admin.
                   andThen (notified en (qa_intent admin ''qa_followed_up'' ''Student follow-up'' ''A student followed up on a question.'' (qt_ID q')
                       (''/admin/questions/'' @ qe_render en (qt_ID q')) (''qa-followed-up:'' @ qe_render en (qm_ID m))) db3) (\<lambda>db4.
                   Inr ((q', m\<lparr>qm_Attachments := as\<rparr>), db4)))))))))) db)"

definition AddAdminMessage :: "qa_env \<Rightarrow> Principal \<Rightarrow> AddMessageInput_qa \<Rightarrow> qa_db \<Rightarrow> (qa_error + (Thread_qa \<times> Message_qa)) \<times> qa_db" where
  "AddAdminMessage en actor input db =
     (if \<not> authorizeAdmin actor then (Inl ErrQAForbidden, db)
      else case normalizeAddMessageInput input of
        Inl e \<Rightarrow> (Inl e, db)
      | Inr i \<Rightarrow> transact (qe_fault en) ErrQADriver (\<lambda>db.
          andThen (LockAdminThread (am_ThreadID i) db) (\<lambda>q.
          case FindAdminMessageByIdempotency (u_ID (p_User actor)) (am_IdempotencyKey i) db of
            Some (q', m) \<Rightarrow> if qm_Kind m \<noteq> MessageKindAdminReply \<or> qt_ID q' \<noteq> am_ThreadID i then Inl ErrQAIdempotencyConflict else Inr ((q', m), db)
          | None \<Rightarrow>
              if qt_Version q \<noteq> am_ExpectedVersion i then Inl ErrThreadConflict
              else andThen (NextStatus (qt_Status q) ActionAdminReply RoleAdmin) (\<lambda>st.
                   andThen (ValidateForMessage (qe_rank en) (p_User actor) (am_Attachments i) db) (\<lambda>as.
                   andThen (AppendAdminMessage (qe_newID en) q (u_ID (p_User actor)) i st (monotonicActivity (qe_now en) (qt_LastMessageAt q)) db) (\<lambda>(q', m, db1).
                   andThen (bindMessageAttachments (qm_ID m) as db1) (\<lambda>db2.
                   andThen (audited en (auditEvent (qe_render en) actor ''qa.admin_replied'' (qt_ID q') (counts (am_Attachments i) @ statuses (qt_Status q) st)) db2) (\<lambda>db3.
                   andThen (notified en (qa_intent (qt_StudentID q') ''qa_replied'' ''Teacher reply'' ''Your teacher replied to a question.'' (qt_ID q')
                       (''/student/questions/'' @ qe_render en (qt_ID q')) (''qa-replied:'' @ qe_render en (qm_ID m))) db3) (\<lambda>db4.
                   Inr ((q', m\<lparr>qm_Attachments := as\<rparr>), db4))))))))) db)"

section \<open>Status and notes\<close>

definition validStatusFilter :: "Status_qa \<Rightarrow> bool" where
  "validStatusFilter s \<longleftrightarrow> (case s of StatusText t \<Rightarrow> t = [] | _ \<Rightarrow> True)"

definition status_action :: "Status_qa \<Rightarrow> Status_qa \<Rightarrow> qa_error + Action_qa" where
  "status_action wanted current =
     (if wanted = StatusInProgress \<and> current = StatusPending then Inr ActionClaim
      else if wanted = StatusInProgress \<and> current = StatusCompleted then Inr ActionReopen
      else if wanted = StatusCompleted then Inr ActionComplete
      else Inl ErrInvalidStatusTransition)"

definition ChangeStatus :: "qa_env \<Rightarrow> Principal \<Rightarrow> ChangeStatusInput \<Rightarrow> qa_db \<Rightarrow> (qa_error + Thread_qa) \<times> qa_db" where
  "ChangeStatus en actor i db =
     (if \<not> authorizeAdmin actor then (Inl ErrQAForbidden, db)
      else if cs_ThreadID i = uuid_Nil \<or> cs_ExpectedVersion i < 1 \<or> \<not> validStatusFilter (cs_Status i) \<or> cs_Status i = StatusText [] then (Inl ErrQAInvalidInput, db)
      else transact (qe_fault en) ErrQADriver (\<lambda>db.
        andThen (LockAdminThread (cs_ThreadID i) db) (\<lambda>q.
        if qt_Version q \<noteq> cs_ExpectedVersion i then Inl ErrThreadConflict
        else andThen (status_action (cs_Status i) (qt_Status q)) (\<lambda>action.
             andThen (NextStatus (qt_Status q) action RoleAdmin) (\<lambda>st.
             andThen (UpdateAdminThreadStatus q st (qe_now en) db) (\<lambda>(q', db1).
             andThen (audited en (auditEvent (qe_render en) actor ''qa.status_changed'' (qt_ID q') (statuses (qt_Status q) st)) db1) (\<lambda>db2.
             andThen (notified en (qa_intent (qt_StudentID q') ''qa_status_changed'' ''Question status changed'' ''Your question status changed.'' (qt_ID q')
                 (''/student/questions/'' @ qe_render en (qt_ID q')) (''qa-status:'' @ qe_render en (qt_ID q') @ '':'' @ show_nat (nat (qt_Version q')))) db2) (\<lambda>db3.
             Inr (q', db3)))))))) db)"

definition AddTeacherNote :: "qa_env \<Rightarrow> Principal \<Rightarrow> AddTeacherNoteInput \<Rightarrow> qa_db \<Rightarrow> (qa_error + TeacherNote) \<times> qa_db" where
  "AddTeacherNote en actor input db =
     (if \<not> authorizeAdmin actor then (Inl ErrQAForbidden, db)
      else case normalizeTeacherNoteInput input of
        Inl e \<Rightarrow> (Inl e, db)
      | Inr i \<Rightarrow> transact (qe_fault en) ErrQADriver (\<lambda>db.
          andThen (LockAdminThread (an_ThreadID i) db) (\<lambda>_.
          andThen (InsertTeacherNote (qe_newID en) (an_ThreadID i) (u_ID (p_User actor)) (an_Body i) (qe_now en) db) (\<lambda>(n, db1).
          andThen (audited en (auditEvent (qe_render en) actor ''qa.teacher_note_added'' (an_ThreadID i) [(''noteCount'', MString ''1'')]) db1) (\<lambda>db2.
          Inr (n, db2))))) db)"

section \<open>Listings\<close>

definition validCursor :: "keyset_cursor \<Rightarrow> bool" where
  "validCursor c \<longleftrightarrow> (kc_At c = time_zero) = (kc_ID c = uuid_Nil)"

definition limited :: "int \<Rightarrow> keyset_cursor \<Rightarrow> keyset_cursor" where
  "limited standard c = (if kc_Limit c = 0 then c\<lparr>kc_Limit := standard\<rparr> else c)"

definition ListStudentThreads :: "bool \<Rightarrow> Principal \<Rightarrow> Status_qa \<Rightarrow> keyset_cursor \<Rightarrow> qa_db \<Rightarrow> qa_error + (Thread_qa list \<times> keyset_cursor)" where
  "ListStudentThreads fault actor st cursor db =
     (let c = limited 20 cursor in
      if \<not> authorizeStudent actor then Inl ErrQAForbidden
      else if kc_Limit c < 1 \<or> kc_Limit c > 50 \<or> \<not> validStatusFilter st \<or> \<not> validCursor c then Inl ErrQAInvalidInput
      else ListStudentThreads_store fault (u_ID (p_User actor)) st c db)"

definition ListStudentMessages :: "bool \<Rightarrow> Principal \<Rightarrow> uuid \<Rightarrow> keyset_cursor \<Rightarrow> qa_db \<Rightarrow> qa_error + (Message_qa list \<times> keyset_cursor)" where
  "ListStudentMessages fault actor i cursor db =
     (let c = limited 50 cursor in
      if \<not> authorizeStudent actor then Inl ErrQAForbidden
      else if i = uuid_Nil \<or> kc_Limit c < 1 \<or> kc_Limit c > 100 \<or> \<not> validCursor c then Inl ErrQAInvalidInput
      else ListStudentMessages_store fault (u_ID (p_User actor)) i c db)"

definition GetStudentThread :: "bool \<Rightarrow> Principal \<Rightarrow> uuid \<Rightarrow> qa_db \<Rightarrow> qa_error + (Thread_qa \<times> Message_qa list \<times> keyset_cursor)" where
  "GetStudentThread fault actor i db =
     (if \<not> authorizeStudent actor then Inl ErrQAForbidden
      else if i = uuid_Nil then Inl ErrQAInvalidInput
      else if fault then Inl ErrQADriver
      else andThen (GetStudentThread_store (u_ID (p_User actor)) i db) (\<lambda>q.
           andThen (ListStudentMessages_store fault (u_ID (p_User actor)) i (zero_cursor\<lparr>kc_Limit := 100\<rparr>) db) (\<lambda>(ms, c). Inr (q, ms, c))))"

definition ListAdminThreads :: "bool \<Rightarrow> Principal \<Rightarrow> AdminThreadFilter \<Rightarrow> keyset_cursor \<Rightarrow> qa_db \<Rightarrow> qa_error + (Thread_qa list \<times> keyset_cursor)" where
  "ListAdminThreads fault actor f cursor db =
     (let c = limited 20 cursor in
      if \<not> authorizeAdmin actor then Inl ErrQAForbidden
      else if kc_Limit c < 1 \<or> kc_Limit c > 50 \<or> \<not> validStatusFilter (ft_Status f) \<or> \<not> validCursor c \<or>
          (ft_From f \<noteq> time_zero \<and> ft_To f \<noteq> time_zero \<and> ft_From f > ft_To f) then Inl ErrQAInvalidInput
      else ListAdminThreads_store fault f c db)"

definition GetAdminThread ::
  "bool \<Rightarrow> Principal \<Rightarrow> uuid \<Rightarrow> keyset_cursor \<Rightarrow> qa_db \<Rightarrow> qa_error + (Thread_qa \<times> Message_qa list \<times> TeacherNote list \<times> keyset_cursor)" where
  "GetAdminThread fault actor i cursor db =
     (let c = limited 100 cursor in
      if \<not> authorizeAdmin actor then Inl ErrQAForbidden
      else if i = uuid_Nil \<or> kc_Limit c < 1 \<or> kc_Limit c > 100 \<or> \<not> validCursor c then Inl ErrQAInvalidInput
      else if fault then Inl ErrQADriver
      else andThen (GetAdminThread_store i db) (\<lambda>q.
           andThen (ListAdminMessages_store fault i c db) (\<lambda>(ms, n).
           andThen (ListTeacherNotes fault i db) (\<lambda>notes. Inr (q, ms, notes, n)))))"

end
