(* ===== verification/QA_Machine.thy ===== *)
theory QA_Machine
  imports QA_Service
begin

text \<open>
  What the transactions of \<open>QA_Service\<close> do to the tables, in every interleaving. \<open>qa_move\<close> is the abstract
  machine: a thread is opened with its first message, a message is appended, or the status moves along
  \<^verbatim>\<open>NextStatus\<close>. Every operation is such a move or changes nothing of a thread, and the moves keep
  the invariant \<open>qa_inv\<close>. Users, files and notifications may change at any time.
\<close>

section \<open>The abstract machine\<close>

definition thread_messages :: "uuid \<Rightarrow> qa_db \<Rightarrow> message_row list" where
  "thread_messages i db = filter (\<lambda>r. qm_ThreadID r = i) (qa_messages db)"

definition fresh_message :: "message_row \<Rightarrow> qa_db \<Rightarrow> bool" where
  "fresh_message r db \<longleftrightarrow> (\<forall>x \<in> set (qa_messages db). qm_ID x \<noteq> qm_ID r \<and> \<not> (qm_SenderUserID x = qm_SenderUserID r \<and> qm_IdempotencyKey x = qm_IdempotencyKey r))"

definition attached_row :: "uuid \<Rightarrow> Attachment_qa \<Rightarrow> message_file" where
  "attached_row m a = \<lparr>mf_message = m, mf_version = qa_FileVersionID a, mf_position = qa_SortPosition a, mf_name = qa_DisplayName a\<rparr>"

definition files_bound :: "uuid \<Rightarrow> Attachment_qa list \<Rightarrow> qa_db \<Rightarrow> qa_db \<Rightarrow> bool" where
  "files_bound m as db db' \<longleftrightarrow> qa_message_files db' = qa_message_files db @ map (attached_row m) as \<and>
     distinct (map qa_FileVersionID as) \<and> (\<forall>x \<in> set (qa_message_files db). mf_version x \<notin> qa_FileVersionID ` set as)"

inductive qa_move :: "qa_db \<Rightarrow> qa_db \<Rightarrow> bool" where
  quiet: "qa_threads db' = qa_threads db \<Longrightarrow> qa_messages db' = qa_messages db \<Longrightarrow> qa_message_files db' = qa_message_files db \<Longrightarrow> qa_move db db'"
| opened: "qa_threads db' = qa_threads db @ [q] \<Longrightarrow> qa_messages db' = qa_messages db @ [r] \<Longrightarrow> files_bound (qm_ID r) as db db' \<Longrightarrow>
    fresh_message r db \<Longrightarrow> \<forall>x \<in> set (qa_threads db). qt_ID x \<noteq> qt_ID q \<Longrightarrow> qm_ThreadID r = qt_ID q \<Longrightarrow> student_wrote (qt_StudentID q) r \<Longrightarrow>
    qm_Kind r = MessageKindInitial \<Longrightarrow> NextStatus (StatusText []) ActionCreate RoleStudent = Inr (qt_Status q) \<Longrightarrow> qt_Version q = 1 \<Longrightarrow> qt_CompletedAt q = None \<Longrightarrow>
    qt_LastMessageAt q = qm_CreatedAt r \<Longrightarrow> qt_CreatedAt q = qm_CreatedAt r \<Longrightarrow> qm_CreatedAt r mod 1000 = 0 \<Longrightarrow> qa_move db db'"
| appended: "q \<in> set (qa_threads db) \<Longrightarrow>
    qa_threads db' = update_where (\<lambda>x. x = q) (\<lambda>_. q\<lparr>qt_Status := st, qt_Version := qt_Version q + 1, qt_LastMessageAt := qm_CreatedAt r, qt_UpdatedAt := qm_CreatedAt r,
      qt_CompletedAt := None\<rparr>) (qa_threads db) \<Longrightarrow> qa_messages db' = qa_messages db @ [r] \<Longrightarrow> files_bound (qm_ID r) as db db' \<Longrightarrow> fresh_message r db \<Longrightarrow>
    qm_ThreadID r = qt_ID q \<Longrightarrow> qt_LastMessageAt q < qm_CreatedAt r \<Longrightarrow> qm_CreatedAt r mod 1000 = 0 \<Longrightarrow>
    student_wrote (qt_StudentID q) r \<and> qm_Kind r = MessageKindStudentFollowUp \<and> NextStatus (qt_Status q) ActionStudentFollowUp RoleStudent = Inr st \<or>
      admin_message r \<and> NextStatus (qt_Status q) ActionAdminReply RoleAdmin = Inr st \<Longrightarrow> qa_move db db'"
| moved: "q \<in> set (qa_threads db) \<Longrightarrow>
    qa_threads db' = update_where (\<lambda>x. x = q) (\<lambda>_. q\<lparr>qt_Status := st, qt_Version := qt_Version q + 1, qt_UpdatedAt := t, qt_CompletedAt := completed_at st t\<rparr>)
      (qa_threads db) \<Longrightarrow> qa_messages db' = qa_messages db \<Longrightarrow> qa_message_files db' = qa_message_files db \<Longrightarrow>
    action \<in> {ActionClaim, ActionComplete, ActionReopen} \<Longrightarrow> NextStatus (qt_Status q) action RoleAdmin = Inr st \<Longrightarrow> qa_move db db'"

section \<open>The invariant\<close>

definition status_ok :: "Thread_qa \<Rightarrow> message_row \<Rightarrow> bool" where
  "status_ok q r \<longleftrightarrow> qt_Status q \<in> {StatusPending, StatusInProgress, StatusWaitingStudent, StatusCompleted} \<and>
     (qt_Status q = StatusCompleted \<longleftrightarrow> qt_CompletedAt q \<noteq> None) \<and>
     (qt_Status q = StatusPending \<longrightarrow> qm_SenderRole r = RoleStudent) \<and> (qt_Status q = StatusWaitingStudent \<longrightarrow> qm_SenderRole r = RoleAdmin)"

definition thread_ok :: "message_row list \<Rightarrow> Thread_qa \<Rightarrow> bool" where
  "thread_ok ms q \<longleftrightarrow> ms \<noteq> [] \<and> qm_Kind (hd ms) = MessageKindInitial \<and> (\<forall>r \<in> set (tl ms). qm_Kind r \<noteq> MessageKindInitial) \<and>
     sorted_wrt (<) (map qm_CreatedAt ms) \<and> qt_LastMessageAt q = qm_CreatedAt (last ms) \<and> qt_CreatedAt q = qm_CreatedAt (hd ms) \<and>
     qt_LastMessageAt q mod 1000 = 0 \<and> int (length ms) \<le> qt_Version q \<and> status_ok q (last ms)"

definition message_ok :: "qa_db \<Rightarrow> message_row \<Rightarrow> bool" where
  "message_ok db r \<longleftrightarrow> (\<exists>q \<in> set (qa_threads db). qt_ID q = qm_ThreadID r \<and> (student_wrote (qt_StudentID q) r \<or> admin_message r))"

definition qa_inv :: "qa_db \<Rightarrow> bool" where
  "qa_inv db \<longleftrightarrow> keyed qt_ID (qa_threads db) \<and> keyed qm_ID (qa_messages db) \<and> keyed (\<lambda>r. (qm_SenderUserID r, qm_IdempotencyKey r)) (qa_messages db) \<and>
     keyed mf_version (qa_message_files db) \<and> (\<forall>q \<in> set (qa_threads db). thread_ok (thread_messages (qt_ID q) db) q) \<and>
     (\<forall>r \<in> set (qa_messages db). message_ok db r) \<and> (\<forall>x \<in> set (qa_message_files db). mf_message x \<in> qm_ID ` set (qa_messages db))"

lemma qa_invD:
  assumes "qa_inv db"
  shows "keyed qt_ID (qa_threads db)" "keyed qm_ID (qa_messages db)" "keyed (\<lambda>r. (qm_SenderUserID r, qm_IdempotencyKey r)) (qa_messages db)"
    "keyed mf_version (qa_message_files db)" "q \<in> set (qa_threads db) \<Longrightarrow> thread_ok (thread_messages (qt_ID q) db) q"
    "r \<in> set (qa_messages db) \<Longrightarrow> message_ok db r"
  using assms by (auto simp: qa_inv_def)

text \<open>Where the rows that the moves write sit in the tables.\<close>

lemma keyed_append_message:
  assumes "qa_inv db" and "fresh_message r db"
  shows "keyed qm_ID (qa_messages db @ [r]) \<and> keyed (\<lambda>r. (qm_SenderUserID r, qm_IdempotencyKey r)) (qa_messages db @ [r])"
  using assms by (auto simp: fresh_message_def intro!: keyed_append1 dest: qa_invD)

lemma keyed_files_bound:
  assumes "qa_inv db" and "files_bound m as db db'"
  shows "keyed mf_version (qa_message_files db')"
proof -
  have "mf_version \<circ> attached_row m = qa_FileVersionID" by (simp add: fun_eq_iff attached_row_def)
  then show ?thesis using assms qa_invD(4) [OF assms(1)] by (auto simp: files_bound_def keyed_def attached_row_def)
qed

lemma keyed_replace:
  assumes "keyed qt_ID rows" and "qt_ID q' = qt_ID q"
  shows "keyed qt_ID (update_where (\<lambda>x. x = q) (\<lambda>_. q') rows)"
  using assms by (intro keyed_update_where) auto

lemma replaced_rows:
  assumes "q \<in> set rows"
  shows "set (update_where (\<lambda>x. x = q) (\<lambda>_. q') rows) = insert q' (set rows - {q})"
  using assms by (auto simp: table_simps)

lemma replaced_owner:
  assumes "qt_ID q' = qt_ID q" and "qt_StudentID q' = qt_StudentID q"
  shows "\<forall>x \<in> A. \<exists>x' \<in> insert q' (A - {q}). qt_ID x' = qt_ID x \<and> qt_StudentID x' = qt_StudentID x"
  using assms by blast

lemma thread_ok_append:
  assumes "thread_ok ms q" and "qt_LastMessageAt q < qm_CreatedAt r" and "qm_Kind r \<noteq> MessageKindInitial" and "qm_CreatedAt r mod 1000 = 0"
    and "qt_LastMessageAt q' = qm_CreatedAt r" and "qt_CreatedAt q' = qt_CreatedAt q" and "qt_Version q' = qt_Version q + 1" and "status_ok q' r"
  shows "thread_ok (ms @ [r]) q'"
proof -
  have ms: "ms \<noteq> []" "sorted_wrt (<) (map qm_CreatedAt ms)" "qt_LastMessageAt q = qm_CreatedAt (last ms)" using assms(1) by (auto simp: thread_ok_def)
  have "qm_CreatedAt x \<le> qt_LastMessageAt q" if "x \<in> set ms" for x
  proof -
    have "ms = butlast ms @ [last ms]" using ms(1) by simp
    then have "sorted_wrt (<) (map qm_CreatedAt (butlast ms) @ [qm_CreatedAt (last ms)])" using ms(2) by (metis list.simps(8,9) map_append)
    then have "\<forall>y \<in> set (butlast ms). qm_CreatedAt y < qm_CreatedAt (last ms)" by (simp add: sorted_wrt_append)
    moreover have "x \<in> set (butlast ms) \<or> x = last ms" using that ms(1) by (metis append_butlast_last_id in_set_butlastD list.set_intros(1) rotate1.simps(2) set_ConsD set_rotate1)
    ultimately show ?thesis using ms(3) by auto
  qed
  then have "\<forall>x \<in> set ms. qm_CreatedAt x < qm_CreatedAt r" using assms(2) by force
  with assms ms show ?thesis by (auto simp: thread_ok_def sorted_wrt_append)
qed

section \<open>The moves keep the invariant\<close>

lemma message_ok_mono:
  assumes "message_ok db r" and "\<forall>q \<in> set (qa_threads db). \<exists>q' \<in> set (qa_threads db'). qt_ID q' = qt_ID q \<and> qt_StudentID q' = qt_StudentID q"
  shows "message_ok db' r"
  using assms unfolding message_ok_def by metis

lemma NextStatus_InrD:
  "NextStatus s ActionStudentFollowUp RoleStudent = Inr st \<Longrightarrow> st = StatusPending"
  "NextStatus s ActionAdminReply RoleAdmin = Inr st \<Longrightarrow> st = StatusWaitingStudent"
  "NextStatus s ActionClaim RoleAdmin = Inr st \<Longrightarrow> st = StatusInProgress"
  "NextStatus s ActionComplete RoleAdmin = Inr st \<Longrightarrow> st = StatusCompleted"
  "NextStatus s ActionReopen RoleAdmin = Inr st \<Longrightarrow> st = StatusInProgress"
  by (auto simp: NextStatus_def split: if_splits)

lemma qa_move_inv:
  assumes "qa_move db db'" and "qa_inv db"
  shows "qa_inv db'"
  using assms(1)
proof cases
  case quiet
  then show ?thesis using assms(2) by (simp add: qa_inv_def thread_messages_def message_ok_def)
next
  case (opened q r as)
  note inv = qa_invD [OF assms(2)]
  have other: "thread_messages (qt_ID x) db' = thread_messages (qt_ID x) db" if "x \<in> set (qa_threads db)" for x
    using that opened by (auto simp: thread_messages_def)
  have none: "thread_messages (qt_ID q) db = []"
    using inv(6) opened(5) by (fastforce simp: thread_messages_def filter_empty_conv message_ok_def)
  have "thread_ok [r] q" using opened by (simp add: thread_ok_def status_ok_def NextStatus_def student_wrote_def)
  moreover have "thread_messages (qt_ID q) db' = [r]" using none opened by (simp add: thread_messages_def)
  moreover have "\<forall>x \<in> set (qa_messages db'). message_ok db' x"
    using inv(6) opened by (fastforce simp: message_ok_def)
  moreover have "\<forall>x \<in> set (qa_message_files db'). mf_message x \<in> qm_ID ` set (qa_messages db')"
    using assms(2) opened by (auto simp: files_bound_def qa_inv_def attached_row_def)
  moreover have "keyed qt_ID (qa_threads db')" using inv(1) opened by (auto intro: keyed_append1)
  ultimately show ?thesis
    using keyed_append_message [OF assms(2) opened(4)] keyed_files_bound [OF assms(2) opened(3)] inv(5) other opened by (simp add: qa_inv_def)
next
  case (appended q r st as)
  let ?q = "q\<lparr>qt_Status := st, qt_Version := qt_Version q + 1, qt_LastMessageAt := qm_CreatedAt r, qt_UpdatedAt := qm_CreatedAt r, qt_CompletedAt := None\<rparr>"
  note inv = qa_invD [OF assms(2)]
  have rows: "set (qa_threads db') = insert ?q (set (qa_threads db) - {q})" using appended(1,2) by (simp add: replaced_rows)
  have other: "thread_messages (qt_ID x) db' = thread_messages (qt_ID x) db" if "x \<in> set (qa_threads db) - {q}" for x
    using that appended keyed_inj [OF inv(1)] by (auto simp: thread_messages_def)
  have own: "thread_messages (qt_ID q) db' = thread_messages (qt_ID q) db @ [r]" using appended by (simp add: thread_messages_def)
  have "qm_Kind r \<noteq> MessageKindInitial" "status_ok ?q r"
    using appended(9) by (auto simp: admin_message_def status_ok_def student_wrote_def dest: NextStatus_InrD)
  then have "thread_ok (thread_messages (qt_ID q) db @ [r]) ?q"
    using thread_ok_append [OF inv(5) [OF appended(1)] appended(7)] appended(8) by simp
  then have "\<forall>x \<in> set (qa_threads db'). thread_ok (thread_messages (qt_ID x) db') x" unfolding rows using own other inv(5) by auto
  moreover have "\<forall>x \<in> set (qa_messages db'). message_ok db' x"
  proof -
    have "message_ok db' x" if "x \<in> set (qa_messages db)" for x
      by (rule message_ok_mono [OF inv(6) [OF that]]) (use rows replaced_owner [of ?q q "set (qa_threads db)"] in simp)
    moreover have "message_ok db' r" using appended(6,9) by (auto simp: message_ok_def rows)
    ultimately show ?thesis using appended by auto
  qed
  moreover have "\<forall>x \<in> set (qa_message_files db'). mf_message x \<in> qm_ID ` set (qa_messages db')"
    using assms(2) appended by (auto simp: files_bound_def qa_inv_def attached_row_def)
  moreover have "keyed qt_ID (qa_threads db')" using keyed_replace [OF inv(1)] appended(2) by simp
  ultimately show ?thesis
    using keyed_append_message [OF assms(2) appended(5)] keyed_files_bound [OF assms(2) appended(4)] appended(3) by (simp add: qa_inv_def)
next
  case (moved q st t action)
  let ?q = "q\<lparr>qt_Status := st, qt_Version := qt_Version q + 1, qt_UpdatedAt := t, qt_CompletedAt := completed_at st t\<rparr>"
  note inv = qa_invD [OF assms(2)]
  have rows: "set (qa_threads db') = insert ?q (set (qa_threads db) - {q})" using moved(1,2) by (simp add: replaced_rows)
  have msgs: "thread_messages i db' = thread_messages i db" for i using moved by (simp add: thread_messages_def)
  have "st = StatusInProgress \<or> st = StatusCompleted" using moved(5,6) NextStatus_InrD(3-5) by blast
  then have "status_ok ?q x" for x by (elim disjE) (simp_all add: status_ok_def completed_at_def)
  then have "thread_ok (thread_messages (qt_ID q) db) ?q" using inv(5) [OF moved(1)] by (auto simp: thread_ok_def)
  then have "\<forall>x \<in> set (qa_threads db'). thread_ok (thread_messages (qt_ID x) db') x" unfolding rows using msgs inv(5) by auto
  moreover have "message_ok db' x" if "x \<in> set (qa_messages db')" for x
    by (rule message_ok_mono [OF inv(6)]) (use that moved(3) rows replaced_owner [of ?q q "set (qa_threads db)"] in simp_all)
  moreover have "keyed qt_ID (qa_threads db')" using keyed_replace [OF inv(1)] moved(2) by simp
  ultimately show ?thesis using assms(2) moved(3,4) by (simp add: qa_inv_def)
qed

section \<open>The operations are moves\<close>

lemma insert_qa_message_InrD:
  assumes "insert_qa_message r db = Inr db1"
  shows "db1 = db\<lparr>qa_messages := qa_messages db @ [r]\<rparr> \<and> fresh_message r db \<and> sender_allowed r db"
  using assms by (auto simp: insert_qa_message_def fresh_message_def list_ex_iff split: if_splits)

lemma update_thread_InrD:
  assumes "update_thread e p f db = Inr (q', db1)" and "keyed qt_ID (qa_threads db)" and "q \<in> set (qa_threads db)" and "p q" and "\<And>x. p x \<Longrightarrow> qt_ID x = qt_ID q"
  shows "q' = f q \<and> db1 = db\<lparr>qa_threads := update_where (\<lambda>x. x = q) (\<lambda>_. f q) (qa_threads db)\<rparr>"
proof -
  have only: "p x \<longleftrightarrow> x = q" if "x \<in> set (qa_threads db)" for x using that assms(2-5) keyed_inj by metis
  then have "update_where p f (qa_threads db) = update_where (\<lambda>x. x = q) (\<lambda>_. f q) (qa_threads db)" by (simp add: update_where_def)
  moreover have "find p (qa_threads db) = Some q" by (rule find_keyed [where k = qt_ID and p = p, OF assms(2-4)]) (rule assms(5))
  ultimately show ?thesis using assms(1) by (auto simp: update_thread_def)
qed

lemma bindMessageAttachments_InrD:
  assumes "bindMessageAttachments m as db = Inr db1"
  shows "files_bound m as db db1 \<and> qa_threads db1 = qa_threads db \<and> qa_messages db1 = qa_messages db \<and> qa_users db1 = qa_users db \<and> qa_notifications db1 = qa_notifications db"
  using assms by (auto simp: bindMessageAttachments_def BindMessageAttachments_def files_bound_def attached_row_def list_ex_iff split: if_splits)

lemma audited_InrD:
  assumes "audited en e db = Inr db1"
  shows "\<exists>log. db1 = db\<lparr>qa_log := log\<rparr>"
  using assms by (auto simp: audited_def split: prod.splits option.splits)

lemma notified_InrD:
  assumes "notified en n db = Inr db1"
  shows "\<exists>rows. db1 = db\<lparr>qa_notifications := rows\<rparr>"
  using assms by (auto simp: notified_def split: sum.splits)

lemma announced_InrD:
  assumes "audited en e db = Inr db1" and "notified en n db1 = Inr db2"
  shows "qa_threads db2 = qa_threads db \<and> qa_messages db2 = qa_messages db \<and> qa_message_files db2 = qa_message_files db"
  using audited_InrD [OF assms(1)] notified_InrD [OF assms(2)] by auto

lemma timestamptz_micro: "timestamptz t mod 1000 = 0"
  by (simp add: timestamptz_def)

lemma activity_later:
  assumes "last_at mod 1000 = 0"
  shows "last_at < timestamptz (monotonicActivity now last_at)"
proof -
  have "last_at + 1000 \<le> monotonicActivity now last_at" by (simp add: monotonicActivity_def Let_def)
  then have "(last_at + 1000) div 1000 \<le> monotonicActivity now last_at div 1000" by (rule zdiv_mono1) simp
  moreover have "1000 * (last_at div 1000) = last_at" using mult_div_mod_eq [of 1000 last_at] assms by simp
  ultimately show ?thesis by (simp add: timestamptz_def)
qed

lemma found_InrD: "found x = Inr y \<Longrightarrow> x = Some y"
  by (simp add: found_def split: option.splits)

lemma LockStudentThread_InrD:
  "LockStudentThread s i db = Inr q \<Longrightarrow> q \<in> set (qa_threads db) \<and> qt_ID q = i \<and> qt_StudentID q = s \<and> active_user RoleStudent s db"
  unfolding LockStudentThread_def by (drule found_InrD) (auto dest: find_SomeD)

lemma LockAdminThread_InrD: "LockAdminThread i db = Inr q \<Longrightarrow> q \<in> set (qa_threads db) \<and> qt_ID q = i"
  unfolding LockAdminThread_def by (drule found_InrD) (auto dest: find_SomeD)

text \<open>The message that an operation stores, as the answer shows it.\<close>

lemma with_attachments_simps [simp]:
  "qm_ID (with_attachments r as) = qm_ID r" "qm_ThreadID (with_attachments r as) = qm_ThreadID r" "qm_Kind (with_attachments r as) = qm_Kind r"
  "qm_CreatedAt (with_attachments r as) = qm_CreatedAt r" "qm_Attachments (with_attachments r as) = as" "qm_Body (with_attachments r as) = qm_Body r"
  "(with_attachments r as)\<lparr>qm_Attachments := bs\<rparr> = with_attachments r bs" "message_columns.truncate (with_attachments r as) = message_columns.truncate r"
  by (simp_all add: with_attachments_def message_columns.extend_def message_columns.truncate_def Message_qa.fields_def)

lemma CreateThreadWithFirstMessage_created:
  assumes "CreateThreadWithFirstMessage tid mid s i now db = Inr (q, m, True, db1)"
  shows "\<exists>r. m = with_attachments r [] \<and> qa_threads db1 = qa_threads db @ [q] \<and> qa_messages db1 = qa_messages db @ [r] \<and>
    qa_message_files db1 = qa_message_files db \<and> fresh_message r db \<and> (\<forall>x \<in> set (qa_threads db). qt_ID x \<noteq> qt_ID q) \<and>
    q = \<lparr>qt_ID = tid, qt_StudentID = s, qt_Title = ct_Title i, qt_Status = StatusPending, qt_Version = 1, qt_LastMessageAt = timestamptz now,
      qt_CreatedAt = timestamptz now, qt_UpdatedAt = timestamptz now, qt_CompletedAt = None\<rparr> \<and>
    r = \<lparr>qm_ID = mid, qm_ThreadID = tid, qm_SenderUserID = s, qm_SenderRole = RoleStudent, qm_Kind = MessageKindInitial, qm_Body = ct_Body i,
      qm_CreatedAt = timestamptz now, qm_IdempotencyKey = ct_IdempotencyKey i\<rparr>"
  using assms unfolding CreateThreadWithFirstMessage_def Let_def
  by (auto simp: list_ex_iff fresh_message_def split: option.splits prod.splits if_splits sum.splits dest!: insert_qa_message_InrD)

lemma CreateThread_move:
  assumes "CreateThread en actor input db = (res, db')"
  shows "qa_move db db'"
proof (cases "\<exists>i. authorizeStudent actor \<and> normalizeCreateInput input = Inr i")
  case False
  then show ?thesis using assms by (auto simp: CreateThread_def split: if_splits sum.splits intro: qa_move.quiet)
next
  case True
  then obtain i where "authorizeStudent actor" and "normalizeCreateInput input = Inr i" by blast
  note t = assms [unfolded CreateThread_def, simplified this, simplified]
  from t show ?thesis
  proof (cases rule: transact_cases)
    case (rolled_back err)
    then show ?thesis by (simp add: qa_move.quiet)
  next
    case (committed x)
    show ?thesis
    proof (cases "FindMessageByIdempotency (u_ID (p_User actor)) (ct_IdempotencyKey i) db")
      case (Some y)
      then show ?thesis using committed by (auto split: prod.splits if_splits intro: qa_move.quiet)
    next
      case None
      with committed obtain as q m created db1 where c: "CreateThreadWithFirstMessage (qe_threadID en) (qe_newID en) (u_ID (p_User actor)) i (qe_now en) db = Inr (q, m, created, db1)"
        and rest: "(if \<not> created then Inr ((q, m), db1) else andThen (bindMessageAttachments (qm_ID m) as db1) (\<lambda>db2.
           andThen (audited en (auditEvent (qe_render en) actor ''qa.thread_created'' (qt_ID q) (counts (ct_Attachments i))) db2) (\<lambda>db3.
           andThen (ActiveAdminID db3) (\<lambda>admin. andThen (notified en (qa_intent admin ''qa_created'' ''New student question'' ''A student created a question.'' (qt_ID q)
             (''/admin/questions/'' @ qe_render en (qt_ID q)) (''qa-created:'' @ qe_render en (qm_ID m))) db3) (\<lambda>db4. Inr ((q, m\<lparr>qm_Attachments := as\<rparr>), db4)))))) = Inr (x, db')"
        by (fastforce simp: andThen_Inr)
      show ?thesis
      proof (cases created)
        case False
        have "db1 = db" using c False None unfolding CreateThreadWithFirstMessage_def Let_def by (auto split: if_splits sum.splits)
        then show ?thesis using rest False by (auto intro: qa_move.quiet)
      next
        case True
        then obtain r where r: "m = with_attachments r []" "qa_threads db1 = qa_threads db @ [q]" "qa_messages db1 = qa_messages db @ [r]"
          "qa_message_files db1 = qa_message_files db" "fresh_message r db" "\<forall>x \<in> set (qa_threads db). qt_ID x \<noteq> qt_ID q"
          and qr: "qm_ThreadID r = qt_ID q" "student_wrote (qt_StudentID q) r" "qm_Kind r = MessageKindInitial" "qt_Status q = StatusPending" "qt_Version q = 1"
          "qt_CompletedAt q = None" "qt_LastMessageAt q = qm_CreatedAt r" "qt_CreatedAt q = qm_CreatedAt r" "qm_CreatedAt r mod 1000 = 0"
          using CreateThreadWithFirstMessage_created c by (fastforce simp: student_wrote_def timestamptz_micro)
        from rest True obtain db2 db3 admin where "bindMessageAttachments (qm_ID m) as db1 = Inr db2"
          and "audited en (auditEvent (qe_render en) actor ''qa.thread_created'' (qt_ID q) (counts (ct_Attachments i))) db2 = Inr db3"
          and "notified en (qa_intent admin ''qa_created'' ''New student question'' ''A student created a question.'' (qt_ID q)
             (''/admin/questions/'' @ qe_render en (qt_ID q)) (''qa-created:'' @ qe_render en (qm_ID m))) db3 = Inr db'" by (auto simp: andThen_Inr)
        from bindMessageAttachments_InrD [OF this(1)] announced_InrD [OF this(2,3)] r
        have "qa_threads db' = qa_threads db @ [q]" "qa_messages db' = qa_messages db @ [r]" "files_bound (qm_ID r) as db db'" by (auto simp: files_bound_def)
        then show ?thesis using r(5,6) qr by (intro qa_move.opened [of db' db q r as]) (simp_all add: NextStatus_def)
      qed
    qed
  qed
qed

text \<open>What a follow-up and a reply have stored when they return: an old message again, or a new one.\<close>

definition message_stored ::
  "Role \<Rightarrow> uuid \<Rightarrow> AddMessageInput_qa \<Rightarrow> Thread_qa \<Rightarrow> Thread_qa \<Rightarrow> Status_qa \<Rightarrow> Attachment_qa list \<Rightarrow> message_row \<Rightarrow> qa_db \<Rightarrow> qa_db \<Rightarrow> bool" where
  "message_stored role sender i q q' st as r db db' \<longleftrightarrow> q \<in> set (qa_threads db) \<and> qt_ID q = am_ThreadID i \<and> qt_Version q = am_ExpectedVersion i \<and>
     q' = q\<lparr>qt_Status := st, qt_Version := qt_Version q + 1, qt_LastMessageAt := qm_CreatedAt r, qt_UpdatedAt := qm_CreatedAt r, qt_CompletedAt := None\<rparr> \<and>
     qa_threads db' = update_where (\<lambda>x. x = q) (\<lambda>_. q') (qa_threads db) \<and> qa_messages db' = qa_messages db @ [r] \<and> files_bound (qm_ID r) as db db' \<and>
     fresh_message r db \<and> qm_ThreadID r = qt_ID q \<and> qt_LastMessageAt q < qm_CreatedAt r \<and> qm_CreatedAt r mod 1000 = 0 \<and>
     qm_SenderRole r = role \<and> qm_SenderUserID r = sender \<and> qm_IdempotencyKey r = am_IdempotencyKey i \<and> qm_Body r = am_Body i"

lemma AppendStudentMessage_InrD:
  assumes "AppendStudentMessage mid q s i st now db = Inr (q', m, db1)" and "qa_inv db" and "q \<in> set (qa_threads db)" and "qt_StudentID q = s" and "st = StatusPending"
  shows "\<exists>r. m = with_attachments r [] \<and> r = \<lparr>qm_ID = mid, qm_ThreadID = qt_ID q, qm_SenderUserID = s, qm_SenderRole = RoleStudent, qm_Kind = MessageKindStudentFollowUp,
      qm_Body = am_Body i, qm_CreatedAt = timestamptz now, qm_IdempotencyKey = am_IdempotencyKey i\<rparr> \<and> fresh_message r db \<and>
    q' = q\<lparr>qt_Status := st, qt_Version := qt_Version q + 1, qt_LastMessageAt := timestamptz now, qt_UpdatedAt := timestamptz now, qt_CompletedAt := None\<rparr> \<and>
    qa_threads db1 = update_where (\<lambda>x. x = q) (\<lambda>_. q') (qa_threads db) \<and> qa_messages db1 = qa_messages db @ [r] \<and> qa_message_files db1 = qa_message_files db"
proof -
  let ?t = "timestamptz now"
  let ?r = "\<lparr>qm_ID = mid, qm_ThreadID = qt_ID q, qm_SenderUserID = s, qm_SenderRole = RoleStudent, qm_Kind = MessageKindStudentFollowUp,
      qm_Body = am_Body i, qm_CreatedAt = ?t, qm_IdempotencyKey = am_IdempotencyKey i\<rparr>"
  let ?f = "\<lambda>x. x\<lparr>qt_Status := st, qt_Version := qt_Version x + 1, qt_LastMessageAt := ?t, qt_UpdatedAt := ?t, qt_CompletedAt := completed_at st ?t\<rparr>"
  from assms(1) obtain db0 where ins: "insert_qa_message ?r db = Inr db0"
    and upd: "update_thread ErrQANotFound (\<lambda>x. qt_ID x = qt_ID q \<and> qt_StudentID x = s \<and> qt_Version x = qt_Version q) ?f db0 = Inr (q', db1)"
    and m: "m = with_attachments ?r []"
    unfolding AppendStudentMessage_def Let_def by (auto split: sum.splits prod.splits)
  from insert_qa_message_InrD [OF ins] have db0: "db0 = db\<lparr>qa_messages := qa_messages db @ [?r]\<rparr>" "fresh_message ?r db" by auto
  have "q' = ?f q \<and> db1 = db0\<lparr>qa_threads := update_where (\<lambda>x. x = q) (\<lambda>_. ?f q) (qa_threads db0)\<rparr>"
    by (rule update_thread_InrD [OF upd]) (use qa_invD(1) [OF assms(2)] assms(3,4) db0(1) in simp_all)
  with db0 m assms(5) show ?thesis by (simp add: completed_at_def)
qed

lemma AppendAdminMessage_InrD:
  assumes "AppendAdminMessage mid q s i st now db = Inr (q', m, db1)" and "qa_inv db" and "q \<in> set (qa_threads db)"
  shows "\<exists>r. m = with_attachments r [] \<and> r = \<lparr>qm_ID = mid, qm_ThreadID = qt_ID q, qm_SenderUserID = s, qm_SenderRole = RoleAdmin, qm_Kind = MessageKindAdminReply,
      qm_Body = am_Body i, qm_CreatedAt = timestamptz now, qm_IdempotencyKey = am_IdempotencyKey i\<rparr> \<and> fresh_message r db \<and>
    q' = q\<lparr>qt_Status := st, qt_Version := qt_Version q + 1, qt_LastMessageAt := timestamptz now, qt_UpdatedAt := timestamptz now, qt_CompletedAt := None\<rparr> \<and>
    qa_threads db1 = update_where (\<lambda>x. x = q) (\<lambda>_. q') (qa_threads db) \<and> qa_messages db1 = qa_messages db @ [r] \<and> qa_message_files db1 = qa_message_files db"
proof -
  let ?t = "timestamptz now"
  let ?r = "\<lparr>qm_ID = mid, qm_ThreadID = qt_ID q, qm_SenderUserID = s, qm_SenderRole = RoleAdmin, qm_Kind = MessageKindAdminReply,
      qm_Body = am_Body i, qm_CreatedAt = ?t, qm_IdempotencyKey = am_IdempotencyKey i\<rparr>"
  let ?f = "\<lambda>x. x\<lparr>qt_Status := st, qt_Version := qt_Version x + 1, qt_LastMessageAt := ?t, qt_UpdatedAt := ?t, qt_CompletedAt := None\<rparr>"
  from assms(1) obtain db0 where ins: "insert_qa_message ?r db = Inr db0"
    and upd: "update_thread ErrThreadConflict (\<lambda>x. qt_ID x = qt_ID q \<and> qt_Version x = qt_Version q) ?f db0 = Inr (q', db1)"
    and m: "m = with_attachments ?r []"
    unfolding AppendAdminMessage_def Let_def by (auto split: sum.splits prod.splits if_splits)
  from insert_qa_message_InrD [OF ins] have db0: "db0 = db\<lparr>qa_messages := qa_messages db @ [?r]\<rparr>" "fresh_message ?r db" by auto
  have "q' = ?f q \<and> db1 = db0\<lparr>qa_threads := update_where (\<lambda>x. x = q) (\<lambda>_. ?f q) (qa_threads db0)\<rparr>"
    by (rule update_thread_InrD [OF upd]) (use qa_invD(1) [OF assms(2)] assms(3) db0(1) in simp_all)
  with db0 m show ?thesis by simp
qed

lemma last_activity_micro: "qa_inv db \<Longrightarrow> q \<in> set (qa_threads db) \<Longrightarrow> qt_LastMessageAt q mod 1000 = 0"
  using qa_invD(5) [of db q] unfolding thread_ok_def by blast

lemma message_stored_move:
  assumes "message_stored role sender i q q' st as r db db'"
    and "student_wrote (qt_StudentID q) r \<and> qm_Kind r = MessageKindStudentFollowUp \<and> NextStatus (qt_Status q) ActionStudentFollowUp RoleStudent = Inr st \<or>
      admin_message r \<and> NextStatus (qt_Status q) ActionAdminReply RoleAdmin = Inr st"
  shows "qa_move db db'"
  by (rule qa_move.appended [of q db db' r st as]) (use assms in \<open>simp_all add: message_stored_def\<close>)

lemma AddStudentMessage_cases:
  assumes "AddStudentMessage en actor input db = (Inr (q', m), db')" and "qa_inv db"
  obtains (replay) i where "normalizeAddMessageInput input = Inr i" "FindMessageByIdempotency (u_ID (p_User actor)) (am_IdempotencyKey i) db = Some (q', m)"
      "qm_Kind m = MessageKindStudentFollowUp" "qt_ID q' = am_ThreadID i" "db' = db"
    | (stored) i q st as r where "normalizeAddMessageInput input = Inr i" "message_stored RoleStudent (u_ID (p_User actor)) i q q' st as r db db'"
      "m = with_attachments r as" "student_wrote (qt_StudentID q) r" "qm_Kind r = MessageKindStudentFollowUp" "NextStatus (qt_Status q) ActionStudentFollowUp RoleStudent = Inr st"
      "FindMessageByIdempotency (u_ID (p_User actor)) (am_IdempotencyKey i) db = None"
proof -
  let ?u = "u_ID (p_User actor)"
  from assms(1) obtain i where n: "normalizeAddMessageInput input = Inr i" and "authorizeStudent actor"
    by (auto simp: AddStudentMessage_def split: if_splits sum.splits)
  note t = transact_Inr [OF assms(1) [unfolded AddStudentMessage_def, simplified this, simplified], THEN conjunct2]
  from t obtain q where l: "LockStudentThread ?u (am_ThreadID i) db = Inr q" by (auto simp: andThen_Inr)
  note t = t [unfolded l, simplified]
  show thesis
  proof (cases "FindMessageByIdempotency ?u (am_IdempotencyKey i) db")
    case (Some y)
    with t show thesis using replay [OF n] by (auto split: prod.splits if_splits)
  next
    case None
    from t None obtain st as m0 db1 db2 db3 db4 admin where v: "qt_Version q = am_ExpectedVersion i" and st: "NextStatus (qt_Status q) ActionStudentFollowUp RoleStudent = Inr st"
      and app: "AppendStudentMessage (qe_newID en) q ?u i st (monotonicActivity (qe_now en) (qt_LastMessageAt q)) db = Inr (q', m0, db1)"
      and b: "bindMessageAttachments (qm_ID m0) as db1 = Inr db2"
      and a: "audited en (auditEvent (qe_render en) actor ''qa.student_followed_up'' (qt_ID q') (counts (am_Attachments i))) db2 = Inr db3"
      and no: "notified en (qa_intent admin ''qa_followed_up'' ''Student follow-up'' ''A student followed up on a question.'' (qt_ID q')
             (''/admin/questions/'' @ qe_render en (qt_ID q')) (''qa-followed-up:'' @ qe_render en (qm_ID m0))) db3 = Inr db'"
      and m: "m = m0\<lparr>qm_Attachments := as\<rparr>"
      by (auto simp: andThen_Inr split: if_splits prod.splits)
    have q: "q \<in> set (qa_threads db)" "qt_ID q = am_ThreadID i" "qt_StudentID q = ?u" using LockStudentThread_InrD [OF l] by auto
    from AppendStudentMessage_InrD [OF app assms(2) q(1,3)] NextStatus_InrD(1) [OF st] obtain r where r: "m0 = with_attachments r []"
      "r = \<lparr>qm_ID = qe_newID en, qm_ThreadID = qt_ID q, qm_SenderUserID = ?u, qm_SenderRole = RoleStudent, qm_Kind = MessageKindStudentFollowUp,
        qm_Body = am_Body i, qm_CreatedAt = timestamptz (monotonicActivity (qe_now en) (qt_LastMessageAt q)), qm_IdempotencyKey = am_IdempotencyKey i\<rparr>" "fresh_message r db"
      "q' = q\<lparr>qt_Status := st, qt_Version := qt_Version q + 1, qt_LastMessageAt := qm_CreatedAt r, qt_UpdatedAt := qm_CreatedAt r, qt_CompletedAt := None\<rparr>"
      "qa_threads db1 = update_where (\<lambda>x. x = q) (\<lambda>_. q') (qa_threads db)" "qa_messages db1 = qa_messages db @ [r]" "qa_message_files db1 = qa_message_files db" by auto
    have f: "qm_ThreadID r = qt_ID q" "qm_SenderUserID r = ?u" "qm_SenderRole r = RoleStudent" "qm_Kind r = MessageKindStudentFollowUp" "qm_Body r = am_Body i"
      "qm_IdempotencyKey r = am_IdempotencyKey i" "qm_CreatedAt r mod 1000 = 0" "qt_LastMessageAt q < qm_CreatedAt r"
      using activity_later [OF last_activity_micro [OF assms(2) q(1)]] unfolding r(2) by (simp_all add: timestamptz_micro)
    have "files_bound (qm_ID r) as db db'" "qa_threads db' = update_where (\<lambda>x. x = q) (\<lambda>_. q') (qa_threads db)" "qa_messages db' = qa_messages db @ [r]"
      using bindMessageAttachments_InrD [OF b] announced_InrD [OF a no] r(1,5-7) by (auto simp: files_bound_def)
    then have "message_stored RoleStudent ?u i q q' st as r db db'" unfolding message_stored_def using r(3,4) f q v by blast
    then show thesis using stored [OF n _ _ _ f(4) st None] m r(1) q(3) f by (simp add: student_wrote_def)
  qed
qed

lemma AddAdminMessage_cases:
  assumes "AddAdminMessage en actor input db = (Inr (q', m), db')" and "qa_inv db"
  obtains (replay) i where "normalizeAddMessageInput input = Inr i" "FindAdminMessageByIdempotency (u_ID (p_User actor)) (am_IdempotencyKey i) db = Some (q', m)"
      "qt_ID q' = am_ThreadID i" "db' = db"
    | (stored) i q st as r where "normalizeAddMessageInput input = Inr i" "message_stored RoleAdmin (u_ID (p_User actor)) i q q' st as r db db'"
      "m = with_attachments r as" "admin_message r" "NextStatus (qt_Status q) ActionAdminReply RoleAdmin = Inr st"
      "FindAdminMessageByIdempotency (u_ID (p_User actor)) (am_IdempotencyKey i) db = None"
proof -
  let ?u = "u_ID (p_User actor)"
  from assms(1) obtain i where n: "normalizeAddMessageInput input = Inr i" and "authorizeAdmin actor"
    by (auto simp: AddAdminMessage_def split: if_splits sum.splits)
  note t = transact_Inr [OF assms(1) [unfolded AddAdminMessage_def, simplified this, simplified], THEN conjunct2]
  from t obtain q where l: "LockAdminThread (am_ThreadID i) db = Inr q" by (auto simp: andThen_Inr)
  note t = t [unfolded l, simplified]
  show thesis
  proof (cases "FindAdminMessageByIdempotency ?u (am_IdempotencyKey i) db")
    case (Some y)
    with t show thesis using replay [OF n] by (auto split: prod.splits if_splits)
  next
    case None
    from t None obtain st as m0 db1 db2 db3 db4 where v: "qt_Version q = am_ExpectedVersion i" and st: "NextStatus (qt_Status q) ActionAdminReply RoleAdmin = Inr st"
      and app: "AppendAdminMessage (qe_newID en) q ?u i st (monotonicActivity (qe_now en) (qt_LastMessageAt q)) db = Inr (q', m0, db1)"
      and b: "bindMessageAttachments (qm_ID m0) as db1 = Inr db2"
      and a: "audited en (auditEvent (qe_render en) actor ''qa.admin_replied'' (qt_ID q') (counts (am_Attachments i) @ statuses (qt_Status q) st)) db2 = Inr db3"
      and no: "notified en (qa_intent (qt_StudentID q') ''qa_replied'' ''Teacher reply'' ''Your teacher replied to a question.'' (qt_ID q')
             (''/student/questions/'' @ qe_render en (qt_ID q')) (''qa-replied:'' @ qe_render en (qm_ID m0))) db3 = Inr db'"
      and m: "m = m0\<lparr>qm_Attachments := as\<rparr>"
      by (auto simp: andThen_Inr split: if_splits prod.splits)
    have q: "q \<in> set (qa_threads db)" "qt_ID q = am_ThreadID i" using LockAdminThread_InrD [OF l] by auto
    from AppendAdminMessage_InrD [OF app assms(2) q(1)] obtain r where r: "m0 = with_attachments r []"
      "r = \<lparr>qm_ID = qe_newID en, qm_ThreadID = qt_ID q, qm_SenderUserID = ?u, qm_SenderRole = RoleAdmin, qm_Kind = MessageKindAdminReply,
        qm_Body = am_Body i, qm_CreatedAt = timestamptz (monotonicActivity (qe_now en) (qt_LastMessageAt q)), qm_IdempotencyKey = am_IdempotencyKey i\<rparr>" "fresh_message r db"
      "q' = q\<lparr>qt_Status := st, qt_Version := qt_Version q + 1, qt_LastMessageAt := qm_CreatedAt r, qt_UpdatedAt := qm_CreatedAt r, qt_CompletedAt := None\<rparr>"
      "qa_threads db1 = update_where (\<lambda>x. x = q) (\<lambda>_. q') (qa_threads db)" "qa_messages db1 = qa_messages db @ [r]" "qa_message_files db1 = qa_message_files db" by auto
    have f: "qm_ThreadID r = qt_ID q" "qm_SenderUserID r = ?u" "qm_SenderRole r = RoleAdmin" "qm_Kind r = MessageKindAdminReply" "qm_Body r = am_Body i"
      "qm_IdempotencyKey r = am_IdempotencyKey i" "qm_CreatedAt r mod 1000 = 0" "qt_LastMessageAt q < qm_CreatedAt r"
      using activity_later [OF last_activity_micro [OF assms(2) q(1)]] unfolding r(2) by (simp_all add: timestamptz_micro)
    have "files_bound (qm_ID r) as db db'" "qa_threads db' = update_where (\<lambda>x. x = q) (\<lambda>_. q') (qa_threads db)" "qa_messages db' = qa_messages db @ [r]"
      using bindMessageAttachments_InrD [OF b] announced_InrD [OF a no] r(1,5-7) by (auto simp: files_bound_def)
    then have "message_stored RoleAdmin ?u i q q' st as r db db'" unfolding message_stored_def using r(3,4) f q v by blast
    then show thesis using stored [OF n _ _ _ st None] m r(1) f by (simp add: admin_message_def)
  qed
qed

lemma failed_message:
  "AddStudentMessage en actor input db = (Inl e, db') \<Longrightarrow> db' = db" "AddAdminMessage en actor input db = (Inl e, db') \<Longrightarrow> db' = db"
  by (auto simp: AddStudentMessage_def AddAdminMessage_def split: if_splits sum.splits dest: transact_Inl)

lemma AddStudentMessage_move:
  assumes "AddStudentMessage en actor input db = (res, db')" and "qa_inv db"
  shows "qa_move db db'"
proof (cases res)
  case (Inl e)
  then show ?thesis using assms(1) failed_message(1) by (blast intro: qa_move.quiet)
next
  case (Inr y)
  then have "AddStudentMessage en actor input db = (Inr (fst y, snd y), db')" using assms(1) by simp
  then show ?thesis using assms(2)
    by (cases rule: AddStudentMessage_cases) (auto intro: qa_move.quiet message_stored_move)
qed

lemma AddAdminMessage_move:
  assumes "AddAdminMessage en actor input db = (res, db')" and "qa_inv db"
  shows "qa_move db db'"
proof (cases res)
  case (Inl e)
  then show ?thesis using assms(1) failed_message(2) by (blast intro: qa_move.quiet)
next
  case (Inr y)
  then have "AddAdminMessage en actor input db = (Inr (fst y, snd y), db')" using assms(1) by simp
  then show ?thesis using assms(2)
    by (cases rule: AddAdminMessage_cases) (auto intro: qa_move.quiet message_stored_move)
qed

lemma ChangeStatus_InrD:
  assumes "ChangeStatus en actor i db = (Inr q', db')" and "qa_inv db"
  shows "\<exists>q st t action. q \<in> set (qa_threads db) \<and> qt_ID q = cs_ThreadID i \<and> qt_Version q = cs_ExpectedVersion i \<and>
    q' = q\<lparr>qt_Status := st, qt_Version := qt_Version q + 1, qt_UpdatedAt := t, qt_CompletedAt := completed_at st t\<rparr> \<and>
    qa_threads db' = update_where (\<lambda>x. x = q) (\<lambda>_. q') (qa_threads db) \<and> qa_messages db' = qa_messages db \<and> qa_message_files db' = qa_message_files db \<and>
    action \<in> {ActionClaim, ActionComplete, ActionReopen} \<and> NextStatus (qt_Status q) action RoleAdmin = Inr st"
proof -
  from assms(1) have "authorizeAdmin actor" "\<not> (cs_ThreadID i = uuid_Nil \<or> cs_ExpectedVersion i < 1 \<or> \<not> validStatusFilter (cs_Status i) \<or> cs_Status i = StatusText [])"
    by (auto simp: ChangeStatus_def split: if_splits)
  note t = transact_Inr [OF assms(1) [unfolded ChangeStatus_def, simplified this, simplified], THEN conjunct2]
  from t obtain q action st db1 db2 where l: "LockAdminThread (cs_ThreadID i) db = Inr q" and v: "qt_Version q = cs_ExpectedVersion i"
    and a: "status_action (cs_Status i) (qt_Status q) = Inr action" and st: "NextStatus (qt_Status q) action RoleAdmin = Inr st"
    and u: "UpdateAdminThreadStatus q st (qe_now en) db = Inr (q', db1)"
    and au: "audited en (auditEvent (qe_render en) actor ''qa.status_changed'' (qt_ID q') (statuses (qt_Status q) st)) db1 = Inr db2"
    and no: "notified en (qa_intent (qt_StudentID q') ''qa_status_changed'' ''Question status changed'' ''Your question status changed.'' (qt_ID q')
           (''/student/questions/'' @ qe_render en (qt_ID q')) (''qa-status:'' @ qe_render en (qt_ID q') @ '':'' @ show_nat (nat (qt_Version q')))) db2 = Inr db'"
    by (auto simp: andThen_Inr split: if_splits prod.splits)
  have q: "q \<in> set (qa_threads db)" "qt_ID q = cs_ThreadID i" using LockAdminThread_InrD [OF l] by auto
  let ?t = "timestamptz (qe_now en)"
  let ?f = "\<lambda>x. x\<lparr>qt_Status := st, qt_Version := qt_Version x + 1, qt_UpdatedAt := ?t, qt_CompletedAt := completed_at st ?t\<rparr>"
  have "q' = ?f q \<and> db1 = db\<lparr>qa_threads := update_where (\<lambda>x. x = q) (\<lambda>_. ?f q) (qa_threads db)\<rparr>"
    by (rule update_thread_InrD [OF u [unfolded UpdateAdminThreadStatus_def Let_def]]) (use qa_invD(1) [OF assms(2)] q in simp_all)
  moreover have "action \<in> {ActionClaim, ActionComplete, ActionReopen}" using a by (auto simp: status_action_def split: if_splits)
  ultimately show ?thesis using q v st announced_InrD [OF au no] by (intro exI [of _ q] exI [of _ st] exI [of _ ?t] exI [of _ action]) simp
qed

lemma ChangeStatus_move:
  assumes "ChangeStatus en actor i db = (res, db')" and "qa_inv db"
  shows "qa_move db db'"
proof (cases res)
  case (Inl e)
  then have "db' = db" using assms(1) by (auto simp: ChangeStatus_def split: if_splits dest: transact_Inl)
  then show ?thesis by (simp add: qa_move.quiet)
next
  case (Inr q')
  from ChangeStatus_InrD [OF assms(1) [unfolded this] assms(2)] obtain q st t action where "q \<in> set (qa_threads db)"
    "q' = q\<lparr>qt_Status := st, qt_Version := qt_Version q + 1, qt_UpdatedAt := t, qt_CompletedAt := completed_at st t\<rparr>"
    "qa_threads db' = update_where (\<lambda>x. x = q) (\<lambda>_. q') (qa_threads db)" "qa_messages db' = qa_messages db" "qa_message_files db' = qa_message_files db"
    "action \<in> {ActionClaim, ActionComplete, ActionReopen}" "NextStatus (qt_Status q) action RoleAdmin = Inr st" by blast
  then show ?thesis by (intro qa_move.moved [of q db db' st t action]) simp_all
qed

lemma AddTeacherNote_move:
  assumes "AddTeacherNote en actor input db = (res, db')"
  shows "qa_move db db'"
proof -
  have "qa_threads db' = qa_threads db \<and> qa_messages db' = qa_messages db \<and> qa_message_files db' = qa_message_files db"
  proof (cases "\<exists>i. authorizeAdmin actor \<and> normalizeTeacherNoteInput input = Inr i")
    case False
    then show ?thesis using assms by (auto simp: AddTeacherNote_def split: if_splits sum.splits)
  next
    case True
    then obtain i where "authorizeAdmin actor" "normalizeTeacherNoteInput input = Inr i" by blast
    note t = assms [unfolded AddTeacherNote_def, simplified this, simplified]
    from t show ?thesis
      by (cases rule: transact_cases)
        (auto simp: andThen_Inr InsertTeacherNote_def Let_def split: if_splits dest!: audited_InrD)
  qed
  then show ?thesis by (simp add: qa_move.quiet)
qed

section \<open>Interleavings\<close>

inductive qa_step :: "qa_db \<Rightarrow> qa_db \<Rightarrow> bool" where
  create: "qa_step db (snd (CreateThread en actor ct db))"
| follow_up: "qa_step db (snd (AddStudentMessage en actor am db))"
| reply: "qa_step db (snd (AddAdminMessage en actor am db))"
| status: "qa_step db (snd (ChangeStatus en actor cs db))"
| annotate: "qa_step db (snd (AddTeacherNote en actor an db))"
| world: "qa_threads db' = qa_threads db \<Longrightarrow> qa_messages db' = qa_messages db \<Longrightarrow> qa_message_files db' = qa_message_files db \<Longrightarrow>
    teacher_notes db' = teacher_notes db \<Longrightarrow> qa_step db db'"

inductive qa_reachable :: "qa_db \<Rightarrow> bool" where
  start: "qa_threads db = [] \<Longrightarrow> qa_messages db = [] \<Longrightarrow> qa_message_files db = [] \<Longrightarrow> qa_reachable db"
| step: "qa_reachable db \<Longrightarrow> qa_step db db' \<Longrightarrow> qa_reachable db'"

lemma qa_step_move: "qa_step db db' \<Longrightarrow> qa_inv db \<Longrightarrow> qa_move db db'"
  by (induction rule: qa_step.induct)
    (metis CreateThread_move prod.collapse, metis AddStudentMessage_move prod.collapse, metis AddAdminMessage_move prod.collapse,
     metis ChangeStatus_move prod.collapse, metis AddTeacherNote_move prod.collapse, rule qa_move.quiet)

lemma qa_reachable_inv: "qa_reachable db \<Longrightarrow> qa_inv db"
proof (induction rule: qa_reachable.induct)
  case (start db)
  then show ?case by (simp add: qa_inv_def keyed_def)
next
  case (step db db')
  then show ?case using qa_step_move qa_move_inv by blast
qed

lemma qa_steps_reachable: "qa_step\<^sup>*\<^sup>* db db' \<Longrightarrow> qa_reachable db \<Longrightarrow> qa_reachable db'"
  by (induction rule: rtranclp_induct) (auto intro: qa_reachable.step)

text \<open>What becomes of a thread in one move and in many.\<close>

definition thread_identity :: "Thread_qa \<Rightarrow> uuid \<times> uuid \<times> string \<times> time" where
  "thread_identity q = (qt_ID q, qt_StudentID q, qt_Title q, qt_CreatedAt q)"

lemma replaced_thread:
  assumes "q \<in> set (qa_threads db)" and "x \<in> set (qa_threads db)" and "qa_threads db' = update_where (\<lambda>x. x = q) (\<lambda>_. q') (qa_threads db)"
    and "thread_identity q' = thread_identity q" and "P q q'" and "\<And>y. P y y"
  shows "\<exists>x' \<in> set (qa_threads db'). thread_identity x' = thread_identity x \<and> P x x'"
  unfolding assms(3) replaced_rows [OF assms(1)] using assms(2,4-6) by (cases "x = q") auto

lemma qa_move_thread:
  assumes "qa_move db db'" and "x \<in> set (qa_threads db)"
  shows "\<exists>x' \<in> set (qa_threads db'). thread_identity x' = thread_identity x \<and>
    (x' = x \<or> qt_Version x' = qt_Version x + 1 \<and> (\<exists>action role. NextStatus (qt_Status x) action role = Inr (qt_Status x')))"
  using assms(1)
proof cases
  case quiet
  then show ?thesis using assms(2) by auto
next
  case (opened q r as)
  then show ?thesis using assms(2) by auto
next
  case (appended q r st as)
  show ?thesis by (rule replaced_thread [OF appended(1) assms(2) appended(2)]) (use appended(9) in \<open>auto simp: thread_identity_def\<close>)
next
  case (moved q st t action)
  show ?thesis by (rule replaced_thread [OF moved(1) assms(2) moved(2)]) (use moved(6) in \<open>auto simp: thread_identity_def\<close>)
qed

lemma qa_move_appends: "qa_move db db' \<Longrightarrow> \<exists>ms. qa_messages db' = qa_messages db @ ms"
  by (cases rule: qa_move.cases) auto

lemma qa_steps_thread:
  assumes "qa_step\<^sup>*\<^sup>* db db2" and "qa_reachable db" and "q \<in> set (qa_threads db)"
  shows "\<exists>q' \<in> set (qa_threads db2). thread_identity q' = thread_identity q \<and> qt_Version q \<le> qt_Version q'"
  using assms(1)
proof (induction rule: rtranclp_induct)
  case base
  then show ?case using assms(3) by blast
next
  case (step y z)
  then obtain q1 where q1: "q1 \<in> set (qa_threads y)" "thread_identity q1 = thread_identity q" "qt_Version q \<le> qt_Version q1" by blast
  have "qa_move y z" by (rule qa_step_move [OF step(2) qa_reachable_inv [OF qa_steps_reachable [OF step(1) assms(2)]]])
  from qa_move_thread [OF this q1(1)] q1 show ?case by fastforce
qed

lemma qa_steps_messages:
  assumes "qa_step\<^sup>*\<^sup>* db db2" and "qa_reachable db"
  shows "set (qa_messages db) \<subseteq> set (qa_messages db2)"
  using assms(1)
proof (induction rule: rtranclp_induct)
  case (step y z)
  have "qa_move y z" by (rule qa_step_move [OF step(2) qa_reachable_inv [OF qa_steps_reachable [OF step(1) assms(2)]]])
  from qa_move_appends [OF this] step(3) show ?case by auto
qed simp

section \<open>Properties\<close>

text \<open>C36: in every reachable state a thread starts with exactly one initial message and its messages are strictly ordered in
  time, all by its student or by the teacher; a pending thread was last written by the student and a waiting one by the
  teacher, exactly the completed threads have a completion time, and no file is attached to two messages.\<close>
theorem qa_threads_consistent:
  assumes "qa_reachable db" and "q \<in> set (qa_threads db)" and "ms = thread_messages (qt_ID q) db"
  shows "ms \<noteq> [] \<and> qm_Kind (hd ms) = MessageKindInitial \<and> (\<forall>r \<in> set (tl ms). qm_Kind r \<noteq> MessageKindInitial) \<and>
    sorted_wrt (<) (map qm_CreatedAt ms) \<and> qt_CreatedAt q = qm_CreatedAt (hd ms) \<and> qt_LastMessageAt q = qm_CreatedAt (last ms) \<and>
    (\<forall>r \<in> set ms. student_wrote (qt_StudentID q) r \<or> admin_message r) \<and> (qt_Status q = StatusCompleted \<longleftrightarrow> qt_CompletedAt q \<noteq> None) \<and>
    (qt_Status q = StatusPending \<longrightarrow> qm_SenderRole (last ms) = RoleStudent) \<and> (qt_Status q = StatusWaitingStudent \<longrightarrow> qm_SenderRole (last ms) = RoleAdmin) \<and>
    keyed mf_version (qa_message_files db)"
proof -
  note inv = qa_reachable_inv [OF assms(1)]
  have ok: "thread_ok ms q" unfolding assms(3) by (rule qa_invD(5) [OF inv assms(2)])
  have "student_wrote (qt_StudentID q) r \<or> admin_message r" if "r \<in> set ms" for r
  proof -
    from that have r: "r \<in> set (qa_messages db)" "qm_ThreadID r = qt_ID q" by (auto simp: assms(3) thread_messages_def)
    from qa_invD(6) [OF inv r(1)] obtain x where "x \<in> set (qa_threads db)" "qt_ID x = qt_ID q" "student_wrote (qt_StudentID x) r \<or> admin_message r"
      by (auto simp: message_ok_def r)
    then show ?thesis using keyed_inj [OF qa_invD(1) [OF inv] _ assms(2)] by blast
  qed
  with ok qa_invD(4) [OF inv] show ?thesis unfolding thread_ok_def status_ok_def by blast
qed

text \<open>C37: every operation of the question service implements the abstract machine: it keeps each thread or moves it, with its
  version, along one edge of the status automaton, never changes who asked what when, and only ever appends messages.\<close>
theorem qa_operations_refine:
  assumes "qa_reachable db" and "qa_step db db'"
  shows "qa_move db db' \<and> (\<exists>ms. qa_messages db' = qa_messages db @ ms) \<and> (\<forall>q \<in> set (qa_threads db). \<exists>q' \<in> set (qa_threads db').
    thread_identity q' = thread_identity q \<and>
    (q' = q \<or> qt_Version q' = qt_Version q + 1 \<and> (\<exists>action role. NextStatus (qt_Status q) action role = Inr (qt_Status q'))))"
  using qa_step_move [OF assms(2) qa_reachable_inv [OF assms(1)]] qa_move_appends qa_move_thread by blast

text \<open>C38: a request that was made for an older version of a thread writes nothing, however much has happened since; at most
  the answer to a repeated key is given again.\<close>
theorem stale_version_writes_nothing:
  assumes "qa_reachable db" and "q \<in> set (qa_threads db)" and "v < qt_Version q" and "qa_step\<^sup>*\<^sup>* db db2"
    and "am_ThreadID am = qt_ID q" and "am_ExpectedVersion am = v" and "cs_ThreadID cs = qt_ID q" and "cs_ExpectedVersion cs = v"
  shows "snd (AddStudentMessage en actor am db2) = db2 \<and> snd (AddAdminMessage en actor am db2) = db2 \<and> snd (ChangeStatus en actor cs db2) = db2"
proof -
  have reach: "qa_reachable db2" by (rule qa_steps_reachable [OF assms(4,1)])
  note inv = qa_reachable_inv [OF reach]
  obtain q2 where q2: "q2 \<in> set (qa_threads db2)" "qt_ID q2 = qt_ID q" "qt_Version q \<le> qt_Version q2"
    using qa_steps_thread [OF assms(4,1,2)] by (auto simp: thread_identity_def)
  have stale: "qt_Version x \<noteq> v" if "x \<in> set (qa_threads db2)" "qt_ID x = qt_ID q" for x
    using keyed_inj [OF qa_invD(1) [OF inv] that(1) q2(1)] that(2) q2(2,3) assms(3) by auto
  have n: "am_ThreadID i = qt_ID q \<and> am_ExpectedVersion i = v" if "normalizeAddMessageInput am = Inr i" for i
    using that assms(5,6) by (auto simp: normalizeAddMessageInput_def Let_def split: if_splits)
  have s: "snd (AddStudentMessage en actor am db2) = db2"
  proof (cases "AddStudentMessage en actor am db2")
    case (Pair res db3)
    show ?thesis
    proof (cases res)
      case (Inr y)
      then have "AddStudentMessage en actor am db2 = (Inr (fst y, snd y), db3)" using Pair by simp
      then show ?thesis using inv by (cases rule: AddStudentMessage_cases) (use n stale Pair in \<open>auto simp: message_stored_def\<close>)
    qed (use Pair failed_message(1) in auto)
  qed
  have a: "snd (AddAdminMessage en actor am db2) = db2"
  proof (cases "AddAdminMessage en actor am db2")
    case (Pair res db3)
    show ?thesis
    proof (cases res)
      case (Inr y)
      then have "AddAdminMessage en actor am db2 = (Inr (fst y, snd y), db3)" using Pair by simp
      then show ?thesis using inv by (cases rule: AddAdminMessage_cases) (use n stale Pair in \<open>auto simp: message_stored_def\<close>)
    qed (use Pair failed_message(2) in auto)
  qed
  have c: "snd (ChangeStatus en actor cs db2) = db2"
  proof (cases "ChangeStatus en actor cs db2")
    case (Pair res db3)
    show ?thesis
    proof (cases res)
      case (Inl e)
      then show ?thesis using Pair by (auto simp: ChangeStatus_def split: if_splits dest: transact_Inl)
    next
      case (Inr y)
      from ChangeStatus_InrD [OF Pair [unfolded this] inv] show ?thesis using stale assms(7,8) by auto
    qed
  qed
  from s a c show ?thesis by blast
qed

text \<open>A stored message is found again by its key as long as its student is active.\<close>

lemma FindMessageByIdempotency_SomeD:
  assumes "FindMessageByIdempotency s key db = Some (q, m)"
  shows "\<exists>r as. r \<in> set (qa_messages db) \<and> qm_SenderUserID r = s \<and> qm_IdempotencyKey r = key \<and> m = with_attachments r as \<and> qm_ThreadID r = qt_ID q"
  using assms by (auto simp: FindMessageByIdempotency_def split: option.splits if_splits dest!: find_SomeD)

lemma FindMessageByIdempotency_found:
  assumes "qa_inv db" and "r \<in> set (qa_messages db)" and "student_wrote s r" and "active_user RoleStudent s db"
  shows "\<exists>q as. FindMessageByIdempotency s (qm_IdempotencyKey r) db = Some (q, with_attachments r as) \<and> qt_ID q = qm_ThreadID r \<and>
    LockStudentThread s (qm_ThreadID r) db = Inr q"
proof -
  from qa_invD(6) [OF assms(1,2)] assms(3) obtain q where q: "q \<in> set (qa_threads db)" "qt_ID q = qm_ThreadID r" "qt_StudentID q = s"
    by (auto simp: message_ok_def student_wrote_def admin_message_def)
  have "find (\<lambda>x. qm_SenderUserID x = s \<and> qm_IdempotencyKey x = qm_IdempotencyKey r) (qa_messages db) = Some r"
    by (rule find_keyed [OF qa_invD(3) [OF assms(1)] assms(2)]) (use assms(3) in \<open>auto simp: student_wrote_def\<close>)
  moreover have "find (\<lambda>x. qt_ID x = qm_ThreadID r \<and> qt_StudentID x = s) (qa_threads db) = Some q"
    by (rule find_keyed [OF qa_invD(1) [OF assms(1)] q(1)]) (use q in auto)
  moreover have "find (\<lambda>x. qt_ID x = qm_ThreadID r \<and> qt_StudentID x = s \<and> active_user RoleStudent s db) (qa_threads db) = Some q"
    by (rule find_keyed [OF qa_invD(1) [OF assms(1)] q(1)]) (use q assms(4) in auto)
  ultimately show ?thesis using q assms(4) by (auto simp: FindMessageByIdempotency_def LockStudentThread_def found_def)
qed

lemma AddStudentMessage_replay:
  assumes "authorizeStudent actor" and "normalizeAddMessageInput input = Inr i" and "\<not> qe_fault en"
    and "LockStudentThread (u_ID (p_User actor)) (am_ThreadID i) db = Inr q" and "FindMessageByIdempotency (u_ID (p_User actor)) (am_IdempotencyKey i) db = Some (q2, m)"
    and "qm_Kind m = MessageKindStudentFollowUp" and "qt_ID q2 = am_ThreadID i"
  shows "AddStudentMessage en actor input db = (Inr (q2, m), db)"
  using assms by (simp add: AddStudentMessage_def transact_def)

text \<open>C39: repeating a follow-up that was answered gives the same message again and changes nothing, whatever happened in
  between, as long as the student is active.\<close>
theorem follow_up_replayed:
  assumes "qa_reachable db" and "AddStudentMessage en actor input db = (Inr (q, m), db')" and "qa_step\<^sup>*\<^sup>* db' db2"
    and "active_user RoleStudent (u_ID (p_User actor)) db2" and "\<not> qe_fault en2"
  shows "\<exists>q2 m2. AddStudentMessage en2 actor input db2 = (Inr (q2, m2), db2) \<and> qt_ID q2 = qt_ID q \<and>
    message_columns.truncate m2 = message_columns.truncate m"
proof -
  let ?u = "u_ID (p_User actor)"
  note inv = qa_reachable_inv [OF assms(1)]
  have au: "authorizeStudent actor" using assms(2) by (auto simp: AddStudentMessage_def split: if_splits)
  have db': "qa_reachable db'" using qa_reachable.step [OF assms(1) qa_step.follow_up [of db en actor input]] assms(2) by simp
  obtain i r as where i: "normalizeAddMessageInput input = Inr i" and r: "r \<in> set (qa_messages db')" "m = with_attachments r as" "qm_Kind r = MessageKindStudentFollowUp"
    "qm_SenderUserID r = ?u" "qm_IdempotencyKey r = am_IdempotencyKey i" "qm_ThreadID r = am_ThreadID i" "qt_ID q = am_ThreadID i"
    using assms(2) inv
  proof (cases rule: AddStudentMessage_cases)
    case (replay i)
    from FindMessageByIdempotency_SomeD [OF replay(2)] replay that show ?thesis by auto
  next
    case (stored i q0 st as r)
    then show ?thesis using that [of i r as] by (auto simp: message_stored_def)
  qed
  have reach: "qa_reachable db2" by (rule qa_steps_reachable [OF assms(3) db'])
  note inv2 = qa_reachable_inv [OF reach]
  have r2: "r \<in> set (qa_messages db2)" using qa_steps_messages [OF assms(3) db'] r(1) by blast
  have "student_wrote ?u r" using qa_invD(6) [OF inv2 r2] r(3,4) by (auto simp: message_ok_def student_wrote_def admin_message_def)
  from FindMessageByIdempotency_found [OF inv2 r2 this assms(4)] obtain q2 bs where
    f: "FindMessageByIdempotency ?u (am_IdempotencyKey i) db2 = Some (q2, with_attachments r bs)" "qt_ID q2 = am_ThreadID i" "LockStudentThread ?u (am_ThreadID i) db2 = Inr q2"
    using r(5,6) by auto
  have "AddStudentMessage en2 actor input db2 = (Inr (q2, with_attachments r bs), db2)"
    by (rule AddStudentMessage_replay [OF au i assms(5) f(3,1)]) (use r(3) f(2) in simp_all)
  then show ?thesis using f(2) r(2,7) by simp
qed

text \<open>The pages of a thread, as a student's client asks for them.\<close>

definition message_page :: "Principal \<Rightarrow> uuid \<Rightarrow> nat \<Rightarrow> qa_db \<Rightarrow> keyset_cursor \<Rightarrow> Message_qa list \<times> keyset_cursor option" where
  "message_page actor i l db c = (case ListStudentMessages False actor i (c\<lparr>kc_Limit := int (Suc l)\<rparr>) db of
     Inl e \<Rightarrow> ([], None) | Inr (ms, n) \<Rightarrow> (ms, if n = zero_cursor then None else Some n))"

lemma follow_map: "follow n (\<lambda>c. (map f (fst (page c)), snd (page c))) c = map_option (map f) (follow n page c)"
  by (induction n arbitrary: c) (auto split: prod.splits option.splits simp: option.map_comp comp_def)

lemma follow_cong:
  assumes "P c" and "\<And>c. P c \<Longrightarrow> page c = page' c" and "\<And>c c'. P c \<Longrightarrow> snd (page' c) = Some c' \<Longrightarrow> P c'"
  shows "follow n page c = follow n page' c"
  using assms(1)
proof (induction n arbitrary: c)
  case (Suc n)
  then show ?case using assms(2) [OF Suc.prems] assms(3) [OF Suc.prems] by (cases "page' c") (auto split: option.splits)
qed simp

lemma message_page_client:
  assumes "authorizeStudent actor" and "GetStudentThread_store (u_ID (p_User actor)) i db = Inr q" and "qa_inv db" and "i \<noteq> uuid_Nil" and "l < 100" and "validCursor c"
  shows "message_page actor i l db c = (map (\<lambda>r. with_attachments r (listStudentMessageAttachments (u_ID (p_User actor)) (qm_ID r) db))
      (fst (client_page (\<lambda>c. oldest_page qm_CreatedAt qm_ID c (thread_messages i db)) qm_CreatedAt qm_ID l c)),
    snd (client_page (\<lambda>c. oldest_page qm_CreatedAt qm_ID c (thread_messages i db)) qm_CreatedAt qm_ID l c))"
proof -
  let ?s = "u_ID (p_User actor)"
  from assms(2) have q: "q \<in> set (qa_threads db)" "qt_ID q = i" "qt_StudentID q = ?s" "active_user RoleStudent ?s db"
    unfolding GetStudentThread_store_def by (auto dest!: found_InrD find_SomeD)
  have "list_ex (\<lambda>q. qt_ID q = i \<and> qt_StudentID q = ?s \<and> (student_wrote ?s r \<or> admin_message r)) (qa_threads db)" if r: "r \<in> set (qa_messages db)" "qm_ThreadID r = i" for r
  proof -
    from qa_invD(6) [OF assms(3) r(1)] r(2) obtain x where x: "x \<in> set (qa_threads db)" "qt_ID x = i" "student_wrote (qt_StudentID x) r \<or> admin_message r"
      by (auto simp: message_ok_def)
    then have "x = q" using keyed_inj [OF qa_invD(1) [OF assms(3)] x(1) q(1)] q(2) by simp
    with x q show ?thesis by (auto simp: list_ex_iff)
  qed
  then have "filter (\<lambda>r. qm_ThreadID r = i \<and> active_user RoleStudent ?s db \<and>
       list_ex (\<lambda>q. qt_ID q = i \<and> qt_StudentID q = ?s \<and> (student_wrote ?s r \<or> admin_message r)) (qa_threads db)) (qa_messages db) = thread_messages i db"
    unfolding thread_messages_def using q(4) by (intro filter_cong) auto
  then show ?thesis using assms(1,2,4-6)
    by (auto simp: message_page_def ListStudentMessages_def ListStudentMessages_store_def limited_def client_page_def Let_def validCursor_def split: list.splits)
qed

text \<open>C40: following the cursors of ListStudentMessages from the start ends and gives the student every message of the thread
  exactly once, oldest first, whatever the size of the pages.\<close>
theorem thread_messages_paged:
  assumes "qa_reachable db" and "authorizeStudent actor" and "GetStudentThread_store (u_ID (p_User actor)) i db = Inr q" and "i \<noteq> uuid_Nil" and "l < 100"
    and "\<forall>r \<in> set (qa_messages db). qm_ID r \<noteq> uuid_Nil \<and> time_zero < qm_CreatedAt r"
  shows "\<exists>ms. follow (Suc (length (thread_messages i db))) (message_page actor i l db) zero_cursor = Some ms \<and>
    map message_columns.truncate ms = map message_columns.truncate (thread_messages i db) \<and> distinct (map qm_ID ms)"
proof -
  note inv = qa_reachable_inv [OF assms(1)]
  let ?ms = "thread_messages i db"
  let ?g = "\<lambda>r. with_attachments r (listStudentMessageAttachments (u_ID (p_User actor)) (qm_ID r) db)"
  let ?page = "client_page (\<lambda>c. oldest_page qm_CreatedAt qm_ID c ?ms) qm_CreatedAt qm_ID l"
  from assms(3) have "q \<in> set (qa_threads db)" "qt_ID q = i" unfolding GetStudentThread_store_def by (auto dest!: found_InrD find_SomeD)
  then have sorted: "sorted_wrt (<) (map qm_CreatedAt ?ms)" using qa_invD(5) [OF inv] by (auto simp: thread_ok_def)
  have ids: "distinct (map qm_ID ?ms)" using qa_invD(2) [OF inv] by (simp add: keyed_def thread_messages_def distinct_map_filter)
  have mem: "\<forall>r \<in> set ?ms. qm_ID r \<noteq> uuid_Nil \<and> time_zero < qm_CreatedAt r" using assms(6) by (simp add: thread_messages_def)
  have "follow (Suc (length ?ms)) (message_page actor i l db) zero_cursor = follow (Suc (length ?ms)) (\<lambda>c. (map ?g (fst (?page c)), snd (?page c))) zero_cursor"
  proof (rule follow_cong [where P = validCursor])
    fix c c' assume "validCursor c" and n: "snd (map ?g (fst (?page c)), snd (?page c)) = Some c'"
    then have n: "snd (?page c) = Some c'" by simp
    then have "length (fst (?page c)) = Suc l" using client_page_next(1) [of "\<lambda>c. oldest_page qm_CreatedAt qm_ID c ?ms" qm_CreatedAt qm_ID l c] by simp
    then have "last (fst (?page c)) \<in> set (fst (?page c))" by (intro last_in_set) auto
    then have "last (fst (?page c)) \<in> set ?ms" unfolding client_page_items by (rule subsetD [OF keyset_page_subset])
    then show "validCursor c'" unfolding client_page_next(2) [OF n] validCursor_def using mem by auto
  qed (use message_page_client [OF assms(2,3) inv assms(4,5)] in \<open>auto simp: validCursor_def zero_cursor_def\<close>)
  also have "\<dots> = map_option (map ?g) (follow (Suc (length ?ms)) ?page zero_cursor)" by (rule follow_map)
  also have "follow (Suc (length ?ms)) ?page zero_cursor = Some (sort_key (\<lambda>r. (qm_CreatedAt r, int (qm_ID r))) (filter (\<lambda>r. oldest_bound zero_cursor < (qm_CreatedAt r, int (qm_ID r))) ?ms))"
    by (rule oldest.follow_complete) (use ids mem in \<open>auto simp: distinct_map inj_on_def\<close>)
  also have "filter (\<lambda>r. oldest_bound zero_cursor < (qm_CreatedAt r, int (qm_ID r))) ?ms = ?ms"
    using mem by (simp add: oldest_bound_def zero_cursor_def less_prod_def filter_id_conv)
  also have "sort_key (\<lambda>r. (qm_CreatedAt r, int (qm_ID r))) ?ms = ?ms"
  proof (rule sort_key_id_if_sorted)
    have "sorted_wrt (\<lambda>a b. (qm_CreatedAt a, int (qm_ID a)) \<le> (qm_CreatedAt b, int (qm_ID b))) ?ms"
      using sorted unfolding sorted_wrt_map by (rule sorted_wrt_mono_rel [rotated]) (simp add: less_eq_prod_def)
    then show "sorted (map (\<lambda>r. (qm_CreatedAt r, int (qm_ID r))) ?ms)" by (simp add: sorted_wrt_map)
  qed
  finally show ?thesis using ids by (auto simp: comp_def)
qed

section \<open>A concrete thread\<close>

definition wit_qa_env :: "uuid \<Rightarrow> qa_env" where
  "wit_qa_env n = \<lparr>qe_parse = (\<lambda>s. Some (decimal_value s)), qe_render = (\<lambda>i. ''00000000'' @ show_nat i), qe_fault = False, qe_now = 5000000 * int n, qe_db_now = 5000000 * int n,
     qe_threadID = 10, qe_newID = 20 + n, qe_notificationID = n, qe_log_next = int n, qe_rank = (\<lambda>i. i)\<rparr>"

definition wit_qa_user :: "uuid \<Rightarrow> Role \<Rightarrow> user_row" where
  "wit_qa_user i r = \<lparr>u_ID = i, u_Username = ''mia'', u_DisplayName = ''Mia'', u_Role = r, u_Status = StatusActive, u_PasswordHash = [], u_MustChangePassword = False,
     u_CreatedAt = 1, ur_Deleted = False\<rparr>"

definition wit_qa_actor :: "uuid \<Rightarrow> Role \<Rightarrow> Principal" where
  "wit_qa_actor i r = \<lparr>p_User = User.truncate (wit_qa_user i r), p_RequestID = ''req'', p_IP = Some ''ip''\<rparr>"

definition wit_question :: CreateThreadInput_qa where
  "wit_question = \<lparr>ct_Title = ''t'', ct_Body = ''b'', ct_IdempotencyKey = ''0123456789abcdef'', ct_Attachments = []\<rparr>"

definition wit_message :: "int \<Rightarrow> AddMessageInput_qa" where
  "wit_message v = \<lparr>am_ThreadID = 10, am_ExpectedVersion = v, am_Body = ''c'', am_IdempotencyKey = ''fedcba9876543210'', am_Attachments = []\<rparr>"

definition wit_thread :: "Status_qa \<Rightarrow> int \<Rightarrow> Thread_qa" where
  "wit_thread st v = \<lparr>qt_ID = 10, qt_StudentID = 7, qt_Title = ''t'', qt_Status = st, qt_Version = v, qt_LastMessageAt = 5000000 * v, qt_CreatedAt = 5000000,
     qt_UpdatedAt = 5000000 * v, qt_CompletedAt = None\<rparr>"

definition wit_asked :: message_row where
  "wit_asked = \<lparr>qm_ID = 21, qm_ThreadID = 10, qm_SenderUserID = 7, qm_SenderRole = RoleStudent, qm_Kind = MessageKindInitial, qm_Body = ''b'', qm_CreatedAt = 5000000,
     qm_IdempotencyKey = ''0123456789abcdef''\<rparr>"

definition wit_reply :: message_row where
  "wit_reply = \<lparr>qm_ID = 22, qm_ThreadID = 10, qm_SenderUserID = 5, qm_SenderRole = RoleAdmin, qm_Kind = MessageKindAdminReply, qm_Body = ''c'', qm_CreatedAt = 10000000,
     qm_IdempotencyKey = ''fedcba9876543210''\<rparr>"

definition wit_qa :: "Thread_qa list \<Rightarrow> message_row list \<Rightarrow> qa_db" where
  "wit_qa qs ms = \<lparr>qa_users = [wit_qa_user 7 RoleStudent, wit_qa_user 5 RoleAdmin], qa_files = [], qa_threads = qs, qa_messages = ms, qa_message_files = [], teacher_notes = [],
     qa_notifications = [], qa_log = []\<rparr>"

lemma wit_digits: "show_nat 10 = ''10''" "show_nat 21 = ''21''" "show_nat 22 = ''22''" "show_nat 23 = ''23''" "show_nat 0 = ''0''"
  by code_simp+

lemma wit_inputs:
  "normalizeCreateInput wit_question = Inr wit_question" "1 \<le> v \<Longrightarrow> normalizeAddMessageInput (wit_message v) = Inr (wit_message v)"
  by (simp_all add: normalizeCreateInput_def normalizeAddMessageInput_def wit_question_def wit_message_def Let_def validText_def validIdempotencyKey_def validAttachments_def
      go_eval)

lemma wit_actors: "authorizeStudent (wit_qa_actor 7 RoleStudent)" "authorizeAdmin (wit_qa_actor 5 RoleAdmin)"
  by (simp_all add: authorizeStudent_def authorizeAdmin_def wit_qa_actor_def wit_qa_user_def User.truncate_def go_eval)

lemma wit_active: "active_user RoleStudent 7 (wit_qa qs ms)" "active_user RoleAdmin 5 (wit_qa qs ms)" "known_student 7 (wit_qa qs ms)" "ActiveAdminID (wit_qa qs ms) = Inr 5"
  "u_ID (p_User (wit_qa_actor i r)) = i" "u_Status (p_User (wit_qa_actor i r)) = StatusActive"
  by (simp_all add: active_user_def known_student_def wit_qa_def wit_qa_user_def ActiveAdminID_def found_def wit_qa_actor_def User.truncate_def)

lemma wit_audits:
  "validateAndMarshal p r (auditEvent (qe_render (wit_qa_env n)) (wit_qa_actor 7 x) ''qa.thread_created'' 10 (counts [])) \<noteq> None"
  "validateAndMarshal p r (auditEvent (qe_render (wit_qa_env n)) (wit_qa_actor 7 x) ''qa.student_followed_up'' 10 (counts [])) \<noteq> None"
  "validateAndMarshal p r (auditEvent (qe_render (wit_qa_env n)) (wit_qa_actor 5 x) ''qa.admin_replied'' 10 (counts [] @ statuses StatusPending StatusWaitingStudent)) \<noteq> None"
  by (simp_all add: validateAndMarshal_def auditEvent_def wit_qa_env_def wit_qa_actor_def wit_qa_user_def User.truncate_def identifier_match_def lower_letter_def digit_def
      go_eval allowedMetadata_def allowedTargetTypes_def validQAEvent_def classifyAuditOutcome_def auditOutcomeRules_def succeeded_actions_def counts_def statuses_def
      qa_status_text_def wit_digits attachment_count_ok_def statuses_ok_def meta_def ParseInt_def decimal_value_def safeQAStatus_def HasPrefix_def)

lemma wit_intents:
  "valid_intent (qe_parse (wit_qa_env n)) (qe_render (wit_qa_env n)) (qa_intent 5 ''qa_created'' ''New student question'' ''A student created a question.'' 10
     (''/admin/questions/'' @ qe_render (wit_qa_env n) 10) (''qa-created:'' @ qe_render (wit_qa_env n) 21))"
  "valid_intent (qe_parse (wit_qa_env n)) (qe_render (wit_qa_env n)) (qa_intent 7 ''qa_replied'' ''Teacher reply'' ''Your teacher replied to a question.'' 10
     (''/student/questions/'' @ qe_render (wit_qa_env n) 10) (''qa-replied:'' @ qe_render (wit_qa_env n) 22))"
  "valid_intent (qe_parse (wit_qa_env n)) (qe_render (wit_qa_env n)) (qa_intent 5 ''qa_followed_up'' ''Student follow-up'' ''A student followed up on a question.'' 10
     (''/admin/questions/'' @ qe_render (wit_qa_env n) 10) (''qa-followed-up:'' @ qe_render (wit_qa_env n) 23))"
  by (simp_all add: valid_intent_def qa_intent_def safeTemplates_def validTarget_def target_rules_def validDedupe_def dedupe_prefixes_def wit_qa_env_def wit_digits
      HasPrefix_def TrimPrefix_def decimal_value_def byte_def)

lemma audited_ok: "validateAndMarshal (qe_parse en) (qe_render en) e \<noteq> None \<Longrightarrow> \<exists>log. audited en e db = Inr (db\<lparr>qa_log := log\<rparr>)"
  by (auto simp: audited_def Write_def)

lemma notified_ok:
  "valid_intent (qe_parse en) (qe_render en) n \<Longrightarrow> qa_notifications db = [] \<Longrightarrow> \<exists>rows. notified en n db = Inr (db\<lparr>qa_notifications := rows\<rparr>)"
  by (auto simp: notified_def Notify_def)

lemma wit_env_simps: "qe_fault (wit_qa_env n) = False" "qe_newID (wit_qa_env n) = 20 + n" "qe_threadID (wit_qa_env n) = 10" "qe_now (wit_qa_env n) = 5000000 * int n"
  by (simp_all add: wit_qa_env_def)

lemma wit_created:
  "\<exists>m log rows. CreateThread (wit_qa_env (Suc 0)) (wit_qa_actor 7 RoleStudent) wit_question (wit_qa [] []) =
     (Inr (wit_thread StatusPending 1, m), (wit_qa [wit_thread StatusPending 1] [wit_asked])\<lparr>qa_log := log, qa_notifications := rows\<rparr>)"
proof -
  let ?db = "wit_qa [wit_thread StatusPending 1] [wit_asked]" and ?en = "wit_qa_env (Suc 0)"
  have find: "FindMessageByIdempotency 7 (ct_IdempotencyKey wit_question) (wit_qa [] []) = None" by (simp add: FindMessageByIdempotency_def wit_qa_def)
  have "sender_allowed wit_asked (wit_qa [wit_thread StatusPending 1] [])" by (simp add: sender_allowed_def wit_asked_def wit_active) (simp add: wit_qa_def wit_thread_def)
  then have "insert_qa_message wit_asked (wit_qa [wit_thread StatusPending 1] []) = Inr ?db" by (simp add: insert_qa_message_def) (simp add: wit_qa_def)
  then have create: "CreateThreadWithFirstMessage 10 21 7 wit_question 5000000 (wit_qa [] []) = Inr (wit_thread StatusPending 1, with_attachments wit_asked [], True, ?db)"
    by (simp add: CreateThreadWithFirstMessage_def find wit_active Let_def) (simp add: wit_qa_def wit_thread_def wit_asked_def wit_question_def timestamptz_def)
  obtain log where a: "audited ?en (auditEvent (qe_render ?en) (wit_qa_actor 7 RoleStudent) ''qa.thread_created'' 10 (counts [])) ?db = Inr (?db\<lparr>qa_log := log\<rparr>)"
    using audited_ok wit_audits(1) by blast
  obtain rows where n: "notified ?en (qa_intent 5 ''qa_created'' ''New student question'' ''A student created a question.'' 10
     (''/admin/questions/'' @ qe_render ?en 10) (''qa-created:'' @ qe_render ?en 21)) (?db\<lparr>qa_log := log\<rparr>) = Inr (?db\<lparr>qa_log := log, qa_notifications := rows\<rparr>)"
    using notified_ok [OF wit_intents(1), of "?db\<lparr>qa_log := log\<rparr>"] by (auto simp: wit_qa_def)
  have t: "qt_ID (wit_thread st v) = 10" "qm_ID wit_asked = 21" "ct_Attachments wit_question = []" for st v by (simp_all add: wit_thread_def wit_asked_def wit_question_def)
  have admin: "ActiveAdminID (?db\<lparr>qa_log := log\<rparr>) = Inr 5" using wit_active(4) by (simp add: ActiveAdminID_def)
  show ?thesis
    by (simp add: CreateThread_def wit_actors wit_inputs wit_env_simps transact_def find wit_active(5,6) ValidateForMessage_def create t bindMessageAttachments_def a admin n [simplified]) blast
qed

lemma wit_replied:
  "\<exists>m log rows. AddAdminMessage (wit_qa_env 2) (wit_qa_actor 5 RoleAdmin) (wit_message 1) (wit_qa [wit_thread StatusPending 1] [wit_asked]) =
     (Inr (wit_thread StatusWaitingStudent 2, m), (wit_qa [wit_thread StatusWaitingStudent 2] [wit_asked, wit_reply])\<lparr>qa_log := log, qa_notifications := rows\<rparr>)"
proof -
  let ?q = "wit_thread StatusPending 1" and ?q' = "wit_thread StatusWaitingStudent 2"
  let ?old = "wit_qa [?q] [wit_asked]" and ?db = "wit_qa [?q'] [wit_asked, wit_reply]" and ?en = "wit_qa_env 2"
  have t: "qt_ID ?q = 10" "qt_Status ?q = StatusPending" "qt_Version ?q = 1" "qt_LastMessageAt ?q = 5000000" "qt_StudentID ?q = 7" "qt_ID ?q' = 10" "qt_StudentID ?q' = 7" "qm_ID wit_reply = 22"
    "am_Attachments (wit_message 1) = []" "am_ThreadID (wit_message 1) = 10" "am_ExpectedVersion (wit_message 1) = 1"
    by (simp_all add: wit_thread_def wit_reply_def wit_message_def)
  have lock: "LockAdminThread 10 ?old = Inr ?q" using wit_active(3) [of "[?q]" "[wit_asked]"] by (simp add: LockAdminThread_def found_def t) (simp add: wit_qa_def t)
  have find: "FindAdminMessageByIdempotency 5 (am_IdempotencyKey (wit_message 1)) ?old = None"
    by (simp add: FindAdminMessageByIdempotency_def wit_qa_def wit_asked_def admin_message_def)
  have act: "monotonicActivity 10000000 5000000 = 10000000" by (simp add: monotonicActivity_def Let_def)
  have "insert_qa_message wit_reply ?old = Inr (wit_qa [?q] [wit_asked, wit_reply])"
    by (simp add: insert_qa_message_def sender_allowed_def wit_reply_def wit_active) (simp add: wit_qa_def wit_asked_def wit_reply_def)
  moreover have "update_thread ErrThreadConflict (\<lambda>x. qt_ID x = 10 \<and> qt_Version x = 1)
      (\<lambda>x. x\<lparr>qt_Status := StatusWaitingStudent, qt_Version := qt_Version x + 1, qt_LastMessageAt := 10000000, qt_UpdatedAt := 10000000, qt_CompletedAt := None\<rparr>)
      (wit_qa [?q] [wit_asked, wit_reply]) = Inr (?q', ?db)"
    by (simp add: update_thread_def wit_qa_def wit_thread_def)
  ultimately have app: "AppendAdminMessage 22 ?q 5 (wit_message 1) StatusWaitingStudent 10000000 ?old = Inr (?q', with_attachments wit_reply [], ?db)"
    by (simp add: AppendAdminMessage_def Let_def wit_active t timestamptz_def) (simp add: wit_reply_def wit_message_def t)
  obtain log where a: "audited ?en (auditEvent (qe_render ?en) (wit_qa_actor 5 RoleAdmin) ''qa.admin_replied'' 10 (counts [] @ statuses StatusPending StatusWaitingStudent)) ?db = Inr (?db\<lparr>qa_log := log\<rparr>)"
    using audited_ok wit_audits(3) by blast
  obtain rows where n: "notified ?en (qa_intent 7 ''qa_replied'' ''Teacher reply'' ''Your teacher replied to a question.'' 10
     (''/student/questions/'' @ qe_render ?en 10) (''qa-replied:'' @ qe_render ?en 22)) (?db\<lparr>qa_log := log\<rparr>) = Inr (?db\<lparr>qa_log := log, qa_notifications := rows\<rparr>)"
    using notified_ok [OF wit_intents(2), of "?db\<lparr>qa_log := log\<rparr>"] by (auto simp: wit_qa_def)
  show ?thesis
    by (simp add: AddAdminMessage_def wit_actors wit_inputs wit_env_simps transact_def lock find wit_active(5,6) t NextStatus_def ValidateForMessage_def act app
        bindMessageAttachments_def a n [simplified]) blast
qed

lemma wit_qa_reachable: "qa_reachable (wit_qa [wit_thread StatusPending 1] [wit_asked])" "qa_reachable (wit_qa [wit_thread StatusWaitingStudent 2] [wit_asked, wit_reply])"
proof -
  have cleared: "qa_reachable (wit_qa qs ms)" if "qa_reachable ((wit_qa qs ms)\<lparr>qa_log := log, qa_notifications := rows\<rparr>)" for qs ms log rows
    by (rule qa_reachable.step [OF that], rule qa_step.world) (simp_all add: wit_qa_def)
  have "qa_reachable (wit_qa [] [])" by (rule qa_reachable.start) (simp_all add: wit_qa_def)
  from qa_reachable.step [OF this qa_step.create] wit_created show 1: "qa_reachable (wit_qa [wit_thread StatusPending 1] [wit_asked])" by (metis cleared snd_conv)
  from qa_reachable.step [OF this qa_step.reply] wit_replied show "qa_reachable (wit_qa [wit_thread StatusWaitingStudent 2] [wit_asked, wit_reply])" by (metis cleared snd_conv)
qed

theorem qa_threads_consistent_witness:
  "qm_SenderRole (last (thread_messages 10 (wit_qa [wit_thread StatusWaitingStudent 2] [wit_asked, wit_reply]))) = RoleAdmin"
  using qa_threads_consistent [OF wit_qa_reachable(2), of "wit_thread StatusWaitingStudent 2", OF _ refl] by (simp add: wit_qa_def wit_thread_def)

theorem qa_operations_refine_witness:
  "\<exists>db'. qa_move (wit_qa [wit_thread StatusPending 1] [wit_asked]) db' \<and> qa_threads db' = [wit_thread StatusWaitingStudent 2]"
proof -
  obtain m log rows where "AddAdminMessage (wit_qa_env 2) (wit_qa_actor 5 RoleAdmin) (wit_message 1) (wit_qa [wit_thread StatusPending 1] [wit_asked]) =
     (Inr (wit_thread StatusWaitingStudent 2, m), (wit_qa [wit_thread StatusWaitingStudent 2] [wit_asked, wit_reply])\<lparr>qa_log := log, qa_notifications := rows\<rparr>)"
    using wit_replied by blast
  with qa_operations_refine [OF wit_qa_reachable(1) qa_step.reply [of _ "wit_qa_env 2" "wit_qa_actor 5 RoleAdmin" "wit_message 1"]] show ?thesis
    by (intro exI conjI [rotated]) (auto simp: wit_qa_def)
qed

theorem stale_version_writes_nothing_witness:
  "snd (AddAdminMessage (wit_qa_env 3) (wit_qa_actor 5 RoleAdmin) (wit_message 1) (wit_qa [wit_thread StatusWaitingStudent 2] [wit_asked, wit_reply])) =
     wit_qa [wit_thread StatusWaitingStudent 2] [wit_asked, wit_reply]"
  using stale_version_writes_nothing [OF wit_qa_reachable(2), of "wit_thread StatusWaitingStudent 2" 1 _ "wit_message 1"
    "\<lparr>cs_ThreadID = 10, cs_ExpectedVersion = 1, cs_Status = StatusCompleted\<rparr>"]
  by (simp add: wit_qa_def wit_thread_def wit_message_def)

theorem thread_messages_paged_witness:
  "\<exists>ms. follow 3 (message_page (wit_qa_actor 7 RoleStudent) 10 0 (wit_qa [wit_thread StatusWaitingStudent 2] [wit_asked, wit_reply])) zero_cursor = Some ms \<and> map qm_ID ms = [21, 22]"
proof -
  let ?db = "wit_qa [wit_thread StatusWaitingStudent 2] [wit_asked, wit_reply]"
  have ms: "thread_messages 10 ?db = [wit_asked, wit_reply]" by (simp add: thread_messages_def wit_qa_def wit_asked_def wit_reply_def)
  have "GetStudentThread_store 7 10 ?db = Inr (wit_thread StatusWaitingStudent 2)"
    using wit_active(1) [of "[wit_thread StatusWaitingStudent 2]" "[wit_asked, wit_reply]"] by (simp add: GetStudentThread_store_def found_def) (simp add: wit_qa_def wit_thread_def)
  moreover have "\<forall>r \<in> set (qa_messages ?db). qm_ID r \<noteq> uuid_Nil \<and> time_zero < qm_CreatedAt r" by (simp add: wit_qa_def wit_asked_def wit_reply_def)
  ultimately obtain xs where xs: "follow 3 (message_page (wit_qa_actor 7 RoleStudent) 10 0 ?db) zero_cursor = Some xs"
    "map message_columns.truncate xs = map message_columns.truncate [wit_asked, wit_reply]"
    using thread_messages_paged [OF wit_qa_reachable(2) wit_actors(1), of 10 "wit_thread StatusWaitingStudent 2" 0] by (auto simp: ms wit_active numeral_3_eq_3)
  have "map qm_ID (map message_columns.truncate xs) = [21, 22]" unfolding xs(2) by (simp add: message_columns.truncate_def wit_asked_def wit_reply_def)
  with xs(1) show ?thesis by (simp add: message_columns.truncate_def comp_def)
qed

lemma wit_followed_up:
  "\<exists>q m db'. AddStudentMessage (wit_qa_env 3) (wit_qa_actor 7 RoleStudent) (wit_message 2) (wit_qa [wit_thread StatusWaitingStudent 2] [wit_asked, wit_reply]) =
     (Inr (q, m), db') \<and> qa_users db' = [wit_qa_user 7 RoleStudent, wit_qa_user 5 RoleAdmin]"
proof -
  let ?q = "wit_thread StatusWaitingStudent 2" and ?q' = "wit_thread StatusPending 3" and ?en = "wit_qa_env 3"
  let ?r = "\<lparr>qm_ID = 23, qm_ThreadID = 10, qm_SenderUserID = 7, qm_SenderRole = RoleStudent, qm_Kind = MessageKindStudentFollowUp, qm_Body = ''c'', qm_CreatedAt = 15000000,
     qm_IdempotencyKey = ''fedcba9876543210''\<rparr>"
  let ?old = "wit_qa [?q] [wit_asked, wit_reply]" and ?db = "wit_qa [?q'] [wit_asked, wit_reply, ?r]"
  have t: "qt_ID ?q = 10" "qt_Status ?q = StatusWaitingStudent" "qt_Version ?q = 2" "qt_LastMessageAt ?q = 10000000" "qt_StudentID ?q = 7" "qt_ID ?q' = 10"
    "am_Attachments (wit_message 2) = []" "am_ThreadID (wit_message 2) = 10" "am_ExpectedVersion (wit_message 2) = 2"
    by (simp_all add: wit_thread_def wit_message_def)
  have lock: "LockStudentThread 7 10 ?old = Inr ?q" using wit_active(1) [of "[?q]" "[wit_asked, wit_reply]"] by (simp add: LockStudentThread_def found_def t) (simp add: wit_qa_def t)
  have find: "FindMessageByIdempotency 7 (am_IdempotencyKey (wit_message 2)) ?old = None"
    by (simp add: FindMessageByIdempotency_def wit_qa_def wit_asked_def wit_reply_def wit_message_def)
  have act: "monotonicActivity 15000000 10000000 = 15000000" by (simp add: monotonicActivity_def Let_def)
  have "insert_qa_message ?r ?old = Inr (wit_qa [?q] [wit_asked, wit_reply, ?r])"
    by (simp add: insert_qa_message_def sender_allowed_def wit_active) (simp add: wit_qa_def wit_asked_def wit_reply_def t)
  moreover have "update_thread ErrQANotFound (\<lambda>x. qt_ID x = 10 \<and> qt_StudentID x = 7 \<and> qt_Version x = 2)
      (\<lambda>x. x\<lparr>qt_Status := StatusPending, qt_Version := qt_Version x + 1, qt_LastMessageAt := 15000000, qt_UpdatedAt := 15000000, qt_CompletedAt := None\<rparr>)
      (wit_qa [?q] [wit_asked, wit_reply, ?r]) = Inr (?q', ?db)"
    by (simp add: update_thread_def wit_qa_def wit_thread_def)
  ultimately have app: "AppendStudentMessage 23 ?q 7 (wit_message 2) StatusPending 15000000 ?old = Inr (?q', with_attachments ?r [], ?db)"
    by (simp add: AppendStudentMessage_def Let_def wit_active t timestamptz_def completed_at_def) (simp add: wit_message_def t completed_at_def)
  obtain log where a: "audited ?en (auditEvent (qe_render ?en) (wit_qa_actor 7 RoleStudent) ''qa.student_followed_up'' 10 (counts [])) ?db = Inr (?db\<lparr>qa_log := log\<rparr>)"
    using audited_ok wit_audits(2) by blast
  obtain rows where n: "notified ?en (qa_intent 5 ''qa_followed_up'' ''Student follow-up'' ''A student followed up on a question.'' 10
     (''/admin/questions/'' @ qe_render ?en 10) (''qa-followed-up:'' @ qe_render ?en 23)) (?db\<lparr>qa_log := log\<rparr>) = Inr (?db\<lparr>qa_log := log, qa_notifications := rows\<rparr>)"
    using notified_ok [OF wit_intents(3), of "?db\<lparr>qa_log := log\<rparr>"] by (auto simp: wit_qa_def)
  have admin: "ActiveAdminID (?db\<lparr>qa_log := log\<rparr>) = Inr 5" using wit_active(4) by (simp add: ActiveAdminID_def)
  have "AddStudentMessage ?en (wit_qa_actor 7 RoleStudent) (wit_message 2) ?old = (Inr (?q', with_attachments ?r []), ?db\<lparr>qa_log := log, qa_notifications := rows\<rparr>)"
    by (simp add: AddStudentMessage_def wit_actors wit_inputs wit_env_simps transact_def lock find wit_active(5,6) t NextStatus_def ValidateForMessage_def act app
        bindMessageAttachments_def a admin n [simplified])
  then show ?thesis by (intro exI conjI) (assumption, simp add: wit_qa_def)
qed

theorem follow_up_replayed_witness:
  "\<exists>q m db' q2 m2. AddStudentMessage (wit_qa_env 3) (wit_qa_actor 7 RoleStudent) (wit_message 2) (wit_qa [wit_thread StatusWaitingStudent 2] [wit_asked, wit_reply]) = (Inr (q, m), db') \<and>
     AddStudentMessage (wit_qa_env 4) (wit_qa_actor 7 RoleStudent) (wit_message 2) db' = (Inr (q2, m2), db')"
proof -
  obtain q m db' where f: "AddStudentMessage (wit_qa_env 3) (wit_qa_actor 7 RoleStudent) (wit_message 2) (wit_qa [wit_thread StatusWaitingStudent 2] [wit_asked, wit_reply]) = (Inr (q, m), db')"
    and u: "qa_users db' = [wit_qa_user 7 RoleStudent, wit_qa_user 5 RoleAdmin]" using wit_followed_up by blast
  have "active_user RoleStudent (u_ID (p_User (wit_qa_actor 7 RoleStudent))) db'" using u by (simp add: active_user_def wit_active wit_qa_user_def)
  from follow_up_replayed [OF wit_qa_reachable(2) f rtranclp.rtrancl_refl this, of "wit_qa_env 4"] f show ?thesis by (auto simp: wit_env_simps)
qed

end
