(* ===== verification/Spec2Isabelle.thy ===== *)
theory Spec2Isabelle
  imports Upload_Service File_Access Processing_Worker Webhook_Queue AI_Runner AI_Stream Auth_Machine Login_Limiter QA_Machine
begin

text \<open>
  VAYZRA is a teaching platform with a Go backend: an HTTP server, a file-processing worker and
  maintenance commands around one PostgreSQL database, an S3 object store and Redis. This
  development models its transactional core, the part where requests, background workers and
  crashes interleave. Paths below are relative to \<^verbatim>\<open>src/internal\<close>.

  \<^bold>\<open>How the parts interact.\<close> A teacher or student uploads a file in parts
  (\<^verbatim>\<open>files/upload_service.go\<close>); completing the upload publishes a file version and queues a
  processing job in the same transaction. A worker (\<^verbatim>\<open>processing/worker.go\<close>) leases jobs,
  renews its lease while the processor runs and settles the job, which makes the version ready,
  rejected or failed. The access services (\<^verbatim>\<open>files/access_service.go\<close>, \<^verbatim>\<open>qa_access.go\<close>,
  \<^verbatim>\<open>ai_access.go\<close>) deliver versions under a fail-closed access log. Publishing a lesson writes
  an outbox event that the notification runner (\<^verbatim>\<open>notifications/\<close>) turns into notifications. The
  monitoring (\<^verbatim>\<open>operations/\<close>) evaluates samples into alerts and announces alert transitions
  through a queue of webhook deliveries. A student's question to the AI reserves quota and queues a
  run (\<^verbatim>\<open>aiqa/service.go\<close>), which a runner leases, streams from the provider into events and
  settles. A maintenance lease admits or blocks both the unsafe HTTP
  requests and the claims of the background workers.

  \<^bold>\<open>Theories and what they model.\<close>
  \<^item> \<open>Prelude\<close>, \<open>Go_Strings\<close>, \<open>Go_Float\<close>: tables, transactions, identifiers and instants; the
    parts of Go's string library that the code calls; \<^verbatim>\<open>float64\<close> with its rounding.
  \<^item> \<open>Files_Model\<close>: the data of \<^verbatim>\<open>files/model.go\<close>, \<^verbatim>\<open>auth/model.go\<close> and the object-store
    interface of \<^verbatim>\<open>platform/objectstore/store.go\<close> as a record of functions.
  \<^item> \<open>Upload_Policy\<close>, \<open>Upload_Parts\<close>: validation of uploads and the arithmetic of parts; the
    contract of a policy is the locale \<open>upload_policy\<close>, interpreted for the three policies.
  \<^item> \<open>Operations_Gate\<close>: \<^verbatim>\<open>operations/write_gate.go\<close> and \<^verbatim>\<open>claim_admission.go\<close>.
  \<^item> \<open>Upload_Store\<close>, \<open>Upload_Invariant\<close>, \<open>Upload_Machine\<close>, \<open>Upload_Service\<close>: the store's
    transactions, the invariant they keep, their interleavings as a step relation, and the
    service that calls them.
  \<^item> \<open>File_Access\<close>: ranges, access decisions, logging and streaming.
  \<^item> \<open>Lease_Protocol\<close>: the locale of a leased work queue, with the bound on the number of times
    a row can be handed out; interpreted for processing jobs and outbox events.
  \<^item> \<open>Processing_Store\<close>, \<open>Processing_Machine\<close>, \<open>Processing_Worker\<close>: the job queue, its
    interleavings and a turn of the worker.
  \<^item> \<open>Outbox\<close>: claiming, delivering, failing and completing publication events.
  \<^item> \<open>Alert_Rules\<close>, \<open>Alert_Evaluation\<close>: settings, samples, rules, and the evaluations built from
    them. \<open>Alert_Store\<close>, \<open>Alert_Machine\<close>: the alert table with its webhook outbox, and the
    automaton it implements. \<open>Webhook_Queue\<close>: claiming, sending and settling deliveries.
  \<^item> \<open>AI_Quota\<close>: quota limits, reservations, context selection and token costs (\<^verbatim>\<open>aiqa/quota.go\<close> and
    parts of \<^verbatim>\<open>service.go\<close>, \<^verbatim>\<open>runner.go\<close>). \<open>AI_Store\<close>, \<open>AI_Machine\<close>: the transactions of
    \<^verbatim>\<open>aiqa/postgres_runtime.go\<close> and \<^verbatim>\<open>postgres_runner.go\<close> on the run, event, message and ledger tables, and
    the relation of their interleavings with its invariant. \<open>AI_Accounting\<close>: what follows for
    usage, limits, life cycles and event streams.
  \<^item> \<open>AI_Attachments\<close>, \<open>AI_Service\<close>: the attachment store as the locale \<open>attachment_context\<close> with its
    interpretation, and the student service over it. \<open>AI_Runner\<close>: the preparation of a leased run and a
    turn of the runner. \<open>AI_Stream\<close>: the reader of server-sent events.
  \<^item> \<open>Audit_Log\<close>: validation, classification and listing of audit events (\<^verbatim>\<open>audit/postgres_store.go\<close>).
    \<open>Auth_Password\<close>: password rules and the PHC format of stored hashes; Argon2 is a parameter.
    \<open>Auth_Store\<close>, \<open>Auth_Service\<close>, \<open>Auth_Machine\<close>: the account and session tables, the services of
    \<^verbatim>\<open>auth/service.go\<close> and \<^verbatim>\<open>students/service.go\<close> with the authentication middleware, and the
    interleavings of their transactions; the locale \<open>revocable\<close> states once what revocation promises.
    \<open>Login_Limiter\<close>: \<^verbatim>\<open>platform/redisx/login_limiter.go\<close> with its redis scripts as functions on a
    key space with expiry.
  \<^item> \<open>Paging\<close>: keyset pagination as the locale \<open>keyset\<close>, interpreted for the listings of the newest and of the
    oldest first. \<open>Notifications\<close>: \<^verbatim>\<open>notifications/postgres_store.go\<close> and \<^verbatim>\<open>service.go\<close>. \<open>QA_Store\<close>,
    \<open>QA_Service\<close>, \<open>QA_Machine\<close>: \<^verbatim>\<open>qanda/\<close>, questions to the teacher, their transactions and
    interleavings, and the abstract machine of threads that they implement.
  \<^bold>\<open>State and operations.\<close> A database is a record of tables, a table the list of its rows. A
  store method is a function from its arguments and the database to a result and the database;
  the argument \<open>fault\<close> says whether the connection fails, in which case the transaction is
  rolled back, and \<open>busy\<close> which rows \<^verbatim>\<open>SKIP LOCKED\<close> passes over. Errors are values of a sum type, with
  one constructor per error the Go code tells apart. Clock readings, random identifiers, digests,
  the object store and remote endpoints are arguments. The machines' step relations have one rule per
  transaction, so their executions are all interleavings of any number of processes, and a
  crash is an execution that simply goes on without the crashed process.

  \<^bold>\<open>What is shown.\<close> Uploads: an object is published only after its bytes were read back with the
  declared size and digest; sessions and versions correspond one to one in every reachable state;
  a cleaned-up object is never published; completion is idempotent; parts tile the object.
  Processing: one active job per version, leases exclude other owners, no job is handed out more
  than four times, leasing makes progress, a worker's turn settles its job. Access: files reach
  only entitled users, every answer is logged, ranges stay in bounds and round-trip, streaming
  ends and is faithful. Outbox: at most ten hand-outs, one notification per recipient, published
  events are final. Alerts: the table refines the hysteresis automaton, evaluations are well
  formed, paging is complete, and webhook attempts are ordered and succeed at most once.
  AI questions: the usage ledger always equals what the runs hold, no transaction raises it above
  the limits, runs and their event streams follow their automaton, requests are idempotent, expired
  runs are cleared, costs are exact and contexts fit, a turn of the runner stores the streamed
  answer, and written server-sent events are read back.
  Accounts: sessions keep their limits, revocation is final, a password change rotates every
  session, a stored hash has exactly one reading, the lockout holds for its whole time, the local
  tables of the limiter stay bounded, and the SQL outcome of an audit row is the classified one.
  Questions: threads stay consistent, the service implements the status automaton, stale requests
  write nothing, repeated requests are answered again, and the pages of a thread are complete.
  Five theorems pin down defects of the code: \<^verbatim>\<open>ReopenCompletion\<close> passes no argument for its
  placeholder and strands an early completion; \<^verbatim>\<open>LeaseNext\<close> rolls back the exhaustion of jobs on an
  idle queue; the outbox runner closes events of other kinds; \<^verbatim>\<open>readSSE\<close> does not bound its events;
  a \<^verbatim>\<open>Login\<close> in flight outlives a password reset.

  \<^bold>\<open>Bounds and fuel.\<close> Sizes and counters are integers with Go's 64-bit wrap-around written out
  (\<open>int64\<close>) where the code computes with values from outside. Loops over lists are structural
  recursion. Three loops depend on their environment: the streaming copy consumes a list of reader
  turns, the file worker and the AI runner lists of events; \<open>None\<close> means that the list ended first, and the theorems
  say how long a list is long enough. \<open>all_pages\<close> follows cursors with fuel, and one more than
  the number of alerts is enough.

  \<^bold>\<open>Not modelled.\<close> HTTP handlers, configuration, logging and process wiring (decoding, rendering and
  glue); external programs driven by the processors; dashboards, which are read-only reports;
  backup and update orchestration; the domain teaching beyond what the modelled
  services read of it; of AI answering the provider adapters, administration and reports. Goroutine-level gates inside one process (\<^verbatim>\<open>sessionGate\<close>) only
  restrict the interleavings considered here.
\<close>

end
